(* ===== verification/Prelude.thy ===== *)
theory Prelude
  imports "HOL-Library.Word" "HOL-Library.Char_ord" "HOL-Library.List_Lexorder"
    "HOL-Library.Product_Lexorder"
begin

text \<open>
  Shared vocabulary of the development: Python strings as lists of code points, the string
  methods the code calls (\<open>strip\<close>, \<open>split\<close>, \<open>join\<close>, decimal formatting), database tables as lists
  of rows with the four query shapes the services use (lookup by key, latest row, oldest row,
  update by key), and the uniqueness of the active job of a document.
\<close>

named_theorems row_simps "looking rows up after an insertion or an update"
named_theorems str_simps "evaluation of the Python string methods"

section \<open>Python strings\<close>

text \<open>A Python \<open>str\<close> is a sequence of code points; \<open>uni\<close> reads an ASCII literal as one.
  Timestamps are microseconds since the epoch, durations in seconds are converted where the code
  compares them.\<close>

type_synonym ustr = "nat list"
type_synonym bytes = "8 word list"
type_synonym time = int

definition uni :: "string \<Rightarrow> ustr" where
  "uni s = map of_char s"

lemma uni_inject [simp]: "uni s = uni t \<longleftrightarrow> s = t"
proof -
  have "inj (of_char :: char \<Rightarrow> nat)"
    by (rule injI) (metis char_of_char)
  then show ?thesis
    by (simp add: uni_def inj_map_eq_map)
qed

lemma uni_Nil [simp]: "uni [] = []"
  by (simp add: uni_def)

lemma uni_eq_Nil [simp]: "uni s = [] \<longleftrightarrow> s = []"
  by (simp add: uni_def)

lemma length_uni [simp]: "length (uni s) = length s"
  by (simp add: uni_def)

lemma uni_append: "uni (s @ t) = uni s @ uni t"
  by (simp add: uni_def)

definition seconds :: "int \<Rightarrow> time" where
  "seconds n = n * 1000000"

text \<open>\<open>str.isspace\<close>, which \<open>strip\<close> and \<open>split\<close> without an argument use.\<close>

definition py_space :: "nat \<Rightarrow> bool" where
  "py_space c \<longleftrightarrow> (9 \<le> c \<and> c \<le> 13) \<or> (28 \<le> c \<and> c \<le> 32) \<or> c = 133 \<or> c = 160 \<or> c = 5760 \<or>
     (8192 \<le> c \<and> c \<le> 8202) \<or> c = 8232 \<or> c = 8233 \<or> c = 8239 \<or> c = 8287 \<or> c = 12288"

definition py_strip :: "ustr \<Rightarrow> ustr" where
  "py_strip s = rev (dropWhile py_space (rev (dropWhile py_space s)))"

fun split_go :: "ustr \<Rightarrow> ustr \<Rightarrow> ustr list" where
  "split_go w [] = (if w = [] then [] else [rev w])"
| "split_go w (c # cs) =
     (if py_space c then (if w = [] then split_go [] cs else rev w # split_go [] cs)
      else split_go (c # w) cs)"

definition py_split :: "ustr \<Rightarrow> ustr list" where
  "py_split s = split_go [] s"

fun join :: "ustr \<Rightarrow> ustr list \<Rightarrow> ustr" where
  "join sep [] = []"
| "join sep [x] = x"
| "join sep (x # y # zs) = x @ sep @ join sep (y # zs)"

fun dec :: "nat \<Rightarrow> ustr" where
  "dec n = (if n < 10 then [48 + n] else dec (n div 10) @ [48 + n mod 10])"

declare dec.simps [simp del]

lemma py_strip_eq_Nil: "py_strip s = [] \<longleftrightarrow> (\<forall>c \<in> set s. py_space c)"
proof
  assume "py_strip s = []"
  then have "\<forall>c \<in> set (dropWhile py_space s). py_space c"
    unfolding py_strip_def by (simp only: rev_is_Nil_conv dropWhile_eq_Nil_conv set_rev)
  then have "dropWhile py_space s = []"
    by (metis hd_dropWhile hd_in_set)
  then show "\<forall>c \<in> set s. py_space c"
    by simp
next
  assume "\<forall>c \<in> set s. py_space c"
  then show "py_strip s = []"
    by (auto simp: py_strip_def dest: set_dropWhileD)
qed

lemma split_go_eq_Nil: "split_go w s = [] \<longleftrightarrow> w = [] \<and> (\<forall>c \<in> set s. py_space c)"
  by (induction w s rule: split_go.induct) auto

text \<open>A text has words exactly when stripping leaves something of it.\<close>

lemma py_split_eq_Nil: "py_split s = [] \<longleftrightarrow> py_strip s = []"
  by (simp add: py_split_def split_go_eq_Nil py_strip_eq_Nil)

definition is_word :: "ustr \<Rightarrow> bool" where
  "is_word w \<longleftrightarrow> w \<noteq> [] \<and> (\<forall>c \<in> set w. \<not> py_space c)"

lemma split_go_words:
  "\<forall>c \<in> set w. \<not> py_space c \<Longrightarrow> \<forall>x \<in> set (split_go w s). is_word x"
proof (induction w s rule: split_go.induct)
  case (1 w)
  then show ?case by (simp add: is_word_def)
next
  case (2 w c cs)
  show ?case
  proof (cases "py_space c")
    case True
    with 2 show ?thesis by (cases "w = []") (simp_all add: is_word_def)
  next
    case False
    with 2 show ?thesis by simp
  qed
qed

lemma py_split_words: "x \<in> set (py_split s) \<Longrightarrow> is_word x"
  using split_go_words [of "[]" s] by (simp add: py_split_def)

lemma split_go_word: "\<forall>c \<in> set v. \<not> py_space c \<Longrightarrow> split_go w (v @ s) = split_go (rev v @ w) s"
  by (induction v arbitrary: w) auto

lemma py_split_join: "\<forall>w \<in> set ws. is_word w \<Longrightarrow> py_split (join [32] ws) = ws"
proof (induction "[32] :: ustr" ws rule: join.induct)
  case 1
  then show ?case by (simp add: py_split_def)
next
  case (2 x)
  then show ?case
    using split_go_word [of x "[]" "[]"] by (simp add: py_split_def is_word_def)
next
  case (3 x y zs)
  then have IH: "split_go [] (join [32] (y # zs)) = y # zs"
    by (simp add: py_split_def)
  have sp: "py_space 32"
    by (simp add: py_space_def)
  show ?case
    using 3 IH sp by (simp add: py_split_def split_go_word is_word_def)
qed

lemma length_join_snoc:
  "length (join [c] (ws @ [w])) = (if ws = [] then length w else length (join [c] ws) + 1 + length w)"
  by (induction "[c]" ws rule: join.induct) (auto simp: neq_Nil_conv)

lemma length_join_Cons:
  "length (join [c] (w # ws)) = (if ws = [] then length w else length w + 1 + length (join [c] ws))"
  by (cases ws) auto

lemma join_not_space:
  "\<forall>w \<in> set ws. is_word w \<Longrightarrow> ws \<noteq> [] \<Longrightarrow> py_strip (join sep ws) \<noteq> []"
  by (induction sep ws rule: join.induct) (auto simp: py_strip_eq_Nil is_word_def neq_Nil_conv)

lemma dec_digits: "c \<in> set (dec n) \<Longrightarrow> 48 \<le> c \<and> c \<le> 57"
proof (induction n rule: dec.induct)
  case (1 n)
  have "n mod 10 < 10"
    by simp
  with 1 show ?case
    by (subst (asm) (2) dec.simps) (auto split: if_splits)
qed

lemma dec_neq_Nil [simp]: "dec n \<noteq> []"
  by (subst dec.simps) simp

text \<open>Reading the digits back.\<close>

fun undec :: "ustr \<Rightarrow> nat" where
  "undec ds = foldl (\<lambda>a c. 10 * a + (c - 48)) 0 ds"

lemma undec_dec [simp]: "undec (dec n) = n"
proof (induction n rule: dec.induct)
  case (1 n)
  then show ?case
    by (subst dec.simps) (auto simp: algebra_simps)
qed

declare undec.simps [simp del]

lemma dec_inject [simp]: "dec m = dec n \<longleftrightarrow> m = n"
  by (metis undec_dec)

definition str_int :: "int \<Rightarrow> ustr" where
  "str_int n = (if n < 0 then uni ''-'' @ dec (nat (- n)) else dec (nat n))"

section \<open>Tables as lists of rows\<close>

definition get_row :: "('r \<Rightarrow> 'k) \<Rightarrow> 'k \<Rightarrow> 'r list \<Rightarrow> 'r option" where
  "get_row key k rows = find (\<lambda>r. key r = k) rows"

definition update_row :: "('r \<Rightarrow> 'k) \<Rightarrow> 'k \<Rightarrow> ('r \<Rightarrow> 'r) \<Rightarrow> 'r list \<Rightarrow> 'r list" where
  "update_row key k f rows = map (\<lambda>r. if key r = k then f r else r) rows"

text \<open>\<open>ORDER BY key DESC LIMIT 1\<close> and \<open>ORDER BY key LIMIT 1\<close>; among rows with an equal key the
  order is not determined by the query, the model takes the first row of the table.\<close>

fun latest_by :: "('r \<Rightarrow> 'k::linorder) \<Rightarrow> 'r list \<Rightarrow> 'r option" where
  "latest_by key [] = None"
| "latest_by key (r # rs) =
     (case latest_by key rs of None \<Rightarrow> Some r
      | Some s \<Rightarrow> if key r < key s then Some s else Some r)"

fun oldest_by :: "('r \<Rightarrow> 'k::linorder) \<Rightarrow> 'r list \<Rightarrow> 'r option" where
  "oldest_by key [] = None"
| "oldest_by key (r # rs) =
     (case oldest_by key rs of None \<Rightarrow> Some r
      | Some s \<Rightarrow> if key s < key r then Some s else Some r)"

fun first_some :: "'a option list \<Rightarrow> 'a option" where
  "first_some [] = None"
| "first_some (None # xs) = first_some xs"
| "first_some (Some x # xs) = Some x"

lemma first_some_None [simp]: "first_some xs = None \<longleftrightarrow> (\<forall>x \<in> set xs. x = None)"
  by (induction xs rule: first_some.induct) auto

lemma get_row_Some: "get_row key k rows = Some r \<Longrightarrow> r \<in> set rows \<and> key r = k"
  by (auto simp: get_row_def find_Some_iff)

lemma get_row_None: "get_row key k rows = None \<longleftrightarrow> k \<notin> key ` set rows"
  by (auto simp: get_row_def find_None_iff)

lemma get_row_Nil [simp]: "get_row key k [] = None"
  by (simp add: get_row_def)

lemma get_row_Cons [simp]:
  "get_row key k (r # rs) = (if key r = k then Some r else get_row key k rs)"
  by (simp add: get_row_def)

lemma get_row_append [row_simps]:
  "get_row key k (rs @ ss) = (case get_row key k rs of None \<Rightarrow> get_row key k ss | Some r \<Rightarrow> Some r)"
  by (induction rs) auto

lemma get_row_distinct:
  "distinct (map key rows) \<Longrightarrow> r \<in> set rows \<Longrightarrow> get_row key (key r) rows = Some r"
  by (induction rows) (auto simp: image_iff)

lemma update_row_Nil [simp]: "update_row key k f [] = []"
  by (simp add: update_row_def)

lemma update_row_Cons [simp]:
  "update_row key k f (r # rs) = (if key r = k then f r else r) # update_row key k f rs"
  by (simp add: update_row_def)

lemma update_row_append [row_simps]:
  "update_row key k f (rs @ ss) = update_row key k f rs @ update_row key k f ss"
  by (simp add: update_row_def)

lemma set_update_row:
  "set (update_row key k f rows) = {r \<in> set rows. key r \<noteq> k} \<union> f ` {r \<in> set rows. key r = k}"
  by (auto simp: update_row_def image_iff)

lemma length_update_row [simp]: "length (update_row key k f rows) = length rows"
  by (simp add: update_row_def)

lemma map_update_row [row_simps]:
  "(\<And>r. g (f r) = g r) \<Longrightarrow> map g (update_row key k f rows) = map g rows"
  by (simp add: update_row_def)

lemma get_row_update_row [row_simps]:
  "(\<And>r. key (f r) = key r) \<Longrightarrow>
   get_row key k' (update_row key k f rows) =
     (if k' = k then map_option f (get_row key k' rows) else get_row key k' rows)"
  by (induction rows) auto

lemma update_row_absent: "k \<notin> key ` set rows \<Longrightarrow> update_row key k f rows = rows"
  by (induction rows) auto

lemma latest_by_None [simp]: "latest_by key rows = None \<longleftrightarrow> rows = []"
  by (cases rows) (auto split: option.splits)

lemma latest_by_Some:
  "latest_by key rows = Some r \<Longrightarrow> r \<in> set rows \<and> (\<forall>s \<in> set rows. key s \<le> key r)"
proof (induction rows arbitrary: r)
  case Nil
  then show ?case by simp
next
  case (Cons a rows)
  show ?case
  proof (cases "latest_by key rows")
    case None
    with Cons.prems show ?thesis by simp
  next
    case (Some s)
    from Cons.IH [OF this] Cons.prems Some show ?thesis
      by (auto split: if_splits)
  qed
qed

lemma latest_by_unique:
  assumes "inj_on key (set rows)" and "r \<in> set rows" and "\<forall>s \<in> set rows. key s \<le> key r"
  shows "latest_by key rows = Some r"
proof (cases "latest_by key rows")
  case None
  with assms(2) show ?thesis by simp
next
  case (Some s)
  from latest_by_Some [OF Some] assms(2,3) have "key s = key r" and "s \<in> set rows"
    by (auto intro: antisym)
  with assms(1,2) have "s = r" by (simp add: inj_on_def)
  with Some show ?thesis by simp
qed

text \<open>A row appended with the greatest key becomes the latest one.\<close>

lemma latest_by_snoc:
  "\<forall>s \<in> set rows. key s < key r \<Longrightarrow> latest_by key (rows @ [r]) = Some r"
  by (induction rows) auto

lemma oldest_by_None [simp]: "oldest_by key rows = None \<longleftrightarrow> rows = []"
  by (cases rows) (auto split: option.splits)

lemma oldest_by_Some:
  "oldest_by key rows = Some r \<Longrightarrow> r \<in> set rows \<and> (\<forall>s \<in> set rows. key r \<le> key s)"
proof (induction rows arbitrary: r)
  case Nil
  then show ?case by simp
next
  case (Cons a rows)
  show ?case
  proof (cases "oldest_by key rows")
    case None
    with Cons.prems show ?thesis by simp
  next
    case (Some s)
    from Cons.IH [OF this] Cons.prems Some show ?thesis
      by (auto split: if_splits)
  qed
qed

section \<open>At most one active row per document\<close>

text \<open>A partial unique index on the document of the active rows.\<close>

definition one_active :: "('r \<Rightarrow> ustr) \<Rightarrow> ('r \<Rightarrow> bool) \<Rightarrow> 'r list \<Rightarrow> bool" where
  "one_active doc act rows \<longleftrightarrow> distinct (map doc (filter act rows))"

lemma one_active_Nil [simp]: "one_active doc act []"
  by (simp add: one_active_def)

lemma one_active_snoc [row_simps]:
  "one_active doc act (rows @ [r]) \<longleftrightarrow>
     one_active doc act rows \<and> (act r \<longrightarrow> (\<forall>s \<in> set rows. act s \<longrightarrow> doc s \<noteq> doc r))"
  by (simp add: one_active_def) (auto simp: image_iff)

text \<open>An update that keeps the document and never turns an inactive row active keeps the index.\<close>

lemma one_active_update:
  assumes "one_active doc act rows"
    and "\<And>r. r \<in> set rows \<Longrightarrow> key r = k \<Longrightarrow> doc (f r) = doc r \<and> (act (f r) \<longrightarrow> act r)"
  shows "one_active doc act (update_row key k f rows)"
  using assms
proof (induction rows)
  case Nil
  then show ?case by simp
next
  case (Cons r rows)
  have sub: "doc ` set (filter act (update_row key k f rows)) \<subseteq> doc ` set (filter act rows)"
    using Cons.prems(2) by (fastforce simp: set_update_row)
  have "one_active doc act (update_row key k f rows)"
    using Cons by (simp add: one_active_def split: if_splits)
  then show ?case
    using Cons.prems sub by (auto simp: one_active_def split: if_splits)
qed

lemma one_active_unique:
  assumes "one_active doc act rows" and "r \<in> set rows" and "s \<in> set rows"
    and "act r" and "act s" and "doc r = doc s"
  shows "r = s"
  using assms by (auto simp: one_active_def distinct_map inj_on_def)

end
