(* ===== verification/Exceptions.thy ===== *)
theory Exceptions
  imports Prelude
begin

text \<open>
  The exceptions the modelled code raises and catches, one constructor per class, with the message
  the code builds (\<open>app/storage/errors.py\<close>, \<open>app/rag/embedding_validation.py\<close>,
  \<open>app/services/documents/dedup_service.py\<close> and the modules that declare the others).  Messages of
  exceptions that a library composes itself (the database driver's, an HTTP client's) are not
  modelled: \<open>str_exn\<close> takes their rendering as an argument.
\<close>

datatype storage_exn =
    StorageUnavailableError ustr
  | StorageObjectNotFoundError ustr
  | StorageWriteError ustr
  | StorageReadError ustr
  | StorageDeleteError ustr
  | StorageMetadataError ustr
  | StorageConfigurationError ustr
  | StorageUrlGenerationError ustr
  | StorageKeyError ustr

fun storage_message :: "storage_exn \<Rightarrow> ustr" where
  "storage_message (StorageUnavailableError m) = m"
| "storage_message (StorageObjectNotFoundError m) = m"
| "storage_message (StorageWriteError m) = m"
| "storage_message (StorageReadError m) = m"
| "storage_message (StorageDeleteError m) = m"
| "storage_message (StorageMetadataError m) = m"
| "storage_message (StorageConfigurationError m) = m"
| "storage_message (StorageUrlGenerationError m) = m"
| "storage_message (StorageKeyError m) = m"

text \<open>What a commit can fail with: a violated constraint, named as PostgreSQL's diagnostics name it,
  or a value that does not fit its column.\<close>

datatype db_error = IntegrityError ustr | DataError ustr

datatype exn =
    StorageErr storage_exn
  | DatabaseErr db_error
  | DocumentTextExtractionError ustr
  | QdrantVectorStoreError ustr
  | OllamaEmbeddingError ustr
  | EmbeddingResultCountMismatchError ustr
  | EmbeddingDimensionMismatchError ustr
  | InvalidEmbeddingIndexConfigError ustr
  | TargetConfigurationMismatchError ustr
  | IncompatibleIndexConfigurationError ustr
  | UnsupportedProviderError ustr
  | DeletionActiveError ustr
  | DeletionIncompleteError ustr
  | DeletionInvariantViolationError ustr
  | MissingWinnerAfterRaceError ustr
  | MissingActiveReindexJobAfterRaceError ustr
  | EmptyQueryError
  | OllamaLLMError ustr
  | ProviderNotImplementedError ustr
  | UnsupportedRagEngineError ustr
  | UnsupportedPromptTypeError ustr
  | UnsupportedPromptLanguageError ustr
  | KeyError ustr
  | ValueError ustr
  | RuntimeError ustr
  | AssertionError
  | LibraryError ustr

text \<open>\<open>repr\<close> of a string: single quotes unless the text holds one and no double quote, backslash
  escapes for control characters.  Code points from 256 on are taken as printable.\<close>

definition hex_digit :: "nat \<Rightarrow> nat" where
  "hex_digit n = (if n < 10 then 48 + n else 87 + n)"

definition repr_char :: "nat \<Rightarrow> nat \<Rightarrow> ustr" where
  "repr_char q c =
     (if c = q \<or> c = 92 then [92, c]
      else if c = 10 then [92, 110]
      else if c = 13 then [92, 114]
      else if c = 9 then [92, 116]
      else if c < 32 \<or> (127 \<le> c \<and> c \<le> 160) \<or> c = 173
        then [92, 120, hex_digit (c div 16), hex_digit (c mod 16)]
      else [c])"

definition py_repr :: "ustr \<Rightarrow> ustr" where
  "py_repr s = (let q = (if 39 \<in> set s \<and> 34 \<notin> set s then 34 else 39)
                in [q] @ concat (map (repr_char q) s) @ [q])"

fun str_exn :: "(exn \<Rightarrow> ustr) \<Rightarrow> exn \<Rightarrow> ustr" where
  "str_exn lib (StorageErr e) = storage_message e"
| "str_exn lib (DocumentTextExtractionError m) = m"
| "str_exn lib (QdrantVectorStoreError m) = m"
| "str_exn lib (OllamaEmbeddingError m) = m"
| "str_exn lib (EmbeddingResultCountMismatchError m) = m"
| "str_exn lib (EmbeddingDimensionMismatchError m) = m"
| "str_exn lib (InvalidEmbeddingIndexConfigError m) = m"
| "str_exn lib (IncompatibleIndexConfigurationError m) = m"
| "str_exn lib (UnsupportedProviderError m) = m"
| "str_exn lib (DeletionActiveError d) =
     uni ''Document '' @ d @ uni '' has an active deletion in progress.''"
| "str_exn lib (DeletionIncompleteError d) =
     uni ''Document '' @ d @ uni '' has an incomplete (partially failed) deletion.''"
| "str_exn lib (DeletionInvariantViolationError d) =
     uni ''Document '' @ d @ uni '' has a COMPLETED deletion but a non-null content_hash '' @ [8212] @
     uni '' the hash should have been released on deletion completion.''"
| "str_exn lib (MissingWinnerAfterRaceError h) =
     uni ''content_hash '' @ py_repr h @ uni '' raised a unique-constraint conflict, but no matching document could be reloaded afterward.''"
| "str_exn lib (MissingActiveReindexJobAfterRaceError d) =
     uni ''Scheduling a re-index job for document '' @ py_repr d @ uni '' raised the '' @
     py_repr (uni ''ix_reindex_jobs_one_active_per_document'') @
     uni '' unique-constraint conflict, but no active job could be reloaded afterward.''"
| "str_exn lib (TargetConfigurationMismatchError m) = m"
| "str_exn lib (ValueError m) = m"
| "str_exn lib (OllamaLLMError m) = m"
| "str_exn lib (ProviderNotImplementedError m) = m"
| "str_exn lib (UnsupportedRagEngineError m) = m"
| "str_exn lib (UnsupportedPromptTypeError m) = m"
| "str_exn lib (UnsupportedPromptLanguageError m) = m"
| "str_exn lib (KeyError k) = py_repr k"
| "str_exn lib (RuntimeError m) = m"
| "str_exn lib AssertionError = []"
| "str_exn lib EmptyQueryError = uni ''query must not be empty''"
| "str_exn lib e = lib e"

end
