(* ===== verification/Http.thy ===== *)
theory Http
  imports Exceptions
begin

text \<open>
  What a route answers: a response body with its status, or a status with a detail text.  An exception that a
  route lets out ends as the fixed response of \<open>app/core/exception_handlers.py\<close>, sent by the innermost
  middleware (\<open>app/core/middleware.py\<close>); no service raises an \<open>AppError\<close>.
\<close>

datatype 'a http_answer = Success nat 'a | Refused nat ustr

definition unexpected_error_detail :: ustr where
  "unexpected_error_detail = uni ''Internal server error.''"

definition unhandled_exception_handler :: "exn \<Rightarrow> 'a http_answer" where
  "unhandled_exception_handler e = Refused 500 unexpected_error_detail"

definition served :: "exn + 'a http_answer \<Rightarrow> 'a http_answer" where
  "served r = (case r of Inl e \<Rightarrow> unhandled_exception_handler e | Inr a \<Rightarrow> a)"

fun answer_status :: "'a http_answer \<Rightarrow> nat" where
  "answer_status (Success n a) = n"
| "answer_status (Refused n t) = n"

fun answer_detail :: "'a http_answer \<Rightarrow> ustr option" where
  "answer_detail (Success n a) = None"
| "answer_detail (Refused n t) = Some t"

text \<open>A query parameter outside its declared range is refused with status 422 before the route runs.\<close>

definition in_range :: "int \<Rightarrow> int \<Rightarrow> int option \<Rightarrow> bool" where
  "in_range v low high \<longleftrightarrow> low \<le> v \<and> (case high of None \<Rightarrow> True | Some h \<Rightarrow> v \<le> h)"

end
