(* ===== verification/Retry.thy ===== *)
theory Retry
  imports Exceptions Complex_Main
begin

text \<open>
  The bounded retry loop (\<open>app/core/retry.py\<close>) and the classification of transient failures of the
  HTTP providers and of the S3 client.  A call is a function on the state of the world; \<open>pause\<close> is
  the sleep, given the upper end of the interval its random length is drawn from.
\<close>

text \<open>The exceptions the third-party clients raise, as far as the adapters distinguish them.\<close>

datatype raw_exn =
    HTTPStatusError nat ustr
  | HTTPError ustr
  | S3Error ustr
  | MaxRetryError
  | RawValueError ustr
  | OtherError ustr

text \<open>An exception no handler names leaves an adapter as it is.\<close>

fun raw_to_exn :: "raw_exn \<Rightarrow> exn" where
  "raw_to_exn (RawValueError m) = ValueError m"
| "raw_to_exn (HTTPStatusError n m) = LibraryError m"
| "raw_to_exn (HTTPError m) = LibraryError m"
| "raw_to_exn (S3Error code) = LibraryError code"
| "raw_to_exn MaxRetryError = LibraryError (uni ''MaxRetryError'')"
| "raw_to_exn (OtherError m) = LibraryError m"

text \<open>A state-passing call: what it returns or raises, and the state it leaves.\<close>

type_synonym ('s, 'e, 'a) call = "'s \<Rightarrow> ('e + 'a) \<times> 's"

record retry_policy =
  max_attempts :: int
  base_delay :: rat
  max_delay :: rat

definition backoff_cap :: "retry_policy \<Rightarrow> nat \<Rightarrow> rat" where
  "backoff_cap pol attempt = min (max_delay pol) (base_delay pol * 2 ^ attempt)"

text \<open>\<open>retry_loop pol pause tr fn left attempt\<close>: \<open>left + 1\<close> attempts remain, the next one has number
  \<open>attempt\<close>.\<close>

fun retry_loop :: "retry_policy \<Rightarrow> (rat \<Rightarrow> 's \<Rightarrow> 's) \<Rightarrow> (raw_exn \<Rightarrow> bool) \<Rightarrow> ('s, raw_exn, 'a) call \<Rightarrow>
    nat \<Rightarrow> nat \<Rightarrow> ('s, raw_exn, 'a) call" where
  "retry_loop pol pause is_transient fn left attempt s =
     (case fn s of
        (Inr x, s') \<Rightarrow> (Inr x, s')
      | (Inl e, s') \<Rightarrow>
          if \<not> is_transient e then (Inl e, s')
          else (case left of
              0 \<Rightarrow> (Inl e, s')
            | Suc n \<Rightarrow> retry_loop pol pause is_transient fn n (Suc attempt)
                (pause (backoff_cap pol attempt) s')))"

declare retry_loop.simps [simp del]

definition retry_async :: "retry_policy \<Rightarrow> (rat \<Rightarrow> 's \<Rightarrow> 's) \<Rightarrow> (raw_exn \<Rightarrow> bool) \<Rightarrow> ('s, raw_exn, 'a) call \<Rightarrow>
    ('s, raw_exn, 'a) call" where
  "retry_async pol pause is_transient fn s =
     (if max_attempts pol < 1 then (Inl (RawValueError (uni ''max_attempts must be at least 1'')), s)
      else retry_loop pol pause is_transient fn (nat (max_attempts pol) - 1) 0 s)"

definition transient_status_codes :: "nat list" where
  "transient_status_codes = [429, 502, 503, 504]"

fun is_transient_httpx_error :: "raw_exn \<Rightarrow> bool" where
  "is_transient_httpx_error (HTTPStatusError status m) = (status \<in> set transient_status_codes)"
| "is_transient_httpx_error (HTTPError m) = True"
| "is_transient_httpx_error e = False"

definition transient_s3_codes :: "ustr list" where
  "transient_s3_codes = [uni ''ServiceUnavailable'', uni ''SlowDown'', uni ''InternalError'']"

fun is_transient_minio_error :: "raw_exn \<Rightarrow> bool" where
  "is_transient_minio_error MaxRetryError = True"
| "is_transient_minio_error (S3Error code) = (code \<in> set transient_s3_codes)"
| "is_transient_minio_error e = False"

section \<open>Which attempt answers\<close>

text \<open>The state before attempt \<open>k\<close>, when every earlier one failed.\<close>

primrec attempt_state :: "retry_policy \<Rightarrow> (rat \<Rightarrow> 's \<Rightarrow> 's) \<Rightarrow> ('s, raw_exn, 'a) call \<Rightarrow> nat \<Rightarrow> nat \<Rightarrow> 's \<Rightarrow> 's"
  where
  "attempt_state pol pause fn from 0 s = s"
| "attempt_state pol pause fn from (Suc k) s =
     attempt_state pol pause fn (Suc from) k (pause (backoff_cap pol from) (snd (fn s)))"

lemma retry_loop_answers:
  "\<exists>k \<le> left. retry_loop pol pause tr fn left from s = fn (attempt_state pol pause fn from k s) \<and>
    (\<forall>i < k. \<exists>e. fst (fn (attempt_state pol pause fn from i s)) = Inl e \<and> tr e) \<and>
    (\<forall>e. fst (fn (attempt_state pol pause fn from k s)) = Inl e \<longrightarrow> tr e \<longrightarrow> k = left)"
proof (induction left arbitrary: "from" s)
  case 0
  then show ?case
    by (intro exI [of _ 0]) (simp add: retry_loop.simps split: prod.splits sum.splits)
next
  case (Suc n)
  show ?case
  proof (cases "\<exists>e. fst (fn s) = Inl e \<and> tr e")
    case False
    then show ?thesis
      by (intro exI [of _ 0]) (auto simp: retry_loop.simps [of _ _ _ _ "Suc n"] split: prod.splits sum.splits)
  next
    case True
    then obtain e where e: "fst (fn s) = Inl e" "tr e" by blast
    let ?s = "pause (backoff_cap pol from) (snd (fn s))"
    from Suc.IH [of "Suc from" ?s] obtain k where k: "k \<le> n"
      "retry_loop pol pause tr fn n (Suc from) ?s = fn (attempt_state pol pause fn (Suc from) k ?s)"
      "\<forall>i < k. \<exists>e. fst (fn (attempt_state pol pause fn (Suc from) i ?s)) = Inl e \<and> tr e"
      "\<forall>e. fst (fn (attempt_state pol pause fn (Suc from) k ?s)) = Inl e \<longrightarrow> tr e \<longrightarrow> k = n"
      by blast
    have "retry_loop pol pause tr fn (Suc n) from s = retry_loop pol pause tr fn n (Suc from) ?s"
      using e by (cases "fn s") (simp add: retry_loop.simps [of _ _ _ _ "Suc n"])
    moreover have "\<exists>e. fst (fn (attempt_state pol pause fn from i s)) = Inl e \<and> tr e" if "i < Suc k" for i
      using that e k(3) by (cases i) auto
    ultimately show ?thesis
      using k by (intro exI [of _ "Suc k"]) simp
  qed
qed

text \<open>C22: A retried call is answered by one of at most \<open>max_attempts\<close> calls: the first that succeeds or
  fails permanently, else the last, whose own exception is raised; every call before it failed
  transiently.\<close>

theorem retry_async_attempts:
  assumes "1 \<le> max_attempts pol"
  shows "\<exists>k < nat (max_attempts pol).
    retry_async pol pause tr fn s = fn (attempt_state pol pause fn 0 k s) \<and>
    (\<forall>i < k. \<exists>e. fst (fn (attempt_state pol pause fn 0 i s)) = Inl e \<and> tr e) \<and>
    (\<forall>e. fst (fn (attempt_state pol pause fn 0 k s)) = Inl e \<longrightarrow> tr e \<longrightarrow>
       k = nat (max_attempts pol) - 1)"
proof -
  from retry_loop_answers [of "nat (max_attempts pol) - 1" pol pause tr fn 0 s] obtain k where
    "k \<le> nat (max_attempts pol) - 1"
    "retry_loop pol pause tr fn (nat (max_attempts pol) - 1) 0 s = fn (attempt_state pol pause fn 0 k s)"
    "\<forall>i < k. \<exists>e. fst (fn (attempt_state pol pause fn 0 i s)) = Inl e \<and> tr e"
    "\<forall>e. fst (fn (attempt_state pol pause fn 0 k s)) = Inl e \<longrightarrow> tr e \<longrightarrow>
       k = nat (max_attempts pol) - 1" by blast
  with assms show ?thesis
    by (intro exI [of _ k]) (auto simp: retry_async_def)
qed

definition sample_policy :: retry_policy where
  "sample_policy = \<lparr>max_attempts = 3, base_delay = 1, max_delay = 8\<rparr>"

text \<open>A server that answers from the second call on.\<close>

definition flaky :: "(nat, raw_exn, ustr) call" where
  "flaky n = ((if n = 0 then Inl (HTTPStatusError 503 []) else Inr (uni ''ok'')), Suc n)"

theorem retry_async_attempts_witness:
  "retry_async sample_policy (\<lambda>_ n. n) is_transient_httpx_error flaky 0 = (Inr (uni ''ok''), 2) \<and>
   (\<exists>k < 3. retry_async sample_policy (\<lambda>_ n. n) is_transient_httpx_error flaky 0 =
      flaky (attempt_state sample_policy (\<lambda>_ n. n) flaky 0 k 0))"
proof
  show "retry_async sample_policy (\<lambda>_ n. n) is_transient_httpx_error flaky 0 = (Inr (uni ''ok''), 2)"
    by (simp add: retry_async_def sample_policy_def retry_loop.simps flaky_def transient_status_codes_def
        numeral_2_eq_2)
  show "\<exists>k < 3. retry_async sample_policy (\<lambda>_ n. n) is_transient_httpx_error flaky 0 =
      flaky (attempt_state sample_policy (\<lambda>_ n. n) flaky 0 k 0)"
    using retry_async_attempts [of sample_policy "\<lambda>_ n. n" is_transient_httpx_error flaky 0]
    by (auto simp: sample_policy_def)
qed

lemma retry_loop_state:
  assumes "\<And>s. P s \<Longrightarrow> P (snd (fn s))" and "\<And>c s. P s \<Longrightarrow> P (pause c s)" and "P s"
  shows "P (snd (retry_loop pol pause tr fn left from s))"
  using assms(3)
proof (induction left arbitrary: "from" s)
  case 0
  then show ?case using assms(1) [of s]
    by (auto simp: retry_loop.simps split: prod.splits sum.splits)
next
  case (Suc n)
  then show ?case using assms(1) [of s] assms(2)
    by (auto simp: retry_loop.simps [of _ _ _ _ "Suc n"] split: prod.splits sum.splits)
qed

text \<open>What a retried call guarantees is what its attempts guarantee in a state reached by failed
  attempts and pauses.\<close>

lemma retry_async_rule:
  assumes "\<And>s. I s \<Longrightarrow> Q (fn s)" and "\<And>s e s'. I s \<Longrightarrow> fn s = (Inl e, s') \<Longrightarrow> tr e \<Longrightarrow> I s'"
    and "\<And>c s. I s \<Longrightarrow> I (pause c s)" and "I s"
    and "Q (Inl (RawValueError (uni ''max_attempts must be at least 1'')), s)"
  shows "Q (retry_async pol pause tr fn s)"
proof -
  have "Q (retry_loop pol pause tr fn n k s)" if "I s" for n k s
    using that
  proof (induction n arbitrary: k s)
    case 0
    then show ?case using assms(1) [of s]
      by (auto simp: retry_loop.simps split: prod.splits sum.splits)
  next
    case (Suc n)
    then show ?case using assms(1) [of s] assms(2) [of s] assms(3)
      by (auto simp: retry_loop.simps [of _ _ _ _ "Suc n"] split: prod.splits sum.splits)
  qed
  with assms(4,5) show ?thesis by (simp add: retry_async_def)
qed

text \<open>A call that leaves a part of the state as it is can be retried without changing it.\<close>

lemma retry_async_frame:
  assumes "\<And>s. g (snd (fn s)) = g s" and "\<And>c s. g (pause c s) = g s"
  shows "g (snd (retry_async pol pause tr fn s)) = g s"
proof (rule retry_async_rule [where I = "\<lambda>s1. g s1 = g s" and Q = "\<lambda>r. g (snd r) = g s"])
  fix s1 e s2 assume "g s1 = g s" "fn s1 = (Inl e, s2)"
  then show "g s2 = g s" using assms(1) [of s1] by simp
qed (simp_all add: assms)

lemma retry_async_result:
  assumes "\<And>s. g (snd (fn s)) = g s" and "\<And>c s. g (pause c s) = g s"
    and "\<And>s. P (g s) (fst (fn s))"
    and "P (g s) (Inl (RawValueError (uni ''max_attempts must be at least 1'')))"
  shows "P (g s) (fst (retry_async pol pause tr fn s))"
proof (rule retry_async_rule [where I = "\<lambda>s1. g s1 = g s" and Q = "\<lambda>r. P (g s) (fst r)"])
  fix s1 assume "g s1 = g s"
  then show "P (g s) (fst (fn s1))" using assms(3) [of s1] by simp
next
  fix s1 e s2 assume "g s1 = g s" "fn s1 = (Inl e, s2)"
  then show "g s2 = g s" using assms(1) [of s1] by simp
qed (simp_all add: assms)

end
