(* ===== verification/Models.thy ===== *)
theory Models
  imports Exceptions
begin

text \<open>
  The data model: one record per ORM class of \<open>app/models\<close>, the database as its six tables, and the
  schema of the baseline migration as the check every commit makes.  A transaction is modelled by
  the database it would leave behind; \<open>commit\<close> accepts it or names the first constraint it violates,
  in which case the session is rolled back and the database is the one before.
\<close>

section \<open>Statuses\<close>

datatype ingestion_status = IngPending | IngProcessing | IngCompleted | IngFailed

datatype deletion_status = DelPending | DelProcessing | DelPartiallyFailed | DelCompleted

datatype reindex_status = RixPending | RixProcessing | RixCompleted | RixFailed

datatype cleanup_status = VcPending | VcFailed | VcCompleted

datatype collection_status = IcActive | IcRetired

fun ingestion_status_value :: "ingestion_status \<Rightarrow> ustr" where
  "ingestion_status_value IngPending = uni ''pending''"
| "ingestion_status_value IngProcessing = uni ''processing''"
| "ingestion_status_value IngCompleted = uni ''completed''"
| "ingestion_status_value IngFailed = uni ''failed''"

fun deletion_status_value :: "deletion_status \<Rightarrow> ustr" where
  "deletion_status_value DelPending = uni ''pending''"
| "deletion_status_value DelProcessing = uni ''processing''"
| "deletion_status_value DelPartiallyFailed = uni ''partially_failed''"
| "deletion_status_value DelCompleted = uni ''completed''"

fun reindex_status_value :: "reindex_status \<Rightarrow> ustr" where
  "reindex_status_value RixPending = uni ''pending''"
| "reindex_status_value RixProcessing = uni ''processing''"
| "reindex_status_value RixCompleted = uni ''completed''"
| "reindex_status_value RixFailed = uni ''failed''"

fun cleanup_status_value :: "cleanup_status \<Rightarrow> ustr" where
  "cleanup_status_value VcPending = uni ''pending''"
| "cleanup_status_value VcFailed = uni ''failed''"
| "cleanup_status_value VcCompleted = uni ''completed''"

section \<open>Rows\<close>

record document =
  doc_id :: ustr
  original_filename :: ustr
  stored_filename :: ustr
  content_type :: ustr
  file_size :: int
  stored_path :: ustr
  doc_created_at :: time
  storage_provider :: "ustr option"
  storage_bucket :: "ustr option"
  storage_key :: "ustr option"
  storage_etag :: "ustr option"
  content_hash :: "ustr option"
  embedding_provider :: "ustr option"
  embedding_model :: "ustr option"
  embedding_dimension :: "int option"
  embedding_version :: "ustr option"
  chunking_version :: "ustr option"
  collection_name :: "ustr option"
  indexed_at :: "time option"

record ingestion_job =
  ing_id :: ustr
  ing_document_id :: ustr
  ing_status :: ingestion_status
  ing_error_message :: "ustr option"
  ing_created_at :: time
  ing_updated_at :: time

record deletion_job =
  del_id :: ustr
  del_document_id :: ustr
  del_status :: deletion_status
  vector_cleanup_completed :: bool
  storage_cleanup_completed :: bool
  del_error_code :: "ustr option"
  del_error_message :: "ustr option"
  del_created_at :: time
  del_updated_at :: time
  del_completed_at :: "time option"

record reindex_job =
  rix_id :: ustr
  rix_document_id :: ustr
  source_collection_name :: ustr
  target_collection_name :: ustr
  target_chunk_size :: int
  target_chunk_overlap :: int
  rix_status :: reindex_status
  rix_error_message :: "ustr option"
  rix_created_at :: time
  rix_updated_at :: time
  rix_completed_at :: "time option"
  activated_at :: "time option"

record cleanup_job =
  vc_id :: ustr
  vc_document_id :: ustr
  vc_collection_name :: ustr
  vc_status :: cleanup_status
  attempts :: int
  last_error :: "ustr option"
  vc_created_at :: time
  vc_completed_at :: "time option"

record index_collection =
  ic_collection_name :: ustr
  ic_embedding_provider :: ustr
  ic_embedding_model :: ustr
  ic_embedding_dimension :: int
  ic_embedding_version :: ustr
  ic_chunking_version :: ustr
  ic_status :: collection_status
  ic_created_at :: time

record db =
  index_collections :: "index_collection list"
  documents :: "document list"
  ingestion_jobs :: "ingestion_job list"
  deletion_jobs :: "deletion_job list"
  reindex_jobs :: "reindex_job list"
  cleanup_jobs :: "cleanup_job list"

definition empty_db :: db where
  "empty_db = \<lparr>index_collections = [], documents = [], ingestion_jobs = [], deletion_jobs = [],
     reindex_jobs = [], cleanup_jobs = []\<rparr>"

text \<open>The active statuses of the three partial unique indexes.\<close>

definition ing_active :: "ingestion_job \<Rightarrow> bool" where
  "ing_active j \<longleftrightarrow> ing_status j = IngPending \<or> ing_status j = IngProcessing"

definition del_active :: "deletion_job \<Rightarrow> bool" where
  "del_active j \<longleftrightarrow> del_status j = DelPending \<or> del_status j = DelProcessing"

definition rix_active :: "reindex_job \<Rightarrow> bool" where
  "rix_active j \<longleftrightarrow> rix_status j = RixPending \<or> rix_status j = RixProcessing"

section \<open>The schema\<close>

definition too_long :: "nat \<Rightarrow> ustr \<Rightarrow> bool" where
  "too_long n s \<longleftrightarrow> n < length s"

definition too_long_opt :: "nat \<Rightarrow> ustr option \<Rightarrow> bool" where
  "too_long_opt n s \<longleftrightarrow> (case s of None \<Rightarrow> False | Some t \<Rightarrow> n < length t)"

definition no_int4 :: "int \<Rightarrow> bool" where
  "no_int4 n \<longleftrightarrow> n < - 2147483648 \<or> 2147483647 < n"

definition no_int4_opt :: "int option \<Rightarrow> bool" where
  "no_int4_opt n \<longleftrightarrow> (case n of None \<Rightarrow> False | Some m \<Rightarrow> no_int4 m)"

fun bad_column :: "(string \<times> bool) list \<Rightarrow> db_error option" where
  "bad_column [] = None"
| "bad_column ((name, bad) # cs) = (if bad then Some (DataError (uni name)) else bad_column cs)"

definition constraint :: "string \<Rightarrow> bool \<Rightarrow> db_error option" where
  "constraint name holds = (if holds then None else Some (IntegrityError (uni name)))"

definition index_collection_columns :: "index_collection \<Rightarrow> db_error option" where
  "index_collection_columns r = bad_column
     [(''collection_name'', too_long 255 (ic_collection_name r)),
      (''embedding_provider'', too_long 64 (ic_embedding_provider r)),
      (''embedding_model'', too_long 255 (ic_embedding_model r)),
      (''embedding_dimension'', no_int4 (ic_embedding_dimension r)),
      (''embedding_version'', too_long 64 (ic_embedding_version r)),
      (''chunking_version'', too_long 64 (ic_chunking_version r))]"

definition document_columns :: "document \<Rightarrow> db_error option" where
  "document_columns r = bad_column
     [(''id'', too_long 36 (doc_id r)),
      (''original_filename'', too_long 1024 (original_filename r)),
      (''stored_filename'', too_long 255 (stored_filename r)),
      (''content_type'', too_long 255 (content_type r)),
      (''file_size'', no_int4 (file_size r)),
      (''stored_path'', too_long 2048 (stored_path r)),
      (''storage_provider'', too_long_opt 32 (storage_provider r)),
      (''storage_bucket'', too_long_opt 255 (storage_bucket r)),
      (''storage_key'', too_long_opt 2048 (storage_key r)),
      (''storage_etag'', too_long_opt 255 (storage_etag r)),
      (''content_hash'', too_long_opt 64 (content_hash r)),
      (''embedding_provider'', too_long_opt 64 (embedding_provider r)),
      (''embedding_model'', too_long_opt 255 (embedding_model r)),
      (''embedding_dimension'', no_int4_opt (embedding_dimension r)),
      (''embedding_version'', too_long_opt 64 (embedding_version r)),
      (''chunking_version'', too_long_opt 64 (chunking_version r)),
      (''collection_name'', too_long_opt 255 (collection_name r))]"

definition ingestion_columns :: "ingestion_job \<Rightarrow> db_error option" where
  "ingestion_columns r = bad_column
     [(''id'', too_long 36 (ing_id r)),
      (''document_id'', too_long 36 (ing_document_id r)),
      (''error_message'', too_long_opt 2048 (ing_error_message r))]"

definition deletion_columns :: "deletion_job \<Rightarrow> db_error option" where
  "deletion_columns r = bad_column
     [(''id'', too_long 36 (del_id r)),
      (''document_id'', too_long 36 (del_document_id r)),
      (''error_code'', too_long_opt 64 (del_error_code r)),
      (''error_message'', too_long_opt 2048 (del_error_message r))]"

definition reindex_columns :: "reindex_job \<Rightarrow> db_error option" where
  "reindex_columns r = bad_column
     [(''id'', too_long 36 (rix_id r)),
      (''document_id'', too_long 36 (rix_document_id r)),
      (''source_collection_name'', too_long 255 (source_collection_name r)),
      (''target_collection_name'', too_long 255 (target_collection_name r)),
      (''target_chunk_size'', no_int4 (target_chunk_size r)),
      (''target_chunk_overlap'', no_int4 (target_chunk_overlap r)),
      (''error_message'', too_long_opt 2048 (rix_error_message r))]"

definition cleanup_columns :: "cleanup_job \<Rightarrow> db_error option" where
  "cleanup_columns r = bad_column
     [(''id'', too_long 36 (vc_id r)),
      (''document_id'', too_long 36 (vc_document_id r)),
      (''collection_name'', too_long 255 (vc_collection_name r)),
      (''attempts'', no_int4 (attempts r))]"

definition check_index_collections :: "db \<Rightarrow> db_error option" where
  "check_index_collections d = first_some
     (map index_collection_columns (index_collections d) @
      [constraint ''index_collections_pkey'' (distinct (map ic_collection_name (index_collections d)))])"

definition check_documents :: "db \<Rightarrow> db_error option" where
  "check_documents d = first_some
     (map document_columns (documents d) @
      [constraint ''documents_pkey'' (distinct (map doc_id (documents d))),
       constraint ''documents_stored_filename_key'' (distinct (map stored_filename (documents d))),
       constraint ''uq_documents_content_hash''
         (distinct (List.map_filter content_hash (documents d))),
       constraint ''fk_documents_collection_name_index_collections''
         (\<forall>r \<in> set (documents d). case collection_name r of None \<Rightarrow> True
            | Some c \<Rightarrow> c \<in> set (map ic_collection_name (index_collections d)))])"

definition check_ingestion_jobs :: "db \<Rightarrow> db_error option" where
  "check_ingestion_jobs d = first_some
     (map ingestion_columns (ingestion_jobs d) @
      [constraint ''ingestion_jobs_pkey'' (distinct (map ing_id (ingestion_jobs d))),
       constraint ''ix_ingestion_jobs_one_active_per_document''
         (one_active ing_document_id ing_active (ingestion_jobs d)),
       constraint ''ingestion_jobs_document_id_fkey''
         (\<forall>r \<in> set (ingestion_jobs d). ing_document_id r \<in> set (map doc_id (documents d)))])"

definition check_deletion_jobs :: "db \<Rightarrow> db_error option" where
  "check_deletion_jobs d = first_some
     (map deletion_columns (deletion_jobs d) @
      [constraint ''document_deletion_jobs_pkey'' (distinct (map del_id (deletion_jobs d))),
       constraint ''ix_document_deletion_jobs_one_active_per_document''
         (one_active del_document_id del_active (deletion_jobs d)),
       constraint ''document_deletion_jobs_document_id_fkey''
         (\<forall>r \<in> set (deletion_jobs d). del_document_id r \<in> set (map doc_id (documents d)))])"

definition check_reindex_jobs :: "db \<Rightarrow> db_error option" where
  "check_reindex_jobs d = first_some
     (map reindex_columns (reindex_jobs d) @
      [constraint ''reindex_jobs_pkey'' (distinct (map rix_id (reindex_jobs d))),
       constraint ''ix_reindex_jobs_one_active_per_document''
         (one_active rix_document_id rix_active (reindex_jobs d)),
       constraint ''reindex_jobs_document_id_fkey''
         (\<forall>r \<in> set (reindex_jobs d). rix_document_id r \<in> set (map doc_id (documents d))),
       constraint ''fk_reindex_jobs_source_collection_name_index_collections''
         (\<forall>r \<in> set (reindex_jobs d). source_collection_name r \<in>
            set (map ic_collection_name (index_collections d))),
       constraint ''reindex_jobs_target_collection_name_fkey''
         (\<forall>r \<in> set (reindex_jobs d). target_collection_name r \<in>
            set (map ic_collection_name (index_collections d)))])"

definition check_cleanup_jobs :: "db \<Rightarrow> db_error option" where
  "check_cleanup_jobs d = first_some
     (map cleanup_columns (cleanup_jobs d) @
      [constraint ''vector_cleanup_jobs_pkey'' (distinct (map vc_id (cleanup_jobs d))),
       constraint ''vector_cleanup_jobs_document_id_fkey''
         (\<forall>r \<in> set (cleanup_jobs d). vc_document_id r \<in> set (map doc_id (documents d)))])"

definition db_violation :: "db \<Rightarrow> db_error option" where
  "db_violation d = first_some
     [check_index_collections d, check_documents d, check_ingestion_jobs d, check_deletion_jobs d,
      check_reindex_jobs d, check_cleanup_jobs d]"

definition commit :: "db \<Rightarrow> db_error + db" where
  "commit d = (case db_violation d of Some e \<Rightarrow> Inl e | None \<Rightarrow> Inr d)"

text \<open>A database is valid when it satisfies its schema; every committed database is.\<close>

definition db_ok :: "db \<Rightarrow> bool" where
  "db_ok d \<longleftrightarrow> db_violation d = None"

lemma commit_Inr: "commit d = Inr d' \<longleftrightarrow> db_ok d \<and> d' = d"
  by (auto simp: commit_def db_ok_def split: option.splits)

lemma commit_Inl: "commit d = Inl e \<longleftrightarrow> db_violation d = Some e"
  by (auto simp: commit_def split: option.splits)

lemma commit_ok [simp]: "db_ok d \<Longrightarrow> commit d = Inr d"
  by (simp add: commit_Inr)

lemma constraint_None [simp]: "constraint name holds = None \<longleftrightarrow> holds"
  by (simp add: constraint_def)

definition fits :: "('r \<Rightarrow> db_error option) \<Rightarrow> 'r list \<Rightarrow> bool" where
  "fits cols rows \<longleftrightarrow> (\<forall>r \<in> set rows. cols r = None)"

lemma fits_Nil [simp]: "fits cols []"
  by (simp add: fits_def)

lemma fits_append [row_simps]: "fits cols (rs @ ss) \<longleftrightarrow> fits cols rs \<and> fits cols ss"
  by (auto simp: fits_def)

lemma fits_single [simp]: "fits cols [r] \<longleftrightarrow> cols r = None"
  by (simp add: fits_def)

lemma fits_update_row:
  "fits cols rows \<Longrightarrow> (\<And>r. r \<in> set rows \<Longrightarrow> key r = k \<Longrightarrow> cols (f r) = None) \<Longrightarrow>
   fits cols (update_row key k f rows)"
  by (auto simp: fits_def set_update_row)

lemma check_index_collections_None: "check_index_collections d = None \<longleftrightarrow>
   fits index_collection_columns (index_collections d) \<and>
   distinct (map ic_collection_name (index_collections d))"
  by (auto simp: check_index_collections_def fits_def)

lemma check_documents_None: "check_documents d = None \<longleftrightarrow>
   fits document_columns (documents d) \<and> distinct (map doc_id (documents d)) \<and>
   distinct (map stored_filename (documents d)) \<and>
   distinct (List.map_filter content_hash (documents d)) \<and>
   (\<forall>r \<in> set (documents d). \<forall>c. collection_name r = Some c \<longrightarrow>
      c \<in> set (map ic_collection_name (index_collections d)))"
  by (auto simp: check_documents_def fits_def split: option.splits)

lemma check_ingestion_jobs_None: "check_ingestion_jobs d = None \<longleftrightarrow>
   fits ingestion_columns (ingestion_jobs d) \<and> distinct (map ing_id (ingestion_jobs d)) \<and>
   one_active ing_document_id ing_active (ingestion_jobs d) \<and>
   (\<forall>r \<in> set (ingestion_jobs d). ing_document_id r \<in> set (map doc_id (documents d)))"
  by (auto simp: check_ingestion_jobs_def fits_def)

lemma check_deletion_jobs_None: "check_deletion_jobs d = None \<longleftrightarrow>
   fits deletion_columns (deletion_jobs d) \<and> distinct (map del_id (deletion_jobs d)) \<and>
   one_active del_document_id del_active (deletion_jobs d) \<and>
   (\<forall>r \<in> set (deletion_jobs d). del_document_id r \<in> set (map doc_id (documents d)))"
  by (auto simp: check_deletion_jobs_def fits_def)

lemma check_reindex_jobs_None: "check_reindex_jobs d = None \<longleftrightarrow>
   fits reindex_columns (reindex_jobs d) \<and> distinct (map rix_id (reindex_jobs d)) \<and>
   one_active rix_document_id rix_active (reindex_jobs d) \<and>
   (\<forall>r \<in> set (reindex_jobs d). rix_document_id r \<in> set (map doc_id (documents d)) \<and>
      source_collection_name r \<in> set (map ic_collection_name (index_collections d)) \<and>
      target_collection_name r \<in> set (map ic_collection_name (index_collections d)))"
  by (auto simp: check_reindex_jobs_def fits_def)

lemma check_cleanup_jobs_None: "check_cleanup_jobs d = None \<longleftrightarrow>
   fits cleanup_columns (cleanup_jobs d) \<and> distinct (map vc_id (cleanup_jobs d)) \<and>
   (\<forall>r \<in> set (cleanup_jobs d). vc_document_id r \<in> set (map doc_id (documents d)))"
  by (auto simp: check_cleanup_jobs_def fits_def)

lemmas check_None = check_index_collections_None check_documents_None check_ingestion_jobs_None
  check_deletion_jobs_None check_reindex_jobs_None check_cleanup_jobs_None

lemma db_ok_checks: "db_ok d \<longleftrightarrow> check_index_collections d = None \<and> check_documents d = None \<and>
   check_ingestion_jobs d = None \<and> check_deletion_jobs d = None \<and> check_reindex_jobs d = None \<and>
   check_cleanup_jobs d = None"
  by (auto simp: db_ok_def db_violation_def)

lemma empty_db_ok: "db_ok empty_db"
  by (simp add: db_ok_checks check_None empty_db_def map_filter_simps)

text \<open>A document for the concrete runs of the development.\<close>

definition sample_document :: "ustr \<Rightarrow> document" where
  "sample_document i =
     \<lparr>doc_id = i, original_filename = uni ''report.txt'', stored_filename = i @ uni ''.txt'',
      content_type = uni ''text/plain'', file_size = 12, stored_path = i @ uni ''.txt'', doc_created_at = 1,
      storage_provider = Some (uni ''local''), storage_bucket = None, storage_key = Some (i @ uni ''.txt''),
      storage_etag = None, content_hash = Some (uni ''h'' @ i), embedding_provider = None,
      embedding_model = None, embedding_dimension = None, embedding_version = None,
      chunking_version = None, collection_name = None, indexed_at = None\<rparr>"

definition sample_db :: db where
  "sample_db = empty_db\<lparr>documents := [sample_document (uni ''d1'')]\<rparr>"

lemma sample_db_valid: "db_ok sample_db"
  by (simp add: db_ok_checks check_None sample_db_def sample_document_def empty_db_def map_filter_simps fits_def
      document_columns_def too_long_def too_long_opt_def no_int4_def no_int4_opt_def uni_def)

end
