(* ===== verification/Storage.thy ===== *)
theory Storage
  imports Retry Models "HOL-Library.Sublist"
begin

text \<open>
  Object storage as the services see it: key generation and validation (\<open>app/storage/keys.py\<close>) and
  the \<open>FileStorage\<close> contract (\<open>app/storage/contract.py\<close>).  A provider is a record of state-passing
  operations; the locale \<open>file_store\<close> is what the services rely on, in terms of the content a state
  holds at each address, and is interpreted for the local and the MinIO provider in their theories.
\<close>

section \<open>Paths\<close>

fun split_on :: "nat \<Rightarrow> ustr \<Rightarrow> ustr list" where
  "split_on c [] = [[]]"
| "split_on c (x # xs) =
     (if x = c then [] # split_on c xs
      else (case split_on c xs of [] \<Rightarrow> [[x]] | w # ws \<Rightarrow> (x # w) # ws))"

text \<open>The components of a relative POSIX path; empty ones and \<open>.\<close> are dropped.\<close>

definition path_parts :: "ustr \<Rightarrow> ustr list" where
  "path_parts s = filter (\<lambda>p. p \<noteq> [] \<and> p \<noteq> uni ''.'') (split_on 47 s)"

definition is_absolute :: "ustr \<Rightarrow> bool" where
  "is_absolute s \<longleftrightarrow> (case s of [] \<Rightarrow> False | c # _ \<Rightarrow> c = 47)"

definition path_name :: "ustr \<Rightarrow> ustr" where
  "path_name s = (let ps = path_parts s in if ps = [] then [] else last ps)"

definition path_suffix :: "ustr \<Rightarrow> ustr" where
  "path_suffix s =
     (let n = path_name s; ext = rev (takeWhile (\<lambda>c. c \<noteq> 46) (rev n)) in
      if 46 \<in> set n \<and> ext \<noteq> [] \<and> Suc (length ext) < length n then 46 # ext else [])"

lemma split_on_no_sep: "p \<in> set (split_on c s) \<Longrightarrow> c \<notin> set p"
  by (induction c s arbitrary: p rule: split_on.induct) (auto split: list.splits if_splits)

lemma split_on_neq_Nil [simp]: "split_on c s \<noteq> []"
  by (induction c s rule: split_on.induct) (auto split: list.splits)

lemma split_on_plain: "c \<notin> set w \<Longrightarrow> split_on c w = [w]"
  by (induction w) auto

lemma split_on_append: "c \<notin> set w \<Longrightarrow> split_on c (w @ c # s) = w # split_on c s"
  by (induction w) auto

section \<open>Object keys\<close>

definition max_safe_suffix_length :: nat where
  "max_safe_suffix_length = 10"

definition ascii_alnum :: "nat \<Rightarrow> bool" where
  "ascii_alnum c \<longleftrightarrow> (48 \<le> c \<and> c \<le> 57) \<or> (65 \<le> c \<and> c \<le> 90) \<or> (97 \<le> c \<and> c \<le> 122)"

text \<open>The regular expression \<open>^[A-Za-z0-9]+$\<close> with \<open>match\<close>: its dollar also matches before a final
  newline.\<close>

definition safe_suffix_match :: "ustr \<Rightarrow> bool" where
  "safe_suffix_match s \<longleftrightarrow>
     (let t = (if s \<noteq> [] \<and> last s = 10 then butlast s else s) in t \<noteq> [] \<and> list_all ascii_alnum t)"

definition generate_object_key :: "ustr \<Rightarrow> ustr \<Rightarrow> ustr \<Rightarrow> ustr" where
  "generate_object_key uuid_hex document_id filename =
     (let sfx = path_suffix filename;
          is_safe = 1 < length sfx \<and> length sfx \<le> max_safe_suffix_length \<and> safe_suffix_match (tl sfx)
      in uni ''documents/'' @ document_id @ uni ''/'' @ uuid_hex @ (if is_safe then sfx else []))"

definition validate_object_key :: "ustr \<Rightarrow> storage_exn + ustr" where
  "validate_object_key key =
     (if key = [] \<or> py_strip key = [] then Inl (StorageKeyError (uni ''Object key must not be empty.''))
      else if is_absolute key then
        Inl (StorageKeyError (uni ''Object key must not be an absolute path: '' @ py_repr key))
      else if uni ''..'' \<in> set (path_parts key) then
        Inl (StorageKeyError (uni ''Object key must not contain '' @ [39, 46, 46, 39] @ uni '': '' @ py_repr key))
      else Inr key)"

definition resolve_document_storage_key :: "document \<Rightarrow> ustr" where
  "resolve_document_storage_key doc =
     (case storage_key doc of
        Some k \<Rightarrow> if k \<noteq> [] then k else stored_path doc
      | None \<Rightarrow> stored_path doc)"

section \<open>The contract\<close>

record stored_file =
  sf_key :: ustr
  sf_size_bytes :: int
  sf_content_type :: "ustr option"
  sf_etag :: "ustr option"
  sf_metadata :: "(ustr \<times> ustr) list"

record file_metadata =
  fm_key :: ustr
  fm_size_bytes :: int
  fm_content_type :: "ustr option"
  fm_etag :: "ustr option"
  fm_last_modified :: "time option"
  fm_metadata :: "(ustr \<times> ustr) list"

record 's file_storage =
  fs_save :: "ustr \<Rightarrow> bytes \<Rightarrow> ustr option \<Rightarrow> (ustr \<times> ustr) list \<Rightarrow> ('s, exn, stored_file) call"
  fs_read :: "ustr \<Rightarrow> ('s, exn, bytes) call"
  fs_delete :: "ustr \<Rightarrow> ('s, exn, unit) call"
  fs_exists :: "ustr \<Rightarrow> ('s, exn, bool) call"
  fs_get_metadata :: "ustr \<Rightarrow> ('s, exn, file_metadata) call"
  fs_generate_download_url :: "ustr \<Rightarrow> int option \<Rightarrow> ('s, exn, ustr) call"

text \<open>The laws, for a provider that keeps \<open>content s\<close> at addresses: an operation that returns did what
  it says; one that raises touched at most its own address; reading changes nothing.\<close>

locale file_store =
  fixes fs :: "'s file_storage" and address :: "ustr \<Rightarrow> 'a option"
    and content :: "'s \<Rightarrow> 'a \<Rightarrow> bytes option"
  assumes save_ok: "fs_save fs k b ct md s = (Inr r, s') \<Longrightarrow>
      \<exists>a. address k = Some a \<and> content s' = (content s)(a := Some b) \<and> sf_key r = k \<and>
        sf_size_bytes r = int (length b)"
    and save_frame: "address k \<noteq> Some a \<Longrightarrow> content (snd (fs_save fs k b ct md s)) a = content s a"
    and read_ok: "fs_read fs k s = (Inr b, s') \<Longrightarrow> \<exists>a. address k = Some a \<and> content s a = Some b"
    and read_missing: "fs_read fs k s = (Inl (StorageErr (StorageObjectNotFoundError m)), s') \<Longrightarrow>
      \<exists>a. address k = Some a \<and> content s a = None"
    and read_frame: "content (snd (fs_read fs k s)) = content s"
    and delete_ok: "fs_delete fs k s = (Inr u, s') \<Longrightarrow>
      \<exists>a. address k = Some a \<and> content s' = (content s)(a := None)"
    and delete_frame: "address k \<noteq> Some a \<Longrightarrow> content (snd (fs_delete fs k s)) a = content s a"
    and delete_removes: "content (snd (fs_delete fs k s)) a \<in> {content s a, None}"
    and exists_ok: "fs_exists fs k s = (Inr found, s') \<Longrightarrow> \<exists>a. address k = Some a \<and> (content s a \<noteq> None \<longrightarrow> found)"
    and exists_frame: "content (snd (fs_exists fs k s)) = content s"
begin

text \<open>What was saved is read back, as long as nothing else is stored at the address in between.\<close>

lemma read_after_save:
  assumes "fs_save fs k b ct md s = (Inr r, s1)" and "fs_read fs k s1 = (Inr c, s2)"
  shows "c = b"
  using save_ok [OF assms(1)] read_ok [OF assms(2)] by auto

lemma save_then_found:
  assumes "fs_save fs k b ct md s = (Inr r, s1)"
  shows "fst (fs_read fs k s1) \<noteq> Inl (StorageErr (StorageObjectNotFoundError m))"
  using save_ok [OF assms] read_missing [of k s1 m] by (cases "fs_read fs k s1") auto

lemma read_after_delete:
  assumes "fs_delete fs k s = (Inr u, s1)"
  shows "fst (fs_read fs k s1) \<noteq> Inr b"
  using delete_ok [OF assms] read_ok [of k s1 b] by (cases "fs_read fs k s1") auto

lemma save_then_exists:
  assumes "fs_save fs k b ct md s = (Inr r, s1)" and "fs_exists fs k s1 = (Inr found, s2)"
  shows "found"
  using save_ok [OF assms(1)] exists_ok [OF assms(2)] by auto

text \<open>Deleting what was just saved restores the content of every address, up to what was there.\<close>

lemma save_delete:
  assumes "fs_save fs k b ct md s = (Inr r, s1)" and "fs_delete fs k s1 = (Inr u, s2)"
  shows "\<exists>a. address k = Some a \<and> content s2 = (content s)(a := None)"
  using save_ok [OF assms(1)] delete_ok [OF assms(2)] by auto

end

section \<open>Keys are safe\<close>

lemma path_parts_no_slash: "p \<in> set (path_parts s) \<Longrightarrow> 47 \<notin> set p"
  by (auto simp: path_parts_def dest: split_on_no_sep)

lemma path_suffix_chars: "set (path_suffix s) \<subseteq> set (path_name s)"
  by (auto simp: path_suffix_def Let_def dest!: set_takeWhileD)

lemma path_name_no_slash: "47 \<notin> set (path_name s)"
  using path_parts_no_slash [of "last (path_parts s)" s] by (auto simp: path_name_def Let_def)

text \<open>A path component that is a plain name: no separator, not empty, not a dot entry.\<close>

definition plain_name :: "ustr \<Rightarrow> bool" where
  "plain_name s \<longleftrightarrow> s \<noteq> [] \<and> 47 \<notin> set s \<and> s \<noteq> uni ''.'' \<and> s \<noteq> uni ''..''"

lemma generated_key_parts:
  assumes "plain_name document_id" and "plain_name uuid_hex" and "3 \<le> length uuid_hex"
  shows "\<exists>n. path_parts (generate_object_key uuid_hex document_id f) = [uni ''documents'', document_id, n] \<and>
    plain_name n \<and> prefix uuid_hex n"
proof -
  let ?sfx = "if 1 < length (path_suffix f) \<and> length (path_suffix f) \<le> max_safe_suffix_length \<and>
      safe_suffix_match (tl (path_suffix f)) then path_suffix f else []"
  have sfx: "47 \<notin> set ?sfx"
    using path_suffix_chars [of f] path_name_no_slash [of f] by auto
  have docs: "47 \<notin> set (uni ''documents'')"
    by (simp add: uni_def)
  have key: "generate_object_key uuid_hex document_id f =
      uni ''documents'' @ 47 # document_id @ 47 # uuid_hex @ ?sfx"
    by (simp add: generate_object_key_def Let_def uni_def)
  have "split_on 47 (generate_object_key uuid_hex document_id f) =
      [uni ''documents'', document_id, uuid_hex @ ?sfx]"
    unfolding key using assms sfx docs by (simp add: split_on_append split_on_plain plain_name_def)
  moreover have "plain_name (uuid_hex @ ?sfx)"
    using assms(2,3) sfx by (auto simp: plain_name_def uni_def append_eq_Cons_conv)
  ultimately show ?thesis
    using assms(1) by (auto simp: path_parts_def plain_name_def)
qed

text \<open>Every key the application generates passes the key validation, stays below the directory of
  its own document, and consists of exactly the three components the key format documents.\<close>

theorem generated_key_valid:
  assumes "plain_name document_id" and "plain_name uuid_hex" and "3 \<le> length uuid_hex"
  shows "validate_object_key (generate_object_key uuid_hex document_id f) =
      Inr (generate_object_key uuid_hex document_id f) \<and>
    (\<exists>n. path_parts (generate_object_key uuid_hex document_id f) = [uni ''documents'', document_id, n] \<and>
       plain_name n)"
proof -
  from generated_key_parts [OF assms] obtain n where n: "path_parts (generate_object_key uuid_hex document_id f) =
      [uni ''documents'', document_id, n]" "plain_name n" by blast
  have "generate_object_key uuid_hex document_id f \<noteq> []" and "\<not> is_absolute (generate_object_key uuid_hex document_id f)"
    by (simp_all add: generate_object_key_def Let_def uni_def is_absolute_def)
  moreover have "py_strip (generate_object_key uuid_hex document_id f) \<noteq> []"
    by (auto simp: py_strip_eq_Nil generate_object_key_def Let_def uni_def py_space_def)
  ultimately show ?thesis
    using n assms(1) by (auto simp: validate_object_key_def plain_name_def)
qed

theorem generated_key_valid_witness:
  "validate_object_key (generate_object_key (uni ''0af3'') (uni ''d1'') (uni ''a.pdf'')) =
    Inr (generate_object_key (uni ''0af3'') (uni ''d1'') (uni ''a.pdf''))"
  using generated_key_valid [of "uni ''d1''" "uni ''0af3''" "uni ''a.pdf''"]
  by (simp add: plain_name_def uni_def)

text \<open>The dollar of the suffix pattern lets one newline through: such a key is generated and accepted.\<close>

lemma newline_suffix_key:
  "generate_object_key (uni ''0af3'') (uni ''d1'') (uni ''a.pdf'' @ [10]) = uni ''documents/d1/0af3.pdf'' @ [10]"
  by (simp add: generate_object_key_def path_suffix_def path_name_def path_parts_def uni_def Let_def
      max_safe_suffix_length_def safe_suffix_match_def ascii_alnum_def)

end
