(* ===== verification/Config.thy ===== *)
theory Config
  imports Storage
begin

text \<open>
  Application settings and their fail-fast validation (\<open>app/core/config.py\<close>), and the choice of a
  storage provider (\<open>app/storage/factory.py\<close>).  Reading the environment and converting its texts to
  the field types is pydantic's; the model starts from the converted values.
\<close>

record settings =
  app_env :: ustr
  log_level :: ustr
  database_url :: ustr
  redis_url :: ustr
  qdrant_url :: ustr
  ollama_base_url :: ustr
  ollama_chat_model :: ustr
  ollama_embedding_model :: ustr
  llm_provider :: ustr
  llm_model :: "ustr option"
  set_embedding_provider :: ustr
  vector_store_provider :: ustr
  set_embedding_model :: "ustr option"
  set_embedding_version :: ustr
  set_chunking_version :: ustr
  set_chunk_size :: int
  set_chunk_overlap :: int
  qdrant_collection_name :: ustr
  vector_size :: int
  retrieval_top_k :: int
  retrieval_score_threshold :: "rat option"
  rag_engine :: ustr
  default_response_language :: ustr
  prompt_catalog_version :: ustr
  file_storage_provider :: ustr
  local_storage_root :: ustr
  minio_endpoint :: "ustr option"
  minio_access_key :: "ustr option"
  minio_secret_key :: "ustr option"
  minio_bucket :: "ustr option"
  minio_secure :: bool
  minio_region :: "ustr option"
  minio_presigned_url_expiry_seconds :: int
  minio_create_bucket_if_missing :: bool
  ingestion_stale_after_seconds :: int
  ingestion_recovery_batch_size :: int
  ollama_embedding_timeout_seconds :: rat
  ollama_llm_timeout_seconds :: rat
  ollama_health_timeout_seconds :: rat
  qdrant_timeout_seconds :: rat
  minio_timeout_seconds :: rat
  db_pool_size :: int
  db_max_overflow :: int
  db_pool_timeout :: rat
  db_pool_recycle :: int
  db_pool_pre_ping :: bool
  provider_retry_max_attempts :: int
  provider_retry_base_delay_seconds :: rat
  provider_retry_max_delay_seconds :: rat
  cors_allow_origins :: ustr
  startup_dependency_check :: bool

definition supported_response_languages :: "ustr list" where
  "supported_response_languages = [uni ''he'', uni ''en'']"

definition supported_file_storage_providers :: "ustr list" where
  "supported_file_storage_providers = [uni ''local'', uni ''minio'']"

definition supported_embedding_providers :: "ustr list" where
  "supported_embedding_providers = [uni ''ollama'']"

definition supported_vector_store_providers :: "ustr list" where
  "supported_vector_store_providers = [uni ''qdrant'']"

definition supported_llm_providers :: "ustr list" where
  "supported_llm_providers = [uni ''ollama'', uni ''openai'', uni ''gemini'', uni ''anthropic'']"

definition supported_rag_engines :: "ustr list" where
  "supported_rag_engines = [uni ''custom'', uni ''langchain'']"

section \<open>Field validators\<close>

text \<open>A validator returns the message of the \<open>ValueError\<close> it raises.  \<open>py_tuple\<close> is the \<open>repr\<close> of a tuple
  of strings.\<close>

definition py_tuple :: "ustr list \<Rightarrow> ustr" where
  "py_tuple xs = uni ''('' @ join (uni '', '') (map py_repr xs) @ (if length xs = 1 then uni '','' else []) @ uni '')''"

definition validate_positive_integer :: "string \<Rightarrow> int \<Rightarrow> ustr option" where
  "validate_positive_integer field v = (if v \<le> 0 then Some (uni field @ uni '' must be a positive integer'') else None)"

definition validate_vector_size :: "int \<Rightarrow> ustr option" where
  "validate_vector_size v = (if v \<le> 0 then Some (uni ''VECTOR_SIZE must be a positive integer'') else None)"

definition validate_non_empty :: "string \<Rightarrow> ustr \<Rightarrow> ustr option" where
  "validate_non_empty field v = (if py_strip v = [] then Some (uni field @ uni '' must not be empty'') else None)"

definition validate_one_of :: "string \<Rightarrow> ustr list \<Rightarrow> ustr \<Rightarrow> ustr option" where
  "validate_one_of name supported v =
     (if v \<notin> set supported
      then Some (uni name @ uni '' must be one of '' @ py_tuple supported @ uni '', got '' @ py_repr v) else None)"

definition validate_default_response_language :: "ustr \<Rightarrow> ustr option" where
  "validate_default_response_language = validate_one_of ''DEFAULT_RESPONSE_LANGUAGE'' supported_response_languages"

definition validate_file_storage_provider :: "ustr \<Rightarrow> ustr option" where
  "validate_file_storage_provider = validate_one_of ''FILE_STORAGE_PROVIDER'' supported_file_storage_providers"

definition validate_llm_provider :: "ustr \<Rightarrow> ustr option" where
  "validate_llm_provider = validate_one_of ''LLM_PROVIDER'' supported_llm_providers"

definition validate_embedding_provider :: "ustr \<Rightarrow> ustr option" where
  "validate_embedding_provider = validate_one_of ''EMBEDDING_PROVIDER'' supported_embedding_providers"

definition validate_vector_store_provider :: "ustr \<Rightarrow> ustr option" where
  "validate_vector_store_provider = validate_one_of ''VECTOR_STORE_PROVIDER'' supported_vector_store_providers"

definition validate_rag_engine :: "ustr \<Rightarrow> ustr option" where
  "validate_rag_engine = validate_one_of ''RAG_ENGINE'' supported_rag_engines"

text \<open>\<open>urlparse\<close> as far as the scheme and the host: leading control characters and spaces are dropped,
  tabs and line ends removed; a scheme is a letter and scheme characters up to the first colon; the
  host part follows two slashes.  Unbalanced brackets in it make \<open>urlparse\<close> itself raise.\<close>

definition ascii_alpha :: "nat \<Rightarrow> bool" where
  "ascii_alpha c \<longleftrightarrow> (65 \<le> c \<and> c \<le> 90) \<or> (97 \<le> c \<and> c \<le> 122)"

definition scheme_char :: "nat \<Rightarrow> bool" where
  "scheme_char c \<longleftrightarrow> ascii_alnum c \<or> c = 43 \<or> c = 45 \<or> c = 46"

definition url_scheme_netloc :: "ustr \<Rightarrow> ustr \<times> ustr" where
  "url_scheme_netloc v =
     (let u = filter (\<lambda>c. c \<notin> {9, 10, 13}) (dropWhile (\<lambda>c. c \<le> 32) v);
          h = takeWhile (\<lambda>c. c \<noteq> 58) u;
          has = 58 \<in> set u \<and> h \<noteq> [] \<and> ascii_alpha (hd h) \<and> list_all scheme_char h;
          rest = (if has then drop (Suc (length h)) u else u);
          netloc = (if take 2 rest = [47, 47] then takeWhile (\<lambda>c. c \<notin> {47, 63, 35}) (drop 2 rest) else [])
      in (if has then h else [], netloc))"

definition validate_url_format :: "string \<Rightarrow> ustr \<Rightarrow> ustr option" where
  "validate_url_format field v =
     (let (scheme, netloc) = url_scheme_netloc v in
      if (91 \<in> set netloc) \<noteq> (93 \<in> set netloc) then Some (uni ''Invalid IPv6 URL'')
      else if scheme = [] \<or> netloc = [] then
        Some (uni field @ uni '' must be a well-formed URL with a scheme and host, got '' @ py_repr v)
      else None)"

definition validate_positive_float :: "string \<Rightarrow> rat \<Rightarrow> ustr option" where
  "validate_positive_float field v =
     (if v \<le> 0 then Some (uni field @ uni '' must be a positive number of seconds'') else None)"

text \<open>All validators of the fields, in the order of the fields; the two validators of
  \<open>embedding_provider\<close> run one after the other.\<close>

definition field_errors :: "settings \<Rightarrow> ustr option list" where
  "field_errors s =
     [validate_url_format ''database_url'' (database_url s),
      validate_url_format ''redis_url'' (redis_url s),
      validate_url_format ''qdrant_url'' (qdrant_url s),
      validate_url_format ''ollama_base_url'' (ollama_base_url s),
      validate_llm_provider (llm_provider s),
      (case validate_non_empty ''embedding_provider'' (set_embedding_provider s) of
         Some e \<Rightarrow> Some e | None \<Rightarrow> validate_embedding_provider (set_embedding_provider s)),
      validate_vector_store_provider (vector_store_provider s),
      validate_non_empty ''embedding_version'' (set_embedding_version s),
      validate_non_empty ''chunking_version'' (set_chunking_version s),
      validate_non_empty ''qdrant_collection_name'' (qdrant_collection_name s),
      validate_vector_size (vector_size s),
      validate_rag_engine (rag_engine s),
      validate_default_response_language (default_response_language s),
      validate_file_storage_provider (file_storage_provider s),
      validate_positive_integer ''ingestion_stale_after_seconds'' (ingestion_stale_after_seconds s),
      validate_positive_integer ''ingestion_recovery_batch_size'' (ingestion_recovery_batch_size s),
      validate_positive_float ''ollama_embedding_timeout_seconds'' (ollama_embedding_timeout_seconds s),
      validate_positive_float ''ollama_llm_timeout_seconds'' (ollama_llm_timeout_seconds s),
      validate_positive_float ''ollama_health_timeout_seconds'' (ollama_health_timeout_seconds s),
      validate_positive_float ''qdrant_timeout_seconds'' (qdrant_timeout_seconds s),
      validate_positive_float ''minio_timeout_seconds'' (minio_timeout_seconds s),
      validate_positive_integer ''db_pool_size'' (db_pool_size s),
      validate_positive_integer ''db_max_overflow'' (db_max_overflow s),
      validate_positive_float ''db_pool_timeout'' (db_pool_timeout s),
      validate_positive_integer ''db_pool_recycle'' (db_pool_recycle s),
      validate_positive_integer ''provider_retry_max_attempts'' (provider_retry_max_attempts s),
      validate_positive_float ''provider_retry_base_delay_seconds'' (provider_retry_base_delay_seconds s),
      validate_positive_float ''provider_retry_max_delay_seconds'' (provider_retry_max_delay_seconds s)]"

section \<open>Model validators\<close>

text \<open>\<open>str\<close> of a float is Python's shortest representation, an argument.\<close>

definition validate_retry_delay_ordering :: "(rat \<Rightarrow> ustr) \<Rightarrow> settings \<Rightarrow> ustr option" where
  "validate_retry_delay_ordering str_float s =
     (if provider_retry_max_delay_seconds s < provider_retry_base_delay_seconds s then
        Some (uni ''PROVIDER_RETRY_MAX_DELAY_SECONDS must be >= PROVIDER_RETRY_BASE_DELAY_SECONDS (got max='' @
          str_float (provider_retry_max_delay_seconds s) @ uni '', base='' @
          str_float (provider_retry_base_delay_seconds s) @ uni '')'')
      else None)"

definition absent :: "ustr option \<Rightarrow> bool" where
  "absent v \<longleftrightarrow> v = None \<or> v = Some []"

definition missing_minio_settings :: "settings \<Rightarrow> ustr list" where
  "missing_minio_settings s =
     map fst (filter (\<lambda>(name, v). absent v)
       [(uni ''MINIO_ENDPOINT'', minio_endpoint s), (uni ''MINIO_ACCESS_KEY'', minio_access_key s),
        (uni ''MINIO_SECRET_KEY'', minio_secret_key s), (uni ''MINIO_BUCKET'', minio_bucket s)])"

definition validate_minio_configuration_complete :: "settings \<Rightarrow> ustr option" where
  "validate_minio_configuration_complete s =
     (if file_storage_provider s \<noteq> uni ''minio'' then None
      else if missing_minio_settings s \<noteq> [] then
        Some (uni ''FILE_STORAGE_PROVIDER=minio requires the following settings to be set: '' @
          join (uni '', '') (missing_minio_settings s))
      else None)"

text \<open>Construction: all field errors together, or the first model error, or the settings.\<close>

definition new_settings :: "(rat \<Rightarrow> ustr) \<Rightarrow> settings \<Rightarrow> ustr list + settings" where
  "new_settings str_float s =
     (let errs = List.map_filter id (field_errors s) in
      if errs \<noteq> [] then Inl errs
      else (case validate_retry_delay_ordering str_float s of
          Some e \<Rightarrow> Inl [e]
        | None \<Rightarrow> (case validate_minio_configuration_complete s of
              Some e \<Rightarrow> Inl [e]
            | None \<Rightarrow> Inr s)))"

definition cors_allow_origins_list :: "settings \<Rightarrow> ustr list" where
  "cors_allow_origins_list s =
     map py_strip (filter (\<lambda>origin. py_strip origin \<noteq> []) (split_on 44 (cors_allow_origins s)))"

definition or_default :: "ustr option \<Rightarrow> ustr \<Rightarrow> ustr" where
  "or_default v d = (case v of Some t \<Rightarrow> if t \<noteq> [] then t else d | None \<Rightarrow> d)"

definition resolved_llm_model :: "settings \<Rightarrow> ustr" where
  "resolved_llm_model s = or_default (llm_model s) (ollama_chat_model s)"

definition resolved_embedding_model :: "settings \<Rightarrow> ustr" where
  "resolved_embedding_model s = or_default (set_embedding_model s) (ollama_embedding_model s)"

section \<open>Choosing the storage provider\<close>

datatype 'm provider_choice = UseLocal ustr | UseMinio 'm

definition create_file_storage :: "(settings \<Rightarrow> storage_exn + 'm) \<Rightarrow> settings \<Rightarrow> storage_exn + 'm provider_choice" where
  "create_file_storage minio_file_storage s =
     (if file_storage_provider s = uni ''local'' then Inr (UseLocal (local_storage_root s))
      else if file_storage_provider s = uni ''minio'' then
        (case minio_file_storage s of Inl e \<Rightarrow> Inl e | Inr m \<Rightarrow> Inr (UseMinio m))
      else Inl (StorageConfigurationError (uni ''Unsupported FILE_STORAGE_PROVIDER: '' @
        py_repr (file_storage_provider s) @ uni ''. Supported providers: '' @
        py_repr (uni ''local'') @ uni '', '' @ py_repr (uni ''minio'') @ uni ''.'')))"

lemma new_settings_Inr:
  assumes "new_settings sf s = Inr s'"
  shows "s' = s \<and> (\<forall>e \<in> set (field_errors s). e = None) \<and> validate_retry_delay_ordering sf s = None \<and>
    validate_minio_configuration_complete s = None"
proof -
  have "List.map_filter id xs = [] \<longleftrightarrow> (\<forall>e \<in> set xs. e = None)" for xs :: "ustr option list"
    by (induction xs) (auto simp: map_filter_simps split: option.splits)
  with assms show ?thesis
    by (auto simp: new_settings_def Let_def split: if_splits option.splits)
qed

lemma validated_fields:
  assumes "new_settings sf s = Inr s'"
  shows "1 \<le> provider_retry_max_attempts s" "0 < vector_size s" "0 < ingestion_stale_after_seconds s"
    "py_strip (set_embedding_version s) \<noteq> []" "py_strip (set_chunking_version s) \<noteq> []"
    "py_strip (qdrant_collection_name s) \<noteq> []" "set_embedding_provider s = uni ''ollama''"
    "file_storage_provider s \<in> {uni ''local'', uni ''minio''}"
    "rag_engine s \<in> {uni ''custom'', uni ''langchain''}"
    "default_response_language s \<in> {uni ''he'', uni ''en''}"
    "provider_retry_base_delay_seconds s \<le> provider_retry_max_delay_seconds s"
    "0 < provider_retry_base_delay_seconds s"
proof -
  note ok = new_settings_Inr [OF assms]
  then have f: "\<And>e. e \<in> set (field_errors s) \<Longrightarrow> e = None" by blast
  show "1 \<le> provider_retry_max_attempts s"
    using f [of "validate_positive_integer ''provider_retry_max_attempts'' (provider_retry_max_attempts s)"]
    by (simp add: field_errors_def validate_positive_integer_def split: if_splits)
  show "0 < vector_size s"
    using f [of "validate_vector_size (vector_size s)"]
    by (simp add: field_errors_def validate_vector_size_def split: if_splits)
  show "0 < ingestion_stale_after_seconds s"
    using f [of "validate_positive_integer ''ingestion_stale_after_seconds'' (ingestion_stale_after_seconds s)"]
    by (simp add: field_errors_def validate_positive_integer_def split: if_splits)
  show "py_strip (set_embedding_version s) \<noteq> []"
    using f [of "validate_non_empty ''embedding_version'' (set_embedding_version s)"]
    by (simp add: field_errors_def validate_non_empty_def split: if_splits)
  show "py_strip (set_chunking_version s) \<noteq> []"
    using f [of "validate_non_empty ''chunking_version'' (set_chunking_version s)"]
    by (simp add: field_errors_def validate_non_empty_def split: if_splits)
  show "py_strip (qdrant_collection_name s) \<noteq> []"
    using f [of "validate_non_empty ''qdrant_collection_name'' (qdrant_collection_name s)"]
    by (simp add: field_errors_def validate_non_empty_def split: if_splits)
  show "set_embedding_provider s = uni ''ollama''"
    using f [of "case validate_non_empty ''embedding_provider'' (set_embedding_provider s) of
         Some e \<Rightarrow> Some e | None \<Rightarrow> validate_embedding_provider (set_embedding_provider s)"]
    by (simp add: field_errors_def validate_embedding_provider_def validate_one_of_def
        supported_embedding_providers_def split: if_splits option.splits)
  show "file_storage_provider s \<in> {uni ''local'', uni ''minio''}"
    using f [of "validate_file_storage_provider (file_storage_provider s)"]
    by (simp add: field_errors_def validate_file_storage_provider_def validate_one_of_def
        supported_file_storage_providers_def split: if_splits)
  show "rag_engine s \<in> {uni ''custom'', uni ''langchain''}"
    using f [of "validate_rag_engine (rag_engine s)"]
    by (simp add: field_errors_def validate_rag_engine_def validate_one_of_def supported_rag_engines_def
        split: if_splits)
  show "default_response_language s \<in> {uni ''he'', uni ''en''}"
    using f [of "validate_default_response_language (default_response_language s)"]
    by (simp add: field_errors_def validate_default_response_language_def validate_one_of_def
        supported_response_languages_def split: if_splits)
  show "provider_retry_base_delay_seconds s \<le> provider_retry_max_delay_seconds s"
    using ok by (auto simp: validate_retry_delay_ordering_def split: if_splits)
  show "0 < provider_retry_base_delay_seconds s"
    using f [of "validate_positive_float ''provider_retry_base_delay_seconds'' (provider_retry_base_delay_seconds s)"]
    by (simp add: field_errors_def validate_positive_float_def split: if_splits)
qed

lemma validated_minio:
  "new_settings sf s = Inr s' \<Longrightarrow> file_storage_provider s = uni ''minio'' \<Longrightarrow>
   \<not> absent (minio_endpoint s) \<and> \<not> absent (minio_bucket s)"
  using new_settings_Inr [of sf s s']
  by (auto simp: validate_minio_configuration_complete_def missing_minio_settings_def split: if_splits)

end
