(* ===== verification/Vector_Store.thy ===== *)
theory Vector_Store
  imports Retry
begin

text \<open>
  The vector store as the services see it (\<open>app/rag/providers/vector_store.py\<close>): points with their
  payload, the operations as a record of state-passing functions, and the locale \<open>vector_index\<close> with
  what the services rely on, in terms of the points a state stores per collection and the size of
  each collection.  Embedding components are rationals; no arithmetic is done on them here.
\<close>

type_synonym embedding = "rat list"

record vector_point =
  vp_id :: ustr
  vp_vector :: embedding
  vp_document_id :: ustr
  vp_chunk_id :: ustr
  vp_text :: ustr
  vp_source :: ustr
  vp_page_number :: "nat option"
  vp_sheet_name :: "ustr option"

record search_result =
  sr_id :: ustr
  sr_score :: rat
  sr_document_id :: ustr
  sr_chunk_id :: ustr
  sr_text :: ustr
  sr_source :: ustr
  sr_page_number :: "nat option"
  sr_sheet_name :: "ustr option"

record 'v vector_store =
  vs_create_collection_if_not_exists :: "ustr \<Rightarrow> int \<Rightarrow> ('v, exn, unit) call"
  vs_upsert_vectors :: "ustr \<Rightarrow> vector_point list \<Rightarrow> ('v, exn, unit) call"
  vs_search_similar :: "ustr \<Rightarrow> embedding \<Rightarrow> int \<Rightarrow> ('v, exn, search_result list) call"
  vs_get_collection_vector_size :: "ustr \<Rightarrow> ('v, exn, int option) call"
  vs_delete_by_document_id :: "ustr \<Rightarrow> ustr \<Rightarrow> ('v, exn, unit) call"
  vs_count_document_vectors :: "ustr \<Rightarrow> ustr \<Rightarrow> ('v, exn, int) call"
  vs_count_collection_vectors :: "ustr \<Rightarrow> ('v, exn, int option) call"

section \<open>Stored points\<close>

text \<open>The points of a state: collection and point id to point.\<close>

type_synonym points = "ustr \<Rightarrow> ustr \<Rightarrow> vector_point option"

fun put_points :: "vector_point list \<Rightarrow> (ustr \<Rightarrow> vector_point option) \<Rightarrow> ustr \<Rightarrow> vector_point option" where
  "put_points [] m = m"
| "put_points (p # ps) m = put_points ps (m(vp_id p := Some p))"

definition upsert_points :: "ustr \<Rightarrow> vector_point list \<Rightarrow> points \<Rightarrow> points" where
  "upsert_points c ps st = st(c := put_points ps (st c))"

definition remove_document :: "ustr \<Rightarrow> ustr \<Rightarrow> points \<Rightarrow> points" where
  "remove_document c doc st =
     st(c := (\<lambda>i. case st c i of None \<Rightarrow> None
                  | Some p \<Rightarrow> if vp_document_id p = doc then None else Some p))"

definition holds_document :: "points \<Rightarrow> ustr \<Rightarrow> ustr \<Rightarrow> bool" where
  "holds_document st c doc \<longleftrightarrow> (\<exists>i p. st c i = Some p \<and> vp_document_id p = doc)"

lemma put_points_other: "i \<notin> vp_id ` set ps \<Longrightarrow> put_points ps m i = m i"
  by (induction ps arbitrary: m) auto

lemma put_points_in: "i \<in> vp_id ` set ps \<Longrightarrow> \<exists>p \<in> set ps. vp_id p = i \<and> put_points ps m i = Some p"
proof (induction ps arbitrary: m)
  case Nil
  then show ?case by simp
next
  case (Cons q ps)
  show ?case
  proof (cases "i \<in> vp_id ` set ps")
    case True
    with Cons.IH [OF True] show ?thesis by auto
  next
    case False
    with Cons.prems put_points_other [OF False, of "m(vp_id q := Some q)"] show ?thesis by auto
  qed
qed

lemma put_points_idem: "put_points ps (put_points ps m) = put_points ps m"
proof (rule ext)
  fix i
  have congr: "put_points ps m i = put_points ps n i" if "i \<in> vp_id ` set ps" for m n
    using that by (induction ps arbitrary: m n) (auto, metis fun_upd_same put_points_other image_iff)
  show "put_points ps (put_points ps m) i = put_points ps m i"
    using congr put_points_other by (cases "i \<in> vp_id ` set ps") blast+
qed

lemma remove_document_gone [simp]: "\<not> holds_document (remove_document c doc st) c doc"
  by (auto simp: holds_document_def remove_document_def split: option.splits if_splits)

lemma remove_document_other:
  "c' \<noteq> c \<or> doc' \<noteq> doc \<Longrightarrow> holds_document (remove_document c doc st) c' doc' = holds_document st c' doc'"
  by (auto simp: holds_document_def remove_document_def split: option.splits if_splits)

lemma upsert_other: "c' \<noteq> c \<Longrightarrow> upsert_points c ps st c' = st c'"
  by (simp add: upsert_points_def)

lemma upsert_holds:
  "p \<in> set ps \<Longrightarrow> (\<forall>q \<in> set ps. vp_document_id q = doc) \<Longrightarrow> holds_document (upsert_points c ps st) c doc"
  using put_points_in [of "vp_id p" ps "st c"] by (auto simp: holds_document_def upsert_points_def)

section \<open>The contract\<close>

text \<open>An upsert or a delete that raises may have been applied in part, point by point.  \<open>stored\<close> shows each point as it was
  sent last: that a collection with cosine distance keeps the vector normalised is not visible in it, and no property
  reads a vector back.\<close>

locale vector_index =
  fixes vs :: "'v vector_store" and stored :: "'v \<Rightarrow> points" and sizes :: "'v \<Rightarrow> ustr \<Rightarrow> int option"
  assumes create_ok: "vs_create_collection_if_not_exists vs c n s = (Inr u, s') \<Longrightarrow> sizes s' c \<noteq> None"
    and create_points: "stored (snd (vs_create_collection_if_not_exists vs c n s)) = stored s"
    and create_sizes: "sizes s c' = Some k \<Longrightarrow>
      sizes (snd (vs_create_collection_if_not_exists vs c n s)) c' = Some k"
    and upsert_ok: "vs_upsert_vectors vs c ps s = (Inr u, s') \<Longrightarrow> stored s' = upsert_points c ps (stored s)"
    and upsert_partial: "stored (snd (vs_upsert_vectors vs c ps s)) c' i \<in>
      {stored s c' i, upsert_points c ps (stored s) c' i}"
    and upsert_sizes: "sizes (snd (vs_upsert_vectors vs c ps s)) = sizes s"
    and delete_ok: "vs_delete_by_document_id vs c doc s = (Inr u, s') \<Longrightarrow>
      stored s' = remove_document c doc (stored s)"
    and delete_partial: "stored (snd (vs_delete_by_document_id vs c doc s)) c' i \<in>
      {stored s c' i, remove_document c doc (stored s) c' i}"
    and delete_sizes: "sizes (snd (vs_delete_by_document_id vs c doc s)) = sizes s"
    and size_ok: "vs_get_collection_vector_size vs c s = (Inr r, s') \<Longrightarrow> r = sizes s c"
    and size_frame: "stored (snd (vs_get_collection_vector_size vs c s)) = stored s"
      "sizes (snd (vs_get_collection_vector_size vs c s)) = sizes s"
    and count_ok: "vs_count_document_vectors vs c doc s = (Inr n, s') \<Longrightarrow>
      0 < n \<longleftrightarrow> holds_document (stored s) c doc"
    and count_frame: "stored (snd (vs_count_document_vectors vs c doc s)) = stored s"
      "sizes (snd (vs_count_document_vectors vs c doc s)) = sizes s"
    and count_all_ok: "vs_count_collection_vectors vs c s = (Inr r, s') \<Longrightarrow>
      (r = None) = (sizes s c = None)"
    and count_all_frame: "stored (snd (vs_count_collection_vectors vs c s)) = stored s"
      "sizes (snd (vs_count_collection_vectors vs c s)) = sizes s"
    and search_frame: "stored (snd (vs_search_similar vs c q n s)) = stored s"
      "sizes (snd (vs_search_similar vs c q n s)) = sizes s"
begin

lemma delete_gone: "vs_delete_by_document_id vs c doc s = (Inr u, s') \<Longrightarrow> \<not> holds_document (stored s') c doc"
  using delete_ok by fastforce

text \<open>A failed deletion never makes a document appear, in any collection.\<close>

lemma delete_shrinks:
  "holds_document (stored (snd (vs_delete_by_document_id vs c doc s))) c' doc' \<Longrightarrow> holds_document (stored s) c' doc'"
proof -
  assume "holds_document (stored (snd (vs_delete_by_document_id vs c doc s))) c' doc'"
  then obtain i p where "stored (snd (vs_delete_by_document_id vs c doc s)) c' i = Some p" "vp_document_id p = doc'"
    by (auto simp: holds_document_def)
  then have "stored s c' i = Some p"
    using delete_partial [of c doc s c' i]
    by (auto simp: remove_document_def split: if_splits option.splits)
  with \<open>vp_document_id p = doc'\<close> show ?thesis
    by (auto simp: holds_document_def)
qed

text \<open>A deletion only concerns the collection and the document it names.\<close>

lemma delete_other:
  "c' \<noteq> c \<or> doc' \<noteq> doc \<Longrightarrow>
   holds_document (stored (snd (vs_delete_by_document_id vs c doc s))) c' doc' = holds_document (stored s) c' doc'"
proof -
  assume o: "c' \<noteq> c \<or> doc' \<noteq> doc"
  have "stored (snd (vs_delete_by_document_id vs c doc s)) c' i = Some p \<longleftrightarrow> stored s c' i = Some p"
    if "vp_document_id p = doc'" for i p
    using delete_partial [of c doc s c' i] o that
    by (auto simp: remove_document_def split: if_splits option.splits)
  then show ?thesis
    by (auto simp: holds_document_def)
qed

lemma count_after_delete:
  "vs_delete_by_document_id vs c doc s = (Inr u, s1) \<Longrightarrow> vs_count_document_vectors vs c doc s1 = (Inr n, s2) \<Longrightarrow>
   n \<le> 0"
  using delete_gone count_ok by (metis linorder_not_less)

end

end
