(* ===== verification/Minio_Storage.thy ===== *)
theory Minio_Storage
  imports Storage
begin

text \<open>
  \<open>MinioFileStorage\<close> (\<open>app/storage/minio_storage.py\<close>).  The MinIO SDK is a parameter: a record of
  calls on the state of the world that return or raise.  The locale \<open>s3_server\<close> states what S3
  documents of those calls; under it the provider satisfies the storage contract, retries included.
\<close>

section \<open>The SDK\<close>

record object_stat =
  st_size :: "int option"
  st_content_type :: "ustr option"
  st_etag :: "ustr option"
  st_last_modified :: "time option"
  st_metadata :: "(ustr \<times> ustr) list"

record 's s3_client =
  s3_bucket_exists :: "ustr \<Rightarrow> ('s, raw_exn, bool) call"
  s3_make_bucket :: "ustr \<Rightarrow> ('s, raw_exn, unit) call"
  s3_put_object :: "ustr \<Rightarrow> ustr \<Rightarrow> bytes \<Rightarrow> ustr \<Rightarrow> (ustr \<times> ustr) list option \<Rightarrow> ('s, raw_exn, ustr option) call"
  s3_get_object :: "ustr \<Rightarrow> ustr \<Rightarrow> ('s, raw_exn, nat) call"
  s3_read_response :: "nat \<Rightarrow> ('s, raw_exn, bytes) call"
  s3_release :: "nat \<Rightarrow> 's \<Rightarrow> 's"
  s3_remove_object :: "ustr \<Rightarrow> ustr \<Rightarrow> ('s, raw_exn, unit) call"
  s3_stat_object :: "ustr \<Rightarrow> ustr \<Rightarrow> ('s, raw_exn, object_stat) call"
  s3_presigned_get_object :: "ustr \<Rightarrow> ustr \<Rightarrow> int \<Rightarrow> ('s, raw_exn, ustr) call"

record 's minio =
  mc_client :: "'s s3_client"
  mc_bucket :: ustr
  mc_expiry_seconds :: int
  mc_create_bucket_if_missing :: bool
  mc_policy :: retry_policy
  mc_pause :: "rat \<Rightarrow> 's \<Rightarrow> 's"

definition not_found_codes :: "ustr list" where
  "not_found_codes = [uni ''NoSuchKey'', uni ''NoSuchObject'']"

definition new_minio :: "ustr option \<Rightarrow> ustr option \<Rightarrow> (ustr \<Rightarrow> 's minio) \<Rightarrow> storage_exn + 's minio" where
  "new_minio endpoint bucket build =
     (if endpoint = None \<or> endpoint = Some [] \<or> bucket = None \<or> bucket = Some [] then
        Inl (StorageConfigurationError
          (uni ''MINIO_ENDPOINT and MINIO_BUCKET are required when FILE_STORAGE_PROVIDER=minio.''))
      else Inr (build (the bucket)))"

definition retry_call :: "'s minio \<Rightarrow> ('s, raw_exn, 'a) call \<Rightarrow> ('s, raw_exn, 'a) call" where
  "retry_call m fn = retry_async (mc_policy m) (mc_pause m) is_transient_minio_error fn"

definition ensure_bucket :: "'s minio \<Rightarrow> ('s, exn, unit) call" where
  "ensure_bucket m s =
     (let handle = (\<lambda>e. case e of
            S3Error code \<Rightarrow>
              if code \<in> {uni ''BucketAlreadyOwnedByYou'', uni ''BucketAlreadyExists''} then Inr ()
              else Inl (StorageErr (StorageUnavailableError (uni ''MinIO bucket initialization failed.'')))
          | MaxRetryError \<Rightarrow> Inl (StorageErr (StorageUnavailableError (uni ''MinIO is unreachable.'')))
          | _ \<Rightarrow> Inl (raw_to_exn e))
      in case retry_call m (s3_bucket_exists (mc_client m) (mc_bucket m)) s of
           (Inl e, s1) \<Rightarrow> (handle e, s1)
         | (Inr True, s1) \<Rightarrow> (Inr (), s1)
         | (Inr False, s1) \<Rightarrow>
             if \<not> mc_create_bucket_if_missing m then
               (Inl (StorageErr (StorageConfigurationError
                  (uni ''MinIO bucket '' @ py_repr (mc_bucket m) @
                   uni '' does not exist and MINIO_CREATE_BUCKET_IF_MISSING is false.''))), s1)
             else (case retry_call m (s3_make_bucket (mc_client m) (mc_bucket m)) s1 of
                 (Inl e, s2) \<Rightarrow> (handle e, s2)
               | (Inr u, s2) \<Rightarrow> (Inr (), s2)))"

definition minio_save :: "'s minio \<Rightarrow> ustr \<Rightarrow> bytes \<Rightarrow> ustr option \<Rightarrow> (ustr \<times> ustr) list \<Rightarrow> ('s, exn, stored_file) call"
  where
  "minio_save m key b ct md s =
     (case validate_object_key key of
        Inl e \<Rightarrow> (Inl (StorageErr e), s)
      | Inr _ \<Rightarrow>
          (case retry_call m (s3_put_object (mc_client m) (mc_bucket m) key b
                  (case ct of Some c \<Rightarrow> if c \<noteq> [] then c else uni ''application/octet-stream''
                   | None \<Rightarrow> uni ''application/octet-stream'')
                  (if md = [] then None else Some md)) s of
             (Inr etag, s') \<Rightarrow>
               (Inr \<lparr>sf_key = key, sf_size_bytes = int (length b), sf_content_type = ct,
                     sf_etag = etag, sf_metadata = md\<rparr>, s')
           | (Inl e, s') \<Rightarrow>
               (Inl (case e of
                  S3Error _ \<Rightarrow> StorageErr (StorageWriteError (uni ''Failed to write object at key '' @ py_repr key))
                | MaxRetryError \<Rightarrow> StorageErr (StorageWriteError (uni ''Failed to write object at key '' @ py_repr key))
                | _ \<Rightarrow> raw_to_exn e), s')))"

definition unreachable :: exn where
  "unreachable = StorageErr (StorageUnavailableError (uni ''MinIO is unreachable.''))"

definition no_object :: "ustr \<Rightarrow> exn" where
  "no_object key = StorageErr (StorageObjectNotFoundError (uni ''No object found at key '' @ py_repr key))"

definition read_handler :: "ustr \<Rightarrow> raw_exn \<Rightarrow> exn" where
  "read_handler key e =
     (case e of
        S3Error code \<Rightarrow>
          if code \<in> set not_found_codes then no_object key
          else StorageErr (StorageReadError (uni ''Failed to read object at key '' @ py_repr key))
      | MaxRetryError \<Rightarrow> unreachable
      | _ \<Rightarrow> raw_to_exn e)"

definition minio_read :: "'s minio \<Rightarrow> ustr \<Rightarrow> ('s, exn, bytes) call" where
  "minio_read m key s =
     (case validate_object_key key of
        Inl e \<Rightarrow> (Inl (StorageErr e), s)
      | Inr _ \<Rightarrow>
          (case retry_call m (s3_get_object (mc_client m) (mc_bucket m) key) s of
             (Inl e, s1) \<Rightarrow> (Inl (read_handler key e), s1)
           | (Inr response, s1) \<Rightarrow>
               (case s3_read_response (mc_client m) response s1 of
                  (Inl e, s2) \<Rightarrow> (Inl (read_handler key e), s3_release (mc_client m) response s2)
                | (Inr b, s2) \<Rightarrow> (Inr b, s3_release (mc_client m) response s2))))"

definition minio_delete :: "'s minio \<Rightarrow> ustr \<Rightarrow> ('s, exn, unit) call" where
  "minio_delete m key s =
     (case validate_object_key key of
        Inl e \<Rightarrow> (Inl (StorageErr e), s)
      | Inr _ \<Rightarrow>
          (case retry_call m (s3_remove_object (mc_client m) (mc_bucket m) key) s of
             (Inr u, s') \<Rightarrow> (Inr (), s')
           | (Inl e, s') \<Rightarrow>
               ((case e of
                  S3Error code \<Rightarrow>
                    if code \<in> set not_found_codes then Inr ()
                    else Inl (StorageErr (StorageDeleteError (uni ''Failed to delete object at key '' @ py_repr key)))
                | MaxRetryError \<Rightarrow> Inl unreachable
                | _ \<Rightarrow> Inl (raw_to_exn e)), s')))"

definition minio_exists :: "'s minio \<Rightarrow> ustr \<Rightarrow> ('s, exn, bool) call" where
  "minio_exists m key s =
     (case validate_object_key key of
        Inl e \<Rightarrow> (Inl (StorageErr e), s)
      | Inr _ \<Rightarrow>
          (case retry_call m (s3_stat_object (mc_client m) (mc_bucket m) key) s of
             (Inr st, s') \<Rightarrow> (Inr True, s')
           | (Inl e, s') \<Rightarrow>
               ((case e of
                  S3Error code \<Rightarrow>
                    if code \<in> set not_found_codes then Inr False
                    else Inl (StorageErr (StorageMetadataError
                      (uni ''Failed to check existence of key '' @ py_repr key)))
                | MaxRetryError \<Rightarrow> Inl unreachable
                | _ \<Rightarrow> Inl (raw_to_exn e)), s')))"

definition minio_get_metadata :: "'s minio \<Rightarrow> ustr \<Rightarrow> ('s, exn, file_metadata) call" where
  "minio_get_metadata m key s =
     (case validate_object_key key of
        Inl e \<Rightarrow> (Inl (StorageErr e), s)
      | Inr _ \<Rightarrow>
          (case retry_call m (s3_stat_object (mc_client m) (mc_bucket m) key) s of
             (Inr st, s') \<Rightarrow>
               (Inr \<lparr>fm_key = key, fm_size_bytes = (case st_size st of None \<Rightarrow> 0 | Some n \<Rightarrow> n),
                     fm_content_type = st_content_type st, fm_etag = st_etag st,
                     fm_last_modified = st_last_modified st, fm_metadata = st_metadata st\<rparr>, s')
           | (Inl e, s') \<Rightarrow>
               (Inl (case e of
                  S3Error code \<Rightarrow>
                    if code \<in> set not_found_codes then no_object key
                    else StorageErr (StorageMetadataError (uni ''Failed to stat object at key '' @ py_repr key))
                | MaxRetryError \<Rightarrow> unreachable
                | _ \<Rightarrow> raw_to_exn e), s')))"

definition minio_generate_download_url :: "'s minio \<Rightarrow> ustr \<Rightarrow> int option \<Rightarrow> ('s, exn, ustr) call" where
  "minio_generate_download_url m key expiry_seconds s =
     (case validate_object_key key of
        Inl e \<Rightarrow> (Inl (StorageErr e), s)
      | Inr _ \<Rightarrow>
          (let expiry = (case expiry_seconds of
                 Some n \<Rightarrow> if n \<noteq> 0 then n else mc_expiry_seconds m
               | None \<Rightarrow> mc_expiry_seconds m)
           in case retry_call m (s3_presigned_get_object (mc_client m) (mc_bucket m) key expiry) s of
                (Inr url, s') \<Rightarrow> (Inr url, s')
              | (Inl e, s') \<Rightarrow>
                  (Inl (case e of
                     S3Error _ \<Rightarrow> StorageErr (StorageUrlGenerationError
                       (uni ''Failed to generate a download URL for key '' @ py_repr key))
                   | MaxRetryError \<Rightarrow> StorageErr (StorageUrlGenerationError
                       (uni ''Failed to generate a download URL for key '' @ py_repr key))
                   | _ \<Rightarrow> raw_to_exn e), s')))"

definition minio_file_storage :: "'s minio \<Rightarrow> 's file_storage" where
  "minio_file_storage m =
     \<lparr>fs_save = minio_save m, fs_read = minio_read m, fs_delete = minio_delete m,
      fs_exists = minio_exists m, fs_get_metadata = minio_get_metadata m,
      fs_generate_download_url = minio_generate_download_url m\<rparr>"

definition minio_address :: "ustr \<Rightarrow> ustr option" where
  "minio_address key = (case validate_object_key key of Inl e \<Rightarrow> None | Inr k \<Rightarrow> Some key)"

section \<open>What S3 promises\<close>

locale s3_server =
  fixes m :: "'s minio" and objects :: "'s \<Rightarrow> ustr \<Rightarrow> bytes option"
  assumes put_ok: "s3_put_object (mc_client m) (mc_bucket m) k b ct md s = (Inr etag, s') \<Longrightarrow>
      objects s' = (objects s)(k := Some b)"
    and put_frame: "a \<noteq> k \<Longrightarrow> objects (snd (s3_put_object (mc_client m) (mc_bucket m) k b ct md s)) a = objects s a"
    and get_frame: "objects (snd (s3_get_object (mc_client m) (mc_bucket m) k s)) = objects s"
    and get_missing: "s3_get_object (mc_client m) (mc_bucket m) k s = (Inl (S3Error code), s') \<Longrightarrow>
      code \<in> set not_found_codes \<Longrightarrow> objects s k = None"
    and get_read: "s3_get_object (mc_client m) (mc_bucket m) k s = (Inr h, s1) \<Longrightarrow>
      s3_read_response (mc_client m) h s1 = (Inr b, s2) \<Longrightarrow> objects s k = Some b"
    and read_frame: "objects (snd (s3_read_response (mc_client m) h s)) = objects s"
    and read_error: "s3_read_response (mc_client m) h s \<noteq> (Inl (S3Error code), s')"
    and release_frame: "objects (s3_release (mc_client m) h s) = objects s"
    and remove_ok: "s3_remove_object (mc_client m) (mc_bucket m) k s = (Inr u, s') \<Longrightarrow>
      objects s' = (objects s)(k := None)"
    and remove_error: "s3_remove_object (mc_client m) (mc_bucket m) k s = (Inl e, s') \<Longrightarrow>
      objects s' = objects s \<or> objects s' = (objects s)(k := None)"
    and remove_missing: "s3_remove_object (mc_client m) (mc_bucket m) k s = (Inl (S3Error code), s') \<Longrightarrow>
      code \<in> set not_found_codes \<Longrightarrow> objects s' k = None"
    and stat_frame: "objects (snd (s3_stat_object (mc_client m) (mc_bucket m) k s)) = objects s"
    and stat_missing: "s3_stat_object (mc_client m) (mc_bucket m) k s = (Inl (S3Error code), s') \<Longrightarrow>
      code \<in> set not_found_codes \<Longrightarrow> objects s k = None"
    and pause_frame: "objects (mc_pause m c s) = objects s"

begin

text \<open>Retries of a call that changes nothing, and of one that changes at most one key.\<close>

lemma retry_frame:
  "(\<And>s. objects (snd (fn s)) = objects s) \<Longrightarrow> objects (snd (retry_call m fn s)) = objects s"
  unfolding retry_call_def by (rule retry_async_frame) (simp_all add: pause_frame)

lemma retry_put:
  assumes "retry_call m (s3_put_object (mc_client m) (mc_bucket m) k b ct md) s = (r, s')"
  shows "(a \<noteq> k \<longrightarrow> objects s' a = objects s a) \<and> (\<forall>x. r = Inr x \<longrightarrow> objects s' k = Some b)"
proof -
  let ?fn = "s3_put_object (mc_client m) (mc_bucket m) k b ct md"
  have "(a \<noteq> k \<longrightarrow> objects (snd q) a = objects s a) \<and> (\<forall>x. fst q = Inr x \<longrightarrow> objects (snd q) k = Some b)"
    if "q = retry_async (mc_policy m) (mc_pause m) is_transient_minio_error ?fn s" for q
    unfolding that
  proof (rule retry_async_rule [where I = "\<lambda>s1. a \<noteq> k \<longrightarrow> objects s1 a = objects s a"])
    fix s1 assume "a \<noteq> k \<longrightarrow> objects s1 a = objects s a"
    then show "(a \<noteq> k \<longrightarrow> objects (snd (?fn s1)) a = objects s a) \<and>
        (\<forall>x. fst (?fn s1) = Inr x \<longrightarrow> objects (snd (?fn s1)) k = Some b)"
      using put_frame [of a k b ct md s1] put_ok [of k b ct md s1] by (cases "?fn s1") auto
  next
    fix s1 e s2 assume "a \<noteq> k \<longrightarrow> objects s1 a = objects s a" "?fn s1 = (Inl e, s2)"
    then show "a \<noteq> k \<longrightarrow> objects s2 a = objects s a"
      using put_frame [of a k b ct md s1] by auto
  qed (auto simp: pause_frame)
  with assms show ?thesis by (simp add: retry_call_def)
qed

lemma retry_remove:
  assumes "retry_call m (s3_remove_object (mc_client m) (mc_bucket m) k) s = (r, s')"
  shows "(objects s' = objects s \<or> objects s' = (objects s)(k := None)) \<and>
    ((\<exists>u. r = Inr u) \<or> (\<exists>code \<in> set not_found_codes. r = Inl (S3Error code)) \<longrightarrow> objects s' k = None)"
proof -
  let ?fn = "s3_remove_object (mc_client m) (mc_bucket m) k"
  let ?I = "\<lambda>s1. objects s1 = objects s \<or> objects s1 = (objects s)(k := None)"
  have step: "?I s2 \<and> ((\<exists>u. r = Inr u) \<or> (\<exists>code \<in> set not_found_codes. r = Inl (S3Error code)) \<longrightarrow> objects s2 k = None)"
    if "?I s1" "?fn s1 = (r, s2)" for s1 r s2
  proof (cases r)
    case (Inl e)
    with that remove_error [of k s1 e s2] remove_missing [of k s1 _ s2] show ?thesis by auto
  next
    case (Inr u)
    with that remove_ok [of k s1 u s2] show ?thesis by auto
  qed
  have "?I (snd q) \<and> ((\<exists>u. fst q = Inr u) \<or> (\<exists>code \<in> set not_found_codes. fst q = Inl (S3Error code)) \<longrightarrow>
      objects (snd q) k = None)"
    if "q = retry_async (mc_policy m) (mc_pause m) is_transient_minio_error ?fn s" for q
    unfolding that
  proof (rule retry_async_rule [where I = ?I])
    fix s1 assume "?I s1"
    with step [of s1 "fst (?fn s1)" "snd (?fn s1)"]
    show "?I (snd (?fn s1)) \<and> ((\<exists>u. fst (?fn s1) = Inr u) \<or>
        (\<exists>code \<in> set not_found_codes. fst (?fn s1) = Inl (S3Error code)) \<longrightarrow> objects (snd (?fn s1)) k = None)"
      by simp
  next
    fix s1 e s2 assume "?I s1" "?fn s1 = (Inl e, s2)"
    with step [of s1 "Inl e" s2] show "?I s2" by blast
  qed (auto simp: pause_frame)
  with assms show ?thesis by (simp add: retry_call_def)
qed

lemma stat_result:
  assumes "retry_call m (s3_stat_object (mc_client m) (mc_bucket m) k) s = (Inl (S3Error code), s')"
    and "code \<in> set not_found_codes"
  shows "objects s k = None"
proof -
  let ?fn = "s3_stat_object (mc_client m) (mc_bucket m) k"
  let ?P = "\<lambda>objs r. \<forall>c. r = Inl (S3Error c) \<longrightarrow> c \<in> set not_found_codes \<longrightarrow> objs k = None"
  have "?P (objects s) (fst (?fn s))" for s
    using stat_missing [of k s] by (cases "?fn s") auto
  then have "?P (objects s) (fst (retry_call m ?fn s))"
    unfolding retry_call_def by (intro retry_async_result [where P = ?P]) (auto simp: stat_frame pause_frame)
  with assms show ?thesis by simp
qed

lemma get_result:
  assumes "retry_call m (s3_get_object (mc_client m) (mc_bucket m) k) s = (r, s1)"
  shows "objects s1 = objects s \<and>
    (\<forall>code. r = Inl (S3Error code) \<longrightarrow> code \<in> set not_found_codes \<longrightarrow> objects s k = None) \<and>
    (\<forall>h b s2. r = Inr h \<longrightarrow> s3_read_response (mc_client m) h s1 = (Inr b, s2) \<longrightarrow> objects s k = Some b)"
proof -
  let ?fn = "s3_get_object (mc_client m) (mc_bucket m) k"
  let ?Q = "\<lambda>q. objects (snd q) = objects s \<and>
    (\<forall>code. fst q = Inl (S3Error code) \<longrightarrow> code \<in> set not_found_codes \<longrightarrow> objects s k = None) \<and>
    (\<forall>h b s2. fst q = Inr h \<longrightarrow> s3_read_response (mc_client m) h (snd q) = (Inr b, s2) \<longrightarrow> objects s k = Some b)"
  have "?Q (retry_async (mc_policy m) (mc_pause m) is_transient_minio_error ?fn s)"
  proof (rule retry_async_rule [where I = "\<lambda>s1. objects s1 = objects s"])
    fix s1 assume "objects s1 = objects s"
    then show "?Q (?fn s1)"
      using get_frame [of k s1] get_missing [of k s1] get_read [of k s1] by (cases "?fn s1") auto
  next
    fix s1 e s2 assume "objects s1 = objects s" "?fn s1 = (Inl e, s2)"
    then show "objects s2 = objects s" using get_frame [of k s1] by simp
  qed (auto simp: pause_frame)
  with assms show ?thesis by (simp add: retry_call_def)
qed

end

lemma minio_address_Some: "minio_address k = Some a \<longleftrightarrow> a = k \<and> (\<exists>x. validate_object_key k = Inr x)"
  by (auto simp: minio_address_def split: sum.splits)

lemma validate_not_missing: "validate_object_key k \<noteq> Inl (StorageObjectNotFoundError x)"
  by (simp add: validate_object_key_def)

lemma read_handler_missing:
  "read_handler k e = StorageErr (StorageObjectNotFoundError x) \<Longrightarrow>
   \<exists>code. e = S3Error code \<and> code \<in> set not_found_codes"
  by (cases e) (auto simp: read_handler_def unreachable_def split: if_splits)

sublocale s3_server \<subseteq> bucket: file_store "minio_file_storage m" minio_address objects
proof
  fix k b ct md s r s'
  assume "fs_save (minio_file_storage m) k b ct md s = (Inr r, s')"
  then obtain cty mdo etag where "retry_call m (s3_put_object (mc_client m) (mc_bucket m) k b cty mdo) s = (Inr etag, s')"
    "\<exists>x. validate_object_key k = Inr x" "sf_key r = k" "sf_size_bytes r = int (length b)"
    by (auto simp: minio_file_storage_def minio_save_def split: sum.splits prod.splits)
  then show "\<exists>a. minio_address k = Some a \<and> objects s' = (objects s)(a := Some b) \<and> sf_key r = k \<and>
      sf_size_bytes r = int (length b)"
    using retry_put by (auto simp: minio_address_Some fun_eq_iff)
next
  fix k a b ct md s
  assume "minio_address k \<noteq> Some a"
  then show "objects (snd (fs_save (minio_file_storage m) k b ct md s)) a = objects s a"
    using retry_put [of k b _ _ s _ _ a]
    by (auto simp: minio_file_storage_def minio_save_def minio_address_Some split: sum.splits prod.splits)
next
  fix k s b s'
  assume "fs_read (minio_file_storage m) k s = (Inr b, s')"
  then show "\<exists>a. minio_address k = Some a \<and> objects s a = Some b"
    using get_result [of k s]
    by (auto simp: minio_file_storage_def minio_read_def minio_address_Some split: sum.splits prod.splits)
next
  fix k s x s'
  assume "fs_read (minio_file_storage m) k s = (Inl (StorageErr (StorageObjectNotFoundError x)), s')"
  then show "\<exists>a. minio_address k = Some a \<and> objects s a = None"
    using get_result [of k s] read_error validate_not_missing
    by (auto simp: minio_file_storage_def minio_read_def minio_address_Some
        split: sum.splits prod.splits dest!: read_handler_missing)
next
  fix k s
  show "objects (snd (fs_read (minio_file_storage m) k s)) = objects s"
  proof (cases "validate_object_key k")
    case (Inr x)
    obtain r s1 where g: "retry_call m (s3_get_object (mc_client m) (mc_bucket m) k) s = (r, s1)"
      by (cases "retry_call m (s3_get_object (mc_client m) (mc_bucket m) k) s")
    have "objects s1 = objects s" using get_result [OF g] by simp
    moreover have "objects (snd (s3_read_response (mc_client m) h s1)) = objects s1" for h
      by (rule read_frame)
    ultimately show ?thesis
      using Inr g
      by (auto simp: minio_file_storage_def minio_read_def release_frame split: sum.splits prod.splits)
        (metis snd_conv)+
  qed (simp add: minio_file_storage_def minio_read_def)
next
  fix k s and u :: unit and s'
  assume "fs_delete (minio_file_storage m) k s = (Inr u, s')"
  then show "\<exists>a. minio_address k = Some a \<and> objects s' = (objects s)(a := None)"
    using retry_remove [of k s]
    by (auto simp: minio_file_storage_def minio_delete_def minio_address_Some fun_eq_iff
        split: sum.splits prod.splits raw_exn.splits if_splits)
next
  fix k a s
  assume "minio_address k \<noteq> Some a"
  then show "objects (snd (fs_delete (minio_file_storage m) k s)) a = objects s a"
    using retry_remove [of k s]
    by (auto simp: minio_file_storage_def minio_delete_def minio_address_Some split: sum.splits prod.splits)
next
  fix k a s
  show "objects (snd (fs_delete (minio_file_storage m) k s)) a \<in> {objects s a, None}"
    using retry_remove [of k s]
    by (auto simp: minio_file_storage_def minio_delete_def split: sum.splits prod.splits if_splits)
next
  fix k s found s'
  assume "fs_exists (minio_file_storage m) k s = (Inr found, s')"
  then show "\<exists>a. minio_address k = Some a \<and> (objects s a \<noteq> None \<longrightarrow> found)"
    using stat_result [of k s]
    by (auto simp: minio_file_storage_def minio_exists_def minio_address_Some
        split: sum.splits prod.splits raw_exn.splits if_splits)
next
  fix k s
  show "objects (snd (fs_exists (minio_file_storage m) k s)) = objects s"
    using retry_frame [of "s3_stat_object (mc_client m) (mc_bucket m) k" s, OF stat_frame]
    by (auto simp: minio_file_storage_def minio_exists_def split: sum.splits prod.splits)
qed

context s3_server
begin

lemma round_trip:
  assumes "fs_save (minio_file_storage m) key b ct md s = (Inr r, s1)"
    and "fs_read (minio_file_storage m) key s1 = (Inr c, s2)"
  shows "c = b \<and> (\<forall>k. k \<noteq> key \<longrightarrow> objects s2 k = objects s k)"
proof -
  have "minio_address key \<noteq> Some k" if "k \<noteq> key" for k
    using that by (simp add: minio_address_Some)
  then show ?thesis
    using bucket.read_after_save [OF assms] bucket.save_frame [of key _ b ct md s]
      bucket.read_frame [of key s1] assms by auto
qed

end

section \<open>A reference server\<close>

text \<open>One bucket as a map, a queue of failures and the responses opened so far.\<close>

record mem_bucket =
  mb_objects :: "ustr \<Rightarrow> bytes option"
  mb_failures :: "raw_exn option list"
  mb_responses :: "bytes list"

definition mem_failure :: "mem_bucket \<Rightarrow> raw_exn option \<times> mem_bucket" where
  "mem_failure s = (case mb_failures s of [] \<Rightarrow> (None, s) | f # fs \<Rightarrow> (f, s\<lparr>mb_failures := fs\<rparr>))"

definition failing :: "(mem_bucket \<Rightarrow> (raw_exn + 'a) \<times> mem_bucket) \<Rightarrow> (mem_bucket, raw_exn, 'a) call" where
  "failing act s = (case mem_failure s of
       (Some e, s1) \<Rightarrow> (Inl (case e of S3Error _ \<Rightarrow> S3Error (uni ''InternalError'') | _ \<Rightarrow> e), s1)
     | (None, s1) \<Rightarrow> act s1)"

definition mem_s3 :: "mem_bucket s3_client" where
  "mem_s3 =
     \<lparr>s3_bucket_exists = (\<lambda>b. failing (\<lambda>s. (Inr True, s))),
      s3_make_bucket = (\<lambda>b. failing (\<lambda>s. (Inr (), s))),
      s3_put_object = (\<lambda>b k c ct md. failing (\<lambda>s. (Inr (Some (uni ''etag'')),
         s\<lparr>mb_objects := (mb_objects s)(k := Some c)\<rparr>))),
      s3_get_object = (\<lambda>b k. failing (\<lambda>s. (case mb_objects s k of
           None \<Rightarrow> (Inl (S3Error (uni ''NoSuchKey'')), s)
         | Some c \<Rightarrow> (Inr (length (mb_responses s)), s\<lparr>mb_responses := mb_responses s @ [c]\<rparr>)))),
      s3_read_response = (\<lambda>h s. if h < length (mb_responses s) then (Inr (mb_responses s ! h), s)
                                else (Inl (OtherError []), s)),
      s3_release = (\<lambda>h s. s),
      s3_remove_object = (\<lambda>b k. failing (\<lambda>s. (Inr (), s\<lparr>mb_objects := (mb_objects s)(k := None)\<rparr>))),
      s3_stat_object = (\<lambda>b k. failing (\<lambda>s. (case mb_objects s k of
           None \<Rightarrow> (Inl (S3Error (uni ''NoSuchKey'')), s)
         | Some c \<Rightarrow> (Inr \<lparr>st_size = Some (int (length c)), st_content_type = None, st_etag = None,
                          st_last_modified = None, st_metadata = []\<rparr>, s)))),
      s3_presigned_get_object = (\<lambda>b k n. failing (\<lambda>s. (Inr (uni ''http://minio/'' @ k), s)))\<rparr>"

definition mem_minio :: "mem_bucket minio" where
  "mem_minio = \<lparr>mc_client = mem_s3, mc_bucket = uni ''docs'', mc_expiry_seconds = 900,
     mc_create_bucket_if_missing = True, mc_policy = sample_policy, mc_pause = (\<lambda>c s. s)\<rparr>"

lemma mem_failure_objects: "mem_failure s = (f, s') \<Longrightarrow> mb_objects s' = mb_objects s"
  by (auto simp: mem_failure_def split: list.splits)

interpretation mem: s3_server mem_minio mb_objects
  by unfold_locales
    (auto simp: mem_minio_def mem_s3_def failing_def not_found_codes_def split: prod.splits option.splits
      raw_exn.splits if_splits dest!: mem_failure_objects)

text \<open>C25: Saving through the MinIO provider, with any number of transient failures and retries, makes
  the object readable with exactly the bytes that were passed, and never changes another object.\<close>

theorem minio_round_trip:
  assumes "s3_server m objects"
    and "fs_save (minio_file_storage m) key b ct md s = (Inr r, s1)"
    and "fs_read (minio_file_storage m) key s1 = (Inr c, s2)"
  shows "c = b \<and> (\<forall>k. k \<noteq> key \<longrightarrow> objects s2 k = objects s k)"
  using s3_server.round_trip [OF assms] .

definition sample_bucket :: mem_bucket where
  "sample_bucket = \<lparr>mb_objects = (\<lambda>_. None), mb_failures = [Some MaxRetryError, None, None], mb_responses = []\<rparr>"

lemmas mem_run_defs = minio_file_storage_def minio_save_def minio_read_def validate_object_key_def uni_def
  py_strip_def py_space_def is_absolute_def path_parts_def retry_call_def retry_async_def retry_loop.simps
  mem_minio_def mem_s3_def failing_def mem_failure_def sample_policy_def

lemma mem_save: "fs_save (minio_file_storage mem_minio) (uni ''a'') [1, 2] None [] sample_bucket =
    (Inr \<lparr>sf_key = uni ''a'', sf_size_bytes = 2, sf_content_type = None, sf_etag = Some (uni ''etag''), sf_metadata = []\<rparr>,
     sample_bucket\<lparr>mb_objects := (\<lambda>_. None)(uni ''a'' \<mapsto> [1, 2]), mb_failures := [None]\<rparr>)"
  by (simp add: mem_run_defs sample_bucket_def numeral_2_eq_2)

lemma mem_read: "\<exists>s2. fs_read (minio_file_storage mem_minio) (uni ''a'')
    (sample_bucket\<lparr>mb_objects := (\<lambda>_. None)(uni ''a'' \<mapsto> [1, 2]), mb_failures := [None]\<rparr>) = (Inr [1, 2], s2)"
  by (simp add: mem_run_defs sample_bucket_def numeral_2_eq_2)

theorem minio_round_trip_witness:
  "\<exists>r s1 c s2. fs_save (minio_file_storage mem_minio) (uni ''a'') [1, 2] None [] sample_bucket = (Inr r, s1) \<and>
    fs_read (minio_file_storage mem_minio) (uni ''a'') s1 = (Inr c, s2) \<and> c = [1, 2] \<and>
    mb_objects s2 (uni ''b'') = None"
proof -
  from mem_read obtain s2 where rd: "fs_read (minio_file_storage mem_minio) (uni ''a'')
    (sample_bucket\<lparr>mb_objects := (\<lambda>_. None)(uni ''a'' \<mapsto> [1, 2]), mb_failures := [None]\<rparr>) = (Inr [1, 2], s2)" by blast
  from minio_round_trip [OF mem.s3_server_axioms mem_save rd] have "mb_objects s2 (uni ''b'') = None"
    by (simp add: sample_bucket_def)
  with mem_save rd show ?thesis by blast
qed

end
