(* ===== verification/App_Boundary.thy ===== *)
theory App_Boundary
  imports Http Embedding_Config
begin

text \<open>
  The boundary of the application: the categories of \<open>app/core/errors.py\<close>, the handlers of
  \<open>app/core/exception_handlers.py\<close>, the two middlewares of \<open>app/core/middleware.py\<close>, the policy of
  \<open>app/core/cors.py\<close>, the lifecycle of \<open>app/core/lifespan.py\<close>, the logging configuration and the order in which
  \<open>app/main.py\<close> stacks them.  An ASGI application is what it does with a request: the messages it sends, the
  start of a response and the chunks of its body, and the exception it ends with.  The router, the CORS
  middleware, the bridge with which the framework turns the sent messages into the response object of a
  function middleware, and what the framework raises when a handled exception comes after the start of a
  response, are arguments; what is relied on of them is stated where they are used.  Of a log record the
  fields of its line are modelled, not its rendering.
\<close>

section \<open>Error categories\<close>

datatype app_error =
  AppError ustr | ConfigurationError ustr | ValidationError ustr | NotFoundError ustr | ConflictError ustr | ProviderError ustr
  | OperationTimeoutError ustr | LifecycleError ustr | InternalError ustr

fun status_code :: "app_error \<Rightarrow> nat" where
  "status_code (AppError m) = 500"
| "status_code (ConfigurationError m) = 500"
| "status_code (ValidationError m) = 400"
| "status_code (NotFoundError m) = 404"
| "status_code (ConflictError m) = 409"
| "status_code (ProviderError m) = 502"
| "status_code (OperationTimeoutError m) = 504"
| "status_code (LifecycleError m) = 500"
| "status_code (InternalError m) = 500"

fun error_code :: "app_error \<Rightarrow> string" where
  "error_code (AppError m) = ''internal_error''"
| "error_code (ConfigurationError m) = ''configuration_error''"
| "error_code (ValidationError m) = ''validation_error''"
| "error_code (NotFoundError m) = ''not_found''"
| "error_code (ConflictError m) = ''conflict''"
| "error_code (ProviderError m) = ''provider_error''"
| "error_code (OperationTimeoutError m) = ''timeout''"
| "error_code (LifecycleError m) = ''lifecycle_error''"
| "error_code (InternalError m) = ''internal_error''"

fun error_message :: "app_error \<Rightarrow> ustr" where
  "error_message (AppError m) = m"
| "error_message (ConfigurationError m) = m"
| "error_message (ValidationError m) = m"
| "error_message (NotFoundError m) = m"
| "error_message (ConflictError m) = m"
| "error_message (ProviderError m) = m"
| "error_message (OperationTimeoutError m) = m"
| "error_message (LifecycleError m) = m"
| "error_message (InternalError m) = m"

section \<open>Responses and exceptions\<close>

record response =
  rsp_status :: nat
  rsp_headers :: "(string \<times> ustr) list"
  rsp_body :: "ustr list"

text \<open>\<open>Unexpected\<close> is any other \<open>Exception\<close>, \<open>Cancelled\<close> what is not one (\<open>CancelledError\<close>, \<open>KeyboardInterrupt\<close>).\<close>

datatype raised = Categorised app_error | Unexpected exn | Cancelled

datatype asgi_message = Start nat "(string \<times> ustr) list" | Body ustr

type_synonym asgi_result = "asgi_message list \<times> raised option"

definition correlation_id_header :: string where
  "correlation_id_header = ''X-Correlation-ID''"

definition no_correlation_id :: ustr where
  "no_correlation_id = uni ''-''"

text \<open>The body of \<open>JSONResponse\<close>, \<open>{"detail":...}\<close>; rendering a text as JSON is an argument.\<close>

definition error_response :: "(ustr \<Rightarrow> ustr) \<Rightarrow> ustr \<Rightarrow> nat \<Rightarrow> ustr \<Rightarrow> response" where
  "error_response render correlation_id code detail =
     \<lparr>rsp_status = code, rsp_headers = [(correlation_id_header, correlation_id)], rsp_body = [render detail]\<rparr>"

definition app_error_handler :: "(ustr \<Rightarrow> ustr) \<Rightarrow> ustr \<Rightarrow> app_error \<Rightarrow> response" where
  "app_error_handler render correlation_id e = error_response render correlation_id (status_code e) (error_message e)"

definition unexpected_response :: "(ustr \<Rightarrow> ustr) \<Rightarrow> ustr \<Rightarrow> response" where
  "unexpected_response render correlation_id = error_response render correlation_id 500 unexpected_error_detail"

definition sent :: "response \<Rightarrow> asgi_message list" where
  "sent r = Start (rsp_status r) (rsp_headers r) # map Body (rsp_body r)"

section \<open>Middleware\<close>

fun is_start :: "asgi_message \<Rightarrow> bool" where
  "is_start (Start n h) = True"
| "is_start (Body b) = False"

definition is_exception :: "raised \<Rightarrow> bool" where
  "is_exception e \<longleftrightarrow> e \<noteq> Cancelled"

text \<open>\<open>UnhandledExceptionCorsBoundary.__call__\<close> around what the inner application did.\<close>

definition unhandled_exception_boundary :: "(ustr \<Rightarrow> ustr) \<Rightarrow> ustr \<Rightarrow> string \<Rightarrow> asgi_result \<Rightarrow> asgi_result" where
  "unhandled_exception_boundary render correlation_id scope_type inner =
     (if scope_type \<noteq> ''http'' then inner
      else (case inner of
          (ms, None) \<Rightarrow> (ms, None)
        | (ms, Some e) \<Rightarrow>
            if \<not> is_exception e then (ms, Some e)
            else (ms @ (if list_ex is_start ms then [] else sent (unexpected_response render correlation_id)), Some e)))"

text \<open>Header names are compared without case; setting one replaces the first and drops the others.\<close>

definition lower_name :: "string \<Rightarrow> nat list" where
  "lower_name n = map (\<lambda>c. let k = of_char c in if 65 \<le> k \<and> k \<le> 90 then k + 32 else k) n"

definition named :: "string \<Rightarrow> string \<times> ustr \<Rightarrow> bool" where
  "named name h \<longleftrightarrow> lower_name (fst h) = lower_name name"

definition set_header :: "string \<Rightarrow> ustr \<Rightarrow> response \<Rightarrow> response" where
  "set_header name v r =
     (let hs = rsp_headers r in
      r\<lparr>rsp_headers := takeWhile (\<lambda>h. \<not> named name h) hs @ [(name, v)] @ filter (\<lambda>h. \<not> named name h) (dropWhile (\<lambda>h. \<not> named name h) hs)\<rparr>)"

text \<open>\<open>call_next\<close> runs the rest of the stack with the correlation id in its context and gives the response, whose body
  may still be streamed and end with an exception, or raises when none was started.\<close>

definition correlation_id_middleware :: "ustr option \<Rightarrow> ustr \<Rightarrow> (ustr \<Rightarrow> raised + response \<times> raised option) \<Rightarrow>
    raised + response \<times> raised option" where
  "correlation_id_middleware header fresh call_next =
     (let incoming = py_strip (case header of None \<Rightarrow> [] | Some h \<Rightarrow> h);
          correlation_id = (if incoming = [] then fresh else incoming) in
      case call_next correlation_id of
        Inl e \<Rightarrow> Inl e
      | Inr (response, failure) \<Rightarrow> Inr (set_header correlation_id_header correlation_id response, failure))"

section \<open>CORS\<close>

record cors_kwargs =
  allow_origins :: "ustr list"
  allow_credentials :: bool
  allow_methods :: "string list"
  expose_headers :: "string list"

definition cors_middleware_kwargs :: "settings \<Rightarrow> cors_kwargs" where
  "cors_middleware_kwargs s = \<lparr>allow_origins = cors_allow_origins_list s, allow_credentials = False,
     allow_methods = [''GET'', ''POST'', ''DELETE''], expose_headers = [correlation_id_header]\<rparr>"

section \<open>The stack\<close>

text \<open>The innermost layer: a router's answer, an \<open>AppError\<close> answered by its registered handler, which is too \<open>late\<close> once
  a response was started, anything else let out.  \<open>router\<close> gives the messages sent before the exception.\<close>

definition exception_layer :: "(ustr \<Rightarrow> ustr) \<Rightarrow> raised \<Rightarrow> ustr \<Rightarrow> asgi_result \<Rightarrow> asgi_result" where
  "exception_layer render late correlation_id r = (case r of
     (ms, Some (Categorised e)) \<Rightarrow>
       if list_ex is_start ms then (ms, Some late) else (ms @ sent (app_error_handler render correlation_id e), None)
   | _ \<Rightarrow> r)"

text \<open>What the stack sends to the server and the exception it lets out.\<close>

definition app :: "(ustr \<Rightarrow> ustr) \<Rightarrow> raised \<Rightarrow> (cors_kwargs \<Rightarrow> asgi_result \<Rightarrow> asgi_result) \<Rightarrow>
    (asgi_result \<Rightarrow> raised + response \<times> raised option) \<Rightarrow> settings \<Rightarrow> (ustr \<Rightarrow> asgi_result) \<Rightarrow> ustr option \<Rightarrow> ustr \<Rightarrow> asgi_result" where
  "app render late cors bridge s router header fresh =
     (case correlation_id_middleware header fresh (\<lambda>correlation_id.
         bridge (cors (cors_middleware_kwargs s) (unhandled_exception_boundary render correlation_id ''http''
           (exception_layer render late correlation_id (router correlation_id))))) of
        Inl e \<Rightarrow> ([], Some e)
      | Inr (response, failure) \<Rightarrow> (sent response, failure))"

section \<open>Lifecycle\<close>

datatype lifespan_event = StartupBegin | StartupComplete | ShutdownBegin | ShutdownComplete | Disposed

text \<open>The exit stack disposes of the engine however the served application ends; \<open>None\<close> is a normal end.  An
  exception of the disposal replaces the one that was under way.\<close>

definition lifespan :: "raised option \<Rightarrow> raised option \<Rightarrow> lifespan_event list \<times> raised option" where
  "lifespan served_end disposal =
     (case served_end of
        None \<Rightarrow> (case disposal of
            None \<Rightarrow> ([StartupBegin, StartupComplete, ShutdownBegin, Disposed, ShutdownComplete], None)
          | Some e \<Rightarrow> ([StartupBegin, StartupComplete, ShutdownBegin, Disposed], Some e))
      | Some e \<Rightarrow> ([StartupBegin, StartupComplete, Disposed], Some (case disposal of None \<Rightarrow> e | Some e' \<Rightarrow> e')))"

section \<open>Logging\<close>

text \<open>A handler of the root logger; \<open>managed\<close> is the mark \<open>configure_logging\<close> leaves on its own.\<close>

record log_handler =
  lh_id :: nat
  managed :: bool

record root_logger =
  handlers :: "log_handler list"
  level :: ustr

definition upper_ascii :: "ustr \<Rightarrow> ustr" where
  "upper_ascii = map (\<lambda>c. if 97 \<le> c \<and> c \<le> 122 then c - 32 else c)"

definition configure_logging :: "nat \<Rightarrow> settings \<Rightarrow> root_logger \<Rightarrow> root_logger" where
  "configure_logging new_id s r =
     r\<lparr>handlers := filter (\<lambda>h. \<not> managed h) (handlers r) @ [\<lparr>lh_id = new_id, managed = True\<rparr>], level := upper_ascii (log_level s)\<rparr>"

text \<open>The pool options of the engine; \<open>backend\<close> is what the URL library reads from the address.\<close>

definition pool_kwargs :: "(ustr \<Rightarrow> string) \<Rightarrow> settings \<Rightarrow> (string \<times> int) list" where
  "pool_kwargs backend s =
     (if backend (database_url s) = ''sqlite'' then []
      else [(''pool_size'', db_pool_size s), (''max_overflow'', db_max_overflow s), (''pool_recycle'', db_pool_recycle s)])"

section \<open>Properties\<close>

text \<open>What is relied on of the framework.  The bridge delivers the response that was started, the chunks of its body in
  order (it may add empty ones), and the exception that ended it; without a response it raises.  The CORS middleware
  answers a preflight itself, without running what it wraps, and of any other request lets the exception through and
  changes nothing of what is sent but headers.  \<open>own\<close> is its own answer, if it gives one.\<close>

definition filled :: "ustr list \<Rightarrow> ustr list" where
  "filled chunks = filter (\<lambda>c. c \<noteq> []) chunks"

definition bridges :: "(asgi_result \<Rightarrow> raised + response \<times> raised option) \<Rightarrow> bool" where
  "bridges bridge \<longleftrightarrow>
     (\<forall>n h bs e. \<exists>chunks. bridge (Start n h # map Body bs, e) = Inr (\<lparr>rsp_status = n, rsp_headers = h, rsp_body = chunks\<rparr>, e) \<and>
        filled chunks = filled bs) \<and>
     (\<forall>e. bridge ([], Some e) = Inl e) \<and> (\<exists>e. bridge ([], None) = Inl e)"

definition only_headers :: "(asgi_result \<Rightarrow> asgi_result) \<Rightarrow> bool" where
  "only_headers cors \<longleftrightarrow> (\<forall>ms e. snd (cors (ms, e)) = e \<and>
     list_all2 (\<lambda>a b. case a of Start n h \<Rightarrow> (\<exists>h'. b = Start n h') | Body t \<Rightarrow> b = Body t) ms (fst (cors (ms, e))))"

definition cors_behaves :: "(nat \<times> ustr list) option \<Rightarrow> (asgi_result \<Rightarrow> asgi_result) \<Rightarrow> bool" where
  "cors_behaves own cors \<longleftrightarrow>
     (case own of None \<Rightarrow> only_headers cors | Some (n, bs) \<Rightarrow> \<exists>h. \<forall>inner. cors inner = (Start n h # map Body bs, None))"

text \<open>A router sends nothing or one response, all at once or in chunks, and may end with any exception.\<close>

definition sends_response :: "asgi_message list \<Rightarrow> bool" where
  "sends_response ms \<longleftrightarrow> ms = [] \<or> (\<exists>n h bs. ms = Start n h # map Body bs)"

text \<open>The answer that each outcome of a router deserves: status, body and the exception the server sees.\<close>

fun deserved :: "(ustr \<Rightarrow> ustr) \<Rightarrow> raised \<Rightarrow> asgi_result \<Rightarrow> (nat \<times> ustr list \<times> raised option) option" where
  "deserved render late (Start n h # ms, e) =
     Some (n, map (\<lambda>m. case m of Body b \<Rightarrow> b | Start _ _ \<Rightarrow> []) ms, case e of Some (Categorised a) \<Rightarrow> Some late | _ \<Rightarrow> e)"
| "deserved render late ([], Some (Categorised a)) = Some (status_code a, [render (error_message a)], None)"
| "deserved render late ([], Some (Unexpected e)) = Some (500, [render (uni ''Internal server error.'')], Some (Unexpected e))"
| "deserved render late (ms, e) = None"

lemma only_headers_start:
  assumes "only_headers cors"
  shows "\<exists>h'. cors (Start n h # map Body bs, e) = (Start n h' # map Body bs, e)"
proof -
  have bodies: "list_all2 (\<lambda>a b. case a of Start n h \<Rightarrow> (\<exists>h'. b = Start n h') | Body t \<Rightarrow> b = Body t) (map Body bs) out \<Longrightarrow> out = map Body bs" for out
    by (induction bs arbitrary: out) (auto simp: list_all2_Cons1)
  obtain out e' where o: "cors (Start n h # map Body bs, e) = (out, e')" by fastforce
  with assms [unfolded only_headers_def, rule_format, of "Start n h # map Body bs" e] bodies show ?thesis
    by (auto simp: list_all2_Cons1)
qed

lemma only_headers_nothing:
  assumes "only_headers cors"
  shows "cors ([], e) = ([], e)"
  using assms [unfolded only_headers_def, rule_format, of "[]" e] by (cases "cors ([], e)") simp

lemma header_once: "filter (named n) (rsp_headers (set_header n v r)) = [(n, v)]"
proof -
  have "filter (named n) (takeWhile (\<lambda>h. \<not> named n h) hs) = []" for hs
    by (induction hs) auto
  then show ?thesis by (simp add: set_header_def Let_def named_def)
qed

text \<open>What reaches the CORS middleware is what the router deserves, before the headers.\<close>

lemma inner_answer:
  assumes "sends_response ms"
  shows "case deserved render late (ms, e) of
      None \<Rightarrow> fst (unhandled_exception_boundary render cid ''http'' (exception_layer render late cid (ms, e))) = []
    | Some (n, bs, e') \<Rightarrow> \<exists>h. unhandled_exception_boundary render cid ''http'' (exception_layer render late cid (ms, e)) = (Start n h # map Body bs, e')"
proof (cases "ms = []")
  case True
  show ?thesis
  proof (cases e)
    case (Some x)
    with True show ?thesis
      by (cases x) (simp_all add: unhandled_exception_boundary_def exception_layer_def is_exception_def sent_def
          app_error_handler_def unexpected_response_def error_response_def unexpected_error_detail_def)
  qed (simp add: True unhandled_exception_boundary_def exception_layer_def)
next
  case False
  then obtain n h bs where ms: "ms = Start n h # map Body bs" using assms(1) by (auto simp: sends_response_def)
  have "map (\<lambda>m. case m of Body b \<Rightarrow> b | Start _ _ \<Rightarrow> []) (map Body bs) = bs" by (simp add: comp_def)
  then show ?thesis
    by (auto simp: ms unhandled_exception_boundary_def exception_layer_def split: option.split raised.split)
qed

text \<open>C40: Whatever a router does with a request, a response at once or streamed in chunks, or none, ended by any
  exception, and whatever the CORS middleware makes of it, its own answer to a preflight or other headers, the client
  gets exactly what is deserved: the preflight's answer; else the router's own status and body, the exception after
  the start going on to the server; else the status and message of an \<open>AppError\<close>; else for any other exception status
  500 with one fixed text, the same for every exception.  That is one response, and it carries exactly one correlation
  id header, with the stripped id of the request or, when that is blank, the fresh one, which is also the id the
  handlers and the router saw.  Nothing is sent only when the router sent nothing and was cancelled or just returned.\<close>

theorem boundary_answers:
  assumes "bridges bridge" and "cors_behaves own (cors (cors_middleware_kwargs s))" and "sends_response (fst (router cid))"
    and cid: "cid = (let i = py_strip (case header of None \<Rightarrow> [] | Some h \<Rightarrow> h) in if i = [] then fresh else i)"
  shows "case (case own of Some (n, bs) \<Rightarrow> Some (n, bs, None) | None \<Rightarrow> deserved render late (router cid)) of
      None \<Rightarrow> fst (app render late cors bridge s router header fresh) = [] \<and> snd (app render late cors bridge s router header fresh) \<noteq> None
    | Some (n, bs, e) \<Rightarrow> \<exists>h chunks. app render late cors bridge s router header fresh = (Start n h # map Body chunks, e) \<and>
        filled chunks = filled bs \<and> filter (named correlation_id_header) h = [(correlation_id_header, cid)]"
proof -
  let ?in = "unhandled_exception_boundary render cid ''http'' (exception_layer render late cid (router cid))"
  let ?cors = "cors (cors_middleware_kwargs s)"
  let ?app = "app render late cors bridge s router header fresh"
  obtain ms x where r: "router cid = (ms, x)" by fastforce
  have app: "?app = (case bridge (?cors ?in) of Inl e \<Rightarrow> ([], Some e) | Inr (r, e) \<Rightarrow> (sent (set_header correlation_id_header cid r), e))"
    unfolding app_def correlation_id_middleware_def Let_def cid [unfolded Let_def, symmetric] by (simp split: sum.split prod.split)
  have answered: "\<exists>h chunks. ?app = (Start n h # map Body chunks, e) \<and> filled chunks = filled bs \<and>
      filter (named correlation_id_header) h = [(correlation_id_header, cid)]" if c: "?cors ?in = (Start n h' # map Body bs, e)" for n h' bs e
  proof -
    obtain chunks where b: "bridge (Start n h' # map Body bs, e) = Inr (\<lparr>rsp_status = n, rsp_headers = h', rsp_body = chunks\<rparr>, e)"
      "filled chunks = filled bs" using assms(1) unfolding bridges_def by blast
    let ?r = "set_header correlation_id_header cid \<lparr>rsp_status = n, rsp_headers = h', rsp_body = chunks\<rparr>"
    have "?app = (Start n (rsp_headers ?r) # map Body chunks, e)"
      unfolding app c b(1) by (simp add: sent_def set_header_def Let_def)
    with b(2) header_once show ?thesis by blast
  qed
  show ?thesis
  proof (cases own)
    case (Some nb)
    obtain n bs where nb: "nb = (n, bs)" by fastforce
    from assms(2) have "\<exists>h. \<forall>inner. ?cors inner = (Start n h # map Body bs, None)"
      unfolding cors_behaves_def Some nb option.case prod.case .
    then obtain h where "?cors ?in = (Start n h # map Body bs, None)" by blast
    from answered [OF this] show ?thesis by (simp add: Some nb)
  next
    case None
    with assms(2) have oh: "only_headers ?cors" by (simp add: cors_behaves_def)
    note i = inner_answer [OF assms(3) [unfolded r fst_conv], where render = render and late = late and e = x and cid = cid, folded r]
    show ?thesis
    proof (cases "deserved render late (router cid)")
      case None
      with i obtain e where "?in = ([], e)" by (cases ?in) auto
      then have "?cors ?in = ([], e)" using only_headers_nothing [OF oh] by simp
      then have "\<exists>e'. bridge (?cors ?in) = Inl e'" using assms(1) by (cases e) (auto simp: bridges_def)
      with None \<open>own = None\<close> show ?thesis by (auto simp: app)
    next
      case (Some a)
      obtain n bs e where a: "a = (n, bs, e)" by (cases a) auto
      with i Some obtain h where "?in = (Start n h # map Body bs, e)" by auto
      with only_headers_start [OF oh, of n h bs e] obtain h' where "?cors ?in = (Start n h' # map Body bs, e)" by auto
      from answered [OF this] show ?thesis by (simp add: Some a \<open>own = None\<close>)
    qed
  qed
qed

text \<open>Once a response was started nothing is added to it, and every exception goes on to the server.\<close>

lemma boundary_transparent:
  "snd (unhandled_exception_boundary render cid scope_type r) = snd r"
  "list_ex is_start (fst r) \<Longrightarrow> unhandled_exception_boundary render cid scope_type r = r"
  by (cases r; auto simp: unhandled_exception_boundary_def split: option.splits)+

lemma lifespan_disposes: "length (filter ((=) Disposed) (fst (lifespan a d))) = 1 \<and> (snd (lifespan a d) = None \<longleftrightarrow> a = None \<and> d = None)"
  by (simp add: lifespan_def split: option.split)

text \<open>However often logging is configured, one managed handler remains and the others stay.\<close>

lemma configure_logging_once:
  "filter managed (handlers (configure_logging i s r)) = [\<lparr>lh_id = i, managed = True\<rparr>] \<and>
   filter (\<lambda>h. \<not> managed h) (handlers (configure_logging i s r)) = filter (\<lambda>h. \<not> managed h) (handlers r)"
  by (simp add: configure_logging_def)

text \<open>Concrete requests: an exception before the start, a stream that fails after two events, and a preflight.\<close>

definition plain_bridge :: "asgi_result \<Rightarrow> raised + response \<times> raised option" where
  "plain_bridge r = (case r of
     (Start n h # ms, e) \<Rightarrow> Inr (\<lparr>rsp_status = n, rsp_headers = h, rsp_body = map (\<lambda>m. case m of Body b \<Rightarrow> b | _ \<Rightarrow> []) ms @ [[]]\<rparr>, e)
   | (_, Some e) \<Rightarrow> Inl e
   | (_, None) \<Rightarrow> Inl Cancelled)"

definition secret_error :: raised where
  "secret_error = Unexpected (ValueError (uni ''secret''))"

theorem boundary_answers_witness:
  "(\<exists>h chunks. app id Cancelled (\<lambda>k r. r) plain_bridge default_settings (\<lambda>_. ([], Some secret_error)) (Some (uni '' req-7 '')) (uni ''u1'') =
       (Start 500 h # map Body chunks, Some secret_error) \<and> filled chunks = [uni ''Internal server error.''] \<and>
     filter (named correlation_id_header) h = [(correlation_id_header, uni ''req-7'')]) \<and>
   (\<exists>h chunks. app id Cancelled (\<lambda>k r. r) plain_bridge default_settings
       (\<lambda>_. ([Start 200 [(''x-correlation-id'', uni ''other'')], Body (uni ''event: a''), Body (uni ''event: b'')], Some secret_error)) None (uni ''u1'') =
       (Start 200 h # map Body chunks, Some secret_error) \<and> filled chunks = [uni ''event: a'', uni ''event: b''] \<and>
     filter (named correlation_id_header) h = [(correlation_id_header, uni ''u1'')]) \<and>
   (\<exists>h chunks. app id Cancelled (\<lambda>k r. ([Start 200 [], Body (uni ''OK'')], None)) plain_bridge default_settings
       (\<lambda>_. ([], Some secret_error)) None (uni ''u1'') = (Start 200 h # map Body chunks, None) \<and> filled chunks = [uni ''OK''] \<and>
     filter (named correlation_id_header) h = [(correlation_id_header, uni ''u1'')])"
proof -
  have b: "bridges plain_bridge"
    by (simp add: bridges_def plain_bridge_def comp_def filled_def)
  have c: "cors_behaves None (\<lambda>r. r)"
    unfolding cors_behaves_def only_headers_def fst_conv snd_conv option.case
    by (intro allI conjI refl list.rel_refl) (simp split: asgi_message.split)
  have p: "cors_behaves (Some (200, [uni ''OK''])) (\<lambda>r. ([Start 200 [], Body (uni ''OK'')], None))"
    by (simp add: cors_behaves_def)
  have strip: "uni ''req-7'' = (let i = py_strip (case Some (uni '' req-7 '') of None \<Rightarrow> [] | Some h \<Rightarrow> h) in if i = [] then uni ''u1'' else i)"
    and none: "uni ''u1'' = (let i = py_strip (case None of None \<Rightarrow> [] | Some h \<Rightarrow> h) in if i = [] then uni ''u1'' else i)"
    by (simp_all add: py_strip_def uni_def py_space_def)
  let ?fails = "\<lambda>_::ustr. ([], Some secret_error) :: asgi_result"
  let ?stream = "\<lambda>_::ustr. ([Start 200 [(''x-correlation-id'', uni ''other'')], Body (uni ''event: a''), Body (uni ''event: b'')], Some secret_error) :: asgi_result"
  have fails: "sends_response (fst (?fails x))" for x by (simp add: sends_response_def)
  have stream: "sends_response (fst (?stream x))" for x
    unfolding sends_response_def fst_conv
    by (intro disjI2 exI [of _ 200] exI [of _ "[(''x-correlation-id'', uni ''other'')]"] exI [of _ "[uni ''event: a'', uni ''event: b'']"]) simp
  note claim = boundary_answers [where s = default_settings and render = id and late = Cancelled]
  from claim [where cors = "\<lambda>k r. r" and router = ?fails, OF b c fails strip]
    claim [where cors = "\<lambda>k r. r" and router = ?stream, OF b c stream none]
    claim [where cors = "\<lambda>k r. ([Start 200 [], Body (uni ''OK'')], None)" and router = ?fails, OF b p fails none]
  show ?thesis by (simp add: secret_error_def filled_def)
qed

section \<open>Log lines\<close>

text \<open>The attributes of a log record, those the logging library sets and those a call site adds.\<close>

record log_record =
  lr_timestamp :: ustr
  lr_level :: ustr
  lr_logger :: ustr
  lr_message :: ustr
  lr_attributes :: "(string \<times> ustr) list"
  lr_exception :: "ustr option"

fun add_extras :: "string list \<Rightarrow> (string \<times> ustr) list \<Rightarrow> (string \<times> ustr) list \<Rightarrow> (string \<times> ustr) list" where
  "add_extras reserved [] payload = payload"
| "add_extras reserved ((k, v) # xs) payload =
     add_extras reserved xs (if k \<notin> set reserved \<and> k \<notin> fst ` set payload then payload @ [(k, v)] else payload)"

definition set_key :: "string \<Rightarrow> ustr \<Rightarrow> (string \<times> ustr) list \<Rightarrow> (string \<times> ustr) list" where
  "set_key k v xs = (if k \<in> fst ` set xs then map (\<lambda>(n, w). (n, if n = k then v else w)) xs else xs @ [(k, v)])"

definition log_payload :: "string list \<Rightarrow> ustr \<Rightarrow> log_record \<Rightarrow> (string \<times> ustr) list" where
  "log_payload reserved correlation_id r =
     (let payload = add_extras reserved (lr_attributes r)
        [(''timestamp'', lr_timestamp r), (''level'', lr_level r), (''logger'', lr_logger r), (''message'', lr_message r),
         (''correlation_id'', correlation_id)] in
      case lr_exception r of None \<Rightarrow> payload | Some t \<Rightarrow> set_key ''exception'' t payload)"

text \<open>A call site cannot replace the fixed fields of a line.\<close>

lemma add_extras_keeps: "map_of payload k = Some v \<Longrightarrow> map_of (add_extras reserved xs payload) k = Some v"
  by (induction reserved xs payload rule: add_extras.induct) (auto simp: map_add_def split: option.splits)

lemma set_key_other: "n \<noteq> k \<Longrightarrow> map_of (set_key k v xs) n = map_of xs n"
proof -
  assume "n \<noteq> k"
  then have "map_of (map (\<lambda>(m, w). (m, if m = k then v else w)) ys) n = map_of ys n" for ys
    by (induction ys) auto
  with \<open>n \<noteq> k\<close> show ?thesis by (auto simp: set_key_def map_add_def split: option.split)
qed

lemma fixed_fields:
  "map_of (log_payload reserved cid r) ''correlation_id'' = Some cid"
  "map_of (log_payload reserved cid r) ''message'' = Some (lr_message r)"
  by (auto simp: log_payload_def Let_def set_key_other intro!: add_extras_keeps split: option.splits)

end
