(* ===== verification/Lookups.thy ===== *)
theory Lookups
  imports Models
begin

text \<open>
  The read queries the services share: the latest job of a document in each of the three job tables,
  the batched form of the same lookup, and the active job.  Rows are ordered by
  \<open>created_at DESC, id DESC\<close>; the identifiers are uuid4 texts, on which the database collation and
  Python's comparison agree.  The locale \<open>job_table\<close> states what the schema promises of a job table
  and proves the lookups equivalent to each other once for the three tables.
\<close>

section \<open>Latest rows\<close>

text \<open>The loop of the batched lookups: a dict from document id to the greatest row seen.\<close>

fun latest_per_document :: "('j \<Rightarrow> ustr) \<Rightarrow> ('j \<Rightarrow> 'k::linorder) \<Rightarrow> 'j list \<Rightarrow> (ustr \<rightharpoonup> 'j) \<Rightarrow> (ustr \<rightharpoonup> 'j)"
  where
  "latest_per_document jdoc key [] m = m"
| "latest_per_document jdoc key (j # js) m =
     latest_per_document jdoc key js
       (case m (jdoc j) of
          None \<Rightarrow> m(jdoc j \<mapsto> j)
        | Some cur \<Rightarrow> if key cur < key j then m(jdoc j \<mapsto> j) else m)"

definition row_key :: "('j \<Rightarrow> time) \<Rightarrow> ('j \<Rightarrow> ustr) \<Rightarrow> 'j \<Rightarrow> time \<times> ustr" where
  "row_key jtime jid j = (jtime j, jid j)"

definition latest_of :: "('j \<Rightarrow> ustr) \<Rightarrow> ('j \<Rightarrow> time) \<Rightarrow> ('j \<Rightarrow> ustr) \<Rightarrow> ustr \<Rightarrow> 'j list \<Rightarrow> 'j option" where
  "latest_of jid jtime jdoc doc js = latest_by (row_key jtime jid) (filter (\<lambda>j. jdoc j = doc) js)"

definition get_document :: "db \<Rightarrow> ustr \<Rightarrow> document option" where
  "get_document d document_id = get_row doc_id document_id (documents d)"

definition get_latest_ingestion_job :: "db \<Rightarrow> ustr \<Rightarrow> ingestion_job option" where
  "get_latest_ingestion_job d document_id =
     latest_of ing_id ing_created_at ing_document_id document_id (ingestion_jobs d)"

definition get_latest_failed_ingestion_job :: "db \<Rightarrow> ustr \<Rightarrow> ingestion_job option" where
  "get_latest_failed_ingestion_job d document_id =
     latest_of ing_id ing_created_at ing_document_id document_id
       (filter (\<lambda>j. ing_status j = IngFailed) (ingestion_jobs d))"

definition latest_active_job :: "db \<Rightarrow> ustr \<Rightarrow> ingestion_job option" where
  "latest_active_job d document_id =
     latest_of ing_id ing_created_at ing_document_id document_id
       (filter ing_active (ingestion_jobs d))"

definition get_latest_jobs_for_documents :: "db \<Rightarrow> ustr list \<Rightarrow> (ustr \<rightharpoonup> ingestion_job)" where
  "get_latest_jobs_for_documents d document_ids =
     (if document_ids = [] then Map.empty
      else latest_per_document ing_document_id (row_key ing_created_at ing_id)
             (filter (\<lambda>j. ing_document_id j \<in> set document_ids) (ingestion_jobs d)) Map.empty)"

definition get_latest_deletion_job :: "db \<Rightarrow> ustr \<Rightarrow> deletion_job option" where
  "get_latest_deletion_job d document_id =
     latest_of del_id del_created_at del_document_id document_id (deletion_jobs d)"

definition latest_active_deletion_job :: "db \<Rightarrow> ustr \<Rightarrow> deletion_job option" where
  "latest_active_deletion_job d document_id =
     latest_of del_id del_created_at del_document_id document_id
       (filter del_active (deletion_jobs d))"

definition get_latest_deletion_jobs_for_documents :: "db \<Rightarrow> ustr list \<Rightarrow> (ustr \<rightharpoonup> deletion_job)" where
  "get_latest_deletion_jobs_for_documents d document_ids =
     (if document_ids = [] then Map.empty
      else latest_per_document del_document_id (row_key del_created_at del_id)
             (filter (\<lambda>j. del_document_id j \<in> set document_ids) (deletion_jobs d)) Map.empty)"

definition get_reindex_job :: "db \<Rightarrow> ustr \<Rightarrow> reindex_job option" where
  "get_reindex_job d job_id = get_row rix_id job_id (reindex_jobs d)"

definition get_latest_reindex_job :: "db \<Rightarrow> ustr \<Rightarrow> reindex_job option" where
  "get_latest_reindex_job d document_id =
     latest_of rix_id rix_created_at rix_document_id document_id (reindex_jobs d)"

definition get_active_reindex_job :: "db \<Rightarrow> ustr \<Rightarrow> reindex_job option" where
  "get_active_reindex_job d document_id =
     latest_of rix_id rix_created_at rix_document_id document_id
       (filter rix_active (reindex_jobs d))"

definition get_completed_reindex_target_collections :: "db \<Rightarrow> ustr \<Rightarrow> ustr list" where
  "get_completed_reindex_target_collections d document_id =
     map target_collection_name
       (filter (\<lambda>j. rix_document_id j = document_id \<and> rix_status j = RixCompleted) (reindex_jobs d))"

definition get_pending_cleanup_jobs :: "db \<Rightarrow> ustr option \<Rightarrow> cleanup_job list" where
  "get_pending_cleanup_jobs d document_id =
     (let jobs = filter (\<lambda>j. vc_status j = VcPending \<or> vc_status j = VcFailed) (cleanup_jobs d)
      in case document_id of None \<Rightarrow> jobs
         | Some doc \<Rightarrow> filter (\<lambda>j. vc_document_id j = doc) jobs)"

section \<open>What the lookups return\<close>

lemma latest_of_Some:
  "latest_of jid jtime jdoc doc js = Some j \<Longrightarrow> j \<in> set js \<and> jdoc j = doc"
  by (auto simp: latest_of_def dest!: latest_by_Some)

lemma latest_of_None: "latest_of jid jtime jdoc doc js = None \<longleftrightarrow> (\<forall>j \<in> set js. jdoc j \<noteq> doc)"
  by (auto simp: latest_of_def filter_empty_conv)

lemma latest_of_greatest:
  "latest_of jid jtime jdoc doc js = Some j \<Longrightarrow> k \<in> set js \<Longrightarrow> jdoc k = doc \<Longrightarrow>
   row_key jtime jid k \<le> row_key jtime jid j"
  by (auto simp: latest_of_def dest!: latest_by_Some)

text \<open>A row inserted later than every other row of its document is the latest.\<close>

lemma latest_of_snoc:
  "\<forall>k \<in> set js. jdoc k = jdoc j \<longrightarrow> jtime k < jtime j \<Longrightarrow>
   latest_of jid jtime jdoc (jdoc j) (js @ [j]) = Some j"
  by (auto simp: latest_of_def row_key_def intro!: latest_by_snoc)

lemma latest_of_snoc_other:
  "jdoc j \<noteq> doc \<Longrightarrow> latest_of jid jtime jdoc doc (js @ [j]) = latest_of jid jtime jdoc doc js"
  by (simp add: latest_of_def)

lemma latest_per_document_other:
  "(\<And>j. j \<in> set js \<Longrightarrow> jdoc j \<noteq> doc) \<Longrightarrow> latest_per_document jdoc key js m doc = m doc"
  by (induction js arbitrary: m) (auto split: option.splits)

lemma latest_per_document_acc:
  assumes "distinct (map key js)" and "m doc = Some c" and "key c \<notin> key ` set js"
  shows "latest_per_document jdoc key js m doc =
     latest_by key (c # filter (\<lambda>j. jdoc j = doc) js)"
  using assms
proof (induction js arbitrary: m c)
  case Nil
  then show ?case by simp
next
  case (Cons j js)
  show ?case
  proof (cases "jdoc j = doc")
    case False
    then show ?thesis
      using Cons.IH [of "case m (jdoc j) of None \<Rightarrow> m(jdoc j \<mapsto> j)
          | Some cur \<Rightarrow> if key cur < key j then m(jdoc j \<mapsto> j) else m" c] Cons.prems
      by (auto split: option.splits)
  next
    case True
    define w where "w = (if key c < key j then j else c)"
    have "latest_per_document jdoc key (j # js) m doc = latest_by key (w # filter (\<lambda>j. jdoc j = doc) js)"
      using Cons.IH [of "if key c < key j then m(jdoc j \<mapsto> j) else m" w] Cons.prems True
      by (auto simp: w_def)
    also have "\<dots> = latest_by key (c # j # filter (\<lambda>j. jdoc j = doc) js)"
    proof -
      have "key x \<noteq> key j" if "latest_by key (filter (\<lambda>j. jdoc j = doc) js) = Some x" for x
        using Cons.prems(1) latest_by_Some [OF that] by (auto simp: image_iff)
      then show ?thesis
        using Cons.prems(3) by (auto simp: w_def split: option.splits)
    qed
    finally show ?thesis
      using True by simp
  qed
qed

lemma latest_per_document_cong:
  "m doc = n doc \<Longrightarrow> latest_per_document jdoc key js m doc = latest_per_document jdoc key js n doc"
proof (induction js arbitrary: m n)
  case Nil
  then show ?case by simp
next
  case (Cons j js)
  show ?case
    using Cons.prems by (auto intro!: Cons.IH split: option.splits)
qed

lemma latest_per_document_latest_of:
  assumes "distinct (map (row_key jtime jid) js)"
  shows "latest_per_document jdoc (row_key jtime jid) js Map.empty doc = latest_of jid jtime jdoc doc js"
  unfolding latest_of_def using assms
proof (induction js)
  case Nil
  then show ?case by simp
next
  case (Cons j js)
  show ?case
  proof (cases "jdoc j = doc")
    case True
    then show ?thesis
      using Cons.prems latest_per_document_acc [of "row_key jtime jid" js "[jdoc j \<mapsto> j]" doc j]
      by simp
  next
    case False
    then have "latest_per_document jdoc (row_key jtime jid) js [jdoc j \<mapsto> j] doc =
        latest_per_document jdoc (row_key jtime jid) js Map.empty doc"
      by (intro latest_per_document_cong) simp
    with False Cons show ?thesis by simp
  qed
qed

section \<open>Job tables\<close>

text \<open>What the schema promises of each job table.\<close>

locale job_table =
  fixes rows :: "db \<Rightarrow> 'j list"
    and jid :: "'j \<Rightarrow> ustr" and jdoc :: "'j \<Rightarrow> ustr" and jtime :: "'j \<Rightarrow> time" and act :: "'j \<Rightarrow> bool"
  assumes primary_key: "db_ok d \<Longrightarrow> distinct (map jid (rows d))"
    and active_index: "db_ok d \<Longrightarrow> one_active jdoc act (rows d)"
    and foreign_key: "db_ok d \<Longrightarrow> j \<in> set (rows d) \<Longrightarrow> jdoc j \<in> doc_id ` set (documents d)"
begin

lemma distinct_keys: "db_ok d \<Longrightarrow> distinct (map (row_key jtime jid) (filter P (rows d)))"
  using primary_key [of d] by (auto simp: distinct_map row_key_def inj_on_def)

text \<open>The batched lookup of any set of documents agrees with the single lookup.\<close>

lemma batched_latest:
  assumes "db_ok d" and "doc \<in> D"
  shows "latest_per_document jdoc (row_key jtime jid) (filter (\<lambda>j. jdoc j \<in> D) (rows d)) Map.empty doc =
    latest_of jid jtime jdoc doc (rows d)"
proof -
  have "filter (\<lambda>j. jdoc j = doc) (filter (\<lambda>j. jdoc j \<in> D) (rows d)) = filter (\<lambda>j. jdoc j = doc) (rows d)"
    using assms(2) by (auto intro: filter_cong)
  then show ?thesis
    using latest_per_document_latest_of [OF distinct_keys [OF assms(1)]] by (simp add: latest_of_def)
qed

lemma active_unique:
  "db_ok d \<Longrightarrow> j \<in> set (rows d) \<Longrightarrow> k \<in> set (rows d) \<Longrightarrow> act j \<Longrightarrow> act k \<Longrightarrow> jdoc j = jdoc k \<Longrightarrow> j = k"
  using active_index one_active_unique by metis

text \<open>The active row, when there is one, is what the active lookup returns.\<close>

lemma active_lookup:
  assumes "db_ok d" and "j \<in> set (rows d)" and "act j"
  shows "latest_of jid jtime jdoc (jdoc j) (filter act (rows d)) = Some j"
proof (cases "latest_of jid jtime jdoc (jdoc j) (filter act (rows d))")
  case None
  with assms show ?thesis by (auto simp: latest_of_None)
next
  case (Some k)
  with latest_of_Some [OF Some] active_unique [OF assms(1), of k j] assms show ?thesis by auto
qed

end

interpretation ing_table: job_table ingestion_jobs ing_id ing_document_id ing_created_at ing_active
  by unfold_locales (auto simp: db_ok_checks check_None)

interpretation del_table: job_table deletion_jobs del_id del_document_id del_created_at del_active
  by unfold_locales (auto simp: db_ok_checks check_None)

interpretation rix_table: job_table reindex_jobs rix_id rix_document_id rix_created_at rix_active
  by unfold_locales (auto simp: db_ok_checks check_None)

section \<open>Inserting a job\<close>

text \<open>With a fresh identifier, fitting columns and an existing document, the only constraint an
  inserted active row can violate is the partial unique index of its table.\<close>

lemma first_some_fits: "fits cols rows \<Longrightarrow> first_some (map cols rows @ cs) = first_some cs"
  by (induction rows) (auto simp: fits_def)

lemma first_some_constraint:
  "first_some (constraint name P # cs) = (if P then first_some cs else Some (IntegrityError (uni name)))"
  by (simp add: constraint_def)

text \<open>A table's check reads that table and the tables its foreign keys name.\<close>

lemma check_other [simp]:
  "check_index_collections (d\<lparr>ingestion_jobs := is\<rparr>) = check_index_collections d"
  "check_index_collections (d\<lparr>deletion_jobs := ds\<rparr>) = check_index_collections d"
  "check_index_collections (d\<lparr>reindex_jobs := rs\<rparr>) = check_index_collections d"
  "check_index_collections (d\<lparr>cleanup_jobs := cs\<rparr>) = check_index_collections d"
  "check_index_collections (d\<lparr>documents := docs\<rparr>) = check_index_collections d"
  "check_documents (d\<lparr>ingestion_jobs := is\<rparr>) = check_documents d"
  "check_documents (d\<lparr>deletion_jobs := ds\<rparr>) = check_documents d"
  "check_documents (d\<lparr>reindex_jobs := rs\<rparr>) = check_documents d"
  "check_documents (d\<lparr>cleanup_jobs := cs\<rparr>) = check_documents d"
  "check_ingestion_jobs (d\<lparr>deletion_jobs := ds\<rparr>) = check_ingestion_jobs d"
  "check_ingestion_jobs (d\<lparr>reindex_jobs := rs\<rparr>) = check_ingestion_jobs d"
  "check_ingestion_jobs (d\<lparr>cleanup_jobs := cs\<rparr>) = check_ingestion_jobs d"
  "check_ingestion_jobs (d\<lparr>index_collections := ics\<rparr>) = check_ingestion_jobs d"
  "check_deletion_jobs (d\<lparr>ingestion_jobs := is\<rparr>) = check_deletion_jobs d"
  "check_deletion_jobs (d\<lparr>reindex_jobs := rs\<rparr>) = check_deletion_jobs d"
  "check_deletion_jobs (d\<lparr>cleanup_jobs := cs\<rparr>) = check_deletion_jobs d"
  "check_deletion_jobs (d\<lparr>index_collections := ics\<rparr>) = check_deletion_jobs d"
  "check_reindex_jobs (d\<lparr>ingestion_jobs := is\<rparr>) = check_reindex_jobs d"
  "check_reindex_jobs (d\<lparr>deletion_jobs := ds\<rparr>) = check_reindex_jobs d"
  "check_reindex_jobs (d\<lparr>cleanup_jobs := cs\<rparr>) = check_reindex_jobs d"
  "check_cleanup_jobs (d\<lparr>ingestion_jobs := is\<rparr>) = check_cleanup_jobs d"
  "check_cleanup_jobs (d\<lparr>deletion_jobs := ds\<rparr>) = check_cleanup_jobs d"
  "check_cleanup_jobs (d\<lparr>reindex_jobs := rs\<rparr>) = check_cleanup_jobs d"
  "check_cleanup_jobs (d\<lparr>index_collections := ics\<rparr>) = check_cleanup_jobs d"
  by (simp_all add: check_index_collections_def check_documents_def check_ingestion_jobs_def check_deletion_jobs_def check_reindex_jobs_def check_cleanup_jobs_def
      cong: option.case_cong)

lemma insert_ingestion_job:
  assumes ok: "db_ok d" and fit: "ingestion_columns j = None"
    and new: "ing_id j \<notin> ing_id ` set (ingestion_jobs d)" and doc: "ing_document_id j \<in> doc_id ` set (documents d)"
  shows "commit (d\<lparr>ingestion_jobs := ingestion_jobs d @ [j]\<rparr>) =
    (if ing_active j \<and> (\<exists>k \<in> set (ingestion_jobs d). ing_active k \<and> ing_document_id k = ing_document_id j)
     then Inl (IntegrityError (uni ''ix_ingestion_jobs_one_active_per_document''))
     else Inr (d\<lparr>ingestion_jobs := ingestion_jobs d @ [j]\<rparr>))"
proof -
  let ?ok = "\<not> (ing_active j \<and> (\<exists>k \<in> set (ingestion_jobs d). ing_active k \<and> ing_document_id k = ing_document_id j))"
  have old: "check_ingestion_jobs d = None"
    using ok by (simp add: db_ok_checks)
  then have "fits ingestion_columns (ingestion_jobs d @ [j])" and "distinct (map ing_id (ingestion_jobs d @ [j]))"
    and "one_active ing_document_id ing_active (ingestion_jobs d @ [j]) \<longleftrightarrow> ?ok"
    using fit new by (auto simp: check_None row_simps)
  moreover have "\<forall>r \<in> set (ingestion_jobs d @ [j]). ing_document_id r \<in> set (map doc_id (documents d))"
    using old doc by (auto simp: check_None)
  ultimately have "check_ingestion_jobs (d\<lparr>ingestion_jobs := ingestion_jobs d @ [j]\<rparr>) = constraint ''ix_ingestion_jobs_one_active_per_document'' ?ok"
    by (simp add: check_ingestion_jobs_def first_some_fits first_some_constraint del: map_append set_append)
      (simp add: constraint_def)
  then show ?thesis
    using ok by (simp add: commit_def db_violation_def db_ok_checks constraint_def)
qed

lemma insert_deletion_job:
  assumes ok: "db_ok d" and fit: "deletion_columns j = None"
    and new: "del_id j \<notin> del_id ` set (deletion_jobs d)" and doc: "del_document_id j \<in> doc_id ` set (documents d)"
  shows "commit (d\<lparr>deletion_jobs := deletion_jobs d @ [j]\<rparr>) =
    (if del_active j \<and> (\<exists>k \<in> set (deletion_jobs d). del_active k \<and> del_document_id k = del_document_id j)
     then Inl (IntegrityError (uni ''ix_document_deletion_jobs_one_active_per_document''))
     else Inr (d\<lparr>deletion_jobs := deletion_jobs d @ [j]\<rparr>))"
proof -
  let ?ok = "\<not> (del_active j \<and> (\<exists>k \<in> set (deletion_jobs d). del_active k \<and> del_document_id k = del_document_id j))"
  have old: "check_deletion_jobs d = None"
    using ok by (simp add: db_ok_checks)
  then have "fits deletion_columns (deletion_jobs d @ [j])" and "distinct (map del_id (deletion_jobs d @ [j]))"
    and "one_active del_document_id del_active (deletion_jobs d @ [j]) \<longleftrightarrow> ?ok"
    using fit new by (auto simp: check_None row_simps)
  moreover have "\<forall>r \<in> set (deletion_jobs d @ [j]). del_document_id r \<in> set (map doc_id (documents d))"
    using old doc by (auto simp: check_None)
  ultimately have "check_deletion_jobs (d\<lparr>deletion_jobs := deletion_jobs d @ [j]\<rparr>) = constraint ''ix_document_deletion_jobs_one_active_per_document'' ?ok"
    by (simp add: check_deletion_jobs_def first_some_fits first_some_constraint del: map_append set_append)
      (simp add: constraint_def)
  then show ?thesis
    using ok by (simp add: commit_def db_violation_def db_ok_checks constraint_def)
qed

lemma insert_reindex_job:
  assumes ok: "db_ok d" and fit: "reindex_columns j = None"
    and new: "rix_id j \<notin> rix_id ` set (reindex_jobs d)" and doc: "rix_document_id j \<in> doc_id ` set (documents d)"
    and src: "source_collection_name j \<in> ic_collection_name ` set (index_collections d)"
    and tgt: "target_collection_name j \<in> ic_collection_name ` set (index_collections d)"
  shows "commit (d\<lparr>reindex_jobs := reindex_jobs d @ [j]\<rparr>) =
    (if rix_active j \<and> (\<exists>k \<in> set (reindex_jobs d). rix_active k \<and> rix_document_id k = rix_document_id j)
     then Inl (IntegrityError (uni ''ix_reindex_jobs_one_active_per_document''))
     else Inr (d\<lparr>reindex_jobs := reindex_jobs d @ [j]\<rparr>))"
proof -
  let ?ok = "\<not> (rix_active j \<and> (\<exists>k \<in> set (reindex_jobs d). rix_active k \<and> rix_document_id k = rix_document_id j))"
  have old: "check_reindex_jobs d = None"
    using ok by (simp add: db_ok_checks)
  then have "fits reindex_columns (reindex_jobs d @ [j])" and "distinct (map rix_id (reindex_jobs d @ [j]))"
    and "one_active rix_document_id rix_active (reindex_jobs d @ [j]) \<longleftrightarrow> ?ok"
    using fit new by (auto simp: check_None row_simps)
  moreover have "\<forall>r \<in> set (reindex_jobs d @ [j]). rix_document_id r \<in> set (map doc_id (documents d))"
    using old doc by (auto simp: check_None)
  moreover have "\<forall>r \<in> set (reindex_jobs d @ [j]).
      source_collection_name r \<in> set (map ic_collection_name (index_collections d))"
    and "\<forall>r \<in> set (reindex_jobs d @ [j]).
      target_collection_name r \<in> set (map ic_collection_name (index_collections d))"
    using old src tgt by (auto simp: check_None)
  ultimately have "check_reindex_jobs (d\<lparr>reindex_jobs := reindex_jobs d @ [j]\<rparr>) = constraint ''ix_reindex_jobs_one_active_per_document'' ?ok"
    by (simp add: check_reindex_jobs_def first_some_fits first_some_constraint del: map_append set_append)
      (simp add: constraint_def)
  then show ?thesis
    using ok by (simp add: commit_def db_violation_def db_ok_checks constraint_def)
qed

end
