(* ===== verification/World.thy ===== *)
theory World
  imports Storage Vector_Store Lookups
begin

text \<open>
  The state the workers run on (files, embedding server, vector index, database), calls on a part of
  it lifted to calls on all of it, and sequencing of calls that may raise.  A worker reads a row into
  an object of its session and later writes the columns it changed: the session keeps its objects
  over a commit (\<open>expire_on_commit=False\<close> in \<open>app/db/session.py\<close>), so what a worker knows of a row is
  what it read.  \<open>env k\<close> is what other sessions commit in the \<open>k\<close>-th gap between two statements.
\<close>

section \<open>Sequencing calls\<close>

definition call_return :: "'a \<Rightarrow> ('s, 'e, 'a) call" where
  "call_return x s = (Inr x, s)"

definition call_raise :: "'e \<Rightarrow> ('s, 'e, 'a) call" where
  "call_raise e s = (Inl e, s)"

definition call_bind :: "('s, 'e, 'a) call \<Rightarrow> ('a \<Rightarrow> ('s, 'e, 'b) call) \<Rightarrow> ('s, 'e, 'b) call" where
  "call_bind m f s = (case m s of (Inl e, s') \<Rightarrow> (Inl e, s') | (Inr x, s') \<Rightarrow> f x s')"

definition call_lift :: "'e + 'a \<Rightarrow> ('s, 'e, 'a) call" where
  "call_lift r s = (r, s)"

named_theorems call_simps "evaluation of calls"

lemma call_return_eq [call_simps]: "call_return x s = (r, s') \<longleftrightarrow> r = Inr x \<and> s' = s"
  by (auto simp: call_return_def)

lemma call_raise_eq [call_simps]: "call_raise e s = (r, s') \<longleftrightarrow> r = Inl e \<and> s' = s"
  by (auto simp: call_raise_def)

lemma call_lift_eq [call_simps]: "call_lift r0 s = (r, s') \<longleftrightarrow> r = r0 \<and> s' = s"
  by (auto simp: call_lift_def)

lemma call_bind_Inr [call_simps]:
  "call_bind m f s = (Inr y, t) \<longleftrightarrow> (\<exists>x s'. m s = (Inr x, s') \<and> f x s' = (Inr y, t))"
  by (auto simp: call_bind_def split: prod.splits sum.splits)

lemma call_bind_Inl [call_simps]:
  "call_bind m f s = (Inl e, t) \<longleftrightarrow> m s = (Inl e, t) \<or> (\<exists>x s'. m s = (Inr x, s') \<and> f x s' = (Inl e, t))"
  by (auto simp: call_bind_def split: prod.splits sum.splits)

text \<open>What every step keeps, the sequence keeps.\<close>

lemma call_bind_keeps:
  assumes "\<And>s. g (snd (m s)) = g s" and "\<And>x s. g (snd (f x s)) = g s"
  shows "g (snd (call_bind m f s)) = g s"
  using assms(1) [of s] assms(2) by (auto simp: call_bind_def split: prod.splits sum.splits)

lemma call_bind_rule:
  assumes "\<And>e t. m s = (Inl e, t) \<Longrightarrow> Q (Inl e, t)"
    and "\<And>x t. m s = (Inr x, t) \<Longrightarrow> Q (f x t)"
  shows "Q (call_bind m f s)"
  using assms by (auto simp: call_bind_def split: prod.splits sum.splits)

section \<open>The world\<close>

record ('f, 'e, 'v) world =
  w_files :: 'f
  w_embedder :: 'e
  w_index :: 'v
  w_db :: db

definition on_files :: "('f, exn, 'a) call \<Rightarrow> (('f, 'e, 'v) world, exn, 'a) call" where
  "on_files c w = (case c (w_files w) of (r, s) \<Rightarrow> (r, w\<lparr>w_files := s\<rparr>))"

definition on_embedder :: "('e, exn, 'a) call \<Rightarrow> (('f, 'e, 'v) world, exn, 'a) call" where
  "on_embedder c w = (case c (w_embedder w) of (r, s) \<Rightarrow> (r, w\<lparr>w_embedder := s\<rparr>))"

definition on_index :: "('v, exn, 'a) call \<Rightarrow> (('f, 'e, 'v) world, exn, 'a) call" where
  "on_index c w = (case c (w_index w) of (r, s) \<Rightarrow> (r, w\<lparr>w_index := s\<rparr>))"

definition on_registry :: "('v \<times> db, exn, 'a) call \<Rightarrow> (('f, 'e, 'v) world, exn, 'a) call" where
  "on_registry c w = (case c (w_index w, w_db w) of (r, v, d) \<Rightarrow> (r, w\<lparr>w_index := v, w_db := d\<rparr>))"

definition others :: "(db \<Rightarrow> db) \<Rightarrow> ('f, 'e, 'v) world \<Rightarrow> ('f, 'e, 'v) world" where
  "others env w = w\<lparr>w_db := env (w_db w)\<rparr>"

lemma others_simps [simp]:
  "w_files (others env w) = w_files w" "w_embedder (others env w) = w_embedder w"
  "w_index (others env w) = w_index w" "w_db (others env w) = env (w_db w)"
  by (simp_all add: others_def)

text \<open>Committing a change of the session; a rejected commit raises and leaves the database.\<close>

definition commit_update :: "(db \<Rightarrow> db) \<Rightarrow> 'a \<Rightarrow> (('f, 'e, 'v) world, exn, 'a) call" where
  "commit_update upd x w =
     (case commit (upd (w_db w)) of
        Inl e \<Rightarrow> (Inl (DatabaseErr e), w)
      | Inr d \<Rightarrow> (Inr x, w\<lparr>w_db := d\<rparr>))"

lemma on_part [call_simps]:
  "on_files c w = (r, w') \<longleftrightarrow> (\<exists>s. c (w_files w) = (r, s) \<and> w' = w\<lparr>w_files := s\<rparr>)"
  "on_embedder k w = (r, w') \<longleftrightarrow> (\<exists>s. k (w_embedder w) = (r, s) \<and> w' = w\<lparr>w_embedder := s\<rparr>)"
  "on_index i w = (r, w') \<longleftrightarrow> (\<exists>s. i (w_index w) = (r, s) \<and> w' = w\<lparr>w_index := s\<rparr>)"
  "on_registry j w = (r, w') \<longleftrightarrow>
     (\<exists>v d. j (w_index w, w_db w) = (r, v, d) \<and> w' = w\<lparr>w_index := v, w_db := d\<rparr>)"
  by (auto simp: on_files_def on_embedder_def on_index_def on_registry_def split: prod.splits)

lemma commit_update_Inr [call_simps]: "commit_update upd x w = (Inr y, w') \<longleftrightarrow>
    y = x \<and> db_ok (upd (w_db w)) \<and> w' = w\<lparr>w_db := upd (w_db w)\<rparr>"
  by (auto simp: commit_update_def commit_Inr split: sum.splits)

lemma commit_update_Inl [call_simps]: "commit_update upd x w = (Inl e, w') \<longleftrightarrow>
    w' = w \<and> (\<exists>v. db_violation (upd (w_db w)) = Some v \<and> e = DatabaseErr v)"
  by (auto simp: commit_update_def commit_def split: option.splits)

lemma commit_update_parts [simp]:
  "w_files (snd (commit_update upd x w)) = w_files w" "w_embedder (snd (commit_update upd x w)) = w_embedder w"
  "w_index (snd (commit_update upd x w)) = w_index w"
  by (auto simp: commit_update_def split: sum.splits)

lemma commit_update_ok: "db_ok (w_db w) \<Longrightarrow> db_ok (w_db (snd (commit_update upd x w)))"
  by (auto simp: commit_update_def commit_Inr split: sum.splits)

section \<open>Changed columns of a document\<close>

text \<open>A flush writes the columns whose value differs from the one that was read.\<close>

definition changed :: "'a \<Rightarrow> 'a \<Rightarrow> 'a \<Rightarrow> 'a" where
  "changed loaded new row = (if new = loaded then row else new)"

definition flush_document :: "document \<Rightarrow> document \<Rightarrow> document \<Rightarrow> document" where
  "flush_document loaded new row =
     row\<lparr>content_hash := changed (content_hash loaded) (content_hash new) (content_hash row),
         embedding_provider := changed (embedding_provider loaded) (embedding_provider new) (embedding_provider row),
         embedding_model := changed (embedding_model loaded) (embedding_model new) (embedding_model row),
         embedding_dimension := changed (embedding_dimension loaded) (embedding_dimension new) (embedding_dimension row),
         embedding_version := changed (embedding_version loaded) (embedding_version new) (embedding_version row),
         chunking_version := changed (chunking_version loaded) (chunking_version new) (chunking_version row),
         collection_name := changed (collection_name loaded) (collection_name new) (collection_name row),
         indexed_at := changed (indexed_at loaded) (indexed_at new) (indexed_at row)\<rparr>"

lemma changed_same [simp]: "changed x y x = y"
  by (simp add: changed_def)

lemma flush_same [simp]: "flush_document doc new doc =
    doc\<lparr>content_hash := content_hash new, embedding_provider := embedding_provider new, embedding_model := embedding_model new,
      embedding_dimension := embedding_dimension new, embedding_version := embedding_version new,
      chunking_version := chunking_version new, collection_name := collection_name new, indexed_at := indexed_at new\<rparr>"
  by (simp add: flush_document_def)

lemma flush_document_id [simp]: "doc_id (flush_document loaded new row) = doc_id row"
  by (simp add: flush_document_def)

definition update_documents :: "document \<Rightarrow> document \<Rightarrow> db \<Rightarrow> db" where
  "update_documents loaded new d =
     d\<lparr>documents := update_row doc_id (doc_id loaded) (flush_document loaded new) (documents d)\<rparr>"

lemma update_documents_db [simp]:
  "index_collections (update_documents l n d) = index_collections d"
  "ingestion_jobs (update_documents l n d) = ingestion_jobs d"
  "deletion_jobs (update_documents l n d) = deletion_jobs d"
  "reindex_jobs (update_documents l n d) = reindex_jobs d"
  "cleanup_jobs (update_documents l n d) = cleanup_jobs d"
  "map doc_id (documents (update_documents l n d)) = map doc_id (documents d)"
  by (simp_all add: update_documents_def row_simps)

lemma update_documents_ids [simp]:
  "doc_id ` set (documents (update_documents l n d)) = doc_id ` set (documents d)"
  by (metis set_map update_documents_db(6))

lemma update_documents_get: "get_document (update_documents l n d) i =
    (if i = doc_id l then map_option (flush_document l n) (get_document d i) else get_document d i)"
  by (simp add: get_document_def update_documents_def row_simps)

text \<open>Keeping or clearing a unique column of a row keeps it unique.\<close>

lemma distinct_map_filter_update:
  assumes "distinct (List.map_filter f rows)" and "\<And>r. r \<in> set rows \<Longrightarrow> key r = k \<Longrightarrow> f (g r) = f r \<or> f (g r) = None"
  shows "distinct (List.map_filter f (update_row key k g rows)) \<and>
    set (List.map_filter f (update_row key k g rows)) \<subseteq> set (List.map_filter f rows)"
  using assms
proof (induction rows)
  case Nil
  then show ?case by (simp add: map_filter_simps)
next
  case (Cons r rows)
  have "distinct (List.map_filter f rows)"
    using Cons.prems(1) by (auto simp: map_filter_simps split: option.splits)
  with Cons.IH Cons.prems(2) have IH: "distinct (List.map_filter f (update_row key k g rows))"
      "set (List.map_filter f (update_row key k g rows)) \<subseteq> set (List.map_filter f rows)" by auto
  have "f (if key r = k then g r else r) = f r \<or> f (if key r = k then g r else r) = None"
    using Cons.prems(2) by simp
  with IH Cons.prems(1) show ?case by (auto simp: map_filter_simps split: option.splits)
qed

text \<open>Writing a document's columns is accepted when they fit and name a tracked collection.\<close>

lemma update_documents_ok:
  assumes ok: "db_ok d" and doc: "get_document d (doc_id doc) = Some doc" and hash: "content_hash new = content_hash doc \<or> content_hash new = None"
    and fit: "document_columns (flush_document doc new doc) = None"
    and coll: "\<And>c. collection_name new = Some c \<Longrightarrow> c \<in> ic_collection_name ` set (index_collections d)"
  shows "db_ok (update_documents doc new d)"
proof -
  let ?rows = "update_row doc_id (doc_id doc) (flush_document doc new) (documents d)"
  have old: "check_documents d = None" using ok by (simp add: db_ok_checks)
  have same: "r = doc" if "r \<in> set (documents d)" "doc_id r = doc_id doc" for r
    using that doc old get_row_distinct [of doc_id "documents d" r] by (simp add: get_document_def check_None)
  have "fits document_columns ?rows"
  proof (rule fits_update_row)
    show "fits document_columns (documents d)" using old by (simp add: check_None)
    show "document_columns (flush_document doc new r) = None" if "r \<in> set (documents d)" "doc_id r = doc_id doc" for r
      using fit same [OF that] by (simp only:)
  qed
  moreover have "map doc_id ?rows = map doc_id (documents d)" "map stored_filename ?rows = map stored_filename (documents d)"
    by (simp_all add: row_simps flush_document_def)
  moreover have "distinct (List.map_filter content_hash ?rows)"
  proof -
    have "content_hash (flush_document doc new r) = content_hash r \<or> content_hash (flush_document doc new r) = None" for r
      using hash by (auto simp: flush_document_def changed_def)
    with distinct_map_filter_update [of content_hash "documents d" doc_id "doc_id doc" "flush_document doc new"] old
    show ?thesis by (simp add: check_None)
  qed
  moreover have "\<forall>r \<in> set ?rows. \<forall>c. collection_name r = Some c \<longrightarrow> c \<in> set (map ic_collection_name (index_collections d))"
  proof (intro ballI allI impI)
    fix r c assume r: "r \<in> set ?rows" "collection_name r = Some c"
    have "collection_name (flush_document doc new x) = collection_name new" if "x \<in> set (documents d)" "doc_id x = doc_id doc" for x
      using same [OF that] by simp
    with r old coll show "c \<in> set (map ic_collection_name (index_collections d))"
      by (auto simp: set_update_row check_None)
  qed
  ultimately have "check_documents (update_documents doc new d) = None"
    using old by (simp add: check_None update_documents_def)
  moreover have "doc_id ` set ?rows = doc_id ` set (documents d)"
    by (metis \<open>map doc_id ?rows = map doc_id (documents d)\<close> set_map)
  ultimately show ?thesis
    using ok by (simp add: db_ok_checks check_None update_documents_def)
qed

section \<open>Updating a job row\<close>

definition update_ingestion_job :: "ustr \<Rightarrow> (ingestion_job \<Rightarrow> ingestion_job) \<Rightarrow> db \<Rightarrow> db" where
  "update_ingestion_job i f d = d\<lparr>ingestion_jobs := update_row ing_id i f (ingestion_jobs d)\<rparr>"

definition update_deletion_job :: "ustr \<Rightarrow> (deletion_job \<Rightarrow> deletion_job) \<Rightarrow> db \<Rightarrow> db" where
  "update_deletion_job i f d = d\<lparr>deletion_jobs := update_row del_id i f (deletion_jobs d)\<rparr>"

definition update_reindex_job :: "ustr \<Rightarrow> (reindex_job \<Rightarrow> reindex_job) \<Rightarrow> db \<Rightarrow> db" where
  "update_reindex_job i f d = d\<lparr>reindex_jobs := update_row rix_id i f (reindex_jobs d)\<rparr>"

definition update_cleanup_job :: "ustr \<Rightarrow> (cleanup_job \<Rightarrow> cleanup_job) \<Rightarrow> db \<Rightarrow> db" where
  "update_cleanup_job i f d = d\<lparr>cleanup_jobs := update_row vc_id i f (cleanup_jobs d)\<rparr>"

text \<open>An update of a row that keeps its key and document, fits its columns and does not make it active
  again is always accepted.\<close>

lemma update_ingestion_job_ok:
  assumes ok: "db_ok d" and f: "\<And>j. j \<in> set (ingestion_jobs d) \<Longrightarrow> ing_id j = i \<Longrightarrow>
      ing_id (f j) = i \<and> ing_document_id (f j) = ing_document_id j \<and> ingestion_columns (f j) = None \<and>
      (ing_active (f j) \<longrightarrow> ing_active j)"
  shows "db_ok (update_ingestion_job i f d)"
proof -
  have old: "check_ingestion_jobs d = None" using ok by (simp add: db_ok_checks)
  have "map ing_id (update_row ing_id i f (ingestion_jobs d)) = map ing_id (ingestion_jobs d)"
    using f by (auto simp: update_row_def)
  moreover have "one_active ing_document_id ing_active (update_row ing_id i f (ingestion_jobs d))"
    using old f by (intro one_active_update) (auto simp: check_None)
  moreover have "fits ingestion_columns (update_row ing_id i f (ingestion_jobs d))"
    using old f by (intro fits_update_row) (auto simp: check_None)
  ultimately have "check_ingestion_jobs (update_ingestion_job i f d) = None"
    using old f by (auto simp: check_None update_ingestion_job_def set_update_row)
  with ok show ?thesis by (simp add: db_ok_checks update_ingestion_job_def)
qed

lemma update_deletion_job_ok:
  assumes ok: "db_ok d" and f: "\<And>j. j \<in> set (deletion_jobs d) \<Longrightarrow> del_id j = i \<Longrightarrow>
      del_id (f j) = i \<and> del_document_id (f j) = del_document_id j \<and> deletion_columns (f j) = None \<and>
      (del_active (f j) \<longrightarrow> del_active j)"
  shows "db_ok (update_deletion_job i f d)"
proof -
  have old: "check_deletion_jobs d = None" using ok by (simp add: db_ok_checks)
  have "map del_id (update_row del_id i f (deletion_jobs d)) = map del_id (deletion_jobs d)"
    using f by (auto simp: update_row_def)
  moreover have "one_active del_document_id del_active (update_row del_id i f (deletion_jobs d))"
    using old f by (intro one_active_update) (auto simp: check_None)
  moreover have "fits deletion_columns (update_row del_id i f (deletion_jobs d))"
    using old f by (intro fits_update_row) (auto simp: check_None)
  ultimately have "check_deletion_jobs (update_deletion_job i f d) = None"
    using old f by (auto simp: check_None update_deletion_job_def set_update_row)
  with ok show ?thesis by (simp add: db_ok_checks update_deletion_job_def)
qed

lemma update_reindex_job_ok:
  assumes ok: "db_ok d" and f: "\<And>j. j \<in> set (reindex_jobs d) \<Longrightarrow> rix_id j = i \<Longrightarrow>
      rix_id (f j) = i \<and> rix_document_id (f j) = rix_document_id j \<and> reindex_columns (f j) = None \<and>
      (rix_active (f j) \<longrightarrow> rix_active j) \<and>
      source_collection_name (f j) = source_collection_name j \<and> target_collection_name (f j) = target_collection_name j"
  shows "db_ok (update_reindex_job i f d)"
proof -
  have old: "check_reindex_jobs d = None" using ok by (simp add: db_ok_checks)
  have "map rix_id (update_row rix_id i f (reindex_jobs d)) = map rix_id (reindex_jobs d)"
    using f by (auto simp: update_row_def)
  moreover have "one_active rix_document_id rix_active (update_row rix_id i f (reindex_jobs d))"
    using old f by (intro one_active_update) (auto simp: check_None)
  moreover have "fits reindex_columns (update_row rix_id i f (reindex_jobs d))"
    using old f by (intro fits_update_row) (auto simp: check_None)
  ultimately have "check_reindex_jobs (update_reindex_job i f d) = None"
    using old f by (auto simp: check_None update_reindex_job_def set_update_row)
  with ok show ?thesis by (simp add: db_ok_checks update_reindex_job_def)
qed

lemma update_cleanup_job_ok:
  assumes ok: "db_ok d" and f: "\<And>j. j \<in> set (cleanup_jobs d) \<Longrightarrow> vc_id j = i \<Longrightarrow>
      vc_id (f j) = i \<and> vc_document_id (f j) = vc_document_id j \<and> cleanup_columns (f j) = None"
  shows "db_ok (update_cleanup_job i f d)"
proof -
  have old: "check_cleanup_jobs d = None" using ok by (simp add: db_ok_checks)
  have "map vc_id (update_row vc_id i f (cleanup_jobs d)) = map vc_id (cleanup_jobs d)"
    using f by (auto simp: update_row_def)
  moreover have "fits cleanup_columns (update_row vc_id i f (cleanup_jobs d))"
    using old f by (intro fits_update_row) (auto simp: check_None)
  ultimately have "check_cleanup_jobs (update_cleanup_job i f d) = None"
    using old f by (auto simp: check_None update_cleanup_job_def set_update_row)
  with ok show ?thesis by (simp add: db_ok_checks update_cleanup_job_def)
qed

lemma update_ingestion_job_db [simp]:
  "index_collections (update_ingestion_job i f d) = index_collections d"
  "documents (update_ingestion_job i f d) = documents d"
  "deletion_jobs (update_ingestion_job i f d) = deletion_jobs d"
  "reindex_jobs (update_ingestion_job i f d) = reindex_jobs d"
  "cleanup_jobs (update_ingestion_job i f d) = cleanup_jobs d"
  "ingestion_jobs (update_ingestion_job i f d) = update_row ing_id i f (ingestion_jobs d)"
  by (simp_all add: update_ingestion_job_def)

lemma update_deletion_job_db [simp]:
  "index_collections (update_deletion_job i f d) = index_collections d"
  "documents (update_deletion_job i f d) = documents d"
  "ingestion_jobs (update_deletion_job i f d) = ingestion_jobs d"
  "reindex_jobs (update_deletion_job i f d) = reindex_jobs d"
  "cleanup_jobs (update_deletion_job i f d) = cleanup_jobs d"
  "deletion_jobs (update_deletion_job i f d) = update_row del_id i f (deletion_jobs d)"
  by (simp_all add: update_deletion_job_def)

lemma update_reindex_job_db [simp]:
  "index_collections (update_reindex_job i f d) = index_collections d"
  "documents (update_reindex_job i f d) = documents d"
  "ingestion_jobs (update_reindex_job i f d) = ingestion_jobs d"
  "deletion_jobs (update_reindex_job i f d) = deletion_jobs d"
  "cleanup_jobs (update_reindex_job i f d) = cleanup_jobs d"
  "reindex_jobs (update_reindex_job i f d) = update_row rix_id i f (reindex_jobs d)"
  by (simp_all add: update_reindex_job_def)

lemma update_cleanup_job_db [simp]:
  "index_collections (update_cleanup_job i f d) = index_collections d"
  "documents (update_cleanup_job i f d) = documents d"
  "ingestion_jobs (update_cleanup_job i f d) = ingestion_jobs d"
  "deletion_jobs (update_cleanup_job i f d) = deletion_jobs d"
  "reindex_jobs (update_cleanup_job i f d) = reindex_jobs d"
  "cleanup_jobs (update_cleanup_job i f d) = update_row vc_id i f (cleanup_jobs d)"
  by (simp_all add: update_cleanup_job_def)

lemma get_document_cong: "documents d = documents e \<Longrightarrow> get_document d = get_document e"
  by (rule ext) (simp add: get_document_def)

lemma get_document_update [simp]:
  "get_document (update_ingestion_job i f d) = get_document d" "get_document (update_deletion_job i g d) = get_document d"
  "get_document (update_reindex_job i h d) = get_document d" "get_document (update_cleanup_job i k d) = get_document d"
  by (rule get_document_cong, simp)+

text \<open>A text longer than its column is rejected with the column's name.\<close>

lemma first_some_only:
  "\<forall>r \<in> set rows. cols r = None \<or> cols r = Some e \<Longrightarrow> \<exists>r \<in> set rows. cols r = Some e \<Longrightarrow>
   first_some (map cols rows @ xs) = Some e"
proof (induction rows)
  case Nil
  then show ?case by simp
next
  case (Cons r rows)
  then show ?case by (cases "cols r") auto
qed

end
