(* ===== verification/Deletion_Service.thy ===== *)
theory Deletion_Service
  imports Lookups
begin

text \<open>
  Scheduling a document deletion (\<open>app/services/documents/deletion_service.py\<close>): the decision table
  of \<open>request_document_deletion\<close>, the race it resolves through the partial unique index, and the
  public error messages.  \<open>env 0\<close> is what other sessions commit between the decision's reads and the commit,
  \<open>env 1\<close> between a rejected commit and the reload of the active job.
\<close>

section \<open>Public error messages\<close>

datatype deletion_error_code = DocumentVectorCleanupFailed | DocumentStorageCleanupFailed

fun deletion_error_code_value :: "deletion_error_code \<Rightarrow> ustr" where
  "deletion_error_code_value DocumentVectorCleanupFailed = uni ''document_vector_cleanup_failed''"
| "deletion_error_code_value DocumentStorageCleanupFailed = uni ''document_storage_cleanup_failed''"

definition deletion_error_code_of :: "ustr \<Rightarrow> deletion_error_code option" where
  "deletion_error_code_of s =
     (if s = uni ''document_vector_cleanup_failed'' then Some DocumentVectorCleanupFailed
      else if s = uni ''document_storage_cleanup_failed'' then Some DocumentStorageCleanupFailed
      else None)"

fun safe_deletion_failure_message :: "deletion_error_code \<Rightarrow> ustr" where
  "safe_deletion_failure_message DocumentVectorCleanupFailed =
     uni ''Document vector cleanup failed. See server logs for the underlying error.''"
| "safe_deletion_failure_message DocumentStorageCleanupFailed =
     uni ''Document storage cleanup failed. See server logs for the underlying error.''"

definition safe_deletion_failure_fallback :: ustr where
  "safe_deletion_failure_fallback =
     uni ''Document deletion failed. See server logs for the underlying error.''"

definition sanitize_deletion_error :: "ustr option \<Rightarrow> ustr option" where
  "sanitize_deletion_error error_code =
     (case error_code of
        None \<Rightarrow> None
      | Some s \<Rightarrow> (case deletion_error_code_of s of
            None \<Rightarrow> Some safe_deletion_failure_fallback
          | Some code \<Rightarrow> Some (safe_deletion_failure_message code)))"

section \<open>Requesting a deletion\<close>

datatype deletion_request_outcome =
  DelDocumentNotFound | DelIngestionActive | DelReindexActive | DelCreated | DelAlreadyActive
  | DelAlreadyDeleted

record deletion_request_result =
  drq_outcome :: deletion_request_outcome
  drq_job :: "deletion_job option"

definition latest_active_ingestion_job :: "db \<Rightarrow> ustr \<Rightarrow> ingestion_job option" where
  "latest_active_ingestion_job d document_id =
     (case get_latest_ingestion_job d document_id of
        None \<Rightarrow> None
      | Some latest \<Rightarrow>
          if ing_status latest = IngPending \<or> ing_status latest = IngProcessing then Some latest
          else None)"

definition new_deletion_job :: "ustr \<Rightarrow> ustr \<Rightarrow> time \<Rightarrow> deletion_job" where
  "new_deletion_job new_id document_id now =
     \<lparr>del_id = new_id, del_document_id = document_id, del_status = DelPending,
      vector_cleanup_completed = False, storage_cleanup_completed = False,
      del_error_code = None, del_error_message = None,
      del_created_at = now, del_updated_at = now, del_completed_at = None\<rparr>"

definition add_deletion_job :: "deletion_job \<Rightarrow> db \<Rightarrow> db" where
  "add_deletion_job j d = d\<lparr>deletion_jobs := deletion_jobs d @ [j]\<rparr>"

definition request_document_deletion ::
  "(nat \<Rightarrow> db \<Rightarrow> db) \<Rightarrow> ustr \<Rightarrow> time \<Rightarrow> ustr \<Rightarrow> db \<Rightarrow> (exn + deletion_request_result) \<times> db" where
  "request_document_deletion env new_id now document_id d =
     (case get_document d document_id of
        None \<Rightarrow> (Inr \<lparr>drq_outcome = DelDocumentNotFound, drq_job = None\<rparr>, d)
      | Some _ \<Rightarrow>
          let latest = get_latest_deletion_job d document_id;
              status = map_option del_status latest in
          if status = Some DelCompleted then
            (Inr \<lparr>drq_outcome = DelAlreadyDeleted, drq_job = latest\<rparr>, d)
          else if status = Some DelPending \<or> status = Some DelProcessing then
            (Inr \<lparr>drq_outcome = DelAlreadyActive, drq_job = latest\<rparr>, d)
          else if latest_active_ingestion_job d document_id \<noteq> None then
            (Inr \<lparr>drq_outcome = DelIngestionActive, drq_job = None\<rparr>, d)
          else if get_active_reindex_job d document_id \<noteq> None then
            (Inr \<lparr>drq_outcome = DelReindexActive, drq_job = None\<rparr>, d)
          else
            let new_job = new_deletion_job new_id document_id now;
                d1 = env 0 d in
            (case commit (add_deletion_job new_job d1) of
               Inr d' \<Rightarrow> (Inr \<lparr>drq_outcome = DelCreated, drq_job = Some new_job\<rparr>, d')
             | Inl (IntegrityError _) \<Rightarrow>
                 (Inr \<lparr>drq_outcome = DelAlreadyActive,
                       drq_job = latest_active_deletion_job (env 1 d1) document_id\<rparr>, env 1 d1)
             | Inl e \<Rightarrow> (Inl (DatabaseErr e), d1)))"

section \<open>Correctness\<close>

lemma new_deletion_job_columns:
  "length new_id \<le> 36 \<Longrightarrow> length doc \<le> 36 \<Longrightarrow> deletion_columns (new_deletion_job new_id doc now) = None"
  by (simp add: deletion_columns_def new_deletion_job_def too_long_def too_long_opt_def)

lemma new_deletion_job_simps [simp]:
  "del_id (new_deletion_job new_id doc now) = new_id"
  "del_document_id (new_deletion_job new_id doc now) = doc"
  "del_status (new_deletion_job new_id doc now) = DelPending"
  "del_created_at (new_deletion_job new_id doc now) = now"
  "del_active (new_deletion_job new_id doc now)"
  by (simp_all add: new_deletion_job_def del_active_def)

lemma document_id_fits: "db_ok d \<Longrightarrow> doc \<in> doc_id ` set (documents d) \<Longrightarrow> length doc \<le> 36"
  by (auto simp: db_ok_checks check_None fits_def document_columns_def too_long_def split: if_splits)

lemma commit_add_deletion_job:
  assumes "db_ok d" and "length new_id \<le> 36" and "new_id \<notin> del_id ` set (deletion_jobs d)"
    and "doc \<in> doc_id ` set (documents d)"
  shows "commit (add_deletion_job (new_deletion_job new_id doc now) d) =
    (if \<exists>k \<in> set (deletion_jobs d). del_active k \<and> del_document_id k = doc
     then Inl (IntegrityError (uni ''ix_document_deletion_jobs_one_active_per_document''))
     else Inr (add_deletion_job (new_deletion_job new_id doc now) d))"
  using insert_deletion_job [OF assms(1), of "new_deletion_job new_id doc now"] assms
  by (simp add: add_deletion_job_def new_deletion_job_columns document_id_fits)

text \<open>What a created request decided on, and what it leaves behind.\<close>

lemma request_created:
  assumes "request_document_deletion env new_id now doc d = (Inr r, d')" and "drq_outcome r = DelCreated"
  shows "d' = add_deletion_job (new_deletion_job new_id doc now) (env 0 d) \<and> db_ok d' \<and>
    drq_job r = Some (new_deletion_job new_id doc now) \<and> get_document d doc \<noteq> None \<and>
    latest_active_ingestion_job d doc = None \<and> get_active_reindex_job d doc = None"
  using assms
  by (auto simp: request_document_deletion_def Let_def commit_Inr split: option.splits if_splits
      sum.splits db_error.splits)

lemma filter_active_snoc:
  assumes "one_active jdoc act (js @ [j])" and "act j"
  shows "filter (\<lambda>k. jdoc k = jdoc j \<and> act k) (js @ [j]) = [j]"
  using assms by (auto simp: row_simps filter_empty_conv)

lemma active_deletion_lookup:
  "db_ok d \<Longrightarrow> k \<in> set (deletion_jobs d) \<Longrightarrow> del_active k \<Longrightarrow>
   latest_active_deletion_job d (del_document_id k) = Some k"
  unfolding latest_active_deletion_job_def by (rule del_table.active_lookup)

text \<open>C2: Whatever other sessions commit while a deletion request is being decided, and between a rejected
  insert and the reload, the request leaves a valid database, and when it reports that it created a job, that
  job is the only active deletion job of the document.\<close>

theorem deletion_request_single_active:
  assumes "db_ok d" and "db_ok (env 0 d)" and "db_ok (env 1 (env 0 d))"
    and "request_document_deletion env new_id now doc d = (r, d')"
  shows "db_ok d' \<and>
    (\<forall>res. r = Inr res \<and> drq_outcome res = DelCreated \<longrightarrow>
       filter (\<lambda>j. del_document_id j = doc \<and> del_active j) (deletion_jobs d') =
         [new_deletion_job new_id doc now])"
proof (intro conjI allI impI)
  show "db_ok d'"
    using assms by (auto simp: request_document_deletion_def Let_def commit_Inr
        split: option.splits if_splits sum.splits db_error.splits)
next
  fix res assume "r = Inr res \<and> drq_outcome res = DelCreated"
  with request_created [of env new_id now doc d res d'] assms(4)
  have d': "d' = add_deletion_job (new_deletion_job new_id doc now) (env 0 d)" and ok: "db_ok d'"
    by auto
  show "filter (\<lambda>j. del_document_id j = doc \<and> del_active j) (deletion_jobs d') =
      [new_deletion_job new_id doc now]"
    using del_table.active_index [OF ok] filter_active_snoc
      [of del_document_id del_active "deletion_jobs (env 0 d)" "new_deletion_job new_id doc now"]
    by (simp add: d' add_deletion_job_def)
qed

text \<open>A deletion request for an existing document never raises, even when a concurrent request
  wins the insert; an answer that the deletion is already active carries the active job of the
  document as it is in the returned database, or none when the winner ended before the reload.\<close>

theorem deletion_request_converges:
  assumes "db_ok d" and "db_ok (env 0 d)" and "doc \<in> doc_id ` set (documents (env 0 d))"
    and "length new_id \<le> 36" and "new_id \<notin> del_id ` set (deletion_jobs (env 0 d))"
    and "request_document_deletion env new_id now doc d = (r, d')"
  shows "\<exists>res. r = Inr res \<and>
    (drq_outcome res = DelAlreadyActive \<longrightarrow>
       (\<exists>j. drq_job res = Some j \<and> j \<in> set (deletion_jobs d') \<and> del_document_id j = doc \<and> del_active j) \<or>
       drq_job res = None \<and> d' = env 1 (env 0 d) \<and> latest_active_deletion_job (env 0 d) doc \<noteq> None)"
proof -
  have race: "\<exists>j. latest_active_deletion_job (env 0 d) doc = Some j"
    if "k \<in> set (deletion_jobs (env 0 d))" "del_active k" "del_document_id k = doc" for k
    using active_deletion_lookup [OF assms(2) that(1,2)] that by auto
  have reload: "latest_active_deletion_job x doc = Some j \<Longrightarrow> j \<in> set (deletion_jobs x) \<and> del_document_id j = doc \<and> del_active j" for x j
    unfolding latest_active_deletion_job_def using latest_of_Some by fastforce
  have latest: "get_latest_deletion_job d doc = Some j \<Longrightarrow>
      j \<in> set (deletion_jobs d) \<and> del_document_id j = doc" for j
    unfolding get_latest_deletion_job_def by (rule latest_of_Some)
  note insert = commit_add_deletion_job [OF assms(2,4,5,3), of now]
  show ?thesis
  proof (cases "\<exists>k \<in> set (deletion_jobs (env 0 d)). del_active k \<and> del_document_id k = doc")
    case False
    with assms(6) latest insert show ?thesis
      by (auto simp: request_document_deletion_def Let_def del_active_def split: option.splits if_splits)
  next
    case True
    with race have won: "latest_active_deletion_job (env 0 d) doc \<noteq> None" by auto
    show ?thesis
    proof (cases "latest_active_deletion_job (env 1 (env 0 d)) doc")
      case None
      with assms(6) latest insert True won show ?thesis
        by (auto simp: request_document_deletion_def Let_def del_active_def split: option.splits if_splits)
    next
      case (Some j)
      with assms(6) latest insert True reload [OF Some] show ?thesis
        by (auto simp: request_document_deletion_def Let_def del_active_def split: option.splits if_splits)
    qed
  qed
qed

text \<open>Requesting a deletion twice schedules it once: the second request, with any other identifier
  and at any later time, answers that the deletion is already active with the job the first one
  created, and changes nothing.\<close>

theorem deletion_request_idempotent:
  assumes "request_document_deletion (\<lambda>_. id) new_id now doc d = (Inr res, d')"
    and "drq_outcome res = DelCreated"
    and "\<forall>j \<in> set (deletion_jobs d). del_document_id j = doc \<longrightarrow> del_created_at j < now"
  shows "request_document_deletion env new_id' now' doc d' =
    (Inr \<lparr>drq_outcome = DelAlreadyActive, drq_job = drq_job res\<rparr>, d')"
proof -
  from request_created [OF assms(1,2)] have d': "d' = add_deletion_job (new_deletion_job new_id doc now) d"
    and job: "drq_job res = Some (new_deletion_job new_id doc now)" and "get_document d doc \<noteq> None"
    by auto
  then have "get_document d' doc \<noteq> None"
    by (simp add: get_document_def add_deletion_job_def)
  moreover have "get_latest_deletion_job d' doc = Some (new_deletion_job new_id doc now)"
    using latest_of_snoc [of "deletion_jobs d" del_document_id "new_deletion_job new_id doc now"] assms(3)
    by (simp add: get_latest_deletion_job_def d' add_deletion_job_def)
  ultimately show ?thesis
    by (auto simp: request_document_deletion_def Let_def job)
qed

definition sample_deleting :: db where
  "sample_deleting = add_deletion_job (new_deletion_job (uni ''j0'') (uni ''d1'') 3) sample_db"

lemmas sample_defs = sample_db_def sample_document_def sample_deleting_def empty_db_def
  document_columns_def deletion_columns_def too_long_def too_long_opt_def no_int4_def no_int4_opt_def

lemma sample_db_ok: "db_ok sample_db" and sample_deleting_ok: "db_ok sample_deleting"
  by (simp_all add: db_ok_checks check_None sample_defs map_filter_simps add_deletion_job_def fits_def
      new_deletion_job_def uni_def one_active_def)

lemma sample_facts:
  "documents sample_db = [sample_document (uni ''d1'')]"
  "documents sample_deleting = [sample_document (uni ''d1'')]"
  "deletion_jobs sample_db = []"
  "deletion_jobs sample_deleting = [new_deletion_job (uni ''j0'') (uni ''d1'') 3]"
  "doc_id (sample_document i) = i"
  by (simp_all add: sample_db_def sample_deleting_def add_deletion_job_def empty_db_def sample_document_def)

lemma sample_request: "request_document_deletion (\<lambda>_. id) (uni ''j1'') 5 (uni ''d1'') sample_db =
    (Inr \<lparr>drq_outcome = DelCreated, drq_job = Some (new_deletion_job (uni ''j1'') (uni ''d1'') 5)\<rparr>,
     add_deletion_job (new_deletion_job (uni ''j1'') (uni ''d1'') 5) sample_db)"
proof -
  have "commit (add_deletion_job (new_deletion_job (uni ''j1'') (uni ''d1'') 5) sample_db) =
      Inr (add_deletion_job (new_deletion_job (uni ''j1'') (uni ''d1'') 5) sample_db)"
    using commit_add_deletion_job [OF sample_db_ok, of "uni ''j1''" "uni ''d1''" 5]
    by (simp add: sample_defs)
  then show ?thesis
    by (simp add: request_document_deletion_def Let_def get_document_def get_latest_deletion_job_def
        latest_active_ingestion_job_def get_latest_ingestion_job_def get_active_reindex_job_def
        latest_of_def sample_db_def sample_document_def empty_db_def)
qed

text \<open>The same request against a concurrent one that commits first.\<close>

lemma sample_race: "request_document_deletion (\<lambda>_ _. sample_deleting) (uni ''j1'') 5 (uni ''d1'') sample_db =
    (Inr \<lparr>drq_outcome = DelAlreadyActive, drq_job = Some (new_deletion_job (uni ''j0'') (uni ''d1'') 3)\<rparr>,
     sample_deleting)"
proof -
  have "commit (add_deletion_job (new_deletion_job (uni ''j1'') (uni ''d1'') 5) sample_deleting) =
      Inl (IntegrityError (uni ''ix_document_deletion_jobs_one_active_per_document''))"
    using commit_add_deletion_job [OF sample_deleting_ok, of "uni ''j1''" "uni ''d1''" 5]
    by (simp add: sample_defs add_deletion_job_def)
  moreover have "latest_active_deletion_job sample_deleting (uni ''d1'') =
      Some (new_deletion_job (uni ''j0'') (uni ''d1'') 3)"
    by (simp add: latest_active_deletion_job_def latest_of_def sample_deleting_def add_deletion_job_def
        sample_db_def empty_db_def)
  ultimately show ?thesis
    by (simp add: request_document_deletion_def Let_def get_document_def get_latest_deletion_job_def
        latest_active_ingestion_job_def get_latest_ingestion_job_def get_active_reindex_job_def
        latest_of_def sample_db_def sample_document_def empty_db_def)
qed

theorem deletion_request_single_active_witness:
  "\<exists>d'. snd (request_document_deletion (\<lambda>_. id) (uni ''j1'') 5 (uni ''d1'') sample_db) = d' \<and> db_ok d' \<and>
    filter (\<lambda>j. del_document_id j = uni ''d1'' \<and> del_active j) (deletion_jobs d') =
      [new_deletion_job (uni ''j1'') (uni ''d1'') 5]"
  using deletion_request_single_active [OF sample_db_ok, of "\<lambda>_. id", OF _ _ sample_request] sample_db_ok
  by (simp add: sample_request)

theorem deletion_request_converges_witness:
  "\<exists>res j. fst (request_document_deletion (\<lambda>_ _. sample_deleting) (uni ''j1'') 5 (uni ''d1'') sample_db) =
      Inr res \<and> drq_job res = Some j \<and> j \<in> set (deletion_jobs sample_deleting) \<and> del_active j"
  using deletion_request_converges [OF sample_db_ok, of "\<lambda>_ _. sample_deleting", OF sample_deleting_ok
      _ _ _ sample_race]
  by (simp add: sample_race sample_facts)

theorem deletion_request_idempotent_witness:
  "fst (request_document_deletion (\<lambda>_. id) (uni ''j2'') 9 (uni ''d1'')
      (snd (request_document_deletion (\<lambda>_. id) (uni ''j1'') 5 (uni ''d1'') sample_db))) =
   Inr \<lparr>drq_outcome = DelAlreadyActive, drq_job = Some (new_deletion_job (uni ''j1'') (uni ''d1'') 5)\<rparr>"
  using deletion_request_idempotent [OF sample_request, of "\<lambda>_. id" "uni ''j2''" 9]
  by (simp add: sample_request sample_facts)

end
