(* ===== verification/Qdrant.thy ===== *)
theory Qdrant
  imports Vector_Store
begin

text \<open>
  \<open>QdrantVectorStore\<close> (\<open>app/rag/providers/qdrant_vector_store.py\<close>): the requests it builds, the
  statuses and bodies it accepts, and the errors it turns everything else into.  The HTTP client is a
  parameter: a call from method, URL, parameters and body to a response.  The locale
  \<open>qdrant_server\<close> states what Qdrant documents of these requests; under it the adapter satisfies the
  vector store contract, retries included.
\<close>

section \<open>JSON and HTTP\<close>

datatype json =
    JNull | JBool bool | JInt int | JNum rat | JStr ustr | JList "json list"
  | JObj "(ustr \<times> json) list"

record http_response =
  status_code :: nat
  body :: "json option"

datatype http_method = GET | PUT | POST

type_synonym 's http =
  "http_method \<Rightarrow> ustr \<Rightarrow> (ustr \<times> ustr) list \<Rightarrow> json option \<Rightarrow> ('s, raw_exn, http_response) call"

text \<open>\<open>d[k]\<close> on a parsed body; \<open>None\<close> is a \<open>KeyError\<close> or a \<open>TypeError\<close>.  Later keys of an object win.\<close>

definition json_get :: "json \<Rightarrow> string \<Rightarrow> json option" where
  "json_get j k = (case j of JObj kvs \<Rightarrow> map_of (rev kvs) (uni k) | _ \<Rightarrow> None)"

definition json_path :: "json option \<Rightarrow> string list \<Rightarrow> json option" where
  "json_path j ks = foldl (\<lambda>j k. case j of None \<Rightarrow> None | Some v \<Rightarrow> json_get v k) j ks"

text \<open>\<open>int(value)\<close> for the values a JSON body can hold; \<open>None\<close> is a \<open>ValueError\<close> or \<open>TypeError\<close>.\<close>

fun json_int :: "json \<Rightarrow> int option" where
  "json_int (JInt n) = Some n"
| "json_int (JBool b) = Some (if b then 1 else 0)"
| "json_int (JNum r) = Some (if 0 \<le> r then floor r else ceiling r)"
| "json_int (JStr s) =
     (let t = py_strip s; ds = (if t \<noteq> [] \<and> hd t \<in> {43, 45} then tl t else t) in
      if ds \<noteq> [] \<and> list_all (\<lambda>c. 48 \<le> c \<and> c \<le> 57) ds
      then Some (if hd t = 45 then - int (undec ds) else int (undec ds)) else None)"
| "json_int j = None"

record 's qdrant =
  qd_http :: "'s http"
  qd_policy :: retry_policy
  qd_pause :: "rat \<Rightarrow> 's \<Rightarrow> 's"
  qd_status_text :: "nat \<Rightarrow> ustr"

definition is_success :: "http_response \<Rightarrow> bool" where
  "is_success r \<longleftrightarrow> 200 \<le> status_code r \<and> status_code r < 300"

fun raw_text :: "raw_exn \<Rightarrow> ustr" where
  "raw_text (HTTPStatusError n m) = m"
| "raw_text (HTTPError m) = m"
| "raw_text (S3Error m) = m"
| "raw_text MaxRetryError = []"
| "raw_text (RawValueError m) = m"
| "raw_text (OtherError m) = m"

fun is_http_error :: "raw_exn \<Rightarrow> bool" where
  "is_http_error (HTTPStatusError n m) = True"
| "is_http_error (HTTPError m) = True"
| "is_http_error e = False"

definition request_call :: "'s qdrant \<Rightarrow> http_method \<Rightarrow> ustr \<Rightarrow> (ustr \<times> ustr) list \<Rightarrow> json option \<Rightarrow>
    ('s, raw_exn, http_response) call" where
  "request_call q meth url params content s =
     (case qd_http q meth url params content s of
        (Inl e, s') \<Rightarrow> (Inl e, s')
      | (Inr r, s') \<Rightarrow>
          if status_code r \<in> set transient_status_codes
          then (Inl (HTTPStatusError (status_code r) (qd_status_text q (status_code r))), s') else (Inr r, s'))"

definition request :: "'s qdrant \<Rightarrow> http_method \<Rightarrow> ustr \<Rightarrow> (ustr \<times> ustr) list \<Rightarrow> json option \<Rightarrow>
    ('s, raw_exn, http_response) call" where
  "request q meth url params content =
     retry_async (qd_policy q) (qd_pause q) is_transient_httpx_error (request_call q meth url params content)"

definition qdrant_error :: "ustr \<Rightarrow> exn" where
  "qdrant_error m = QdrantVectorStoreError m"

text \<open>The two \<open>except\<close> clauses of every mutating request: a status error with the status in the message,
  any other HTTP error as unreachable.\<close>

definition http_failure :: "(ustr \<Rightarrow> ustr) \<Rightarrow> ustr \<Rightarrow> raw_exn \<Rightarrow> exn" where
  "http_failure on_status unreachable e =
     (case e of
        HTTPStatusError n m \<Rightarrow> qdrant_error (on_status (dec n))
      | HTTPError m \<Rightarrow> qdrant_error (unreachable @ m)
      | _ \<Rightarrow> raw_to_exn e)"

definition checked_request :: "'s qdrant \<Rightarrow> (ustr \<Rightarrow> ustr) \<Rightarrow> ustr \<Rightarrow> http_method \<Rightarrow> ustr \<Rightarrow> (ustr \<times> ustr) list \<Rightarrow>
    json option \<Rightarrow> ('s, exn, http_response) call" where
  "checked_request q on_status unreachable meth url params content s =
     (case request q meth url params content s of
        (Inl e, s') \<Rightarrow> (Inl (http_failure on_status unreachable e), s')
      | (Inr r, s') \<Rightarrow>
          if is_success r then (Inr r, s') else (Inl (qdrant_error (on_status (dec (status_code r)))), s'))"

section \<open>Payloads\<close>

definition point_payload :: "vector_point \<Rightarrow> json" where
  "point_payload p = JObj
     ([(uni ''document_id'', JStr (vp_document_id p)), (uni ''chunk_id'', JStr (vp_chunk_id p)),
       (uni ''text'', JStr (vp_text p)), (uni ''source'', JStr (vp_source p))] @
      (case vp_page_number p of None \<Rightarrow> [] | Some n \<Rightarrow> [(uni ''page_number'', JInt (int n))]) @
      (case vp_sheet_name p of None \<Rightarrow> [] | Some n \<Rightarrow> [(uni ''sheet_name'', JStr n)]))"

definition point_json :: "vector_point \<Rightarrow> json" where
  "point_json p = JObj [(uni ''id'', JStr (vp_id p)), (uni ''vector'', JList (map JNum (vp_vector p))),
     (uni ''payload'', point_payload p)]"

text \<open>\<open>str(item["id"])\<close>: Qdrant ids are strings or integers.\<close>

definition json_id :: "json \<Rightarrow> ustr option" where
  "json_id j = (case j of JStr s \<Rightarrow> Some s | JInt n \<Rightarrow> Some (str_int n) | _ \<Rightarrow> None)"

definition json_str :: "json \<Rightarrow> ustr option" where
  "json_str j = (case j of JStr s \<Rightarrow> Some s | _ \<Rightarrow> None)"

definition json_rat :: "json \<Rightarrow> rat option" where
  "json_rat j = (case j of JNum r \<Rightarrow> Some r | JInt n \<Rightarrow> Some (of_int n) | _ \<Rightarrow> None)"

definition json_nat :: "json \<Rightarrow> nat option" where
  "json_nat j = (case j of JInt n \<Rightarrow> if 0 \<le> n then Some (nat n) else None | _ \<Rightarrow> None)"

definition malformed_search :: exn where
  "malformed_search = qdrant_error (uni ''Malformed search response from Qdrant'')"

text \<open>A missing field is the documented error; the model has no untyped fields, so a field of another
  type, which the code would pass through, is treated as malformed as well.\<close>

definition parse_search_result :: "json \<Rightarrow> exn + search_result" where
  "parse_search_result item =
     (let payload = (case json_get item ''payload'' of Some (JObj kvs) \<Rightarrow> JObj kvs | _ \<Rightarrow> JObj []);
          str = (\<lambda>k. Option.bind (json_get payload k) json_str) in
      case (Option.bind (json_get item ''id'') json_id, Option.bind (json_get item ''score'') json_rat,
            str ''document_id'', str ''chunk_id'', str ''text'', str ''source'') of
        (Some i, Some sc, Some d, Some c, Some t, Some src) \<Rightarrow>
          Inr \<lparr>sr_id = i, sr_score = sc, sr_document_id = d, sr_chunk_id = c, sr_text = t, sr_source = src,
               sr_page_number = Option.bind (json_get payload ''page_number'') json_nat,
               sr_sheet_name = str ''sheet_name''\<rparr>
      | _ \<Rightarrow> Inl malformed_search)"

fun parse_search_results :: "json list \<Rightarrow> exn + search_result list" where
  "parse_search_results [] = Inr []"
| "parse_search_results (j # js) =
     (case parse_search_result j of
        Inl e \<Rightarrow> Inl e
      | Inr r \<Rightarrow> (case parse_search_results js of Inl e \<Rightarrow> Inl e | Inr rs \<Rightarrow> Inr (r # rs)))"

section \<open>Requests\<close>

definition collection_url :: "ustr \<Rightarrow> ustr" where
  "collection_url c = uni ''/collections/'' @ c"

definition collection_vector_size :: "'s qdrant \<Rightarrow> ustr \<Rightarrow> ('s, exn, int option) call" where
  "collection_vector_size q c s =
     (case request q GET (collection_url c) [] None s of
        (Inl e, s') \<Rightarrow>
          (Inl (if is_http_error e then qdrant_error (uni ''Qdrant unreachable at /collections: '' @ raw_text e)
                else raw_to_exn e), s')
      | (Inr r, s') \<Rightarrow>
          if status_code r = 404 then (Inr None, s')
          else if \<not> is_success r then
            (Inl (qdrant_error (uni ''Qdrant returned '' @ dec (status_code r) @
               uni '' inspecting collection '' @ py_repr c)), s')
          else (case Option.bind (json_path (body r) [''result'', ''config'', ''params'', ''vectors'', ''size'']) json_int of
              Some n \<Rightarrow> (Inr (Some n), s')
            | None \<Rightarrow> (Inl (qdrant_error (uni ''Malformed collection-info response from Qdrant for '' @ py_repr c)), s')))"

definition create_body :: "int \<Rightarrow> json" where
  "create_body n = JObj [(uni ''vectors'', JObj [(uni ''size'', JInt n), (uni ''distance'', JStr (uni ''Cosine''))])]"

definition create_collection_if_not_exists :: "'s qdrant \<Rightarrow> ustr \<Rightarrow> int \<Rightarrow> ('s, exn, unit) call" where
  "create_collection_if_not_exists q c n s =
     (case request q GET (collection_url c) [] None s of
        (Inl e, s') \<Rightarrow>
          (Inl (if is_http_error e then qdrant_error (uni ''Qdrant unreachable at /collections: '' @ raw_text e)
                else raw_to_exn e), s')
      | (Inr r, s') \<Rightarrow>
          if status_code r = 200 then (Inr (), s')
          else (case checked_request q
                  (\<lambda>st. uni ''Qdrant returned '' @ st @ uni '' creating collection '' @ py_repr c)
                  (uni ''Qdrant unreachable creating collection: '') PUT (collection_url c) [] (Some (create_body n)) s' of
              (Inl e, s2) \<Rightarrow> (Inl e, s2)
            | (Inr r2, s2) \<Rightarrow> (Inr (), s2)))"

definition points_url :: "ustr \<Rightarrow> ustr" where
  "points_url c = collection_url c @ uni ''/points''"

definition wait_param :: "(ustr \<times> ustr) list" where
  "wait_param = [(uni ''wait'', uni ''true'')]"

definition upsert_body :: "vector_point list \<Rightarrow> json" where
  "upsert_body ps = JObj [(uni ''points'', JList (map point_json ps))]"

definition upsert_vectors :: "'s qdrant \<Rightarrow> ustr \<Rightarrow> vector_point list \<Rightarrow> ('s, exn, unit) call" where
  "upsert_vectors q c ps s =
     (case checked_request q (\<lambda>st. uni ''Qdrant returned '' @ st @ uni '' upserting into '' @ py_repr c)
             (uni ''Qdrant unreachable upserting vectors: '') PUT (points_url c) wait_param (Some (upsert_body ps)) s of
        (Inl e, s') \<Rightarrow> (Inl e, s')
      | (Inr r, s') \<Rightarrow> (Inr (), s'))"

definition search_body :: "embedding \<Rightarrow> int \<Rightarrow> json" where
  "search_body v limit = JObj [(uni ''vector'', JList (map JNum v)), (uni ''limit'', JInt limit),
     (uni ''with_payload'', JBool True)]"

definition search_similar :: "'s qdrant \<Rightarrow> ustr \<Rightarrow> embedding \<Rightarrow> int \<Rightarrow> ('s, exn, search_result list) call" where
  "search_similar q c v limit s =
     (case checked_request q (\<lambda>st. uni ''Qdrant returned '' @ st @ uni '' searching '' @ py_repr c)
             (uni ''Qdrant unreachable searching vectors: '') POST (points_url c @ uni ''/search'') []
             (Some (search_body v limit)) s of
        (Inl e, s') \<Rightarrow> (Inl e, s')
      | (Inr r, s') \<Rightarrow> (case json_path (body r) [''result''] of
            Some (JList items) \<Rightarrow> (parse_search_results items, s')
          | _ \<Rightarrow> (Inl malformed_search, s')))"

definition document_filter :: "ustr \<Rightarrow> ustr \<times> json" where
  "document_filter doc = (uni ''filter'', JObj [(uni ''must'', JList [JObj [(uni ''key'', JStr (uni ''document_id'')),
     (uni ''match'', JObj [(uni ''value'', JStr doc)])]])])"

definition parse_count :: "ustr \<Rightarrow> http_response \<Rightarrow> exn + int" where
  "parse_count c r =
     (case Option.bind (json_path (body r) [''result'', ''count'']) json_int of
        Some n \<Rightarrow> Inr n
      | None \<Rightarrow> Inl (qdrant_error (uni ''Malformed count response from Qdrant for '' @ py_repr c)))"

definition count_document_vectors :: "'s qdrant \<Rightarrow> ustr \<Rightarrow> ustr \<Rightarrow> ('s, exn, int) call" where
  "count_document_vectors q c doc s =
     (case collection_vector_size q c s of
        (Inl e, s1) \<Rightarrow> (Inl e, s1)
      | (Inr None, s1) \<Rightarrow> (Inr 0, s1)
      | (Inr (Some n), s1) \<Rightarrow>
          (case checked_request q
                  (\<lambda>st. uni ''Qdrant returned '' @ st @ uni '' counting document '' @ py_repr doc @ uni '' in '' @ py_repr c)
                  (uni ''Qdrant unreachable counting vectors: '') POST (points_url c @ uni ''/count'') []
                  (Some (JObj [document_filter doc, (uni ''exact'', JBool True)])) s1 of
             (Inl e, s2) \<Rightarrow> (Inl e, s2)
           | (Inr r, s2) \<Rightarrow> (parse_count c r, s2)))"

definition count_collection_vectors :: "'s qdrant \<Rightarrow> ustr \<Rightarrow> ('s, exn, int option) call" where
  "count_collection_vectors q c s =
     (case collection_vector_size q c s of
        (Inl e, s1) \<Rightarrow> (Inl e, s1)
      | (Inr None, s1) \<Rightarrow> (Inr None, s1)
      | (Inr (Some n), s1) \<Rightarrow>
          (case checked_request q
                  (\<lambda>st. uni ''Qdrant returned '' @ st @ uni '' counting points in '' @ py_repr c)
                  (uni ''Qdrant unreachable counting vectors: '') POST (points_url c @ uni ''/count'') []
                  (Some (JObj [(uni ''exact'', JBool True)])) s1 of
             (Inl e, s2) \<Rightarrow> (Inl e, s2)
           | (Inr r, s2) \<Rightarrow> (case parse_count c r of Inl e \<Rightarrow> (Inl e, s2) | Inr k \<Rightarrow> (Inr (Some k), s2))))"

definition delete_by_document_id :: "'s qdrant \<Rightarrow> ustr \<Rightarrow> ustr \<Rightarrow> ('s, exn, unit) call" where
  "delete_by_document_id q c doc s =
     (case collection_vector_size q c s of
        (Inl e, s1) \<Rightarrow> (Inl e, s1)
      | (Inr None, s1) \<Rightarrow> (Inr (), s1)
      | (Inr (Some n), s1) \<Rightarrow>
          (case checked_request q
                  (\<lambda>st. uni ''Qdrant returned '' @ st @ uni '' deleting document '' @ py_repr doc @ uni '' from '' @ py_repr c)
                  (uni ''Qdrant unreachable deleting vectors: '') POST (points_url c @ uni ''/delete'') wait_param
                  (Some (JObj [document_filter doc])) s1 of
             (Inl e, s2) \<Rightarrow> (Inl e, s2)
           | (Inr r, s2) \<Rightarrow> (Inr (), s2)))"

definition qdrant_vector_store :: "'s qdrant \<Rightarrow> 's vector_store" where
  "qdrant_vector_store q =
     \<lparr>vs_create_collection_if_not_exists = create_collection_if_not_exists q,
      vs_upsert_vectors = upsert_vectors q, vs_search_similar = search_similar q,
      vs_get_collection_vector_size = collection_vector_size q,
      vs_delete_by_document_id = delete_by_document_id q,
      vs_count_document_vectors = count_document_vectors q,
      vs_count_collection_vectors = count_collection_vectors q\<rparr>"

section \<open>What Qdrant promises\<close>

text \<open>A request that raises, or answers with an error status, may have been applied in part.\<close>

definition between :: "(points \<Rightarrow> points) \<Rightarrow> points \<Rightarrow> points \<Rightarrow> bool" where
  "between F st t \<longleftrightarrow> (\<forall>c i. t c i = st c i \<or> t c i = F st c i)"

lemma between_refl [simp]: "between F st st"
  by (simp add: between_def)

lemma put_points_cong:
  "(\<And>i. i \<notin> vp_id ` set ps \<Longrightarrow> m i = n i) \<Longrightarrow> put_points ps m = put_points ps n"
proof (induction ps arbitrary: m n)
  case Nil
  then show ?case by auto
next
  case (Cons p ps)
  have "put_points ps (m(vp_id p := Some p)) = put_points ps (n(vp_id p := Some p))"
    by (rule Cons.IH) (use Cons.prems in simp)
  then show ?case by simp
qed

lemma between_upsert: "between (upsert_points c ps) st t \<Longrightarrow> upsert_points c ps t = upsert_points c ps st"
proof (rule ext)
  fix c' assume b: "between (upsert_points c ps) st t"
  show "upsert_points c ps t c' = upsert_points c ps st c'"
  proof (cases "c' = c")
    case True
    have "t c i = st c i" if "i \<notin> vp_id ` set ps" for i
    proof -
      have "t c i = st c i \<or> t c i = upsert_points c ps st c i"
        using b by (simp add: between_def)
      then show ?thesis
        using put_points_other [OF that, of "st c"] by (auto simp: upsert_points_def)
    qed
    then have "put_points ps (t c) = put_points ps (st c)"
      by (intro put_points_cong)
    with True show ?thesis by (simp add: upsert_points_def)
  next
    case False
    have "t c' i = st c' i" for i
    proof -
      have "t c' i = st c' i \<or> t c' i = upsert_points c ps st c' i"
        using b by (simp add: between_def)
      then show ?thesis using False by (simp add: upsert_points_def)
    qed
    then have "t c' = st c'" by (rule ext)
    with False show ?thesis by (simp add: upsert_points_def)
  qed
qed

lemma between_remove: "between (remove_document c doc) st t \<Longrightarrow> remove_document c doc t = remove_document c doc st"
proof (intro ext)
  fix c' i assume b: "between (remove_document c doc) st t"
  then have "t c' i = st c' i \<or> t c' i = remove_document c doc st c' i"
    by (simp add: between_def)
  then show "remove_document c doc t c' i = remove_document c doc st c' i"
    by (auto simp: remove_document_def split: option.splits if_splits)
qed

lemma between_trans:
  assumes abs: "\<And>st t. between F st t \<Longrightarrow> F t = F st" and t: "between F st t" and u: "between F t u"
  shows "between F st u"
  unfolding between_def
proof (intro allI)
  fix c i
  have "t c i = st c i \<or> t c i = F st c i" using t by (simp add: between_def)
  moreover have "u c i = t c i \<or> u c i = F st c i" using u abs [OF t] by (simp add: between_def)
  ultimately show "u c i = st c i \<or> u c i = F st c i" by auto
qed

locale qdrant_server =
  fixes q :: "'s qdrant" and stored :: "'s \<Rightarrow> points" and sizes :: "'s \<Rightarrow> ustr \<Rightarrow> int option"
  assumes http_get: "stored (snd (qd_http q GET url prm b s)) = stored s"
      "sizes (snd (qd_http q GET url prm b s)) = sizes s"
    and get_missing: "qd_http q GET (collection_url c) [] None s = (Inr r, s') \<Longrightarrow> status_code r = 404 \<Longrightarrow>
      sizes s c = None"
    and get_size: "qd_http q GET (collection_url c) [] None s = (Inr r, s') \<Longrightarrow> is_success r \<Longrightarrow>
      \<exists>n. sizes s c = Some n \<and>
        json_path (body r) [''result'', ''config'', ''params'', ''vectors'', ''size''] = Some (JInt n)"
    and missing_empty: "sizes s c = None \<Longrightarrow> stored s c i = None"
    and create_ok: "qd_http q PUT (collection_url c) [] (Some (create_body n)) s = (Inr r, s') \<Longrightarrow> is_success r \<Longrightarrow>
      sizes s' c \<noteq> None"
    and create_frame: "stored (snd (qd_http q PUT (collection_url c) [] (Some (create_body n)) s)) = stored s"
      "sizes s c' = Some k \<Longrightarrow> sizes (snd (qd_http q PUT (collection_url c) [] (Some (create_body n)) s)) c' = Some k"
    and upsert_ok: "qd_http q PUT (points_url c) wait_param (Some (upsert_body ps)) s = (Inr r, s') \<Longrightarrow>
      is_success r \<Longrightarrow> stored s' = upsert_points c ps (stored s)"
    and upsert_frame: "between (upsert_points c ps) (stored s)
        (stored (snd (qd_http q PUT (points_url c) wait_param (Some (upsert_body ps)) s)))"
      "sizes (snd (qd_http q PUT (points_url c) wait_param (Some (upsert_body ps)) s)) = sizes s"
    and delete_ok: "qd_http q POST (points_url c @ uni ''/delete'') wait_param
        (Some (JObj [document_filter doc])) s = (Inr r, s') \<Longrightarrow>
      is_success r \<Longrightarrow> stored s' = remove_document c doc (stored s)"
    and delete_frame: "between (remove_document c doc) (stored s)
        (stored (snd (qd_http q POST (points_url c @ uni ''/delete'') wait_param (Some (JObj [document_filter doc])) s)))"
      "sizes (snd (qd_http q POST (points_url c @ uni ''/delete'') wait_param (Some (JObj [document_filter doc])) s)) = sizes s"
    and count_ok: "qd_http q POST (points_url c @ uni ''/count'') []
        (Some (JObj [document_filter doc, (uni ''exact'', JBool True)])) s = (Inr r, s') \<Longrightarrow> is_success r \<Longrightarrow>
      \<exists>n. json_path (body r) [''result'', ''count''] = Some (JInt n) \<and> (0 < n \<longleftrightarrow> holds_document (stored s) c doc)"
    and count_frame: "stored (snd (qd_http q POST (points_url c @ uni ''/count'') [] b s)) = stored s"
      "sizes (snd (qd_http q POST (points_url c @ uni ''/count'') [] b s)) = sizes s"
    and search_frame: "stored (snd (qd_http q POST (points_url c @ uni ''/search'') [] b s)) = stored s"
      "sizes (snd (qd_http q POST (points_url c @ uni ''/search'') [] b s)) = sizes s"
    and pause_frame: "stored (qd_pause q delay s) = stored s" "sizes (qd_pause q delay s) = sizes s"
begin

text \<open>A request whose attempts keep a part \<open>g\<close> of the state keeps it.\<close>

lemma request_keeps:
  assumes "\<And>s. g (snd (qd_http q meth url prm b s)) = g s" and "\<And>k s. g (qd_pause q k s) = g s"
  shows "g (snd (request q meth url prm b s)) = g s"
  unfolding request_def
proof (rule retry_async_frame)
  show "g (snd (request_call q meth url prm b s)) = g s" for s
    using assms(1) [of s] by (auto simp: request_call_def split: prod.splits sum.splits)
qed (rule assms(2))

lemma request_call_Inr: "request_call q meth url prm b s = (Inr r, s') \<Longrightarrow> qd_http q meth url prm b s = (Inr r, s')"
  by (auto simp: request_call_def split: prod.splits sum.splits if_splits)

text \<open>What a read-only request returns describes the state it was made in.\<close>

lemma request_reads:
  assumes "\<And>s. stored (snd (qd_http q meth url prm b s)) = stored s"
    and "\<And>s. sizes (snd (qd_http q meth url prm b s)) = sizes s"
    and "\<And>s r s'. qd_http q meth url prm b s = (Inr r, s') \<Longrightarrow> P (stored s) (sizes s) r"
    and "request q meth url prm b s = (Inr r, s')"
  shows "P (stored s) (sizes s) r"
proof -
  let ?g = "\<lambda>s. (stored s, sizes s)"
  let ?P = "\<lambda>g x. \<forall>r. x = Inr r \<longrightarrow> P (fst g) (snd g) r"
  have "?P (?g s) (fst (request q meth url prm b s))"
    unfolding request_def
  proof (rule retry_async_result [where g = ?g and P = ?P])
    fix s
    show "?g (snd (request_call q meth url prm b s)) = ?g s"
      using assms(1,2) [of s] by (auto simp: request_call_def split: prod.splits sum.splits)
    show "?P (?g s) (fst (request_call q meth url prm b s))"
      using assms(3) [of s] by (cases "request_call q meth url prm b s") (auto dest!: request_call_Inr)
  qed (auto simp: pause_frame)
  with assms(4) show ?thesis by simp
qed

text \<open>A retried request whose attempts apply \<open>F\<close>, wholly on success and else at most in part.\<close>

lemma request_effect:
  assumes "\<And>st t. between F st t \<Longrightarrow> F t = F st"
    and "\<And>s. between F (stored s) (stored (snd (qd_http q meth url prm b s)))"
    and "\<And>s r s'. qd_http q meth url prm b s = (Inr r, s') \<Longrightarrow> is_success r \<Longrightarrow> stored s' = F (stored s)"
  shows "between F (stored s) (stored (snd (request q meth url prm b s))) \<and>
    (\<forall>r s'. request q meth url prm b s = (Inr r, s') \<longrightarrow> is_success r \<longrightarrow> stored s' = F (stored s))"
proof -
  let ?fn = "request_call q meth url prm b"
  let ?Q = "\<lambda>x. between F (stored s) (stored (snd x)) \<and>
    (\<forall>r. fst x = Inr r \<longrightarrow> is_success r \<longrightarrow> stored (snd x) = F (stored s))"
  have same: "stored (snd (?fn s)) = stored (snd (qd_http q meth url prm b s))" for s
    by (auto simp: request_call_def split: prod.splits sum.splits)
  have "?Q (request q meth url prm b s)"
    unfolding request_def
  proof (rule retry_async_rule [where I = "\<lambda>s1. between F (stored s) (stored s1)"])
    fix s1 assume I: "between F (stored s) (stored s1)"
    have "between F (stored s) (stored (snd (?fn s1)))"
      using between_trans [OF assms(1) I] assms(2) [of s1] by (simp add: same)
    moreover have "stored (snd (?fn s1)) = F (stored s)" if "fst (?fn s1) = Inr r" "is_success r" for r
      using that assms(3) [of s1 r] assms(1) [OF I] by (cases "?fn s1") (auto dest!: request_call_Inr)
    ultimately show "?Q (?fn s1)" by blast
  next
    fix s1 e s2 assume I: "between F (stored s) (stored s1)" and "?fn s1 = (Inl e, s2)"
    then show "between F (stored s) (stored s2)"
      using between_trans [OF assms(1) I] assms(2) [of s1] same [of s1] by simp
  qed (simp_all add: pause_frame)
  then show ?thesis by auto
qed

lemma size_keeps: "stored (snd (collection_vector_size q c s)) = stored s"
    "sizes (snd (collection_vector_size q c s)) = sizes s"
  using request_keeps [of stored GET "collection_url c" "[]" None s]
    request_keeps [of sizes GET "collection_url c" "[]" None s]
  by (auto simp: collection_vector_size_def http_get pause_frame split: prod.splits sum.splits option.splits)

lemma size_result:
  assumes "collection_vector_size q c s = (Inr r, s')"
  shows "r = sizes s c"
proof -
  let ?P = "\<lambda>st sz r. (status_code r = 404 \<longrightarrow> sz c = None) \<and> (is_success r \<longrightarrow> (\<exists>n. sz c = Some n \<and>
        json_path (body r) [''result'', ''config'', ''params'', ''vectors'', ''size''] = Some (JInt n)))"
  obtain x s1 where req: "request q GET (collection_url c) [] None s = (Inr x, s1)"
    using assms by (auto simp: collection_vector_size_def split: prod.splits sum.splits)
  have "?P (stored s) (sizes s) x"
  proof (rule request_reads [where P = ?P, OF _ _ _ req])
    fix s r s' assume h: "qd_http q GET (collection_url c) [] None s = (Inr r, s')"
    show "?P (stored s) (sizes s) r"
      using get_missing [OF h] get_size [OF h] by blast
  qed (rule http_get)+
  with req assms show ?thesis
    by (auto simp: collection_vector_size_def split: if_splits option.splits)
qed

end

context qdrant_server
begin

lemma checked_keeps:
  assumes "\<And>s. g (snd (qd_http q meth url prm b s)) = g s" and "\<And>k s. g (qd_pause q k s) = g s"
  shows "g (snd (checked_request q st un meth url prm b s)) = g s"
  using request_keeps [OF assms, of s] by (auto simp: checked_request_def split: prod.splits sum.splits)

lemma checked_Inr: "checked_request q st un meth url prm b s = (Inr r, s') \<Longrightarrow>
    request q meth url prm b s = (Inr r, s') \<and> is_success r"
  by (auto simp: checked_request_def split: prod.splits sum.splits if_splits)

lemma checked_snd: "snd (checked_request q st un meth url prm b s) = snd (request q meth url prm b s)"
  by (auto simp: checked_request_def split: prod.splits sum.splits)

lemma checked_state:
  "checked_request q st un meth url prm b s = (x, s') \<Longrightarrow> s' = snd (request q meth url prm b s)"
  using checked_snd [of st un meth url prm b s] by simp

lemma upsert_effect:
  "between (upsert_points c ps) (stored s) (stored (snd (request q PUT (points_url c) wait_param (Some (upsert_body ps)) s))) \<and>
   (\<forall>r s'. request q PUT (points_url c) wait_param (Some (upsert_body ps)) s = (Inr r, s') \<longrightarrow> is_success r \<longrightarrow>
      stored s' = upsert_points c ps (stored s))"
  by (rule request_effect [OF between_upsert upsert_frame(1) upsert_ok])

lemma delete_effect:
  "between (remove_document c doc) (stored s)
     (stored (snd (request q POST (points_url c @ uni ''/delete'') wait_param (Some (JObj [document_filter doc])) s))) \<and>
   (\<forall>r s'. request q POST (points_url c @ uni ''/delete'') wait_param (Some (JObj [document_filter doc])) s = (Inr r, s') \<longrightarrow>
      is_success r \<longrightarrow> stored s' = remove_document c doc (stored s))"
  by (rule request_effect [OF between_remove delete_frame(1) delete_ok])

lemma remove_missing: "sizes s c = None \<Longrightarrow> remove_document c doc (stored s) = stored s"
  using missing_empty [of s c] by (auto simp: remove_document_def fun_eq_iff split: option.splits)

lemma count_result:
  assumes "request q POST (points_url c @ uni ''/count'') []
      (Some (JObj [document_filter doc, (uni ''exact'', JBool True)])) s = (Inr r, s')" and "is_success r"
  shows "\<exists>n. json_path (body r) [''result'', ''count''] = Some (JInt n) \<and> (0 < n \<longleftrightarrow> holds_document (stored s) c doc)"
proof -
  let ?P = "\<lambda>st (sz :: ustr \<Rightarrow> int option) r. is_success r \<longrightarrow> (\<exists>n. json_path (body r) [''result'', ''count''] = Some (JInt n) \<and>
      (0 < n \<longleftrightarrow> holds_document st c doc))"
  have "?P (stored s) (sizes s) r"
  proof (rule request_reads [where P = ?P, OF _ _ _ assms(1)])
    fix s r s'
    assume h: "qd_http q POST (points_url c @ uni ''/count'') []
      (Some (JObj [document_filter doc, (uni ''exact'', JBool True)])) s = (Inr r, s')"
    show "?P (stored s) (sizes s) r" using count_ok [OF h] by blast
  qed (rule count_frame)+
  with assms(2) show ?thesis by blast
qed

lemma create_request_keeps:
  "stored (snd (request q PUT (collection_url c) [] (Some (create_body n)) s)) = stored s"
  "sizes s c' = Some k \<Longrightarrow> sizes (snd (request q PUT (collection_url c) [] (Some (create_body n)) s)) c' = Some k"
proof -
  show "stored (snd (request q PUT (collection_url c) [] (Some (create_body n)) s)) = stored s"
    by (rule request_keeps) (simp_all add: create_frame(1) pause_frame)
  assume k: "sizes s c' = Some k"
  have step: "sizes (snd (request_call q PUT (collection_url c) [] (Some (create_body n)) s)) c' = Some k"
    if "sizes s c' = Some k" for s
    using create_frame(2) [OF that, of c n] by (auto simp: request_call_def split: prod.splits sum.splits)
  show "sizes (snd (request q PUT (collection_url c) [] (Some (create_body n)) s)) c' = Some k"
    unfolding request_def
  proof (rule retry_async_rule [where I = "\<lambda>s. sizes s c' = Some k" and Q = "\<lambda>x. sizes (snd x) c' = Some k"])
    fix s e s'
    assume a: "sizes s c' = Some k"
      and b: "request_call q PUT (collection_url c) [] (Some (create_body n)) s = (Inl e, s')"
    show "sizes s' c' = Some k" using step [OF a] b by simp
  qed (use k step in \<open>auto simp: pause_frame\<close>)
qed

lemma create_request_ok:
  assumes "request q PUT (collection_url c) [] (Some (create_body n)) s = (Inr r, s')" and "is_success r"
  shows "sizes s' c \<noteq> None"
proof -
  let ?fn = "request_call q PUT (collection_url c) [] (Some (create_body n))"
  let ?Q = "\<lambda>x. \<forall>r. fst x = Inr r \<longrightarrow> is_success r \<longrightarrow> sizes (snd x) c \<noteq> None"
  have "?Q (request q PUT (collection_url c) [] (Some (create_body n)) s)"
    unfolding request_def
  proof (rule retry_async_rule [where I = "\<lambda>s. True" and Q = ?Q])
    fix s
    show "?Q (?fn s)"
      using create_ok [of c n s] by (cases "?fn s") (auto dest!: request_call_Inr)
  qed auto
  with assms show ?thesis by simp
qed

lemma get_request:
  assumes "request q GET (collection_url c) [] None s = (Inr r, s')"
  shows "is_success r \<longrightarrow> sizes s c \<noteq> None"
proof -
  let ?P = "\<lambda>(st :: points) sz r. is_success r \<longrightarrow> sz c \<noteq> None"
  show ?thesis
  proof (rule request_reads [where P = ?P, OF _ _ _ assms])
    fix s r s' assume h: "qd_http q GET (collection_url c) [] None s = (Inr r, s')"
    show "?P (stored s) (sizes s) r" using get_size [OF h] by blast
  qed (rule http_get)+
qed

lemma get_request_keeps:
  "stored (snd (request q GET (collection_url c) [] None s)) = stored s"
  "sizes (snd (request q GET (collection_url c) [] None s)) = sizes s"
  by (rule request_keeps; simp add: http_get pause_frame)+

lemma create_collection_ok:
  assumes "create_collection_if_not_exists q c n s = (Inr u, s')"
  shows "sizes s' c \<noteq> None"
proof -
  obtain r s1 where g: "request q GET (collection_url c) [] None s = (Inr r, s1)"
    using assms by (auto simp: create_collection_if_not_exists_def split: prod.splits sum.splits)
  show ?thesis
  proof (cases "status_code r = 200")
    case True
    with assms g get_request [OF g] get_request_keeps(2) [of c s] show ?thesis
      by (simp add: create_collection_if_not_exists_def is_success_def)
  next
    case False
    with assms g obtain r2 where "checked_request q
        (\<lambda>st. uni ''Qdrant returned '' @ st @ uni '' creating collection '' @ py_repr c)
        (uni ''Qdrant unreachable creating collection: '') PUT (collection_url c) [] (Some (create_body n)) s1 =
        (Inr r2, s')"
      by (auto simp: create_collection_if_not_exists_def split: prod.splits sum.splits)
    from checked_Inr [OF this] show ?thesis using create_request_ok by blast
  qed
qed

lemma create_collection_keeps:
  "stored (snd (create_collection_if_not_exists q c n s)) = stored s"
  "sizes s c' = Some k \<Longrightarrow> sizes (snd (create_collection_if_not_exists q c n s)) c' = Some k"
proof -
  obtain x s1 where g: "request q GET (collection_url c) [] None s = (x, s1)"
    by (cases "request q GET (collection_url c) [] None s")
  then have s1: "stored s1 = stored s" "sizes s1 = sizes s"
    using get_request_keeps [of c s] by simp_all
  have c: "snd (create_collection_if_not_exists q c n s) \<in>
      {s1, snd (request q PUT (collection_url c) [] (Some (create_body n)) s1)}"
    using g by (auto simp: create_collection_if_not_exists_def checked_request_def split: prod.splits sum.splits if_splits)
  show "stored (snd (create_collection_if_not_exists q c n s)) = stored s"
    using c s1 create_request_keeps(1) [of c n s1] by auto
  assume "sizes s c' = Some k"
  then show "sizes (snd (create_collection_if_not_exists q c n s)) c' = Some k"
    using c s1 create_request_keeps(2) [of s1 c' k c n] by auto
qed

lemma upsert_vectors_snd: "snd (upsert_vectors q c ps s) =
    snd (request q PUT (points_url c) wait_param (Some (upsert_body ps)) s)"
  unfolding upsert_vectors_def by (auto split: prod.splits sum.splits dest: checked_state)

lemma upsert_vectors_ok: "upsert_vectors q c ps s = (Inr u, s') \<Longrightarrow> stored s' = upsert_points c ps (stored s)"
  using upsert_effect [of c ps s]
  by (auto simp: upsert_vectors_def split: prod.splits sum.splits dest!: checked_Inr)

lemma upsert_vectors_sizes: "sizes (snd (upsert_vectors q c ps s)) = sizes s"
  unfolding upsert_vectors_snd by (rule request_keeps) (simp_all add: upsert_frame(2) pause_frame)

lemma delete_cases:
  "(\<exists>s1. stored s1 = stored s \<and> sizes s1 = sizes s \<and> snd (delete_by_document_id q c doc s) = s1 \<and>
      (fst (delete_by_document_id q c doc s) = Inr () \<longrightarrow> sizes s c = None)) \<or>
   (\<exists>s1. stored s1 = stored s \<and> sizes s1 = sizes s \<and>
      snd (delete_by_document_id q c doc s) =
        snd (request q POST (points_url c @ uni ''/delete'') wait_param (Some (JObj [document_filter doc])) s1) \<and>
      (fst (delete_by_document_id q c doc s) = Inr () \<longrightarrow> (\<exists>r s2.
         request q POST (points_url c @ uni ''/delete'') wait_param (Some (JObj [document_filter doc])) s1 = (Inr r, s2) \<and>
         is_success r)))"
proof -
  obtain x s1 where z: "collection_vector_size q c s = (x, s1)"
    by (cases "collection_vector_size q c s")
  then have s1: "stored s1 = stored s" "sizes s1 = sizes s"
    using size_keeps [of c s] by simp_all
  show ?thesis
  proof (cases "\<exists>n. x = Inr (Some n)")
    case False
    with z s1 size_result [of c s] show ?thesis
      by (intro disjI1 exI [of _ s1]) (auto simp: delete_by_document_id_def split: sum.splits option.splits)
  next
    case True
    with z s1 show ?thesis
      by (intro disjI2 exI [of _ s1])
        (auto simp: delete_by_document_id_def split: prod.splits sum.splits dest: checked_state checked_Inr)
  qed
qed

lemma delete_document_ok:
  assumes "delete_by_document_id q c doc s = (Inr u, s')"
  shows "stored s' = remove_document c doc (stored s)"
  using delete_cases [of s c doc] delete_effect [of c doc] remove_missing [of s c doc] assms by auto

lemma delete_document_partial:
  "between (remove_document c doc) (stored s) (stored (snd (delete_by_document_id q c doc s)))"
  using delete_cases [of s c doc] delete_effect [of c doc] by (metis between_refl)

lemma delete_document_sizes: "sizes (snd (delete_by_document_id q c doc s)) = sizes s"
proof -
  have "sizes (snd (request q POST (points_url c @ uni ''/delete'') wait_param (Some (JObj [document_filter doc])) s1)) =
      sizes s1" for s1
    by (rule request_keeps) (simp_all add: delete_frame(2) pause_frame)
  then show ?thesis using delete_cases [of s c doc] by metis
qed

lemma count_document_ok:
  assumes "count_document_vectors q c doc s = (Inr n, s')"
  shows "0 < n \<longleftrightarrow> holds_document (stored s) c doc"
proof -
  obtain x s1 where z: "collection_vector_size q c s = (Inr x, s1)"
    using assms by (auto simp: count_document_vectors_def split: prod.splits sum.splits)
  then have s1: "stored s1 = stored s" and x: "x = sizes s c"
    using size_keeps [of c s] size_result [OF z] by simp_all
  show ?thesis
  proof (cases x)
    case None
    with z x assms missing_empty [of s c] show ?thesis
      by (auto simp: count_document_vectors_def holds_document_def)
  next
    case (Some k)
    with z assms obtain r where r: "request q POST (points_url c @ uni ''/count'') []
        (Some (JObj [document_filter doc, (uni ''exact'', JBool True)])) s1 = (Inr r, s')" "is_success r"
      and n: "parse_count c r = Inr n"
      by (auto simp: count_document_vectors_def split: prod.splits sum.splits dest!: checked_Inr)
    from count_result [OF r] n s1 show ?thesis
      by (auto simp: parse_count_def)
  qed
qed

lemma count_collection_ok:
  assumes "count_collection_vectors q c s = (Inr r, s')"
  shows "(r = None) = (sizes s c = None)"
  using assms size_result [of c s]
  by (auto simp: count_collection_vectors_def split: prod.splits sum.splits option.splits)

lemma count_keeps:
  "stored (snd (count_document_vectors q c doc s)) = stored s" "sizes (snd (count_document_vectors q c doc s)) = sizes s"
  "stored (snd (count_collection_vectors q c s)) = stored s" "sizes (snd (count_collection_vectors q c s)) = sizes s"
proof -
  have a: "stored (snd (request q POST (points_url c @ uni ''/count'') [] b s)) = stored s"
    and b: "sizes (snd (request q POST (points_url c @ uni ''/count'') [] b s)) = sizes s" for b s
    by (rule request_keeps; simp add: count_frame pause_frame)+
  obtain x s1 where z: "collection_vector_size q c s = (x, s1)"
    by (cases "collection_vector_size q c s")
  then have s1: "stored s1 = stored s" "sizes s1 = sizes s"
    using size_keeps [of c s] by simp_all
  have d: "snd (count_document_vectors q c doc s) = s1 \<or>
      (\<exists>b. snd (count_document_vectors q c doc s) = snd (request q POST (points_url c @ uni ''/count'') [] b s1))"
    using z by (auto simp: count_document_vectors_def split: prod.splits sum.splits option.splits dest: checked_state)
  have e: "snd (count_collection_vectors q c s) = s1 \<or>
      (\<exists>b. snd (count_collection_vectors q c s) = snd (request q POST (points_url c @ uni ''/count'') [] b s1))"
    using z by (auto simp: count_collection_vectors_def split: prod.splits sum.splits option.splits dest: checked_state)
  show "stored (snd (count_document_vectors q c doc s)) = stored s"
    using d a s1 by metis
  show "sizes (snd (count_document_vectors q c doc s)) = sizes s"
    using d b s1 by metis
  show "stored (snd (count_collection_vectors q c s)) = stored s"
    using e a s1 by metis
  show "sizes (snd (count_collection_vectors q c s)) = sizes s"
    using e b s1 by metis
qed

lemma search_keeps:
  "stored (snd (search_similar q c v n s)) = stored s" "sizes (snd (search_similar q c v n s)) = sizes s"
proof -
  have "snd (search_similar q c v n s) = snd (request q POST (points_url c @ uni ''/search'') [] (Some (search_body v n)) s)"
    unfolding search_similar_def
    by (auto split: prod.splits sum.splits option.splits json.splits dest: checked_state)
  then show "stored (snd (search_similar q c v n s)) = stored s" "sizes (snd (search_similar q c v n s)) = sizes s"
    using request_keeps [of stored POST "points_url c @ uni ''/search''" "[]" "Some (search_body v n)" s]
      request_keeps [of sizes POST "points_url c @ uni ''/search''" "[]" "Some (search_body v n)" s]
    by (simp_all add: search_frame pause_frame)
qed

lemma upsert_vectors_partial: "stored (snd (upsert_vectors q c ps s)) c' i = stored s c' i \<or>
    stored (snd (upsert_vectors q c ps s)) c' i = upsert_points c ps (stored s) c' i"
  using upsert_effect [of c ps s] by (simp add: upsert_vectors_snd between_def)

lemma delete_document_pointwise: "stored (snd (delete_by_document_id q c doc s)) c' i = stored s c' i \<or>
    stored (snd (delete_by_document_id q c doc s)) c' i = remove_document c doc (stored s) c' i"
  using delete_document_partial [of c doc s] by (simp add: between_def)

end

sublocale qdrant_server \<subseteq> index: vector_index "qdrant_vector_store q" stored sizes
  by unfold_locales
    (simp_all add: qdrant_vector_store_def create_collection_keeps upsert_vectors_sizes delete_document_sizes
      size_keeps count_keeps search_keeps create_collection_ok upsert_vectors_ok delete_document_ok size_result
      count_document_ok count_collection_ok upsert_vectors_partial delete_document_pointwise)

context qdrant_server
begin

lemma delete_exact:
  "(fst (delete_by_document_id q c doc s) = Inr () \<longrightarrow>
      stored (snd (delete_by_document_id q c doc s)) = remove_document c doc (stored s)) \<and>
   (\<forall>c' doc'. c' \<noteq> c \<or> doc' \<noteq> doc \<longrightarrow>
      holds_document (stored (snd (delete_by_document_id q c doc s))) c' doc' = holds_document (stored s) c' doc')"
  using delete_document_ok [of c doc s] index.delete_other [of _ c _ doc s]
  by (cases "delete_by_document_id q c doc s") (auto simp: qdrant_vector_store_def)

end

section \<open>A reference server\<close>

text \<open>Collections with their size and points, and a queue of failures.  Requests are decoded from the
  JSON the adapter sends.\<close>

record mem_index =
  mi_points :: points
  mi_sizes :: "ustr \<Rightarrow> int option"
  mi_failures :: "raw_exn option list"

definition mem_stored :: "mem_index \<Rightarrow> points" where
  "mem_stored s c i = (if mi_sizes s c = None then None else mi_points s c i)"

definition decode_point :: "json \<Rightarrow> vector_point" where
  "decode_point j =
     (let str = (\<lambda>v. the (Option.bind v json_str)); payload = json_get j ''payload'' in
      \<lparr>vp_id = str (json_get j ''id''),
       vp_vector = (case json_get j ''vector'' of Some (JList xs) \<Rightarrow> map (\<lambda>x. the (json_rat x)) xs | _ \<Rightarrow> []),
       vp_document_id = str (json_path payload [''document_id'']), vp_chunk_id = str (json_path payload [''chunk_id'']),
       vp_text = str (json_path payload [''text'']), vp_source = str (json_path payload [''source'']),
       vp_page_number = Option.bind (json_path payload [''page_number'']) json_nat,
       vp_sheet_name = Option.bind (json_path payload [''sheet_name'']) json_str\<rparr>)"

lemma decode_point_json: "decode_point (point_json p) = p"
  by (cases p) (simp add: decode_point_def point_json_def point_payload_def json_get_def json_path_def
      json_str_def json_nat_def json_rat_def comp_def split: option.splits)

definition decode_points :: "json option \<Rightarrow> vector_point list" where
  "decode_points b = (case json_path b [''points''] of Some (JList js) \<Rightarrow> map decode_point js | _ \<Rightarrow> [])"

lemma decode_points_body: "decode_points (Some (upsert_body ps)) = ps"
  by (simp add: decode_points_def upsert_body_def json_path_def json_get_def comp_def decode_point_json)

definition decode_document :: "json option \<Rightarrow> ustr" where
  "decode_document b = (case json_path b [''filter'', ''must''] of
     Some (JList [m]) \<Rightarrow> the (Option.bind (json_path (Some m) [''match'', ''value'']) json_str) | _ \<Rightarrow> [])"

definition url_collection :: "nat \<Rightarrow> ustr \<Rightarrow> ustr" where
  "url_collection n url = take (length url - 13 - n) (drop 13 url)"

definition response :: "nat \<Rightarrow> json \<Rightarrow> http_response" where
  "response n j = \<lparr>status_code = n, body = Some j\<rparr>"

definition ends_with :: "ustr \<Rightarrow> string \<Rightarrow> bool" where
  "ends_with url sfx \<longleftrightarrow> drop (length url - length sfx) url = uni sfx"

definition mem_post :: "ustr \<Rightarrow> json option \<Rightarrow> mem_index \<Rightarrow> http_response \<times> mem_index" where
  "mem_post url b s =
     (if ends_with url ''/delete'' then
        let c = url_collection 14 url in
        if mi_sizes s c = None then (response 404 JNull, s)
        else (response 200 JNull, s\<lparr>mi_points := remove_document c (decode_document b) (mi_points s)\<rparr>)
      else if ends_with url ''/count'' then
        let c = url_collection 13 url; doc = decode_document b in
        if mi_sizes s c = None then (response 404 JNull, s)
        else (response 200 (JObj [(uni ''result'', JObj [(uni ''count'',
                JInt (if holds_document (mem_stored s) c doc then 1 else 0))])]), s)
      else (response 200 (JObj [(uni ''result'', JList [])]), s))"

definition quiet :: "mem_index \<Rightarrow> mem_index" where
  "quiet s = s\<lparr>mi_failures := drop 1 (mi_failures s)\<rparr>"

lemma mem_stored_quiet [simp]: "mem_stored (quiet s) = mem_stored s"
  by (intro ext) (auto simp: mem_stored_def quiet_def)

lemma quiet_simps [simp]: "mi_sizes (quiet s) = mi_sizes s"
  "mi_points (quiet s) = mi_points s"
  by (simp_all add: quiet_def)

definition mem_answer :: "http_method \<Rightarrow> ustr \<Rightarrow> (ustr \<times> ustr) list \<Rightarrow> json option \<Rightarrow> mem_index \<Rightarrow>
    http_response \<times> mem_index" where
  "mem_answer meth url prm b s =
     (let c = url_collection 0 url in
      (case meth of
         GET \<Rightarrow> (case mi_sizes s c of
             None \<Rightarrow> (response 404 JNull, s)
           | Some n \<Rightarrow> (response 200 (JObj [(uni ''result'', JObj [(uni ''config'', JObj [(uni ''params'',
                 JObj [(uni ''vectors'', JObj [(uni ''size'', JInt n)])])])])]), s))
       | PUT \<Rightarrow>
           if prm = [] then
             (response 200 JNull,
              if mi_sizes s c = None
              then s\<lparr>mi_sizes := (mi_sizes s)(c := Some (the (Option.bind (json_path b [''vectors'', ''size'']) json_int))),
                     mi_points := (mi_points s)(c := (\<lambda>_. None))\<rparr>
              else s)
           else let c = url_collection 7 url in
             if mi_sizes s c = None then (response 404 JNull, s)
             else (response 200 JNull, s\<lparr>mi_points := upsert_points c (decode_points b) (mi_points s)\<rparr>)
       | POST \<Rightarrow> mem_post url b s))"

definition mem_http :: "mem_index http" where
  "mem_http meth url prm b s =
     (case mi_failures s of
        Some e # fs \<Rightarrow> (Inl e, s\<lparr>mi_failures := fs\<rparr>)
      | _ \<Rightarrow> (case mem_answer meth url prm b (quiet s) of (r, s') \<Rightarrow> (Inr r, s')))"

definition mem_qdrant :: "mem_index qdrant" where
  "mem_qdrant = \<lparr>qd_http = mem_http, qd_policy = sample_policy, qd_pause = (\<lambda>d s. s), qd_status_text = (\<lambda>n. [])\<rparr>"

lemma url_collection_urls:
  "url_collection 0 (collection_url c) = c" "url_collection 7 (points_url c) = c"
  "url_collection 13 (points_url c @ uni ''/count'') = c" "url_collection 14 (points_url c @ uni ''/delete'') = c"
  "ends_with (points_url c @ uni ''/delete'') ''/delete''" "\<not> ends_with (points_url c @ uni ''/count'') ''/delete''"
  "ends_with (points_url c @ uni ''/count'') ''/count''" "\<not> ends_with (points_url c @ uni ''/search'') ''/delete''"
  by (simp_all add: url_collection_def collection_url_def points_url_def uni_def ends_with_def)

lemma decode_document_filter:
  "decode_document (Some (JObj [document_filter doc])) = doc"
  "decode_document (Some (JObj [document_filter doc, (uni ''exact'', JBool True)])) = doc"
  by (simp_all add: decode_document_def document_filter_def json_path_def json_get_def json_str_def)

lemma mem_http_cases:
  obtains e where "mem_http meth url prm b s = (Inl e, quiet s)"
  | "mem_http meth url prm b s = (Inr (fst (mem_answer meth url prm b (quiet s))), snd (mem_answer meth url prm b (quiet s)))"
proof (cases "mi_failures s")
  case Nil
  with that(2) show ?thesis by (simp add: mem_http_def split: prod.splits)
next
  case (Cons f fs)
  with that show ?thesis
    by (cases f) (simp_all add: mem_http_def quiet_def split: prod.splits)
qed

lemma mem_stored_None: "mi_sizes s c = None \<Longrightarrow> mem_stored s c i = None"
  by (simp add: mem_stored_def)

lemma mem_upsert:
  assumes "mi_sizes s c \<noteq> None"
  shows "mem_stored (s\<lparr>mi_points := upsert_points c ps (mi_points s)\<rparr>) = upsert_points c ps (mem_stored s)"
proof (intro ext)
  fix c' i
  have "mem_stored s c = mi_points s c"
    using assms by (auto simp: mem_stored_def fun_eq_iff)
  then show "mem_stored (s\<lparr>mi_points := upsert_points c ps (mi_points s)\<rparr>) c' i = upsert_points c ps (mem_stored s) c' i"
    using assms by (cases "c' = c") (auto simp: mem_stored_def upsert_points_def)
qed

lemma mem_remove:
  "mem_stored (s\<lparr>mi_points := remove_document c doc (mi_points s)\<rparr>) = remove_document c doc (mem_stored s)"
  by (auto simp: mem_stored_def remove_document_def fun_eq_iff)

lemma remove_absent: "mi_sizes s c = None \<Longrightarrow> remove_document c doc (mem_stored s) = mem_stored s"
  by (auto simp: mem_stored_def remove_document_def fun_eq_iff)

lemma mem_get: "mem_stored (snd (mem_answer GET url prm b s)) = mem_stored s \<and>
    mi_sizes (snd (mem_answer GET url prm b s)) = mi_sizes s"
  by (simp add: mem_answer_def Let_def split: option.splits)

lemma mem_create: "mem_stored (snd (mem_answer PUT url [] b s)) = mem_stored s \<and>
    mi_sizes (snd (mem_answer PUT url [] b s)) (url_collection 0 url) \<noteq> None \<and>
    (mi_sizes s c = Some k \<longrightarrow> mi_sizes (snd (mem_answer PUT url [] b s)) c = Some k)"
  by (auto simp: mem_answer_def Let_def mem_stored_def fun_eq_iff)

lemma mem_put_points: "mi_sizes (snd (mem_answer PUT (points_url c) wait_param (Some (upsert_body ps)) s)) = mi_sizes s \<and>
    (mem_stored (snd (mem_answer PUT (points_url c) wait_param (Some (upsert_body ps)) s)) = mem_stored s \<and>
       status_code (fst (mem_answer PUT (points_url c) wait_param (Some (upsert_body ps)) s)) = 404 \<or>
     mem_stored (snd (mem_answer PUT (points_url c) wait_param (Some (upsert_body ps)) s)) =
       upsert_points c ps (mem_stored s))"
  by (simp add: mem_answer_def Let_def wait_param_def url_collection_urls decode_points_body mem_upsert response_def)

lemma mem_post_delete: "mi_sizes (snd (mem_answer POST (points_url c @ uni ''/delete'') prm (Some (JObj [document_filter doc])) s)) = mi_sizes s \<and>
    mem_stored (snd (mem_answer POST (points_url c @ uni ''/delete'') prm (Some (JObj [document_filter doc])) s)) =
      remove_document c doc (mem_stored s)"
  by (simp add: mem_answer_def mem_post_def Let_def url_collection_urls decode_document_filter mem_remove remove_absent)

lemma mem_post_other: "\<not> ends_with url ''/delete'' \<Longrightarrow> snd (mem_answer POST url prm b s) = s"
  by (simp add: mem_answer_def mem_post_def Let_def)

lemma mem_count: "is_success (fst (mem_answer POST (points_url c @ uni ''/count'') []
      (Some (JObj [document_filter doc, (uni ''exact'', JBool True)])) s)) \<Longrightarrow>
    \<exists>n. json_path (body (fst (mem_answer POST (points_url c @ uni ''/count'') []
      (Some (JObj [document_filter doc, (uni ''exact'', JBool True)])) s))) [''result'', ''count''] = Some (JInt n) \<and>
      (0 < n \<longleftrightarrow> holds_document (mem_stored s) c doc)"
  by (simp add: mem_answer_def mem_post_def Let_def url_collection_urls decode_document_filter response_def is_success_def
      json_path_def json_get_def split: if_splits)

lemma mem_get_body: "is_success (fst (mem_answer GET (collection_url c) [] None s)) \<Longrightarrow>
    \<exists>n. mi_sizes s c = Some n \<and> json_path (body (fst (mem_answer GET (collection_url c) [] None s)))
      [''result'', ''config'', ''params'', ''vectors'', ''size''] = Some (JInt n)"
  by (simp add: mem_answer_def Let_def url_collection_urls response_def is_success_def json_path_def json_get_def
      split: option.splits)

lemma mem_get_missing: "status_code (fst (mem_answer GET (collection_url c) [] None s)) = 404 \<Longrightarrow> mi_sizes s c = None"
  by (simp add: mem_answer_def Let_def url_collection_urls response_def split: option.splits)

lemma mem_http_state:
  "snd (mem_http meth url prm b s) = quiet s \<or>
   snd (mem_http meth url prm b s) = snd (mem_answer meth url prm b (quiet s))"
  by (cases rule: mem_http_cases [of meth url prm b s]) auto

interpretation mem: qdrant_server mem_qdrant mem_stored mi_sizes
proof
  fix url prm b s
  show "mem_stored (snd (qd_http mem_qdrant GET url prm b s)) = mem_stored s"
    and "mi_sizes (snd (qd_http mem_qdrant GET url prm b s)) = mi_sizes s"
    using mem_get [of url prm b "quiet s"] mem_http_state [of GET url prm b s]
    by (auto simp: mem_qdrant_def)
next
  fix c s r s'
  assume h: "qd_http mem_qdrant GET (collection_url c) [] None s = (Inr r, s')"
  then have r: "r = fst (mem_answer GET (collection_url c) [] None (quiet s))"
    by (cases rule: mem_http_cases [of GET "collection_url c" "[]" None s]) (auto simp: mem_qdrant_def)
  show "status_code r = 404 \<Longrightarrow> mi_sizes s c = None"
    using mem_get_missing [of c "quiet s"] r by simp
  show "is_success r \<Longrightarrow> \<exists>n. mi_sizes s c = Some n \<and>
      json_path (body r) [''result'', ''config'', ''params'', ''vectors'', ''size''] = Some (JInt n)"
    using mem_get_body [of c "quiet s"] r by simp
next
  fix s :: mem_index and c i
  show "mi_sizes s c = None \<Longrightarrow> mem_stored s c i = None" by (rule mem_stored_None)
next
  fix c n s r s'
  assume "qd_http mem_qdrant PUT (collection_url c) [] (Some (create_body n)) s = (Inr r, s')"
  then show "mi_sizes s' c \<noteq> None"
    using mem_create [of "collection_url c" "Some (create_body n)" "quiet s"]
    by (cases rule: mem_http_cases [of PUT "collection_url c" "[]" "Some (create_body n)" s]) (auto simp: mem_qdrant_def url_collection_urls)
next
  fix c n s
  show "mem_stored (snd (qd_http mem_qdrant PUT (collection_url c) [] (Some (create_body n)) s)) = mem_stored s"
    using mem_create [of "collection_url c" "Some (create_body n)" "quiet s"]
    by (cases rule: mem_http_cases [of PUT "collection_url c" "[]" "Some (create_body n)" s]) (auto simp: mem_qdrant_def)
next
  fix s :: mem_index and c' k c n
  assume "mi_sizes s c' = Some k"
  then show "mi_sizes (snd (qd_http mem_qdrant PUT (collection_url c) [] (Some (create_body n)) s)) c' = Some k"
    using mem_create [of "collection_url c" "Some (create_body n)" "quiet s" c' k]
    by (cases rule: mem_http_cases [of PUT "collection_url c" "[]" "Some (create_body n)" s]) (auto simp: mem_qdrant_def)
next
  fix c ps s r s'
  assume "qd_http mem_qdrant PUT (points_url c) wait_param (Some (upsert_body ps)) s = (Inr r, s')" "is_success r"
  then show "mem_stored s' = upsert_points c ps (mem_stored s)"
    using mem_put_points [of c ps "quiet s"]
    by (cases rule: mem_http_cases [of PUT "points_url c" wait_param "Some (upsert_body ps)" s]) (auto simp: mem_qdrant_def is_success_def)
next
  fix c ps s
  show "between (upsert_points c ps) (mem_stored s)
      (mem_stored (snd (qd_http mem_qdrant PUT (points_url c) wait_param (Some (upsert_body ps)) s)))"
    and "mi_sizes (snd (qd_http mem_qdrant PUT (points_url c) wait_param (Some (upsert_body ps)) s)) = mi_sizes s"
    using mem_put_points [of c ps "quiet s"] mem_http_state [of PUT "points_url c" wait_param "Some (upsert_body ps)" s]
    by (auto simp: mem_qdrant_def between_def)
next
  fix c doc s r s'
  assume "qd_http mem_qdrant POST (points_url c @ uni ''/delete'') wait_param (Some (JObj [document_filter doc])) s = (Inr r, s')"
  then show "mem_stored s' = remove_document c doc (mem_stored s)"
    using mem_post_delete [of c wait_param doc "quiet s"]
    by (cases rule: mem_http_cases [of POST "points_url c @ uni ''/delete''" wait_param "Some (JObj [document_filter doc])" s]) (auto simp: mem_qdrant_def)
next
  fix c doc s
  show "between (remove_document c doc) (mem_stored s) (mem_stored (snd (qd_http mem_qdrant POST
      (points_url c @ uni ''/delete'') wait_param (Some (JObj [document_filter doc])) s)))"
    and "mi_sizes (snd (qd_http mem_qdrant POST (points_url c @ uni ''/delete'') wait_param
      (Some (JObj [document_filter doc])) s)) = mi_sizes s"
    using mem_post_delete [of c wait_param doc "quiet s"] mem_http_state [of POST "points_url c @ uni ''/delete''" wait_param "Some (JObj [document_filter doc])" s]
    by (auto simp: mem_qdrant_def between_def)
next
  fix c doc s r s'
  assume "qd_http mem_qdrant POST (points_url c @ uni ''/count'') []
      (Some (JObj [document_filter doc, (uni ''exact'', JBool True)])) s = (Inr r, s')" "is_success r"
  then show "\<exists>n. json_path (body r) [''result'', ''count''] = Some (JInt n) \<and>
      (0 < n \<longleftrightarrow> holds_document (mem_stored s) c doc)"
    using mem_count [of c doc "quiet s"]
    by (cases rule: mem_http_cases [of POST "points_url c @ uni ''/count''" "[]"
        "Some (JObj [document_filter doc, (uni ''exact'', JBool True)])" s]) (auto simp: mem_qdrant_def)
next
  fix c b s
  show "mem_stored (snd (qd_http mem_qdrant POST (points_url c @ uni ''/count'') [] b s)) = mem_stored s"
    and "mi_sizes (snd (qd_http mem_qdrant POST (points_url c @ uni ''/count'') [] b s)) = mi_sizes s"
    using mem_post_other [of "points_url c @ uni ''/count''" "[]" b "quiet s"] mem_http_state [of POST "points_url c @ uni ''/count''" "[]" b s]
    by (auto simp: mem_qdrant_def url_collection_urls)
next
  fix c b s
  show "mem_stored (snd (qd_http mem_qdrant POST (points_url c @ uni ''/search'') [] b s)) = mem_stored s"
    and "mi_sizes (snd (qd_http mem_qdrant POST (points_url c @ uni ''/search'') [] b s)) = mi_sizes s"
    using mem_post_other [of "points_url c @ uni ''/search''" "[]" b "quiet s"] mem_http_state [of POST "points_url c @ uni ''/search''" "[]" b s]
    by (auto simp: mem_qdrant_def url_collection_urls)
next
  fix d s
  show "mem_stored (qd_pause mem_qdrant d s) = mem_stored s" and "mi_sizes (qd_pause mem_qdrant d s) = mi_sizes s"
    by (simp_all add: mem_qdrant_def)
qed

section \<open>Properties\<close>

text \<open>A deletion the adapter reports as done removed every point of the document from the
  collection, and nothing else, whatever failures were retried on the way; when it raises, no other
  document and no other collection is touched either.\<close>

theorem qdrant_delete_exact:
  assumes "qdrant_server q stored sizes"
  shows "(fst (delete_by_document_id q c doc s) = Inr () \<longrightarrow>
      stored (snd (delete_by_document_id q c doc s)) = remove_document c doc (stored s)) \<and>
    (\<forall>c' doc'. c' \<noteq> c \<or> doc' \<noteq> doc \<longrightarrow>
      holds_document (stored (snd (delete_by_document_id q c doc s))) c' doc' = holds_document (stored s) c' doc')"
  using qdrant_server.delete_exact [OF assms] .

text \<open>The payload of a point survives the way through Qdrant: a search hit that carries the payload
  the adapter upserted is parsed back to the point's document, chunk, text, source, page and sheet.\<close>

theorem payload_round_trip:
  "parse_search_result (JObj [(uni ''id'', JStr (vp_id p)), (uni ''score'', JNum sc), (uni ''payload'', point_payload p)]) =
   Inr \<lparr>sr_id = vp_id p, sr_score = sc, sr_document_id = vp_document_id p, sr_chunk_id = vp_chunk_id p,
        sr_text = vp_text p, sr_source = vp_source p, sr_page_number = vp_page_number p,
        sr_sheet_name = vp_sheet_name p\<rparr>"
  by (simp add: parse_search_result_def point_payload_def json_get_def json_id_def json_rat_def json_str_def
      json_nat_def Let_def split: option.splits)

definition sample_point :: vector_point where
  "sample_point = \<lparr>vp_id = uni ''p1'', vp_vector = [1, 0], vp_document_id = uni ''d1'', vp_chunk_id = uni ''d1-0'',
     vp_text = uni ''hello'', vp_source = uni ''a.txt'', vp_page_number = None, vp_sheet_name = None\<rparr>"

definition sample_index :: mem_index where
  "sample_index = \<lparr>mi_points = (\<lambda>c i. if c = uni ''c'' \<and> i = uni ''p1'' then Some sample_point else None),
     mi_sizes = [uni ''c'' \<mapsto> 2], mi_failures = [Some (HTTPError [])]\<rparr>"

lemma sample_index_holds: "holds_document (mem_stored sample_index) (uni ''c'') (uni ''d1'')"
  by (auto simp: holds_document_def mem_stored_def sample_index_def sample_point_def)

lemma sample_delete: "fst (delete_by_document_id mem_qdrant (uni ''c'') (uni ''d1'') sample_index) = Inr ()"
  by (simp add: delete_by_document_id_def collection_vector_size_def request_def retry_async_def retry_loop.simps
      mem_qdrant_def sample_policy_def request_call_def mem_http_def mem_answer_def url_collection_urls quiet_def
      sample_index_def response_def transient_status_codes_def numeral_2_eq_2 is_success_def json_path_def
      json_get_def checked_request_def mem_post_def Let_def)

theorem qdrant_delete_exact_witness:
  "holds_document (mem_stored sample_index) (uni ''c'') (uni ''d1'') \<and>
   \<not> holds_document (mem_stored (snd (delete_by_document_id mem_qdrant (uni ''c'') (uni ''d1'') sample_index))) (uni ''c'') (uni ''d1'')"
  using qdrant_delete_exact [OF mem.qdrant_server_axioms, of "uni ''c''" "uni ''d1''" sample_index]
    sample_delete sample_index_holds by simp

end
