(* ===== verification/Mem_Index.thy ===== *)
theory Mem_Index
  imports Qdrant
begin

text \<open>
  The Qdrant adapter against the in-memory server of theory Qdrant when no request fails: what each
  operation answers.  The concrete runs of the workers are evaluated with these equations.
\<close>

named_theorems mem_runs "the adapter on the in-memory server without failures"

lemma mem_quiet: "mi_failures s = [] \<Longrightarrow> quiet s = s"
  by (simp add: quiet_def)

lemma retry_first:
  assumes "fn s = (Inr x, s')" and "1 \<le> max_attempts pol"
  shows "retry_async pol pause tr fn s = (Inr x, s')"
  using assms by (simp add: retry_async_def retry_loop.simps [of _ _ _ fn])

lemma mem_request:
  assumes "mi_failures s = []" and "status_code (fst (mem_answer meth url prm b s)) \<notin> set transient_status_codes"
  shows "request mem_qdrant meth url prm b s = (Inr (fst (mem_answer meth url prm b s)), snd (mem_answer meth url prm b s))"
proof -
  have "mem_http meth url prm b s = (Inr (fst (mem_answer meth url prm b s)), snd (mem_answer meth url prm b s))"
    using assms(1) by (simp add: mem_http_def mem_quiet split: prod.split)
  then have "request_call mem_qdrant meth url prm b s = (Inr (fst (mem_answer meth url prm b s)), snd (mem_answer meth url prm b s))"
    using assms(2) by (simp add: request_call_def mem_qdrant_def)
  then show ?thesis
    unfolding request_def by (rule retry_first) (simp add: mem_qdrant_def sample_policy_def)
qed

lemma mem_checked_request:
  assumes "mi_failures s = []" and "status_code (fst (mem_answer meth url prm b s)) = 200"
  shows "checked_request mem_qdrant on_status unreachable meth url prm b s =
    (Inr (fst (mem_answer meth url prm b s)), snd (mem_answer meth url prm b s))"
  using assms by (simp add: checked_request_def mem_request transient_status_codes_def is_success_def)

lemma mem_vector_size [mem_runs]:
  "mi_failures s = [] \<Longrightarrow> collection_vector_size mem_qdrant c s = (Inr (mi_sizes s c), s)"
  by (cases "mi_sizes s c") (simp_all add: collection_vector_size_def mem_request mem_answer_def url_collection_urls
      response_def transient_status_codes_def is_success_def json_path_def json_get_def)

lemma mem_create_new [mem_runs]:
  "mi_failures s = [] \<Longrightarrow> mi_sizes s c = None \<Longrightarrow> create_collection_if_not_exists mem_qdrant c n s =
    (Inr (), s\<lparr>mi_sizes := (mi_sizes s)(c \<mapsto> n), mi_points := (mi_points s)(c := (\<lambda>_. None))\<rparr>)"
  by (simp add: create_collection_if_not_exists_def mem_request mem_checked_request mem_answer_def url_collection_urls
      response_def transient_status_codes_def create_body_def json_path_def json_get_def)

lemma mem_create_old [mem_runs]:
  "mi_failures s = [] \<Longrightarrow> mi_sizes s c = Some k \<Longrightarrow> create_collection_if_not_exists mem_qdrant c n s = (Inr (), s)"
  by (simp add: create_collection_if_not_exists_def mem_request mem_answer_def url_collection_urls response_def
      transient_status_codes_def)

lemma mem_upsert_run [mem_runs]:
  "mi_failures s = [] \<Longrightarrow> mi_sizes s c = Some k \<Longrightarrow> upsert_vectors mem_qdrant c ps s =
    (Inr (), s\<lparr>mi_points := upsert_points c ps (mi_points s)\<rparr>)"
  by (simp add: upsert_vectors_def mem_checked_request mem_answer_def url_collection_urls response_def wait_param_def
      decode_points_body)

lemma mem_delete_run [mem_runs]:
  "mi_failures s = [] \<Longrightarrow> mi_sizes s c = Some k \<Longrightarrow> delete_by_document_id mem_qdrant c doc s =
    (Inr (), s\<lparr>mi_points := remove_document c doc (mi_points s)\<rparr>)"
  by (simp add: delete_by_document_id_def mem_vector_size mem_checked_request mem_answer_def mem_post_def Let_def
      url_collection_urls response_def wait_param_def decode_document_filter)

lemma mem_delete_none [mem_runs]:
  "mi_failures s = [] \<Longrightarrow> mi_sizes s c = None \<Longrightarrow> delete_by_document_id mem_qdrant c doc s = (Inr (), s)"
  by (simp add: delete_by_document_id_def mem_vector_size)

lemma mem_count_run [mem_runs]:
  "mi_failures s = [] \<Longrightarrow> mi_sizes s c = Some k \<Longrightarrow> count_document_vectors mem_qdrant c doc s =
    (Inr (if holds_document (mem_stored s) c doc then 1 else 0), s)"
  by (simp add: count_document_vectors_def mem_vector_size mem_checked_request mem_answer_def mem_post_def Let_def
      url_collection_urls response_def decode_document_filter parse_count_def json_path_def json_get_def)

lemma mem_count_none [mem_runs]:
  "mi_failures s = [] \<Longrightarrow> mi_sizes s c = None \<Longrightarrow> count_document_vectors mem_qdrant c doc s = (Inr 0, s)"
  by (simp add: count_document_vectors_def mem_vector_size)

lemma mem_store_sel [mem_runs]:
  "vs_create_collection_if_not_exists (qdrant_vector_store q) = create_collection_if_not_exists q"
  "vs_upsert_vectors (qdrant_vector_store q) = upsert_vectors q"
  "vs_get_collection_vector_size (qdrant_vector_store q) = collection_vector_size q"
  "vs_delete_by_document_id (qdrant_vector_store q) = delete_by_document_id q"
  "vs_count_document_vectors (qdrant_vector_store q) = count_document_vectors q"
  "vs_count_collection_vectors (qdrant_vector_store q) = count_collection_vectors q"
  "vs_search_similar (qdrant_vector_store q) = search_similar q"
  by (simp_all add: qdrant_vector_store_def)

text \<open>A store whose server fails every request without doing anything.\<close>

definition dead_index :: mem_index where
  "dead_index = \<lparr>mi_points = (\<lambda>c i. None), mi_sizes = (\<lambda>c. None), mi_failures = [Some (OtherError (uni ''down''))]\<rparr>"

definition empty_index :: mem_index where
  "empty_index = \<lparr>mi_points = (\<lambda>c i. None), mi_sizes = (\<lambda>c. None), mi_failures = []\<rparr>"

end
