(* ===== verification/Vector_Cleanup.thy ===== *)
theory Vector_Cleanup
  imports World Deletion_Service Mem_Index
begin

text \<open>
  Cleanup of the vectors a re-indexed document left behind (\<open>app/services/indexing/cleanup_job_service.py\<close>)
  and the deletion of a document's vectors from one or from all tracked collections
  (\<open>vector_deletion_service.py\<close>).
\<close>

section \<open>Cleanup jobs\<close>

definition active_collection_guard_message :: ustr where
  "active_collection_guard_message =
     uni ''Refusing cleanup: this collection is the document's current active serving collection.''"

definition max_cleanup_error_length :: nat where
  "max_cleanup_error_length = 2000"

text \<open>The last character of a cut message is an ellipsis.\<close>

definition bounded_cleanup_error :: "ustr \<Rightarrow> ustr" where
  "bounded_cleanup_error raw =
     (if length raw \<le> max_cleanup_error_length then raw else take (max_cleanup_error_length - 1) raw @ [8230])"

definition new_cleanup_job :: "ustr \<Rightarrow> ustr \<Rightarrow> ustr \<Rightarrow> ustr option \<Rightarrow> time \<Rightarrow> cleanup_job" where
  "new_cleanup_job new_id document_id collection error db_now =
     \<lparr>vc_id = new_id, vc_document_id = document_id, vc_collection_name = collection,
      vc_status = (if error \<noteq> None then VcFailed else VcPending), attempts = (if error \<noteq> None then 1 else 0),
      last_error = error, vc_created_at = db_now, vc_completed_at = None\<rparr>"

definition add_cleanup_job :: "cleanup_job \<Rightarrow> db \<Rightarrow> db" where
  "add_cleanup_job j d = d\<lparr>cleanup_jobs := cleanup_jobs d @ [j]\<rparr>"

definition create_cleanup_job :: "(db \<Rightarrow> db) \<Rightarrow> ustr \<Rightarrow> time \<Rightarrow> ustr \<Rightarrow> ustr \<Rightarrow> ustr option \<Rightarrow> db \<Rightarrow> (exn + cleanup_job) \<times> db" where
  "create_cleanup_job env new_id db_now document_id collection error d =
     (let job = new_cleanup_job new_id document_id collection error db_now in
      case commit (add_cleanup_job job (env d)) of
        Inl e \<Rightarrow> (Inl (DatabaseErr e), env d)
      | Inr d' \<Rightarrow> (Inr job, d'))"

definition flush_cleanup :: "cleanup_job \<Rightarrow> cleanup_job \<Rightarrow> cleanup_job \<Rightarrow> cleanup_job" where
  "flush_cleanup loaded new row =
     row\<lparr>vc_status := changed (vc_status loaded) (vc_status new) (vc_status row),
         attempts := changed (attempts loaded) (attempts new) (attempts row),
         last_error := changed (last_error loaded) (last_error new) (last_error row),
         vc_completed_at := changed (vc_completed_at loaded) (vc_completed_at new) (vc_completed_at row)\<rparr>"

definition cleanup_failed :: "ustr \<Rightarrow> cleanup_job \<Rightarrow> cleanup_job" where
  "cleanup_failed msg j = j\<lparr>vc_status := VcFailed, attempts := attempts j + 1, last_error := Some msg\<rparr>"

definition cleanup_completed :: "time \<Rightarrow> cleanup_job \<Rightarrow> cleanup_job" where
  "cleanup_completed now j =
     j\<lparr>vc_status := VcCompleted, attempts := attempts j + 1, last_error := None, vc_completed_at := Some now\<rparr>"

definition commit_or_rollback :: "(db \<Rightarrow> db) \<Rightarrow> cleanup_job \<Rightarrow> cleanup_job \<Rightarrow> 'a \<Rightarrow> (('f, 'e, 'v) world, exn, 'a) call" where
  "commit_or_rollback env loaded new x w =
     commit_update (update_cleanup_job (vc_id loaded) (flush_cleanup loaded new)) x (others env w)"

definition retry_cleanup_job :: "(exn \<Rightarrow> ustr) \<Rightarrow> time \<Rightarrow> (db \<Rightarrow> db) \<Rightarrow> 'v vector_store \<Rightarrow> cleanup_job \<Rightarrow>
    (('f, 'e, 'v) world, exn, bool) call" where
  "retry_cleanup_job lib now env vs job w =
     (if (case get_document (w_db w) (vc_document_id job) of
            None \<Rightarrow> False | Some doc \<Rightarrow> collection_name doc = Some (vc_collection_name job)) then
        commit_or_rollback env job (cleanup_failed active_collection_guard_message job) False w
      else (case on_index (vs_delete_by_document_id vs (vc_collection_name job) (vc_document_id job)) w of
          (Inl e, w1) \<Rightarrow>
            commit_or_rollback env job (cleanup_failed (bounded_cleanup_error (str_exn lib e)) job) False w1
        | (Inr _, w1) \<Rightarrow> commit_or_rollback env job (cleanup_completed now job) True w1))"

datatype cleanup_outcome = CleanupNoJob | CleanupCompleted | CleanupFailed

record cleanup_result =
  cr_outcome :: cleanup_outcome
  cr_job_id :: "ustr option"
  cr_document_id :: "ustr option"
  cr_collection_name :: "ustr option"

definition claim_next_pending_cleanup_job :: "(ustr \<Rightarrow> bool) \<Rightarrow> db \<Rightarrow> cleanup_job option" where
  "claim_next_pending_cleanup_job locked d =
     oldest_by (row_key vc_created_at vc_id)
       (filter (\<lambda>j. (vc_status j = VcPending \<or> vc_status j = VcFailed) \<and> \<not> locked (vc_id j)) (cleanup_jobs d))"

text \<open>The commit after the claim changes no row; the session keeps the claimed object.\<close>

definition process_next_vector_cleanup_job :: "(exn \<Rightarrow> ustr) \<Rightarrow> time \<Rightarrow> (nat \<Rightarrow> db \<Rightarrow> db) \<Rightarrow> (ustr \<Rightarrow> bool) \<Rightarrow> 'v vector_store \<Rightarrow>
    (('f, 'e, 'v) world, exn, cleanup_result) call" where
  "process_next_vector_cleanup_job lib now env locked vs w =
     (case claim_next_pending_cleanup_job locked (w_db w) of
        None \<Rightarrow> (Inr \<lparr>cr_outcome = CleanupNoJob, cr_job_id = None, cr_document_id = None, cr_collection_name = None\<rparr>, w)
      | Some job \<Rightarrow>
          call_bind (retry_cleanup_job lib now (env 1) vs job) (\<lambda>succeeded.
            call_return \<lparr>cr_outcome = (if succeeded then CleanupCompleted else CleanupFailed), cr_job_id = Some (vc_id job),
              cr_document_id = Some (vc_document_id job), cr_collection_name = Some (vc_collection_name job)\<rparr>)
            (others (env 0) w))"

section \<open>Deleting a document's vectors\<close>

definition delete_current_document_vectors :: "'v vector_store \<Rightarrow> document \<Rightarrow> ('v, exn, unit) call" where
  "delete_current_document_vectors vs doc =
     (case collection_name doc of None \<Rightarrow> call_return () | Some c \<Rightarrow> vs_delete_by_document_id vs c (doc_id doc))"

record collection_deletion =
  cd_collection_name :: ustr
  cd_succeeded :: bool
  cd_error :: "ustr option"

record vector_deletion_result =
  vdr_document_id :: ustr
  attempted_collections :: "ustr list"
  collection_results :: "collection_deletion list"

definition fully_deleted :: "vector_deletion_result \<Rightarrow> bool" where
  "fully_deleted r \<longleftrightarrow> (\<forall>c \<in> set (collection_results r). cd_succeeded c)"

text \<open>Names in the order the code appends them, each once.\<close>

fun append_new :: "ustr list \<Rightarrow> ustr list \<Rightarrow> ustr list" where
  "append_new acc [] = acc"
| "append_new acc (c # cs) = append_new (if c \<notin> set acc then acc @ [c] else acc) cs"

definition collections_to_attempt :: "document \<Rightarrow> db \<Rightarrow> ustr list" where
  "collections_to_attempt doc d =
     append_new
       (append_new (case collection_name doc of None \<Rightarrow> [] | Some c \<Rightarrow> [c])
          (map vc_collection_name (get_pending_cleanup_jobs d (Some (doc_id doc)))))
       (get_completed_reindex_target_collections d (doc_id doc))"

fun delete_from_collections :: "(exn \<Rightarrow> ustr) \<Rightarrow> 'v vector_store \<Rightarrow> ustr \<Rightarrow> ustr list \<Rightarrow> 'v \<Rightarrow> collection_deletion list \<times> 'v" where
  "delete_from_collections lib vs doc [] v = ([], v)"
| "delete_from_collections lib vs doc (c # cs) v =
     (case vs_delete_by_document_id vs c doc v of
        (Inl e, v1) \<Rightarrow>
          (case delete_from_collections lib vs doc cs v1 of
             (rs, v2) \<Rightarrow> (\<lparr>cd_collection_name = c, cd_succeeded = False, cd_error = Some (str_exn lib e)\<rparr> # rs, v2))
      | (Inr _, v1) \<Rightarrow>
          (case delete_from_collections lib vs doc cs v1 of
             (rs, v2) \<Rightarrow> (\<lparr>cd_collection_name = c, cd_succeeded = True, cd_error = None\<rparr> # rs, v2)))"

definition delete_all_tracked_document_vectors :: "(exn \<Rightarrow> ustr) \<Rightarrow> 'v vector_store \<Rightarrow> document \<Rightarrow> db \<Rightarrow> 'v \<Rightarrow>
    vector_deletion_result \<times> 'v" where
  "delete_all_tracked_document_vectors lib vs doc d v =
     (let cs = collections_to_attempt doc d in
      case delete_from_collections lib vs (doc_id doc) cs v of
        (rs, v') \<Rightarrow> (\<lparr>vdr_document_id = doc_id doc, attempted_collections = cs, collection_results = rs\<rparr>, v'))"

section \<open>A run of the cleanup worker\<close>

definition cleanup_eligible :: "cleanup_job \<Rightarrow> bool" where
  "cleanup_eligible j \<longleftrightarrow> vc_status j = VcPending \<or> vc_status j = VcFailed"

text \<open>The active-serving-collection guard.\<close>

definition guarded :: "db \<Rightarrow> cleanup_job \<Rightarrow> bool" where
  "guarded d j \<longleftrightarrow> (\<exists>doc. get_document d (vc_document_id j) = Some doc \<and> collection_name doc = Some (vc_collection_name j))"

lemma claim_cleanup: "claim_next_pending_cleanup_job locked d =
    oldest_by (row_key vc_created_at vc_id) (filter (\<lambda>j. cleanup_eligible j \<and> \<not> locked (vc_id j)) (cleanup_jobs d))"
  by (simp add: claim_next_pending_cleanup_job_def cleanup_eligible_def)

lemma claim_cleanup_Some: "claim_next_pending_cleanup_job locked d = Some j \<Longrightarrow>
    j \<in> set (cleanup_jobs d) \<and> cleanup_eligible j \<and> \<not> locked (vc_id j)"
  by (auto simp: claim_cleanup dest!: oldest_by_Some)

lemma flush_cleanup_simps [simp]:
  "vc_id (flush_cleanup l n r) = vc_id r" "vc_document_id (flush_cleanup l n r) = vc_document_id r"
  "vc_collection_name (flush_cleanup l n r) = vc_collection_name r" "vc_created_at (flush_cleanup l n r) = vc_created_at r"
  by (simp_all add: flush_cleanup_def)

lemma flush_cleanup_same [simp]: "flush_cleanup j (cleanup_failed m j) j = cleanup_failed m j"
  "flush_cleanup j (cleanup_completed t j) j = cleanup_completed t j"
  by (simp_all add: flush_cleanup_def cleanup_failed_def cleanup_completed_def)

lemma cleanup_set_simps [simp]:
  "vc_id (cleanup_failed m j) = vc_id j" "vc_id (cleanup_completed t j) = vc_id j"
  "vc_document_id (cleanup_failed m j) = vc_document_id j" "vc_document_id (cleanup_completed t j) = vc_document_id j"
  "vc_collection_name (cleanup_failed m j) = vc_collection_name j"
  "vc_collection_name (cleanup_completed t j) = vc_collection_name j"
  "vc_created_at (cleanup_failed m j) = vc_created_at j" "vc_created_at (cleanup_completed t j) = vc_created_at j"
  "cleanup_eligible (cleanup_failed m j)" "\<not> cleanup_eligible (cleanup_completed t j)"
  by (simp_all add: cleanup_failed_def cleanup_completed_def cleanup_eligible_def)

lemma commit_or_rollback_cases:
  assumes "commit_or_rollback env l n x w = (r, w')"
  obtains e where "r = Inl e" "w' = others env w"
  | "r = Inr x" "w' = (others env w)\<lparr>w_db := update_cleanup_job (vc_id l) (flush_cleanup l n) (env (w_db w))\<rparr>" "db_ok (w_db w')"
  using assms by (cases r) (auto simp: commit_or_rollback_def commit_update_Inr commit_update_Inl)

text \<open>What a retry does, by the guard and by the answer of the vector store.\<close>

lemma retry_cleanup_cases:
  assumes "retry_cleanup_job lib now env vs job w = (r, w')"
  obtains (guard) "guarded (w_db w) job" "r = Inr False \<or> (\<exists>e. r = Inl e)"
      "commit_or_rollback env job (cleanup_failed active_collection_guard_message job) False w = (r, w')"
  | (failed) e v where "\<not> guarded (w_db w) job" "r = Inr False \<or> (\<exists>e. r = Inl e)"
      "vs_delete_by_document_id vs (vc_collection_name job) (vc_document_id job) (w_index w) = (Inl e, v)"
      "commit_or_rollback env job (cleanup_failed (bounded_cleanup_error (str_exn lib e)) job) False (w\<lparr>w_index := v\<rparr>) = (r, w')"
  | (deleted) v where "\<not> guarded (w_db w) job" "r = Inr True \<or> (\<exists>e. r = Inl e)"
      "vs_delete_by_document_id vs (vc_collection_name job) (vc_document_id job) (w_index w) = (Inr (), v)"
      "commit_or_rollback env job (cleanup_completed now job) True (w\<lparr>w_index := v\<rparr>) = (r, w')"
proof -
  have g: "(case get_document (w_db w) (vc_document_id job) of
      None \<Rightarrow> False | Some doc \<Rightarrow> collection_name doc = Some (vc_collection_name job)) = guarded (w_db w) job"
    by (simp add: guarded_def split: option.splits)
  obtain a v where a: "vs_delete_by_document_id vs (vc_collection_name job) (vc_document_id job) (w_index w) = (a, v)"
    by fastforce
  have x: "x = False \<longrightarrow> r = Inr False \<or> (\<exists>e. r = Inl e)" "x = True \<longrightarrow> r = Inr True \<or> (\<exists>e. r = Inl e)"
    if "commit_or_rollback env job n x u = (r, w')" for x n and u :: "('a, 'b, 'c) world"
    using that by (auto elim: commit_or_rollback_cases)
  show thesis
  proof (cases "guarded (w_db w) job")
    case True
    with assms g have c: "commit_or_rollback env job (cleanup_failed active_collection_guard_message job) False w = (r, w')"
      by (simp add: retry_cleanup_job_def)
    with guard True x [OF c] show thesis by simp
  next
    case False
    then show thesis
    proof (cases a)
      case (Inl e)
      with assms g False a have c: "commit_or_rollback env job (cleanup_failed (bounded_cleanup_error (str_exn lib e)) job) False
          (w\<lparr>w_index := v\<rparr>) = (r, w')"
        by (simp add: retry_cleanup_job_def on_index_def)
      with failed False a Inl x [OF c] show thesis by simp
    next
      case (Inr u)
      with assms g False a have c: "commit_or_rollback env job (cleanup_completed now job) True (w\<lparr>w_index := v\<rparr>) = (r, w')"
        by (simp add: retry_cleanup_job_def on_index_def)
      with deleted False a Inr x [OF c] show thesis by simp
    qed
  qed
qed

lemma process_cleanup_cases:
  assumes "process_next_vector_cleanup_job lib now env locked vs w = (r, w')"
  obtains (none) "claim_next_pending_cleanup_job locked (w_db w) = None" "w' = w"
      "r = Inr \<lparr>cr_outcome = CleanupNoJob, cr_job_id = None, cr_document_id = None, cr_collection_name = None\<rparr>"
  | (ran) job s where "claim_next_pending_cleanup_job locked (w_db w) = Some job"
      "retry_cleanup_job lib now (env 1) vs job (others (env 0) w) = (s, w')"
      "r = map_sum id (\<lambda>ok. \<lparr>cr_outcome = (if ok then CleanupCompleted else CleanupFailed), cr_job_id = Some (vc_id job),
              cr_document_id = Some (vc_document_id job), cr_collection_name = Some (vc_collection_name job)\<rparr>) s"
  using assms
  by (auto simp: process_next_vector_cleanup_job_def call_bind_def call_return_def split: option.splits prod.splits sum.splits)

text \<open>A run of the cleanup worker touches no vector but those of the claimed job's document in the
  claimed job's collection, none at all when that is the document's active collection at the check, and
  when it reports completion they are gone.\<close>

theorem cleanup_touches_only_its_job:
  assumes vi: "vector_index vs stored sizes"
    and run: "process_next_vector_cleanup_job lib now env locked vs w = (r, w')"
    and job: "claim_next_pending_cleanup_job locked (w_db w) = Some job"
  shows "(c \<noteq> vc_collection_name job \<or> doc \<noteq> vc_document_id job \<or> guarded (env 0 (w_db w)) job \<longrightarrow>
      holds_document (stored (w_index w')) c doc = holds_document (stored (w_index w)) c doc) \<and>
    (\<forall>res. r = Inr res \<and> cr_outcome res = CleanupCompleted \<longrightarrow>
      \<not> holds_document (stored (w_index w')) (vc_collection_name job) (vc_document_id job))"
  using run
proof (cases rule: process_cleanup_cases)
  case none
  with job show ?thesis by simp
next
  case (ran j s)
  with job have j: "j = job" by simp
  note del = vector_index.delete_other [OF vi, of c "vc_collection_name job" doc "vc_document_id job" "w_index w"]
  from ran(2) show ?thesis
  proof (cases rule: retry_cleanup_cases)
    case guard
    with ran(3) j show ?thesis by (auto elim!: commit_or_rollback_cases)
  next
    case (failed e v)
    with ran(3) j del show ?thesis by (auto elim!: commit_or_rollback_cases)
  next
    case (deleted v)
    with vector_index.delete_gone [OF vi deleted(3)] ran(3) j del show ?thesis
      by (auto elim!: commit_or_rollback_cases)
  qed
qed

section \<open>Repeated runs\<close>

text \<open>\<open>n\<close> invocations of the script, one after the other, with nobody else at work.\<close>

fun cleanup_runs :: "(exn \<Rightarrow> ustr) \<Rightarrow> (nat \<Rightarrow> time) \<Rightarrow> 'v vector_store \<Rightarrow> nat \<Rightarrow> ('f, 'e, 'v) world \<Rightarrow> ('f, 'e, 'v) world" where
  "cleanup_runs lib now vs 0 w = w"
| "cleanup_runs lib now vs (Suc n) w =
     snd (process_next_vector_cleanup_job lib (now n) (\<lambda>_. id) (\<lambda>_. False) vs (cleanup_runs lib now vs n w))"

lemma others_id [simp]: "others id w = w"
  by (simp add: others_def)

lemma claim_none: "claim_next_pending_cleanup_job (\<lambda>_. False) d = None \<longleftrightarrow> filter cleanup_eligible (cleanup_jobs d) = []"
  by (simp add: claim_cleanup)

lemma oldest_by_map: "(\<And>r. r \<in> set rows \<Longrightarrow> key (f r) = key r) \<Longrightarrow> oldest_by key (map f rows) = map_option f (oldest_by key rows)"
proof (induction rows)
  case Nil
  then show ?case by simp
next
  case (Cons r rows)
  then have IH: "oldest_by key (map f rows) = map_option f (oldest_by key rows)" by simp
  have "key (f s) = key s" if "oldest_by key rows = Some s" for s
    using Cons.prems oldest_by_Some [OF that] by simp
  with Cons.prems IH show ?case by (auto split: option.splits)
qed

text \<open>A job that stays eligible stays where it is in the queue.\<close>

lemma claim_update:
  assumes "claim_next_pending_cleanup_job (\<lambda>_. False) d = Some j"
    and f: "\<And>k. k \<in> set (cleanup_jobs d) \<Longrightarrow> vc_id k = vc_id j \<Longrightarrow>
      vc_id (f k) = vc_id k \<and> vc_created_at (f k) = vc_created_at k \<and> cleanup_eligible (f k) = cleanup_eligible k"
  shows "claim_next_pending_cleanup_job (\<lambda>_. False) (update_cleanup_job (vc_id j) f d) = Some (f j)"
proof -
  let ?g = "\<lambda>r. if vc_id r = vc_id j then f r else r"
  have el: "filter cleanup_eligible (map ?g rows) = map ?g (filter cleanup_eligible rows)"
    if "set rows \<subseteq> set (cleanup_jobs d)" for rows
    using that f by (induction rows) auto
  have "oldest_by (row_key vc_created_at vc_id) (map ?g (filter cleanup_eligible (cleanup_jobs d))) =
      map_option ?g (oldest_by (row_key vc_created_at vc_id) (filter cleanup_eligible (cleanup_jobs d)))"
    using f by (intro oldest_by_map) (auto simp: row_key_def)
  then show ?thesis
    using assms(1) by (simp add: claim_cleanup update_row_def el)
qed

lemma cleanup_row_unique:
  "db_ok d \<Longrightarrow> j \<in> set (cleanup_jobs d) \<Longrightarrow> k \<in> set (cleanup_jobs d) \<Longrightarrow> vc_id j = vc_id k \<Longrightarrow> j = k"
  by (auto simp: db_ok_checks check_None distinct_map inj_on_def)

lemma guarded_cong: "documents d = documents e \<Longrightarrow> guarded d = guarded e"
  using get_document_cong [of d e] by (simp add: guarded_def fun_eq_iff)

definition other_cleanup_jobs :: "ustr \<Rightarrow> db \<Rightarrow> cleanup_job list" where
  "other_cleanup_jobs i d = filter (\<lambda>k. vc_id k \<noteq> i) (cleanup_jobs d)"

lemma other_cleanup_update: "(\<And>k. vc_id (f k) = vc_id k) \<Longrightarrow> other_cleanup_jobs i (update_cleanup_job i f d) = other_cleanup_jobs i d"
proof -
  assume f: "\<And>k. vc_id (f k) = vc_id k"
  have "filter (\<lambda>k. vc_id k \<noteq> i) (update_row vc_id i f rows) = filter (\<lambda>k. vc_id k \<noteq> i) rows" for rows
    using f by (induction rows) auto
  then show ?thesis by (simp add: other_cleanup_jobs_def)
qed

text \<open>One run while the oldest eligible job is guarded.\<close>

lemma guarded_run:
  assumes ok: "db_ok (w_db w)" and claim: "claim_next_pending_cleanup_job (\<lambda>_. False) (w_db w) = Some j"
    and g: "guarded (w_db w) j"
    and run: "process_next_vector_cleanup_job lib now (\<lambda>_. id) (\<lambda>_. False) vs w = (r, w')"
  shows "db_ok (w_db w') \<and> w_index w' = w_index w \<and> other_cleanup_jobs (vc_id j) (w_db w') = other_cleanup_jobs (vc_id j) (w_db w) \<and>
    (\<exists>j'. claim_next_pending_cleanup_job (\<lambda>_. False) (w_db w') = Some j' \<and> vc_id j' = vc_id j \<and> guarded (w_db w') j')"
  using run
proof (cases rule: process_cleanup_cases)
  case none
  with claim show ?thesis by simp
next
  case (ran job s)
  with claim have "job = j" by simp
  with ran(2) g have c: "commit_or_rollback id j (cleanup_failed active_collection_guard_message j) False w = (s, w')"
    by (cases rule: retry_cleanup_cases) auto
  let ?n = "cleanup_failed active_collection_guard_message j"
  let ?d = "update_cleanup_job (vc_id j) (flush_cleanup j ?n) (w_db w)"
  have "claim_next_pending_cleanup_job (\<lambda>_. False) ?d = Some (flush_cleanup j ?n j)"
  proof (rule claim_update [OF claim])
    fix k assume "k \<in> set (cleanup_jobs (w_db w))" "vc_id k = vc_id j"
    with cleanup_row_unique [OF ok] claim_cleanup_Some [OF claim] have "k = j" by auto
    then show "vc_id (flush_cleanup j ?n k) = vc_id k \<and> vc_created_at (flush_cleanup j ?n k) = vc_created_at k \<and>
        cleanup_eligible (flush_cleanup j ?n k) = cleanup_eligible k"
      using claim_cleanup_Some [OF claim] by simp
  qed
  moreover have "guarded ?d ?n"
    using g guarded_cong [of ?d "w_db w"] by (simp add: guarded_def)
  moreover note c
  ultimately show ?thesis
    using ok claim g by - (erule commit_or_rollback_cases, auto simp: other_cleanup_update)
qed

text \<open>While the oldest eligible cleanup job names the active collection of its document, cleanup makes
  no progress at all: however often the worker runs, it claims that job again, deletes no vector and
  leaves every other cleanup job as it is.\<close>

theorem cleanup_starvation:
  assumes "db_ok (w_db w)" and "claim_next_pending_cleanup_job (\<lambda>_. False) (w_db w) = Some j"
    and "guarded (w_db w) j"
  shows "w_index (cleanup_runs lib now vs n w) = w_index w \<and>
    other_cleanup_jobs (vc_id j) (w_db (cleanup_runs lib now vs n w)) = other_cleanup_jobs (vc_id j) (w_db w) \<and>
    (\<exists>j'. claim_next_pending_cleanup_job (\<lambda>_. False) (w_db (cleanup_runs lib now vs n w)) = Some j' \<and> vc_id j' = vc_id j)"
proof -
  have "let u = cleanup_runs lib now vs n w in db_ok (w_db u) \<and> w_index u = w_index w \<and>
      other_cleanup_jobs (vc_id j) (w_db u) = other_cleanup_jobs (vc_id j) (w_db w) \<and>
      (\<exists>j'. claim_next_pending_cleanup_job (\<lambda>_. False) (w_db u) = Some j' \<and> vc_id j' = vc_id j \<and> guarded (w_db u) j')"
  proof (induction n)
    case 0
    with assms show ?case by simp
  next
    case (Suc n)
    let ?u = "cleanup_runs lib now vs n w"
    from Suc obtain j' where u: "db_ok (w_db ?u)" "w_index ?u = w_index w"
        "other_cleanup_jobs (vc_id j) (w_db ?u) = other_cleanup_jobs (vc_id j) (w_db w)"
        "claim_next_pending_cleanup_job (\<lambda>_. False) (w_db ?u) = Some j'" "vc_id j' = vc_id j" "guarded (w_db ?u) j'"
      by (auto simp: Let_def)
    obtain r w' where "process_next_vector_cleanup_job lib (now n) (\<lambda>_. id) (\<lambda>_. False) vs ?u = (r, w')" by fastforce
    with guarded_run [OF u(1,4,6) this] u show ?case by (simp add: Let_def)
  qed
  then show ?thesis by (auto simp: Let_def)
qed

section \<open>Progress\<close>

definition cleanup_retryable :: "db \<Rightarrow> bool" where
  "cleanup_retryable d \<longleftrightarrow> (\<forall>j \<in> set (cleanup_jobs d). cleanup_eligible j \<longrightarrow>
     \<not> guarded d j \<and> - 2147483648 \<le> attempts j \<and> attempts j < 2147483647)"

text \<open>A run that deletes completes the oldest eligible job.\<close>

lemma completing_run:
  assumes ok: "db_ok (w_db w)" and rt: "cleanup_retryable (w_db w)"
    and claim: "claim_next_pending_cleanup_job (\<lambda>_. False) (w_db w) = Some j"
    and del: "vs_delete_by_document_id vs (vc_collection_name j) (vc_document_id j) (w_index w) = (Inr (), v)"
    and run: "process_next_vector_cleanup_job lib now (\<lambda>_. id) (\<lambda>_. False) vs w = (r, w')"
  shows "w_index w' = v \<and> w_db w' = update_cleanup_job (vc_id j) (\<lambda>_. cleanup_completed now j) (w_db w) \<and> db_ok (w_db w') \<and>
    (\<exists>res. r = Inr res \<and> cr_outcome res = CleanupCompleted)"
proof -
  let ?c = "cleanup_completed now j"
  note j = claim_cleanup_Some [OF claim]
  have ng: "\<not> guarded (w_db w) j" "- 2147483648 \<le> attempts j" "attempts j < 2147483647"
    using rt j by (auto simp: cleanup_retryable_def)
  have upd: "update_cleanup_job (vc_id j) (flush_cleanup j ?c) (w_db w) = update_cleanup_job (vc_id j) (\<lambda>_. ?c) (w_db w)"
    using cleanup_row_unique [OF ok] j
    by (auto simp: update_cleanup_job_def update_row_def intro!: db.equality) (metis flush_cleanup_same(2))
  have "fits cleanup_columns (cleanup_jobs (w_db w))"
    using ok by (simp add: db_ok_checks check_None)
  with j have "cleanup_columns j = None" by (simp add: fits_def)
  then have "cleanup_columns ?c = None"
    using ng by (auto simp: cleanup_columns_def cleanup_completed_def no_int4_def split: if_splits)
  then have dok: "db_ok (update_cleanup_job (vc_id j) (\<lambda>_. ?c) (w_db w))"
    using cleanup_row_unique [OF ok] j by (intro update_cleanup_job_ok [OF ok]) auto
  from run claim obtain s where "retry_cleanup_job lib now id vs j w = (s, w')"
      and s: "s = Inr True \<Longrightarrow> \<exists>res. r = Inr res \<and> cr_outcome res = CleanupCompleted"
    by (cases rule: process_cleanup_cases) auto
  from this(1) show ?thesis
  proof (cases rule: retry_cleanup_cases)
    case (deleted v')
    have "\<not> (\<exists>e. commit_or_rollback id j ?c True (w\<lparr>w_index := v\<rparr>) = (Inl e, w'))"
      using dok by (auto simp: commit_or_rollback_def commit_update_Inl upd db_ok_def)
    with deleted del dok upd s show ?thesis by (auto elim!: commit_or_rollback_cases)
  qed (use ng del in auto)
qed

lemma completed_jobs:
  assumes ok: "db_ok d" and j: "j \<in> set (cleanup_jobs d)" "cleanup_eligible j" and c: "\<not> cleanup_eligible c"
  shows "filter cleanup_eligible (cleanup_jobs (update_cleanup_job (vc_id j) (\<lambda>_. c) d)) =
    filter (\<lambda>k. cleanup_eligible k \<and> k \<noteq> j) (cleanup_jobs d)"
proof -
  have "filter cleanup_eligible (update_row vc_id (vc_id j) (\<lambda>_. c) rows) = filter (\<lambda>k. cleanup_eligible k \<and> k \<noteq> j) rows"
    if "set rows \<subseteq> set (cleanup_jobs d)" for rows
    using that
  proof (induction rows)
    case Nil
    then show ?case by simp
  next
    case (Cons k rows)
    then show ?case using cleanup_row_unique [OF ok _ j(1), of k] c by auto
  qed
  then show ?thesis by simp
qed

lemma cleanup_distinct: "db_ok d \<Longrightarrow> distinct (cleanup_jobs d)"
  by (simp add: db_ok_checks check_None distinct_map)

lemma filter_length_remove: "distinct xs \<Longrightarrow> x \<in> set xs \<Longrightarrow> P x \<Longrightarrow>
    length (filter (\<lambda>k. P k \<and> k \<noteq> x) xs) = length (filter P xs) - 1"
proof (induction xs)
  case Nil
  then show ?case by simp
next
  case (Cons y ys)
  show ?case
  proof (cases "y = x")
    case True
    with Cons.prems have "filter (\<lambda>k. P k \<and> k \<noteq> x) ys = filter P ys" by (intro filter_cong) auto
    with True Cons.prems show ?thesis by simp
  next
    case False
    with Cons have x: "x \<in> set ys" by simp
    with Cons.prems have "0 < length (filter P ys)" by (auto simp: filter_empty_conv)
    with False Cons.IH Cons.prems x show ?thesis by auto
  qed
qed

lemma completing_step:
  assumes vi: "vector_index vs stored sizes" and ok: "db_ok (w_db w)" and rt: "cleanup_retryable (w_db w)"
    and claim: "claim_next_pending_cleanup_job (\<lambda>_. False) (w_db w) = Some j"
    and del: "vs_delete_by_document_id vs (vc_collection_name j) (vc_document_id j) (w_index w) = (Inr (), v)"
    and run: "process_next_vector_cleanup_job lib now (\<lambda>_. id) (\<lambda>_. False) vs w = (r, w')"
  shows "db_ok (w_db w') \<and> w_index w' = v \<and> cleanup_retryable (w_db w') \<and>
    filter cleanup_eligible (cleanup_jobs (w_db w')) = filter (\<lambda>k. cleanup_eligible k \<and> k \<noteq> j) (cleanup_jobs (w_db w)) \<and>
    (\<forall>c doc. holds_document (stored v) c doc \<longrightarrow> holds_document (stored (w_index w)) c doc \<and>
       (c, doc) \<noteq> (vc_collection_name j, vc_document_id j))"
proof -
  note jj = claim_cleanup_Some [OF claim]
  note r = completing_run [OF ok rt claim del run]
  have fil: "filter cleanup_eligible (cleanup_jobs (w_db w')) = filter (\<lambda>k. cleanup_eligible k \<and> k \<noteq> j) (cleanup_jobs (w_db w))"
    using r completed_jobs [OF ok, of j "cleanup_completed now j"] jj by simp
  have "k \<in> set (cleanup_jobs (w_db w)) \<and> cleanup_eligible k" if "k \<in> set (cleanup_jobs (w_db w'))" "cleanup_eligible k" for k
    using that arg_cong [OF fil, of set] by auto
  moreover have "guarded (w_db w') = guarded (w_db w)"
    using r by (intro guarded_cong) simp
  ultimately have "cleanup_retryable (w_db w')"
    using rt by (auto simp: cleanup_retryable_def)
  moreover have "holds_document (stored (w_index w)) c doc \<and> (c, doc) \<noteq> (vc_collection_name j, vc_document_id j)"
    if "holds_document (stored v) c doc" for c doc
    using that vector_index.delete_shrinks [OF vi, of "vc_collection_name j" "vc_document_id j" "w_index w" c doc]
      vector_index.delete_gone [OF vi del] del by auto
  ultimately show ?thesis using r fil by auto
qed

text \<open>C28: When the vector store works and no eligible job is guarded, as many runs as there are eligible
  jobs complete them all, and no vector they were scheduled for is left.\<close>

theorem cleanup_drains:
  assumes vi: "vector_index vs stored sizes" and ok: "db_ok (w_db w)" and rt: "cleanup_retryable (w_db w)"
    and works: "\<And>s c doc. healthy s \<Longrightarrow> \<exists>v. vs_delete_by_document_id vs c doc s = (Inr (), v) \<and> healthy v"
    and healthy: "healthy (w_index w)" and n: "length (filter cleanup_eligible (cleanup_jobs (w_db w))) \<le> n"
  shows "get_pending_cleanup_jobs (w_db (cleanup_runs lib now vs n w)) None = [] \<and>
    (\<forall>j \<in> set (get_pending_cleanup_jobs (w_db w) None).
       \<not> holds_document (stored (w_index (cleanup_runs lib now vs n w))) (vc_collection_name j) (vc_document_id j))"
proof -
  have "let u = cleanup_runs lib now vs n w; left = filter cleanup_eligible (cleanup_jobs (w_db u)) in
      db_ok (w_db u) \<and> healthy (w_index u) \<and> cleanup_retryable (w_db u) \<and>
      length left = length (filter cleanup_eligible (cleanup_jobs (w_db w))) - n \<and>
      (\<forall>j \<in> set (filter cleanup_eligible (cleanup_jobs (w_db w))). j \<in> set left \<or>
         \<not> holds_document (stored (w_index u)) (vc_collection_name j) (vc_document_id j))" for n
  proof (induction n)
    case 0
    with ok rt healthy show ?case by simp
  next
    case (Suc n)
    let ?u = "cleanup_runs lib now vs n w"
    obtain r w' where run: "process_next_vector_cleanup_job lib (now n) (\<lambda>_. id) (\<lambda>_. False) vs ?u = (r, w')" by fastforce
    show ?case
    proof (cases "claim_next_pending_cleanup_job (\<lambda>_. False) (w_db ?u)")
      case None
      with run have "w' = ?u" by (cases rule: process_cleanup_cases) auto
      with run None Suc show ?thesis by (simp add: claim_none Let_def)
    next
      case (Some j)
      note jj = claim_cleanup_Some [OF Some]
      obtain v where v: "vs_delete_by_document_id vs (vc_collection_name j) (vc_document_id j) (w_index ?u) = (Inr (), v)"
          "healthy v"
        using works [of "w_index ?u" "vc_collection_name j" "vc_document_id j"] Suc unfolding Let_def by blast
      have u: "db_ok (w_db ?u)" "cleanup_retryable (w_db ?u)" using Suc by (simp_all add: Let_def)
      note st = completing_step [OF vi u Some v(1) run]
      have "length (filter cleanup_eligible (cleanup_jobs (w_db w'))) = length (filter cleanup_eligible (cleanup_jobs (w_db ?u))) - 1"
        using st filter_length_remove [OF cleanup_distinct [OF u(1)], of j cleanup_eligible] jj by simp
      moreover have "k \<in> set (filter cleanup_eligible (cleanup_jobs (w_db w'))) \<or>
          (vc_collection_name k, vc_document_id k) = (vc_collection_name j, vc_document_id j)"
        if "k \<in> set (filter cleanup_eligible (cleanup_jobs (w_db ?u)))" for k
        using st that by auto
      ultimately show ?thesis
        using st Suc run v unfolding Let_def cleanup_runs.simps by fastforce
    qed
  qed
  from this [of n] n show ?thesis
    by (auto simp: Let_def get_pending_cleanup_jobs_def cleanup_eligible_def filter_empty_conv)
qed

section \<open>Deleting all tracked vectors\<close>

lemma append_new_set: "set (append_new acc cs) = set acc \<union> set cs"
  by (induction acc cs rule: append_new.induct) auto

lemma append_new_distinct: "distinct acc \<Longrightarrow> distinct (append_new acc cs)"
  by (induction acc cs rule: append_new.induct) auto

lemma delete_from_collections_spec:
  assumes vi: "vector_index vs stored sizes" and "distinct cs"
    and "delete_from_collections lib vs doc cs v = (rs, v')"
  shows "map cd_collection_name rs = cs \<and>
    (\<forall>c. c \<notin> set cs \<longrightarrow> (\<forall>doc'. holds_document (stored v') c doc' = holds_document (stored v) c doc')) \<and>
    (\<forall>c doc'. doc' \<noteq> doc \<longrightarrow> holds_document (stored v') c doc' = holds_document (stored v) c doc') \<and>
    (\<forall>r \<in> set rs. cd_succeeded r \<longrightarrow> \<not> holds_document (stored v') (cd_collection_name r) doc)"
  using assms(2,3)
proof (induction cs arbitrary: v rs v')
  case Nil
  then show ?case by simp
next
  case (Cons c cs)
  obtain a v1 where a: "vs_delete_by_document_id vs c doc v = (a, v1)" by fastforce
  obtain rs1 where rs1: "delete_from_collections lib vs doc cs v1 = (rs1, v')"
      "rs = \<lparr>cd_collection_name = c, cd_succeeded = (\<exists>u. a = Inr u),
        cd_error = (case a of Inl e \<Rightarrow> Some (str_exn lib e) | Inr _ \<Rightarrow> None)\<rparr> # rs1"
    using Cons.prems a by (auto split: sum.splits prod.splits)
  note IH = Cons.IH [OF _ rs1(1)]
  have oth: "holds_document (stored v1) c' doc' = holds_document (stored v) c' doc'" if "c' \<noteq> c \<or> doc' \<noteq> doc" for c' doc'
    using vector_index.delete_other [OF vi that, of v] a by simp
  have gone: "a = Inr u \<Longrightarrow> \<not> holds_document (stored v1) c doc" for u
    using vector_index.delete_gone [OF vi, of c doc v u v1] a by simp
  show ?case
    using IH Cons.prems(1) oth gone rs1(2) by auto
qed

lemma tracked_gone:
  assumes "vector_index vs stored sizes" and "delete_all_tracked_document_vectors lib vs doc d v = (res, v')" and "fully_deleted res"
  shows "\<forall>c \<in> set (collections_to_attempt doc d). \<not> holds_document (stored v') c (doc_id doc)"
proof -
  obtain rs where rs: "delete_from_collections lib vs (doc_id doc) (collections_to_attempt doc d) v = (rs, v')" "collection_results res = rs"
    using assms(2) by (auto simp: delete_all_tracked_document_vectors_def Let_def split: prod.splits)
  have "distinct (collections_to_attempt doc d)"
    by (simp add: collections_to_attempt_def append_new_distinct split: option.split)
  from delete_from_collections_spec [OF assms(1) this rs(1)] assms(3) rs(2) set_map [of cd_collection_name rs] show ?thesis
    by (fastforce simp: fully_deleted_def)
qed

text \<open>Deleting all tracked vectors of a document never stops early: it attempts its current collection,
  those of its unfinished cleanup jobs and the targets of its completed re-index jobs, each exactly once,
  reports each attempt, and leaves every other document's and every other collection's vectors; when
  it reports full deletion, none of these collections holds a vector of the document.\<close>

theorem delete_all_tracked_spec:
  assumes vi: "vector_index vs stored sizes"
    and run: "delete_all_tracked_document_vectors lib vs doc d v = (res, v')"
  shows "distinct (attempted_collections res) \<and> map cd_collection_name (collection_results res) = attempted_collections res \<and>
    set (attempted_collections res) = set_option (collection_name doc) \<union>
      {vc_collection_name j |j. j \<in> set (cleanup_jobs d) \<and> vc_document_id j = doc_id doc \<and> vc_status j \<noteq> VcCompleted} \<union>
      {target_collection_name j |j. j \<in> set (reindex_jobs d) \<and> rix_document_id j = doc_id doc \<and> rix_status j = RixCompleted} \<and>
    (\<forall>c i. c \<notin> set (attempted_collections res) \<or> i \<noteq> doc_id doc \<longrightarrow>
       holds_document (stored v') c i = holds_document (stored v) c i) \<and>
    (fully_deleted res \<longrightarrow> (\<forall>c \<in> set (attempted_collections res). \<not> holds_document (stored v') c (doc_id doc)))"
proof -
  let ?cs = "collections_to_attempt doc d"
  obtain rs where rs: "delete_from_collections lib vs (doc_id doc) ?cs v = (rs, v')"
      "res = \<lparr>vdr_document_id = doc_id doc, attempted_collections = ?cs, collection_results = rs\<rparr>"
    using run by (auto simp: delete_all_tracked_document_vectors_def Let_def split: prod.splits)
  have dist: "distinct ?cs"
    by (simp add: collections_to_attempt_def append_new_distinct split: option.split)
  have st: "vc_status j \<noteq> VcCompleted \<longleftrightarrow> vc_status j = VcPending \<or> vc_status j = VcFailed" for j
    by (cases "vc_status j") auto
  have "set ?cs = set_option (collection_name doc) \<union>
      {vc_collection_name j |j. j \<in> set (cleanup_jobs d) \<and> vc_document_id j = doc_id doc \<and> vc_status j \<noteq> VcCompleted} \<union>
      {target_collection_name j |j. j \<in> set (reindex_jobs d) \<and> rix_document_id j = doc_id doc \<and> rix_status j = RixCompleted}"
    by (auto simp: collections_to_attempt_def append_new_set get_pending_cleanup_jobs_def
        get_completed_reindex_target_collections_def st split: option.splits)
  with delete_from_collections_spec [OF vi dist rs(1)] tracked_gone [OF vi run] dist rs(2) show ?thesis
    by simp
qed

section \<open>Concrete runs\<close>

text \<open>Two collections, one document served from the given one, and the given cleanup jobs.\<close>

definition sample_collection :: "ustr \<Rightarrow> index_collection" where
  "sample_collection c =
     \<lparr>ic_collection_name = c, ic_embedding_provider = uni ''ollama'', ic_embedding_model = uni ''bge-m3'',
      ic_embedding_dimension = 1, ic_embedding_version = uni ''v2'', ic_chunking_version = uni ''v1'',
      ic_status = IcActive, ic_created_at = 0\<rparr>"

definition served_document :: "ustr \<Rightarrow> document" where
  "served_document c = (sample_document (uni ''d1''))\<lparr>collection_name := Some c\<rparr>"

definition serving_db :: "ustr \<Rightarrow> cleanup_job list \<Rightarrow> db" where
  "serving_db c js = sample_db\<lparr>index_collections := [sample_collection (uni ''A''), sample_collection (uni ''B'')],
     documents := [served_document c], cleanup_jobs := js\<rparr>"

definition sample_point :: "ustr \<Rightarrow> vector_point" where
  "sample_point i = \<lparr>vp_id = i, vp_vector = [1], vp_document_id = uni ''d1'', vp_chunk_id = i, vp_text = uni ''text'',
     vp_source = uni ''report.txt'', vp_page_number = None, vp_sheet_name = None\<rparr>"

definition two_collections :: mem_index where
  "two_collections = \<lparr>mi_points = (\<lambda>c. [uni ''p'' \<mapsto> sample_point (uni ''p'')]),
     mi_sizes = [uni ''A'' \<mapsto> 1, uni ''B'' \<mapsto> 1], mi_failures = []\<rparr>"

definition cleanup_world :: "ustr \<Rightarrow> cleanup_job list \<Rightarrow> (unit, unit, mem_index) world" where
  "cleanup_world c js = \<lparr>w_files = (), w_embedder = (), w_index = two_collections, w_db = serving_db c js\<rparr>"

lemma cleanup_world_simps [simp]: "w_index (cleanup_world c js) = two_collections" "w_db (cleanup_world c js) = serving_db c js"
  by (simp_all add: cleanup_world_def)

lemma serving_db_simps [simp]:
  "documents (serving_db c js) = [served_document c]" "cleanup_jobs (serving_db c js) = js"
  "index_collections (serving_db c js) = [sample_collection (uni ''A''), sample_collection (uni ''B'')]"
  "ingestion_jobs (serving_db c js) = []" "deletion_jobs (serving_db c js) = []" "reindex_jobs (serving_db c js) = []"
  "doc_id (served_document c) = uni ''d1''" "collection_name (served_document c) = Some c"
  "ic_collection_name (sample_collection x) = x"
  by (simp_all add: serving_db_def sample_db_def empty_db_def served_document_def sample_document_def sample_collection_def)

lemma serving_document [simp]: "get_document (serving_db c js) (uni ''d1'') = Some (served_document c)"
  by (simp add: get_document_def)

lemma two_collections_simps [simp]: "mi_failures two_collections = []"
  "mi_sizes two_collections (uni ''A'') = Some 1" "mi_sizes two_collections (uni ''B'') = Some 1"
  by (simp_all add: two_collections_def)

lemma serving_db_ok:
  assumes "c = uni ''A'' \<or> c = uni ''B''" and "fits cleanup_columns js" and "distinct (map vc_id js)"
    and "\<forall>j \<in> set js. vc_document_id j = uni ''d1''"
  shows "db_ok (serving_db c js)"
proof -
  have "document_columns (served_document c) = None"
    using assms(1) sample_db_valid
    by (auto simp: db_ok_checks check_None sample_db_def document_columns_def served_document_def too_long_opt_def sample_document_def
        too_long_def no_int4_def no_int4_opt_def)
  then show ?thesis
    using assms by (auto simp: db_ok_checks check_None map_filter_simps index_collection_columns_def sample_collection_def
        too_long_def no_int4_def fits_def split: option.split)
qed

lemma sample_cleanup_columns: "cleanup_columns (new_cleanup_job (uni i) (uni ''d1'') (uni c) None t) = None \<longleftrightarrow>
    length i \<le> 36 \<and> length c \<le> 255"
  by (auto simp: cleanup_columns_def new_cleanup_job_def too_long_def no_int4_def)

lemma new_cleanup_job_simps [simp]:
  "vc_id (new_cleanup_job i doc c None t) = i" "vc_document_id (new_cleanup_job i doc c None t) = doc"
  "vc_collection_name (new_cleanup_job i doc c None t) = c" "vc_created_at (new_cleanup_job i doc c None t) = t"
  "cleanup_eligible (new_cleanup_job i doc c None t)" "attempts (new_cleanup_job i doc c None t) = 0"
  "vc_status (new_cleanup_job i doc c None t) = VcPending"
  by (simp_all add: new_cleanup_job_def cleanup_eligible_def)

abbreviation mem_store :: "mem_index vector_store" where
  "mem_store \<equiv> qdrant_vector_store mem_qdrant"

abbreviation job_a :: cleanup_job where
  "job_a \<equiv> new_cleanup_job (uni ''c1'') (uni ''d1'') (uni ''A'') None 1"

abbreviation job_b :: cleanup_job where
  "job_b \<equiv> new_cleanup_job (uni ''c2'') (uni ''d1'') (uni ''B'') None 2"

lemma two_jobs_ok: "c = uni ''A'' \<or> c = uni ''B'' \<Longrightarrow> db_ok (serving_db c [job_a, job_b])"
  "c = uni ''A'' \<or> c = uni ''B'' \<Longrightarrow> db_ok (serving_db c [job_a])"
  by (rule serving_db_ok; simp add: fits_def sample_cleanup_columns)+

lemma two_jobs_claim: "claim_next_pending_cleanup_job (\<lambda>_. False) (serving_db c [job_a, job_b]) = Some job_a"
  "claim_next_pending_cleanup_job (\<lambda>_. False) (serving_db c [job_a]) = Some job_a"
  by (simp_all add: claim_cleanup row_key_def)

lemma mem_delete_works: "mi_failures s = [] \<Longrightarrow>
    \<exists>v. vs_delete_by_document_id mem_store c doc s = (Inr (), v) \<and> mi_failures v = []"
  by (cases "mi_sizes s c") (auto simp: mem_runs)

text \<open>The document is served from B: the job for A is completed and deletes the point in A only.\<close>

theorem cleanup_touches_only_its_job_witness:
  "\<exists>w'. snd (process_next_vector_cleanup_job (\<lambda>_. []) 9 (\<lambda>_. id) (\<lambda>_. False) mem_store (cleanup_world (uni ''B'') [job_a])) = w' \<and>
     holds_document (mem_stored two_collections) (uni ''A'') (uni ''d1'') \<and>
     \<not> holds_document (mem_stored (w_index w')) (uni ''A'') (uni ''d1'') \<and>
     holds_document (mem_stored (w_index w')) (uni ''B'') (uni ''d1'')"
proof -
  let ?w = "cleanup_world (uni ''B'') [job_a]"
  obtain r w' where run: "process_next_vector_cleanup_job (\<lambda>_. []) 9 (\<lambda>_. id) (\<lambda>_. False) mem_store ?w = (r, w')" by fastforce
  have h: "holds_document (mem_stored two_collections) c (uni ''d1'')" if "c = uni ''A'' \<or> c = uni ''B''" for c
    using that by (intro holds_document_def [THEN iffD2] exI [of _ "uni ''p''"] exI [of _ "sample_point (uni ''p'')"])
      (auto simp: mem_stored_def two_collections_def sample_point_def)
  have rt: "cleanup_retryable (w_db ?w)" and ng: "\<not> guarded (w_db ?w) job_a"
    by (simp_all add: cleanup_retryable_def guarded_def)
  have "vs_delete_by_document_id mem_store (uni ''A'') (uni ''d1'') two_collections =
      (Inr (), two_collections\<lparr>mi_points := remove_document (uni ''A'') (uni ''d1'') (mi_points two_collections)\<rparr>)"
    by (simp add: mem_runs)
  with completing_run [OF _ rt _ _ run, of job_a] two_jobs_ok(2) [of "uni ''B''"] two_jobs_claim(2)
  obtain res where res: "r = Inr res" "cr_outcome res = CleanupCompleted" by auto
  have "vc_collection_name job_a = uni ''A''" "vc_document_id job_a = uni ''d1''" by simp_all
  with cleanup_touches_only_its_job [OF mem.index.vector_index_axioms run, of job_a] res h two_jobs_claim(2) run
  show ?thesis by auto
qed

theorem cleanup_starvation_witness:
  "w_index (cleanup_runs (\<lambda>_. []) int mem_store 7 (cleanup_world (uni ''A'') [job_a, job_b])) = two_collections \<and>
   other_cleanup_jobs (uni ''c1'') (w_db (cleanup_runs (\<lambda>_. []) int mem_store 7 (cleanup_world (uni ''A'') [job_a, job_b]))) = [job_b]"
proof -
  let ?w = "cleanup_world (uni ''A'') [job_a, job_b]"
  have "guarded (w_db ?w) job_a"
    by (simp add: guarded_def)
  moreover have "db_ok (w_db ?w)" and "claim_next_pending_cleanup_job (\<lambda>_. False) (w_db ?w) = Some job_a"
    using two_jobs_ok(1) two_jobs_claim(1) by simp_all
  ultimately show ?thesis
    using cleanup_starvation [of ?w job_a "\<lambda>_. []" int mem_store 7] by (simp add: other_cleanup_jobs_def)
qed

theorem cleanup_drains_witness:
  "get_pending_cleanup_jobs (w_db (cleanup_runs (\<lambda>_. []) int mem_store 1 (cleanup_world (uni ''B'') [job_a]))) None = []"
proof -
  let ?w = "cleanup_world (uni ''B'') [job_a]"
  have "cleanup_retryable (w_db ?w)"
    by (simp add: cleanup_retryable_def guarded_def)
  moreover have "db_ok (w_db ?w)"
    using two_jobs_ok(2) by simp
  ultimately show ?thesis
    using cleanup_drains [OF mem.index.vector_index_axioms, of ?w "\<lambda>s. mi_failures s = []" 1 "\<lambda>_. []" int] mem_delete_works
    by simp
qed

theorem delete_all_tracked_spec_witness:
  "\<exists>res v'. delete_all_tracked_document_vectors (\<lambda>_. []) mem_store (served_document (uni ''B'')) (serving_db (uni ''B'') [job_a])
      two_collections = (res, v') \<and> set (attempted_collections res) = {uni ''A'', uni ''B''}"
proof -
  obtain res v' where run: "delete_all_tracked_document_vectors (\<lambda>_. []) mem_store (served_document (uni ''B''))
      (serving_db (uni ''B'') [job_a]) two_collections = (res, v')" by fastforce
  from delete_all_tracked_spec [OF mem.index.vector_index_axioms this] have
    "set (attempted_collections res) = {uni ''A'', uni ''B''}" by auto
  with run show ?thesis by blast
qed

end
