(* ===== verification/Providers.thy ===== *)
theory Providers
  imports Qdrant Embedding_Config
begin

text \<open>
  The embedding provider (\<open>app/rag/providers/ollama_embedding_provider.py\<close>) and the selection of
  providers by settings (\<open>app/rag/providers/provider_factory.py\<close>).  An embedding provider is a call
  from texts to vectors; the HTTP client is the parameter of the Qdrant adapter's kind.
\<close>

type_synonym 'e embedder = "ustr list \<Rightarrow> ('e, exn, embedding list) call"

section \<open>Ollama embeddings\<close>

record 'e ollama =
  ol_http :: "'e http"
  ol_pause :: "rat \<Rightarrow> 'e \<Rightarrow> 'e"
  ol_status_text :: "nat \<Rightarrow> ustr"
  ol_settings :: settings

definition provider_policy :: "settings \<Rightarrow> retry_policy" where
  "provider_policy s =
     \<lparr>max_attempts = provider_retry_max_attempts s, base_delay = provider_retry_base_delay_seconds s,
      max_delay = provider_retry_max_delay_seconds s\<rparr>"

definition embed_body :: "settings \<Rightarrow> ustr \<Rightarrow> json" where
  "embed_body s txt = JObj [(uni ''model'', JStr (ollama_embedding_model s)), (uni ''prompt'', JStr txt)]"

text \<open>\<open>raise_for_status\<close> raises on every status outside 2xx.\<close>

definition embed_call :: "'e ollama \<Rightarrow> ustr \<Rightarrow> ('e, raw_exn, http_response) call" where
  "embed_call ol txt s =
     (case ol_http ol POST (uni ''/api/embeddings'') [] (Some (embed_body (ol_settings ol) txt)) s of
        (Inl e, s') \<Rightarrow> (Inl e, s')
      | (Inr r, s') \<Rightarrow>
          if is_success r then (Inr r, s')
          else (Inl (HTTPStatusError (status_code r) (ol_status_text ol (status_code r))), s'))"

definition malformed_embedding :: exn where
  "malformed_embedding = OllamaEmbeddingError (uni ''Malformed embedding response from Ollama'')"

text \<open>\<open>isinstance(v, int | float)\<close> holds of a boolean as well.\<close>

definition json_number :: "json \<Rightarrow> rat option" where
  "json_number j = (case j of JInt n \<Rightarrow> Some (of_int n) | JNum r \<Rightarrow> Some r
     | JBool b \<Rightarrow> Some (if b then 1 else 0) | _ \<Rightarrow> None)"

definition parse_embedding :: "http_response \<Rightarrow> exn + embedding" where
  "parse_embedding r =
     (case json_path (body r) [''embedding''] of
        Some (JList vs) \<Rightarrow>
          if \<forall>v \<in> set vs. json_number v \<noteq> None then Inr (map (the \<circ> json_number) vs)
          else Inl malformed_embedding
      | _ \<Rightarrow> Inl malformed_embedding)"

definition embed_text :: "'e ollama \<Rightarrow> ustr \<Rightarrow> ('e, exn, embedding) call" where
  "embed_text ol txt s =
     (if txt = [] \<or> py_strip txt = [] then (Inl (ValueError (uni ''text must not be empty'')), s)
      else (case retry_async (provider_policy (ol_settings ol)) (ol_pause ol) is_transient_httpx_error
                   (embed_call ol txt) s of
          (Inl (HTTPStatusError n m), s') \<Rightarrow>
            (Inl (OllamaEmbeddingError (uni ''Ollama returned '' @ dec n @ uni '' for /api/embeddings'')), s')
        | (Inl (HTTPError m), s') \<Rightarrow>
            (Inl (OllamaEmbeddingError (uni ''Ollama unreachable at /api/embeddings: '' @ m)), s')
        | (Inl e, s') \<Rightarrow> (Inl (raw_to_exn e), s')
        | (Inr r, s') \<Rightarrow> (parse_embedding r, s')))"

fun embed_texts :: "'e ollama \<Rightarrow> 'e embedder" where
  "embed_texts ol [] s = (Inr [], s)"
| "embed_texts ol (t # ts) s =
     (case embed_text ol t s of
        (Inl e, s1) \<Rightarrow> (Inl e, s1)
      | (Inr v, s1) \<Rightarrow>
          (case embed_texts ol ts s1 of
             (Inl e, s2) \<Rightarrow> (Inl e, s2)
           | (Inr vs, s2) \<Rightarrow> (Inr (v # vs), s2)))"

section \<open>Choosing a provider\<close>

definition get_embedding_provider :: "(settings \<Rightarrow> 'p) \<Rightarrow> settings \<Rightarrow> exn + 'p" where
  "get_embedding_provider ollama_provider s =
     (if set_embedding_provider s = uni ''ollama'' then Inr (ollama_provider s)
      else Inl (UnsupportedProviderError (uni ''Unsupported EMBEDDING_PROVIDER: '' @
        py_repr (set_embedding_provider s) @ uni ''. Supported providers: '' @ py_repr (uni ''ollama'') @ uni ''.'')))"

definition get_vector_store :: "(settings \<Rightarrow> 'p) \<Rightarrow> settings \<Rightarrow> exn + 'p" where
  "get_vector_store qdrant_store s =
     (if vector_store_provider s = uni ''qdrant'' then Inr (qdrant_store s)
      else Inl (UnsupportedProviderError (uni ''Unsupported VECTOR_STORE_PROVIDER: '' @
        py_repr (vector_store_provider s) @ uni ''. Supported providers: '' @ py_repr (uni ''qdrant'') @ uni ''.'')))"

section \<open>Properties\<close>

lemma embed_texts_length: "embed_texts ol ts s = (Inr vs, s') \<Longrightarrow> length vs = length ts"
  by (induction ts arbitrary: s vs s') (auto split: prod.splits sum.splits)

lemma embed_text_model:
  "embed_text (ol\<lparr>ol_settings := s\<lparr>set_embedding_model := m\<rparr>\<rparr>) = embed_text (ol\<lparr>ol_settings := s\<rparr>)"
proof -
  have "embed_call (ol\<lparr>ol_settings := s\<lparr>set_embedding_model := m\<rparr>\<rparr>) = embed_call (ol\<lparr>ol_settings := s\<rparr>)"
    by (intro ext) (simp add: embed_call_def embed_body_def split: prod.split sum.split)
  then show ?thesis
    by (intro ext) (simp add: embed_text_def provider_policy_def)
qed

lemma embed_texts_model:
  "embed_texts (ol\<lparr>ol_settings := s\<lparr>set_embedding_model := m\<rparr>\<rparr>) ts st = embed_texts (ol\<lparr>ol_settings := s\<rparr>) ts st"
  by (induction ts arbitrary: st) (simp_all add: embed_text_model cong: prod.case_cong sum.case_cong)

text \<open>Setting \<open>EMBEDDING_MODEL\<close> changes the model the active configuration names, and with it the
  collection the vectors go to, but not the vectors: every request to Ollama names
  \<open>OLLAMA_EMBEDDING_MODEL\<close>, so a collection named after one model is filled with another one's vectors.\<close>

theorem embedding_model_override_ignored:
  assumes "set_embedding_model s = Some m" and "m \<noteq> []" and "get_active_embedding_config s = Inr c"
  shows "cfg_model c = m \<and>
    embed_texts (ol\<lparr>ol_settings := s\<rparr>) ts st = embed_texts (ol\<lparr>ol_settings := s\<lparr>set_embedding_model := None\<rparr>\<rparr>) ts st \<and>
    json_path (Some (embed_body s txt)) [''model''] = Some (JStr (ollama_embedding_model s))"
proof (intro conjI)
  show "cfg_model c = m"
    using assms by (auto simp: get_active_embedding_config_def post_init_def resolved_embedding_model_def
        or_default_def split: if_splits)
  show "embed_texts (ol\<lparr>ol_settings := s\<rparr>) ts st = embed_texts (ol\<lparr>ol_settings := s\<lparr>set_embedding_model := None\<rparr>\<rparr>) ts st"
    by (simp add: embed_texts_model)
  show "json_path (Some (embed_body s txt)) [''model''] = Some (JStr (ollama_embedding_model s))"
    by (simp add: embed_body_def json_path_def json_get_def)
qed

text \<open>The configuration the documentation gives for \<open>nomic-embed-text\<close>.\<close>

definition nomic_settings :: settings where
  "nomic_settings = default_settings\<lparr>set_embedding_model := Some (uni ''nomic-embed-text''), vector_size := 768,
     set_embedding_version := uni ''v1''\<rparr>"

definition silent_ollama :: "unit ollama" where
  "silent_ollama = \<lparr>ol_http = (\<lambda>m u p b s. (Inr (response 200 JNull), s)), ol_pause = (\<lambda>_ s. s),
     ol_status_text = (\<lambda>_. []), ol_settings = default_settings\<rparr>"

theorem embedding_model_override_ignored_witness:
  "\<exists>c. get_active_embedding_config nomic_settings = Inr c \<and> cfg_model c = uni ''nomic-embed-text'' \<and>
    json_path (Some (embed_body nomic_settings (uni ''x''))) [''model''] = Some (JStr (uni ''bge-m3''))"
proof -
  have "\<exists>c. get_active_embedding_config nomic_settings = Inr c"
    by (simp add: get_active_embedding_config_def post_init_def resolved_embedding_model_def or_default_def
        nomic_settings_def default_settings_def py_strip_eq_Nil uni_def py_space_def)
  then obtain c where c: "get_active_embedding_config nomic_settings = Inr c" by blast
  have "set_embedding_model nomic_settings = Some (uni ''nomic-embed-text'')" and
      "ollama_embedding_model nomic_settings = uni ''bge-m3''"
    by (simp_all add: nomic_settings_def default_settings_def)
  with embedding_model_override_ignored [of nomic_settings "uni ''nomic-embed-text''" c silent_ollama "[]" "()" "uni ''x''"] c
  show ?thesis by auto
qed

end
