(* ===== verification/Local_Storage.thy ===== *)
theory Local_Storage
  imports Storage
begin

text \<open>
  \<open>LocalFileStorage\<close> (\<open>app/storage/local_storage.py\<close>) over a file system without symbolic links.  A
  path is the list of its components from the file system's root; \<open>os_faults\<close> says, call by call,
  whether the operating system fails before it does anything or after it wrote some of the bytes.
  The provider is shown to satisfy the contract \<open>file_store\<close> under every sequence of faults.
\<close>

section \<open>The file system\<close>

datatype os_fault = NoFault | FaultBefore | FaultAfter nat

datatype entry = Directory | File bytes time

record local_fs =
  entries :: "ustr list \<rightharpoonup> entry"
  os_faults :: "os_fault list"
  os_clock :: time

definition next_fault :: "local_fs \<Rightarrow> os_fault \<times> local_fs" where
  "next_fault s = (case os_faults s of [] \<Rightarrow> (NoFault, s) | f # fs \<Rightarrow> (f, s\<lparr>os_faults := fs\<rparr>))"

definition is_file :: "entry option \<Rightarrow> bool" where
  "is_file e \<longleftrightarrow> (case e of Some (File b t) \<Rightarrow> True | _ \<Rightarrow> False)"

definition strict_prefixes :: "ustr list \<Rightarrow> ustr list list" where
  "strict_prefixes p = map (\<lambda>n. take n p) [0..<length p]"

text \<open>\<open>path.parent.mkdir(parents=True, exist_ok=True)\<close>: fails when an ancestor is a file.\<close>

definition mkdir_parents :: "ustr list \<Rightarrow> (ustr list \<rightharpoonup> entry) \<Rightarrow> (ustr list \<rightharpoonup> entry) option" where
  "mkdir_parents p es =
     (if \<exists>q \<in> set (strict_prefixes p). is_file (es q) then None
      else Some (foldl (\<lambda>m q. m(q \<mapsto> Directory)) es (strict_prefixes p)))"

text \<open>\<open>path.exists()\<close>: a path below a file does not exist.\<close>

definition path_exists :: "ustr list \<Rightarrow> (ustr list \<rightharpoonup> entry) \<Rightarrow> bool" where
  "path_exists p es \<longleftrightarrow> es p \<noteq> None"

section \<open>The provider\<close>

definition resolve :: "ustr list \<Rightarrow> ustr \<Rightarrow> exn + ustr list" where
  "resolve base key =
     (case validate_object_key key of
        Inl e \<Rightarrow> Inl (StorageErr e)
      | Inr _ \<Rightarrow>
          if 0 \<in> set key then Inl (ValueError (uni ''embedded null byte''))
          else let resolved = base @ path_parts key in
            if prefix base resolved then Inr resolved
            else Inl (StorageErr (StorageKeyError
              (uni ''Object key escapes the configured storage root: '' @ py_repr key))))"

text \<open>\<open>_write_bytes\<close>: \<open>None\<close> stands for an \<open>OSError\<close>.\<close>

definition write_bytes :: "ustr list \<Rightarrow> bytes \<Rightarrow> local_fs \<Rightarrow> unit option \<times> local_fs" where
  "write_bytes p b s =
     (case next_fault s of (f, s1) \<Rightarrow>
        if f = FaultBefore then (None, s1)
        else (case mkdir_parents p (entries s1) of
            None \<Rightarrow> (None, s1)
          | Some es \<Rightarrow>
              if es p = Some Directory then (None, s1\<lparr>entries := es\<rparr>)
              else (case f of
                  FaultAfter n \<Rightarrow> (None, s1\<lparr>entries := es(p \<mapsto> File (take n b) (os_clock s1))\<rparr>)
                | _ \<Rightarrow> (Some (), s1\<lparr>entries := es(p \<mapsto> File b (os_clock s1))\<rparr>))))"

definition local_save :: "ustr list \<Rightarrow> ustr \<Rightarrow> bytes \<Rightarrow> ustr option \<Rightarrow> (ustr \<times> ustr) list \<Rightarrow>
    (local_fs, exn, stored_file) call" where
  "local_save base key b ct md s =
     (case resolve base key of
        Inl e \<Rightarrow> (Inl e, s)
      | Inr path \<Rightarrow> (case write_bytes path b s of
            (None, s') \<Rightarrow>
              (Inl (StorageErr (StorageWriteError (uni ''Failed to write object at key '' @ py_repr key))), s')
          | (Some _, s') \<Rightarrow>
              (Inr \<lparr>sf_key = key, sf_size_bytes = int (length b), sf_content_type = ct,
                    sf_etag = None, sf_metadata = md\<rparr>, s')))"

text \<open>\<open>path.exists()\<close> is called outside the \<open>try\<close> in \<open>read\<close>, \<open>get_metadata\<close> and
  \<open>generate_download_url\<close>: a failing check escapes as the \<open>OSError\<close> it is.\<close>

definition checked_exists :: "ustr list \<Rightarrow> local_fs \<Rightarrow> bool option \<times> local_fs" where
  "checked_exists p s =
     (case next_fault s of (f, s1) \<Rightarrow>
        (if f = NoFault then Some (path_exists p (entries s1)) else None, s1))"

definition os_error :: exn where
  "os_error = LibraryError (uni ''OSError'')"

definition not_found :: "ustr \<Rightarrow> exn" where
  "not_found key = StorageErr (StorageObjectNotFoundError (uni ''No object found at key '' @ py_repr key))"

definition local_read :: "ustr list \<Rightarrow> ustr \<Rightarrow> (local_fs, exn, bytes) call" where
  "local_read base key s =
     (case resolve base key of
        Inl e \<Rightarrow> (Inl e, s)
      | Inr path \<Rightarrow> (case checked_exists path s of
            (None, s1) \<Rightarrow> (Inl os_error, s1)
          | (Some False, s1) \<Rightarrow> (Inl (not_found key), s1)
          | (Some True, s1) \<Rightarrow> (case next_fault s1 of (f, s2) \<Rightarrow>
              (case entries s2 path of
                 Some (File b t) \<Rightarrow>
                   if f = NoFault then (Inr b, s2)
                   else (Inl (StorageErr (StorageReadError
                     (uni ''Failed to read object at key '' @ py_repr key))), s2)
               | _ \<Rightarrow> (Inl (StorageErr (StorageReadError
                     (uni ''Failed to read object at key '' @ py_repr key))), s2)))))"

text \<open>\<open>unlink(missing_ok=True)\<close> fails on a directory and on a path that goes through a file.\<close>

definition local_delete :: "ustr list \<Rightarrow> ustr \<Rightarrow> (local_fs, exn, unit) call" where
  "local_delete base key s =
     (case resolve base key of
        Inl e \<Rightarrow> (Inl e, s)
      | Inr path \<Rightarrow> (case next_fault s of (f, s1) \<Rightarrow>
            if f \<noteq> NoFault \<or> entries s1 path = Some Directory \<or>
               (\<exists>q \<in> set (strict_prefixes path). is_file (entries s1 q))
            then (Inl (StorageErr (StorageDeleteError
                   (uni ''Failed to delete object at key '' @ py_repr key))), s1)
            else (Inr (), s1\<lparr>entries := (entries s1)(path := None)\<rparr>)))"

definition local_exists :: "ustr list \<Rightarrow> ustr \<Rightarrow> (local_fs, exn, bool) call" where
  "local_exists base key s =
     (case resolve base key of
        Inl e \<Rightarrow> (Inl e, s)
      | Inr path \<Rightarrow> (case checked_exists path s of
            (None, s1) \<Rightarrow>
              (Inl (StorageErr (StorageMetadataError
                 (uni ''Failed to check existence of key '' @ py_repr key))), s1)
          | (Some b, s1) \<Rightarrow> (Inr b, s1)))"

definition local_get_metadata :: "(ustr list \<Rightarrow> int) \<Rightarrow> ustr list \<Rightarrow> ustr \<Rightarrow> (local_fs, exn, file_metadata) call"
  where
  "local_get_metadata directory_size base key s =
     (case resolve base key of
        Inl e \<Rightarrow> (Inl e, s)
      | Inr path \<Rightarrow> (case checked_exists path s of
            (None, s1) \<Rightarrow> (Inl os_error, s1)
          | (Some False, s1) \<Rightarrow> (Inl (not_found key), s1)
          | (Some True, s1) \<Rightarrow> (case next_fault s1 of (f, s2) \<Rightarrow>
              if f \<noteq> NoFault then
                (Inl (StorageErr (StorageMetadataError
                   (uni ''Failed to stat object at key '' @ py_repr key))), s2)
              else
                let (sz, mtime) = (case entries s2 path of
                       Some (File b t) \<Rightarrow> (int (length b), t)
                     | _ \<Rightarrow> (directory_size path, os_clock s2))
                in (Inr \<lparr>fm_key = key, fm_size_bytes = sz, fm_content_type = None, fm_etag = None,
                         fm_last_modified = Some mtime, fm_metadata = []\<rparr>, s2))))"

text \<open>\<open>as_uri\<close> percent-encodes the components; a resolved path is absolute, so it never raises.\<close>

definition local_generate_download_url :: "(ustr list \<Rightarrow> ustr) \<Rightarrow> ustr list \<Rightarrow> ustr \<Rightarrow> int option \<Rightarrow>
    (local_fs, exn, ustr) call" where
  "local_generate_download_url as_uri base key expiry_seconds s =
     (case resolve base key of
        Inl e \<Rightarrow> (Inl e, s)
      | Inr path \<Rightarrow> (case checked_exists path s of
            (None, s1) \<Rightarrow> (Inl os_error, s1)
          | (Some False, s1) \<Rightarrow> (Inl (not_found key), s1)
          | (Some True, s1) \<Rightarrow> (Inr (as_uri path), s1)))"

definition local_file_storage :: "(ustr list \<Rightarrow> int) \<Rightarrow> (ustr list \<Rightarrow> ustr) \<Rightarrow> ustr list \<Rightarrow> local_fs file_storage"
  where
  "local_file_storage directory_size as_uri base =
     \<lparr>fs_save = local_save base, fs_read = local_read base, fs_delete = local_delete base,
      fs_exists = local_exists base, fs_get_metadata = local_get_metadata directory_size base,
      fs_generate_download_url = local_generate_download_url as_uri base\<rparr>"

text \<open>What a state stores at a path, and the path a key stands for.\<close>

definition file_content :: "local_fs \<Rightarrow> ustr list \<Rightarrow> bytes option" where
  "file_content s p = (case entries s p of Some (File b t) \<Rightarrow> Some b | _ \<Rightarrow> None)"

definition local_address :: "ustr list \<Rightarrow> ustr \<Rightarrow> ustr list option" where
  "local_address base key = (case resolve base key of Inl e \<Rightarrow> None | Inr p \<Rightarrow> Some p)"

section \<open>The contract\<close>

lemma next_fault_entries: "next_fault s = (f, s') \<Longrightarrow> entries s' = entries s"
  by (auto simp: next_fault_def split: list.splits)

lemma checked_exists_entries: "checked_exists p s = (r, s') \<Longrightarrow> entries s' = entries s"
  by (auto simp: checked_exists_def split: prod.splits dest: next_fault_entries)

lemma checked_exists_Some: "checked_exists p s = (Some b, s') \<Longrightarrow> b = (entries s p \<noteq> None)"
  by (auto simp: checked_exists_def path_exists_def split: prod.splits if_splits dest: next_fault_entries)

lemma mkdir_file_content:
  assumes "mkdir_parents p es = Some es'"
  shows "is_file (es' q) = is_file (es q) \<and> (\<forall>b t. es' q = Some (File b t) \<longleftrightarrow> es q = Some (File b t)) \<and>
    (q \<notin> set (strict_prefixes p) \<longrightarrow> es' q = es q)"
proof -
  have fold: "foldl (\<lambda>m q. m(q \<mapsto> Directory)) m qs x = (if x \<in> set qs then Some Directory else m x)"
    for qs :: "ustr list list" and m :: "ustr list \<rightharpoonup> entry" and x
    by (induction qs arbitrary: m) auto
  from assms have none: "\<And>x. x \<in> set (strict_prefixes p) \<Longrightarrow> \<not> is_file (es x)"
    and es': "es' = foldl (\<lambda>m q. m(q \<mapsto> Directory)) es (strict_prefixes p)"
    by (auto simp: mkdir_parents_def split: if_splits)
  show ?thesis
    using none [of q] by (auto simp: es' fold is_file_def)
qed

lemma not_strict_prefix_self: "p \<notin> set (strict_prefixes p)"
  by (auto simp: strict_prefixes_def) (metis length_take min_less_iff_conj order_less_irrefl)

lemma file_content_cong:
  "(\<And>b t. entries s q = Some (File b t) \<longleftrightarrow> entries s' q = Some (File b t)) \<Longrightarrow>
   file_content s q = file_content s' q"
  unfolding file_content_def by (cases "entries s q"; cases "entries s' q") (auto split: entry.splits)

lemma write_bytes_content:
  assumes "write_bytes p b s = (r, s')"
  shows "(r = Some () \<longrightarrow> file_content s' = (file_content s)(p := Some b)) \<and>
    (\<forall>q. q \<noteq> p \<longrightarrow> file_content s' q = file_content s q)"
proof -
  obtain f s1 where f: "next_fault s = (f, s1)" by (cases "next_fault s")
  have e: "entries s1 = entries s" using next_fault_entries [OF f] .
  show ?thesis
  proof (cases "f = FaultBefore \<or> mkdir_parents p (entries s1) = None")
    case True
    with assms f e have "r = None" and "entries s' = entries s"
      by (auto simp: write_bytes_def split: if_splits)
    then show ?thesis by (simp add: file_content_def)
  next
    case False
    then obtain es where es: "mkdir_parents p (entries s1) = Some es" by auto
    have "\<And>q t c. es q = Some (File c t) \<longleftrightarrow> entries s q = Some (File c t)"
      using mkdir_file_content [OF es] e by simp
    then have "\<And>q. file_content (s1\<lparr>entries := es\<rparr>) q = file_content s q"
      by (intro file_content_cong) simp
    then show ?thesis
      using assms f False es
      by (auto simp: write_bytes_def file_content_def fun_eq_iff split: if_splits os_fault.splits)
  qed
qed

interpretation local: file_store "local_file_storage ds uri base" "local_address base" file_content
  for ds uri base
proof
  fix k b ct md s r s'
  assume "fs_save (local_file_storage ds uri base) k b ct md s = (Inr r, s')"
  then obtain p where "resolve base k = Inr p" "write_bytes p b s = (Some (), s')" "sf_key r = k"
    "sf_size_bytes r = int (length b)"
    by (auto simp: local_file_storage_def local_save_def split: sum.splits prod.splits option.splits)
  with write_bytes_content show "\<exists>a. local_address base k = Some a \<and>
      file_content s' = (file_content s)(a := Some b) \<and> sf_key r = k \<and> sf_size_bytes r = int (length b)"
    by (auto simp: local_address_def)
next
  fix k a b ct md s
  assume "local_address base k \<noteq> Some a"
  then show "file_content (snd (fs_save (local_file_storage ds uri base) k b ct md s)) a = file_content s a"
    using write_bytes_content
    by (auto simp: local_file_storage_def local_save_def local_address_def
        split: sum.splits prod.splits option.splits)
next
  fix k s b s'
  assume "fs_read (local_file_storage ds uri base) k s = (Inr b, s')"
  then show "\<exists>a. local_address base k = Some a \<and> file_content s a = Some b"
    by (auto simp: local_file_storage_def local_read_def local_address_def file_content_def
        split: sum.splits prod.splits option.splits bool.splits entry.splits if_splits
        dest!: next_fault_entries checked_exists_entries)
next
  fix k s m s'
  assume "fs_read (local_file_storage ds uri base) k s = (Inl (StorageErr (StorageObjectNotFoundError m)), s')"
  then show "\<exists>a. local_address base k = Some a \<and> file_content s a = None"
    by (auto simp: local_file_storage_def local_read_def local_address_def file_content_def os_error_def
        resolve_def validate_object_key_def Let_def
        split: sum.splits prod.splits option.splits bool.splits entry.splits if_splits
        dest!: checked_exists_Some)
next
  fix k s
  show "file_content (snd (fs_read (local_file_storage ds uri base) k s)) = file_content s"
    by (auto simp: local_file_storage_def local_read_def file_content_def fun_eq_iff
        split: sum.splits prod.splits option.splits bool.splits entry.splits
        dest!: next_fault_entries checked_exists_entries)
next
  fix k s and u :: unit and s'
  assume "fs_delete (local_file_storage ds uri base) k s = (Inr u, s')"
  then show "\<exists>a. local_address base k = Some a \<and> file_content s' = (file_content s)(a := None)"
    by (auto simp: local_file_storage_def local_delete_def local_address_def file_content_def fun_eq_iff
        split: sum.splits prod.splits if_splits dest!: next_fault_entries)
next
  fix k a s
  assume "local_address base k \<noteq> Some a"
  then show "file_content (snd (fs_delete (local_file_storage ds uri base) k s)) a = file_content s a"
    by (auto simp: local_file_storage_def local_delete_def local_address_def file_content_def
        split: sum.splits prod.splits dest!: next_fault_entries)
next
  fix k a s
  show "file_content (snd (fs_delete (local_file_storage ds uri base) k s)) a \<in> {file_content s a, None}"
    by (auto simp: local_file_storage_def local_delete_def file_content_def
        split: sum.splits prod.splits dest!: next_fault_entries)
next
  fix k s b s'
  assume "fs_exists (local_file_storage ds uri base) k s = (Inr b, s')"
  then show "\<exists>a. local_address base k = Some a \<and> (file_content s a \<noteq> None \<longrightarrow> b)"
    by (auto simp: local_file_storage_def local_exists_def local_address_def file_content_def
        split: sum.splits prod.splits option.splits dest!: checked_exists_Some)
next
  fix k s
  show "file_content (snd (fs_exists (local_file_storage ds uri base) k s)) = file_content s"
    by (auto simp: local_file_storage_def local_exists_def file_content_def fun_eq_iff
        split: sum.splits prod.splits option.splits dest!: checked_exists_entries)
qed

section \<open>Containment and round trip\<close>

lemma resolve_Inr: "resolve base key = Inr p \<Longrightarrow> p = base @ path_parts key \<and> uni ''..'' \<notin> set (path_parts key)"
  by (auto simp: resolve_def validate_object_key_def Let_def split: if_splits sum.splits)

text \<open>C23: A path the local provider touches always lies below its root and has no parent component
  below it; so an object key, whatever a caller passes, never reaches a file outside the root.\<close>

theorem local_paths_contained:
  assumes "\<not> prefix base a"
  shows "file_content (snd (fs_save (local_file_storage ds uri base) key b ct md s)) a = file_content s a \<and>
    file_content (snd (fs_delete (local_file_storage ds uri base) key s)) a = file_content s a \<and>
    (\<forall>c. fst (fs_read (local_file_storage ds uri base) key s) = Inr c \<longrightarrow>
       (\<exists>p. prefix base p \<and> uni ''..'' \<notin> set (drop (length base) p) \<and> file_content s p = Some c))"
proof -
  have below: "prefix base p \<and> uni ''..'' \<notin> set (drop (length base) p)" if "local_address base key = Some p" for p
    using that resolve_Inr [of base key p] by (auto simp: local_address_def split: sum.splits)
  then have "local_address base key \<noteq> Some a"
    using assms by auto
  moreover have "\<exists>p. prefix base p \<and> uni ''..'' \<notin> set (drop (length base) p) \<and> file_content s p = Some c"
    if "fst (fs_read (local_file_storage ds uri base) key s) = Inr c" for c
    using that local.read_ok [of ds uri base key s c] below
    by (cases "fs_read (local_file_storage ds uri base) key s") fastforce
  ultimately show ?thesis
    using local.save_frame local.delete_frame by blast
qed

lemma local_read_no_fault:
  "file_content s p = Some b \<Longrightarrow> resolve base key = Inr p \<Longrightarrow> os_faults s = [] \<Longrightarrow>
   local_read base key s = (Inr b, s)"
  by (auto simp: local_read_def checked_exists_def path_exists_def next_fault_def file_content_def
      split: option.splits entry.splits)

text \<open>C24: What the local provider reports as saved is read back byte for byte when no fault intervenes,
  and after a successful deletion the same key is not found.\<close>

theorem local_round_trip:
  assumes "fs_save (local_file_storage ds uri base) key b ct md s = (Inr r, s1)" and "os_faults s1 = []"
  shows "fs_read (local_file_storage ds uri base) key s1 = (Inr b, s1) \<and>
    (\<forall>u s2. fs_delete (local_file_storage ds uri base) key s1 = (Inr u, s2) \<longrightarrow>
       fst (fs_read (local_file_storage ds uri base) key s2) \<noteq> Inr c)"
proof -
  from local.save_ok [OF assms(1)] obtain p where "local_address base key = Some p"
    and "file_content s1 p = Some b" by auto
  then have "fs_read (local_file_storage ds uri base) key s1 = (Inr b, s1)"
    using local_read_no_fault [of s1 p b base key] assms(2)
    by (auto simp: local_file_storage_def local_address_def split: sum.splits)
  then show ?thesis
    using local.read_after_delete [of ds uri base key s1] by blast
qed

definition sample_fs :: local_fs where
  "sample_fs = \<lparr>entries = [[] \<mapsto> Directory, [uni ''srv''] \<mapsto> Directory], os_faults = [], os_clock = 7\<rparr>"

lemma sample_save: "\<exists>r s1. fs_save (local_file_storage (\<lambda>_. 0) concat [uni ''srv'']) (uni ''a/b'') [1, 2] None [] sample_fs =
    (Inr r, s1) \<and> os_faults s1 = []"
  by (simp add: local_file_storage_def local_save_def resolve_def validate_object_key_def path_parts_def
      uni_def py_strip_def py_space_def is_absolute_def write_bytes_def next_fault_def sample_fs_def Let_def
      mkdir_parents_def strict_prefixes_def is_file_def upt_conv_Cons)

theorem local_round_trip_witness:
  "\<exists>r s1. fs_save (local_file_storage (\<lambda>_. 0) concat [uni ''srv'']) (uni ''a/b'') [1, 2] None [] sample_fs = (Inr r, s1) \<and>
    fs_read (local_file_storage (\<lambda>_. 0) concat [uni ''srv'']) (uni ''a/b'') s1 = (Inr [1, 2], s1)"
  using sample_save local_round_trip by blast

theorem local_paths_contained_witness:
  "file_content (snd (fs_save (local_file_storage (\<lambda>_. 0) concat [uni ''srv'']) (uni ''../etc'') [1] None [] sample_fs))
     [uni ''etc''] = file_content sample_fs [uni ''etc'']"
  using local_paths_contained [of "[uni ''srv'']" "[uni ''etc'']"] by simp

end
