(* ===== verification/Chunker.thy ===== *)
theory Chunker
  imports Exceptions "HOL-Library.Sublist"
begin

text \<open>
  Splitting extracted text into overlapping chunks (\<open>app/services/documents/chunker.py\<close>).  The loop
  over the words carries the words of the chunk being built and its length; lengths are \<open>int\<close> as in
  the code.  The lemmas relate the chunks to the words of the text: dropping the overlap each chunk
  repeats gives back every word once and in order.
\<close>

section \<open>Data\<close>

record extracted_page =
  page_text :: ustr
  page_number :: "nat option"
  sheet_name :: "ustr option"

record extracted_document =
  ext_document_id :: ustr
  pages :: "extracted_page list"

definition full_text :: "extracted_document \<Rightarrow> ustr" where
  "full_text e = join [10] (map page_text (pages e))"

record document_chunk =
  chk_document_id :: ustr
  chunk_id :: ustr
  chunk_text :: ustr
  chunk_index :: nat
  chk_page_number :: "nat option"
  chk_sheet_name :: "ustr option"

record document_chunker =
  chunk_size :: int
  chunk_overlap :: int

definition new_chunker :: "int \<Rightarrow> int \<Rightarrow> exn + document_chunker" where
  "new_chunker sz overlap =
     (if sz \<le> 0 then Inl (ValueError (uni ''chunk_size must be positive''))
      else if overlap < 0 then Inl (ValueError (uni ''chunk_overlap must be non-negative''))
      else if sz \<le> overlap then Inl (ValueError (uni ''chunk_overlap must be smaller than chunk_size''))
      else Inr \<lparr>chunk_size = sz, chunk_overlap = overlap\<rparr>)"

section \<open>Splitting\<close>

definition added_length :: "ustr \<Rightarrow> ustr list \<Rightarrow> int" where
  "added_length w ws = int (length w) + (if ws \<noteq> [] then 1 else 0)"

fun take_overlap_go :: "int \<Rightarrow> ustr list \<Rightarrow> int \<Rightarrow> ustr list \<Rightarrow> ustr list" where
  "take_overlap_go limit overlap tot [] = overlap"
| "take_overlap_go limit overlap tot (w # ws) =
     (let additional = added_length w overlap in
      if limit < tot + additional then overlap
      else take_overlap_go limit (w # overlap) (tot + additional) ws)"

definition take_overlap :: "document_chunker \<Rightarrow> ustr list \<Rightarrow> ustr list" where
  "take_overlap ch ws = take_overlap_go (chunk_overlap ch) [] 0 (rev ws)"

fun split_loop :: "document_chunker \<Rightarrow> ustr list \<Rightarrow> int \<Rightarrow> ustr list \<Rightarrow> ustr list" where
  "split_loop ch current len [] = (if current \<noteq> [] then [join [32] current] else [])"
| "split_loop ch current len (w # ws) =
     (if current \<noteq> [] \<and> chunk_size ch < len + added_length w current then
        let current' = take_overlap ch current;
            len' = (if current' \<noteq> [] then int (length (join [32] current')) else 0)
        in join [32] current # split_loop ch (current' @ [w]) (len' + added_length w current') ws
      else split_loop ch (current @ [w]) (len + added_length w current) ws)"

definition split_text :: "document_chunker \<Rightarrow> ustr \<Rightarrow> ustr list" where
  "split_text ch s =
     (let words = py_split s in
      if words = [] then []
      else filter (\<lambda>c. py_strip c \<noteq> []) (split_loop ch [] 0 words))"

text \<open>The running index numbers the chunks across pages.\<close>

fun chunk_page :: "ustr \<Rightarrow> extracted_page \<Rightarrow> nat \<Rightarrow> ustr list \<Rightarrow> document_chunk list" where
  "chunk_page document_id page index [] = []"
| "chunk_page document_id page index (t # ts) =
     \<lparr>chk_document_id = document_id, chunk_id = document_id @ uni ''-'' @ dec index, chunk_text = t,
      chunk_index = index, chk_page_number = page_number page, chk_sheet_name = sheet_name page\<rparr>
     # chunk_page document_id page (Suc index) ts"

fun chunk_pages :: "document_chunker \<Rightarrow> ustr \<Rightarrow> nat \<Rightarrow> extracted_page list \<Rightarrow> document_chunk list" where
  "chunk_pages ch document_id index [] = []"
| "chunk_pages ch document_id index (p # ps) =
     (let texts = split_text ch (page_text p) in
      chunk_page document_id p index texts @ chunk_pages ch document_id (index + length texts) ps)"

definition chunk :: "document_chunker \<Rightarrow> extracted_document \<Rightarrow> document_chunk list" where
  "chunk ch e = chunk_pages ch (ext_document_id e) 0 (pages e)"

section \<open>The overlap\<close>

lemma added_length_join: "ws \<noteq> [] \<Longrightarrow> int (length (join [32] ws)) + added_length w ws = int (length (join [32] (ws @ [w])))"
  by (simp add: added_length_def length_join_snoc)

lemma added_length_Cons: "(if ws = [] then 0 else int (length (join [32] ws))) + added_length w ws =
    int (length (join [32] (w # ws)))"
  by (simp add: added_length_def length_join_Cons)

lemma take_overlap_go_suffix:
  "\<exists>vs. take_overlap_go limit overlap tot ws = vs @ overlap \<and> suffix vs (rev ws)"
proof (induction ws arbitrary: overlap tot)
  case Nil
  then show ?case by simp
next
  case (Cons w ws)
  show ?case
  proof (cases "limit < tot + added_length w overlap")
    case True
    then show ?thesis by (intro exI [of _ "[]"]) simp
  next
    case False
    from Cons.IH [of "w # overlap" "tot + added_length w overlap"] obtain vs where
      "take_overlap_go limit (w # overlap) (tot + added_length w overlap) ws = vs @ w # overlap"
      "suffix vs (rev ws)" by blast
    with False show ?thesis by (intro exI [of _ "vs @ [w]"]) simp
  qed
qed

lemma take_overlap_suffix: "suffix (take_overlap ch ws) ws"
  using take_overlap_go_suffix [of "chunk_overlap ch" "[]" 0 "rev ws"] by (auto simp: take_overlap_def)

lemma take_overlap_go_length:
  assumes "tot = (if overlap = [] then 0 else int (length (join [32] overlap)))"
    and "overlap = [] \<or> int (length (join [32] overlap)) \<le> limit"
  shows "take_overlap_go limit overlap tot ws = [] \<or>
    int (length (join [32] (take_overlap_go limit overlap tot ws))) \<le> limit"
  using assms
proof (induction ws arbitrary: overlap tot)
  case Nil
  then show ?case by simp
next
  case (Cons w ws)
  have "tot + added_length w overlap = int (length (join [32] (w # overlap)))"
    using Cons.prems(1) added_length_Cons [of overlap w] by simp
  then show ?case
    using Cons.prems Cons.IH [of "tot + added_length w overlap" "w # overlap"] by (auto simp: Let_def)
qed

lemma take_overlap_length:
  "take_overlap ch ws = [] \<or> int (length (join [32] (take_overlap ch ws))) \<le> chunk_overlap ch"
  by (simp add: take_overlap_def take_overlap_go_length)

section \<open>The chunks as pieces of the word list\<close>

text \<open>A splitting is a list of pieces, each the words it repeats and the words it adds.  The first
  piece repeats what the loop started with, every later one the overlap of the piece before.\<close>

fun pieces :: "document_chunker \<Rightarrow> ustr list \<Rightarrow> (ustr list \<times> ustr list) list \<Rightarrow> bool" where
  "pieces ch start [] \<longleftrightarrow> True"
| "pieces ch start ((r, f) # ps) \<longleftrightarrow> r = start \<and> f \<noteq> [] \<and> pieces ch (take_overlap ch (r @ f)) ps"

definition piece_text :: "ustr list \<times> ustr list \<Rightarrow> ustr" where
  "piece_text p = join [32] (fst p @ snd p)"

lemma split_loop_pieces:
  assumes "f \<noteq> []" and "start @ f = current"
  shows "\<exists>ps. split_loop ch current len ws = map piece_text ps \<and> concat (map snd ps) = f @ ws \<and>
    pieces ch start ps"
  using assms
proof (induction ws arbitrary: current len start f)
  case Nil
  then show ?case
    by (intro exI [of _ "[(start, f)]"]) (auto simp: piece_text_def)
next
  case (Cons w ws)
  show ?case
  proof (cases "current \<noteq> [] \<and> chunk_size ch < len + added_length w current")
    case True
    define len' where "len' = (if take_overlap ch current \<noteq> []
      then int (length (join [32] (take_overlap ch current))) else 0)"
    from Cons.IH [of "[w]" "take_overlap ch current" "take_overlap ch current @ [w]"
        "len' + added_length w (take_overlap ch current)"]
    obtain ps where "split_loop ch (take_overlap ch current @ [w])
        (len' + added_length w (take_overlap ch current)) ws = map piece_text ps"
      "concat (map snd ps) = w # ws" "pieces ch (take_overlap ch current) ps" by auto
    with True Cons.prems show ?thesis
      by (intro exI [of _ "(start, f) # ps"]) (auto simp: piece_text_def Let_def len'_def)
  next
    case False
    with Cons.IH [of "f @ [w]" start "current @ [w]" "len + added_length w current"] Cons.prems
    show ?thesis by auto
  qed
qed

lemma pieces_words:
  "pieces ch start ps \<Longrightarrow> \<forall>w \<in> set start \<union> set (concat (map snd ps)). is_word w \<Longrightarrow>
   p \<in> set ps \<Longrightarrow> py_strip (piece_text p) \<noteq> []"
proof (induction ps arbitrary: start)
  case Nil
  then show ?case by simp
next
  case (Cons q ps)
  obtain r f where q: "q = (r, f)" by (cases q)
  have "set (take_overlap ch (r @ f)) \<subseteq> set (r @ f)"
    using set_mono_suffix take_overlap_suffix by blast
  moreover have "r @ f \<noteq> []" and "\<forall>w \<in> set (r @ f). is_word w"
    using Cons.prems q by auto
  then have "py_strip (join [32] (r @ f)) \<noteq> []"
    by (intro join_not_space)
  ultimately show ?case
    using Cons.IH [of "take_overlap ch (r @ f)"] Cons.prems q by (auto simp: piece_text_def)
qed

text \<open>The final filter of the code removes nothing.\<close>

lemma split_text_pieces:
  "\<exists>ps. split_text ch s = map piece_text ps \<and> concat (map snd ps) = py_split s \<and> pieces ch [] ps"
proof (cases "py_split s")
  case Nil
  then show ?thesis by (intro exI [of _ "[]"]) (simp add: split_text_def)
next
  case (Cons w ws)
  from split_loop_pieces [of "[w]" "[]" "[w]" ch "int (length w)" ws] obtain ps where
    ps: "split_loop ch [w] (int (length w)) ws = map piece_text ps" "concat (map snd ps) = w # ws"
    "pieces ch [] ps" by auto
  then have "\<forall>p \<in> set ps. py_strip (piece_text p) \<noteq> []"
    using pieces_words [of ch "[]" ps] py_split_words [of _ s] Cons by auto
  then have "filter (\<lambda>c. py_strip c \<noteq> []) (map piece_text ps) = map piece_text ps"
    by (auto simp: filter_id_conv)
  with ps Cons show ?thesis
    by (intro exI [of _ ps]) (simp add: split_text_def added_length_def)
qed

lemma pieces_nth:
  "pieces ch start ps \<Longrightarrow> i < length ps \<Longrightarrow>
   snd (ps ! i) \<noteq> [] \<and> fst (ps ! i) = (if i = 0 then start else take_overlap ch (fst (ps ! (i - 1)) @ snd (ps ! (i - 1))))"
proof (induction ps arbitrary: start i)
  case Nil
  then show ?case by simp
next
  case (Cons q ps)
  obtain r f where q: "q = (r, f)" by (cases q)
  show ?case
  proof (cases i)
    case 0
    with Cons.prems q show ?thesis by simp
  next
    case (Suc k)
    with Cons.prems q Cons.IH [of "take_overlap ch (r @ f)" k] show ?thesis
      by (cases k) auto
  qed
qed

section \<open>Properties\<close>

text \<open>C20: The chunks of a text are its words, in order and each exactly once, when every chunk but the
  first is taken without the words it repeats; each chunk adds at least one word, and what it
  repeats is the end of the chunk before, of at most \<open>chunk_overlap\<close> characters.\<close>

theorem chunks_cover_text:
  "\<exists>ps. split_text ch s = map (\<lambda>(r, f). join [32] (r @ f)) ps \<and> concat (map snd ps) = py_split s \<and>
    (\<forall>i < length ps. snd (ps ! i) \<noteq> [] \<and>
       (if i = 0 then fst (ps ! i) = []
        else suffix (fst (ps ! i)) (fst (ps ! (i - 1)) @ snd (ps ! (i - 1))) \<and>
          (fst (ps ! i) = [] \<or> int (length (join [32] (fst (ps ! i)))) \<le> chunk_overlap ch)))"
proof -
  from split_text_pieces [of ch s] obtain ps where ps: "split_text ch s = map piece_text ps"
    "concat (map snd ps) = py_split s" and pc: "pieces ch [] ps" by blast
  have "snd (ps ! i) \<noteq> [] \<and> (if i = 0 then fst (ps ! i) = []
      else suffix (fst (ps ! i)) (fst (ps ! (i - 1)) @ snd (ps ! (i - 1))) \<and>
        (fst (ps ! i) = [] \<or> int (length (join [32] (fst (ps ! i)))) \<le> chunk_overlap ch))"
    if "i < length ps" for i
    using pieces_nth [OF pc that] take_overlap_suffix take_overlap_length by (auto split: if_splits)
  moreover have "split_text ch s = map (\<lambda>(r, f). join [32] (r @ f)) ps"
    using ps(1) by (simp add: piece_text_def case_prod_unfold)
  ultimately show ?thesis
    using ps(2) by blast
qed

lemma split_loop_bound:
  assumes "0 \<le> chunk_overlap ch" and "chunk_overlap ch + 1 + m \<le> B" and "chunk_size ch \<le> B"
    and "\<forall>w \<in> set ws. int (length w) \<le> m"
    and "len = (if current = [] then 0 else int (length (join [32] current)))"
    and "current = [] \<or> int (length (join [32] current)) \<le> B"
    and "c \<in> set (split_loop ch current len ws)"
  shows "int (length c) \<le> B"
  using assms(4-7)
proof (induction ws arbitrary: current len)
  case Nil
  then show ?case by (auto split: if_splits)
next
  case (Cons w ws)
  let ?ov = "take_overlap ch current"
  let ?len = "if ?ov \<noteq> [] then int (length (join [32] ?ov)) else 0"
  have w: "int (length w) \<le> m" using Cons.prems(1) by simp
  show ?case
  proof (cases "current \<noteq> [] \<and> chunk_size ch < len + added_length w current")
    case True
    have eq: "?len + added_length w ?ov = int (length (join [32] (?ov @ [w])))"
      by (cases "?ov = []") (auto simp: added_length_join, simp add: added_length_def)
    have "int (length (join [32] (?ov @ [w]))) \<le> B"
      using take_overlap_length [of ch current] w assms(1,2) by (auto simp: length_join_snoc)
    with Cons.IH [of "?len + added_length w ?ov" "?ov @ [w]"] Cons.prems True eq show ?thesis
      by (auto simp: Let_def)
  next
    case False
    have eq: "len + added_length w current = int (length (join [32] (current @ [w])))"
      using Cons.prems(2) added_length_join [of current w] by (cases "current = []") (auto simp: added_length_def)
    have "int (length (join [32] (current @ [w]))) \<le> B"
      using False eq w assms(1,2,3) by (cases "current = []") auto
    with Cons.IH [of "len + added_length w current" "current @ [w]"] Cons.prems False eq show ?thesis
      by auto
  qed
qed

text \<open>C21: How long a chunk can get: no chunk exceeds the larger of \<open>chunk_size\<close> and the overlap followed
  by a space and the longest word.  The configured size alone is not a bound.\<close>

theorem chunk_length_bound:
  assumes "0 \<le> chunk_overlap ch" and "\<forall>w \<in> set (py_split s). int (length w) \<le> m"
    and "c \<in> set (split_text ch s)"
  shows "int (length c) \<le> max (chunk_size ch) (chunk_overlap ch + 1 + m)"
  using assms split_loop_bound [of ch m "max (chunk_size ch) (chunk_overlap ch + 1 + m)" "py_split s" 0 "[]" c]
  by (auto simp: split_text_def Let_def split: if_splits)

lemma chunk_page_index: "map chunk_index (chunk_page i p n ts) = [n..<n + length ts]"
  by (induction ts arbitrary: n) (simp_all add: upt_conv_Cons del: upt_Suc)

lemma chunk_page_ids: "map chunk_id (chunk_page i p n ts) = map (\<lambda>k. i @ uni ''-'' @ dec k) [n..<n + length ts]"
  by (induction ts arbitrary: n) (simp_all add: upt_conv_Cons del: upt_Suc)

lemma chunk_page_texts: "map chunk_text (chunk_page i p n ts) = ts"
  by (induction ts arbitrary: n) auto

lemma length_chunk_page [simp]: "length (chunk_page i p n ts) = length ts"
  by (induction ts arbitrary: n) auto

lemma chunk_pages_length:
  "length (chunk_pages ch i n ps) = length (concat (map (\<lambda>p. split_text ch (page_text p)) ps))"
  by (induction ps arbitrary: n) (auto simp: Let_def)

lemma chunk_pages_ids:
  "map chunk_id (chunk_pages ch i n ps) = map (\<lambda>k. i @ uni ''-'' @ dec k) [n..<n + length (chunk_pages ch i n ps)]"
proof (induction ps arbitrary: n)
  case Nil
  then show ?case by simp
next
  case (Cons p ps)
  let ?a = "length (split_text ch (page_text p))"
  let ?b = "length (chunk_pages ch i (n + ?a) ps)"
  have "[n..<n + (?a + ?b)] = [n..<n + ?a] @ [n + ?a..<n + ?a + ?b]"
    by (metis add.assoc le_add1 upt_add_eq_append)
  then show ?case
    using Cons.IH [of "n + ?a"] by (simp add: Let_def chunk_page_ids)
qed

text \<open>The identifiers of a document's chunks are its id followed by consecutive numbers from zero,
  across all its pages, and are distinct; the texts are those of the pages in order.\<close>

theorem chunk_ids_consecutive:
  "map chunk_id (chunk ch e) = map (\<lambda>k. ext_document_id e @ uni ''-'' @ dec k) [0..<length (chunk ch e)] \<and>
   distinct (map chunk_id (chunk ch e)) \<and>
   map chunk_text (chunk ch e) = concat (map (\<lambda>p. split_text ch (page_text p)) (pages e))"
proof (intro conjI)
  show ids: "map chunk_id (chunk ch e) =
      map (\<lambda>k. ext_document_id e @ uni ''-'' @ dec k) [0..<length (chunk ch e)]"
    using chunk_pages_ids [of ch "ext_document_id e" 0 "pages e"] by (simp add: chunk_def)
  show "distinct (map chunk_id (chunk ch e))"
    unfolding ids by (simp add: distinct_map inj_on_def)
  show "map chunk_text (chunk ch e) = concat (map (\<lambda>p. split_text ch (page_text p)) (pages e))"
    proof -
    have "map chunk_text (chunk_pages ch i n ps) = concat (map (\<lambda>p. split_text ch (page_text p)) ps)" for i n ps
      by (induction ps arbitrary: n) (auto simp: Let_def chunk_page_texts)
    then show ?thesis by (simp add: chunk_def)
  qed
qed

lemma split_text_eq_Nil: "split_text ch s = [] \<longleftrightarrow> py_strip s = []"
proof -
  from split_text_pieces [of ch s] obtain ps where "split_text ch s = map piece_text ps"
    and c: "concat (map snd ps) = py_split s" and pc: "pieces ch [] ps" by blast
  moreover have "ps = [] \<longleftrightarrow> py_split s = []"
    using c pieces_nth [OF pc, of 0] by (cases ps) auto
  ultimately show ?thesis
    by (simp add: py_split_eq_Nil)
qed

text \<open>A document has no chunk exactly when no page has a visible character.\<close>

lemma chunk_eq_Nil: "chunk ch e = [] \<longleftrightarrow> (\<forall>p \<in> set (pages e). py_strip (page_text p) = [])"
proof -
  have "chunk_pages ch i n ps = [] \<longleftrightarrow> (\<forall>p \<in> set ps. py_strip (page_text p) = [])" for i n ps
  proof -
    have "chunk_pages ch i n ps = [] \<longleftrightarrow> concat (map (\<lambda>p. split_text ch (page_text p)) ps) = []"
      using chunk_pages_length [of ch i n ps] by (metis length_0_conv)
    then show ?thesis by (simp add: split_text_eq_Nil)
  qed
  then show ?thesis by (simp add: chunk_def)
qed

section \<open>Concrete runs\<close>

definition sample_chunker :: document_chunker where
  "sample_chunker = \<lparr>chunk_size = 5, chunk_overlap = 3\<rparr>"

text \<open>\<open>aa bb\<close>, then \<open>bb cccccc\<close>, nine characters: longer than \<open>chunk_size\<close>.\<close>

lemma sample_split: "split_text sample_chunker (uni ''aa bb cccccc'') = [uni ''aa bb'', uni ''bb cccccc'']"
  by (simp add: split_text_def sample_chunker_def uni_def py_split_def py_space_def added_length_def
      take_overlap_def Let_def py_strip_def)

theorem chunks_cover_text_witness:
  "\<exists>ps. split_text sample_chunker (uni ''aa bb cccccc'') = map (\<lambda>(r, f). join [32] (r @ f)) ps \<and>
    concat (map snd ps) = [uni ''aa'', uni ''bb'', uni ''cccccc'']"
proof -
  have "py_split (uni ''aa bb cccccc'') = [uni ''aa'', uni ''bb'', uni ''cccccc'']"
    by (simp add: uni_def py_split_def py_space_def)
  with chunks_cover_text [of sample_chunker "uni ''aa bb cccccc''"] show ?thesis
    by auto
qed

theorem chunk_length_bound_witness:
  "uni ''bb cccccc'' \<in> set (split_text sample_chunker (uni ''aa bb cccccc'')) \<and>
   int (length (uni ''bb cccccc'')) \<le> max 5 (3 + 1 + 6)"
proof -
  have "py_split (uni ''aa bb cccccc'') = [uni ''aa'', uni ''bb'', uni ''cccccc'']"
    by (simp add: uni_def py_split_def py_space_def)
  then show ?thesis
    using chunk_length_bound [of sample_chunker "uni ''aa bb cccccc''" 6 "uni ''bb cccccc''"] sample_split
    by (simp add: sample_chunker_def)
qed

end
