(* ===== verification/Text_Extraction.thy ===== *)
theory Text_Extraction
  imports Local_Storage Chunker Embedding_Config
begin

text \<open>
  Extracting text from a stored document (\<open>app/services/documents/text_extractor.py\<close>).  UTF-8 decoding
  is defined; the PDF, DOCX, XLSX and ZIP readers are third-party code and are parameters
  (\<open>document_readers\<close>), which may raise.
\<close>

section \<open>UTF-8\<close>

definition continuation :: "nat \<Rightarrow> bool" where
  "continuation b \<longleftrightarrow> 128 \<le> b \<and> b < 192"

fun utf8_decode :: "nat list \<Rightarrow> ustr option" where
  "utf8_decode [] = Some []"
| "utf8_decode (a # r) =
     (if a < 128 then map_option ((#) a) (utf8_decode r)
      else case r of
        [] \<Rightarrow> None
      | b # r2 \<Rightarrow>
          if \<not> continuation b then None
          else if 194 \<le> a \<and> a < 224 then
            map_option ((#) ((a - 192) * 64 + (b - 128))) (utf8_decode r2)
          else (case r2 of
              [] \<Rightarrow> None
            | c # r3 \<Rightarrow>
                if \<not> continuation c then None
                else if 224 \<le> a \<and> a < 240 then
                  let cp = (a - 224) * 4096 + (b - 128) * 64 + (c - 128) in
                  if cp < 2048 \<or> (55296 \<le> cp \<and> cp < 57344) then None
                  else map_option ((#) cp) (utf8_decode r3)
                else (case r3 of
                    [] \<Rightarrow> None
                  | d # r4 \<Rightarrow>
                      if \<not> continuation d then None
                      else if 240 \<le> a \<and> a < 245 then
                        let cp = (a - 240) * 262144 + (b - 128) * 4096 + (c - 128) * 64 + (d - 128) in
                        if cp < 65536 \<or> 1114111 < cp then None
                        else map_option ((#) cp) (utf8_decode r4)
                      else None)))"

definition decode_bytes :: "bytes \<Rightarrow> ustr option" where
  "decode_bytes b = utf8_decode (map unat b)"

definition utf8_char :: "nat \<Rightarrow> nat list" where
  "utf8_char c =
     (if c < 128 then [c]
      else if c < 2048 then [192 + c div 64, 128 + c mod 64]
      else if c < 65536 then [224 + c div 4096, 128 + c div 64 mod 64, 128 + c mod 64]
      else [240 + c div 262144, 128 + c div 4096 mod 64, 128 + c div 64 mod 64, 128 + c mod 64])"

definition encode_text :: "ustr \<Rightarrow> bytes" where
  "encode_text s = map word_of_nat (concat (map utf8_char s))"

definition scalar_value :: "nat \<Rightarrow> bool" where
  "scalar_value c \<longleftrightarrow> c < 55296 \<or> (57344 \<le> c \<and> c \<le> 1114111)"

lemma utf8_char_bound: "scalar_value c \<Longrightarrow> b \<in> set (utf8_char c) \<Longrightarrow> b < 256"
  by (auto simp: utf8_char_def scalar_value_def split: if_splits)

lemma utf8_decode_char:
  assumes "scalar_value c"
  shows "utf8_decode (utf8_char c @ r) = map_option ((#) c) (utf8_decode r)"
proof -
  have d1: "c div 64 * 64 + c mod 64 = c" by simp
  have d2: "c div 4096 * 64 + c div 64 mod 64 = c div 64"
    using div_mult_mod_eq [of "c div 64" 64] by (simp add: div_mult2_eq [symmetric])
  have d3: "c div 262144 * 64 + c div 4096 mod 64 = c div 4096"
    using div_mult_mod_eq [of "c div 4096" 64] by (simp add: div_mult2_eq [symmetric])
  consider "c < 128" | "128 \<le> c" "c < 2048" | "2048 \<le> c" "c < 65536" | "65536 \<le> c" by linarith
  then show ?thesis
  proof cases
    case 1
    then show ?thesis by (simp add: utf8_char_def)
  next
    case 2
    then have "c div 64 * 64 + c mod 64 = c" "2 \<le> c div 64" "c div 64 < 32" by auto
    with 2 show ?thesis by (simp add: utf8_char_def continuation_def)
  next
    case 3
    then have e: "c div 4096 * 4096 + c div 64 mod 64 * 64 + c mod 64 = c" "c div 4096 < 16"
      using d1 d2 by linarith+
    from 3 assms have "\<not> (55296 \<le> c \<and> c < 57344)" by (auto simp: scalar_value_def)
    with 3 e show ?thesis by (auto simp: utf8_char_def continuation_def Let_def)
  next
    case 4
    then have e: "c div 262144 * 262144 + c div 4096 mod 64 * 4096 + c div 64 mod 64 * 64 + c mod 64 = c"
      using d1 d2 d3 by linarith
    from 4 assms have "c \<le> 1114111" by (auto simp: scalar_value_def)
    then have "c div 262144 < 5" by linarith
    with 4 e \<open>c \<le> 1114111\<close> show ?thesis by (simp add: utf8_char_def continuation_def Let_def)
  qed
qed

lemma decode_encode: "list_all scalar_value s \<Longrightarrow> decode_bytes (encode_text s) = Some s"
proof -
  assume s: "list_all scalar_value s"
  have "map (\<lambda>b. unat (word_of_nat b :: 8 word)) (concat (map utf8_char s)) = concat (map utf8_char s)"
    using s utf8_char_bound by (intro map_idI) (auto simp: list_all_iff unat_of_nat take_bit_eq_mod)
  moreover have "utf8_decode (concat (map utf8_char s)) = Some s"
    using s by (induction s) (simp_all add: utf8_decode_char)
  ultimately show ?thesis
    by (simp add: decode_bytes_def encode_text_def comp_def)
qed

section \<open>The extractor\<close>

record document_readers =
  rd_is_zipfile :: "bytes \<Rightarrow> bool"
  rd_zip_names :: "bytes \<Rightarrow> exn + ustr list"
  rd_pdf_pages :: "bytes \<Rightarrow> exn + ustr option list"
  rd_docx_paragraphs :: "bytes \<Rightarrow> exn + ustr list"
  rd_xlsx_sheets :: "bytes \<Rightarrow> exn + (ustr \<times> ustr option list list) list"

definition plain_text_suffixes :: "ustr list" where
  "plain_text_suffixes = [uni ''.txt'', uni ''.md'']"

definition supported_suffixes :: "ustr list" where
  "supported_suffixes = plain_text_suffixes @ [uni ''.pdf'', uni ''.docx'', uni ''.xlsx'']"

definition pdf_header :: bytes where
  "pdf_header = [37, 80, 68, 70]"

definition validate_office_zip :: "document_readers \<Rightarrow> bytes \<Rightarrow> ustr \<Rightarrow> ustr \<Rightarrow> ustr \<Rightarrow> exn + unit" where
  "validate_office_zip rd content required_entry kind filename =
     (if \<not> rd_is_zipfile rd content then
        Inl (DocumentTextExtractionError (uni ''File does not look like a valid '' @ kind @
          uni '' (not a zip archive): '' @ filename))
      else (case rd_zip_names rd content of
          Inl e \<Rightarrow> Inl e
        | Inr names \<Rightarrow>
            if required_entry \<notin> set names then
              Inl (DocumentTextExtractionError (uni ''File does not look like a valid '' @ kind @
                uni '' (missing '' @ required_entry @ uni ''): '' @ filename))
            else Inr ()))"

definition validate_file_type :: "document_readers \<Rightarrow> bytes \<Rightarrow> ustr \<Rightarrow> ustr \<Rightarrow> exn + unit" where
  "validate_file_type rd content sfx filename =
     (if sfx \<in> set plain_text_suffixes then
        (case decode_bytes content of
           None \<Rightarrow> Inl (DocumentTextExtractionError (uni ''File is not valid UTF-8 text: '' @ filename))
         | Some _ \<Rightarrow> Inr ())
      else if sfx = uni ''.pdf'' then
        (if take (length pdf_header) content \<noteq> pdf_header
         then Inl (DocumentTextExtractionError (uni ''File does not look like a valid PDF: '' @ filename))
         else Inr ())
      else if sfx = uni ''.docx'' then
        validate_office_zip rd content (uni ''word/document.xml'') (uni ''DOCX'') filename
      else validate_office_zip rd content (uni ''xl/workbook.xml'') (uni ''XLSX'') filename)"

text \<open>\<open>decode\<close> cannot fail where it is called: the content was validated before.\<close>

definition extract_plain_text :: "bytes \<Rightarrow> extracted_page" where
  "extract_plain_text content =
     \<lparr>page_text = (case decode_bytes content of Some t \<Rightarrow> t | None \<Rightarrow> []), page_number = None, sheet_name = None\<rparr>"

definition extract_pdf :: "document_readers \<Rightarrow> bytes \<Rightarrow> exn + extracted_page list" where
  "extract_pdf rd content =
     (case rd_pdf_pages rd content of
        Inl e \<Rightarrow> Inl e
      | Inr texts \<Rightarrow> Inr (map (\<lambda>(index, t).
          \<lparr>page_text = (case t of Some s \<Rightarrow> s | None \<Rightarrow> []), page_number = Some (index + 1), sheet_name = None\<rparr>)
          (enumerate 0 texts)))"

definition extract_docx :: "document_readers \<Rightarrow> bytes \<Rightarrow> exn + extracted_page" where
  "extract_docx rd content =
     (case rd_docx_paragraphs rd content of
        Inl e \<Rightarrow> Inl e
      | Inr ps \<Rightarrow> Inr \<lparr>page_text = join [10] ps, page_number = None, sheet_name = None\<rparr>)"

definition xlsx_row :: "ustr option list \<Rightarrow> ustr" where
  "xlsx_row row = join [9] (List.map_filter id row)"

definition extract_xlsx :: "document_readers \<Rightarrow> bytes \<Rightarrow> exn + extracted_page list" where
  "extract_xlsx rd content =
     (case rd_xlsx_sheets rd content of
        Inl e \<Rightarrow> Inl e
      | Inr sheets \<Rightarrow> Inr (map (\<lambda>(title, rows).
          \<lparr>page_text = join [10] (map xlsx_row (filter (\<lambda>row. \<exists>c \<in> set row. c \<noteq> None) rows)),
           page_number = None, sheet_name = Some title\<rparr>) sheets))"

definition extract_pages :: "document_readers \<Rightarrow> bytes \<Rightarrow> ustr \<Rightarrow> exn + extracted_page list" where
  "extract_pages rd content sfx =
     (if sfx \<in> set plain_text_suffixes then Inr [extract_plain_text content]
      else if sfx = uni ''.pdf'' then extract_pdf rd content
      else if sfx = uni ''.docx'' then
        (case extract_docx rd content of Inl e \<Rightarrow> Inl e | Inr p \<Rightarrow> Inr [p])
      else extract_xlsx rd content)"

definition extract_sync :: "document_readers \<Rightarrow> document \<Rightarrow> bytes \<Rightarrow> exn + extracted_document" where
  "extract_sync rd doc content =
     (let sfx = py_lower (path_suffix (original_filename doc)) in
      if sfx \<notin> set supported_suffixes then
        Inl (DocumentTextExtractionError (uni ''Unsupported file type: '' @
          (if sfx \<noteq> [] then sfx else uni ''(no extension)'')))
      else (case validate_file_type rd content sfx (original_filename doc) of
          Inl e \<Rightarrow> Inl e
        | Inr _ \<Rightarrow> (case extract_pages rd content sfx of
              Inl e \<Rightarrow> Inl e
            | Inr ps \<Rightarrow>
                if \<forall>p \<in> set ps. py_strip (page_text p) = [] then
                  Inl (DocumentTextExtractionError (uni ''No extractable text found in document.''))
                else Inr \<lparr>ext_document_id = doc_id doc, pages = ps\<rparr>)))"

definition extract_text :: "document_readers \<Rightarrow> 's file_storage \<Rightarrow> document \<Rightarrow> ('s, exn, extracted_document) call" where
  "extract_text rd fs doc s =
     (let key = resolve_document_storage_key doc in
      case fs_read fs key s of
        (Inl (StorageErr (StorageObjectNotFoundError m)), s') \<Rightarrow>
          (Inl (DocumentTextExtractionError (uni ''Stored file not found: '' @ key)), s')
      | (Inl e, s') \<Rightarrow> (Inl e, s')
      | (Inr content, s') \<Rightarrow> (extract_sync rd doc content, s'))"

section \<open>Properties\<close>

lemma extract_sync_Inr:
  assumes "extract_sync rd doc content = Inr e"
  shows "ext_document_id e = doc_id doc \<and> (\<exists>p \<in> set (pages e). py_strip (page_text p) \<noteq> [])"
  using assms by (auto simp: extract_sync_def Let_def split: if_splits sum.splits)

lemma extract_text_Inr: "extract_text rd fs doc s = (Inr e, s') \<Longrightarrow> \<exists>content. extract_sync rd doc content = Inr e"
  by (auto simp: extract_text_def Let_def split: prod.splits sum.splits exn.splits storage_exn.splits)

lemma extracted_pages:
  assumes "extract_text rd fs doc s = (Inr e, s')"
  shows "ext_document_id e = doc_id doc" and "\<exists>p \<in> set (pages e). py_strip (page_text p) \<noteq> []"
  using extract_text_Inr [OF assms] extract_sync_Inr by blast+

lemma chunk_document_id: "c \<in> set (chunk ch e) \<Longrightarrow> chk_document_id c = ext_document_id e"
proof -
  have "\<forall>c \<in> set (chunk_page i p n ts). chk_document_id c = i" for i p n ts
    by (induction ts arbitrary: n) auto
  then have "\<forall>c \<in> set (chunk_pages ch i n ps). chk_document_id c = i" for i n ps
    by (induction ps arbitrary: n) (auto simp: Let_def)
  then show "c \<in> set (chunk ch e) \<Longrightarrow> chk_document_id c = ext_document_id e"
    by (simp add: chunk_def)
qed

text \<open>A document whose text was extracted always has at least one chunk, for every chunk size and
  overlap: the branches of the indexing code for documents without chunks are never taken.\<close>

theorem extracted_document_has_chunks:
  assumes "extract_text rd fs doc s = (Inr e, s')"
  shows "chunk ch e \<noteq> [] \<and> (\<forall>c \<in> set (chunk ch e). chk_document_id c = doc_id doc)"
  using extracted_pages [OF assms] chunk_document_id by (auto simp: chunk_eq_Nil)

text \<open>A text file that was uploaded as the UTF-8 encoding of a text with a visible character is
  extracted as exactly that text, without the readers of the other formats.\<close>

theorem plain_text_round_trip:
  assumes "list_all scalar_value t" and "py_strip t \<noteq> []"
    and "py_lower (path_suffix (original_filename doc)) \<in> set plain_text_suffixes"
    and "fs_read fs (resolve_document_storage_key doc) s = (Inr (encode_text t), s')"
  shows "\<exists>e. extract_text rd fs doc s = (Inr e, s') \<and> full_text e = t \<and> ext_document_id e = doc_id doc"
proof -
  let ?e = "\<lparr>ext_document_id = doc_id doc, pages = [\<lparr>page_text = t, page_number = None, sheet_name = None\<rparr>]\<rparr>"
  have "extract_text rd fs doc s = (Inr ?e, s')"
    using assms decode_encode [OF assms(1)]
    by (auto simp: extract_text_def extract_sync_def Let_def supported_suffixes_def validate_file_type_def
        extract_pages_def extract_plain_text_def)
  then show ?thesis
    by (intro exI [of _ ?e]) (simp add: full_text_def)
qed

definition stored_text :: local_fs where
  "stored_text = \<lparr>entries = [[uni ''srv''] \<mapsto> Directory, [uni ''srv'', uni ''d1.txt''] \<mapsto> File (encode_text (uni ''hi all'')) 1],
     os_faults = [], os_clock = 7\<rparr>"

definition sample_storage :: "local_fs file_storage" where
  "sample_storage = local_file_storage (\<lambda>_. 0) concat [uni ''srv'']"

lemma sample_file_store: "file_store sample_storage (local_address [uni ''srv'']) file_content"
  using local.file_store_axioms by (simp add: sample_storage_def)

definition no_readers :: document_readers where
  "no_readers = \<lparr>rd_is_zipfile = (\<lambda>_. False), rd_zip_names = (\<lambda>_. Inr []), rd_pdf_pages = (\<lambda>_. Inr []),
     rd_docx_paragraphs = (\<lambda>_. Inr []), rd_xlsx_sheets = (\<lambda>_. Inr [])\<rparr>"

lemma stored_text_read: "fs_read sample_storage (resolve_document_storage_key (sample_document (uni ''d1''))) stored_text =
    (Inr (encode_text (uni ''hi all'')), stored_text)"
proof -
  have k: "resolve_document_storage_key (sample_document (uni ''d1'')) = uni ''d1.txt''"
    by (simp add: resolve_document_storage_key_def sample_document_def uni_append [symmetric])
  have "resolve [uni ''srv''] (uni ''d1.txt'') = Inr [uni ''srv'', uni ''d1.txt'']"
    by (simp add: resolve_def validate_object_key_def path_parts_def uni_def py_strip_def py_space_def
        is_absolute_def)
  then show ?thesis
    unfolding k using local_read_no_fault [of stored_text "[uni ''srv'', uni ''d1.txt'']"]
    by (simp add: sample_storage_def local_file_storage_def file_content_def stored_text_def)
qed

lemma sample_suffix: "py_lower (path_suffix (original_filename (sample_document i))) = uni ''.txt''"
  by (simp add: sample_document_def path_suffix_def path_name_def path_parts_def uni_def py_lower_def lower_char_def Let_def)

theorem plain_text_round_trip_witness:
  "\<exists>e. extract_text no_readers sample_storage (sample_document (uni ''d1'')) stored_text = (Inr e, stored_text) \<and>
    full_text e = uni ''hi all''"
proof -
  have "list_all scalar_value (uni ''hi all'')" and "py_strip (uni ''hi all'') \<noteq> []"
    by (simp_all add: uni_def scalar_value_def py_strip_eq_Nil py_space_def)
  from plain_text_round_trip [OF this _ stored_text_read] show ?thesis
    by (auto simp: sample_suffix plain_text_suffixes_def)
qed

lemma stored_text_extracted: "\<exists>e. extract_text no_readers sample_storage (sample_document (uni ''d1'')) stored_text = (Inr e, stored_text)"
proof -
  have "decode_bytes (encode_text (uni ''hi all'')) = Some (uni ''hi all'')"
    by (rule decode_encode) (simp add: uni_def scalar_value_def)
  moreover have "py_strip (uni ''hi all'') \<noteq> []"
    by (simp add: uni_def py_strip_eq_Nil py_space_def)
  ultimately show ?thesis
    by (simp add: extract_text_def stored_text_read extract_sync_def sample_suffix supported_suffixes_def
        plain_text_suffixes_def validate_file_type_def extract_pages_def extract_plain_text_def)
qed

theorem extracted_document_has_chunks_witness:
  "\<exists>e. extract_text no_readers sample_storage (sample_document (uni ''d1'')) stored_text = (Inr e, stored_text) \<and>
    chunk sample_chunker e \<noteq> []"
proof -
  from stored_text_extracted obtain e where
    e: "extract_text no_readers sample_storage (sample_document (uni ''d1'')) stored_text = (Inr e, stored_text)" by blast
  with extracted_document_has_chunks [OF e, of sample_chunker] show ?thesis by blast
qed

end
