(* ===== verification/Collection_Registry.thy ===== *)
theory Collection_Registry
  imports Embedding_Config Lookups Mem_Index
begin

text \<open>
  Collection safety and the indexing metadata of documents
  (\<open>app/services/indexing/collection_registry.py\<close>).  An operation that talks to the vector store and
  the database works on the pair of their states.
\<close>

definition get_index_collection :: "db \<Rightarrow> ustr \<Rightarrow> index_collection option" where
  "get_index_collection d name = get_row ic_collection_name name (index_collections d)"

definition new_index_collection :: "embedding_index_config \<Rightarrow> time \<Rightarrow> index_collection" where
  "new_index_collection c now =
     \<lparr>ic_collection_name = config_collection_name c, ic_embedding_provider = cfg_provider c,
      ic_embedding_model = cfg_model c, ic_embedding_dimension = cfg_dimension c,
      ic_embedding_version = cfg_embedding_version c, ic_chunking_version = cfg_chunking_version c,
      ic_status = IcActive, ic_created_at = now\<rparr>"

definition add_index_collection :: "index_collection \<Rightarrow> db \<Rightarrow> db" where
  "add_index_collection r d = d\<lparr>index_collections := index_collections d @ [r]\<rparr>"

text \<open>\<open>env\<close> is what other sessions commit while the vector store is being asked; looking the row up and inserting it is one
  step here, though another session could insert it in between, when this commit would raise.\<close>

definition ensure_active_collection :: "(db \<Rightarrow> db) \<Rightarrow> time \<Rightarrow> 'v vector_store \<Rightarrow> embedding_index_config \<Rightarrow>
    ('v \<times> db, exn, unit) call" where
  "ensure_active_collection env now vs c = (\<lambda>(v, d).
     case vs_get_collection_vector_size vs (config_collection_name c) v of
       (Inl e, v1) \<Rightarrow> (Inl e, v1, env d)
     | (Inr existing, v1) \<Rightarrow>
         if existing \<noteq> None \<and> existing \<noteq> Some (cfg_dimension c) then
           (Inl (IncompatibleIndexConfigurationError (uni ''Collection '' @ py_repr (config_collection_name c) @
              uni '' already exists with vector size '' @ str_int (the existing) @
              uni '', but the active configuration expects '' @ str_int (cfg_dimension c) @ uni ''.'')), v1, env d)
         else (case vs_create_collection_if_not_exists vs (config_collection_name c) (cfg_dimension c) v1 of
             (Inl e, v2) \<Rightarrow> (Inl e, v2, env d)
           | (Inr _, v2) \<Rightarrow>
               if get_index_collection (env d) (config_collection_name c) \<noteq> None then (Inr (), v2, env d)
               else (case commit (add_index_collection (new_index_collection c now) (env d)) of
                   Inl e \<Rightarrow> (Inl (DatabaseErr e), v2, env d)
                 | Inr d' \<Rightarrow> (Inr (), v2, d'))))"

definition mark_document_indexed :: "time \<Rightarrow> embedding_index_config \<Rightarrow> document \<Rightarrow> document" where
  "mark_document_indexed now c doc =
     doc\<lparr>embedding_provider := Some (cfg_provider c), embedding_model := Some (cfg_model c),
         embedding_dimension := Some (cfg_dimension c), embedding_version := Some (cfg_embedding_version c),
         chunking_version := Some (cfg_chunking_version c),
         collection_name := Some (config_collection_name c), indexed_at := Some now\<rparr>"

definition is_document_stale :: "document \<Rightarrow> embedding_index_config \<Rightarrow> bool" where
  "is_document_stale doc active \<longleftrightarrow> collection_name doc \<noteq> Some (config_collection_name active)"

definition retire_collection :: "(db \<Rightarrow> db) \<Rightarrow> ustr \<Rightarrow> db \<Rightarrow> (exn + unit) \<times> db" where
  "retire_collection env name d =
     (case get_index_collection d name of
        None \<Rightarrow> (Inr (), d)
      | Some _ \<Rightarrow>
          (case commit ((env d)\<lparr>index_collections :=
                 update_row ic_collection_name name (\<lambda>r. r\<lparr>ic_status := IcRetired\<rparr>) (index_collections (env d))\<rparr>) of
             Inl e \<Rightarrow> (Inl (DatabaseErr e), env d)
           | Inr d' \<Rightarrow> (Inr (), d')))"

definition get_stale_documents :: "db \<Rightarrow> embedding_index_config \<Rightarrow> document list" where
  "get_stale_documents d active = filter (\<lambda>doc. is_document_stale doc active) (documents d)"

section \<open>Properties\<close>

lemma add_index_collection_db:
  "documents (add_index_collection r d) = documents d" "ingestion_jobs (add_index_collection r d) = ingestion_jobs d"
  "deletion_jobs (add_index_collection r d) = deletion_jobs d" "reindex_jobs (add_index_collection r d) = reindex_jobs d"
  "cleanup_jobs (add_index_collection r d) = cleanup_jobs d"
  "index_collections (add_index_collection r d) = index_collections d @ [r]"
  by (simp_all add: add_index_collection_def)

text \<open>What ensuring a collection leaves behind, whatever other sessions commit meanwhile.\<close>

lemma ensure_frame:
  assumes vi: "vector_index vs stored sizes"
    and run: "ensure_active_collection env now vs c (v, d) = (r, v', d')"
  shows "stored v' = stored v \<and> (db_ok (env d) \<longrightarrow> db_ok d') \<and> documents d' = documents (env d) \<and>
    ingestion_jobs d' = ingestion_jobs (env d) \<and> deletion_jobs d' = deletion_jobs (env d) \<and>
    reindex_jobs d' = reindex_jobs (env d) \<and> cleanup_jobs d' = cleanup_jobs (env d) \<and>
    (r = Inr () \<longrightarrow> sizes v' (config_collection_name c) \<noteq> None \<and>
       get_index_collection d' (config_collection_name c) \<noteq> None)"
proof -
  let ?n = "config_collection_name c"
  obtain x v1 where z: "vs_get_collection_vector_size vs ?n v = (x, v1)" by fastforce
  obtain y v2 where w: "vs_create_collection_if_not_exists vs ?n (cfg_dimension c) v1 = (y, v2)" by fastforce
  have s1: "stored v1 = stored v" using vector_index.size_frame(1) [OF vi, of ?n v] z by simp
  have s2: "stored v2 = stored v1"
    using vector_index.create_points [OF vi, of ?n "cfg_dimension c" v1] w by simp
  have sz: "y = Inr () \<Longrightarrow> sizes v2 ?n \<noteq> None"
    using vector_index.create_ok [OF vi, of ?n "cfg_dimension c" v1 "()" v2] w by simp
  have "get_index_collection (add_index_collection (new_index_collection c now) (env d)) ?n \<noteq> None"
    by (auto simp: get_index_collection_def add_index_collection_def new_index_collection_def row_simps split: option.splits)
  then show ?thesis
    using run z w s1 s2 sz
    by (auto simp: ensure_active_collection_def commit_Inr add_index_collection_db
        split: sum.splits if_splits option.splits)
qed

text \<open>When the collection is ensured, it exists in the vector store, and it is tracked in the
  database, which stays valid; no document, job or vector is touched, whether it succeeds or raises.\<close>

theorem ensure_active_collection_spec:
  assumes "vector_index vs stored sizes" and "db_ok (env d)"
    and "ensure_active_collection env now vs c (v, d) = (r, v', d')"
  shows "db_ok d' \<and> stored v' = stored v \<and>
    documents d' = documents (env d) \<and> ingestion_jobs d' = ingestion_jobs (env d) \<and>
    reindex_jobs d' = reindex_jobs (env d) \<and> deletion_jobs d' = deletion_jobs (env d) \<and>
    cleanup_jobs d' = cleanup_jobs (env d) \<and>
    (r = Inr () \<longrightarrow> sizes v' (config_collection_name c) \<noteq> None \<and>
       get_index_collection d' (config_collection_name c) \<noteq> None)"
  using ensure_frame [OF assms(1,3)] assms(2) by auto

theorem ensure_active_collection_spec_witness:
  "\<exists>r v' d'. ensure_active_collection id 5 (qdrant_vector_store mem_qdrant) config_dot (empty_index, sample_db) =
      (r, v', d') \<and> db_ok d' \<and> documents d' = documents sample_db"
proof -
  obtain r v' d' where run: "ensure_active_collection id 5 (qdrant_vector_store mem_qdrant) config_dot
      (empty_index, sample_db) = (r, v', d')"
    by (cases "ensure_active_collection id 5 (qdrant_vector_store mem_qdrant) config_dot (empty_index, sample_db)") auto
  with ensure_active_collection_spec [OF mem.index.vector_index_axioms, of id sample_db] sample_db_valid
  show ?thesis by auto
qed

end
