(* ===== verification/Ingestion_Worker.thy ===== *)
theory Ingestion_Worker
  imports World Providers Text_Extraction Collection_Registry
begin

text \<open>
  The ingestion worker (\<open>app/services/ingestion/worker.py\<close>): extraction, chunking, embedding and the
  upsert into the active collection, between the commit that claims a job and the commit that resolves
  it.  A database error during the processing leaves the session in the state in which SQLAlchemy
  refuses every further commit until a rollback, so the worker's own commit raises; the worker does not
  roll back.
\<close>

section \<open>Processing a document\<close>

text \<open>What the worker is constructed with; \<open>pf_uuid5\<close> is \<open>uuid5\<close> in the URL namespace.\<close>

record ('f, 'e, 'v) platform =
  pf_readers :: document_readers
  pf_storage :: "'f file_storage"
  pf_embedder :: "settings \<Rightarrow> 'e embedder"
  pf_vector_store :: "settings \<Rightarrow> 'v vector_store"
  pf_uuid5 :: "ustr \<Rightarrow> ustr"

definition to_vector_point :: "(ustr \<Rightarrow> ustr) \<Rightarrow> ustr \<Rightarrow> document_chunk \<Rightarrow> embedding \<Rightarrow> vector_point" where
  "to_vector_point uuid5 src c v =
     \<lparr>vp_id = uuid5 (chunk_id c), vp_vector = v, vp_document_id = chk_document_id c, vp_chunk_id = chunk_id c,
      vp_text = chunk_text c, vp_source = src, vp_page_number = chk_page_number c,
      vp_sheet_name = chk_sheet_name c\<rparr>"

text \<open>\<open>zip(strict=True)\<close> comes after \<open>validate_embeddings\<close> has compared the lengths.\<close>

definition to_points :: "(ustr \<Rightarrow> ustr) \<Rightarrow> document \<Rightarrow> document_chunk list \<Rightarrow> embedding list \<Rightarrow> vector_point list" where
  "to_points uuid5 doc chunks vectors = map2 (to_vector_point uuid5 (original_filename doc)) chunks vectors"

definition index_chunks :: "('f, 'e, 'v) platform \<Rightarrow> settings \<Rightarrow> (db \<Rightarrow> db) \<Rightarrow> time \<Rightarrow> embedding_index_config \<Rightarrow> document \<Rightarrow>
    document_chunk list \<Rightarrow> (('f, 'e, 'v) world, exn, unit) call" where
  "index_chunks pf s env now config doc chunks =
     call_bind (call_lift (get_embedding_provider (pf_embedder pf) s)) (\<lambda>embedder.
     call_bind (on_embedder (embedder (map chunk_text chunks))) (\<lambda>vectors.
     call_bind (call_lift (validate_embeddings vectors (length chunks) (cfg_dimension config))) (\<lambda>_.
     call_bind (call_lift (get_vector_store (pf_vector_store pf) s)) (\<lambda>vs.
     call_bind (on_registry (ensure_active_collection env now vs config)) (\<lambda>_.
     on_index (vs_upsert_vectors vs (config_collection_name config)
       (to_points (pf_uuid5 pf) doc chunks vectors)))))))"

text \<open>Returns the document object with its new indexing metadata, which no commit has written yet.\<close>

definition default_process_document :: "('f, 'e, 'v) platform \<Rightarrow> settings \<Rightarrow> (db \<Rightarrow> db) \<Rightarrow> time \<Rightarrow> document option \<Rightarrow>
    ingestion_job \<Rightarrow> (('f, 'e, 'v) world, exn, document) call" where
  "default_process_document pf s env now document job =
     (case document of
        None \<Rightarrow> call_raise (ValueError (uni ''Document not found for job '' @ ing_id job))
      | Some doc \<Rightarrow>
          call_bind (on_files (extract_text (pf_readers pf) (pf_storage pf) doc)) (\<lambda>extracted.
          call_bind (call_lift (get_active_embedding_config s)) (\<lambda>config.
          call_bind (call_lift (new_chunker (set_chunk_size s) (set_chunk_overlap s))) (\<lambda>chunker.
          let chunks = chunk chunker extracted in
          call_bind (if chunks \<noteq> [] then index_chunks pf s env now config doc chunks else call_return ()) (\<lambda>_.
          call_return (mark_document_indexed now config doc))))))"

section \<open>The worker\<close>

definition claim_next_pending_job :: "(ustr \<Rightarrow> bool) \<Rightarrow> db \<Rightarrow> ingestion_job option" where
  "claim_next_pending_job locked d =
     oldest_by ing_created_at (filter (\<lambda>j. ing_status j = IngPending \<and> \<not> locked (ing_id j)) (ingestion_jobs d))"

definition set_ing_status :: "ingestion_status \<Rightarrow> time \<Rightarrow> ingestion_job \<Rightarrow> ingestion_job" where
  "set_ing_status st now j = j\<lparr>ing_status := st, ing_updated_at := now\<rparr>"

definition fail_ingestion :: "ustr \<Rightarrow> time \<Rightarrow> ingestion_job \<Rightarrow> ingestion_job" where
  "fail_ingestion msg now j = j\<lparr>ing_status := IngFailed, ing_error_message := Some msg, ing_updated_at := now\<rparr>"

definition needs_rollback :: "exn \<Rightarrow> bool" where
  "needs_rollback e \<longleftrightarrow> (case e of DatabaseErr _ \<Rightarrow> True | _ \<Rightarrow> False)"

definition pending_rollback :: exn where
  "pending_rollback = LibraryError (uni ''PendingRollbackError'')"

text \<open>\<open>now k\<close> is the clock at the \<open>k\<close>-th commit, \<open>lib\<close> the messages of library exceptions.\<close>

definition resolve_job :: "(exn \<Rightarrow> ustr) \<Rightarrow> time \<Rightarrow> (db \<Rightarrow> db) \<Rightarrow> ingestion_job \<Rightarrow> document option \<Rightarrow> exn + document \<Rightarrow>
    (('f, 'e, 'v) world, exn, ingestion_job option) call" where
  "resolve_job lib now env job document r w =
     (case r of
        Inl e \<Rightarrow>
          if needs_rollback e then (Inl pending_rollback, others env w)
          else commit_update (update_ingestion_job (ing_id job) (fail_ingestion (str_exn lib e) now))
                 (Some (fail_ingestion (str_exn lib e) now job)) (others env w)
      | Inr new \<Rightarrow>
          commit_update
            (\<lambda>d. update_ingestion_job (ing_id job) (set_ing_status IngCompleted now)
                   (case document of None \<Rightarrow> d | Some doc \<Rightarrow> update_documents doc new d))
            (Some (set_ing_status IngCompleted now job)) (others env w))"

definition process_next_job :: "('f, 'e, 'v) platform \<Rightarrow> settings \<Rightarrow> (exn \<Rightarrow> ustr) \<Rightarrow> (nat \<Rightarrow> time) \<Rightarrow> (nat \<Rightarrow> db \<Rightarrow> db) \<Rightarrow>
    (ustr \<Rightarrow> bool) \<Rightarrow> (('f, 'e, 'v) world, exn, ingestion_job option) call" where
  "process_next_job pf s lib now env locked w =
     (case claim_next_pending_job locked (w_db w) of
        None \<Rightarrow> (Inr None, w)
      | Some claimed \<Rightarrow>
          let job = set_ing_status IngProcessing (now 0) claimed in
          call_bind (commit_update (update_ingestion_job (ing_id job) (set_ing_status IngProcessing (now 0))) ())
            (\<lambda>_ w1.
               let w2 = others (env 0) w1;
                   document = get_document (w_db w2) (ing_document_id job) in
               case default_process_document pf s (env 1) (now 1) document job w2 of
                 (r, w3) \<Rightarrow> resolve_job lib (now 2) (env 2) job document r w3) w)"

section \<open>What processing writes\<close>


lemma index_chunks_cases:
  assumes run: "index_chunks pf s env now config doc chunks w = (r, w')"
  obtains (early) e where "r = Inl e" "w_files w' = w_files w" "w_index w' = w_index w" "w_db w' = w_db w"
  | (ensure) e where "r = Inl e" "w_files w' = w_files w"
      "ensure_active_collection env now (pf_vector_store pf s) config (w_index w, w_db w) = (Inl e, w_index w', w_db w')"
  | (upsert) vectors v where "w_files w' = w_files w" "length vectors = length chunks"
      "ensure_active_collection env now (pf_vector_store pf s) config (w_index w, w_db w) = (Inr (), v, w_db w')"
      "vs_upsert_vectors (pf_vector_store pf s) (config_collection_name config)
         (to_points (pf_uuid5 pf) doc chunks vectors) v = (r, w_index w')"
proof (cases "get_embedding_provider (pf_embedder pf) s")
  case (Inl e)
  with run show thesis
    by (intro early [of e]) (auto simp: index_chunks_def call_bind_def call_lift_def)
next
  case (Inr embedder)
  note emb = this
  obtain x es where x: "embedder (map chunk_text chunks) (w_embedder w) = (x, es)" by fastforce
  define w1 where "w1 = w\<lparr>w_embedder := es\<rparr>"
  have w1: "w_files w1 = w_files w" "w_index w1 = w_index w" "w_db w1 = w_db w" by (simp_all add: w1_def)
  show thesis
  proof (cases "\<exists>vectors. x = Inr vectors \<and> validate_embeddings vectors (length chunks) (cfg_dimension config) = Inr () \<and>
      get_vector_store (pf_vector_store pf) s = Inr (pf_vector_store pf s)")
    case False
    then have "r = Inl (projl r) \<and> w' = w1"
      using run emb x by (auto simp: index_chunks_def call_bind_def call_lift_def on_embedder_def w1_def
          get_vector_store_def split: sum.splits if_splits dest: sym)
    with w1 show thesis by (intro early [of "projl r"]) auto
  next
    case True
    then obtain vectors where v: "x = Inr vectors" "length vectors = length chunks"
      "validate_embeddings vectors (length chunks) (cfg_dimension config) = Inr ()"
      "get_vector_store (pf_vector_store pf) s = Inr (pf_vector_store pf s)"
      by (auto simp: validate_embeddings_Inr)
    obtain y v' d' where e: "ensure_active_collection env now (pf_vector_store pf s) config (w_index w, w_db w) = (y, v', d')"
      by (metis surj_pair)
    have step: "index_chunks pf s env now config doc chunks w =
        (case y of Inl e \<Rightarrow> (Inl e, w1\<lparr>w_index := v', w_db := d'\<rparr>)
         | Inr _ \<Rightarrow> on_index (vs_upsert_vectors (pf_vector_store pf s) (config_collection_name config)
             (to_points (pf_uuid5 pf) doc chunks vectors)) (w1\<lparr>w_index := v', w_db := d'\<rparr>))"
      using emb x v e w1 by (cases y) (simp_all add: index_chunks_def call_bind_def call_lift_def on_embedder_def on_registry_def w1_def)
    show thesis
    proof (cases y)
      case (Inl ex)
      with step run e w1 show thesis by (intro ensure [of ex]) auto
    next
      case (Inr u)
      with step run e w1 v(2) show thesis
        by (intro upsert [of vectors v']) (auto simp: on_index_def split: prod.splits)
    qed
  qed
qed

lemma index_chunks_frame:
  assumes "vector_index (pf_vector_store pf s) stored sizes"
    and "index_chunks pf s env now config doc chunks w = (r, w')"
  shows "w_files w' = w_files w \<and>
    (\<exists>d \<in> {w_db w, env (w_db w)}. (db_ok d \<longrightarrow> db_ok (w_db w')) \<and> documents (w_db w') = documents d \<and>
       ingestion_jobs (w_db w') = ingestion_jobs d \<and> deletion_jobs (w_db w') = deletion_jobs d \<and>
       reindex_jobs (w_db w') = reindex_jobs d \<and> cleanup_jobs (w_db w') = cleanup_jobs d)"
  using assms(2)
proof (cases rule: index_chunks_cases)
  case (early e)
  then show ?thesis by simp
next
  case (ensure e)
  with ensure_frame [OF assms(1) ensure(3)] show ?thesis by auto
next
  case (upsert vectors v)
  with ensure_frame [OF assms(1) upsert(3)] show ?thesis by auto
qed

lemma index_chunks_points:
  assumes vi: "vector_index (pf_vector_store pf s) stored sizes"
    and run: "index_chunks pf s env now config doc chunks w = (r, w')"
  shows "\<exists>vectors. length vectors = length chunks \<and>
     between (upsert_points (config_collection_name config) (to_points (pf_uuid5 pf) doc chunks vectors))
       (stored (w_index w)) (stored (w_index w')) \<and>
     (r = Inr () \<longrightarrow> stored (w_index w') =
        upsert_points (config_collection_name config) (to_points (pf_uuid5 pf) doc chunks vectors) (stored (w_index w)))"
  using run
proof (cases rule: index_chunks_cases)
  case (early e)
  then show ?thesis by (intro exI [of _ "map (\<lambda>_. []) chunks"]) simp
next
  case (ensure e)
  with ensure_frame [OF vi ensure(3)] show ?thesis
    by (intro exI [of _ "map (\<lambda>_. []) chunks"]) simp
next
  case (upsert vectors v)
  let ?ps = "to_points (pf_uuid5 pf) doc chunks vectors"
  have v: "stored v = stored (w_index w)" using ensure_frame [OF vi upsert(3)] by simp
  show ?thesis
    using upsert v vector_index.upsert_partial [OF vi, of "config_collection_name config" ?ps v]
      vector_index.upsert_ok [OF vi, of "config_collection_name config" ?ps v "()" "w_index w'"]
    by (intro exI [of _ vectors]) (auto simp: between_def)
qed

lemma to_points_ids:
  "length vectors = length chunks \<Longrightarrow> vp_id ` set (to_points uuid5 doc chunks vectors) = uuid5 ` chunk_id ` set chunks"
proof (induction vectors chunks rule: list_induct2)
  case Nil
  then show ?case by (simp add: to_points_def)
next
  case (Cons v vs c cs)
  then show ?case by (simp add: to_points_def) (simp add: to_vector_point_def)
qed

lemma to_points_document:
  assumes "\<forall>c \<in> set chunks. chk_document_id c = i" and "p \<in> set (to_points uuid5 doc chunks vectors)"
  shows "vp_document_id p = i"
  using assms by (auto simp: to_points_def to_vector_point_def set_zip)

lemma between_upsert_ids:
  assumes b: "between (upsert_points c ps) st t" and ids: "vp_id ` set ps \<subseteq> vp_id ` set qs"
  shows "upsert_points c qs t = upsert_points c qs st"
proof (rule ext)
  fix c'
  have eq: "t c' i = st c' i" if "c' \<noteq> c \<or> i \<notin> vp_id ` set qs" for i
  proof -
    have or: "t c' i = st c' i \<or> t c' i = upsert_points c ps st c' i"
      using b by (simp add: between_def)
    then show ?thesis
    proof (cases "c' = c")
      case True
      with that ids have "i \<notin> vp_id ` set ps" by blast
      with or True show ?thesis using put_points_other [of i ps "st c"] by (auto simp: upsert_points_def)
    qed (auto simp: upsert_points_def)
  qed
  show "upsert_points c qs t c' = upsert_points c qs st c'"
  proof (cases "c' = c")
    case True
    with eq have "put_points qs (t c) = put_points qs (st c)"
      by (intro put_points_cong) simp
    with True show ?thesis by (simp add: upsert_points_def)
  next
    case False
    with eq have "t c' = st c'" by auto
    with False show ?thesis by (simp add: upsert_points_def)
  qed
qed

text \<open>What processing a document writes: an upsert of one point per chunk, complete when it succeeds.\<close>

lemma process_cases:
  assumes run: "default_process_document pf s env now (Some doc) job w = (r, w')"
  obtains (early) e where "r = Inl e" "w_index w' = w_index w" "w_db w' = w_db w"
  | (indexed) extracted fs' config chunker r' w1 w2 where
      "extract_text (pf_readers pf) (pf_storage pf) doc (w_files w) = (Inr extracted, fs')"
      "get_active_embedding_config s = Inr config"
      "new_chunker (set_chunk_size s) (set_chunk_overlap s) = Inr chunker"
      "w1 = w\<lparr>w_files := fs'\<rparr>"
      "index_chunks pf s env now config doc (chunk chunker extracted) w1 = (r', w2)" "w' = w2"
      "r = map_sum id (\<lambda>_. mark_document_indexed now config doc) r'"
proof (cases "extract_text (pf_readers pf) (pf_storage pf) doc (w_files w)")
  case (Pair x fs')
  show thesis
  proof (cases x)
    case (Inl e)
    with run Pair show thesis
      by (intro early [of e]) (auto simp: default_process_document_def call_bind_def on_files_def)
  next
    case (Inr extracted)
    have files: "on_files (extract_text (pf_readers pf) (pf_storage pf) doc) w = (Inr extracted, w\<lparr>w_files := fs'\<rparr>)"
      by (simp add: on_files_def Pair Inr)
    show thesis
    proof (cases "get_active_embedding_config s")
      case (Inl e)
      with run files show thesis
        by (intro early [of e]) (auto simp: default_process_document_def call_bind_def call_lift_def)
    next
      case (Inr config)
      note cfg = this
      show thesis
      proof (cases "new_chunker (set_chunk_size s) (set_chunk_overlap s)")
        case (Inl e)
        with run files cfg show thesis
          by (intro early [of e]) (auto simp: default_process_document_def call_bind_def call_lift_def)
      next
        case (Inr chunker)
        have ne: "chunk chunker extracted \<noteq> []"
          using extracted_pages(2) [of "pf_readers pf" "pf_storage pf" doc "w_files w" extracted fs'] Pair \<open>x = Inr extracted\<close>
          by (simp add: chunk_eq_Nil)
        obtain r' w2 where ix: "index_chunks pf s env now config doc (chunk chunker extracted) (w\<lparr>w_files := fs'\<rparr>) = (r', w2)"
          by fastforce
        have "r = map_sum id (\<lambda>_. mark_document_indexed now config doc) r' \<and> w' = w2"
          using run files cfg Inr ix ne
          by (cases r') (auto simp: default_process_document_def call_bind_def call_lift_def call_return_def)
        with ix cfg Inr Pair \<open>x = Inr extracted\<close> show thesis
          by (intro indexed [of extracted fs' config chunker "w\<lparr>w_files := fs'\<rparr>" r' w2]) auto
      qed
    qed
  qed
qed

text \<open>A failed attempt leaves at most part of the points a later attempt on the same text overwrites.\<close>

lemma process_points:
  assumes vi: "vector_index (pf_vector_store pf s) stored sizes"
    and run: "default_process_document pf s env now (Some doc) job w = (r, w')"
    and cfg: "get_active_embedding_config s = Inr config"
    and chk: "new_chunker (set_chunk_size s) (set_chunk_overlap s) = Inr chunker"
    and ext: "fst (extract_text (pf_readers pf) (pf_storage pf) doc (w_files w)) = Inr extracted"
  shows "\<exists>vectors. length vectors = length (chunk chunker extracted) \<and>
     between (upsert_points (config_collection_name config)
         (to_points (pf_uuid5 pf) doc (chunk chunker extracted) vectors)) (stored (w_index w)) (stored (w_index w')) \<and>
     (\<forall>new. r = Inr new \<longrightarrow> stored (w_index w') = upsert_points (config_collection_name config)
         (to_points (pf_uuid5 pf) doc (chunk chunker extracted) vectors) (stored (w_index w)))"
  using run
proof (cases rule: process_cases)
  case (early e)
  then show ?thesis by (intro exI [of _ "map (\<lambda>_. []) (chunk chunker extracted)"]) simp
next
  case (indexed e fs' c ch r' w1 w2)
  with cfg chk ext have "c = config" "ch = chunker" "e = extracted" by auto
  with indexed index_chunks_points [OF vi indexed(5)] show ?thesis
    by (cases r') auto
qed

text \<open>A retry of a failed attempt is idempotent in the vector store: if the stored file is unchanged, a
  successful second attempt leaves exactly the points it would have left had the first attempt never run,
  wherever the first one failed, the upsert itself included.\<close>

theorem ingestion_retry_idempotent:
  assumes "vector_index (pf_vector_store pf s) stored sizes"
    and "default_process_document pf s env now (Some doc) job w = (Inl e, w1)"
    and "default_process_document pf s env' now' (Some doc) job' w2 = (Inr new, w3)"
    and "w_index w2 = w_index w1"
    and "fst (extract_text (pf_readers pf) (pf_storage pf) doc (w_files w2)) =
         fst (extract_text (pf_readers pf) (pf_storage pf) doc (w_files w))"
  shows "\<exists>config chunker extracted vectors.
    get_active_embedding_config s = Inr config \<and> new_chunker (set_chunk_size s) (set_chunk_overlap s) = Inr chunker \<and>
    fst (extract_text (pf_readers pf) (pf_storage pf) doc (w_files w2)) = Inr extracted \<and>
    stored (w_index w3) = upsert_points (config_collection_name config)
      (to_points (pf_uuid5 pf) doc (chunk chunker extracted) vectors) (stored (w_index w))"
  using assms(3)
proof (cases rule: process_cases)
  case (early e')
  then show ?thesis by simp
next
  case (indexed extracted fs' config chunker r' w1' w2')
  have ext: "fst (extract_text (pf_readers pf) (pf_storage pf) doc (w_files w2)) = Inr extracted"
    using indexed(1) by simp
  let ?ps = "to_points (pf_uuid5 pf) doc (chunk chunker extracted)"
  from process_points [OF assms(1,3) indexed(2,3) ext] obtain vs where vs:
    "length vs = length (chunk chunker extracted)"
    "stored (w_index w3) = upsert_points (config_collection_name config) (?ps vs) (stored (w_index w2))" by blast
  from process_points [OF assms(1,2) indexed(2,3)] ext assms(5) obtain us where us:
    "length us = length (chunk chunker extracted)"
    "between (upsert_points (config_collection_name config) (?ps us)) (stored (w_index w)) (stored (w_index w1))"
    by fastforce
  have "vp_id ` set (?ps us) \<subseteq> vp_id ` set (?ps vs)"
    using us(1) vs(1) by (simp add: to_points_ids)
  from between_upsert_ids [OF us(2) this] vs(2) assms(4) indexed(2,3) ext show ?thesis by auto
qed

section \<open>Running the worker\<close>

lemma claim_Some: "claim_next_pending_job locked d = Some j \<Longrightarrow>
    j \<in> set (ingestion_jobs d) \<and> ing_status j = IngPending \<and> \<not> locked (ing_id j) \<and>
    (\<forall>k \<in> set (ingestion_jobs d). ing_status k = IngPending \<and> \<not> locked (ing_id k) \<longrightarrow> ing_created_at j \<le> ing_created_at k)"
  by (auto simp: claim_next_pending_job_def dest!: oldest_by_Some)

lemma set_ing_status_simps [simp]:
  "ing_id (set_ing_status st now j) = ing_id j" "ing_document_id (set_ing_status st now j) = ing_document_id j"
  "ing_status (set_ing_status st now j) = st" "ing_error_message (set_ing_status st now j) = ing_error_message j"
  "ing_created_at (set_ing_status st now j) = ing_created_at j"
  "ingestion_columns (set_ing_status st now j) = ingestion_columns j"
  by (simp_all add: set_ing_status_def ingestion_columns_def)

lemma fail_ingestion_simps [simp]:
  "ing_id (fail_ingestion msg now j) = ing_id j" "ing_document_id (fail_ingestion msg now j) = ing_document_id j"
  "ing_status (fail_ingestion msg now j) = IngFailed" "ing_created_at (fail_ingestion msg now j) = ing_created_at j"
  "ing_error_message (fail_ingestion msg now j) = Some msg"
  by (simp_all add: fail_ingestion_def)

lemma row_by_id: "db_ok d \<Longrightarrow> j \<in> set (ingestion_jobs d) \<Longrightarrow> k \<in> set (ingestion_jobs d) \<Longrightarrow> ing_id j = ing_id k \<Longrightarrow> j = k"
  using ing_table.primary_key [of d] by (auto simp: distinct_map inj_on_def)

lemma ingestion_row_fits: "db_ok d \<Longrightarrow> j \<in> set (ingestion_jobs d) \<Longrightarrow> ingestion_columns j = None"
  by (auto simp: db_ok_checks check_None fits_def)

lemma claim_commits:
  assumes "db_ok d" and "claim_next_pending_job locked d = Some j"
  shows "db_ok (update_ingestion_job (ing_id j) (set_ing_status IngProcessing t) d)"
proof (rule update_ingestion_job_ok [OF assms(1)])
  fix k assume "k \<in> set (ingestion_jobs d)" "ing_id k = ing_id j"
  with claim_Some [OF assms(2)] row_by_id [OF assms(1), of k j] have "k = j" "ing_status j = IngPending" by auto
  then show "ing_id (set_ing_status IngProcessing t k) = ing_id j \<and>
      ing_document_id (set_ing_status IngProcessing t k) = ing_document_id k \<and>
      ingestion_columns (set_ing_status IngProcessing t k) = None \<and>
      (ing_active (set_ing_status IngProcessing t k) \<longrightarrow> ing_active k)"
    using ingestion_row_fits [OF assms(1) \<open>k \<in> set (ingestion_jobs d)\<close>] by (simp add: ing_active_def)
qed

lemma process_next_cases:
  assumes run: "process_next_job pf s lib now env locked w = (r, w')" and ok: "db_ok (w_db w)"
  obtains (idle) "claim_next_pending_job locked (w_db w) = None" "r = Inr None" "w' = w"
  | (processed) claimed d pr w3 where
      "claim_next_pending_job locked (w_db w) = Some claimed"
      "d = env 0 (update_ingestion_job (ing_id claimed) (set_ing_status IngProcessing (now 0)) (w_db w))"
      "default_process_document pf s (env 1) (now 1) (get_document d (ing_document_id claimed))
         (set_ing_status IngProcessing (now 0) claimed) (w\<lparr>w_db := d\<rparr>) = (pr, w3)"
      "resolve_job lib (now 2) (env 2) (set_ing_status IngProcessing (now 0) claimed)
         (get_document d (ing_document_id claimed)) pr w3 = (r, w')"
proof (cases "claim_next_pending_job locked (w_db w)")
  case None
  with run show thesis by (intro idle) (auto simp: process_next_job_def)
next
  case (Some j)
  let ?job = "set_ing_status IngProcessing (now 0) j"
  define d1 where "d1 = update_ingestion_job (ing_id j) (set_ing_status IngProcessing (now 0)) (w_db w)"
  have c: "commit_update (update_ingestion_job (ing_id j) (set_ing_status IngProcessing (now 0))) () w = (Inr (), w\<lparr>w_db := d1\<rparr>)"
    using claim_commits [OF ok Some] by (simp add: commit_update_Inr d1_def)
  obtain pr w3 where p: "default_process_document pf s (env 1) (now 1) (get_document (env 0 d1) (ing_document_id j)) ?job
      (w\<lparr>w_db := env 0 d1\<rparr>) = (pr, w3)" by fastforce
  have "resolve_job lib (now 2) (env 2) ?job (get_document (env 0 d1) (ing_document_id j)) pr w3 = (r, w')"
    using run Some c p by (simp add: process_next_job_def Let_def call_bind_def others_def)
  with Some p show thesis by (intro processed [of j "env 0 d1" pr w3]) (simp_all add: d1_def)
qed

lemma chunk_ids_inj: "a \<in> set (chunk ch e) \<Longrightarrow> b \<in> set (chunk ch e) \<Longrightarrow> chunk_id a = chunk_id b \<Longrightarrow> a = b"
proof -
  have "map chunk_id (chunk ch e) = map (\<lambda>k. ext_document_id e @ uni ''-'' @ dec k) [0..<length (chunk ch e)]"
    using chunk_pages_ids [of ch "ext_document_id e" 0 "pages e"] by (simp add: chunk_def)
  moreover have "distinct (map (\<lambda>k. ext_document_id e @ uni ''-'' @ dec k) [0..<length (chunk ch e)])"
    by (simp add: distinct_map inj_on_def)
  ultimately have "inj_on chunk_id (set (chunk ch e))"
    by (metis distinct_map)
  then show "a \<in> set (chunk ch e) \<Longrightarrow> b \<in> set (chunk ch e) \<Longrightarrow> chunk_id a = chunk_id b \<Longrightarrow> a = b"
    by (simp add: inj_on_def)
qed

text \<open>What an index holds of a document's chunks: under the identifier of every chunk a point of a chunk with
  that identifier, hence the chunk's own point when the identifiers of the document's chunks are distinct.\<close>

definition chunks_held :: "(ustr \<Rightarrow> ustr) \<Rightarrow> ustr \<Rightarrow> document_chunk list \<Rightarrow> (ustr \<Rightarrow> vector_point option) \<Rightarrow> bool" where
  "chunks_held uuid5 file cs points \<longleftrightarrow>
     (\<forall>k \<in> set cs. \<exists>k' \<in> set cs. \<exists>v. uuid5 (chunk_id k') = uuid5 (chunk_id k) \<and>
        points (uuid5 (chunk_id k)) = Some (to_vector_point uuid5 file k' v)) \<and>
     (inj_on uuid5 (chunk_id ` set cs) \<longrightarrow>
        (\<forall>k \<in> set cs. \<exists>v. points (uuid5 (chunk_id k)) = Some (to_vector_point uuid5 file k v)))"

lemma upserted_chunks:
  assumes "length vectors = length (chunk ch e)"
  shows "chunks_held uuid5 (original_filename doc) (chunk ch e)
    (upsert_points c (to_points uuid5 doc (chunk ch e) vectors) st c)"
proof -
  let ?ps = "to_points uuid5 doc (chunk ch e) vectors"
  have held: "\<exists>k' \<in> set (chunk ch e). \<exists>v. uuid5 (chunk_id k') = uuid5 (chunk_id k) \<and>
      put_points ?ps (st c) (uuid5 (chunk_id k)) = Some (to_vector_point uuid5 (original_filename doc) k' v)"
    if k: "k \<in> set (chunk ch e)" for k
  proof -
    have "uuid5 (chunk_id k) \<in> vp_id ` set ?ps"
      using assms k by (simp add: to_points_ids)
    then obtain p where p: "p \<in> set ?ps" "vp_id p = uuid5 (chunk_id k)"
      "put_points ?ps (st c) (uuid5 (chunk_id k)) = Some p"
      using put_points_in by meson
    then obtain k' v where "k' \<in> set (chunk ch e)" "p = to_vector_point uuid5 (original_filename doc) k' v"
      by (auto simp: to_points_def dest: set_zip_leftD)
    with p(2,3) show ?thesis by (auto simp: to_vector_point_def)
  qed
  moreover have "\<exists>v. put_points ?ps (st c) (uuid5 (chunk_id k)) = Some (to_vector_point uuid5 (original_filename doc) k v)"
    if k: "k \<in> set (chunk ch e)" and i: "inj_on uuid5 (chunk_id ` set (chunk ch e))" for k
    using held [OF k] chunk_ids_inj [OF _ k] k by (auto dest: inj_onD [OF i])
  ultimately show ?thesis by (auto simp: chunks_held_def upsert_points_def)
qed

lemma extract_text_cong:
  assumes "doc_id a = doc_id b" and "original_filename a = original_filename b"
    and "storage_key a = storage_key b" and "stored_path a = stored_path b"
  shows "extract_text rd fs a = extract_text rd fs b"
proof -
  have "resolve_document_storage_key a = resolve_document_storage_key b"
    using assms by (simp add: resolve_document_storage_key_def split: option.split)
  moreover have "extract_sync rd a = extract_sync rd b"
    by (intro ext) (unfold extract_sync_def assms(1,2), rule refl)
  ultimately have "extract_text rd fs a x = extract_text rd fs b x" for x
    by (unfold extract_text_def) (simp only:)
  then show ?thesis by (rule ext)
qed

lemma indexed_chunks:
  assumes vi: "vector_index (pf_vector_store pf s) stored sizes"
    and run: "index_chunks pf s env now config doc (chunk ch e) w = (Inr (), w')"
  shows "chunks_held (pf_uuid5 pf) (original_filename doc) (chunk ch e) (stored (w_index w') (config_collection_name config))"
  using index_chunks_points [OF vi run] upserted_chunks by fastforce

lemma resolve_completed:
  assumes "resolve_job lib now env job document pr w = (Inr (Some j), w')" and "ing_status j = IngCompleted"
  obtains new where "pr = Inr new" "j = set_ing_status IngCompleted now job"
    "w' = w\<lparr>w_db := update_ingestion_job (ing_id job) (set_ing_status IngCompleted now)
        (case document of None \<Rightarrow> env (w_db w) | Some doc \<Rightarrow> update_documents doc new (env (w_db w)))\<rparr>"
    "db_ok (w_db w')"
  using assms by (cases pr; cases document) (auto simp: resolve_job_def commit_update_Inr others_def split: if_splits)

text \<open>C7: When the worker reports a job as completed, and no other session changed the document meanwhile,
  the document's row names the active collection, and under the point identifier of every chunk of the
  stored file that collection holds the text and the metadata of a chunk of the document with that
  identifier.  Identifiers are hashes (uuid5) of the chunk identifiers: when they do not collide within the
  document, every chunk has its own point.\<close>

theorem completed_ingestion_is_indexed:
  assumes vi: "vector_index (pf_vector_store pf s) stored sizes"
    and ok: "db_ok (w_db w)" and env: "\<forall>k d. documents (env k d) = documents d"
    and run: "process_next_job pf s lib now env locked w = (Inr (Some job), w')" and fin: "ing_status job = IngCompleted"
  shows "db_ok (w_db w') \<and> (\<exists>config doc extracted chunker.
    get_active_embedding_config s = Inr config \<and> get_document (w_db w') (ing_document_id job) = Some doc \<and>
    collection_name doc = Some (config_collection_name config) \<and>
    fst (extract_text (pf_readers pf) (pf_storage pf) doc (w_files w)) = Inr extracted \<and>
    new_chunker (set_chunk_size s) (set_chunk_overlap s) = Inr chunker \<and> chunk chunker extracted \<noteq> [] \<and>
    chunks_held (pf_uuid5 pf) (original_filename doc) (chunk chunker extracted)
      (stored (w_index w') (config_collection_name config)))"
  using run ok
proof (cases rule: process_next_cases)
  case idle
  then show ?thesis by simp
next
  case (processed claimed d pr w3)
  from processed(4) fin obtain new where pr: "pr = Inr new" "job = set_ing_status IngCompleted (now 2) (set_ing_status IngProcessing (now 0) claimed)"
    and w': "w' = w3\<lparr>w_db := update_ingestion_job (ing_id claimed) (set_ing_status IngCompleted (now 2))
        (case get_document d (ing_document_id claimed) of None \<Rightarrow> env 2 (w_db w3)
         | Some doc \<Rightarrow> update_documents doc new (env 2 (w_db w3)))\<rparr>" and ok': "db_ok (w_db w')"
    by (rule resolve_completed) simp_all
  obtain doc where doc: "get_document d (ing_document_id claimed) = Some doc"
    using processed(3) pr(1) by (cases "get_document d (ing_document_id claimed)")
      (auto simp: default_process_document_def call_raise_def)
  then have did: "doc_id doc = ing_document_id claimed"
    using get_row_Some unfolding get_document_def by fastforce
  from processed(3) doc have p: "default_process_document pf s (env 1) (now 1) (Some doc)
      (set_ing_status IngProcessing (now 0) claimed) (w\<lparr>w_db := d\<rparr>) = (pr, w3)" by simp
  from p show ?thesis
  proof (cases rule: process_cases)
    case (early e)
    with pr show ?thesis by simp
  next
    case (indexed extracted fs' config chunker r' w1 w2)
    from indexed(7) pr(1) have r': "r' = Inr ()" and new: "new = mark_document_indexed (now 1) config doc"
      by (cases r'; simp)+
    have docs: "documents (w_db w3) = documents d"
      using index_chunks_frame [OF vi indexed(5)] env indexed(4,6) by auto
    have row: "get_document (w_db w') (ing_document_id job) = Some (flush_document doc new doc)"
      using w' doc did docs env pr(2) get_document_cong [of "env 2 (w_db w3)" d] by (simp add: update_documents_get)
    have same: "extract_text (pf_readers pf) (pf_storage pf) (flush_document doc new doc) = extract_text (pf_readers pf) (pf_storage pf) doc"
      by (rule extract_text_cong) simp_all
    have ne: "chunk chunker extracted \<noteq> []"
      using extracted_pages(2) [OF indexed(1)] by (simp add: chunk_eq_Nil)
    have "w_index w' = w_index w2" using w' indexed(6) by simp
    note pts = indexed_chunks [OF vi indexed(5) [unfolded r'], folded this]
    show ?thesis
      using ok' indexed(1,2,3) row same ne pts new
      by (intro conjI exI [of _ config] exI [of _ "flush_document doc new doc"] exI [of _ extracted] exI [of _ chunker])
        (auto simp: mark_document_indexed_def)
  qed
qed

section \<open>A platform for concrete runs\<close>

definition sample_settings :: settings where
  "sample_settings = default_settings\<lparr>vector_size := 1\<rparr>"

definition sample_config :: embedding_index_config where
  "sample_config = \<lparr>cfg_collection_prefix = uni ''documents'', cfg_provider = uni ''ollama'', cfg_model = uni ''bge-m3'',
     cfg_dimension = 1, cfg_embedding_version = uni ''v2'', cfg_chunking_version = uni ''v1''\<rparr>"

definition sample_name :: ustr where
  "sample_name = config_collection_name sample_config"

definition unit_embedder :: "unit embedder" where
  "unit_embedder ts s = (Inr (map (\<lambda>_. [1]) ts), s)"

definition sample_platform :: "(local_fs, unit, mem_index) platform" where
  "sample_platform = \<lparr>pf_readers = no_readers, pf_storage = sample_storage, pf_embedder = (\<lambda>_. unit_embedder),
     pf_vector_store = (\<lambda>_. qdrant_vector_store mem_qdrant), pf_uuid5 = id\<rparr>"

definition ready_index :: mem_index where
  "ready_index = empty_index\<lparr>mi_sizes := [sample_name \<mapsto> 1]\<rparr>"

definition sample_job :: "ustr \<Rightarrow> ingestion_status \<Rightarrow> time \<Rightarrow> ingestion_job" where
  "sample_job i st t = \<lparr>ing_id = i, ing_document_id = uni ''d1'', ing_status = st, ing_error_message = None,
     ing_created_at = t, ing_updated_at = t\<rparr>"

definition ingestion_db :: "ingestion_job list \<Rightarrow> db" where
  "ingestion_db js = sample_db\<lparr>index_collections := [new_index_collection sample_config 0], ingestion_jobs := js\<rparr>"

definition sample_world :: "ingestion_job list \<Rightarrow> (local_fs, unit, mem_index) world" where
  "sample_world js = \<lparr>w_files = stored_text, w_embedder = (), w_index = ready_index, w_db = ingestion_db js\<rparr>"

lemma sample_platform_simps [simp]:
  "pf_readers sample_platform = no_readers" "pf_storage sample_platform = sample_storage"
  "pf_embedder sample_platform = (\<lambda>_. unit_embedder)"
  "pf_vector_store sample_platform = (\<lambda>_. qdrant_vector_store mem_qdrant)" "pf_uuid5 sample_platform = id"
  by (simp_all add: sample_platform_def)

lemma sample_config_active: "get_active_embedding_config sample_settings = Inr sample_config"
  by (simp add: get_active_embedding_config_def post_init_def resolved_embedding_model_def or_default_def
      sample_settings_def default_settings_def sample_config_def py_strip_eq_Nil uni_def py_space_def)

lemma sample_name_eq: "sample_name = uni ''documents__ollama__bge-m3__ev2__cv1__d1''"
  by (simp add: sample_name_def sample_config_def config_collection_name_def name_defs uni_def str_int_def dec.simps)

lemma sample_platform_index: "vector_index (pf_vector_store sample_platform s) mem_stored mi_sizes"
  using mem.index.vector_index_axioms by simp

lemma sample_chunker_ok: "\<exists>ch. new_chunker (set_chunk_size sample_settings) (set_chunk_overlap sample_settings) = Inr ch"
  by (simp add: new_chunker_def sample_settings_def default_settings_def)

lemma ingestion_db_ok:
  assumes "fits ingestion_columns js" and "distinct (map ing_id js)" and "one_active ing_document_id ing_active js"
    and "\<forall>j \<in> set js. ing_document_id j = uni ''d1''"
  shows "db_ok (ingestion_db js)"
proof -
  have "length (config_collection_name sample_config) \<le> 255"
    using sample_name_eq by (simp add: sample_name_def)
  then show ?thesis
    using assms sample_db_valid
    by (simp add: db_ok_checks ingestion_db_def)
      (simp add: check_None fits_def sample_db_def sample_document_def empty_db_def index_collection_columns_def
        new_index_collection_def sample_config_def too_long_def no_int4_def)
qed

lemma sample_job_simps [simp]:
  "ing_id (sample_job i st t) = i" "ing_document_id (sample_job i st t) = uni ''d1''" "ing_status (sample_job i st t) = st"
  "ing_created_at (sample_job i st t) = t" "ing_updated_at (sample_job i st t) = t"
  "ingestion_columns (sample_job i st t) = None \<longleftrightarrow> length i \<le> 36"
  by (simp_all add: sample_job_def ingestion_columns_def too_long_def too_long_opt_def)

lemma sample_process:
  assumes "mi_failures (w_index w) = []" and "mi_sizes (w_index w) sample_name = Some 1" and "w_files w = stored_text"
    and "get_index_collection (env (w_db w)) sample_name \<noteq> None"
  shows "\<exists>v. default_process_document sample_platform sample_settings env now (Some (sample_document (uni ''d1''))) job w =
    (Inr (mark_document_indexed now sample_config (sample_document (uni ''d1''))), w\<lparr>w_index := v, w_db := env (w_db w)\<rparr>)"
proof -
  obtain e where e: "extract_text no_readers sample_storage (sample_document (uni ''d1'')) stored_text = (Inr e, stored_text)"
    using stored_text_extracted by blast
  obtain ch where ch: "new_chunker (set_chunk_size sample_settings) (set_chunk_overlap sample_settings) = Inr ch"
    using sample_chunker_ok by blast
  have emb: "get_embedding_provider (pf_embedder sample_platform) sample_settings = Inr unit_embedder"
    and vst: "get_vector_store (pf_vector_store sample_platform) sample_settings = Inr (qdrant_vector_store mem_qdrant)"
    by (simp_all add: get_embedding_provider_def get_vector_store_def sample_settings_def default_settings_def)
  have val: "validate_embeddings (map (\<lambda>_. [1]) cs) (length cs) (cfg_dimension sample_config) = Inr ()" for cs :: "ustr list"
    by (simp add: validate_embeddings_Inr sample_config_def)
  have ens: "ensure_active_collection env now (qdrant_vector_store mem_qdrant) sample_config (w_index w, w_db w) =
      (Inr (), w_index w, env (w_db w))"
    using assms(1,2,4) by (auto simp: ensure_active_collection_def mem_runs sample_name_def [symmetric])
      (auto simp: sample_config_def)
  have ne: "chunk ch e \<noteq> []"
    using extracted_pages(2) [OF e] by (simp add: chunk_eq_Nil)
  show ?thesis
    using e ch emb vst ne val [of "map chunk_text (chunk ch e)"] ens assms(1,2,3)
    by (simp add: default_process_document_def index_chunks_def call_bind_def call_lift_def call_return_def
        on_files_def on_embedder_def on_registry_def on_index_def unit_embedder_def sample_config_active mem_runs
        sample_name_def [symmetric] Let_def)
      (intro exI world.equality, simp_all)
qed


lemma sample_process_down:
  assumes "mi_failures (w_index w) = [Some (OtherError m)]" and "w_files w = stored_text"
  shows "default_process_document sample_platform sample_settings env now (Some (sample_document (uni ''d1''))) job w =
    (Inl (LibraryError m), w\<lparr>w_index := quiet (w_index w), w_db := env (w_db w)\<rparr>)"
proof -
  obtain e where e: "extract_text no_readers sample_storage (sample_document (uni ''d1'')) stored_text = (Inr e, stored_text)"
    using stored_text_extracted by blast
  obtain ch where ch: "new_chunker (set_chunk_size sample_settings) (set_chunk_overlap sample_settings) = Inr ch"
    using sample_chunker_ok by blast
  have emb: "get_embedding_provider (pf_embedder sample_platform) sample_settings = Inr unit_embedder"
    and vst: "get_vector_store (pf_vector_store sample_platform) sample_settings = Inr (qdrant_vector_store mem_qdrant)"
    by (simp_all add: get_embedding_provider_def get_vector_store_def sample_settings_def default_settings_def)
  have val: "validate_embeddings (map (\<lambda>_. [1]) cs) (length cs) (cfg_dimension sample_config) = Inr ()" for cs :: "ustr list"
    by (simp add: validate_embeddings_Inr sample_config_def)
  have "collection_vector_size mem_qdrant c (w_index w) = (Inl (LibraryError m), quiet (w_index w))" for c
    using assms(1) by (simp add: collection_vector_size_def request_def retry_async_def retry_loop.simps request_call_def
        mem_qdrant_def sample_policy_def mem_http_def quiet_def)
  then have ens: "ensure_active_collection env now (qdrant_vector_store mem_qdrant) sample_config (w_index w, w_db w) =
      (Inl (LibraryError m), quiet (w_index w), env (w_db w))"
    by (simp add: ensure_active_collection_def mem_store_sel)
  have ne: "chunk ch e \<noteq> []"
    using extracted_pages(2) [OF e] by (simp add: chunk_eq_Nil)
  show ?thesis
    using e ch emb vst ne val [of "map chunk_text (chunk ch e)"] ens assms(2)
    by (simp add: default_process_document_def index_chunks_def call_bind_def call_lift_def call_return_def
        on_files_def on_embedder_def on_registry_def on_index_def unit_embedder_def sample_config_active Let_def)
qed

lemma ingestion_db_simps [simp]:
  "ingestion_jobs (ingestion_db js) = js" "documents (ingestion_db js) = [sample_document (uni ''d1'')]"
  "index_collections (ingestion_db js) = [new_index_collection sample_config 0]"
  "doc_id (sample_document i) = i"
  by (simp_all add: ingestion_db_def sample_db_def sample_document_def)

lemma ingestion_db_collection [simp]: "get_index_collection (ingestion_db js) sample_name \<noteq> None"
  by (simp add: get_index_collection_def new_index_collection_def sample_name_def)

lemma ingestion_db_update: "update_ingestion_job i f (ingestion_db js) = ingestion_db (update_row ing_id i f js)"
  by (simp add: update_ingestion_job_def ingestion_db_def)

text \<open>A worker run on one pending job.\<close>

lemma sample_ingestion:
  "\<exists>w' job. process_next_job sample_platform sample_settings lib int (\<lambda>_. id) (\<lambda>_. False)
     (sample_world [sample_job (uni ''j1'') IngPending 1]) = (Inr (Some job), w') \<and> ing_status job = IngCompleted"
proof -
  let ?j = "sample_job (uni ''j1'') IngPending 1"
  let ?d = "ingestion_db [set_ing_status IngProcessing 0 ?j]"
  have c: "claim_next_pending_job (\<lambda>_. False) (ingestion_db [?j]) = Some ?j"
    by (simp add: claim_next_pending_job_def)
  have ok: "db_ok (ingestion_db [?j])" "db_ok ?d"
    by (rule ingestion_db_ok; simp add: one_active_def)+
  have doc: "get_document ?d (uni ''d1'') = Some (sample_document (uni ''d1''))"
    by (simp add: get_document_def)
  let ?w = "sample_world [?j]\<lparr>w_db := ?d\<rparr>"
  obtain v where v: "default_process_document sample_platform sample_settings id 1 (Some (sample_document (uni ''d1'')))
      (set_ing_status IngProcessing 0 ?j) ?w = (Inr (mark_document_indexed 1 sample_config (sample_document (uni ''d1''))),
      ?w\<lparr>w_index := v, w_db := ?d\<rparr>)"
    using sample_process [of ?w id 1] by (auto simp: sample_world_def ready_index_def empty_index_def)
  let ?n = "mark_document_indexed 1 sample_config (sample_document (uni ''d1''))"
  let ?d2 = "update_ingestion_job (uni ''j1'') (set_ing_status IngCompleted 2) (update_documents (sample_document (uni ''d1'')) ?n ?d)"
  have "documents ?d2 = [?n]"
    by (simp add: update_documents_def mark_document_indexed_def sample_document_def)
  then have "check_documents ?d2 = None"
    using sample_name_eq by (simp add: check_None fits_def mark_document_indexed_def sample_document_def document_columns_def
        sample_config_def too_long_def too_long_opt_def no_int4_def no_int4_opt_def map_filter_simps new_index_collection_def
        sample_name_def)
  moreover have "check_index_collections ?d2 = None"
    using ok(2) by (simp add: db_ok_checks check_None)
  moreover have "check_ingestion_jobs ?d2 = None"
    using ok(2) by (simp add: db_ok_checks check_None one_active_def)
  moreover have "deletion_jobs ?d2 = []" "reindex_jobs ?d2 = []" "cleanup_jobs ?d2 = []"
    by (simp_all add: ingestion_db_def sample_db_def empty_db_def)
  ultimately have "db_ok ?d2"
    by (simp add: db_ok_checks) (simp add: check_None)
  then show ?thesis
    using c ok doc v by (auto simp: process_next_job_def Let_def call_bind_def commit_update_def ingestion_db_update
        others_def resolve_job_def sample_world_def)
qed

theorem completed_ingestion_is_indexed_witness:
  "\<exists>job w' doc e ch. process_next_job sample_platform sample_settings (\<lambda>_. []) int (\<lambda>_. id) (\<lambda>_. False)
      (sample_world [sample_job (uni ''j1'') IngPending 1]) = (Inr (Some job), w') \<and> ing_status job = IngCompleted \<and>
    db_ok (w_db w') \<and> get_document (w_db w') (uni ''d1'') = Some doc \<and> collection_name doc = Some sample_name \<and>
    fst (extract_text no_readers sample_storage doc stored_text) = Inr e \<and> chunk ch e \<noteq> [] \<and>
    (\<forall>k \<in> set (chunk ch e). \<exists>v. mem_stored (w_index w') sample_name (chunk_id k) =
       Some (to_vector_point id (original_filename doc) k v))"
proof -
  let ?w = "sample_world [sample_job (uni ''j1'') IngPending 1]"
  have ok: "db_ok (w_db ?w)"
    unfolding sample_world_def by simp (rule ingestion_db_ok; simp add: one_active_def)
  have files: "w_files ?w = stored_text" by (simp add: sample_world_def)
  obtain w' job where run: "process_next_job sample_platform sample_settings (\<lambda>_. []) int (\<lambda>_. id) (\<lambda>_. False) ?w =
      (Inr (Some job), w')" "ing_status job = IngCompleted"
    using sample_ingestion by blast
  have i: "ing_document_id job = uni ''d1''"
    using run(1) ok
  proof (cases rule: process_next_cases)
    case (processed claimed d pr w3)
    from processed(1) have "ing_document_id claimed = uni ''d1''"
      by (auto simp: claim_next_pending_job_def sample_world_def)
    moreover from processed(4) run(2) have "ing_document_id job = ing_document_id claimed"
      by (rule resolve_completed) simp_all
    ultimately show ?thesis by simp
  qed simp
  from completed_ingestion_is_indexed [OF sample_platform_index ok _ run, unfolded i files] obtain doc e ch where
    "db_ok (w_db w')" "get_document (w_db w') (uni ''d1'') = Some doc" "collection_name doc = Some sample_name"
    "fst (extract_text no_readers sample_storage doc stored_text) = Inr e" "chunk ch e \<noteq> []"
    "chunks_held id (original_filename doc) (chunk ch e) (mem_stored (w_index w') sample_name)"
    by (auto simp: sample_config_active sample_name_def)
  with run show ?thesis
    by (intro exI [of _ job] exI [of _ w'] exI [of _ doc] exI [of _ e] exI [of _ ch]) (simp add: chunks_held_def)
qed

text \<open>A first attempt whose server is down, a second one that succeeds.\<close>

theorem ingestion_retry_idempotent_witness:
  "\<exists>w1 w3 e new vectors ch txt. default_process_document sample_platform sample_settings id 1 (Some (sample_document (uni ''d1'')))
      (sample_job (uni ''j1'') IngProcessing 1)
      (sample_world []\<lparr>w_index := ready_index\<lparr>mi_failures := [Some (OtherError (uni ''down''))]\<rparr>\<rparr>) = (Inl e, w1) \<and>
    default_process_document sample_platform sample_settings id 5 (Some (sample_document (uni ''d1'')))
      (sample_job (uni ''j2'') IngProcessing 2) w1 = (Inr new, w3) \<and>
    mem_stored (w_index w3) = upsert_points sample_name (to_points id (sample_document (uni ''d1'')) (chunk ch txt) vectors)
      (mem_stored (ready_index\<lparr>mi_failures := [Some (OtherError (uni ''down''))]\<rparr>))"
proof -
  let ?w = "sample_world []\<lparr>w_index := ready_index\<lparr>mi_failures := [Some (OtherError (uni ''down''))]\<rparr>\<rparr>"
  let ?w1 = "?w\<lparr>w_index := quiet (w_index ?w), w_db := id (w_db ?w)\<rparr>"
  have f: "default_process_document sample_platform sample_settings id 1 (Some (sample_document (uni ''d1'')))
      (sample_job (uni ''j1'') IngProcessing 1) ?w = (Inl (LibraryError (uni ''down'')), ?w1)"
    by (rule sample_process_down) (simp_all add: sample_world_def)
  obtain v where g: "default_process_document sample_platform sample_settings id 5 (Some (sample_document (uni ''d1'')))
      (sample_job (uni ''j2'') IngProcessing 2) ?w1 = (Inr (mark_document_indexed 5 sample_config (sample_document (uni ''d1''))),
      ?w1\<lparr>w_index := v, w_db := id (w_db ?w1)\<rparr>)"
    using sample_process [of ?w1 id 5] by (auto simp: sample_world_def ready_index_def quiet_def)
  from ingestion_retry_idempotent [OF sample_platform_index f g refl] show ?thesis
    using f g by (auto simp: sample_config_active sample_name_def sample_world_def)
qed

lemma process_frame:
  assumes vi: "vector_index (pf_vector_store pf s) stored sizes"
    and run: "default_process_document pf s env now document job w = (r, w')"
  shows "\<exists>d \<in> {w_db w, env (w_db w)}. (db_ok d \<longrightarrow> db_ok (w_db w')) \<and> documents (w_db w') = documents d \<and>
       ingestion_jobs (w_db w') = ingestion_jobs d \<and> deletion_jobs (w_db w') = deletion_jobs d \<and>
       reindex_jobs (w_db w') = reindex_jobs d \<and> cleanup_jobs (w_db w') = cleanup_jobs d"
proof (cases document)
  case None
  with run show ?thesis by (simp add: default_process_document_def call_raise_def)
next
  case (Some doc)
  from run [unfolded Some] show ?thesis
  proof (cases rule: process_cases)
    case (early e)
    then show ?thesis by simp
  next
    case (indexed e fs' c ch r' w1 w2)
    with index_chunks_frame [OF vi indexed(5)] show ?thesis by auto
  qed
qed

lemma long_ingestion_error:
  assumes ok: "db_ok d" and j: "j \<in> set (ingestion_jobs d)" and long: "2048 < length msg"
  shows "db_violation (update_ingestion_job (ing_id j) (fail_ingestion msg now) d) = Some (DataError (uni ''error_message''))"
proof -
  have f: "ingestion_columns (fail_ingestion msg now k) = Some (DataError (uni ''error_message''))"
    if "k \<in> set (ingestion_jobs d)" for k
    using ingestion_row_fits [OF ok that] long
    by (auto simp: ingestion_columns_def fail_ingestion_def too_long_opt_def split: if_splits)
  have "first_some (map ingestion_columns (update_row ing_id (ing_id j) (fail_ingestion msg now) (ingestion_jobs d)) @ xs) =
      Some (DataError (uni ''error_message''))" for xs
  proof (rule first_some_only)
    show "\<forall>r \<in> set (update_row ing_id (ing_id j) (fail_ingestion msg now) (ingestion_jobs d)).
        ingestion_columns r = None \<or> ingestion_columns r = Some (DataError (uni ''error_message''))"
      using f ingestion_row_fits [OF ok] by (auto simp: set_update_row)
    show "\<exists>r \<in> set (update_row ing_id (ing_id j) (fail_ingestion msg now) (ingestion_jobs d)).
        ingestion_columns r = Some (DataError (uni ''error_message''))"
      using f [OF j] j by (auto simp: set_update_row)
  qed
  then have "check_ingestion_jobs (update_ingestion_job (ing_id j) (fail_ingestion msg now) d) = Some (DataError (uni ''error_message''))"
    by (simp add: check_ingestion_jobs_def)
  then show ?thesis
    using ok by (simp add: db_violation_def db_ok_checks update_ingestion_job_def)
qed

text \<open>When processing fails with a message longer than the column of the job's error message, the
  failure is not recorded: the worker raises the database's error and the job stays in processing, where
  no worker claims it again.\<close>

theorem ingestion_long_error_stuck:
  assumes vi: "vector_index (pf_vector_store pf s) stored sizes" and ok: "db_ok (w_db w)"
    and claim: "claim_next_pending_job locked (w_db w) = Some claimed"
    and fails: "default_process_document pf s id (now 1) (get_document (w_db w) (ing_document_id claimed))
      (set_ing_status IngProcessing (now 0) claimed)
      (w\<lparr>w_db := update_ingestion_job (ing_id claimed) (set_ing_status IngProcessing (now 0)) (w_db w)\<rparr>) = (Inl e, w3)"
    and "\<not> needs_rollback e" and "2048 < length (str_exn lib e)"
  shows "\<exists>w'. process_next_job pf s lib now (\<lambda>_. id) locked w =
      (Inl (DatabaseErr (DataError (uni ''error_message''))), w') \<and>
    get_row ing_id (ing_id claimed) (ingestion_jobs (w_db w')) = Some (set_ing_status IngProcessing (now 0) claimed) \<and>
    claim_next_pending_job locked' (w_db w') \<noteq> Some (set_ing_status IngProcessing (now 0) claimed)"
proof -
  let ?f = "set_ing_status IngProcessing (now 0)"
  let ?d = "update_ingestion_job (ing_id claimed) ?f (w_db w)"
  have ok1: "db_ok ?d" using claim_commits [OF ok claim] .
  from process_frame [OF vi fails] ok1 have ok3: "db_ok (w_db w3)" and js: "ingestion_jobs (w_db w3) = ingestion_jobs ?d"
    by auto
  have in_d: "?f claimed \<in> set (ingestion_jobs ?d)"
    using claim_Some [OF claim] by (auto simp: set_update_row)
  then have row: "get_row ing_id (ing_id claimed) (ingestion_jobs (w_db w3)) = Some (?f claimed)"
    using get_row_distinct [OF ing_table.primary_key [OF ok1] in_d] js by simp
  have "commit_update (update_ingestion_job (ing_id claimed) (fail_ingestion (str_exn lib e) (now 2)))
      (Some (fail_ingestion (str_exn lib e) (now 2) (?f claimed))) w3 =
      (Inl (DatabaseErr (DataError (uni ''error_message''))), w3)"
    using long_ingestion_error [OF ok3, of "?f claimed"] in_d js assms(6) by (auto simp: commit_update_Inl)
  then have "process_next_job pf s lib now (\<lambda>_. id) locked w = (Inl (DatabaseErr (DataError (uni ''error_message''))), w3)"
    using claim fails assms(5) claim_commits [OF ok claim, of "now 0"]
    by (simp add: process_next_job_def Let_def call_bind_def commit_update_def others_def resolve_job_def)
  moreover have "claim_next_pending_job locked' (w_db w3) \<noteq> Some (?f claimed)"
    using claim_Some [of locked' "w_db w3" "?f claimed"] by auto
  ultimately show ?thesis using row by blast
qed

text \<open>Resolving a job writes at most the job's own row and the document.\<close>

lemma resolve_job_rows:
  assumes "resolve_job lib now (\<lambda>d. d) job document pr w = (r, w')"
  shows "\<exists>g. (\<forall>j. ing_id (g j) = ing_id j) \<and> ingestion_jobs (w_db w') = update_row ing_id (ing_id job) g (ingestion_jobs (w_db w)) \<and>
    deletion_jobs (w_db w') = deletion_jobs (w_db w) \<and> reindex_jobs (w_db w') = reindex_jobs (w_db w) \<and>
    cleanup_jobs (w_db w') = cleanup_jobs (w_db w)"
proof -
  have same: "ingestion_jobs (w_db w) = update_row ing_id (ing_id job) id (ingestion_jobs (w_db w))"
    unfolding update_row_def by (rule map_idI [symmetric]) simp
  consider "w' = w" | g upd where "w' = w\<lparr>w_db := update_ingestion_job (ing_id job) g (upd (w_db w))\<rparr>"
      "\<forall>j. ing_id (g j) = ing_id j" "\<forall>x. ingestion_jobs (upd x) = ingestion_jobs x \<and> deletion_jobs (upd x) = deletion_jobs x \<and>
       reindex_jobs (upd x) = reindex_jobs x \<and> cleanup_jobs (upd x) = cleanup_jobs x"
  proof (cases pr)
    case (Inl e)
    with assms that(1) that(2) [of "fail_ingestion (str_exn lib e) now" id] show thesis
      by (cases r) (auto simp: resolve_job_def others_def commit_update_Inr commit_update_Inl split: if_splits)
  next
    case (Inr new)
    with assms that(1) that(2) [of "set_ing_status IngCompleted now"
        "\<lambda>x. case document of None \<Rightarrow> x | Some doc \<Rightarrow> update_documents doc new x"] show thesis
      by (cases r) (auto simp: resolve_job_def others_def commit_update_Inr commit_update_Inl split: if_splits option.splits)
  qed
  then show ?thesis
  proof cases
    case 1
    with same show ?thesis by (intro exI [of _ id]) simp
  next
    case (2 g upd)
    then show ?thesis by (intro exI [of _ g]) simp
  qed
qed

text \<open>C26: A run of the worker, while no other session commits, leaves the database valid and every ingestion
  job that was not pending as it was, so a completed or failed job is never processed again; it touches no
  job of another kind.\<close>

theorem ingestion_keeps_resolved_jobs:
  assumes vi: "vector_index (pf_vector_store pf s) stored sizes" and ok: "db_ok (w_db w)"
    and run: "process_next_job pf s lib now (\<lambda>_. id) locked w = (r, w')"
  shows "db_ok (w_db w') \<and> map ing_id (ingestion_jobs (w_db w')) = map ing_id (ingestion_jobs (w_db w)) \<and>
    (\<forall>j \<in> set (ingestion_jobs (w_db w)). ing_status j \<noteq> IngPending \<longrightarrow> j \<in> set (ingestion_jobs (w_db w'))) \<and>
    deletion_jobs (w_db w') = deletion_jobs (w_db w) \<and> reindex_jobs (w_db w') = reindex_jobs (w_db w) \<and>
    cleanup_jobs (w_db w') = cleanup_jobs (w_db w)"
  using run ok
proof (cases rule: process_next_cases)
  case idle
  with ok show ?thesis by simp
next
  case (processed claimed d pr w3)
  let ?f = "set_ing_status IngProcessing (now 0)"
  have d: "d = update_ingestion_job (ing_id claimed) ?f (w_db w)" using processed(2) by simp
  have okd: "db_ok d" using claim_commits [OF ok processed(1)] d by simp
  from process_frame [OF vi processed(3)] okd have ok3: "db_ok (w_db w3)" and
    w3: "ingestion_jobs (w_db w3) = ingestion_jobs d" "deletion_jobs (w_db w3) = deletion_jobs d"
      "reindex_jobs (w_db w3) = reindex_jobs d" "cleanup_jobs (w_db w3) = cleanup_jobs d" by auto
  from resolve_job_rows [OF processed(4) [unfolded id_def]] obtain g where g: "\<forall>j. ing_id (g j) = ing_id j"
    "ingestion_jobs (w_db w') = update_row ing_id (ing_id claimed) g (ingestion_jobs (w_db w3))"
    "deletion_jobs (w_db w') = deletion_jobs (w_db w3)" "reindex_jobs (w_db w') = reindex_jobs (w_db w3)"
    "cleanup_jobs (w_db w') = cleanup_jobs (w_db w3)" by auto
  have "db_ok (w_db w')"
    using ok3 processed(4) commit_update_ok
    by (cases pr) (auto simp: resolve_job_def others_def split: if_splits dest!: arg_cong [of _ _ snd])
  moreover have "j \<in> set (ingestion_jobs (w_db w'))"
    if "j \<in> set (ingestion_jobs (w_db w))" "ing_status j \<noteq> IngPending" for j
  proof -
    have "ing_id j \<noteq> ing_id claimed"
      using row_by_id [OF ok that(1), of claimed] claim_Some [OF processed(1)] that(2) by auto
    with that(1) show ?thesis by (simp add: g(2) w3 d set_update_row)
  qed
  ultimately show ?thesis
    using g w3 d by (simp add: row_simps)
qed

lemma pending_db_ok: "db_ok (ingestion_db [sample_job (uni ''j1'') IngPending 1])"
  by (rule ingestion_db_ok; simp add: one_active_def)

lemma pending_claim: "claim_next_pending_job (\<lambda>_. False) (ingestion_db [sample_job (uni ''j1'') IngPending 1]) =
    Some (sample_job (uni ''j1'') IngPending 1)"
  by (simp add: claim_next_pending_job_def)

lemma pending_document: "get_document (ingestion_db js) (uni ''d1'') = Some (sample_document (uni ''d1''))"
  by (simp add: get_document_def)

theorem ingestion_long_error_stuck_witness:
  "\<exists>w'. process_next_job sample_platform sample_settings (\<lambda>_. replicate 3000 97) int (\<lambda>_. id) (\<lambda>_. False)
      (sample_world [sample_job (uni ''j1'') IngPending 1]\<lparr>w_index := ready_index\<lparr>mi_failures := [Some (OtherError (uni ''down''))]\<rparr>\<rparr>) =
      (Inl (DatabaseErr (DataError (uni ''error_message''))), w') \<and>
    get_row ing_id (uni ''j1'') (ingestion_jobs (w_db w')) = Some (set_ing_status IngProcessing 0 (sample_job (uni ''j1'') IngPending 1))"
proof -
  let ?j = "sample_job (uni ''j1'') IngPending 1"
  let ?w = "sample_world [?j]\<lparr>w_index := ready_index\<lparr>mi_failures := [Some (OtherError (uni ''down''))]\<rparr>\<rparr>"
  have db: "w_db ?w = ingestion_db [?j]" by (simp add: sample_world_def)
  let ?d = "update_ingestion_job (uni ''j1'') (set_ing_status IngProcessing 0) (ingestion_db [?j])"
  have doc: "get_document (w_db ?w) (uni ''d1'') = Some (sample_document (uni ''d1''))"
    by (simp add: db pending_document)
  have "default_process_document sample_platform sample_settings id 1 (Some (sample_document (uni ''d1'')))
      (set_ing_status IngProcessing 0 ?j) (?w\<lparr>w_db := ?d\<rparr>) =
      (Inl (LibraryError (uni ''down'')), ?w\<lparr>w_db := ?d\<rparr>\<lparr>w_index := quiet (w_index ?w), w_db := id ?d\<rparr>)"
    using sample_process_down [of "?w\<lparr>w_db := ?d\<rparr>" "uni ''down''" id 1] by (simp add: sample_world_def)
  with ingestion_long_error_stuck [OF sample_platform_index, of ?w "\<lambda>_. False" ?j sample_settings int "LibraryError (uni ''down'')"
      _ "\<lambda>_. replicate 3000 97"] doc
  show ?thesis by (simp add: db pending_db_ok pending_claim needs_rollback_def) blast
qed

theorem ingestion_keeps_resolved_jobs_witness:
  "db_ok (w_db (snd (process_next_job sample_platform sample_settings (\<lambda>_. []) int (\<lambda>_. id) (\<lambda>_. False)
      (sample_world [sample_job (uni ''j1'') IngPending 1]))))"
proof -
  obtain r w' where run: "process_next_job sample_platform sample_settings (\<lambda>_. []) int (\<lambda>_. id) (\<lambda>_. False)
      (sample_world [sample_job (uni ''j1'') IngPending 1]) = (r, w')" by fastforce
  have "db_ok (w_db (sample_world [sample_job (uni ''j1'') IngPending 1]))"
    using pending_db_ok by (simp add: sample_world_def)
  from ingestion_keeps_resolved_jobs [OF sample_platform_index this run] run show ?thesis by simp
qed

end
