(* ===== verification/Ingestion_Retry.thy ===== *)
theory Ingestion_Retry
  imports Ingestion_Worker Deletion_Service
begin

text \<open>
  Retrying an ingestion on request (\<open>app/services/ingestion/retry_service.py\<close>) and recovering jobs a dead
  worker left in processing (\<open>stale_recovery_service.py\<close>), with the helpers both share (\<open>status.py\<close>).
  Both lock the job rows they read until they commit.  \<open>now\<close> is Python's clock, \<open>db_now\<close> the database's.
\<close>

section \<open>Shared helpers\<close>

definition stale_recovery_error_prefix :: ustr where
  "stale_recovery_error_prefix = uni ''STALE_PROCESSING_RECOVERED''"

definition stale_recovery_message :: "int \<Rightarrow> ustr" where
  "stale_recovery_message stale_after_seconds =
     stale_recovery_error_prefix @ uni '': PROCESSING job not updated for over '' @ str_int stale_after_seconds @
     uni ''s, treated as abandoned by a dead/crashed worker.''"

definition create_pending_job :: "ustr \<Rightarrow> ustr \<Rightarrow> time \<Rightarrow> ingestion_job" where
  "create_pending_job new_id document_id db_now =
     \<lparr>ing_id = new_id, ing_document_id = document_id, ing_status = IngPending, ing_error_message = None,
      ing_created_at = db_now, ing_updated_at = db_now\<rparr>"

definition add_ingestion_job :: "ingestion_job \<Rightarrow> db \<Rightarrow> db" where
  "add_ingestion_job j d = d\<lparr>ingestion_jobs := ingestion_jobs d @ [j]\<rparr>"

section \<open>Retry on request\<close>

datatype retry_outcome =
  RetryDocumentNotFound | RetryCreated | RetryAlreadyActive | RetryAlreadyCompleted | RetryDeletionActive

record ingestion_retry_result =
  irr_outcome :: retry_outcome
  irr_job :: "ingestion_job option"

definition is_stale_processing :: "ingestion_job \<Rightarrow> int \<Rightarrow> time \<Rightarrow> bool" where
  "is_stale_processing j stale_after_seconds now \<longleftrightarrow> seconds stale_after_seconds < now - ing_updated_at j"

definition mark_stale :: "int \<Rightarrow> time \<Rightarrow> ingestion_job \<Rightarrow> ingestion_job" where
  "mark_stale stale_after_seconds db_now = fail_ingestion (stale_recovery_message stale_after_seconds) db_now"

text \<open>\<open>env 0\<close>: commits of others before the job rows are locked, \<open>env 1\<close>: before the commit, \<open>env 2\<close>: between
  the rollback of a rejected insert and the reload of the active job.\<close>

definition retry_ingestion :: "(nat \<Rightarrow> db \<Rightarrow> db) \<Rightarrow> ustr \<Rightarrow> time \<Rightarrow> time \<Rightarrow> int \<Rightarrow> ustr \<Rightarrow> db \<Rightarrow>
    (exn + ingestion_retry_result) \<times> db" where
  "retry_ingestion env new_id now db_now stale_after_seconds document_id d =
     (case get_document d document_id of
        None \<Rightarrow> (Inr \<lparr>irr_outcome = RetryDocumentNotFound, irr_job = None\<rparr>, d)
      | Some _ \<Rightarrow>
          if get_latest_deletion_job d document_id \<noteq> None
          then (Inr \<lparr>irr_outcome = RetryDeletionActive, irr_job = None\<rparr>, d)
          else
            let d1 = env 0 d;
                latest = get_latest_ingestion_job d1 document_id;
                status = map_option ing_status latest in
            if status = Some IngCompleted then (Inr \<lparr>irr_outcome = RetryAlreadyCompleted, irr_job = latest\<rparr>, d1)
            else if status = Some IngPending then (Inr \<lparr>irr_outcome = RetryAlreadyActive, irr_job = latest\<rparr>, d1)
            else if status = Some IngProcessing \<and> \<not> is_stale_processing (the latest) stale_after_seconds now
            then (Inr \<lparr>irr_outcome = RetryAlreadyActive, irr_job = latest\<rparr>, d1)
            else
              let d2 = env 1 d1;
                  d3 = (if status = Some IngProcessing
                        then update_ingestion_job (ing_id (the latest)) (mark_stale stale_after_seconds db_now) d2 else d2);
                  new_job = create_pending_job new_id document_id db_now in
              (case commit (add_ingestion_job new_job d3) of
                 Inr d' \<Rightarrow> (Inr \<lparr>irr_outcome = RetryCreated, irr_job = Some new_job\<rparr>, d')
               | Inl (IntegrityError _) \<Rightarrow>
                   (Inr \<lparr>irr_outcome = RetryAlreadyActive, irr_job = latest_active_job (env 2 d2) document_id\<rparr>, env 2 d2)
               | Inl e \<Rightarrow> (Inl (DatabaseErr e), d2)))"

section \<open>Recovery of stale jobs\<close>

record recovered_job =
  stale_job_id :: ustr
  replacement_job_id :: ustr

definition stale_candidates :: "(ustr \<Rightarrow> bool) \<Rightarrow> nat \<Rightarrow> db \<Rightarrow> ingestion_job list" where
  "stale_candidates locked batch_size d =
     take batch_size (sort_key (row_key ing_updated_at ing_id)
       (filter (\<lambda>j. ing_status j = IngProcessing \<and> \<not> locked (ing_id j)) (ingestion_jobs d)))"

text \<open>The loop over the candidates; \<open>new_id k\<close> is the \<open>k\<close>-th identifier drawn.\<close>

fun recover_loop :: "int \<Rightarrow> time \<Rightarrow> time \<Rightarrow> (nat \<Rightarrow> ustr) \<Rightarrow> nat \<Rightarrow> ingestion_job list \<Rightarrow> db \<Rightarrow> recovered_job list \<times> db" where
  "recover_loop stale_after now db_now new_id k [] d = ([], d)"
| "recover_loop stale_after now db_now new_id k (j # js) d =
     (if now - seconds stale_after < ing_updated_at j then recover_loop stale_after now db_now new_id k js d
      else
        let d1 = update_ingestion_job (ing_id j) (mark_stale stale_after db_now) d;
            d2 = add_ingestion_job (create_pending_job (new_id k) (ing_document_id j) db_now) d1;
            (rs, d3) = recover_loop stale_after now db_now new_id (Suc k) js d2 in
        (\<lparr>stale_job_id = ing_id j, replacement_job_id = new_id k\<rparr> # rs, d3))"

definition recover_stale_ingestion_jobs :: "(db \<Rightarrow> db) \<Rightarrow> (ustr \<Rightarrow> bool) \<Rightarrow> (nat \<Rightarrow> ustr) \<Rightarrow> nat \<Rightarrow> int \<Rightarrow> time \<Rightarrow> time \<Rightarrow>
    db \<Rightarrow> (exn + recovered_job list) \<times> db" where
  "recover_stale_ingestion_jobs env locked new_id batch_size stale_after now db_now d =
     (case recover_loop stale_after now db_now new_id 0 (stale_candidates locked batch_size d) (env d) of
        (recovered, d1) \<Rightarrow>
          if recovered = [] then (Inr [], env d)
          else (case commit d1 of
              Inl e \<Rightarrow> (Inl (DatabaseErr e), env d)
            | Inr d' \<Rightarrow> (Inr recovered, d')))"

section \<open>Marking a stale job and replacing it\<close>

lemma create_pending_simps [simp]:
  "ing_id (create_pending_job i doc t) = i" "ing_document_id (create_pending_job i doc t) = doc"
  "ing_status (create_pending_job i doc t) = IngPending" "ing_active (create_pending_job i doc t)"
  "ingestion_columns (create_pending_job i doc t) = None \<longleftrightarrow> length i \<le> 36 \<and> length doc \<le> 36"
  by (simp_all add: create_pending_job_def ing_active_def ingestion_columns_def too_long_def too_long_opt_def)

lemma mark_stale_simps [simp]:
  "ing_id (mark_stale n t j) = ing_id j" "ing_document_id (mark_stale n t j) = ing_document_id j"
  "ing_status (mark_stale n t j) = IngFailed" "\<not> ing_active (mark_stale n t j)"
  by (simp_all add: mark_stale_def ing_active_def)

lemma mark_stale_fits:
  "length (stale_recovery_message n) \<le> 2048 \<Longrightarrow> ingestion_columns j = None \<Longrightarrow> ingestion_columns (mark_stale n t j) = None"
  by (auto simp: mark_stale_def fail_ingestion_def ingestion_columns_def too_long_def too_long_opt_def split: if_splits)

lemma mark_stale_ok:
  assumes "db_ok d" and "length (stale_recovery_message n) \<le> 2048"
  shows "db_ok (update_ingestion_job i (mark_stale n t) d)"
  using assms by (intro update_ingestion_job_ok) (auto intro: mark_stale_fits ingestion_row_fits)

lemma commit_pending_job:
  assumes "db_ok d" and "length new_id \<le> 36" and "new_id \<notin> ing_id ` set (ingestion_jobs d)"
    and "doc \<in> doc_id ` set (documents d)"
  shows "commit (add_ingestion_job (create_pending_job new_id doc t) d) =
    (if \<exists>k \<in> set (ingestion_jobs d). ing_active k \<and> ing_document_id k = doc
     then Inl (IntegrityError (uni ''ix_ingestion_jobs_one_active_per_document''))
     else Inr (add_ingestion_job (create_pending_job new_id doc t) d))"
  using insert_ingestion_job [OF assms(1), of "create_pending_job new_id doc t"] assms
  by (simp add: add_ingestion_job_def document_id_fits)

text \<open>Once its active job is marked stale, a document has no active job.\<close>

lemma no_active_after_mark:
  assumes ok: "db_ok d" and j: "j \<in> set (ingestion_jobs d)" "ing_active j"
    and k: "k \<in> set (ingestion_jobs (update_ingestion_job (ing_id j) (mark_stale n t) d))" "ing_active k"
  shows "ing_document_id k \<noteq> ing_document_id j"
proof
  assume same: "ing_document_id k = ing_document_id j"
  from k have "k \<in> set (ingestion_jobs d)" "ing_id k \<noteq> ing_id j"
    by (auto simp: set_update_row)
  with ing_table.active_unique [OF ok this(1) j(1) k(2) j(2) same] show False by simp
qed

lemma replace_stale_ok:
  assumes ok: "db_ok d" and j: "j \<in> set (ingestion_jobs d)" "ing_active j"
    and msg: "length (stale_recovery_message n) \<le> 2048"
    and new: "length i \<le> 36" "i \<notin> ing_id ` set (ingestion_jobs d)"
  shows "db_ok (add_ingestion_job (create_pending_job i (ing_document_id j) t)
    (update_ingestion_job (ing_id j) (mark_stale n t) d))"
proof -
  let ?d = "update_ingestion_job (ing_id j) (mark_stale n t) d"
  have "\<not> (\<exists>k \<in> set (ingestion_jobs ?d). ing_active k \<and> ing_document_id k = ing_document_id j)"
    using no_active_after_mark [OF ok j] by blast
  moreover have "ing_id ` set (ingestion_jobs ?d) = ing_id ` set (ingestion_jobs d)"
  proof -
    have "map ing_id (ingestion_jobs ?d) = map ing_id (ingestion_jobs d)" by (simp add: row_simps)
    then show ?thesis by (metis set_map)
  qed
  moreover have "ing_document_id j \<in> doc_id ` set (documents ?d)"
    using ing_table.foreign_key [OF ok j(1)] by simp
  ultimately show ?thesis
    using commit_pending_job [OF mark_stale_ok [OF ok msg], of i "ing_id j" t "ing_document_id j" t] new
    by (auto simp: commit_Inr split: if_splits)
qed

section \<open>Properties\<close>

lemma active_ingestion_lookup:
  "db_ok d \<Longrightarrow> k \<in> set (ingestion_jobs d) \<Longrightarrow> ing_active k \<Longrightarrow> latest_active_job d (ing_document_id k) = Some k"
  unfolding latest_active_job_def by (rule ing_table.active_lookup)

lemma latest_active_Some: "latest_active_job d doc = Some j \<Longrightarrow>
    j \<in> set (ingestion_jobs d) \<and> ing_document_id j = doc \<and> ing_active j"
  unfolding latest_active_job_def by (auto dest!: latest_of_Some)

lemma latest_ingestion_Some: "get_latest_ingestion_job d doc = Some j \<Longrightarrow> j \<in> set (ingestion_jobs d) \<and> ing_document_id j = doc"
  unfolding get_latest_ingestion_job_def by (rule latest_of_Some)

lemma only_active:
  assumes "db_ok (add_ingestion_job j d)" and "ing_active j"
  shows "filter (\<lambda>k. ing_document_id k = ing_document_id j \<and> ing_active k) (ingestion_jobs (add_ingestion_job j d)) = [j]"
  using filter_active_snoc [of ing_document_id ing_active "ingestion_jobs d" j]
    ing_table.active_index [OF assms(1)] assms(2) by (simp add: add_ingestion_job_def)

text \<open>The ways a retry ends.\<close>

lemma retry_ingestion_cases:
  assumes ok: "db_ok (env 1 (env 0 d))"
    and rows: "\<forall>j \<in> set (ingestion_jobs (env 0 d)). ing_document_id j = doc \<longrightarrow> j \<in> set (ingestion_jobs (env 1 (env 0 d)))"
    and doc: "doc \<in> doc_id ` set (documents (env 1 (env 0 d)))"
    and new: "length new_id \<le> 36" "new_id \<notin> ing_id ` set (ingestion_jobs (env 1 (env 0 d)))"
    and msg: "length (stale_recovery_message n) \<le> 2048"
    and run: "retry_ingestion env new_id now db_now n doc d = (r, d')"
  obtains (early) res where "r = Inr res" "d' \<in> {d, (env 0 d)}"
      "irr_outcome res \<in> {RetryDocumentNotFound, RetryDeletionActive, RetryAlreadyCompleted}"
      "get_document d doc = None \<or> get_latest_deletion_job d doc \<noteq> None \<or>
       (\<exists>j. get_latest_ingestion_job (env 0 d) doc = Some j \<and> ing_status j = IngCompleted)"
    | (active) j where "r = Inr \<lparr>irr_outcome = RetryAlreadyActive, irr_job = Some j\<rparr>" "d' = (env 0 d)"
      "get_latest_ingestion_job (env 0 d) doc = Some j" "ing_active j" "\<not> is_stale_processing j n now \<or> ing_status j = IngPending"
    | (stale) j where "get_latest_ingestion_job (env 0 d) doc = Some j" "ing_status j = IngProcessing"
      "d' = add_ingestion_job (create_pending_job new_id doc db_now) (update_ingestion_job (ing_id j) (mark_stale n db_now) (env 1 (env 0 d)))"
      "r = Inr \<lparr>irr_outcome = RetryCreated, irr_job = Some (create_pending_job new_id doc db_now)\<rparr>"
    | (created) "d' = add_ingestion_job (create_pending_job new_id doc db_now) (env 1 (env 0 d))" "db_ok d'"
      "r = Inr \<lparr>irr_outcome = RetryCreated, irr_job = Some (create_pending_job new_id doc db_now)\<rparr>"
      "\<nexists>j. get_latest_ingestion_job (env 0 d) doc = Some j \<and> ing_status j = IngProcessing"
    | (raced) k where "d' = env 2 (env 1 (env 0 d))" "k \<in> set (ingestion_jobs (env 1 (env 0 d)))" "ing_active k" "ing_document_id k = doc"
      "r = Inr \<lparr>irr_outcome = RetryAlreadyActive, irr_job = latest_active_job d' doc\<rparr>"
      "\<nexists>j. get_latest_ingestion_job (env 0 d) doc = Some j \<and> ing_status j = IngProcessing"
proof -
  let ?d1 = "env 0 d" let ?d2 = "env 1 (env 0 d)"
  let ?new = "create_pending_job new_id doc db_now"
  show thesis
  proof (cases "get_document d doc = None \<or> get_latest_deletion_job d doc \<noteq> None")
    case True
    with run early show thesis by (auto simp: retry_ingestion_def split: option.splits)
  next
    case False
    then obtain dc where dc: "get_document d doc = Some dc" "get_latest_deletion_job d doc = None" by auto
    show thesis
    proof (cases "\<exists>j. get_latest_ingestion_job ?d1 doc = Some j \<and>
        (ing_status j \<in> {IngCompleted, IngPending} \<or> ing_status j = IngProcessing \<and> \<not> is_stale_processing j n now)")
      case True
      with run dc early active show thesis by (auto simp: retry_ingestion_def Let_def ing_active_def)
    next
      case fresh: False
      show thesis
      proof (cases "\<exists>j. get_latest_ingestion_job ?d1 doc = Some j \<and> ing_status j = IngProcessing")
        case True
        then obtain j where j: "get_latest_ingestion_job ?d1 doc = Some j" "ing_status j = IngProcessing" by blast
        have "j \<in> set (ingestion_jobs ?d2)" "ing_document_id j = doc" "ing_active j"
          using latest_ingestion_Some [OF j(1)] rows j(2) by (auto simp: ing_active_def)
        then have "db_ok (add_ingestion_job ?new (update_ingestion_job (ing_id j) (mark_stale n db_now) ?d2))"
          using replace_stale_ok [OF ok _ _ msg new, of j db_now] by simp
        with run dc fresh j show thesis
          by (intro stale [of j]) (auto simp: retry_ingestion_def Let_def)
      next
        case False
        let ?st = "map_option ing_status (get_latest_ingestion_job ?d1 doc)"
        have "?st \<noteq> Some IngCompleted" "?st \<noteq> Some IngPending" "?st \<noteq> Some IngProcessing"
          using fresh False by auto
        then have "retry_ingestion env new_id now db_now n doc d = (case commit (add_ingestion_job ?new ?d2) of
            Inr d' \<Rightarrow> (Inr \<lparr>irr_outcome = RetryCreated, irr_job = Some ?new\<rparr>, d')
          | Inl (IntegrityError _) \<Rightarrow> (Inr \<lparr>irr_outcome = RetryAlreadyActive, irr_job = latest_active_job (env 2 ?d2) doc\<rparr>, env 2 ?d2)
          | Inl e \<Rightarrow> (Inl (DatabaseErr e), ?d2))"
          using dc by (simp add: retry_ingestion_def Let_def del: map_option_eq_Some One_nat_def)
        note step = this [unfolded run]
        show thesis
        proof (cases "\<exists>k \<in> set (ingestion_jobs ?d2). ing_active k \<and> ing_document_id k = doc")
          case True
          then obtain k where k: "k \<in> set (ingestion_jobs ?d2)" "ing_active k" "ing_document_id k = doc" by blast
          with step False show thesis
            using commit_pending_job [OF ok new doc, of db_now, unfolded if_P [OF True]]
            by (intro raced [of k]) auto
        next
          case nk: False
          with step False show thesis
            using commit_pending_job [OF ok new doc, of db_now, unfolded if_not_P [OF nk]]
            by (intro created) (auto simp: commit_Inr)
        qed
      qed
    qed
  qed
qed

text \<open>C27: A retry never raises and leaves a valid database, whatever other sessions commit before the job
  rows are locked, before the commit (as long as the locked rows of the document stay) and between a
  rejected commit and the reload.  A created job is the only active job of the document.  An already-active
  answer carries an active job of the document, with one exception: an insert that lost against an active
  job which ended before the reload is answered with no job, and then the document has none active.  A
  stale job in processing is always replaced, being marked failed in the same commit.\<close>

theorem retry_ingestion_converges:
  assumes ok: "db_ok d" "db_ok (env 0 d)" "db_ok (env 1 (env 0 d))" "db_ok (env 2 (env 1 (env 0 d)))"
    and rows: "\<forall>j \<in> set (ingestion_jobs (env 0 d)). ing_document_id j = doc \<longrightarrow> j \<in> set (ingestion_jobs (env 1 (env 0 d)))"
    and doc: "doc \<in> doc_id ` set (documents (env 1 (env 0 d)))"
    and new: "length new_id \<le> 36" "new_id \<notin> ing_id ` set (ingestion_jobs (env 1 (env 0 d)))"
    and msg: "length (stale_recovery_message n) \<le> 2048"
    and run: "retry_ingestion env new_id now db_now n doc d = (r, d')"
  shows "db_ok d' \<and> (\<exists>res. r = Inr res \<and>
    (irr_outcome res = RetryCreated \<longrightarrow>
       filter (\<lambda>j. ing_document_id j = doc \<and> ing_active j) (ingestion_jobs d') = [create_pending_job new_id doc db_now]) \<and>
    (irr_outcome res = RetryAlreadyActive \<longrightarrow>
       (\<exists>j. irr_job res = Some j \<and> j \<in> set (ingestion_jobs d') \<and> ing_document_id j = doc \<and> ing_active j) \<or>
       irr_job res = None \<and> d' = env 2 (env 1 (env 0 d)) \<and>
       (\<exists>k \<in> set (ingestion_jobs (env 1 (env 0 d))). ing_document_id k = doc \<and> ing_active k) \<and>
       (\<forall>k \<in> set (ingestion_jobs d'). \<not> (ing_document_id k = doc \<and> ing_active k))) \<and>
    (\<forall>j. get_document d doc \<noteq> None \<and> get_latest_deletion_job d doc = None \<and>
       get_latest_ingestion_job (env 0 d) doc = Some j \<and> ing_status j = IngProcessing \<and> is_stale_processing j n now \<longrightarrow>
       irr_outcome res = RetryCreated \<and> mark_stale n db_now j \<in> set (ingestion_jobs d')))"
proof -
  let ?d1 = "env 0 d" let ?d2 = "env 1 ?d1"
  let ?new = "create_pending_job new_id doc db_now"
  from ok(3) rows doc new msg run show ?thesis
  proof (cases rule: retry_ingestion_cases)
    case (early res)
    then show ?thesis using ok by auto
  next
    case (active j)
    then show ?thesis using ok(2) latest_ingestion_Some [OF active(3)] by auto
  next
    case (stale j)
    have j: "j \<in> set (ingestion_jobs ?d2)" "ing_document_id j = doc" "ing_active j"
      using latest_ingestion_Some [OF stale(1)] rows stale(2) by (auto simp: ing_active_def)
    have "db_ok d'"
      using replace_stale_ok [OF ok(3) j(1,3) msg new, of db_now] j(2) stale(3) by simp
    moreover have "mark_stale n db_now j \<in> set (ingestion_jobs d')"
      using j(1) by (auto simp: stale(3) add_ingestion_job_def set_update_row)
    ultimately show ?thesis
      using only_active [of ?new "update_ingestion_job (ing_id j) (mark_stale n db_now) ?d2"] stale(1,3,4) by auto
  next
    case created
    then show ?thesis using only_active [of ?new ?d2] by auto
  next
    case (raced k)
    show ?thesis
    proof (cases "latest_active_job d' doc")
      case None
      then show ?thesis
        using raced ok(4) active_ingestion_lookup [of d'] by fastforce
    next
      case (Some j)
      then show ?thesis
        using raced ok(4) latest_active_Some [OF Some] by auto
    qed
  qed
qed

definition stale_at :: "int \<Rightarrow> time \<Rightarrow> ingestion_job \<Rightarrow> bool" where
  "stale_at stale_after now j \<longleftrightarrow> ing_updated_at j \<le> now - seconds stale_after"

lemma ids_after_replace:
  "ing_id ` set (ingestion_jobs (add_ingestion_job (create_pending_job i doc t) (update_ingestion_job k (mark_stale n u) d))) =
   insert i (ing_id ` set (ingestion_jobs d))"
proof -
  have "map ing_id (ingestion_jobs (update_ingestion_job k (mark_stale n u) d)) = map ing_id (ingestion_jobs d)"
    by (simp add: row_simps)
  then have "ing_id ` set (ingestion_jobs (update_ingestion_job k (mark_stale n u) d)) = ing_id ` set (ingestion_jobs d)"
    by (metis set_map)
  then show ?thesis by (simp add: add_ingestion_job_def)
qed

lemma recover_loop_spec:
  assumes "db_ok d" and "\<forall>j \<in> set js. j \<in> set (ingestion_jobs d) \<and> ing_status j = IngProcessing"
    and "distinct (map ing_id js)" and "length (stale_recovery_message n) \<le> 2048"
    and "\<forall>m \<ge> k. length (new_id m) \<le> 36 \<and> new_id m \<notin> ing_id ` set (ingestion_jobs d)" and "inj new_id"
    and "recover_loop n now db_now new_id k js d = (rs, d')"
  shows "db_ok d' \<and> map stale_job_id rs = map ing_id (filter (stale_at n now) js) \<and>
    (\<forall>j \<in> set js. stale_at n now j \<longrightarrow> mark_stale n db_now j \<in> set (ingestion_jobs d') \<and>
       (\<exists>r \<in> set rs. stale_job_id r = ing_id j \<and>
          create_pending_job (replacement_job_id r) (ing_document_id j) db_now \<in> set (ingestion_jobs d'))) \<and>
    (\<forall>j \<in> set (ingestion_jobs d). \<not> (j \<in> set js \<and> stale_at n now j) \<longrightarrow> j \<in> set (ingestion_jobs d'))"
  using assms
proof (induction js arbitrary: k d rs)
  case Nil
  then show ?case by simp
next
  case (Cons j js)
  show ?case
  proof (cases "stale_at n now j")
    case False
    with Cons.prems have "recover_loop n now db_now new_id k js d = (rs, d')"
      by (simp add: stale_at_def split: if_splits)
    from Cons.IH [OF Cons.prems(1) _ _ Cons.prems(4,5,6) this] Cons.prems(2,3) False show ?thesis by auto
  next
    case True
    let ?new = "create_pending_job (new_id k) (ing_document_id j) db_now"
    let ?d = "add_ingestion_job ?new (update_ingestion_job (ing_id j) (mark_stale n db_now) d)"
    from True Cons.prems(7) obtain ss where
      loop: "recover_loop n now db_now new_id (Suc k) js ?d = (ss, d')" and
      rs: "rs = \<lparr>stale_job_id = ing_id j, replacement_job_id = new_id k\<rparr> # ss"
      by (auto simp: stale_at_def Let_def split: if_splits prod.splits)
    have j: "j \<in> set (ingestion_jobs d)" "ing_active j" using Cons.prems(2) by (auto simp: ing_active_def)
    have ok: "db_ok ?d"
      using replace_stale_ok [OF Cons.prems(1) j Cons.prems(4)] Cons.prems(5) by simp
    have other: "i \<in> set (ingestion_jobs ?d)" if "i \<in> set (ingestion_jobs d)" "ing_id i \<noteq> ing_id j" for i
      using that by (auto simp: add_ingestion_job_def set_update_row)
    have new_d: "\<forall>m \<ge> Suc k. length (new_id m) \<le> 36 \<and> new_id m \<notin> ing_id ` set (ingestion_jobs ?d)"
      using Cons.prems(5,6) by (auto simp: ids_after_replace inj_eq simp del: image_eqI)
    have js: "\<forall>i \<in> set js. i \<in> set (ingestion_jobs ?d) \<and> ing_status i = IngProcessing"
    proof
      fix i assume i: "i \<in> set js"
      then have "ing_id i \<noteq> ing_id j" using Cons.prems(3) by (auto simp: image_iff)
      with other [of i] Cons.prems(2) i show "i \<in> set (ingestion_jobs ?d) \<and> ing_status i = IngProcessing" by simp
    qed
    have mine: "mark_stale n db_now j \<in> set (ingestion_jobs ?d)" "?new \<in> set (ingestion_jobs ?d)"
      using j(1) by (auto simp: add_ingestion_job_def set_update_row)
    have notin: "mark_stale n db_now j \<notin> set js" "?new \<notin> set js"
      using js by auto
    from Cons.IH [OF ok js _ Cons.prems(4) new_d Cons.prems(6) loop] Cons.prems(3)
    have IH: "db_ok d'" "map stale_job_id ss = map ing_id (filter (stale_at n now) js)"
      "\<forall>i \<in> set js. stale_at n now i \<longrightarrow> mark_stale n db_now i \<in> set (ingestion_jobs d') \<and>
         (\<exists>r \<in> set ss. stale_job_id r = ing_id i \<and>
          create_pending_job (replacement_job_id r) (ing_document_id i) db_now \<in> set (ingestion_jobs d'))"
      "\<forall>i \<in> set (ingestion_jobs ?d). \<not> (i \<in> set js \<and> stale_at n now i) \<longrightarrow> i \<in> set (ingestion_jobs d')"
      by auto
    have kept: "i \<in> set (ingestion_jobs d')"
      if "i \<in> set (ingestion_jobs d)" "\<not> (i \<in> set (j # js) \<and> stale_at n now i)" for i
    proof -
      have "i \<noteq> j" using that True by auto
      then have "ing_id i \<noteq> ing_id j" using row_by_id [OF Cons.prems(1) that(1) j(1)] by auto
      from other [OF that(1) this] IH(4) that(2) show ?thesis by auto
    qed
    have "mark_stale n db_now j \<in> set (ingestion_jobs d') \<and> ?new \<in> set (ingestion_jobs d')"
      using IH(4) mine notin by blast
    then have first: "mark_stale n db_now j \<in> set (ingestion_jobs d') \<and> (\<exists>r \<in> set rs. stale_job_id r = ing_id j \<and>
        create_pending_job (replacement_job_id r) (ing_document_id j) db_now \<in> set (ingestion_jobs d'))"
      by (simp add: rs)
    show ?thesis
      using IH(1,2,3) first kept True by (auto simp: rs)
  qed
qed

lemma candidates_in: "j \<in> set (stale_candidates locked b d) \<Longrightarrow> j \<in> set (ingestion_jobs d) \<and> ing_status j = IngProcessing"
  by (auto simp: stale_candidates_def dest!: in_set_takeD)

lemma candidates_distinct: "db_ok d \<Longrightarrow> distinct (map ing_id (stale_candidates locked b d))"
proof -
  assume "db_ok d"
  then have "inj_on ing_id (set (ingestion_jobs d))" "distinct (ingestion_jobs d)"
    using ing_table.primary_key [of d] by (auto simp: distinct_map)
  then show ?thesis
    by (auto simp: stale_candidates_def distinct_map distinct_take inj_on_def dest!: in_set_takeD)
qed

text \<open>Recovery of stale jobs always commits: its replacement jobs never collide with the index of active
  jobs.  It recovers exactly the stale jobs among the oldest candidates of the batch, each marked failed and
  replaced by a pending job of the same document, and every other job stays as it is.\<close>

theorem stale_recovery_replaces:
  assumes ok: "db_ok d" "db_ok (env d)" and kept: "\<forall>j \<in> set (stale_candidates locked b d). j \<in> set (ingestion_jobs (env d))"
    and msg: "length (stale_recovery_message n) \<le> 2048" and "inj new_id"
    and new: "\<forall>m. length (new_id m) \<le> 36 \<and> new_id m \<notin> ing_id ` set (ingestion_jobs (env d))"
    and run: "recover_stale_ingestion_jobs env locked new_id b n now db_now d = (r, d')"
  shows "db_ok d' \<and> (\<exists>rs. r = Inr rs \<and> length rs \<le> b \<and>
    map stale_job_id rs = map ing_id (filter (stale_at n now) (stale_candidates locked b d)) \<and>
    (\<forall>j \<in> set (stale_candidates locked b d). stale_at n now j \<longrightarrow>
       mark_stale n db_now j \<in> set (ingestion_jobs d') \<and>
       (\<exists>k \<in> set (ingestion_jobs d'). ing_status k = IngPending \<and> ing_document_id k = ing_document_id j \<and>
          ing_id k \<in> replacement_job_id ` set rs)) \<and>
    (\<forall>j \<in> set (ingestion_jobs (env d)).
       \<not> (j \<in> set (stale_candidates locked b d) \<and> stale_at n now j) \<longrightarrow> j \<in> set (ingestion_jobs d')))"
proof -
  let ?cs = "stale_candidates locked b d"
  obtain rs d1 where loop: "recover_loop n now db_now new_id 0 ?cs (env d) = (rs, d1)" by fastforce
  have cs: "\<forall>j \<in> set ?cs. j \<in> set (ingestion_jobs (env d)) \<and> ing_status j = IngProcessing"
    using kept candidates_in by blast
  from recover_loop_spec [OF ok(2) cs candidates_distinct [OF ok(1)] msg _ assms(5) loop] new
  have s: "db_ok d1" "map stale_job_id rs = map ing_id (filter (stale_at n now) ?cs)"
    "\<forall>j \<in> set ?cs. stale_at n now j \<longrightarrow> mark_stale n db_now j \<in> set (ingestion_jobs d1) \<and>
       (\<exists>r \<in> set rs. stale_job_id r = ing_id j \<and>
          create_pending_job (replacement_job_id r) (ing_document_id j) db_now \<in> set (ingestion_jobs d1))"
    "\<forall>j \<in> set (ingestion_jobs (env d)). \<not> (j \<in> set ?cs \<and> stale_at n now j) \<longrightarrow> j \<in> set (ingestion_jobs d1)"
    by auto
  have len: "length rs \<le> b"
    using arg_cong [OF s(2), of length] length_filter_le [of "stale_at n now" ?cs]
    by (simp add: stale_candidates_def)
  have none: "rs = [] \<Longrightarrow> \<forall>j \<in> set ?cs. \<not> stale_at n now j"
    using s(2) by (auto simp: filter_empty_conv)
  have pend: "\<exists>k \<in> set (ingestion_jobs d1). ing_status k = IngPending \<and> ing_document_id k = ing_document_id j \<and>
          ing_id k \<in> replacement_job_id ` set rs" if "j \<in> set ?cs" "stale_at n now j" for j
  proof -
    from s(3) that obtain q where "q \<in> set rs"
      "create_pending_job (replacement_job_id q) (ing_document_id j) db_now \<in> set (ingestion_jobs d1)" by blast
    then show ?thesis by (intro bexI [of _ "create_pending_job (replacement_job_id q) (ing_document_id j) db_now"]) simp_all
  qed
  show ?thesis
  proof (cases "rs = []")
    case True
    with run loop ok(2) none s(2) show ?thesis
      by (auto simp: recover_stale_ingestion_jobs_def)
  next
    case False
    with run loop s(1) have "r = Inr rs" "d' = d1"
      by (auto simp: recover_stale_ingestion_jobs_def)
    with s len pend show ?thesis by auto
  qed
qed

definition stale_db :: db where
  "stale_db = ingestion_db [sample_job (uni ''j1'') IngProcessing 1]"

lemma stale_db_ok: "db_ok stale_db"
  unfolding stale_db_def by (rule ingestion_db_ok; simp add: one_active_def)

lemma stale_message: "length (stale_recovery_message 900) \<le> 2048"
  by (simp add: stale_recovery_message_def stale_recovery_error_prefix_def str_int_def dec.simps)

lemma stale_db_facts:
  "ingestion_jobs stale_db = [sample_job (uni ''j1'') IngProcessing 1]" "doc_id ` set (documents stale_db) = {uni ''d1''}"
  "get_document stale_db (uni ''d1'') \<noteq> None" "get_latest_deletion_job stale_db (uni ''d1'') = None"
  "get_latest_ingestion_job stale_db (uni ''d1'') = Some (sample_job (uni ''j1'') IngProcessing 1)"
  by (simp_all add: stale_db_def get_document_def get_latest_deletion_job_def get_latest_ingestion_job_def latest_of_def
      ingestion_db_def sample_db_def empty_db_def sample_document_def)

theorem retry_ingestion_converges_witness:
  "\<exists>res. fst (retry_ingestion (\<lambda>_. id) (uni ''j2'') (seconds 2000) 7 900 (uni ''d1'') stale_db) = Inr res \<and>
    irr_outcome res = RetryCreated \<and> mark_stale 900 7 (sample_job (uni ''j1'') IngProcessing 1) \<in>
      set (ingestion_jobs (snd (retry_ingestion (\<lambda>_. id) (uni ''j2'') (seconds 2000) 7 900 (uni ''d1'') stale_db)))"
proof -
  obtain r d' where run: "retry_ingestion (\<lambda>_. id) (uni ''j2'') (seconds 2000) 7 900 (uni ''d1'') stale_db = (r, d')"
    by fastforce
  have "is_stale_processing (sample_job (uni ''j1'') IngProcessing 1) 900 (seconds 2000)"
    by (simp add: is_stale_processing_def seconds_def)
  with retry_ingestion_converges [OF stale_db_ok _ _ _ _ _ _ _ stale_message run] stale_db_ok run stale_db_facts
  show ?thesis by auto
qed

text \<open>The exception is real: two retries race, the winner's job fails before the loser reloads it, and the
  loser is told that a job is active, without a job.\<close>

definition winner_ends :: "nat \<Rightarrow> db \<Rightarrow> db" where
  "winner_ends k = (if k = 0 then id else if k = 1 then add_ingestion_job (create_pending_job (uni ''j2'') (uni ''d1'') 6)
     else update_ingestion_job (uni ''j2'') (fail_ingestion [] 7))"

lemma retry_lost_without_winner:
  "fst (retry_ingestion winner_ends (uni ''j3'') 9 9 n (uni ''d1'') (ingestion_db [])) =
     Inr \<lparr>irr_outcome = RetryAlreadyActive, irr_job = None\<rparr>"
proof -
  let ?d = "ingestion_db []" let ?j = "create_pending_job (uni ''j2'') (uni ''d1'') 6"
  have ok: "db_ok ?d" by (rule ingestion_db_ok) (simp_all add: one_active_def)
  have docs: "uni ''d1'' \<in> doc_id ` set (documents ?d)"
    by (simp add: ingestion_db_def sample_db_def empty_db_def sample_document_def)
  have none: "ingestion_jobs ?d = []" "get_document ?d (uni ''d1'') \<noteq> None" "get_latest_deletion_job ?d (uni ''d1'') = None"
    "get_latest_ingestion_job ?d (uni ''d1'') = None"
    by (simp_all add: ingestion_db_def sample_db_def empty_db_def sample_document_def get_document_def
        get_latest_deletion_job_def get_latest_ingestion_job_def latest_of_def)
  have jobs: "ingestion_jobs (winner_ends 1 ?d) = [?j]"
    by (simp add: winner_ends_def add_ingestion_job_def none)
  have ok1: "db_ok (winner_ends 1 ?d)"
    using commit_pending_job [OF ok, of "uni ''j2''" "uni ''d1''" 6] docs by (simp add: winner_ends_def none commit_Inr)
  have lost: "commit (add_ingestion_job (create_pending_job (uni ''j3'') (uni ''d1'') 9) (winner_ends 1 ?d)) =
      Inl (IntegrityError (uni ''ix_ingestion_jobs_one_active_per_document''))"
    using commit_pending_job [OF ok1, of "uni ''j3''" "uni ''d1''" 9] docs jobs
    by (simp add: winner_ends_def add_ingestion_job_def)
  have gone: "latest_active_job (winner_ends 2 (winner_ends 1 ?d)) (uni ''d1'') = None"
    using jobs by (auto simp: latest_active_job_def latest_of_None winner_ends_def set_update_row
        fail_ingestion_def ing_active_def)
  show ?thesis
    using none lost gone by (auto simp: retry_ingestion_def Let_def winner_ends_def)
qed

theorem stale_recovery_replaces_witness:
  "\<exists>rs. fst (recover_stale_ingestion_jobs id (\<lambda>_. False) (\<lambda>m. [m + 200]) 50 900 (seconds 2000) 7 stale_db) = Inr rs \<and>
    map stale_job_id rs = [uni ''j1'']"
proof -
  obtain r d' where run: "recover_stale_ingestion_jobs id (\<lambda>_. False) (\<lambda>m. [m + 200]) 50 900 (seconds 2000) 7 stale_db = (r, d')"
    by fastforce
  have c: "stale_candidates (\<lambda>_. False) 50 stale_db = [sample_job (uni ''j1'') IngProcessing 1]"
    by (simp add: stale_candidates_def stale_db_facts)
  have "stale_at 900 (seconds 2000) (sample_job (uni ''j1'') IngProcessing 1)"
    by (simp add: stale_at_def seconds_def)
  with stale_recovery_replaces [OF stale_db_ok, of id, OF _ _ stale_message _ _ run] stale_db_ok run c
  show ?thesis by (auto simp: stale_db_facts inj_on_def uni_def)
qed

end
