(* ===== verification/Document_Audit.thy ===== *)
theory Document_Audit
  imports Vector_Cleanup Config Ingestion_Retry
begin

text \<open>
  The read-only audit of one document (\<open>app/services/reconciliation/document_audit_service.py\<close>): what
  PostgreSQL claims about the document is compared with the object storage and the vector store.
  The queries of one audit are read off one state of the database; \<open>now\<close> is the Python clock.
\<close>

section \<open>Findings\<close>

datatype audit_overall_status = AuditNotFound | AuditConsistent | AuditInconsistent

datatype finding_severity = SevInfo | SevWarning | SevError

datatype finding_code =
    DOCUMENT_MISSING
  | OBJECT_MISSING
  | STORAGE_INSPECTION_UNAVAILABLE
  | ACTIVE_COLLECTION_MISSING
  | ACTIVE_VECTORS_MISSING
  | VECTOR_INSPECTION_UNAVAILABLE
  | INDEX_METADATA_INCOMPLETE
  | INGESTION_IN_PROGRESS
  | STALE_INGESTION_JOB
  | DELETION_PENDING
  | DELETION_PROCESSING
  | DELETION_PARTIALLY_FAILED
  | VECTOR_CLEANUP_INCOMPLETE
  | REINDEX_TARGET_BUILT_NOT_ACTIVATED
  | REINDEX_CLEANUP_PENDING

record lifecycle_finding =
  fi_code :: finding_code
  fi_severity :: finding_severity
  fi_summary :: ustr
  fi_expected_state :: ustr
  fi_actual_state :: ustr
  fi_suggested_action :: ustr
  fi_destructive_risk :: bool

definition finding :: "finding_code \<Rightarrow> finding_severity \<Rightarrow> ustr \<Rightarrow> ustr \<Rightarrow> ustr \<Rightarrow> ustr \<Rightarrow> lifecycle_finding" where
  "finding code severity summary expected actual action =
     \<lparr>fi_code = code, fi_severity = severity, fi_summary = summary, fi_expected_state = expected,
      fi_actual_state = actual, fi_suggested_action = action, fi_destructive_risk = False\<rparr>"

record postgres_lifecycle_state =
  pg_collection_name :: "ustr option"
  pg_document_created_at :: time
  pg_latest_ingestion_status :: "ingestion_status option"
  pg_latest_deletion_status :: "deletion_status option"
  pg_latest_reindex_status :: "reindex_status option"
  pg_latest_reindex_activated :: bool
  pg_pending_cleanup_collections :: "ustr list"

record storage_lifecycle_state =
  st_inspected :: bool
  st_exists :: "bool option"

record vector_lifecycle_state =
  ve_inspected :: bool
  ve_collection_exists :: "bool option"
  ve_has_vectors :: "bool option"
  ve_vector_count :: "int option"

record audit_result =
  ar_document_id :: ustr
  ar_overall_status :: audit_overall_status
  ar_findings :: "lifecycle_finding list"
  ar_postgres_state :: "postgres_lifecycle_state option"
  ar_storage_state :: "storage_lifecycle_state option"
  ar_vector_state :: "vector_lifecycle_state option"

definition not_found_result :: "ustr \<Rightarrow> audit_result" where
  "not_found_result document_id =
     \<lparr>ar_document_id = document_id, ar_overall_status = AuditNotFound,
      ar_findings = [finding DOCUMENT_MISSING SevError (uni ''No document row exists for this id.'')
        (uni ''A Document row exists.'') (uni ''No Document row was found.'')
        (uni ''Verify the document id; no further inspection was performed.'')],
      ar_postgres_state = None, ar_storage_state = None, ar_vector_state = None\<rparr>"

section \<open>What the database says\<close>

definition is_ingestion_job_stale :: "ingestion_job \<Rightarrow> int \<Rightarrow> time \<Rightarrow> bool" where
  "is_ingestion_job_stale job stale_after_seconds now \<longleftrightarrow> seconds stale_after_seconds < now - ing_updated_at job"

definition deletion_finding :: "deletion_job \<Rightarrow> lifecycle_finding option" where
  "deletion_finding job =
     (let report = (\<lambda>code summary. Some (finding code SevWarning (uni summary)
            (uni ''Deletion lifecycle is either not started or fully completed.'')
            (uni ''Latest deletion job status is '' @ deletion_status_value (del_status job) @ uni ''.'')
            (uni ''Allow the existing deletion worker to process this job, or inspect it via the deletion status endpoint; this audit never retries deletion.'')))
      in case del_status job of
           DelPending \<Rightarrow> report DELETION_PENDING ''A deletion has been requested but not yet started.''
         | DelProcessing \<Rightarrow> report DELETION_PROCESSING ''Deletion is currently in progress.''
         | DelPartiallyFailed \<Rightarrow> report DELETION_PARTIALLY_FAILED ''Deletion partially completed; some resources may remain.''
         | DelCompleted \<Rightarrow> None)"

definition deletion_completed_job :: "deletion_job option \<Rightarrow> bool" where
  "deletion_completed_job latest_deletion = (map_option del_status latest_deletion = Some DelCompleted)"

definition deletion_findings :: "deletion_job option \<Rightarrow> lifecycle_finding list" where
  "deletion_findings latest_deletion =
     (case latest_deletion of None \<Rightarrow> [] | Some job \<Rightarrow> (case deletion_finding job of None \<Rightarrow> [] | Some f \<Rightarrow> [f]))"

definition index_metadata_complete :: "document \<Rightarrow> bool" where
  "index_metadata_complete doc \<longleftrightarrow>
     collection_name doc \<noteq> None \<and> embedding_provider doc \<noteq> None \<and> embedding_model doc \<noteq> None \<and>
     embedding_version doc \<noteq> None \<and> chunking_version doc \<noteq> None"

definition ingestion_findings :: "document \<Rightarrow> ingestion_job option \<Rightarrow> int \<Rightarrow> time \<Rightarrow> lifecycle_finding list" where
  "ingestion_findings doc latest_ingestion stale_after_seconds now =
     (case latest_ingestion of
        None \<Rightarrow> []
      | Some job \<Rightarrow>
          (case ing_status job of
             IngCompleted \<Rightarrow>
               if index_metadata_complete doc then []
               else [finding INDEX_METADATA_INCOMPLETE SevError
                 (uni ''Ingestion completed but active index metadata is incomplete.'')
                 (uni ''collection_name and embedding_* metadata are all set.'')
                 (uni ''One or more active index metadata fields are null.'')
                 (uni ''Inspect the document's indexing history; do not re-index automatically from this finding alone.'')]
           | IngProcessing \<Rightarrow>
               if is_ingestion_job_stale job stale_after_seconds now
               then [finding STALE_INGESTION_JOB SevWarning
                 (uni ''The active ingestion job has not progressed within the stale threshold.'')
                 (uni ''A PROCESSING job updates within '' @ str_int stale_after_seconds @ uni ''s.'')
                 (uni ''The job has not been updated within that threshold.'')
                 (uni ''Consider running the existing stale-ingestion recovery script; this audit never recovers it automatically.'')]
               else [finding INGESTION_IN_PROGRESS SevInfo (uni ''Ingestion is actively in progress.'')
                 (uni ''A PROCESSING job resolves to COMPLETED or FAILED.'')
                 (uni ''The job is PROCESSING and within the stale threshold.'')
                 (uni ''No action needed; this is a normal transitional state.'')]
           | IngPending \<Rightarrow>
               [finding INGESTION_IN_PROGRESS SevInfo (uni ''Ingestion is queued but not yet started.'')
                 (uni ''A PENDING job is eventually claimed by the ingestion worker.'') (uni ''The job is PENDING.'')
                 (uni ''No action needed; this is a normal transitional state.'')]
           | IngFailed \<Rightarrow> []))"

definition reindex_findings :: "reindex_job option \<Rightarrow> cleanup_job list \<Rightarrow> lifecycle_finding list" where
  "reindex_findings latest_reindex pending_cleanup_jobs =
     (case latest_reindex of
        None \<Rightarrow> []
      | Some job \<Rightarrow>
          if rix_status job \<noteq> RixCompleted then []
          else if activated_at job = None then
            [finding REINDEX_TARGET_BUILT_NOT_ACTIVATED SevInfo
              (uni ''A re-index target was built successfully but has not been activated.'')
              (uni ''Either activation happens, or the build remains pending review.'')
              (uni ''Target '' @ py_repr (target_collection_name job) @ uni '' is built; the document still serves its prior collection.'')
              (uni ''Activate explicitly via the existing re-index activation path when ready; this audit never activates automatically.'')]
          else if list_ex (\<lambda>c. vc_collection_name c = source_collection_name job) pending_cleanup_jobs then
            [finding REINDEX_CLEANUP_PENDING SevWarning
              (uni ''Re-index activated; historical vector cleanup has not yet succeeded.'')
              (uni ''The vacated source collection's vectors are eventually cleaned up.'')
              (uni ''Cleanup for '' @ py_repr (source_collection_name job) @ uni '' is still pending or failed.'')
              (uni ''The document may still be serving correctly from the target; allow the existing cleanup worker to retry, or inspect the cleanup job directly.'')]
          else [])"

definition reindex_cleanup_collections :: "reindex_job option \<Rightarrow> ustr list" where
  "reindex_cleanup_collections latest_reindex =
     (case latest_reindex of
        None \<Rightarrow> []
      | Some job \<Rightarrow> if rix_status job = RixCompleted \<and> activated_at job \<noteq> None then [source_collection_name job] else [])"

definition cleanup_findings :: "ustr list \<Rightarrow> cleanup_job list \<Rightarrow> lifecycle_finding list" where
  "cleanup_findings reported pending_cleanup_jobs =
     map (\<lambda>job. finding VECTOR_CLEANUP_INCOMPLETE SevWarning (uni ''A historical-vector cleanup job remains unresolved.'')
            (uni ''Cleanup for '' @ py_repr (vc_collection_name job) @ uni '' eventually succeeds.'')
            (uni ''Cleanup job status is '' @ cleanup_status_value (vc_status job) @ uni ''.'')
            (uni ''Allow the existing cleanup worker to retry; this audit never executes or creates cleanup work.''))
       (filter (\<lambda>job. vc_collection_name job \<notin> set reported) pending_cleanup_jobs)"

definition postgres_state :: "document \<Rightarrow> ingestion_job option \<Rightarrow> deletion_job option \<Rightarrow> reindex_job option \<Rightarrow> cleanup_job list \<Rightarrow>
    postgres_lifecycle_state" where
  "postgres_state doc latest_ingestion latest_deletion latest_reindex pending_cleanup_jobs =
     \<lparr>pg_collection_name = collection_name doc, pg_document_created_at = doc_created_at doc,
      pg_latest_ingestion_status = map_option ing_status latest_ingestion,
      pg_latest_deletion_status = map_option del_status latest_deletion,
      pg_latest_reindex_status = map_option rix_status latest_reindex,
      pg_latest_reindex_activated = (case latest_reindex of None \<Rightarrow> False | Some job \<Rightarrow> activated_at job \<noteq> None),
      pg_pending_cleanup_collections = map vc_collection_name pending_cleanup_jobs\<rparr>"

section \<open>Inspecting the other stores\<close>

definition storage_unavailable_message :: ustr where
  "storage_unavailable_message = uni ''Object Storage could not be inspected; this is not proof the object is absent.''"

definition vector_unavailable_message :: ustr where
  "vector_unavailable_message = uni ''Qdrant could not be inspected; this is not proof the collection/vectors are absent.''"

definition vector_unavailable_finding :: lifecycle_finding where
  "vector_unavailable_finding = finding VECTOR_INSPECTION_UNAVAILABLE SevWarning (uni ''Qdrant could not be inspected.'')
     (uni ''Qdrant is reachable.'') vector_unavailable_message (uni ''Retry the audit once Qdrant is reachable.'')"

definition inspect_storage :: "'f file_storage \<Rightarrow> document \<Rightarrow> bool \<Rightarrow> ('f, exn, storage_lifecycle_state option \<times> lifecycle_finding list) call" where
  "inspect_storage fs doc deletion_completed f =
     (if deletion_completed then (Inr (None, []), f)
      else (case fs_exists fs (resolve_document_storage_key doc) f of
          (Inl (StorageErr e), f1) \<Rightarrow>
            (Inr (Some \<lparr>st_inspected = False, st_exists = None\<rparr>,
               [finding STORAGE_INSPECTION_UNAVAILABLE SevWarning (uni ''Object Storage could not be inspected.'')
                 (uni ''Object Storage is reachable.'') storage_unavailable_message
                 (uni ''Retry the audit once Object Storage is reachable.'')]), f1)
        | (Inl e, f1) \<Rightarrow> (Inl e, f1)
        | (Inr object_exists, f1) \<Rightarrow>
            (Inr (Some \<lparr>st_inspected = True, st_exists = Some object_exists\<rparr>,
               if object_exists then []
               else [finding OBJECT_MISSING SevError (uni ''The document's original object is missing from Object Storage.'')
                 (uni ''An object exists at the document's persisted storage key.'') (uni ''No object was found at that key.'')
                 (uni ''Inspect manually; this audit never deletes or restores objects.'')]), f1)))"

definition inspect_collection :: "'v vector_store \<Rightarrow> ustr \<Rightarrow> ustr \<Rightarrow> ('v, exn, vector_lifecycle_state option \<times> lifecycle_finding list) call" where
  "inspect_collection vs collection document_id v =
     (case vs_count_document_vectors vs collection document_id v of
        (Inl (QdrantVectorStoreError m), v1) \<Rightarrow>
          (Inr (Some \<lparr>ve_inspected = False, ve_collection_exists = Some True, ve_has_vectors = None, ve_vector_count = None\<rparr>,
             [vector_unavailable_finding]), v1)
      | (Inl e, v1) \<Rightarrow> (Inl e, v1)
      | (Inr vector_count, v1) \<Rightarrow>
          (Inr (Some \<lparr>ve_inspected = True, ve_collection_exists = Some True, ve_has_vectors = Some (0 < vector_count),
               ve_vector_count = Some vector_count\<rparr>,
             if 0 < vector_count then []
             else [finding ACTIVE_VECTORS_MISSING SevError (uni ''No vectors exist for this document in its active collection.'')
               (uni ''At least one vector exists for this document.'') (uni ''Zero vectors were found.'')
               (uni ''Inspect manually; this document cannot currently be retrieved despite claiming an active index.'')]), v1))"

definition inspect_vectors :: "'v vector_store \<Rightarrow> document \<Rightarrow> bool \<Rightarrow> ('v, exn, vector_lifecycle_state option \<times> lifecycle_finding list) call" where
  "inspect_vectors vs doc deletion_completed v =
     (case collection_name doc of
        None \<Rightarrow> (Inr (None, []), v)
      | Some collection \<Rightarrow>
          if deletion_completed then (Inr (None, []), v)
          else (case vs_get_collection_vector_size vs collection v of
              (Inl (QdrantVectorStoreError m), v1) \<Rightarrow>
                (Inr (Some \<lparr>ve_inspected = False, ve_collection_exists = None, ve_has_vectors = None, ve_vector_count = None\<rparr>,
                   [vector_unavailable_finding]), v1)
            | (Inl e, v1) \<Rightarrow> (Inl e, v1)
            | (Inr None, v1) \<Rightarrow>
                (Inr (Some \<lparr>ve_inspected = True, ve_collection_exists = Some False, ve_has_vectors = None, ve_vector_count = None\<rparr>,
                   [finding ACTIVE_COLLECTION_MISSING SevError (uni ''The document's active collection does not exist in Qdrant.'')
                     (uni ''Collection '' @ py_repr collection @ uni '' exists.'') (uni ''No such collection was found.'')
                     (uni ''Inspect manually; this document cannot currently serve retrieval from its claimed active collection.'')]), v1)
            | (Inr (Some n), v1) \<Rightarrow> inspect_collection vs collection (doc_id doc) v1))"

section \<open>The audit\<close>

definition overall_status_of :: "lifecycle_finding list \<Rightarrow> audit_overall_status" where
  "overall_status_of findings = (if list_ex (\<lambda>f. fi_severity f = SevError) findings then AuditInconsistent else AuditConsistent)"

definition audit_document_lifecycle :: "'f file_storage \<Rightarrow> 'v vector_store \<Rightarrow> settings \<Rightarrow> time \<Rightarrow> ustr \<Rightarrow>
    (('f, 'e, 'v) world, exn, audit_result) call" where
  "audit_document_lifecycle fs vs s now document_id w =
     (case get_document (w_db w) document_id of
        None \<Rightarrow> (Inr (not_found_result document_id), w)
      | Some doc \<Rightarrow>
          let latest_ingestion = get_latest_ingestion_job (w_db w) document_id;
              latest_deletion = get_latest_deletion_job (w_db w) document_id;
              latest_reindex = get_latest_reindex_job (w_db w) document_id;
              pending_cleanup_jobs = get_pending_cleanup_jobs (w_db w) (Some document_id);
              deleted = deletion_completed_job latest_deletion;
              recorded = deletion_findings latest_deletion @
                ingestion_findings doc latest_ingestion (ingestion_stale_after_seconds s) now @
                reindex_findings latest_reindex pending_cleanup_jobs @
                cleanup_findings (reindex_cleanup_collections latest_reindex) pending_cleanup_jobs
          in call_bind (on_files (inspect_storage fs doc deleted)) (\<lambda>(storage_state, storage_findings).
             call_bind (on_index (inspect_vectors vs doc deleted)) (\<lambda>(vector_state, vector_findings).
             let findings = recorded @ storage_findings @ vector_findings in
             call_return \<lparr>ar_document_id = document_id, ar_overall_status = overall_status_of findings, ar_findings = findings,
               ar_postgres_state = Some (postgres_state doc latest_ingestion latest_deletion latest_reindex pending_cleanup_jobs),
               ar_storage_state = storage_state, ar_vector_state = vector_state\<rparr>)) w)"

section \<open>What an audit reports\<close>

definition codes :: "lifecycle_finding list \<Rightarrow> finding_code set" where
  "codes fs = fi_code ` set fs"

definition contradiction_codes :: "finding_code set" where
  "contradiction_codes = {INDEX_METADATA_INCOMPLETE, OBJECT_MISSING, ACTIVE_COLLECTION_MISSING, ACTIVE_VECTORS_MISSING}"

named_theorems audit_simps "findings and their codes"

lemma finding_simps [simp]: "fi_code (finding c s a b e f) = c" "fi_severity (finding c s a b e f) = s"
  by (simp_all add: finding_def)

lemma codes_simps [audit_simps]: "codes [] = {}" "codes (f # fs) = insert (fi_code f) (codes fs)" "codes (fs @ gs) = codes fs \<union> codes gs"
  by (auto simp: codes_def)

text \<open>Every finding of a document is an error exactly when its code is one of the contradictions.\<close>

definition graded :: "lifecycle_finding list \<Rightarrow> bool" where
  "graded fs \<longleftrightarrow> (\<forall>f \<in> set fs. fi_severity f = SevError \<longleftrightarrow> fi_code f \<in> contradiction_codes)"

lemma graded_simps [audit_simps]: "graded []" "graded (f # fs) \<longleftrightarrow> (fi_severity f = SevError \<longleftrightarrow> fi_code f \<in> contradiction_codes) \<and> graded fs"
  "graded (fs @ gs) \<longleftrightarrow> graded fs \<and> graded gs"
  by (auto simp: graded_def)

lemma graded_overall: "graded fs \<Longrightarrow> overall_status_of fs = (if codes fs \<inter> contradiction_codes = {} then AuditConsistent else AuditInconsistent)"
  by (auto simp: overall_status_of_def graded_def codes_def list_ex_iff)

text \<open>What warrants a finding, stated on the rows and the stores and not on the findings.\<close>

definition vectors_silent :: "'v vector_store \<Rightarrow> ustr \<Rightarrow> ustr \<Rightarrow> 'v \<Rightarrow> bool" where
  "vectors_silent vs c i v \<longleftrightarrow> (\<exists>m. fst (vs_get_collection_vector_size vs c v) = Inl (QdrantVectorStoreError m)) \<or>
     (\<exists>n m. fst (vs_get_collection_vector_size vs c v) = Inr (Some n) \<and>
        fst (vs_count_document_vectors vs c i (snd (vs_get_collection_vector_size vs c v))) = Inl (QdrantVectorStoreError m))"

definition unresolved_cleanups :: "db \<Rightarrow> ustr \<Rightarrow> cleanup_job set" where
  "unresolved_cleanups d i = {c \<in> set (cleanup_jobs d). vc_document_id c = i \<and> vc_status c \<noteq> VcCompleted}"

definition vacated :: "reindex_job option \<Rightarrow> ustr \<Rightarrow> bool" where
  "vacated latest_reindex c \<longleftrightarrow> (\<exists>j. latest_reindex = Some j \<and> rix_status j = RixCompleted \<and> activated_at j \<noteq> None \<and>
     source_collection_name j = c)"

fun warranted_by_rows :: "int \<Rightarrow> time \<Rightarrow> document \<Rightarrow> ingestion_job option \<Rightarrow> deletion_job option \<Rightarrow> reindex_job option \<Rightarrow>
    cleanup_job set \<Rightarrow> finding_code \<Rightarrow> bool" where
  "warranted_by_rows n now doc ing del rix cleanups DELETION_PENDING = (map_option del_status del = Some DelPending)"
| "warranted_by_rows n now doc ing del rix cleanups DELETION_PROCESSING = (map_option del_status del = Some DelProcessing)"
| "warranted_by_rows n now doc ing del rix cleanups DELETION_PARTIALLY_FAILED = (map_option del_status del = Some DelPartiallyFailed)"
| "warranted_by_rows n now doc ing del rix cleanups INDEX_METADATA_INCOMPLETE =
     (map_option ing_status ing = Some IngCompleted \<and> \<not> index_metadata_complete doc)"
| "warranted_by_rows n now doc ing del rix cleanups STALE_INGESTION_JOB =
     (\<exists>j. ing = Some j \<and> ing_status j = IngProcessing \<and> seconds n < now - ing_updated_at j)"
| "warranted_by_rows n now doc ing del rix cleanups INGESTION_IN_PROGRESS =
     (\<exists>j. ing = Some j \<and> (ing_status j = IngPending \<or> ing_status j = IngProcessing \<and> now - ing_updated_at j \<le> seconds n))"
| "warranted_by_rows n now doc ing del rix cleanups REINDEX_TARGET_BUILT_NOT_ACTIVATED =
     (\<exists>j. rix = Some j \<and> rix_status j = RixCompleted \<and> activated_at j = None)"
| "warranted_by_rows n now doc ing del rix cleanups REINDEX_CLEANUP_PENDING = (\<exists>c \<in> cleanups. vacated rix (vc_collection_name c))"
| "warranted_by_rows n now doc ing del rix cleanups VECTOR_CLEANUP_INCOMPLETE = (\<exists>c \<in> cleanups. \<not> vacated rix (vc_collection_name c))"
| "warranted_by_rows n now doc ing del rix cleanups code = False"

fun warranted_by_storage :: "exn + bool \<Rightarrow> finding_code \<Rightarrow> bool" where
  "warranted_by_storage answer OBJECT_MISSING = (answer = Inr False)"
| "warranted_by_storage answer STORAGE_INSPECTION_UNAVAILABLE = (\<exists>e. answer = Inl (StorageErr e))"
| "warranted_by_storage answer code = False"

fun warranted_by_vectors :: "bool \<Rightarrow> int option \<Rightarrow> bool \<Rightarrow> finding_code \<Rightarrow> bool" where
  "warranted_by_vectors silent existing held VECTOR_INSPECTION_UNAVAILABLE = silent"
| "warranted_by_vectors silent existing held ACTIVE_COLLECTION_MISSING = (\<not> silent \<and> existing = None)"
| "warranted_by_vectors silent existing held ACTIVE_VECTORS_MISSING = (\<not> silent \<and> existing \<noteq> None \<and> \<not> held)"
| "warranted_by_vectors silent existing held code = False"

lemma rows_of_deletion: "graded (deletion_findings del)"
  "code \<in> codes (deletion_findings del) \<longleftrightarrow> warranted_by_rows n now doc None del None {} code"
  by (cases del; cases "del_status (the del)"; cases code; simp add: deletion_findings_def deletion_finding_def audit_simps
      contradiction_codes_def)+

lemma rows_of_ingestion: "graded (ingestion_findings doc ing n now)"
  "code \<in> codes (ingestion_findings doc ing n now) \<longleftrightarrow> warranted_by_rows n now doc ing None None {} code"
  by (cases ing; cases "ing_status (the ing)"; cases "index_metadata_complete doc"; cases "is_ingestion_job_stale (the ing) n now";
      cases code; simp add: ingestion_findings_def is_ingestion_job_stale_def audit_simps contradiction_codes_def)+

lemma rows_of_reindex: "graded (reindex_findings rix jobs @ cleanup_findings (reindex_cleanup_collections rix) jobs)"
  "code \<in> codes (reindex_findings rix jobs @ cleanup_findings (reindex_cleanup_collections rix) jobs) \<longleftrightarrow>
    warranted_by_rows n now doc None None rix (set jobs) code"
proof -
  have c: "codes (cleanup_findings (reindex_cleanup_collections rix) jobs) =
      (if \<exists>c \<in> set jobs. \<not> vacated rix (vc_collection_name c) then {VECTOR_CLEANUP_INCOMPLETE} else {})"
    by (auto simp: codes_def cleanup_findings_def reindex_cleanup_collections_def vacated_def image_image split: option.splits)
  have r: "codes (reindex_findings rix jobs) =
      (if \<exists>j. rix = Some j \<and> rix_status j = RixCompleted \<and> activated_at j = None then {REINDEX_TARGET_BUILT_NOT_ACTIVATED}
       else if \<exists>c \<in> set jobs. vacated rix (vc_collection_name c) then {REINDEX_CLEANUP_PENDING} else {})"
  proof (cases "\<exists>j. rix = Some j \<and> rix_status j = RixCompleted")
    case True
    then obtain j where j: "rix = Some j" "rix_status j = RixCompleted" by blast
    have v: "vacated rix c \<longleftrightarrow> activated_at j \<noteq> None \<and> c = source_collection_name j" for c
      using j by (auto simp: vacated_def)
    have e: "list_ex (\<lambda>c. vc_collection_name c = n) jobs \<longleftrightarrow> (\<exists>c \<in> set jobs. vc_collection_name c = n)" for n
      by (auto simp: list_ex_iff)
    show ?thesis
      unfolding v using j by (cases "activated_at j = None") (auto simp: reindex_findings_def audit_simps e)
  next
    case False
    then show ?thesis
      by (cases rix) (auto simp: reindex_findings_def vacated_def audit_simps)
  qed
  have excl: "vacated rix c \<Longrightarrow> \<not> (\<exists>j. rix = Some j \<and> rix_status j = RixCompleted \<and> activated_at j = None)" for c
    by (auto simp: vacated_def)
  show "code \<in> codes (reindex_findings rix jobs @ cleanup_findings (reindex_cleanup_collections rix) jobs) \<longleftrightarrow>
      warranted_by_rows n now doc None None rix (set jobs) code"
  proof (cases "\<exists>j. rix = Some j \<and> rix_status j = RixCompleted \<and> activated_at j = None")
    case True
    then have "\<not> vacated rix x" for x using excl by blast
    with True show ?thesis unfolding codes_simps(3) c r by (cases code) simp_all
  next
    case False
    then show ?thesis unfolding codes_simps(3) c r by (cases code) auto
  qed
  show "graded (reindex_findings rix jobs @ cleanup_findings (reindex_cleanup_collections rix) jobs)"
    by (auto simp: reindex_findings_def cleanup_findings_def graded_def contradiction_codes_def split: option.splits)
qed

lemma rows_together: "warranted_by_rows n now doc ing del rix cleanups code \<longleftrightarrow>
    warranted_by_rows n now doc None del None {} code \<or> warranted_by_rows n now doc ing None None {} code \<or>
    warranted_by_rows n now doc None None rix cleanups code"
  by (cases code) auto

lemma storage_warranted: "warranted_by_storage x code \<longleftrightarrow> code = OBJECT_MISSING \<and> x = Inr False \<or>
    code = STORAGE_INSPECTION_UNAVAILABLE \<and> (\<exists>e. x = Inl (StorageErr e))"
  by (cases code) simp_all

lemma inspect_storage_truth:
  assumes fst: "file_store fs address objects" and run: "inspect_storage fs doc deleted f = (Inr (st, found), f')"
  shows "objects f' = objects f \<and> graded found \<and> (\<forall>code. code \<in> codes found \<longleftrightarrow> \<not> deleted \<and>
    warranted_by_storage (fst (fs_exists fs (resolve_document_storage_key doc) f)) code)"
proof (cases deleted)
  case True
  with run show ?thesis by (simp add: inspect_storage_def audit_simps)
next
  case False
  let ?key = "resolve_document_storage_key doc"
  obtain x f1 where ex: "fs_exists fs ?key f = (x, f1)" by fastforce
  have frame: "objects f1 = objects f" using file_store.exists_frame [OF fst, of ?key f] ex by simp
  show ?thesis
  proof (cases x)
    case (Inr there)
    with ex frame run False show ?thesis
      by (cases there) (auto simp: inspect_storage_def audit_simps contradiction_codes_def storage_warranted)
  next
    case (Inl e)
    with ex frame run False show ?thesis
      by (cases e) (auto simp: inspect_storage_def audit_simps contradiction_codes_def storage_warranted)
  qed
qed

lemma vectors_warranted: "warranted_by_vectors silent existing held code \<longleftrightarrow>
    code = VECTOR_INSPECTION_UNAVAILABLE \<and> silent \<or> code = ACTIVE_COLLECTION_MISSING \<and> \<not> silent \<and> existing = None \<or>
    code = ACTIVE_VECTORS_MISSING \<and> \<not> silent \<and> existing \<noteq> None \<and> \<not> held"
  by (cases code) simp_all

lemma inspect_collection_truth:
  assumes vi: "vector_index vs stored sizes" and run: "inspect_collection vs c i v = (Inr (ve, found), v')"
  shows "stored v' = stored v \<and> sizes v' = sizes v \<and> graded found \<and> (\<forall>code. code \<in> codes found \<longleftrightarrow>
    warranted_by_vectors (\<exists>m. fst (vs_count_document_vectors vs c i v) = Inl (QdrantVectorStoreError m)) (Some n)
      (holds_document (stored v) c i) code)"
proof -
  obtain x v1 where count: "vs_count_document_vectors vs c i v = (x, v1)" by fastforce
  have frame: "stored v1 = stored v" "sizes v1 = sizes v"
    using vector_index.count_frame [OF vi, of c i v] count by simp_all
  show ?thesis
  proof (cases x)
    case (Inr m)
    with vector_index.count_ok [OF vi, of c i v m v1] count frame run show ?thesis
      by (cases "0 < m") (auto simp: inspect_collection_def audit_simps contradiction_codes_def vectors_warranted)
  next
    case (Inl e)
    with count frame run show ?thesis
      by (cases e) (auto simp: inspect_collection_def audit_simps contradiction_codes_def vector_unavailable_finding_def
          vectors_warranted)
  qed
qed

lemma inspect_vectors_truth:
  assumes vi: "vector_index vs stored sizes" and run: "inspect_vectors vs doc deleted v = (Inr (ve, found), v')"
  shows "stored v' = stored v \<and> sizes v' = sizes v \<and> graded found \<and> (\<forall>code. code \<in> codes found \<longleftrightarrow> \<not> deleted \<and>
    (\<exists>c. collection_name doc = Some c \<and> warranted_by_vectors (vectors_silent vs c (doc_id doc) v) (sizes v c)
      (holds_document (stored v) c (doc_id doc)) code))"
proof (cases "collection_name doc = None \<or> deleted")
  case True
  with run show ?thesis by (auto simp: inspect_vectors_def audit_simps split: option.splits)
next
  case False
  then obtain c where c: "collection_name doc = Some c" "\<not> deleted" by auto
  obtain x v1 where sz: "vs_get_collection_vector_size vs c v = (x, v1)" by fastforce
  have frame: "stored v1 = stored v" "sizes v1 = sizes v"
    using vector_index.size_frame [OF vi, of c v] sz by simp_all
  show ?thesis
  proof (cases x)
    case (Inl e)
    with c sz frame run show ?thesis
      by (cases e) (auto simp: inspect_vectors_def audit_simps contradiction_codes_def vector_unavailable_finding_def
          vectors_silent_def vectors_warranted)
  next
    case (Inr r)
    with vector_index.size_ok [OF vi, of c v r v1] sz have r: "r = sizes v c" by simp
    show ?thesis
    proof (cases r)
      case None
      with c sz frame run Inr r show ?thesis
        by (auto simp: inspect_vectors_def audit_simps contradiction_codes_def vectors_silent_def vectors_warranted)
    next
      case (Some n)
      with c sz run Inr have i: "inspect_collection vs c (doc_id doc) v1 = (Inr (ve, found), v')" by (simp add: inspect_vectors_def)
      have "vectors_silent vs c (doc_id doc) v \<longleftrightarrow> (\<exists>m. fst (vs_count_document_vectors vs c (doc_id doc) v1) = Inl (QdrantVectorStoreError m))"
        using sz Inr Some by (simp add: vectors_silent_def)
      with inspect_collection_truth [OF vi i, of n] frame c Some r show ?thesis by auto
    qed
  qed
qed

text \<open>C31: An audit changes nothing, and what it reports is the truth about the three stores: each finding is
  reported exactly when it is warranted by the rows of the database, by the answer of the object storage for the
  document's key, or by the answers of the vector store for its active collection; the stores are not asked about a
  document whose deletion is completed, and one that fails is reported as not inspected.  The verdict is inconsistent
  exactly when one of the four contradictions (incomplete index metadata, a missing object, collection or vectors) is
  warranted.  An object that the storage does not find is really absent; whatever else lies at its key, a directory
  for instance, counts as present.\<close>

theorem audit_reports_truth:
  assumes fst: "file_store fs address objects" and vi: "vector_index vs stored sizes"
    and run: "audit_document_lifecycle fs vs s now i w = (Inr res, w')"
  shows "w_db w' = w_db w \<and> objects (w_files w') = objects (w_files w) \<and> stored (w_index w') = stored (w_index w) \<and>
    sizes (w_index w') = sizes (w_index w) \<and>
    (case get_document (w_db w) i of
       None \<Rightarrow> ar_overall_status res = AuditNotFound \<and> codes (ar_findings res) = {DOCUMENT_MISSING}
     | Some doc \<Rightarrow>
         let deletion = get_latest_deletion_job (w_db w) i; gone = (map_option del_status deletion = Some DelCompleted);
             found = fst (fs_exists fs (resolve_document_storage_key doc) (w_files w));
             warranted = (\<lambda>code.
               warranted_by_rows (ingestion_stale_after_seconds s) now doc (get_latest_ingestion_job (w_db w) i) deletion
                 (get_latest_reindex_job (w_db w) i) (unresolved_cleanups (w_db w) i) code \<or>
               \<not> gone \<and> warranted_by_storage found code \<or>
               \<not> gone \<and> (\<exists>c. collection_name doc = Some c \<and>
                 warranted_by_vectors (vectors_silent vs c i (w_index w)) (sizes (w_index w) c)
                   (holds_document (stored (w_index w)) c i) code)) in
         codes (ar_findings res) = {code. warranted code} \<and>
         ar_overall_status res = (if \<exists>code \<in> contradiction_codes. warranted code then AuditInconsistent else AuditConsistent) \<and>
         (found = Inr False \<longrightarrow> (\<exists>a. address (resolve_document_storage_key doc) = Some a \<and> objects (w_files w) a = None)))"
proof (cases "get_document (w_db w) i")
  case None
  with run show ?thesis by (auto simp: audit_document_lifecycle_def not_found_result_def audit_simps)
next
  case (Some doc)
  let ?gone = "deletion_completed_job (get_latest_deletion_job (w_db w) i)"
  let ?key = "resolve_document_storage_key doc"
  let ?jobs = "get_pending_cleanup_jobs (w_db w) (Some i)"
  let ?rows = "warranted_by_rows (ingestion_stale_after_seconds s) now doc (get_latest_ingestion_job (w_db w) i)
    (get_latest_deletion_job (w_db w) i) (get_latest_reindex_job (w_db w) i) (unresolved_cleanups (w_db w) i)"
  have did: "doc_id doc = i" using Some get_row_Some unfolding get_document_def by fastforce
  have jobs: "set ?jobs = unresolved_cleanups (w_db w) i"
    by (auto simp: get_pending_cleanup_jobs_def unresolved_cleanups_def Let_def) (metis cleanup_status.exhaust)
  from run Some obtain recorded st sf f' ve vf v' where
    sto: "inspect_storage fs doc ?gone (w_files w) = (Inr (st, sf), f')" and
    vec: "inspect_vectors vs doc ?gone (w_index w) = (Inr (ve, vf), v')" and
    rec: "recorded = deletion_findings (get_latest_deletion_job (w_db w) i) @
      ingestion_findings doc (get_latest_ingestion_job (w_db w) i) (ingestion_stale_after_seconds s) now @
      (reindex_findings (get_latest_reindex_job (w_db w) i) ?jobs @
      cleanup_findings (reindex_cleanup_collections (get_latest_reindex_job (w_db w) i)) ?jobs)" and
    res: "ar_findings res = recorded @ sf @ vf" "ar_overall_status res = overall_status_of (recorded @ sf @ vf)" and
    w': "w' = w\<lparr>w_files := f', w_index := v'\<rparr>"
    by (auto simp: audit_document_lifecycle_def Let_def call_simps)
  note st = inspect_storage_truth [OF fst sto] and v = inspect_vectors_truth [OF vi vec, unfolded did]
  have rows: "code \<in> codes recorded \<longleftrightarrow> ?rows code" for code
  proof -
    let ?n = "ingestion_stale_after_seconds s"
    let ?del = "get_latest_deletion_job (w_db w) i" and ?ing = "get_latest_ingestion_job (w_db w) i"
      and ?rix = "get_latest_reindex_job (w_db w) i"
    have "codes recorded = codes (deletion_findings ?del) \<union> codes (ingestion_findings doc ?ing ?n now) \<union>
        codes (reindex_findings ?rix ?jobs @ cleanup_findings (reindex_cleanup_collections ?rix) ?jobs)"
      by (simp only: rec codes_simps(3) Un_assoc)
    moreover note rows_of_deletion(2) [of code ?del ?n now doc] rows_of_ingestion(2) [of code doc ?ing ?n now]
      rows_of_reindex(2) [of code ?rix ?jobs ?n now doc, unfolded jobs]
      rows_together [of ?n now doc ?ing ?del ?rix "unresolved_cleanups (w_db w) i" code]
    ultimately show ?thesis by blast
  qed
  have "graded (recorded @ sf @ vf)"
    using st v rows_of_deletion(1) rows_of_ingestion(1) rows_of_reindex(1) by (simp add: audit_simps rec)
  from graded_overall [OF this] have overall: "ar_overall_status res =
      (if codes (ar_findings res) \<inter> contradiction_codes = {} then AuditConsistent else AuditInconsistent)" by (simp add: res)
  have all: "codes (ar_findings res) = {code. ?rows code \<or> \<not> ?gone \<and> warranted_by_storage (fst (fs_exists fs ?key (w_files w))) code \<or>
      \<not> ?gone \<and> (\<exists>c. collection_name doc = Some c \<and> warranted_by_vectors (vectors_silent vs c i (w_index w)) (sizes (w_index w) c)
        (holds_document (stored (w_index w)) c i) code)}"
    unfolding res audit_simps using rows st v by blast
  have absent: "fst (fs_exists fs ?key (w_files w)) = Inr False \<Longrightarrow> \<exists>a. address ?key = Some a \<and> objects (w_files w) a = None"
    using file_store.exists_ok [OF fst, of ?key "w_files w" False] by (metis prod.collapse)
  show ?thesis
    unfolding Some option.case Let_def w' using st v absent
    by (auto simp: overall all deletion_completed_job_def)
qed

text \<open>A served document whose collection was lost.\<close>

definition lost_world :: "(local_fs, unit, mem_index) world" where
  "lost_world = \<lparr>w_files = stored_text, w_embedder = (), w_index = empty_index, w_db = serving_db (uni ''A'') []\<rparr>"

lemma stored_text_exists: "fs_exists sample_storage (resolve_document_storage_key (served_document c)) stored_text = (Inr True, stored_text)"
proof -
  have k: "resolve_document_storage_key (served_document c) = uni ''d1.txt''"
    by (simp add: resolve_document_storage_key_def served_document_def sample_document_def uni_append [symmetric])
  have "resolve [uni ''srv''] (uni ''d1.txt'') = Inr [uni ''srv'', uni ''d1.txt'']"
    by (simp add: resolve_def validate_object_key_def path_parts_def uni_def py_strip_def py_space_def is_absolute_def)
  then show ?thesis
    unfolding k by (simp add: sample_storage_def local_file_storage_def local_exists_def checked_exists_def next_fault_def
        path_exists_def stored_text_def)
qed

lemma lost_audit: "\<exists>res w'. audit_document_lifecycle sample_storage mem_store default_settings now (uni ''d1'') lost_world = (Inr res, w') \<and>
    ACTIVE_COLLECTION_MISSING \<in> codes (ar_findings res)"
proof -
  obtain st sf where s: "inspect_storage sample_storage (served_document (uni ''A'')) False stored_text = (Inr (st, sf), stored_text)"
    by (simp add: inspect_storage_def stored_text_exists)
  obtain ve vf where v: "inspect_vectors mem_store (served_document (uni ''A'')) False empty_index = (Inr (ve, vf), empty_index)"
    "ACTIVE_COLLECTION_MISSING \<in> codes vf"
    by (simp add: inspect_vectors_def mem_runs empty_index_def audit_simps)
  have "get_latest_deletion_job (serving_db (uni ''A'') []) i = None" for i
    by (simp add: get_latest_deletion_job_def latest_of_None)
  then show ?thesis
    using s v by (auto simp: audit_document_lifecycle_def lost_world_def deletion_completed_job_def Let_def call_bind_def on_files_def
        on_index_def call_return_def audit_simps)
qed

theorem audit_reports_truth_witness:
  "\<exists>res w'. audit_document_lifecycle sample_storage mem_store default_settings 0 (uni ''d1'') lost_world = (Inr res, w') \<and>
    ar_overall_status res = AuditInconsistent \<and> w_db w' = w_db lost_world"
proof -
  obtain res w' where run: "audit_document_lifecycle sample_storage mem_store default_settings 0 (uni ''d1'') lost_world = (Inr res, w')"
    "ACTIVE_COLLECTION_MISSING \<in> codes (ar_findings res)" using lost_audit by blast
  have "get_document (w_db lost_world) (uni ''d1'') = Some (served_document (uni ''A''))" by (simp add: lost_world_def)
  with audit_reports_truth [OF sample_file_store mem.index.vector_index_axioms run(1)] run show ?thesis
    by (auto simp: Let_def contradiction_codes_def)
qed

end
