(* ===== verification/Cursor_Text.thy ===== *)
theory Cursor_Text
  imports Text_Extraction
begin

text \<open>
  The text formats of the continuation cursor (\<open>document_audit_batch_service.py\<close>) as the standard library
  writes and reads them: URL-safe Base64 (\<open>base64.urlsafe_b64encode\<close>, the lenient \<open>urlsafe_b64decode\<close>)
  and JSON (\<open>json.dumps\<close> of a string, \<open>json.loads\<close>).
\<close>

section \<open>Base64\<close>

definition b64_char :: "nat \<Rightarrow> nat" where
  "b64_char n = (if n < 26 then 65 + n else if n < 52 then 71 + n else if n < 62 then n - 4 else if n = 62 then 45 else 95)"

definition b64_value :: "nat \<Rightarrow> nat option" where
  "b64_value c = (if 65 \<le> c \<and> c \<le> 90 then Some (c - 65) else if 97 \<le> c \<and> c \<le> 122 then Some (c - 71)
     else if 48 \<le> c \<and> c \<le> 57 then Some (c + 4) else if c = 45 \<or> c = 43 then Some 62
     else if c = 95 \<or> c = 47 then Some 63 else None)"

fun b64_groups :: "nat list \<Rightarrow> ustr" where
  "b64_groups [] = []"
| "b64_groups [a] = [b64_char (a div 4), b64_char (a mod 4 * 16), 61, 61]"
| "b64_groups [a, b] = [b64_char (a div 4), b64_char (a mod 4 * 16 + b div 16), b64_char (b mod 16 * 4), 61]"
| "b64_groups (a # b # c # r) =
     b64_char (a div 4) # b64_char (a mod 4 * 16 + b div 16) # b64_char (b mod 16 * 4 + c div 64) # b64_char (c mod 64) #
     b64_groups r"

definition urlsafe_b64encode :: "bytes \<Rightarrow> ustr" where
  "urlsafe_b64encode bs = b64_groups (map unat bs)"

text \<open>\<open>binascii.a2b_base64\<close> without strict mode: \<open>quad\<close> characters of the group were read, \<open>left\<close> holds
  their bits not yet written, \<open>pads\<close> counts the padding since the last character; characters outside
  the alphabet are skipped, and a complete padding ends the input.\<close>

fun a2b :: "nat \<Rightarrow> nat \<Rightarrow> nat \<Rightarrow> ustr \<Rightarrow> nat list option" where
  "a2b quad left pads [] = (if quad = 0 then Some [] else None)"
| "a2b quad left pads (c # cs) =
     (if c = 61 then (if 2 \<le> quad \<and> 4 \<le> quad + pads + 1 then Some [] else a2b quad left (if 2 \<le> quad then pads + 1 else pads) cs)
      else (case b64_value c of
          None \<Rightarrow> a2b quad left pads cs
        | Some v \<Rightarrow>
            if quad = 0 then a2b 1 v 0 cs
            else if quad = 1 then map_option ((#) (left * 4 + v div 16)) (a2b 2 (v mod 16) 0 cs)
            else if quad = 2 then map_option ((#) (left * 16 + v div 4)) (a2b 3 (v mod 4) 0 cs)
            else map_option ((#) (left * 64 + v)) (a2b 0 0 0 cs)))"

definition urlsafe_b64decode :: "ustr \<Rightarrow> bytes option" where
  "urlsafe_b64decode s = map_option (map word_of_nat) (a2b 0 0 0 s)"

lemma b64_value_char [simp]: "n < 64 \<Longrightarrow> b64_value (b64_char n) = Some n"
  by (auto simp: b64_char_def b64_value_def)

lemma b64_char_pad [simp]: "n < 64 \<Longrightarrow> b64_char n \<noteq> 61"
  by (auto simp: b64_char_def)

lemma b64_small [simp]: "(a :: nat) < 256 \<Longrightarrow> a div 4 < 64" "a mod 4 * 16 < 64" "b < 256 \<Longrightarrow> a mod 4 * 16 + b div 16 < 64"
  "b mod 16 * 4 < 64" "c < 256 \<Longrightarrow> b mod 16 * 4 + c div 64 < 64"
proof -
  have "a mod 4 < 4" "b mod 16 < 16" by simp_all
  then show "a mod 4 * 16 < 64" "b mod 16 * 4 < 64" by linarith+
  show "a mod 4 * 16 + b div 16 < 64" if "b < 256" using that \<open>a mod 4 < 4\<close> by linarith
  show "b mod 16 * 4 + c div 64 < 64" if "c < 256" using that \<open>b mod 16 < 16\<close> by linarith
qed simp

lemma b64_bits: "(b :: nat) < 256 \<Longrightarrow> b div 16 div 16 = 0" "b < 256 \<Longrightarrow> b div 16 mod 16 * 16 + b mod 16 = b"
  "c < 256 \<Longrightarrow> c div 64 div 4 = (0 :: nat)" "c < 256 \<Longrightarrow> c div 64 mod 4 * 64 + c mod 64 = (c :: nat)"
  by (simp_all add: div_mult2_eq [symmetric])

lemma a2b_groups: "\<forall>b \<in> set bs. b < 256 \<Longrightarrow> a2b 0 0 0 (b64_groups bs) = Some bs"
  by (induction bs rule: b64_groups.induct) (simp_all add: b64_bits)

theorem base64_round_trip: "urlsafe_b64decode (urlsafe_b64encode bs) = Some bs"
proof -
  have "\<forall>b \<in> set (map unat bs). b < 256" by (auto intro: order_less_le_trans [OF unsigned_less])
  then show ?thesis by (simp add: urlsafe_b64decode_def urlsafe_b64encode_def a2b_groups comp_def)
qed

section \<open>JSON\<close>

definition json_escape_char :: "nat \<Rightarrow> ustr" where
  "json_escape_char c =
     (let u = (\<lambda>n. [92, 117, hex_digit (n div 4096 mod 16), hex_digit (n div 256 mod 16), hex_digit (n div 16 mod 16), hex_digit (n mod 16)]) in
      if c = 34 \<or> c = 92 then [92, c]
      else if c = 10 then [92, 110] else if c = 13 then [92, 114] else if c = 9 then [92, 116]
      else if c = 12 then [92, 102] else if c = 8 then [92, 98]
      else if 32 \<le> c \<and> c \<le> 126 then [c]
      else if c < 65536 then u c
      else u (55296 + (c - 65536) div 1024) @ u (56320 + (c - 65536) mod 1024))"

definition json_string :: "ustr \<Rightarrow> ustr" where
  "json_string s = [34] @ concat (map json_escape_char s) @ [34]"

text \<open>A parsed value; literals (numbers, \<open>null\<close>, \<open>true\<close>, \<open>false\<close>) are kept as they were written.\<close>

datatype payload = PString ustr | PObject "(ustr \<times> payload) list" | PArray "payload list" | PLiteral ustr

definition skip_ws :: "ustr \<Rightarrow> ustr" where
  "skip_ws s = dropWhile (\<lambda>c. c = 32 \<or> c = 9 \<or> c = 10 \<or> c = 13) s"

definition hex_value :: "nat \<Rightarrow> nat option" where
  "hex_value c = (if 48 \<le> c \<and> c \<le> 57 then Some (c - 48) else if 97 \<le> c \<and> c \<le> 102 then Some (c - 87)
     else if 65 \<le> c \<and> c \<le> 70 then Some (c - 55) else None)"

definition hex4 :: "ustr \<Rightarrow> nat option" where
  "hex4 s = (if length s < 4 \<or> list_ex (\<lambda>c. hex_value c = None) (take 4 s) then None
     else Some (foldl (\<lambda>a c. 16 * a + the (hex_value c)) 0 (take 4 s)))"

definition simple_escape :: "nat \<Rightarrow> nat option" where
  "simple_escape c = (if c = 34 \<or> c = 92 \<or> c = 47 then Some c else if c = 98 then Some 8 else if c = 102 then Some 12
     else if c = 110 then Some 10 else if c = 114 then Some 13 else if c = 116 then Some 9 else None)"

text \<open>The text after an opening quote: the string and what follows its closing quote.\<close>

function scan_string :: "ustr \<Rightarrow> (ustr \<times> ustr) option" where
  "scan_string [] = None"
| "scan_string (c # r) =
     (if c = 34 then Some ([], r)
      else if c < 32 then None
      else if c \<noteq> 92 then map_option (apfst ((#) c)) (scan_string r)
      else (case r of
          [] \<Rightarrow> None
        | e # r1 \<Rightarrow>
            if e \<noteq> 117 then
              (case simple_escape e of None \<Rightarrow> None | Some x \<Rightarrow> map_option (apfst ((#) x)) (scan_string r1))
            else (case hex4 r1 of
                None \<Rightarrow> None
              | Some u \<Rightarrow>
                  if 55296 \<le> u \<and> u \<le> 56319 \<and> take 2 (drop 4 r1) = [92, 117] then
                    (case hex4 (drop 6 r1) of
                       None \<Rightarrow> None
                     | Some l \<Rightarrow>
                         if 56320 \<le> l \<and> l \<le> 57343 then
                           map_option (apfst ((#) (65536 + (u - 55296) * 1024 + (l - 56320)))) (scan_string (drop 10 r1))
                         else map_option (apfst ((#) u)) (scan_string (drop 4 r1)))
                  else map_option (apfst ((#) u)) (scan_string (drop 4 r1)))))"
  by pat_completeness auto
termination by (relation "measure length") auto

definition digit_char :: "nat \<Rightarrow> bool" where
  "digit_char c \<longleftrightarrow> 48 \<le> c \<and> c \<le> 57"

text \<open>\<open>-?(0|[1-9][0-9]*)([.][0-9]+)?([eE][-+]?[0-9]+)?\<close> at the start of the text: what follows it.\<close>

definition skip_integer :: "ustr \<Rightarrow> ustr option" where
  "skip_integer s =
     (let t = (if take 1 s = [45] then tl s else s) in
      if t = [] \<or> \<not> digit_char (hd t) then None
      else Some (if hd t = 48 then tl t else dropWhile digit_char t))"

definition skip_fraction :: "ustr \<Rightarrow> ustr" where
  "skip_fraction s = (if take 1 s = [46] \<and> takeWhile digit_char (tl s) \<noteq> [] then dropWhile digit_char (tl s) else s)"

definition skip_exponent :: "ustr \<Rightarrow> ustr" where
  "skip_exponent s =
     (if s \<noteq> [] \<and> (hd s = 101 \<or> hd s = 69) then
        (let t = (if take 1 (tl s) = [45] \<or> take 1 (tl s) = [43] then tl (tl s) else tl s) in
         if takeWhile digit_char t \<noteq> [] then dropWhile digit_char t else s)
      else s)"

definition skip_number :: "ustr \<Rightarrow> ustr option" where
  "skip_number s = map_option (\<lambda>r. skip_exponent (skip_fraction r)) (skip_integer s)"

definition skip_literal :: "ustr \<Rightarrow> ustr option" where
  "skip_literal s =
     (if take 4 s = uni ''null'' \<or> take 4 s = uni ''true'' then Some (drop 4 s)
      else if take 5 s = uni ''false'' then Some (drop 5 s)
      else (case skip_number s of
          Some r \<Rightarrow> Some r
        | None \<Rightarrow> if take 3 s = uni ''NaN'' then Some (drop 3 s)
            else if take 8 s = uni ''Infinity'' then Some (drop 8 s)
            else if take 9 s = uni ''-Infinity'' then Some (drop 9 s) else None))"

definition expect :: "nat \<Rightarrow> ustr \<Rightarrow> ustr option" where
  "expect c s = (case s of [] \<Rightarrow> None | x # r \<Rightarrow> if x = c then Some r else None)"

text \<open>The fuel bounds the nesting; twice the length of the text is enough (\<open>parse_fuel\<close>).\<close>

fun parse_value :: "nat \<Rightarrow> ustr \<Rightarrow> (payload \<times> ustr) option"
and parse_members :: "nat \<Rightarrow> (ustr \<times> payload) list \<Rightarrow> ustr \<Rightarrow> (payload \<times> ustr) option"
and parse_elements :: "nat \<Rightarrow> payload list \<Rightarrow> ustr \<Rightarrow> (payload \<times> ustr) option"
where
  "parse_value 0 s = None"
| "parse_value (Suc n) s =
     (case s of
        [] \<Rightarrow> None
      | c # r \<Rightarrow>
          if c = 34 then map_option (apfst PString) (scan_string r)
          else if c = 123 then
            (case expect 125 (skip_ws r) of Some t \<Rightarrow> Some (PObject [], t) | None \<Rightarrow> parse_members n [] (skip_ws r))
          else if c = 91 then
            (case expect 93 (skip_ws r) of Some t \<Rightarrow> Some (PArray [], t) | None \<Rightarrow> parse_elements n [] (skip_ws r))
          else map_option (\<lambda>t. (PLiteral (take (length s - length t) s), t)) (skip_literal s))"
| "parse_members 0 acc s = None"
| "parse_members (Suc n) acc s =
     (case Option.bind (expect 34 s) scan_string of
        None \<Rightarrow> None
      | Some (k, r1) \<Rightarrow>
          (case expect 58 (skip_ws r1) of
             None \<Rightarrow> None
           | Some r2 \<Rightarrow>
               (case parse_value n (skip_ws r2) of
                  None \<Rightarrow> None
                | Some (v, r3) \<Rightarrow>
                    (case expect 125 (skip_ws r3) of
                       Some t \<Rightarrow> Some (PObject (acc @ [(k, v)]), t)
                     | None \<Rightarrow>
                         (case expect 44 (skip_ws r3) of
                            Some t \<Rightarrow> parse_members n (acc @ [(k, v)]) (skip_ws t)
                          | None \<Rightarrow> None)))))"
| "parse_elements 0 acc s = None"
| "parse_elements (Suc n) acc s =
     (case parse_value n s of
        None \<Rightarrow> None
      | Some (v, r) \<Rightarrow>
          (case expect 93 (skip_ws r) of
             Some t \<Rightarrow> Some (PArray (acc @ [v]), t)
           | None \<Rightarrow> (case expect 44 (skip_ws r) of Some t \<Rightarrow> parse_elements n (acc @ [v]) (skip_ws t) | None \<Rightarrow> None)))"

definition json_loads :: "ustr \<Rightarrow> payload option" where
  "json_loads s =
     (if take 1 s = [65279] then None
      else (case parse_value (2 * length s + 2) (skip_ws s) of
          None \<Rightarrow> None
        | Some (v, r) \<Rightarrow> if skip_ws r = [] then Some v else None))"

text \<open>Strings of printable ASCII without quotes and backslashes are written as they are and read back.\<close>

definition plain_char :: "nat \<Rightarrow> bool" where
  "plain_char c \<longleftrightarrow> 32 \<le> c \<and> c \<le> 126 \<and> c \<noteq> 34 \<and> c \<noteq> 92"

lemma json_string_plain: "list_all plain_char s \<Longrightarrow> json_string s = 34 # s @ [34]"
proof -
  assume "list_all plain_char s"
  then have "concat (map json_escape_char s) = s"
    by (induction s) (simp_all add: json_escape_char_def plain_char_def)
  then show ?thesis by (simp add: json_string_def)
qed

lemma scan_plain: "list_all plain_char s \<Longrightarrow> scan_string (s @ 34 # r) = Some (s, r)"
  by (induction s) (simp_all add: plain_char_def)

text \<open>Every reader consumes text, so the fuel never runs out.\<close>

lemma skip_ws_length: "length (skip_ws s) \<le> length s"
  by (simp add: skip_ws_def length_dropWhile_le)

lemma scan_string_length: "scan_string s = Some (x, r) \<Longrightarrow> length r < length s"
  by (induction s arbitrary: x r rule: scan_string.induct)
    (auto split: if_splits list.splits option.splits, (fastforce dest: le_less_trans less_trans)+)

lemma skip_integer_length: "skip_integer s = Some r \<Longrightarrow> length r < length s"
proof -
  assume run: "skip_integer s = Some r"
  define t where "t = (if take 1 s = [45] then tl s else s)"
  have t: "t \<noteq> []" "digit_char (hd t)" "r = (if hd t = 48 then tl t else dropWhile digit_char t)"
    using run by (auto simp: skip_integer_def t_def Let_def split: if_splits)
  have "length r < length t"
    using t length_dropWhile_le [of digit_char "tl t"] by (cases t) auto
  also have "length t \<le> length s" by (simp add: t_def)
  finally show ?thesis .
qed

lemma dropWhile_tl_length: "length (dropWhile P (tl s)) \<le> length s" "length (dropWhile P (tl (tl s))) \<le> length s"
  by (rule le_trans [OF length_dropWhile_le], simp)+

lemma skip_fraction_length: "length (skip_fraction s) \<le> length s"
  by (simp add: skip_fraction_def dropWhile_tl_length)

lemma skip_exponent_length: "length (skip_exponent s) \<le> length s"
  by (simp add: skip_exponent_def Let_def dropWhile_tl_length)

lemma skip_literal_length: "skip_literal s = Some r \<Longrightarrow> length r < length s"
proof -
  assume run: "skip_literal s = Some r"
  have "length (drop (Suc n) s) < length s" if "s \<noteq> []" for n using that by (cases s) auto
  moreover have "s \<noteq> []" using run by (auto simp: skip_literal_def skip_number_def skip_integer_def uni_def)
  moreover have "length r < length s" if "skip_number s = Some r"
    using that skip_integer_length [of s] le_less_trans [OF skip_exponent_length] le_less_trans [OF skip_fraction_length]
    by (auto simp: skip_number_def)
  ultimately show ?thesis using run by (auto simp: skip_literal_def split: if_splits option.splits)
qed

lemma expect_Some: "expect c s = Some r \<longleftrightarrow> s = c # r"
  by (auto simp: expect_def split: list.splits)

lemma expect_ws: "expect c (skip_ws s) = Some r \<Longrightarrow> length r < length s"
  using skip_ws_length [of s] by (simp add: expect_Some)

lemma parse_consumes:
  "parse_value n s = Some (v, r) \<Longrightarrow> length r < length s"
  "parse_members n acc s = Some (v, r) \<Longrightarrow> length r < length s"
  "parse_elements n xs s = Some (v, r) \<Longrightarrow> length r < length s"
proof (induction n s and n acc s and n xs s arbitrary: v r and v r and v r rule: parse_value_parse_members_parse_elements.induct)
  case (2 n s)
  show ?case
  proof (cases s)
    case Nil
    with 2 show ?thesis by simp
  next
    case (Cons c t)
    note ws = skip_ws_length [of t]
    from 2(3) Cons consider "scan_string t = Some (case v of PString x \<Rightarrow> x, r)" | "expect 125 (skip_ws t) = Some r"
      | "expect 125 (skip_ws t) = None" "c = 123" "parse_members n [] (skip_ws t) = Some (v, r)" | "expect 93 (skip_ws t) = Some r"
      | "expect 93 (skip_ws t) = None" "c = 91" "parse_elements n [] (skip_ws t) = Some (v, r)" | "skip_literal s = Some r"
      by (auto split: if_splits option.splits)
    then show ?thesis
    proof cases
      case 1 with Cons scan_string_length [OF 1] show ?thesis by simp
    next
      case 2 with Cons expect_ws [OF 2] show ?thesis by simp
    next
      case 3 with Cons "2.IH"(1) [OF Cons _ 3(2,1,3)] ws show ?thesis by simp
    next
      case 4 with Cons expect_ws [OF 4] show ?thesis by simp
    next
      case 5 with Cons "2.IH"(2) [OF Cons _ _ 5(2,1,3)] ws show ?thesis by simp
    next
      case 6 with skip_literal_length show ?thesis by simp
    qed
  qed
next
  case (4 n acc s)
  from 4(3) obtain q k r1 r2 x r3 where q: "expect 34 s = Some q" "scan_string q = Some (k, r1)" "expect 58 (skip_ws r1) = Some r2"
    and x: "parse_value n (skip_ws r2) = Some (x, r3)"
    and rest: "expect 125 (skip_ws r3) = Some r \<or> expect 125 (skip_ws r3) = None \<and>
      (\<exists>u. expect 44 (skip_ws r3) = Some u \<and> parse_members n (acc @ [(k, x)]) (skip_ws u) = Some (v, r))"
    by (auto simp: bind_eq_Some_conv split: option.splits)
  have b: "Option.bind (expect 34 s) scan_string = Some (k, r1)" using q by simp
  have "length r3 < length s"
    using "4.IH"(1) [OF b refl q(3) x] skip_ws_length [of r2] expect_ws [OF q(3)] scan_string_length [OF q(2)] q(1)
    by (simp add: expect_Some)
  moreover have "length r < length r3"
    using rest
  proof (elim disjE conjE exE)
    assume "expect 125 (skip_ws r3) = Some r"
    then show ?thesis by (rule expect_ws)
  next
    fix u assume u: "expect 125 (skip_ws r3) = None" "expect 44 (skip_ws r3) = Some u" "parse_members n (acc @ [(k, x)]) (skip_ws u) = Some (v, r)"
    from "4.IH"(2) [OF b refl q(3) x refl u] expect_ws [OF u(2)] skip_ws_length [of u] show ?thesis by simp
  qed
  ultimately show ?case by simp
next
  case (6 n xs s)
  from 6(3) obtain x r1 where x: "parse_value n s = Some (x, r1)"
    and rest: "expect 93 (skip_ws r1) = Some r \<or> expect 93 (skip_ws r1) = None \<and>
      (\<exists>u. expect 44 (skip_ws r1) = Some u \<and> parse_elements n (xs @ [x]) (skip_ws u) = Some (v, r))"
    by (auto split: option.splits)
  have "length r < length r1"
    using rest
  proof (elim disjE conjE exE)
    assume "expect 93 (skip_ws r1) = Some r"
    then show ?thesis by (rule expect_ws)
  next
    fix u assume u: "expect 93 (skip_ws r1) = None" "expect 44 (skip_ws r1) = Some u" "parse_elements n (xs @ [x]) (skip_ws u) = Some (v, r)"
    from "6.IH"(2) [OF x refl u] expect_ws [OF u(2)] skip_ws_length [of u] show ?thesis by simp
  qed
  with "6.IH"(1) [OF x] show ?case by simp
qed simp_all

lemma parse_fuel_step:
  "2 * length s + 1 < n \<Longrightarrow> n \<le> m \<Longrightarrow> parse_value m s = parse_value n s"
  "2 * length s + 1 < n \<Longrightarrow> n \<le> m \<Longrightarrow> parse_members m acc s = parse_members n acc s"
  "2 * length s + 2 < n \<Longrightarrow> n \<le> m \<Longrightarrow> parse_elements m xs s = parse_elements n xs s"
proof (induction n s and n acc s and n xs s arbitrary: m and m and m rule: parse_value_parse_members_parse_elements.induct)
  case (2 n s)
  from "2.prems" obtain k where m: "m = Suc k" "n \<le> k" by (cases m) auto
  show ?case
  proof (cases s)
    case Nil
    with m show ?thesis by simp
  next
    case (Cons c t)
    have "Suc (Suc (2 * length (skip_ws t))) < n" using 2(3) Cons skip_ws_length [of t] by simp
    then have "parse_members k [] (skip_ws t) = parse_members n [] (skip_ws t)" if "c = 123" "expect 125 (skip_ws t) = None"
      using "2.IH"(1) [OF Cons _ that _ m(2)] that by simp
    moreover have "parse_elements k [] (skip_ws t) = parse_elements n [] (skip_ws t)" if "c = 91" "expect 93 (skip_ws t) = None"
      using "2.IH"(2) [OF Cons _ _ that _ m(2)] that \<open>Suc (Suc (2 * length (skip_ws t))) < n\<close> by simp
    ultimately show ?thesis unfolding m Cons
      by (cases "expect 125 (skip_ws t)"; cases "expect 93 (skip_ws t)") simp_all
  qed
next
  case (4 n acc s)
  from "4.prems" obtain k where m: "m = Suc k" "n \<le> k" by (cases m) auto
  have val: "parse_value k (skip_ws r2) = parse_value n (skip_ws r2)" if "expect 34 s = Some q" "scan_string q = Some (kk, r1)"
    "expect 58 (skip_ws r1) = Some r2" for q kk r1 r2
  proof -
    have b: "Option.bind (expect 34 s) scan_string = Some (kk, r1)" using that by simp
    have "length (skip_ws r2) < length s"
      using that(1) scan_string_length [OF that(2)] expect_ws [OF that(3)] skip_ws_length [of r2] by (simp add: expect_Some)
    then show ?thesis using "4.IH"(1) [OF b refl that(3) _ m(2)] "4.prems" by simp
  qed
  have mem: "parse_members k (acc @ [(kk, x)]) (skip_ws t) = parse_members n (acc @ [(kk, x)]) (skip_ws t)"
    if "expect 34 s = Some q" "scan_string q = Some (kk, r1)" "expect 58 (skip_ws r1) = Some r2" "parse_value n (skip_ws r2) = Some (x, r3)"
    "expect 125 (skip_ws r3) = None" "expect 44 (skip_ws r3) = Some t" for q kk r1 r2 x r3 t
  proof -
    have b: "Option.bind (expect 34 s) scan_string = Some (kk, r1)" using that by simp
    have "length (skip_ws t) < length s"
      using that(1) scan_string_length [OF that(2)] expect_ws [OF that(3)] skip_ws_length [of r2] parse_consumes(1) [OF that(4)]
        expect_ws [OF that(6)] skip_ws_length [of t] by (simp add: expect_Some)
    then show ?thesis using "4.IH"(2) [OF b refl that(3,4) refl that(5,6) _ m(2)] "4.prems" by simp
  qed
  show ?case
    unfolding m using val mem
    by (auto simp: bind_eq_Some_conv split: option.splits)
next
  case (6 n xs s)
  from "6.prems" obtain k where m: "m = Suc k" "n \<le> k" by (cases m) auto
  have "parse_value k s = parse_value n s" using "6.IH"(1) [OF _ m(2)] "6.prems" by simp
  moreover have "parse_elements k (xs @ [x]) (skip_ws t) = parse_elements n (xs @ [x]) (skip_ws t)"
    if "parse_value n s = Some (x, r)" "expect 93 (skip_ws r) = None" "expect 44 (skip_ws r) = Some t" for x r t
  proof -
    have "length (skip_ws t) < length s"
      using parse_consumes(1) [OF that(1)] expect_ws [OF that(3)] skip_ws_length [of t] by simp
    then show ?thesis using "6.IH"(2) [OF that(1) refl that(2,3) _ m(2)] "6.prems" by simp
  qed
  ultimately show ?case unfolding m by (auto split: option.splits)
qed simp_all

lemma parse_fuel: "2 * length s + 2 \<le> n \<Longrightarrow> parse_value n s = parse_value (2 * length s + 2) s"
  by (rule parse_fuel_step(1)) simp_all

text \<open>An object of two plain strings is read back.\<close>

lemma skip_ws_id: "c \<noteq> 32 \<Longrightarrow> c \<noteq> 9 \<Longrightarrow> c \<noteq> 10 \<Longrightarrow> c \<noteq> 13 \<Longrightarrow> skip_ws (c # r) = c # r"
  by (simp add: skip_ws_def)

lemma loads_two_strings:
  assumes "list_all plain_char j" "list_all plain_char k" "list_all plain_char a" "list_all plain_char b"
  shows "json_loads (123 # json_string j @ [58] @ json_string a @ [44] @ json_string k @ [58] @ json_string b @ [125]) =
    Some (PObject [(j, PString a), (k, PString b)])"
proof -
  let ?tail = "34 # k @ 34 # 58 # 34 # b @ [34, 125]"
  have val: "parse_value (Suc n) (34 # x @ 34 # r) = Some (PString x, r)" if "list_all plain_char x" for n x r
    using scan_plain [OF that, of r] by simp
  have second: "parse_members (Suc (Suc n)) acc ?tail = Some (PObject (acc @ [(k, PString b)]), [])" for n acc
    using scan_plain [OF assms(2), of "58 # 34 # b @ [34, 125]"] val [OF assms(4), of n "[125]"]
    by (simp add: expect_def skip_ws_id del: parse_value.simps)
  have "parse_members (Suc (Suc (Suc n))) [] (34 # j @ 34 # 58 # 34 # a @ 34 # 44 # ?tail) =
      Some (PObject [(j, PString a), (k, PString b)], [])" for n
    using scan_plain [OF assms(1), of "58 # 34 # a @ 34 # 44 # ?tail"] val [OF assms(3), of "Suc n" "44 # ?tail"] second [of n "[(j, PString a)]"]
    by (simp add: expect_def skip_ws_id del: parse_value.simps)
  then have "parse_value (Suc (Suc (Suc (Suc n)))) (123 # 34 # j @ 34 # 58 # 34 # a @ 34 # 44 # ?tail) =
      Some (PObject [(j, PString a), (k, PString b)], [])" for n
    by (simp add: expect_def skip_ws_id)
  then show ?thesis
    using assms by (simp add: json_loads_def json_string_plain skip_ws_id) (simp add: skip_ws_def numeral_eq_Suc)
qed

end
