(* ===== verification/Audit_Batch.thy ===== *)
theory Audit_Batch
  imports Document_Audit Cursor_Text
begin

text \<open>
  The batch audit (\<open>app/services/reconciliation/document_audit_batch_service.py\<close>): one page of documents
  in ascending \<open>created_at\<close>, \<open>id\<close> order, each audited in turn, the counts of the page, and the cursor of
  the next one.  What the standard library does with timestamps and identifiers is a parameter.
\<close>

section \<open>Cursors\<close>

text \<open>\<open>datetime.isoformat\<close>, \<open>datetime.fromisoformat\<close> (\<open>None\<close> is a \<open>ValueError\<close>, the flag says whether the
  result is timezone-aware) and whether \<open>uuid.UUID\<close> accepts a text.\<close>

record cursor_library =
  iso_format :: "time \<Rightarrow> ustr"
  iso_parse :: "ustr \<Rightarrow> (time \<times> bool) option"
  uuid_valid :: "ustr \<Rightarrow> bool"

datatype audit_batch_error =
    InvalidAuditBatchLimitError ustr
  | InvalidAuditCursorError ustr
  | AuditRaised exn

record audit_cursor =
  ac_created_at :: time
  ac_document_id :: ustr

definition max_cursor_size_bytes :: nat where
  "max_cursor_size_bytes = 2048"

definition encode_audit_cursor :: "cursor_library \<Rightarrow> time \<Rightarrow> ustr \<Rightarrow> ustr" where
  "encode_audit_cursor lib created_at document_id =
     urlsafe_b64encode (encode_text (123 # json_string (uni ''created_at'') @ [58] @ json_string (iso_format lib created_at) @
       [44] @ json_string (uni ''id'') @ [58] @ json_string document_id @ [125]))"

definition payload_field :: "(ustr \<times> payload) list \<Rightarrow> string \<Rightarrow> payload option" where
  "payload_field kvs k = map_of (rev kvs) (uni k)"

definition decode_payload :: "cursor_library \<Rightarrow> payload \<Rightarrow> audit_batch_error + audit_cursor" where
  "decode_payload lib p =
     (case p of
        PObject kvs \<Rightarrow>
          (case (payload_field kvs ''created_at'', payload_field kvs ''id'') of
             (Some created_at, Some document_id) \<Rightarrow>
               (case (created_at, document_id) of
                  (PString created_at_raw, PString i) \<Rightarrow>
                    (case iso_parse lib created_at_raw of
                       None \<Rightarrow> Inl (InvalidAuditCursorError (uni ''Cursor created_at is not a valid ISO datetime.''))
                     | Some (t, aware) \<Rightarrow>
                         if \<not> aware then Inl (InvalidAuditCursorError (uni ''Cursor created_at must be timezone-aware.''))
                         else if \<not> uuid_valid lib i then
                           Inl (InvalidAuditCursorError (uni ''Cursor id is not a valid document identifier.''))
                         else Inr \<lparr>ac_created_at = t, ac_document_id = i\<rparr>)
                | _ \<Rightarrow> Inl (InvalidAuditCursorError (uni ''Cursor payload fields have an invalid type.'')))
           | _ \<Rightarrow> Inl (InvalidAuditCursorError (uni ''Cursor payload is missing required fields.'')))
      | _ \<Rightarrow> Inl (InvalidAuditCursorError (uni ''Cursor payload must be a JSON object.'')))"

definition decode_audit_cursor :: "cursor_library \<Rightarrow> ustr \<Rightarrow> audit_batch_error + audit_cursor" where
  "decode_audit_cursor lib cursor =
     (if max_cursor_size_bytes < length cursor then
        Inl (InvalidAuditCursorError (uni ''Cursor exceeds the maximum allowed size.''))
      else (case (if list_all (\<lambda>c. c < 128) cursor then urlsafe_b64decode cursor else None) of
          None \<Rightarrow> Inl (InvalidAuditCursorError (uni ''Cursor is not valid URL-safe Base64.''))
        | Some raw \<Rightarrow>
            (case Option.bind (decode_bytes raw) json_loads of
               None \<Rightarrow> Inl (InvalidAuditCursorError (uni ''Cursor does not decode to valid JSON.''))
             | Some p \<Rightarrow> decode_payload lib p)))"

section \<open>Pages\<close>

definition min_batch_limit :: int where
  "min_batch_limit = 1"

definition default_batch_limit :: int where
  "default_batch_limit = 20"

definition max_batch_limit :: int where
  "max_batch_limit = 50"

definition validate_limit :: "int \<Rightarrow> audit_batch_error option" where
  "validate_limit n =
     (if n < min_batch_limit \<or> max_batch_limit < n then
        Some (InvalidAuditBatchLimitError (uni ''limit must be between '' @ str_int min_batch_limit @ uni '' and '' @
          str_int max_batch_limit @ uni '', got '' @ str_int n @ uni ''.''))
      else None)"

definition document_key :: "document \<Rightarrow> time \<times> ustr" where
  "document_key doc = row_key doc_created_at doc_id doc"

definition after_cursor :: "audit_cursor option \<Rightarrow> document \<Rightarrow> bool" where
  "after_cursor cursor doc =
     (case cursor of
        None \<Rightarrow> True
      | Some c \<Rightarrow> ac_created_at c < doc_created_at doc \<or>
          doc_created_at doc = ac_created_at c \<and> ac_document_id c < doc_id doc)"

definition select_document_page :: "db \<Rightarrow> nat \<Rightarrow> audit_cursor option \<Rightarrow> document list" where
  "select_document_page d n cursor = take (n + 1) (sort_key document_key (filter (after_cursor cursor) (documents d)))"

section \<open>Classification and counts\<close>

datatype audit_classification = ClsNotFound | ClsInconsistent | ClsConsistent | ClsTransitional | ClsWarning

definition classify_document_audit :: "audit_overall_status \<Rightarrow> lifecycle_finding list \<Rightarrow> audit_classification" where
  "classify_document_audit overall_status findings =
     (if overall_status = AuditNotFound then ClsNotFound
      else if overall_status = AuditInconsistent then ClsInconsistent
      else if findings = [] then ClsConsistent
      else if list_all (\<lambda>f. fi_severity f = SevInfo) findings then ClsTransitional
      else ClsWarning)"

record audit_summary =
  as_document_id :: ustr
  as_original_filename :: ustr
  as_created_at :: time
  as_overall_status :: audit_overall_status
  as_classification :: audit_classification
  as_findings :: "lifecycle_finding list"

record batch_counters =
  consistent_count :: nat
  transitional_count :: nat
  warning_count :: nat
  inconsistent_count :: nat
  not_found_count :: nat
  dependency_unavailable_count :: nat
  finding_counts :: "finding_code \<rightharpoonup> nat"

definition new_counters :: batch_counters where
  "new_counters = \<lparr>consistent_count = 0, transitional_count = 0, warning_count = 0, inconsistent_count = 0,
     not_found_count = 0, dependency_unavailable_count = 0, finding_counts = Map.empty\<rparr>"

definition dependency_unavailable_codes :: "finding_code list" where
  "dependency_unavailable_codes = [STORAGE_INSPECTION_UNAVAILABLE, VECTOR_INSPECTION_UNAVAILABLE]"

definition count_bucket :: "audit_classification \<Rightarrow> batch_counters \<Rightarrow> batch_counters" where
  "count_bucket cls c =
     (case cls of
        ClsNotFound \<Rightarrow> c\<lparr>not_found_count := not_found_count c + 1\<rparr>
      | ClsInconsistent \<Rightarrow> c\<lparr>inconsistent_count := inconsistent_count c + 1\<rparr>
      | ClsConsistent \<Rightarrow> c\<lparr>consistent_count := consistent_count c + 1\<rparr>
      | ClsTransitional \<Rightarrow> c\<lparr>transitional_count := transitional_count c + 1\<rparr>
      | ClsWarning \<Rightarrow> c\<lparr>warning_count := warning_count c + 1\<rparr>)"

fun count_findings :: "lifecycle_finding list \<Rightarrow> (finding_code \<rightharpoonup> nat) \<Rightarrow> (finding_code \<rightharpoonup> nat)" where
  "count_findings [] m = m"
| "count_findings (f # fs) m =
     count_findings fs (m(fi_code f \<mapsto> (case m (fi_code f) of None \<Rightarrow> 0 | Some n \<Rightarrow> n) + 1))"

definition record_summary :: "batch_counters \<Rightarrow> audit_summary \<Rightarrow> batch_counters" where
  "record_summary c s =
     (let c1 = count_bucket (as_classification s) c;
          c2 = c1\<lparr>finding_counts := count_findings (as_findings s) (finding_counts c1)\<rparr>
      in if list_ex (\<lambda>f. fi_code f \<in> set dependency_unavailable_codes) (as_findings s)
         then c2\<lparr>dependency_unavailable_count := dependency_unavailable_count c2 + 1\<rparr> else c2)"

section \<open>The batch\<close>

record audit_batch_result =
  br_scanned_count :: nat
  br_counters :: batch_counters
  br_documents :: "audit_summary list"
  br_next_cursor :: "ustr option"
  br_has_more :: bool

definition summarize :: "document \<Rightarrow> audit_result \<Rightarrow> audit_summary" where
  "summarize doc audit =
     \<lparr>as_document_id = doc_id doc, as_original_filename = original_filename doc, as_created_at = doc_created_at doc,
      as_overall_status = ar_overall_status audit,
      as_classification = classify_document_audit (ar_overall_status audit) (ar_findings audit),
      as_findings = ar_findings audit\<rparr>"

text \<open>\<open>now k\<close> is the clock when the \<open>k\<close>-th document of the page is audited.\<close>

fun audit_page :: "'f file_storage \<Rightarrow> 'v vector_store \<Rightarrow> settings \<Rightarrow> (nat \<Rightarrow> time) \<Rightarrow> document list \<Rightarrow> audit_summary list \<Rightarrow> batch_counters \<Rightarrow>
    (('f, 'e, 'v) world, exn, audit_summary list \<times> batch_counters) call" where
  "audit_page fs vs s now [] summaries counters w = (Inr (summaries, counters), w)"
| "audit_page fs vs s now (doc # docs) summaries counters w =
     (case audit_document_lifecycle fs vs s (now 0) (doc_id doc) w of
        (Inl e, w1) \<Rightarrow> (Inl e, w1)
      | (Inr audit, w1) \<Rightarrow>
          let summary = summarize doc audit in
          audit_page fs vs s (\<lambda>k. now (Suc k)) docs (summaries @ [summary]) (record_summary counters summary) w1)"

definition next_cursor_of :: "cursor_library \<Rightarrow> document list \<Rightarrow> bool \<Rightarrow> ustr option" where
  "next_cursor_of lib page has_more =
     (if has_more \<and> page \<noteq> [] then Some (encode_audit_cursor lib (doc_created_at (last page)) (doc_id (last page))) else None)"

definition audit_document_lifecycle_batch :: "cursor_library \<Rightarrow> 'f file_storage \<Rightarrow> 'v vector_store \<Rightarrow> settings \<Rightarrow> (nat \<Rightarrow> time) \<Rightarrow>
    int \<Rightarrow> ustr option \<Rightarrow> (('f, 'e, 'v) world, audit_batch_error, audit_batch_result) call" where
  "audit_document_lifecycle_batch lib fs vs s now n cursor w =
     (case validate_limit n of
        Some e \<Rightarrow> (Inl e, w)
      | None \<Rightarrow>
          (case (case cursor of None \<Rightarrow> Inr None | Some c \<Rightarrow> map_sum id Some (decode_audit_cursor lib c)) of
             Inl e \<Rightarrow> (Inl e, w)
           | Inr decoded_cursor \<Rightarrow>
               let rows = select_document_page (w_db w) (nat n) decoded_cursor;
                   has_more = nat n < length rows;
                   page = take (nat n) rows
               in (case audit_page fs vs s now page [] new_counters w of
                     (Inl e, w1) \<Rightarrow> (Inl (AuditRaised e), w1)
                   | (Inr (summaries, counters), w1) \<Rightarrow>
                       (Inr \<lparr>br_scanned_count = length summaries, br_counters = counters, br_documents = summaries,
                          br_next_cursor = next_cursor_of lib page has_more, br_has_more = has_more\<rparr>, w1))))"

section \<open>The cursor\<close>

text \<open>What the documentation of the standard library promises of a timestamp and of an identifier.\<close>

definition cursor_position :: "cursor_library \<Rightarrow> time \<Rightarrow> ustr \<Rightarrow> bool" where
  "cursor_position lib t i \<longleftrightarrow>
     iso_parse lib (iso_format lib t) = Some (t, True) \<and> list_all plain_char (iso_format lib t) \<and> length (iso_format lib t) \<le> 40 \<and>
     uuid_valid lib i \<and> list_all plain_char i \<and> length i \<le> 36"

lemma b64_groups_length: "length (b64_groups bs) \<le> 2 * length bs + 4"
  by (induction bs rule: b64_groups.induct) simp_all

lemma b64_groups_ascii: "\<forall>b \<in> set bs. b < 256 \<Longrightarrow> list_all (\<lambda>c. c < 128) (b64_groups bs)"
proof -
  have "b64_char n < 128" if "n < 64" for n using that by (auto simp: b64_char_def)
  then show "\<forall>b \<in> set bs. b < 256 \<Longrightarrow> list_all (\<lambda>c. c < 128) (b64_groups bs)"
    by (induction bs rule: b64_groups.induct) simp_all
qed

lemma unat_bytes: "\<forall>b \<in> set (map unat (bs :: bytes)). b < 256"
  by (auto intro: order_less_le_trans [OF unsigned_less])

lemma encode_plain_length: "list_all (\<lambda>c. c < 128) s \<Longrightarrow> length (encode_text s) = length s"
  by (induction s) (simp_all add: encode_text_def utf8_char_def)

lemma plain_ascii: "list_all plain_char s \<Longrightarrow> list_all (\<lambda>c. c < 128) s"
  by (induction s) (auto simp: plain_char_def)

lemma ascii_scalar: "list_all (\<lambda>c. c < 128) s \<Longrightarrow> list_all scalar_value s"
  by (induction s) (auto simp: scalar_value_def)

lemma field_names: "list_all plain_char (uni ''created_at'')" "list_all plain_char (uni ''id'')"
  by (simp_all add: uni_def plain_char_def)

text \<open>C10: The cursor of a page decodes to the position it was made from: the URL-safe Base64 of the JSON
  payload is accepted, within the size limit, and the timestamp and the identifier are read back.\<close>

theorem cursor_round_trip:
  assumes "cursor_position lib t i"
  shows "decode_audit_cursor lib (encode_audit_cursor lib t i) = Inr \<lparr>ac_created_at = t, ac_document_id = i\<rparr>"
proof -
  define s where "s = 123 # json_string (uni ''created_at'') @ [58] @ json_string (iso_format lib t) @ [44] @
    json_string (uni ''id'') @ [58] @ json_string i @ [125]"
  have plain: "list_all plain_char (iso_format lib t)" "list_all plain_char i" using assms by (simp_all add: cursor_position_def)
  have ascii: "list_all (\<lambda>c. c < 128) s"
    using plain [THEN plain_ascii] field_names [THEN plain_ascii] by (simp add: s_def json_string_plain plain field_names)
  have "length s \<le> 120" using assms plain field_names by (simp add: s_def json_string_plain cursor_position_def)
  then have size: "length (urlsafe_b64encode (encode_text s)) \<le> max_cursor_size_bytes"
    using b64_groups_length [of "map unat (encode_text s)"] encode_plain_length [OF ascii]
    by (simp add: urlsafe_b64encode_def max_cursor_size_bytes_def)
  have load: "json_loads s = Some (PObject [(uni ''created_at'', PString (iso_format lib t)), (uni ''id'', PString i)])"
    unfolding s_def by (rule loads_two_strings [OF field_names plain])
  have "list_all (\<lambda>c. c < 128) (urlsafe_b64encode (encode_text s))"
    unfolding urlsafe_b64encode_def by (rule b64_groups_ascii [OF unat_bytes])
  moreover have "encode_audit_cursor lib t i = urlsafe_b64encode (encode_text s)" by (simp add: encode_audit_cursor_def s_def)
  ultimately show ?thesis
    using size assms load base64_round_trip [of "encode_text s"] decode_encode [OF ascii_scalar [OF ascii]]
    by (simp add: decode_audit_cursor_def decode_payload_def payload_field_def cursor_position_def)
qed

section \<open>The pages\<close>

lemma audit_db: "w_db (snd (audit_document_lifecycle fs vs s t i w)) = w_db w"
  by (auto simp: audit_document_lifecycle_def Let_def call_bind_def on_files_def on_index_def call_return_def
      split: option.splits prod.splits sum.splits)

lemma audit_page_db: "audit_page fs vs s now docs acc c w = (r, w') \<Longrightarrow> w_db w' = w_db w"
proof (induction docs arbitrary: now acc c w)
  case Nil
  then show ?case by simp
next
  case (Cons doc docs)
  obtain x w1 where a: "audit_document_lifecycle fs vs s (now 0) (doc_id doc) w = (x, w1)" by fastforce
  with audit_db [of fs vs s "now 0" "doc_id doc" w] have "w_db w1 = w_db w" by simp
  with Cons a show ?case by (cases x) (auto simp: Let_def)
qed

lemma audit_page_documents: "audit_page fs vs s now docs acc c w = (Inr (summaries, counters), w') \<Longrightarrow>
    \<exists>new. summaries = acc @ new \<and> map as_document_id new = map doc_id docs \<and> map as_created_at new = map doc_created_at docs \<and>
      counters = foldl record_summary c new"
proof (induction docs arbitrary: now acc c w)
  case Nil
  then show ?case by simp
next
  case (Cons doc docs)
  obtain x w1 where a: "audit_document_lifecycle fs vs s (now 0) (doc_id doc) w = (x, w1)" by fastforce
  with Cons.prems obtain audit where x: "x = Inr audit" by (cases x) auto
  from Cons.IH [of "\<lambda>k. now (Suc k)" "acc @ [summarize doc audit]" "record_summary c (summarize doc audit)" w1] Cons.prems a x
  obtain new where "summaries = acc @ summarize doc audit # new" "map as_document_id new = map doc_id docs"
    "map as_created_at new = map doc_created_at docs" "counters = foldl record_summary (record_summary c (summarize doc audit)) new"
    by (auto simp: Let_def)
  then show ?case by (intro exI [of _ "summarize doc audit # new"]) (simp add: summarize_def)
qed

lemma batch_run:
  assumes "audit_document_lifecycle_batch lib fs vs s now n cursor w = (Inr res, w')"
  obtains position where "(case cursor of None \<Rightarrow> Inr None | Some c \<Rightarrow> map_sum id Some (decode_audit_cursor lib c)) = Inr position"
    "1 \<le> n" "n \<le> 50" "w_db w' = w_db w" "br_scanned_count res = length (br_documents res)"
    "map as_document_id (br_documents res) = map doc_id (take (nat n) (select_document_page (w_db w) (nat n) position))"
    "map as_created_at (br_documents res) = map doc_created_at (take (nat n) (select_document_page (w_db w) (nat n) position))"
    "br_counters res = foldl record_summary new_counters (br_documents res)"
    "br_has_more res = (nat n < length (select_document_page (w_db w) (nat n) position))"
    "br_next_cursor res = next_cursor_of lib (take (nat n) (select_document_page (w_db w) (nat n) position)) (br_has_more res)"
proof -
  from assms obtain position where v: "validate_limit n = None"
    and p: "(case cursor of None \<Rightarrow> Inr None | Some c \<Rightarrow> map_sum id Some (decode_audit_cursor lib c)) = Inr position"
    by (auto simp: audit_document_lifecycle_batch_def split: option.splits sum.splits)
  let ?rows = "select_document_page (w_db w) (nat n) position"
  obtain r w1 where page: "audit_page fs vs s now (take (nat n) ?rows) [] new_counters w = (r, w1)" by fastforce
  with assms v p obtain summaries counters where r: "r = Inr (summaries, counters)"
    by (cases r) (auto simp: audit_document_lifecycle_batch_def Let_def)
  from v have "1 \<le> n" "n \<le> 50" by (auto simp: validate_limit_def min_batch_limit_def max_batch_limit_def split: if_splits)
  with assms v p page r audit_page_db [OF page] audit_page_documents [OF page [unfolded r]] show thesis
    by (intro that [of position]) (auto simp: audit_document_lifecycle_batch_def Let_def)
qed

text \<open>An operator who follows the cursors, and what others commit before each further page.\<close>

fun follow_cursors :: "cursor_library \<Rightarrow> 'f file_storage \<Rightarrow> 'v vector_store \<Rightarrow> settings \<Rightarrow> (nat \<Rightarrow> time) \<Rightarrow> (nat \<Rightarrow> db \<Rightarrow> db) \<Rightarrow>
    nat \<Rightarrow> int \<Rightarrow> ustr option \<Rightarrow> ('f, 'e, 'v) world \<Rightarrow> (audit_summary list \<times> bool) option" where
  "follow_cursors lib fs vs s now env 0 n cursor w = Some ([], False)"
| "follow_cursors lib fs vs s now env (Suc k) n cursor w =
     (case audit_document_lifecycle_batch lib fs vs s now n cursor w of
        (Inl e, w1) \<Rightarrow> None
      | (Inr res, w1) \<Rightarrow>
          (case br_next_cursor res of
             None \<Rightarrow> Some (br_documents res, True)
           | Some c \<Rightarrow> map_option (\<lambda>(later, finished). (br_documents res @ later, finished))
               (follow_cursors lib fs vs s now env k n (Some c) (others (env k) w1))))"

definition summary_key :: "audit_summary \<Rightarrow> time \<times> ustr" where
  "summary_key a = (as_created_at a, as_document_id a)"

definition auditable :: "cursor_library \<Rightarrow> db \<Rightarrow> bool" where
  "auditable lib d \<longleftrightarrow> db_ok d \<and> (\<forall>doc \<in> set (documents d). cursor_position lib (doc_created_at doc) (doc_id doc))"

definition cursor_at :: "document \<Rightarrow> audit_cursor" where
  "cursor_at doc = \<lparr>ac_created_at = doc_created_at doc, ac_document_id = doc_id doc\<rparr>"

lemma after_cursor_at: "after_cursor (Some (cursor_at doc)) x \<longleftrightarrow> document_key doc < document_key x"
  by (auto simp: after_cursor_def cursor_at_def document_key_def row_key_def less_prod_def')

definition selection :: "db \<Rightarrow> audit_cursor option \<Rightarrow> document list" where
  "selection d c = sort_key document_key (filter (after_cursor c) (documents d))"

lemma selection_increasing: "db_ok d \<Longrightarrow> sorted_wrt (<) (map document_key (selection d c))"
proof -
  assume "db_ok d"
  then have "distinct (map document_key (documents d))"
    by (auto simp: db_ok_checks check_None distinct_map inj_on_def document_key_def row_key_def)
  then have "distinct (map document_key (selection d c))"
    by (auto simp: selection_def distinct_map inj_on_def)
  then show ?thesis by (simp add: strict_sorted_iff selection_def)
qed

lemma take_increasing:
  assumes "sorted_wrt (<) (map f xs)" and "n < length xs" and "0 < n" and "x \<in> set xs" and "x \<notin> set (take n xs)"
  shows "f (last (take n xs)) < (f x :: 'k :: order)"
proof -
  have "x \<in> set (drop n xs)" using assms(4,5) by (metis append_take_drop_id Un_iff set_append)
  moreover have "last (take n xs) \<in> set (take n xs)" using assms(2,3) by (intro last_in_set) auto
  moreover have "sorted_wrt (<) (map f (take n xs) @ map f (drop n xs))" using assms(1) by (simp flip: map_append)
  ultimately show ?thesis by (auto simp: sorted_wrt_append)
qed

lemma last_increasing:
  assumes "sorted_wrt (<) (map f xs)" and "y \<in> set xs" shows "f y \<le> (f (last xs) :: 'k :: order)"
proof (cases "y = last xs")
  case False
  have "xs \<noteq> []" using assms(2) by auto
  then have xs: "xs = butlast xs @ [last xs]" by simp
  with False assms(2) have "y \<in> set (butlast xs)" by (metis Un_iff empty_set set_ConsD set_append list.set_intros(1) empty_iff)
  moreover have "sorted_wrt (<) (map f (butlast xs) @ [f (last xs)])" using assms(1) xs by (metis list.simps(9) map_append list.simps(8))
  ultimately show ?thesis by (auto simp: sorted_wrt_append intro: less_imp_le)
qed simp

definition after_key :: "audit_cursor option \<Rightarrow> time \<times> ustr \<Rightarrow> bool" where
  "after_key c key = (case c of None \<Rightarrow> True | Some p \<Rightarrow> (ac_created_at p, ac_document_id p) < key)"

lemma after_cursor_key: "after_cursor c doc = after_key c (document_key doc)"
  by (auto simp: after_cursor_def after_key_def document_key_def row_key_def less_prod_def' split: option.splits)

lemma after_key_at: "after_key (Some (cursor_at doc)) key = (document_key doc < key)"
  by (simp add: after_key_def cursor_at_def document_key_def row_key_def)

definition listed :: "db \<Rightarrow> time \<times> ustr \<Rightarrow> bool" where
  "listed d key \<longleftrightarrow> key \<in> document_key ` set (documents d)"

text \<open>One page after a position, and what is left for the next.\<close>

lemma page_spec:
  fixes c :: "audit_cursor option"
  assumes ok: "db_ok d" and n: "1 \<le> n"
  defines "page \<equiv> take n (select_document_page d n c)" and "further \<equiv> n < length (select_document_page d n c)"
  shows "sorted_wrt (<) (map document_key page)" and "x \<in> set page \<Longrightarrow> x \<in> set (documents d) \<and> after_cursor c x"
    and "further \<Longrightarrow> page \<noteq> []" and "x \<in> set page \<Longrightarrow> document_key x \<le> document_key (last page)"
    and "listed d key \<Longrightarrow> after_key c key \<Longrightarrow> key \<notin> document_key ` set page \<Longrightarrow> further \<and> document_key (last page) < key"
proof -
  have sel: "select_document_page d n c = take (n + 1) (selection d c)" by (simp add: select_document_page_def selection_def)
  have page: "page = take n (selection d c)" and further: "further \<longleftrightarrow> n < length (selection d c)"
    by (auto simp: page_def further_def sel)
  note inc = selection_increasing [OF ok, of c]
  show srt: "sorted_wrt (<) (map document_key page)" unfolding page take_map [symmetric] by (rule sorted_wrt_take [OF inc])
  show "x \<in> set page \<Longrightarrow> x \<in> set (documents d) \<and> after_cursor c x"
    by (auto simp: page selection_def dest: in_set_takeD)
  show "further \<Longrightarrow> page \<noteq> []" using n by (auto simp: page further)
  show "x \<in> set page \<Longrightarrow> document_key x \<le> document_key (last page)" by (rule last_increasing [OF srt])
  assume "listed d key" "after_key c key" and out: "key \<notin> document_key ` set page"
  then obtain y where y: "y \<in> set (selection d c)" "document_key y = key"
    by (auto simp: listed_def selection_def after_cursor_key)
  with out have out: "y \<notin> set (take n (selection d c))" by (auto simp: page)
  have m: "n < length (selection d c)"
  proof (rule ccontr)
    assume "\<not> n < length (selection d c)"
    with y out show False by simp
  qed
  then show "further \<and> document_key (last page) < key"
    using take_increasing [OF inc m _ y(1) out] n y(2) by (simp add: page further)
qed

lemma follow_spec:
  assumes "follow_cursors lib fs vs s now env k n cursor w = Some (out, finished)"
    and "cursor = None \<and> c = None \<or> (\<exists>t i. cursor = Some (encode_audit_cursor lib t i) \<and> cursor_position lib t i \<and>
      c = Some \<lparr>ac_created_at = t, ac_document_id = i\<rparr>)"
    and "auditable lib (w_db w)" and env: "\<And>k d. auditable lib d \<Longrightarrow> auditable lib (env k d)"
  shows "sorted_wrt (<) (map summary_key out) \<and> (\<forall>a \<in> set out. after_key c (summary_key a)) \<and>
    (\<not> finished \<longrightarrow> length out = k * nat n) \<and>
    (finished \<longrightarrow> (\<forall>key. listed (w_db w) key \<and> (\<forall>k d. listed d key \<longrightarrow> listed (env k d) key) \<and> after_key c key \<longrightarrow>
       key \<in> summary_key ` set out))"
  using assms(1-3)
proof (induction k arbitrary: cursor c w out finished)
  case 0
  then show ?case by simp
next
  case (Suc k)
  obtain r w1 where batch: "audit_document_lifecycle_batch lib fs vs s now n cursor w = (r, w1)" by fastforce
  with Suc.prems(1) obtain res where r: "r = Inr res" by (cases r) simp_all
  obtain position where pos: "(case cursor of None \<Rightarrow> Inr None | Some c \<Rightarrow> map_sum id Some (decode_audit_cursor lib c)) = Inr position"
    and n: "1 \<le> n" and db: "w_db w1 = w_db w"
    and ids: "map as_document_id (br_documents res) = map doc_id (take (nat n) (select_document_page (w_db w) (nat n) position))"
      "map as_created_at (br_documents res) = map doc_created_at (take (nat n) (select_document_page (w_db w) (nat n) position))"
    and more: "br_has_more res = (nat n < length (select_document_page (w_db w) (nat n) position))"
    and nxt: "br_next_cursor res = next_cursor_of lib (take (nat n) (select_document_page (w_db w) (nat n) position)) (br_has_more res)"
    by (rule batch_run [OF batch [unfolded r]])
  have position: "position = c" using pos Suc.prems(2) cursor_round_trip by (auto split: option.splits)
  define page where "page = take (nat n) (select_document_page (w_db w) (nat n) c)"
  have keys: "map summary_key (br_documents res) = map document_key page"
    using ids [folded page_def] unfolding position page_def [symmetric]
    by (auto simp: summary_key_def document_key_def row_key_def list_eq_iff_nth_eq)
  have okw: "db_ok (w_db w)" and n1: "1 \<le> nat n" using Suc.prems(3) n by (simp_all add: auditable_def)
  note spec = page_spec [OF okw n1, where c = c, folded page_def]
  show ?case
  proof (cases "br_next_cursor res")
    case None
    have out: "out = br_documents res" "finished" using Suc.prems(1) batch r None by simp_all
    have "\<not> (nat n < length (select_document_page (w_db w) (nat n) c))"
      using None spec(3) unfolding nxt position page_def [symmetric] more by (auto simp: next_cursor_of_def split: if_splits)
    then have "key \<in> document_key ` set page" if "listed (w_db w) key" "after_key c key" for key
      using spec(5) that by blast
    with out keys spec(1,2) show ?thesis
      by (metis (no_types, opaque_lifting) after_cursor_key imageE image_set image_eqI)
  next
    case (Some c')
    then have "br_has_more res" and c': "c' = encode_audit_cursor lib (doc_created_at (last page)) (doc_id (last page))" and "page \<noteq> []"
      unfolding nxt position page_def [symmetric] by (auto simp: next_cursor_of_def split: if_splits)
    obtain later where later: "follow_cursors lib fs vs s now env k n (Some c') (others (env k) w1) = Some (later, finished)"
      and out: "out = br_documents res @ later"
      using Suc.prems(1) batch r Some by auto
    have lp: "cursor_position lib (doc_created_at (last page)) (doc_id (last page))"
      using spec(2) [of "last page"] \<open>page \<noteq> []\<close> Suc.prems(3) by (auto simp: auditable_def)
    have aud: "auditable lib (w_db (others (env k) w1))" using env Suc.prems(3) db by simp
    have pre: "Some c' = None \<and> Some (cursor_at (last page)) = None \<or> (\<exists>t i. Some c' = Some (encode_audit_cursor lib t i) \<and>
        cursor_position lib t i \<and> Some (cursor_at (last page)) = Some \<lparr>ac_created_at = t, ac_document_id = i\<rparr>)"
      using c' lp by (auto simp: cursor_at_def)
    note all = Suc.IH [OF later pre aud, unfolded after_key_at others_simps db]
    have IH: "sorted_wrt (<) (map summary_key later)" "\<And>a. a \<in> set later \<Longrightarrow> document_key (last page) < summary_key a"
      "finished \<Longrightarrow> listed (env k (w_db w)) key \<Longrightarrow> \<forall>k d. listed d key \<longrightarrow> listed (env k d) key \<Longrightarrow>
        document_key (last page) < key \<Longrightarrow> key \<in> summary_key ` set later" for key
      using all by blast+
    have ks: "summary_key ` set (br_documents res) = document_key ` set page" using keys by (metis image_set)
    have order: "a < b" if "a \<in> set (map document_key page)" "b \<in> set (map summary_key later)" for a b
      using that IH(2) spec(4) by fastforce
    have "sorted_wrt (<) (map summary_key out)"
      using spec(1) IH(1) order by (simp only: out map_append keys sorted_wrt_append) blast
    moreover have "after_key c (summary_key a)" if "a \<in> set out" for a
    proof -
      have first: "after_key c (document_key x)" if "x \<in> set page" for x using spec(2) [OF that] by (simp add: after_cursor_key)
      have "after_key c (document_key (last page))" using first \<open>page \<noteq> []\<close> by simp
      then have "after_key c (summary_key a)" if "a \<in> set later"
        using IH(2) [OF that] by (auto simp: after_key_def split: option.splits dest: less_trans)
      moreover have "after_key c (summary_key a)" if "a \<in> set (br_documents res)"
        using that ks first by (metis imageE imageI)
      ultimately show ?thesis using that by (auto simp: out)
    qed
    moreover have "key \<in> summary_key ` set out" if "finished" "listed (w_db w) key" "\<forall>k d. listed d key \<longrightarrow> listed (env k d) key" "after_key c key" for key
      using IH(3) [OF that(1) _ that(3)] that spec(5) [OF that(2,4)]
      unfolding out set_append image_Un ks by blast
    moreover have "length out = Suc k * nat n" if "\<not> finished"
    proof -
      have "length page = nat n" using \<open>br_has_more res\<close> unfolding more position page_def by simp
      moreover have "length (br_documents res) = length page" using keys by (metis length_map)
      ultimately show ?thesis using all that by (simp add: out)
    qed
    ultimately show ?thesis by blast
  qed
qed

text \<open>C32: Following the cursors audits documents in strictly ascending order of creation, hence none
  twice, whatever is uploaded or changed between the pages; every page but the last is full, so the run
  ends unless documents keep being added; and when it has ended every document that was there from the
  beginning and stayed has been audited.\<close>

theorem audit_pages_complete:
  assumes "auditable lib (w_db w)" and "\<And>k d. auditable lib d \<Longrightarrow> auditable lib (env k d)"
    and "follow_cursors lib fs vs s now env k n None w = Some (out, finished)"
  shows "sorted_wrt (<) (map summary_key out) \<and> (\<not> finished \<longrightarrow> length out = k * nat n) \<and>
    (finished \<longrightarrow> (\<forall>key. listed (w_db w) key \<and> (\<forall>k d. listed d key \<longrightarrow> listed (env k d) key) \<longrightarrow> key \<in> summary_key ` set out))"
  using follow_spec [OF assms(3) _ assms(1,2), of None] by (simp add: after_key_def)

section \<open>The counts\<close>

definition bucket_count :: "batch_counters \<Rightarrow> audit_classification \<Rightarrow> nat" where
  "bucket_count c cls =
     (case cls of ClsNotFound \<Rightarrow> not_found_count c | ClsInconsistent \<Rightarrow> inconsistent_count c | ClsConsistent \<Rightarrow> consistent_count c
      | ClsTransitional \<Rightarrow> transitional_count c | ClsWarning \<Rightarrow> warning_count c)"

definition code_count :: "finding_code \<Rightarrow> lifecycle_finding list \<Rightarrow> nat" where
  "code_count code fs = length (filter (\<lambda>f. fi_code f = code) fs)"

definition counted :: "(finding_code \<rightharpoonup> nat) \<Rightarrow> finding_code \<Rightarrow> nat" where
  "counted m code = (case m code of None \<Rightarrow> 0 | Some n \<Rightarrow> n)"

lemma counted_upd: "counted (m(k \<mapsto> n)) code = (if code = k then n else counted m code)"
  by (simp add: counted_def)

lemma count_findings_spec: "counted (count_findings fs m) code = counted m code + code_count code fs"
  by (induction fs arbitrary: m) (simp_all add: counted_upd code_count_def, simp add: counted_def)

lemma count_findings_none: "count_findings fs m code = None \<longleftrightarrow> m code = None \<and> code \<notin> codes fs"
  by (induction fs arbitrary: m) (auto simp: codes_def)

lemma code_count_append: "code_count code (fs @ gs) = code_count code fs + code_count code gs"
  by (simp add: code_count_def)

definition tally :: "batch_counters \<Rightarrow> audit_summary list \<Rightarrow> bool" where
  "tally c out \<longleftrightarrow>
     (\<forall>cls. bucket_count c cls = length (filter (\<lambda>a. as_classification a = cls) out)) \<and>
     (\<forall>code. counted (finding_counts c) code = code_count code (concat (map as_findings out)) \<and>
        (finding_counts c code = None \<longleftrightarrow> code \<notin> codes (concat (map as_findings out)))) \<and>
     dependency_unavailable_count c =
       length (filter (\<lambda>a. codes (as_findings a) \<inter> {STORAGE_INSPECTION_UNAVAILABLE, VECTOR_INSPECTION_UNAVAILABLE} \<noteq> {}) out)"

lemma bucket_step: "bucket_count (record_summary c a) cls = bucket_count c cls + (if as_classification a = cls then 1 else 0)"
  by (cases cls; cases "as_classification a"; simp add: record_summary_def Let_def count_bucket_def bucket_count_def)

lemma finding_counts_step: "finding_counts (record_summary c a) = count_findings (as_findings a) (finding_counts c)"
  by (cases "as_classification a"; simp add: record_summary_def Let_def count_bucket_def)

lemma dependency_step: "dependency_unavailable_count (record_summary c a) = dependency_unavailable_count c +
    (if codes (as_findings a) \<inter> {STORAGE_INSPECTION_UNAVAILABLE, VECTOR_INSPECTION_UNAVAILABLE} \<noteq> {} then 1 else 0)"
proof -
  have "list_ex (\<lambda>f. fi_code f \<in> set dependency_unavailable_codes) (as_findings a) \<longleftrightarrow>
      codes (as_findings a) \<inter> {STORAGE_INSPECTION_UNAVAILABLE, VECTOR_INSPECTION_UNAVAILABLE} \<noteq> {}"
  proof -
    have "list_ex (\<lambda>f. fi_code f \<in> D) fs \<longleftrightarrow> codes fs \<inter> D \<noteq> {}" for D fs by (auto simp: list_ex_iff codes_def)
    then show ?thesis by (simp only:) (simp add: dependency_unavailable_codes_def)
  qed
  then show ?thesis by (cases "as_classification a"; simp add: record_summary_def Let_def count_bucket_def)
qed

lemma tally_step: "tally c out \<Longrightarrow> tally (record_summary c a) (out @ [a])"
  by (simp add: tally_def bucket_step finding_counts_step dependency_step count_findings_spec count_findings_none code_count_append
      audit_simps)

lemma tally_fold: "tally (foldl record_summary new_counters out) out"
proof (induction out rule: rev_induct)
  case Nil
  show ?case by (simp add: tally_def new_counters_def bucket_count_def counted_def code_count_def codes_def split: audit_classification.split)
next
  case (snoc a out)
  then show ?case by (simp add: tally_step)
qed

text \<open>The counts of a batch are those of its documents: each document is in exactly one of the five
  buckets, which add up to the number scanned, a finding code is counted as often as it was reported
  (and absent when it was not), and a document whose storage or vector store did not answer counts as
  such; at most the requested number of documents, between 1 and 50, is scanned and nothing is changed.\<close>

theorem audit_batch_counts:
  assumes "audit_document_lifecycle_batch lib fs vs s now n cursor w = (Inr res, w')"
  shows "tally (br_counters res) (br_documents res) \<and> br_scanned_count res = length (br_documents res) \<and>
    (\<Sum>cls \<in> {ClsNotFound, ClsInconsistent, ClsConsistent, ClsTransitional, ClsWarning}. bucket_count (br_counters res) cls) =
      br_scanned_count res \<and>
    1 \<le> n \<and> n \<le> 50 \<and> br_scanned_count res \<le> nat n \<and> w_db w' = w_db w"
proof -
  let ?buckets = "[ClsNotFound, ClsInconsistent, ClsConsistent, ClsTransitional, ClsWarning]"
  from assms obtain position where pos: "1 \<le> n" "n \<le> 50" "w_db w' = w_db w" "br_scanned_count res = length (br_documents res)"
    "map as_document_id (br_documents res) = map doc_id (take (nat n) (select_document_page (w_db w) (nat n) position))"
    "br_counters res = foldl record_summary new_counters (br_documents res)" by (rule batch_run)
  have t: "tally (br_counters res) (br_documents res)" unfolding pos(6) by (rule tally_fold)
  have "sum_list (map (\<lambda>cls. length (filter (\<lambda>a. as_classification a = cls) out)) ?buckets) = length out" for out
    by (induction out) (use audit_classification.exhaust in auto)
  then have "(\<Sum>cls \<in> set ?buckets. bucket_count (br_counters res) cls) = length (br_documents res)"
    using t by (simp add: tally_def)
  moreover have "length (br_documents res) \<le> nat n"
    using arg_cong [OF pos(5), of length] by simp
  ultimately show ?thesis using t pos by simp
qed

section \<open>A page of one document\<close>

definition sample_library :: cursor_library where
  "sample_library = \<lparr>iso_format = str_int, iso_parse = (\<lambda>s. Some (int (undec s), True)), uuid_valid = (\<lambda>_. True)\<rparr>"

lemma sample_position: "cursor_position sample_library 1 (uni ''d1'')" "cursor_position sample_library 5 (uni ''d1'')"
  by (simp_all add: cursor_position_def sample_library_def str_int_def dec.simps [of "Suc 0"] dec.simps [of 5] undec.simps plain_char_def uni_def)

theorem cursor_round_trip_witness:
  "decode_audit_cursor sample_library (encode_audit_cursor sample_library 5 (uni ''d1'')) =
    Inr \<lparr>ac_created_at = 5, ac_document_id = uni ''d1''\<rparr>"
  using cursor_round_trip [OF sample_position(2)] .

lemma lost_page: "select_document_page (w_db lost_world) 20 None = [served_document (uni ''A'')]"
  by (simp add: select_document_page_def lost_world_def after_cursor_def)

lemma lost_batch: "\<exists>res w'. audit_document_lifecycle_batch sample_library sample_storage mem_store default_settings (\<lambda>_. 0) 20 None lost_world = (Inr res, w') \<and>
    br_next_cursor res = None"
proof -
  obtain res w' where a: "audit_document_lifecycle sample_storage mem_store default_settings 0 (uni ''d1'') lost_world = (Inr res, w')"
    using lost_audit by blast
  then show ?thesis
    by (simp add: audit_document_lifecycle_batch_def validate_limit_def min_batch_limit_def max_batch_limit_def lost_page Let_def
        next_cursor_of_def)
qed

theorem audit_batch_counts_witness:
  "\<exists>res w'. audit_document_lifecycle_batch sample_library sample_storage mem_store default_settings (\<lambda>_. 0) 20 None lost_world = (Inr res, w') \<and>
    tally (br_counters res) (br_documents res) \<and> w_db w' = w_db lost_world"
  using lost_batch audit_batch_counts by blast

theorem audit_pages_complete_witness:
  "\<exists>out. follow_cursors sample_library sample_storage mem_store default_settings (\<lambda>_. 0) (\<lambda>_ d. d) 1 20 None lost_world = Some (out, True) \<and>
    document_key (served_document (uni ''A'')) \<in> summary_key ` set out"
proof -
  obtain res w' where b: "audit_document_lifecycle_batch sample_library sample_storage mem_store default_settings (\<lambda>_. 0) 20 None lost_world = (Inr res, w')"
    "br_next_cursor res = None" using lost_batch by blast
  then have run: "follow_cursors sample_library sample_storage mem_store default_settings (\<lambda>_. 0) (\<lambda>_ d. d) 1 20 None lost_world =
      Some (br_documents res, True)" by simp
  have ok: "db_ok (w_db lost_world)" by (simp add: lost_world_def serving_db_ok fits_def)
  have "auditable sample_library (w_db lost_world)"
    using ok sample_position by (simp add: auditable_def lost_world_def served_document_def sample_document_def)
  from audit_pages_complete [OF this _ run] have "document_key (served_document (uni ''A'')) \<in> summary_key ` set (br_documents res)"
    by (simp add: listed_def lost_world_def)
  with run show ?thesis by blast
qed

end
