(* ===== verification/Audit_Grading.thy ===== *)
theory Audit_Grading
  imports Audit_Batch
begin

text \<open>
  The grades of an audit as orders: the severities of findings (\<open>FindingSeverity\<close>) and the buckets of
  documents (\<open>DocumentAuditClassification\<close>) are linearly ordered, the code's case analysis computes the bucket
  of the worst finding, and a further finding never improves a document's bucket.
\<close>

section \<open>The order of severities\<close>

fun severity_rank :: "finding_severity \<Rightarrow> nat" where
  "severity_rank SevInfo = 0"
| "severity_rank SevWarning = 1"
| "severity_rank SevError = 2"

fun_cases severity_rank_cases: "severity_rank s = n"

lemma severity_rank_inject [simp]: "severity_rank s = severity_rank t \<longleftrightarrow> s = t"
  by (cases s; cases t) simp_all

instantiation finding_severity :: linorder
begin

definition less_eq_finding_severity :: "finding_severity \<Rightarrow> finding_severity \<Rightarrow> bool" where
  "less_eq_finding_severity s t \<longleftrightarrow> severity_rank s \<le> severity_rank t"

definition less_finding_severity :: "finding_severity \<Rightarrow> finding_severity \<Rightarrow> bool" where
  "less_finding_severity s t \<longleftrightarrow> severity_rank s < severity_rank t"

instance
  by intro_classes (auto simp: less_eq_finding_severity_def less_finding_severity_def)

end

lemma severity_bounds [simp]: "SevInfo \<le> s" "s \<le> SevError" "s \<le> SevInfo \<longleftrightarrow> s = SevInfo" "SevError \<le> s \<longleftrightarrow> s = SevError"
  by (cases s; simp add: less_eq_finding_severity_def)+

section \<open>The order of buckets\<close>

fun bucket_rank :: "audit_classification \<Rightarrow> nat" where
  "bucket_rank ClsConsistent = 0"
| "bucket_rank ClsTransitional = 1"
| "bucket_rank ClsWarning = 2"
| "bucket_rank ClsInconsistent = 3"
| "bucket_rank ClsNotFound = 4"

lemma bucket_rank_inject [simp]: "bucket_rank s = bucket_rank t \<longleftrightarrow> s = t"
  by (cases s; cases t) simp_all

instantiation audit_classification :: linorder
begin

definition less_eq_audit_classification :: "audit_classification \<Rightarrow> audit_classification \<Rightarrow> bool" where
  "less_eq_audit_classification s t \<longleftrightarrow> bucket_rank s \<le> bucket_rank t"

definition less_audit_classification :: "audit_classification \<Rightarrow> audit_classification \<Rightarrow> bool" where
  "less_audit_classification s t \<longleftrightarrow> bucket_rank s < bucket_rank t"

instance
  by intro_classes (auto simp: less_eq_audit_classification_def less_audit_classification_def)

end

section \<open>The bucket of the worst finding\<close>

definition severities :: "lifecycle_finding list \<Rightarrow> finding_severity set" where
  "severities fs = fi_severity ` set fs"

fun bucket_of :: "finding_severity \<Rightarrow> audit_classification" where
  "bucket_of SevInfo = ClsTransitional"
| "bucket_of SevWarning = ClsWarning"
| "bucket_of SevError = ClsInconsistent"

lemma bucket_of_mono: "s \<le> t \<Longrightarrow> bucket_of s \<le> bucket_of t"
  by (cases s; cases t) (simp_all add: less_eq_finding_severity_def less_eq_audit_classification_def)

lemma worst_is_error: "fs \<noteq> [] \<Longrightarrow> Max (severities fs) = SevError \<longleftrightarrow> list_ex (\<lambda>f. fi_severity f = SevError) fs"
proof -
  assume "fs \<noteq> []"
  then have "Max (severities fs) = SevError \<longleftrightarrow> SevError \<in> severities fs"
    by (metis Max_eqI Max_in severities_def finite_imageI List.finite_set image_is_empty set_empty severity_bounds(2))
  also have "\<dots> \<longleftrightarrow> list_ex (\<lambda>f. fi_severity f = SevError) fs"
    by (simp add: severities_def list_ex_iff image_iff) metis
  finally show ?thesis .
qed

lemma worst_is_info: "fs \<noteq> [] \<Longrightarrow> Max (severities fs) = SevInfo \<longleftrightarrow> list_all (\<lambda>f. fi_severity f = SevInfo) fs"
proof -
  assume "fs \<noteq> []"
  then have "Max (severities fs) \<le> SevInfo \<longleftrightarrow> (\<forall>s \<in> severities fs. s \<le> SevInfo)"
    by (subst Max_le_iff) (auto simp: severities_def)
  then show ?thesis by (auto simp: severities_def list_all_iff)
qed

text \<open>The rule the code calls the single source of truth, as a function of the worst severity.\<close>

lemma classification_of_worst:
  "classify_document_audit (overall_status_of fs) fs = (if fs = [] then ClsConsistent else bucket_of (Max (severities fs)))"
proof (cases "fs = []")
  case False
  show ?thesis
    using worst_is_error [OF False] worst_is_info [OF False] False
    by (cases "Max (severities fs)") (auto simp: classify_document_audit_def overall_status_of_def)
qed (simp add: classify_document_audit_def overall_status_of_def)

text \<open>More findings never put a document into a better bucket, and their order does not matter.\<close>

lemma classification_mono:
  assumes "set fs \<subseteq> set gs"
  shows "classify_document_audit (overall_status_of fs) fs \<le> classify_document_audit (overall_status_of gs) gs"
proof (cases "fs = []")
  case True
  then show ?thesis by (simp add: classification_of_worst less_eq_audit_classification_def)
next
  case False
  with assms have "gs \<noteq> []" and "Max (severities fs) \<le> Max (severities gs)"
    by (auto simp: severities_def intro!: Max_mono)
  with False show ?thesis by (simp add: classification_of_worst bucket_of_mono)
qed

end
