(* ===== verification/Decision.thy ===== *)
theory Decision
  imports Embedding_Config
begin

text \<open>
  The decision layer (\<open>app/rag/decision.py\<close>): a question is routed by regular expressions before anything
  is retrieved or generated.  The expressions are written out over a small type of Python patterns with
  the semantics of \<open>re.search\<close>; \<open>uw\<close> says which code points from 128 on are alphanumeric in the Unicode
  database (no space is), which \<open>\b\<close> depends on.
\<close>

section \<open>Regular expressions\<close>

datatype regex = Eps | Cls "nat \<Rightarrow> bool" | Many "nat \<Rightarrow> bool" | Seq regex regex | Alt regex regex | WordB

fun Lit :: "ustr \<Rightarrow> regex" where
  "Lit [] = Eps"
| "Lit [c] = Cls ((=) c)"
| "Lit (c # d # s) = Seq (Cls ((=) c)) (Lit (d # s))"

fun seqs :: "regex list \<Rightarrow> regex" where
  "seqs [] = Eps"
| "seqs (r # rs) = Seq r (seqs rs)"

text \<open>A group of alternatives; all groups of the code have at least one.\<close>

fun alts :: "regex list \<Rightarrow> regex" where
  "alts [] = Cls (\<lambda>_. False)"
| "alts (r # rs) = Alt r (alts rs)"

definition opt :: "regex \<Rightarrow> regex" where
  "opt r = Alt r Eps"

definition spaces :: regex where
  "spaces = Seq (Cls py_space) (Many py_space)"

definition nonspaces :: regex where
  "nonspaces = Seq (Cls (\<lambda>c. \<not> py_space c)) (Many (\<lambda>c. \<not> py_space c))"

fun upto_times :: "nat \<Rightarrow> regex \<Rightarrow> regex" where
  "upto_times 0 r = Eps"
| "upto_times (Suc n) r = Alt (Seq r (upto_times n r)) Eps"

definition word_char :: "(nat \<Rightarrow> bool) \<Rightarrow> nat \<Rightarrow> bool" where
  "word_char uw c \<longleftrightarrow> (48 \<le> c \<and> c \<le> 57) \<or> (65 \<le> c \<and> c \<le> 90) \<or> (97 \<le> c \<and> c \<le> 122) \<or> c = 95 \<or> (128 \<le> c \<and> \<not> py_space c \<and> uw c)"

definition word_at :: "(nat \<Rightarrow> bool) \<Rightarrow> nat option \<Rightarrow> bool" where
  "word_at uw c = (case c of None \<Rightarrow> False | Some x \<Rightarrow> word_char uw x)"

definition first_char :: "ustr \<Rightarrow> nat option \<Rightarrow> nat option" where
  "first_char s n = (case s of [] \<Rightarrow> n | c # _ \<Rightarrow> Some c)"

text \<open>The ways a pattern can match a prefix of a text that follows the character \<open>p\<close>: the last character
  consumed so far and the rest.\<close>

fun many :: "(nat \<Rightarrow> bool) \<Rightarrow> nat option \<Rightarrow> ustr \<Rightarrow> (nat option \<times> ustr) list" where
  "many P p [] = [(p, [])]"
| "many P p (c # s) = (p, c # s) # (if P c then many P (Some c) s else [])"

fun rmatch :: "(nat \<Rightarrow> bool) \<Rightarrow> regex \<Rightarrow> nat option \<Rightarrow> ustr \<Rightarrow> (nat option \<times> ustr) list" where
  "rmatch uw Eps p s = [(p, s)]"
| "rmatch uw (Cls P) p s = (case s of [] \<Rightarrow> [] | c # r \<Rightarrow> if P c then [(Some c, r)] else [])"
| "rmatch uw (Many P) p s = many P p s"
| "rmatch uw (Seq a b) p s = concat (map (\<lambda>(q, t). rmatch uw b q t) (rmatch uw a p s))"
| "rmatch uw (Alt a b) p s = rmatch uw a p s @ rmatch uw b p s"
| "rmatch uw WordB p s = (if word_at uw p \<noteq> word_at uw (first_char s None) then [(p, s)] else [])"

fun search_from :: "(nat \<Rightarrow> bool) \<Rightarrow> regex \<Rightarrow> nat option \<Rightarrow> ustr \<Rightarrow> bool" where
  "search_from uw r p [] = (rmatch uw r p [] \<noteq> [])"
| "search_from uw r p (c # s) = (rmatch uw r p (c # s) \<noteq> [] \<or> search_from uw r (Some c) s)"

definition re_search :: "(nat \<Rightarrow> bool) \<Rightarrow> regex \<Rightarrow> ustr \<Rightarrow> bool" where
  "re_search uw r s = search_from uw r None s"

section \<open>The patterns\<close>

text \<open>Hebrew letters are the code points 1488 to 1514.\<close>

definition extraction_verbs :: "ustr list" where
  "extraction_verbs =
     [uni ''show'', uni ''reveal'', uni ''extract'', uni ''list'', uni ''give'',
      uni ''tell'', uni ''disclose'', uni ''dump'', uni ''leak'', uni ''provide'',
      uni ''share'', uni ''display'', uni ''expose'', uni ''print'', uni ''send'']"

definition sensitive_nouns :: "regex list" where
  "sensitive_nouns =
     [Lit (uni ''ssn''),
      seqs [Lit (uni ''social security ''), alts [Lit (uni ''number''), seqs [Lit (uni ''no''), opt (Lit (uni ''.''))]]],
      seqs [Lit (uni ''credit card''), opt (Lit (uni ''s'')), opt (seqs [Lit (uni '' number''), opt (Lit (uni ''s''))])],
      seqs [Lit (uni ''password''), opt (Lit (uni ''s''))],
      seqs [Lit (uni ''api key''), opt (Lit (uni ''s''))],
      seqs [Lit (uni ''private key''), opt (Lit (uni ''s''))],
      seqs [Lit (uni ''secret key''), opt (Lit (uni ''s''))],
      Lit (uni ''database credentials''),
      Lit (uni ''credentials''),
      seqs [Lit (uni ''bank account''), opt (Lit (uni ''s''))]]"

definition extraction_verbs_he :: "ustr list" where
  "extraction_verbs_he =
     [[1492, 1512, 1488, 1492], [1514, 1512, 1488, 1492], [1514, 1512, 1488, 1497], [1492, 1510, 1490], [1514, 1510, 1497, 1490],
      [1495, 1513, 1493, 1507], [1514, 1495, 1513, 1493, 1507], [1492, 1493, 1510, 1488], [1514, 1493, 1510, 1497, 1488], [1513, 1500, 1495],
      [1514, 1513, 1500, 1495], [1514, 1504, 1497], [1514, 1503], [1490, 1500, 1492], [1514, 1490, 1500, 1492],
      [1508, 1512, 1505, 1501], [1514, 1508, 1512, 1505, 1501]]"

definition sensitive_nouns_he :: "regex list" where
  "sensitive_nouns_he =
     [seqs [Lit [1505, 1497, 1505, 1502], alts [Lit [1492], Lit [1488, 1493, 1514]]],
      seqs [Lit [1502, 1505, 1508, 1512], spaces, opt (Lit [1492]), Lit [1499, 1512, 1496, 1497, 1505], spaces, opt (Lit [1492]), Lit [1488, 1513, 1512, 1488, 1497]],
      seqs [Lit [1508, 1512, 1496, 1497], spaces, opt (Lit [1492]), Lit [1499, 1512, 1496, 1497, 1505], spaces, opt (Lit [1492]), Lit [1488, 1513, 1512, 1488, 1497]],
      seqs [Lit [1502, 1505, 1508, 1512], spaces, opt (Lit [1492]), Lit [1514, 1506, 1493, 1491, 1514], spaces, Lit [1494, 1492, 1493, 1514]],
      seqs [Lit [1508, 1512, 1496, 1497], spaces, opt (Lit [1492]), Lit [1492, 1514, 1495, 1489, 1512, 1493, 1514]],
      seqs [Lit [1508, 1512, 1496, 1497], spaces, opt (Lit [1492]), Lit [1490, 1497, 1513, 1492]],
      seqs [Lit [1502, 1508, 1514, 1495], opt (Lit [1493, 1514]), spaces, opt (Lit [1492]), Lit [1505, 1493, 1491, 1497], opt (Lit [1497, 1501])],
      seqs [Lit [1502, 1508, 1514, 1495], opt (Lit [1493, 1514]), spaces, opt (Lit [1492]), Lit [1508, 1512, 1496, 1497], opt (Lit [1497, 1501])],
      seqs [Lit [1495, 1513, 1489, 1493, 1503], spaces, opt (Lit [1492]), Lit [1489, 1504, 1511]]]"

definition retrieval_patterns :: "regex list" where
  "retrieval_patterns =
     [seqs [WordB, Lit (uni ''document''), opt (Lit (uni ''s'')), WordB],
      seqs [WordB, Lit (uni ''uploaded''), WordB],
      seqs [WordB, Lit (uni ''attached''), WordB],
      seqs [WordB, Lit (uni ''indexed''), WordB],
      seqs [WordB, Lit (uni ''pdf''), WordB],
      seqs [WordB, Lit (uni ''according to''), WordB],
      seqs [WordB, Lit (uni ''based on the''), WordB],
      seqs [WordB, Lit (uni ''knowledge base''), WordB]]"

definition retrieval_patterns_he :: "regex list" where
  "retrieval_patterns_he =
     [alts [Lit [1502, 1505, 1502, 1498], Lit [1502, 1505, 1502, 1499, 1497, 1501]],
      alts [Lit [1511, 1493, 1489, 1509], Lit [1511, 1489, 1510, 1497, 1501]],
      seqs [Lit [1492, 1506, 1500], alts [Lit [1497, 1514, 1497], Lit [1492], Lit [1514, 1492], Lit [1497, 1504, 1493], Lit [1497, 1514]]],
      alts [Lit [1502, 1510, 1493, 1512, 1507], seqs [Lit [1502, 1510, 1493, 1512, 1508], alts [Lit [1514], Lit [1497, 1501]]]],
      seqs [Lit [1502, 1488, 1493, 1504, 1491, 1511, 1505], opt (Lit [1497, 1501])],
      seqs [Lit [1500, 1508, 1497], spaces, opt (Lit [1492]), alts [Lit [1502, 1505, 1502, 1498], Lit [1511, 1493, 1489, 1509]]],
      seqs [Lit [1489, 1492, 1514, 1489, 1505, 1505], spaces, Lit [1506, 1500]],
      seqs [Lit [1502, 1488, 1490, 1512], spaces, opt (Lit [1492]), Lit [1497, 1491, 1506]],
      seqs [Lit [1499, 1514, 1493, 1489], spaces, Lit [1489], alts [Lit [1511, 1493, 1489, 1509], Lit [1502, 1505, 1502, 1498]]],
      seqs [Lit [1489], alts [Lit [1502, 1505, 1502, 1498], Lit [1511, 1493, 1489, 1509]]]]"

definition extraction_gap :: regex where
  "extraction_gap = upto_times 4 (Seq spaces nonspaces)"

definition extraction_intent_pattern :: regex where
  "extraction_intent_pattern =
     seqs [WordB, alts (map Lit extraction_verbs), WordB, extraction_gap, spaces, WordB, alts sensitive_nouns, WordB]"

definition extraction_intent_pattern_he :: regex where
  "extraction_intent_pattern_he =
     seqs [alts (map Lit extraction_verbs_he), extraction_gap, spaces, opt (Lit [1492]), alts sensitive_nouns_he]"

section \<open>Deciding\<close>

datatype rag_decision = NEEDS_RETRIEVAL | DIRECT_LLM | CLARIFICATION_NEEDED | OUT_OF_SCOPE

record decision_result =
  dr_decision :: rag_decision
  dr_reason :: ustr
  dr_confidence :: "rat option"

definition min_question_length :: nat where
  "min_question_length = 4"

definition decide :: "(nat \<Rightarrow> bool) \<Rightarrow> ustr \<Rightarrow> decision_result" where
  "decide uw question =
     (let stripped = py_strip question in
      if stripped = [] then
        \<lparr>dr_decision = CLARIFICATION_NEEDED, dr_reason = uni ''Question is empty.'', dr_confidence = Some 1\<rparr>
      else if length stripped < min_question_length then
        \<lparr>dr_decision = CLARIFICATION_NEEDED, dr_reason = uni ''Question is too short to act on.'', dr_confidence = Some (9 / 10)\<rparr>
      else let lowered = py_lower stripped in
        if re_search uw extraction_intent_pattern lowered \<or> re_search uw extraction_intent_pattern_he stripped then
          \<lparr>dr_decision = OUT_OF_SCOPE, dr_reason = uni ''Question appears to request sensitive or private data extraction.'',
           dr_confidence = Some (9 / 10)\<rparr>
        else if list_ex (\<lambda>r. re_search uw r lowered) retrieval_patterns \<or>
            list_ex (\<lambda>r. re_search uw r stripped) retrieval_patterns_he then
          \<lparr>dr_decision = NEEDS_RETRIEVAL, dr_reason = uni ''Question references uploaded or indexed documents.'',
           dr_confidence = Some (8 / 10)\<rparr>
        else
          \<lparr>dr_decision = DIRECT_LLM, dr_reason = uni ''General question with no document reference or sensitive-data request.'',
           dr_confidence = Some (6 / 10)\<rparr>)"

section \<open>What the patterns describe\<close>

text \<open>The texts a pattern matches, between a preceding and a following character.\<close>

definition last_char :: "nat option \<Rightarrow> ustr \<Rightarrow> nat option" where
  "last_char p m = (if m = [] then p else Some (last m))"

fun lang :: "(nat \<Rightarrow> bool) \<Rightarrow> regex \<Rightarrow> nat option \<Rightarrow> ustr \<Rightarrow> nat option \<Rightarrow> bool" where
  "lang uw Eps p m n \<longleftrightarrow> m = []"
| "lang uw (Cls P) p m n \<longleftrightarrow> (\<exists>c. m = [c] \<and> P c)"
| "lang uw (Many P) p m n \<longleftrightarrow> list_all P m"
| "lang uw (Seq a b) p m n \<longleftrightarrow> (\<exists>x y. m = x @ y \<and> lang uw a p x (first_char y n) \<and> lang uw b (last_char p x) y n)"
| "lang uw (Alt a b) p m n \<longleftrightarrow> lang uw a p m n \<or> lang uw b p m n"
| "lang uw WordB p m n \<longleftrightarrow> m = [] \<and> word_at uw p \<noteq> word_at uw n"

lemma char_simps [simp]: "last_char p [] = p" "first_char [] n = n" "first_char (c # s) n = Some c" "last_char p (m @ [c]) = Some c"
  "first_char (first @ rest) n = first_char first (first_char rest n)" "last_char p (x @ y) = last_char (last_char p x) y"
  by (auto simp: last_char_def first_char_def split: list.split)

lemma last_char_Cons [simp]: "last_char p (c # s) = last_char (Some c) s"
  by (simp add: last_char_def)

lemma many_lang: "(q, t) \<in> set (many P p s) \<longleftrightarrow> (\<exists>m. s = m @ t \<and> list_all P m \<and> q = last_char p m)"
proof (induction P p s rule: many.induct)
  case (1 P p)
  then show ?case by auto
next
  case (2 P p c s)
  show ?case
  proof
    assume "(q, t) \<in> set (many P p (c # s))"
    then consider "q = p" "t = c # s" | "P c" "(q, t) \<in> set (many P (Some c) s)" by (auto split: if_splits)
    then show "\<exists>m. c # s = m @ t \<and> list_all P m \<and> q = last_char p m"
    proof cases
      case 2
      with "2.IH" obtain m where "s = m @ t" "list_all P m" "q = last_char (Some c) m" by auto
      with 2 show ?thesis by (intro exI [of _ "c # m"]) simp
    qed (auto intro: exI [of _ "[]"])
  next
    assume "\<exists>m. c # s = m @ t \<and> list_all P m \<and> q = last_char p m"
    then obtain m where "c # s = m @ t" "list_all P m" "q = last_char p m" by blast
    with "2.IH" show "(q, t) \<in> set (many P p (c # s))" by (cases m) auto
  qed
qed

lemma rmatch_lang: "(q, t) \<in> set (rmatch uw r p s) \<longleftrightarrow>
    (\<exists>m. s = m @ t \<and> lang uw r p m (first_char t None) \<and> q = last_char p m)"
proof (induction r arbitrary: p s q t)
  case (Cls P)
  show ?case by (cases s) auto
next
  case (Many P)
  show ?case by (simp add: many_lang)
next
  case (Seq a b)
  show ?case
  proof
    assume "(q, t) \<in> set (rmatch uw (Seq a b) p s)"
    then obtain q1 t1 where "(q1, t1) \<in> set (rmatch uw a p s)" "(q, t) \<in> set (rmatch uw b q1 t1)" by auto
    then obtain x y where "s = x @ y @ t" "lang uw a p x (first_char (y @ t) None)" "lang uw b (last_char p x) y (first_char t None)"
      "q = last_char (last_char p x) y" by (auto simp: Seq.IH)
    then show "\<exists>m. s = m @ t \<and> lang uw (Seq a b) p m (first_char t None) \<and> q = last_char p m"
      by (intro exI [of _ "x @ y"]) auto
  next
    assume "\<exists>m. s = m @ t \<and> lang uw (Seq a b) p m (first_char t None) \<and> q = last_char p m"
    then obtain x y where m: "s = x @ y @ t" "lang uw a p x (first_char (y @ t) None)" "lang uw b (last_char p x) y (first_char t None)"
      "q = last_char (last_char p x) y" by auto
    then have "(last_char p x, y @ t) \<in> set (rmatch uw a p s)" unfolding Seq.IH(1) by blast
    moreover have "(q, t) \<in> set (rmatch uw b (last_char p x) (y @ t))" unfolding Seq.IH(2) using m by blast
    ultimately show "(q, t) \<in> set (rmatch uw (Seq a b) p s)" by auto
  qed
qed auto

lemma rmatch_found: "rmatch uw r p s \<noteq> [] \<longleftrightarrow> (\<exists>m t. s = m @ t \<and> lang uw r p m (first_char t None))"
proof -
  have "xs \<noteq> [] \<longleftrightarrow> (\<exists>q t. (q, t) \<in> set xs)" for xs :: "(nat option \<times> ustr) list" by (cases xs) auto
  then show ?thesis by (simp add: rmatch_lang) blast
qed

lemma search_from_lang: "search_from uw r p s \<longleftrightarrow>
    (\<exists>pre m post. s = pre @ m @ post \<and> lang uw r (last_char p pre) m (first_char post None))"
proof (induction s arbitrary: p)
  case Nil
  then show ?case by (simp add: rmatch_found)
next
  case (Cons c s)
  show ?case
    unfolding search_from.simps(2) Cons.IH rmatch_found
  proof (intro iffI; elim disjE exE conjE)
    fix m t assume "c # s = m @ t" "lang uw r p m (first_char t None)"
    then show "\<exists>pre m post. c # s = pre @ m @ post \<and> lang uw r (last_char p pre) m (first_char post None)"
      by (intro exI [of _ "[]"] exI [of _ m] exI [of _ t]) simp
  next
    fix pre m t assume "s = pre @ m @ t" "lang uw r (last_char (Some c) pre) m (first_char t None)"
    then show "\<exists>pre m post. c # s = pre @ m @ post \<and> lang uw r (last_char p pre) m (first_char post None)"
      by (intro exI [of _ "c # pre"] exI [of _ m] exI [of _ t]) simp
  next
    fix pre m post assume "c # s = pre @ m @ post" "lang uw r (last_char p pre) m (first_char post None)"
    then show "(\<exists>m t. c # s = m @ t \<and> lang uw r p m (first_char t None)) \<or>
        (\<exists>pre m post. s = pre @ m @ post \<and> lang uw r (last_char (Some c) pre) m (first_char post None))"
      by (cases pre) auto
  qed
qed

lemma re_search_lang: "re_search uw r s \<longleftrightarrow>
    (\<exists>pre m post. s = pre @ m @ post \<and> lang uw r (last_char None pre) m (first_char post None))"
  by (simp add: re_search_def search_from_lang)

lemma lang_Lit [simp]: "lang uw (Lit s) p m n \<longleftrightarrow> m = s"
  by (induction s arbitrary: p m rule: Lit.induct) auto

lemma lang_alts [simp]: "lang uw (alts rs) p m n \<longleftrightarrow> (\<exists>r \<in> set rs. lang uw r p m n)"
  by (induction rs rule: alts.induct) auto

lemma lang_opt [simp]: "lang uw (opt r) p m n \<longleftrightarrow> m = [] \<or> lang uw r p m n"
  by (auto simp: opt_def)

definition blank :: "ustr \<Rightarrow> bool" where
  "blank s \<longleftrightarrow> s \<noteq> [] \<and> list_all py_space s"

lemma lang_Cls_Seq: "lang uw (Seq (Cls P) r) p m n \<longleftrightarrow> (\<exists>c y. m = c # y \<and> P c \<and> lang uw r (Some c) y n)"
  by (force simp del: lang.simps(3,5) simp: last_char_def)

lemma lang_plus: "lang uw (Seq (Cls P) (Many P)) p m n \<longleftrightarrow> m \<noteq> [] \<and> list_all P m"
  by (cases m) (auto simp: lang_Cls_Seq simp del: lang.simps(4))

lemma lang_spaces [simp]: "lang uw spaces p m n \<longleftrightarrow> blank m"
  by (simp add: spaces_def lang_plus blank_def del: lang.simps)

lemma lang_nonspaces [simp]: "lang uw nonspaces p m n \<longleftrightarrow> is_word m"
  by (simp add: nonspaces_def lang_plus is_word_def list_all_iff del: lang.simps)

definition gap_text :: "(ustr \<times> ustr) list \<Rightarrow> ustr" where
  "gap_text ws = concat (map (\<lambda>(a, w). a @ w) ws)"

definition gap_words :: "(ustr \<times> ustr) list \<Rightarrow> bool" where
  "gap_words ws \<longleftrightarrow> (\<forall>(a, w) \<in> set ws. blank a \<and> is_word w)"

lemma lang_gap: "lang uw (upto_times k (Seq spaces nonspaces)) p m n \<longleftrightarrow> (\<exists>ws. length ws \<le> k \<and> gap_words ws \<and> m = gap_text ws)"
proof (induction k arbitrary: p m)
  case 0
  then show ?case by (auto simp: gap_text_def gap_words_def)
next
  case (Suc k)
  show ?case
  proof
    assume "lang uw (upto_times (Suc k) (Seq spaces nonspaces)) p m n"
    then consider "m = []" | a w ws where "m = (a @ w) @ gap_text ws" "blank a" "is_word w" "length ws \<le> k" "gap_words ws"
      using Suc.IH by fastforce
    then show "\<exists>ws. length ws \<le> Suc k \<and> gap_words ws \<and> m = gap_text ws"
    proof cases
      case 1
      then show ?thesis by (intro exI [of _ "[]"]) (simp add: gap_text_def gap_words_def)
    next
      case (2 a w ws)
      then show ?thesis by (intro exI [of _ "(a, w) # ws"]) (simp add: gap_text_def gap_words_def)
    qed
  next
    assume "\<exists>ws. length ws \<le> Suc k \<and> gap_words ws \<and> m = gap_text ws"
    then obtain ws where ws: "length ws \<le> Suc k" "gap_words ws" "m = gap_text ws" by blast
    show "lang uw (upto_times (Suc k) (Seq spaces nonspaces)) p m n"
    proof (cases ws)
      case Nil
      with ws show ?thesis by (simp add: gap_text_def)
    next
      case (Cons aw us)
      obtain a w where aw: "aw = (a, w)" by fastforce
      with Cons ws have "m = (a @ w) @ gap_text us" "blank a" "is_word w" "length us \<le> k" "gap_words us"
        by (auto simp: gap_text_def gap_words_def)
      then have "lang uw (Seq (Seq spaces nonspaces) (upto_times k (Seq spaces nonspaces))) p m n"
        unfolding lang.simps(4) Suc.IH lang_spaces lang_nonspaces by blast
      then show ?thesis by simp
    qed
  qed
qed

section \<open>When a question is out of scope\<close>

text \<open>The sensitive phrases, every optional part written out.\<close>

definition sensitive_phrases :: "ustr list" where
  "sensitive_phrases = map uni
     [''ssn'', ''social security number'', ''social security no'', ''credit card'', ''credit cards'', ''credit card number'',
      ''credit card numbers'', ''credit cards number'', ''credit cards numbers'', ''password'', ''passwords'', ''api key'', ''api keys'',
      ''private key'', ''private keys'', ''secret key'', ''secret keys'', ''database credentials'', ''credentials'',
      ''bank account'', ''bank accounts'']"

text \<open>Hebrew phrases, transliterated letter by letter (capitals for the final forms and for het, tet and shin).  A phrase
  is a sequence of words, each with its spellings, the article and the plural written out.\<close>

definition he_alphabet :: string where
  "he_alphabet = ''abgdhvzHTyKklMmNnsePpCcqrSt''"

definition he :: "string \<Rightarrow> ustr" where
  "he t = map (\<lambda>c. 1488 + length (takeWhile ((\<noteq>) c) he_alphabet)) t"

fun spelled :: "ustr list list \<Rightarrow> ustr \<Rightarrow> bool" where
  "spelled [] n \<longleftrightarrow> n = []"
| "spelled [ws] n \<longleftrightarrow> n \<in> set ws"
| "spelled (ws # vs # phrase) n \<longleftrightarrow> (\<exists>w sp r. n = w @ sp @ r \<and> w \<in> set ws \<and> blank sp \<and> spelled (vs # phrase) r)"

definition disclosing_verbs :: "ustr list" where
  "disclosing_verbs = map uni [''show'', ''reveal'', ''extract'', ''list'', ''give'', ''tell'', ''disclose'', ''dump'', ''leak'',
     ''provide'', ''share'', ''display'', ''expose'', ''print'', ''send'']"

definition disclosing_verbs_he :: "ustr list" where
  "disclosing_verbs_he = map he [''hrah'', ''trah'', ''tray'', ''hcg'', ''tcyg'', ''HSvP'', ''tHSvP'', ''hvca'', ''tvcya'', ''SlH'',
     ''tSlH'', ''tny'', ''tN'', ''glh'', ''tglh'', ''prsM'', ''tprsM'']"

definition sensitive_phrases_he :: "ustr list list list" where
  "sensitive_phrases_he = map (map (map he))
     [[[''sysmh'', ''sysmavt'']],
      [[''mspr''], [''krTys'', ''hkrTys''], [''aSray'', ''haSray'']],
      [[''prTy''], [''krTys'', ''hkrTys''], [''aSray'', ''haSray'']],
      [[''mspr''], [''tevdt'', ''htevdt''], [''zhvt'']],
      [[''prTy''], [''htHbrvt'', ''hhtHbrvt'']],
      [[''prTy''], [''gySh'', ''hgySh'']],
      [[''mptH'', ''mptHvt''], [''svdy'', ''hsvdy'', ''svdyyM'', ''hsvdyyM'']],
      [[''mptH'', ''mptHvt''], [''prTy'', ''hprTy'', ''prTyyM'', ''hprTyyM'']],
      [[''HSbvN''], [''bnq'', ''hbnq'']]]"

text \<open>A verb of extraction that is a word of its own, at most four words, and a sensitive phrase up to the
  end of a word.\<close>

definition asks_for_secret :: "(nat \<Rightarrow> bool) \<Rightarrow> ustr \<Rightarrow> bool" where
  "asks_for_secret uw s \<longleftrightarrow>
     (\<exists>pre v ws sp n post. s = pre @ v @ gap_text ws @ sp @ n @ post \<and>
        v \<in> set disclosing_verbs \<and> length ws \<le> 4 \<and> gap_words ws \<and> blank sp \<and> n \<in> set sensitive_phrases \<and>
        \<not> word_at uw (last_char None pre) \<and> \<not> word_at uw (first_char post None))"

text \<open>A Hebrew verb of extraction that a blank follows, letters of the same word may stand before it, at most four words,
  and a sensitive phrase, with or without the article, that may go on into a longer word.\<close>

definition asks_for_secret_he :: "ustr \<Rightarrow> bool" where
  "asks_for_secret_he s \<longleftrightarrow>
     (\<exists>pre v ws sp art n post. s = pre @ v @ gap_text ws @ sp @ art @ n @ post \<and>
        v \<in> set disclosing_verbs_he \<and> length ws \<le> 4 \<and> gap_words ws \<and> blank sp \<and> art \<in> {[], he ''h''} \<and>
        (\<exists>phrase \<in> set sensitive_phrases_he. spelled phrase n))"

text \<open>The Hebrew words that name documents, anywhere in the text; ``according to the document'', ``written in the file'' and
  ``in the document'' name nothing new.\<close>

definition document_phrases_he :: "ustr list list list" where
  "document_phrases_he = map (map (map he))
     [[[''msmK'', ''msmkyM'', ''qvbC'', ''qbcyM'']],
      [[''helyty'', ''helh'', ''helth'', ''helynv'', ''helyt'']],
      [[''mcvrP'', ''mcvrpt'', ''mcvrpyM'']],
      [[''mavndqs'', ''mavndqsyM'']],
      [[''bhtbss''], [''el'']],
      [[''magr''], [''yde'', ''hyde'']]]"

definition occurs :: "ustr list list \<Rightarrow> ustr \<Rightarrow> bool" where
  "occurs phrase s \<longleftrightarrow> (\<exists>pre n post. s = pre @ n @ post \<and> spelled phrase n)"

definition names_documents_he :: "ustr \<Rightarrow> bool" where
  "names_documents_he s \<longleftrightarrow> (\<exists>phrase \<in> set document_phrases_he. occurs phrase s)"

definition document_phrases :: "ustr list" where
  "document_phrases = map uni [''document'', ''documents'', ''uploaded'', ''attached'', ''indexed'', ''pdf'', ''according to'',
     ''based on the'', ''knowledge base'']"

definition names_documents :: "(nat \<Rightarrow> bool) \<Rightarrow> ustr \<Rightarrow> bool" where
  "names_documents uw s \<longleftrightarrow>
     (\<exists>pre x post. s = pre @ x @ post \<and> x \<in> set document_phrases \<and> \<not> word_at uw (last_char None pre) \<and> \<not> word_at uw (first_char post None))"

lemma lang_Lit_Seq: "lang uw (Seq (Lit a) r) p m n \<longleftrightarrow> (\<exists>y. m = a @ y \<and> lang uw r (last_char p a) y n)"
  by auto

lemma lang_opt_Seq: "lang uw (Seq (opt a) r) p m n \<longleftrightarrow> lang uw r p m n \<or> lang uw (Seq a r) p m n"
proof -
  have "lang uw r p m n \<Longrightarrow> m = [] @ m \<and> lang uw (opt a) p [] (first_char m n) \<and> lang uw r (last_char p []) m n" by simp
  then have "lang uw r p m n \<Longrightarrow> lang uw (Seq (opt a) r) p m n" unfolding lang.simps(4) by blast
  then show ?thesis by auto
qed

lemma lang_end: "lang uw (Seq a Eps) p m n \<longleftrightarrow> lang uw a p m n"
  by auto

lemmas lang_parts = lang_Lit_Seq lang_opt_Seq lang_end

lemma sensitive_language: "(\<exists>r \<in> set sensitive_nouns. lang uw r p n q) \<longleftrightarrow>
    n \<in> set sensitive_phrases \<or> n = uni ''social security no.''"
proof -
  have "lang uw (seqs [Lit a, opt (Lit b)]) p n q \<longleftrightarrow> n = a \<or> n = a @ b" for a b p n q
    by (auto simp add: lang_parts simp del: lang.simps(4))
  moreover have "lang uw (seqs [Lit a, opt (Lit b), opt (seqs [Lit c, opt (Lit e)])]) p n q \<longleftrightarrow>
      n = a \<or> n = a @ c \<or> n = a @ c @ e \<or> n = a @ b \<or> n = a @ b @ c \<or> n = a @ b @ c @ e" for a b c e p n q
    by (auto simp add: lang_parts simp del: lang.simps(4))
  moreover have "lang uw (seqs [Lit a, alts [Lit b, seqs [Lit c, opt (Lit e)]]]) p n q \<longleftrightarrow> n = a @ b \<or> n = a @ c \<or> n = a @ c @ e" for a b c e p n q
    by (auto simp add: lang_parts simp del: lang.simps(4))
  ultimately show ?thesis
    unfolding sensitive_nouns_def sensitive_phrases_def
    by (simp add: uni_append [symmetric] del: lang.simps) blast
qed

text \<open>Boundaries: the verb starts at the start of a word and the phrase ends at the end of one; between
  them the blanks provide the others.\<close>

lemma phrase_ends: "n \<in> set sensitive_phrases \<Longrightarrow> n \<noteq> [] \<and> word_char uw (hd n) \<and> word_char uw (last n)"
proof -
  have "list_all (\<lambda>n. n \<noteq> [] \<and> word_char uw (hd n) \<and> word_char uw (last n)) sensitive_phrases"
    by (simp add: sensitive_phrases_def uni_def word_char_def)
  then show "n \<in> set sensitive_phrases \<Longrightarrow> n \<noteq> [] \<and> word_char uw (hd n) \<and> word_char uw (last n)" by (simp add: list_all_iff)
qed

lemma verb_ends: "v \<in> set extraction_verbs \<Longrightarrow> v \<noteq> [] \<and> word_char uw (hd v) \<and> word_char uw (last v)"
proof -
  have "list_all (\<lambda>n. n \<noteq> [] \<and> word_char uw (hd n) \<and> word_char uw (last n)) extraction_verbs"
    by (simp add: extraction_verbs_def uni_def word_char_def)
  then show "v \<in> set extraction_verbs \<Longrightarrow> v \<noteq> [] \<and> word_char uw (hd v) \<and> word_char uw (last v)" by (simp add: list_all_iff)
qed

lemma lang_WordB_Seq: "lang uw (Seq WordB r) p m n \<longleftrightarrow> word_at uw p \<noteq> word_at uw (first_char m n) \<and> lang uw r p m n"
  by auto

lemma lang_seq: "lang uw (Seq a r) p m n \<longleftrightarrow> (\<exists>x y. m = x @ y \<and> lang uw a p x (first_char y n) \<and> lang uw r (last_char p x) y n)"
  by simp

lemma space_no_word: "py_space c \<Longrightarrow> \<not> word_char uw c"
  by (auto simp: py_space_def word_char_def)

lemma blank_ends:
  assumes "blank sp" shows "\<not> word_at uw (first_char (sp @ r) n)" and "\<not> word_at uw (last_char p sp)"
proof -
  have sp: "sp \<noteq> []" "\<And>c. c \<in> set sp \<Longrightarrow> \<not> word_char uw c"
    using assms space_no_word by (auto simp: blank_def list_all_iff)
  then have "\<not> word_char uw (hd sp)" "\<not> word_char uw (last sp)" by simp_all
  then show "\<not> word_at uw (first_char (sp @ r) n)" and "\<not> word_at uw (last_char p sp)"
    using sp(1) by (cases sp; simp add: word_at_def last_char_def)+
qed

lemma word_ends: "m \<noteq> [] \<and> word_char uw (hd m) \<and> word_char uw (last m) \<Longrightarrow>
    word_at uw (first_char (m @ r) n) \<and> word_at uw (last_char p m)"
  by (cases m) (auto simp: word_at_def last_char_def)

lemma gap_blank: "gap_words ws \<Longrightarrow> blank sp \<Longrightarrow> \<not> word_at uw (first_char (gap_text ws @ sp @ r) n)"
  using blank_ends(1) by (cases ws) (auto simp: gap_text_def gap_words_def simp del: char_simps(5))

lemma intent_language: "lang uw extraction_intent_pattern p m q \<longleftrightarrow>
    (\<exists>v ws sp n. m = v @ gap_text ws @ sp @ n \<and> v \<in> set extraction_verbs \<and> length ws \<le> 4 \<and> gap_words ws \<and> blank sp \<and>
      (n \<in> set sensitive_phrases \<or> n = uni ''social security no.'') \<and> \<not> word_at uw p \<and> word_at uw (last_char None n) \<noteq> word_at uw q)"
  (is "?L \<longleftrightarrow> ?R")
proof -
  define V where "V = alts (map Lit extraction_verbs)"
  define N where "N = alts sensitive_nouns"
  have V: "lang uw V p v q \<longleftrightarrow> v \<in> set extraction_verbs" for p v q by (simp add: V_def)
  have N: "lang uw N p n q \<longleftrightarrow> n \<in> set sensitive_phrases \<or> n = uni ''social security no.''" for p n q
    unfolding N_def lang_alts by (rule sensitive_language)
  have n_ends: "word_at uw (first_char (n @ r) k)" "last_char b n = last_char None n"
    if "n \<in> set sensitive_phrases \<or> n = uni ''social security no.''" for n r k b
  proof -
    have n: "n \<noteq> [] \<and> word_char uw (hd n)"
      using that phrase_ends [of n uw] by (elim disjE) (simp_all add: uni_def word_char_def)
    then show "word_at uw (first_char (n @ r) k)" "last_char b n = last_char None n"
      by (cases n; simp add: word_at_def last_char_def)+
  qed
  show ?thesis
  proof
    assume ?L
    then obtain v m1 where 1: "m = v @ m1" "word_at uw p \<noteq> word_at uw (first_char m q)" "v \<in> set extraction_verbs"
      and r1: "lang uw (seqs [extraction_gap, spaces, WordB, N, WordB]) (last_char p v) m1 q"
      unfolding extraction_intent_pattern_def seqs.simps V_def [symmetric] N_def [symmetric]
      by (simp only: lang_WordB_Seq lang_seq [of _ V] V) blast
    from r1 obtain ws m2 where 2: "m1 = gap_text ws @ m2" "length ws \<le> 4" "gap_words ws"
      and r2: "lang uw (seqs [spaces, WordB, N, WordB]) (last_char (last_char p v) (gap_text ws)) m2 q"
      unfolding seqs.simps extraction_gap_def by (simp only: lang_seq [of _ "upto_times _ _"] lang_gap) blast
    from r2 obtain sp n where 3: "m2 = sp @ n" "blank sp" and r3: "\<exists>b. lang uw (seqs [WordB, N, WordB]) b n q"
      unfolding seqs.simps by (simp only: lang_seq [of _ spaces] lang_spaces) blast
    from r3 obtain b where 4: "lang uw N b n q" "word_at uw (last_char b n) \<noteq> word_at uw q"
      unfolding seqs.simps lang_WordB_Seq lang_end lang_seq [of _ N] by (simp only: lang.simps char_simps append_Nil2 append_Nil) (elim exE conjE, hypsubst, simp only: append_Nil2 char_simps, blast)
    have n: "n \<in> set sensitive_phrases \<or> n = uni ''social security no.''" using 4(1) by (simp only: N)
    have "\<not> word_at uw p" using 1(1,2) word_ends [OF verb_ends [OF 1(3)], of uw m1 q] by simp
    with 1 2 3 n 4(2) n_ends(2) [OF n, of b] show ?R by auto
  next
    assume ?R
    then obtain v ws sp n where R: "m = v @ gap_text ws @ sp @ n" "v \<in> set extraction_verbs" "length ws \<le> 4" "gap_words ws" "blank sp"
      "n \<in> set sensitive_phrases \<or> n = uni ''social security no.''" "\<not> word_at uw p" "word_at uw (last_char None n) \<noteq> word_at uw q" by blast
    let ?p = "last_char (last_char (last_char p v) (gap_text ws)) sp"
    have "lang uw (seqs [N, WordB]) ?p n q"
      unfolding seqs.simps using R(6,8) n_ends(2) [OF R(6), of ?p] by (simp add: N)
    then have "lang uw (seqs [WordB, N, WordB]) ?p n q"
      using blank_ends(2) [OF R(5)] n_ends(1) [OF R(6), of "[]" q] by simp
    then have "lang uw (seqs [spaces, WordB, N, WordB]) (last_char (last_char p v) (gap_text ws)) (sp @ n) q"
      using R(5) by (simp only: seqs.simps lang_seq [of _ spaces] lang_spaces) blast
    then have "lang uw (seqs [extraction_gap, spaces, WordB, N, WordB]) (last_char p v) (gap_text ws @ sp @ n) q"
      using R(3,4) by (simp only: seqs.simps extraction_gap_def lang_seq [of _ "upto_times _ _"] lang_gap) blast
    then have "lang uw (seqs [V, WordB, extraction_gap, spaces, WordB, N, WordB]) p m q"
      using R(1,2) gap_blank [OF R(4,5), of uw n q] word_ends [OF verb_ends [OF R(2)], of uw "[]" None p]
      by (simp only: seqs.simps lang_seq [of _ V] V lang_WordB_Seq) blast
    then show ?L
      using R(1,7) word_ends [OF verb_ends [OF R(2)], of uw "gap_text ws @ sp @ n" q]
      by (simp only: extraction_intent_pattern_def V_def N_def seqs.simps lang_WordB_Seq) blast
  qed
qed

lemma disclosing_verbs_eq: "disclosing_verbs = extraction_verbs" "disclosing_verbs_he = extraction_verbs_he"
  by (simp_all add: disclosing_verbs_def extraction_verbs_def disclosing_verbs_he_def extraction_verbs_he_def he_def he_alphabet_def)

lemma extraction_intent: "re_search uw extraction_intent_pattern s \<longleftrightarrow> asks_for_secret uw s"
proof
  assume "re_search uw extraction_intent_pattern s"
  then obtain pre post v ws sp n where s: "s = pre @ v @ gap_text ws @ sp @ n @ post" "v \<in> set extraction_verbs" "length ws \<le> 4" "gap_words ws"
    "blank sp" "n \<in> set sensitive_phrases \<or> n = uni ''social security no.''" "\<not> word_at uw (last_char None pre)"
    "word_at uw (last_char None n) \<noteq> word_at uw (first_char post None)"
    unfolding re_search_lang intent_language by (elim exE conjE, simp only: append_assoc) blast
  show "asks_for_secret uw s"
  proof (cases "n \<in> set sensitive_phrases")
    case True
    with word_ends [OF phrase_ends [OF True], of uw "[]" None None] s(8) have "\<not> word_at uw (first_char post None)" by simp
    with s True show ?thesis unfolding asks_for_secret_def disclosing_verbs_eq by blast
  next
    case False
    with s(6) have n: "n = uni ''social security no'' @ [46]" by (simp add: uni_def)
    have "uni ''social security no'' \<in> set sensitive_phrases" by (simp add: sensitive_phrases_def)
    moreover have "\<not> word_at uw (first_char (46 # post) None)" by (simp add: word_at_def word_char_def)
    moreover have "s = pre @ v @ gap_text ws @ sp @ uni ''social security no'' @ 46 # post" using s(1) by (simp add: n)
    ultimately show ?thesis unfolding asks_for_secret_def disclosing_verbs_eq using s(2-5,7) by blast
  qed
next
  assume "asks_for_secret uw s"
  then obtain pre v ws sp n post where s: "s = pre @ v @ gap_text ws @ sp @ n @ post" "v \<in> set extraction_verbs" "length ws \<le> 4" "gap_words ws"
    "blank sp" "n \<in> set sensitive_phrases" "\<not> word_at uw (last_char None pre)" "\<not> word_at uw (first_char post None)"
    unfolding asks_for_secret_def disclosing_verbs_eq by blast
  have "word_at uw (last_char None n) \<noteq> word_at uw (first_char post None)"
    using s(8) word_ends [OF phrase_ends [OF s(6)], of uw "[]" None None] by simp
  with s have "s = pre @ (v @ gap_text ws @ sp @ n) @ post \<and>
      lang uw extraction_intent_pattern (last_char None pre) (v @ gap_text ws @ sp @ n) (first_char post None)"
    unfolding intent_language by auto
  then show "re_search uw extraction_intent_pattern s" unfolding re_search_lang by blast
qed

text \<open>The Hebrew patterns spell phrases; \<open>h\<close> is the article.\<close>

definition spells :: "(nat \<Rightarrow> bool) \<Rightarrow> regex \<Rightarrow> ustr list list \<Rightarrow> bool" where
  "spells uw r phrase \<longleftrightarrow> (\<forall>p m n. lang uw r p m n \<longleftrightarrow> spelled phrase m)"

lemma spells_last:
  "spells uw (seqs [Lit a]) [[a]]"
  "spells uw (seqs [opt (Lit h), Lit b]) [[b, h @ b]]"
  "spells uw (seqs [opt (Lit h), Lit c, opt (Lit e)]) [[c, h @ c, c @ e, h @ c @ e]]"
  "spells uw (seqs [Lit a, alts [Lit b, Lit c]]) [[a @ b, a @ c]]"
  by (auto simp: spells_def lang_parts simp del: lang.simps(4))

lemma spells_space:
  assumes "spells uw (seqs rs) (vs # phrase)"
  shows "lang uw (seqs (spaces # rs)) p m n \<longleftrightarrow> (\<exists>sp r. m = sp @ r \<and> blank sp \<and> spelled (vs # phrase) r)"
  using assms by (simp only: seqs.simps lang_seq [of _ spaces] lang_spaces spells_def)

lemma spells_more:
  assumes "spells uw (seqs rs) (vs # phrase)"
  shows "spells uw (seqs (Lit a # spaces # rs)) ([a] # vs # phrase)"
    and "spells uw (seqs (opt (Lit h) # Lit a # spaces # rs)) ([a, h @ a] # vs # phrase)"
    and "spells uw (seqs (Lit a # opt (Lit b) # spaces # rs)) ([a, a @ b] # vs # phrase)"
proof -
  have sp: "spelled ([x, y] # vs # phrase) m \<longleftrightarrow> (\<exists>z. m = x @ z \<and> (\<exists>sp r. z = sp @ r \<and> blank sp \<and> spelled (vs # phrase) r)) \<or>
     (\<exists>z. m = y @ z \<and> (\<exists>sp r. z = sp @ r \<and> blank sp \<and> spelled (vs # phrase) r))"
    and sp1: "spelled ([x] # vs # phrase) m \<longleftrightarrow> (\<exists>z. m = x @ z \<and> (\<exists>sp r. z = sp @ r \<and> blank sp \<and> spelled (vs # phrase) r))" for x y m
    by auto
  note st = spells_space [OF assms]
  show "spells uw (seqs (Lit a # spaces # rs)) ([a] # vs # phrase)"
    unfolding spells_def sp1 seqs.simps(2) [of "Lit a"] lang_Lit_Seq st by blast
  show "spells uw (seqs (opt (Lit h) # Lit a # spaces # rs)) ([a, h @ a] # vs # phrase)"
    unfolding spells_def sp seqs.simps(2) [of "Lit _"] seqs.simps(2) [of "opt _"] lang_opt_Seq lang_Lit_Seq st by auto
  show "spells uw (seqs (Lit a # opt (Lit b) # spaces # rs)) ([a, a @ b] # vs # phrase)"
    unfolding spells_def sp seqs.simps(2) [of "Lit _"] seqs.simps(2) [of "opt _"] lang_opt_Seq lang_Lit_Seq st by auto
qed

lemmas spells_phrases = spells_last(4) spells_more(1) [OF spells_last(1)] spells_more(1) [OF spells_last(2)]
  spells_more(1) [OF spells_more(2) [OF spells_last(1)]] spells_more(1) [OF spells_more(2) [OF spells_last(2)]]
  spells_more(3) [OF spells_last(3)]

lemma sensitive_nouns_he_eq:
  "sensitive_nouns_he =
     [seqs [Lit (he ''sysm''), alts [Lit (he ''h''), Lit (he ''avt'')]],
      seqs [Lit (he ''mspr''), spaces, opt (Lit (he ''h'')), Lit (he ''krTys''), spaces, opt (Lit (he ''h'')), Lit (he ''aSray'')],
      seqs [Lit (he ''prTy''), spaces, opt (Lit (he ''h'')), Lit (he ''krTys''), spaces, opt (Lit (he ''h'')), Lit (he ''aSray'')],
      seqs [Lit (he ''mspr''), spaces, opt (Lit (he ''h'')), Lit (he ''tevdt''), spaces, Lit (he ''zhvt'')],
      seqs [Lit (he ''prTy''), spaces, opt (Lit (he ''h'')), Lit (he ''htHbrvt'')],
      seqs [Lit (he ''prTy''), spaces, opt (Lit (he ''h'')), Lit (he ''gySh'')],
      seqs [Lit (he ''mptH''), opt (Lit (he ''vt'')), spaces, opt (Lit (he ''h'')), Lit (he ''svdy''), opt (Lit (he ''yM''))],
      seqs [Lit (he ''mptH''), opt (Lit (he ''vt'')), spaces, opt (Lit (he ''h'')), Lit (he ''prTy''), opt (Lit (he ''yM''))],
      seqs [Lit (he ''HSbvN''), spaces, opt (Lit (he ''h'')), Lit (he ''bnq'')]]"
  by (simp add: sensitive_nouns_he_def he_def he_alphabet_def del: seqs.simps Lit.simps alts.simps)

lemma sensitive_phrases_he_eq:
  "sensitive_phrases_he =
     [[[he ''sysm'' @ he ''h'', he ''sysm'' @ he ''avt'']],
      [[he ''mspr''], [he ''krTys'', he ''h'' @ he ''krTys''], [he ''aSray'', he ''h'' @ he ''aSray'']],
      [[he ''prTy''], [he ''krTys'', he ''h'' @ he ''krTys''], [he ''aSray'', he ''h'' @ he ''aSray'']],
      [[he ''mspr''], [he ''tevdt'', he ''h'' @ he ''tevdt''], [he ''zhvt'']],
      [[he ''prTy''], [he ''htHbrvt'', he ''h'' @ he ''htHbrvt'']],
      [[he ''prTy''], [he ''gySh'', he ''h'' @ he ''gySh'']],
      [[he ''mptH'', he ''mptH'' @ he ''vt''], [he ''svdy'', he ''h'' @ he ''svdy'', he ''svdy'' @ he ''yM'', he ''h'' @ he ''svdy'' @ he ''yM'']],
      [[he ''mptH'', he ''mptH'' @ he ''vt''], [he ''prTy'', he ''h'' @ he ''prTy'', he ''prTy'' @ he ''yM'', he ''h'' @ he ''prTy'' @ he ''yM'']],
      [[he ''HSbvN''], [he ''bnq'', he ''h'' @ he ''bnq'']]]"
  by (simp add: sensitive_phrases_he_def he_def he_alphabet_def)

lemma spells_alts: "list_all2 (spells uw) rs phrases \<Longrightarrow> lang uw (alts rs) p n q \<longleftrightarrow> (\<exists>phrase \<in> set phrases. spelled phrase n)"
proof (induction rs phrases rule: list_all2_induct)
  case (Cons r rs phrase phrases)
  from Cons.hyps have "lang uw r p n q \<longleftrightarrow> spelled phrase n" by (simp add: spells_def)
  with Cons.IH show ?case by (simp del: lang_alts)
qed simp

lemma sensitive_language_he: "lang uw (alts sensitive_nouns_he) p n q \<longleftrightarrow> (\<exists>phrase \<in> set sensitive_phrases_he. spelled phrase n)"
proof -
  have "list_all2 (spells uw) sensitive_nouns_he sensitive_phrases_he"
    unfolding sensitive_nouns_he_eq sensitive_phrases_he_eq by (intro list.rel_intros spells_phrases)
  then show ?thesis by (rule spells_alts)
qed

lemma extraction_intent_he: "re_search uw extraction_intent_pattern_he s \<longleftrightarrow> asks_for_secret_he s"
proof -
  define V where "V = alts (map Lit extraction_verbs_he)"
  define N where "N = alts sensitive_nouns_he"
  define phrase where "phrase n \<longleftrightarrow> (\<exists>ph \<in> set sensitive_phrases_he. spelled ph n)" for n
  have V: "lang uw V p v q \<longleftrightarrow> v \<in> set disclosing_verbs_he" for p v q by (simp add: V_def disclosing_verbs_eq)
  have N: "lang uw N p n q \<longleftrightarrow> phrase n" for p n q unfolding N_def phrase_def by (rule sensitive_language_he)
  have h: "a \<in> {[], he ''h''} \<longleftrightarrow> a = [] \<or> a = [1492]" for a by (simp add: he_def he_alphabet_def)
  have shape: "lang uw extraction_intent_pattern_he p m q \<longleftrightarrow> (\<exists>v ws sp a n. m = v @ gap_text ws @ sp @ a @ n \<and>
      v \<in> set disclosing_verbs_he \<and> length ws \<le> 4 \<and> gap_words ws \<and> blank sp \<and> a \<in> {[], he ''h''} \<and> phrase n)" for p m q
    unfolding extraction_intent_pattern_he_def seqs.simps extraction_gap_def V_def [symmetric] N_def [symmetric] lang_end lang_seq [of _ V]
      lang_seq [of _ "upto_times _ _"] lang_seq [of _ spaces] lang_seq [of _ "opt _"] V lang_gap lang_spaces lang_opt lang_Lit N h
    by blast
  show ?thesis
  proof
    assume "re_search uw extraction_intent_pattern_he s"
    then obtain pre post v ws sp a n where "s = pre @ (v @ gap_text ws @ sp @ a @ n) @ post" "v \<in> set disclosing_verbs_he"
      "length ws \<le> 4" "gap_words ws" "blank sp" "a \<in> {[], he ''h''}" "phrase n"
      unfolding re_search_lang shape by blast
    then show "asks_for_secret_he s" unfolding asks_for_secret_he_def phrase_def append_assoc by blast
  next
    assume "asks_for_secret_he s"
    then obtain pre post v ws sp a n where s: "s = pre @ v @ gap_text ws @ sp @ a @ n @ post" "v \<in> set disclosing_verbs_he"
      "length ws \<le> 4" "gap_words ws" "blank sp" "a \<in> {[], he ''h''}" "phrase n"
      unfolding asks_for_secret_he_def phrase_def by blast
    then have "s = pre @ (v @ gap_text ws @ sp @ a @ n) @ post" by simp
    with s show "re_search uw extraction_intent_pattern_he s" unfolding re_search_lang shape by blast
  qed
qed

text \<open>What the Hebrew document patterns find; three of the ten only find what others find too.\<close>

lemma spells_documents:
  "spells uw (alts [Lit a, Lit b]) [[a, b]]"
  "spells uw (seqs [Lit a, opt (Lit b)]) [[a, a @ b]]"
  "spells uw (seqs [Lit a, alts [Lit b, Lit c, Lit d, Lit e, Lit f]]) [[a @ b, a @ c, a @ d, a @ e, a @ f]]"
  "spells uw (alts [Lit a, seqs [Lit b, alts [Lit c, Lit d]]]) [[a, b @ c, b @ d]]"
  by (auto simp: spells_def lang_parts simp del: lang.simps(4))

lemma search_occurs: "spells uw r phrase \<Longrightarrow> re_search uw r s \<longleftrightarrow> occurs phrase s"
  by (simp add: re_search_lang occurs_def spells_def)

lemma lang_ending: "lang uw (seqs (rs @ [alts [Lit x, Lit y]])) p m q \<Longrightarrow> \<exists>a z. m = a @ z \<and> (z = x \<or> z = y)"
proof (induction rs arbitrary: p m)
  case Nil
  then show ?case by (auto simp: lang_end simp del: lang.simps(4))
next
  case (Cons r rs)
  from Cons.prems obtain b c where m: "m = b @ c" "lang uw (seqs (rs @ [alts [Lit x, Lit y]])) (last_char p b) c q"
    unfolding append_Cons seqs.simps(2) lang_seq by blast
  from Cons.IH [OF m(2)] obtain a z where "c = a @ z" "z = x \<or> z = y" by blast
  with m(1) show ?case by (intro exI [of _ "b @ a"] exI [of _ z]) simp
qed

lemma search_ending:
  assumes "re_search uw (seqs (rs @ [alts [Lit x, Lit y]])) s"
  shows "occurs [[x, y]] s"
proof -
  from assms obtain pre m post where s: "s = pre @ m @ post"
    "lang uw (seqs (rs @ [alts [Lit x, Lit y]])) (last_char None pre) m (first_char post None)"
    unfolding re_search_lang by blast
  from lang_ending [OF s(2)] obtain a z where "m = a @ z" "z = x \<or> z = y" by blast
  with s(1) have "s = (pre @ a) @ z @ post" "spelled [[x, y]] z" by auto
  then show ?thesis unfolding occurs_def by blast
qed

lemma occurs_word: "occurs [ws] s \<longleftrightarrow> (\<exists>w \<in> set ws. sublist w s)"
  by (auto simp: occurs_def sublist_def)

lemma retrieval_patterns_he_eq:
  "retrieval_patterns_he =
     [alts [Lit (he ''msmK''), Lit (he ''msmkyM'')],
      alts [Lit (he ''qvbC''), Lit (he ''qbcyM'')],
      seqs [Lit (he ''hel''), alts [Lit (he ''yty''), Lit (he ''h''), Lit (he ''th''), Lit (he ''ynv''), Lit (he ''yt'')]],
      alts [Lit (he ''mcvrP''), seqs [Lit (he ''mcvrp''), alts [Lit (he ''t''), Lit (he ''yM'')]]],
      seqs [Lit (he ''mavndqs''), opt (Lit (he ''yM''))],
      seqs ([Lit (he ''lpy''), spaces, opt (Lit (he ''h''))] @ [alts [Lit (he ''msmK''), Lit (he ''qvbC'')]]),
      seqs [Lit (he ''bhtbss''), spaces, Lit (he ''el'')],
      seqs [Lit (he ''magr''), spaces, opt (Lit (he ''h'')), Lit (he ''yde'')],
      seqs ([Lit (he ''ktvb''), spaces, Lit (he ''b'')] @ [alts [Lit (he ''qvbC''), Lit (he ''msmK'')]]),
      seqs ([Lit (he ''b'')] @ [alts [Lit (he ''msmK''), Lit (he ''qvbC'')]])]"
  by (simp add: retrieval_patterns_he_def he_def he_alphabet_def del: seqs.simps Lit.simps alts.simps)

lemma document_phrases_he_eq:
  "document_phrases_he =
     [[[he ''msmK'', he ''msmkyM'', he ''qvbC'', he ''qbcyM'']],
      [[he ''hel'' @ he ''yty'', he ''hel'' @ he ''h'', he ''hel'' @ he ''th'', he ''hel'' @ he ''ynv'', he ''hel'' @ he ''yt'']],
      [[he ''mcvrP'', he ''mcvrp'' @ he ''t'', he ''mcvrp'' @ he ''yM'']],
      [[he ''mavndqs'', he ''mavndqs'' @ he ''yM'']],
      [[he ''bhtbss''], [he ''el'']],
      [[he ''magr''], [he ''yde'', he ''h'' @ he ''yde'']]]"
  by (simp add: document_phrases_he_def he_def he_alphabet_def)

lemma document_patterns_he: "(\<exists>r \<in> set retrieval_patterns_he. re_search uw r s) \<longleftrightarrow> names_documents_he s"
proof -
  let ?D = "[he ''msmK'', he ''msmkyM'', he ''qvbC'', he ''qbcyM'']"
  have D: "occurs [?D] s \<longleftrightarrow> occurs [[he ''msmK'', he ''msmkyM'']] s \<or> occurs [[he ''qvbC'', he ''qbcyM'']] s"
    unfolding occurs_word by auto
  have sub: "occurs [[he ''msmK'', he ''qvbC'']] s \<Longrightarrow> occurs [?D] s" "occurs [[he ''qvbC'', he ''msmK'']] s \<Longrightarrow> occurs [?D] s"
    unfolding occurs_word by auto
  have redundant: "re_search uw (seqs (rs @ [alts [Lit (he ''msmK''), Lit (he ''qvbC'')]])) s \<Longrightarrow> occurs [?D] s"
    "re_search uw (seqs (rs @ [alts [Lit (he ''qvbC''), Lit (he ''msmK'')]])) s \<Longrightarrow> occurs [?D] s" for rs
    using search_ending sub by blast+
  note exact = spells_documents [THEN search_occurs] spells_phrases(2,3) [THEN search_occurs]
  show ?thesis
    unfolding names_documents_he_def retrieval_patterns_he_eq document_phrases_he_eq list.set bex_simps exact
    using redundant D by blast
qed

lemma word_pattern:
  assumes "x \<noteq> []" "word_char uw (hd x)" "word_char uw (last x)"
  shows "lang uw (seqs [WordB, Lit x, WordB]) p m q \<longleftrightarrow> m = x \<and> \<not> word_at uw p \<and> \<not> word_at uw q"
proof -
  have "word_at uw (first_char x r)" "word_at uw (last_char p x)" for r
    using assms by (cases x; simp add: first_char_def last_char_def word_at_def)+
  then show ?thesis by (auto simp: lang_WordB_Seq lang_Lit_Seq simp del: lang.simps(4))
qed

text \<open>A phrase standing between word boundaries.\<close>

definition stands_alone :: "(nat \<Rightarrow> bool) \<Rightarrow> ustr \<Rightarrow> ustr \<Rightarrow> bool" where
  "stands_alone uw s x \<longleftrightarrow>
     (\<exists>pre post. s = pre @ x @ post \<and> \<not> word_at uw (last_char None pre) \<and> \<not> word_at uw (first_char post None))"

lemma word_search:
  assumes "x \<noteq> []" "word_char uw (hd x)" "word_char uw (last x)"
  shows "re_search uw (seqs [WordB, Lit x, WordB]) s \<longleftrightarrow> stands_alone uw s x"
  unfolding re_search_lang stands_alone_def word_pattern [OF assms] by blast

lemma plural_pattern: "lang uw (seqs [WordB, Lit x, opt (Lit y), WordB]) p m q \<longleftrightarrow>
    lang uw (seqs [WordB, Lit x, WordB]) p m q \<or> lang uw (seqs [WordB, Lit (x @ y), WordB]) p m q"
proof -
  have "(b \<and> (\<exists>r. m = x @ r \<and> (P r \<or> (\<exists>t. r = y @ t \<and> Q t)))) \<longleftrightarrow>
      (b \<and> (\<exists>r. m = x @ r \<and> P r)) \<or> (b \<and> (\<exists>r. m = (x @ y) @ r \<and> Q r))" for b P Q
    by auto
  then show ?thesis
    by (simp only: seqs.simps lang_WordB_Seq [of _ "Seq (Lit _) _"] lang_Lit_Seq lang_opt_Seq char_simps(6))
qed

lemma re_search_union:
  assumes "\<And>p m q. lang uw r p m q \<longleftrightarrow> lang uw a p m q \<or> lang uw b p m q"
  shows "re_search uw r s \<longleftrightarrow> re_search uw a s \<or> re_search uw b s"
  unfolding re_search_lang assms by blast

lemma plural_search:
  assumes "x \<noteq> []" "word_char uw (hd x)" "word_char uw (last x)" "word_char uw (last y)" "y \<noteq> []"
  shows "re_search uw (seqs [WordB, Lit x, opt (Lit y), WordB]) s \<longleftrightarrow> stands_alone uw s x \<or> stands_alone uw s (x @ y)"
proof -
  have "x @ y \<noteq> []" "word_char uw (hd (x @ y))" "word_char uw (last (x @ y))" using assms by auto
  from word_search [OF this] word_search [OF assms(1-3)] show ?thesis
    by (simp only: re_search_union [OF plural_pattern])
qed

lemma names_documents_search: "list_ex (\<lambda>r. re_search uw r s) retrieval_patterns \<longleftrightarrow> names_documents uw s"
proof -
  have word: "\<And>x. list_all (word_char uw) [hd x, last x] \<Longrightarrow> x \<noteq> [] \<Longrightarrow>
      re_search uw (seqs [WordB, Lit x, WordB]) s \<longleftrightarrow> stands_alone uw s x"
    by (rule word_search) simp_all
  have "re_search uw (seqs [WordB, Lit (uni ''document''), opt (Lit (uni ''s'')), WordB]) s \<longleftrightarrow>
      stands_alone uw s (uni ''document'') \<or> stands_alone uw s (uni ''documents'')"
    using plural_search [of "uni ''document''" uw "uni ''s''" s] by (simp add: uni_def word_char_def)
  moreover have "names_documents uw s \<longleftrightarrow> (\<exists>x \<in> set document_phrases. stands_alone uw s x)"
    unfolding names_documents_def stands_alone_def by blast
  ultimately show ?thesis
    unfolding retrieval_patterns_def document_phrases_def
    by (simp add: word uni_def word_char_def del: seqs.simps Lit.simps)
qed

text \<open>C33: A question is routed by what it says: shorter than four characters, it needs clarification; asking for the
  disclosure of a secret, it is out of scope; naming documents, it needs retrieval; and every other question goes to the
  model directly.  In English a secret is asked for by a disclosing verb that stands as a word of its own, then at most
  four words, then a sensitive phrase that ends where a word ends, and documents are named by a phrase between word
  boundaries.  In Hebrew there are no word boundaries: the verb may be the end of a longer word, and the sensitive phrase
  and the words for documents count inside longer words too.  These descriptions use no pattern of the code: the regular expressions and their
  backtracking search decide exactly them.\<close>

theorem decide_spec:
  "dr_decision (decide uw question) =
     (let t = py_strip question in
      if length t < 4 then CLARIFICATION_NEEDED
      else if asks_for_secret uw (py_lower t) \<or> asks_for_secret_he t then OUT_OF_SCOPE
      else if names_documents uw (py_lower t) \<or> names_documents_he t then NEEDS_RETRIEVAL
      else DIRECT_LLM)"
  by (simp add: decide_def min_question_length_def Let_def extraction_intent extraction_intent_he names_documents_search
      list_ex_iff [of _ retrieval_patterns_he] document_patterns_he)

text \<open>The Hebrew verbs are not bounded as the English ones are: the verb ``give'' is found inside the word for
  ``possible'', so that asking whether a password can be reset is out of scope, which the comment on the
  patterns excludes.\<close>

definition reset_question_he :: ustr where
  "reset_question_he = [1492, 1488, 1501, 32, 1504, 1497, 1514, 1503, 32, 1500, 1488, 1508, 1505, 32, 1505, 1497, 1505, 1502, 1492, 63]"

lemma hebrew_verb_inside_word:
  "dr_decision (decide (\<lambda>c. 1488 \<le> c \<and> c \<le> 1514) reset_question_he) = OUT_OF_SCOPE"
proof -
  have "reset_question_he = [1492, 1488, 1501, 32, 1504, 1497] @ [1514, 1503] @ gap_text [([32], [1500, 1488, 1508, 1505])] @ [32] @ [] @
      [1505, 1497, 1505, 1502, 1492] @ [63]"
    by (simp add: reset_question_he_def gap_text_def)
  moreover have "[1514, 1503] \<in> set disclosing_verbs_he" "gap_words [([32], [1500, 1488, 1508, 1505])]" "blank [32]"
    by (simp_all add: disclosing_verbs_he_def he_def he_alphabet_def gap_words_def blank_def is_word_def py_space_def)
  moreover have "\<exists>phrase \<in> set sensitive_phrases_he. spelled phrase [1505, 1497, 1505, 1502, 1492]"
    by (simp add: sensitive_phrases_he_def he_def he_alphabet_def)
  ultimately have "asks_for_secret_he reset_question_he"
    unfolding asks_for_secret_he_def by (intro exI conjI) (assumption | simp)+
  moreover have "py_strip reset_question_he = reset_question_he" by code_simp
  moreover have "4 \<le> length reset_question_he" "reset_question_he \<noteq> []" by (simp_all add: reset_question_he_def)
  ultimately show ?thesis by (simp add: decide_def min_question_length_def extraction_intent_he)
qed

end
