(* ===== verification/Prompting.thy ===== *)
theory Prompting
  imports Decision
begin

text \<open>
  What an answer is asked for with: the language of a question (\<open>app/rag/language.py\<close>), the governed texts
  in that language (\<open>app/rag/prompts\<close>) and the prompt built from retrieved chunks
  (\<open>app/rag/prompt_builder.py\<close>).  Which code points from 128 on are alphanumeric is the argument \<open>uw\<close>, as
  for the decision layer.
\<close>

section \<open>The language of a question\<close>

datatype supported_language = HE | EN

fun language_value :: "supported_language \<Rightarrow> ustr" where
  "language_value HE = uni ''he''"
| "language_value EN = uni ''en''"

text \<open>\<open>SupportedLanguage(value)\<close>.\<close>

definition to_language :: "ustr \<Rightarrow> exn + supported_language" where
  "to_language v =
     (if v = uni ''he'' then Inr HE else if v = uni ''en'' then Inr EN
      else Inl (ValueError (py_repr v @ uni '' is not a valid SupportedLanguage'')))"

text \<open>\<open>re.findall\<close> of \<open>\w+\<close>: the maximal runs of word characters; \<open>w\<close> is the current run, reversed.\<close>

fun word_runs :: "(nat \<Rightarrow> bool) \<Rightarrow> ustr \<Rightarrow> ustr \<Rightarrow> ustr list" where
  "word_runs uw w [] = (if w = [] then [] else [rev w])"
| "word_runs uw w (c # cs) =
     (if word_char uw c then word_runs uw (c # w) cs
      else if w = [] then word_runs uw [] cs else rev w # word_runs uw [] cs)"

definition find_words :: "(nat \<Rightarrow> bool) \<Rightarrow> ustr \<Rightarrow> ustr list" where
  "find_words uw s = word_runs uw [] s"

definition hebrew_char :: "nat \<Rightarrow> bool" where
  "hebrew_char c \<longleftrightarrow> 1424 \<le> c \<and> c \<le> 1535"

definition latin_char :: "nat \<Rightarrow> bool" where
  "latin_char c \<longleftrightarrow> (65 \<le> c \<and> c \<le> 90) \<or> (97 \<le> c \<and> c \<le> 122)"

definition classify_word :: "ustr \<Rightarrow> supported_language option" where
  "classify_word w = (if list_ex hebrew_char w then Some HE else if list_ex latin_char w then Some EN else None)"

definition default_language :: "settings \<Rightarrow> exn + supported_language" where
  "default_language s = to_language (default_response_language s)"

definition count_word :: "ustr \<Rightarrow> nat \<times> nat \<Rightarrow> nat \<times> nat" where
  "count_word w hl = (case classify_word w of Some HE \<Rightarrow> (Suc (fst hl), snd hl) | Some EN \<Rightarrow> (fst hl, Suc (snd hl)) | None \<Rightarrow> hl)"

definition detect :: "(nat \<Rightarrow> bool) \<Rightarrow> settings \<Rightarrow> ustr \<Rightarrow> exn + supported_language" where
  "detect uw s txt =
     (let (hebrew, latin) = fold count_word (find_words uw txt) (0, 0) in
      if hebrew = 0 \<and> latin = 0 then default_language s
      else if latin < hebrew then Inr HE
      else if hebrew < latin then Inr EN
      else default_language s)"

section \<open>Governed texts\<close>

datatype prompt_type = GROUNDED_ANSWER | DIRECT_ANSWER | CLARIFICATION | NO_RESULTS | OUT_OF_SCOPE_PROMPT

text \<open>The \<open>repr\<close> of a member, which the messages of the catalog's errors hold.\<close>

fun prompt_type_repr :: "prompt_type \<Rightarrow> ustr" where
  "prompt_type_repr GROUNDED_ANSWER = uni ''<PromptType.GROUNDED_ANSWER: '' @ py_repr (uni ''grounded_answer'') @ uni ''>''"
| "prompt_type_repr DIRECT_ANSWER = uni ''<PromptType.DIRECT_ANSWER: '' @ py_repr (uni ''direct_answer'') @ uni ''>''"
| "prompt_type_repr CLARIFICATION = uni ''<PromptType.CLARIFICATION: '' @ py_repr (uni ''clarification'') @ uni ''>''"
| "prompt_type_repr NO_RESULTS = uni ''<PromptType.NO_RESULTS: '' @ py_repr (uni ''no_results'') @ uni ''>''"
| "prompt_type_repr OUT_OF_SCOPE_PROMPT = uni ''<PromptType.OUT_OF_SCOPE: '' @ py_repr (uni ''out_of_scope'') @ uni ''>''"

definition language_repr :: "supported_language \<Rightarrow> ustr" where
  "language_repr l = (case l of
     HE \<Rightarrow> uni ''<SupportedLanguage.HE: '' @ py_repr (uni ''he'') @ uni ''>''
   | EN \<Rightarrow> uni ''<SupportedLanguage.EN: '' @ py_repr (uni ''en'') @ uni ''>'')"

definition shared_system_instructions :: "prompt_type \<rightharpoonup> ustr" where
  "shared_system_instructions = [
     GROUNDED_ANSWER \<mapsto>
        uni ''You are a helpful assistant that answers questions using only the supplied context. Do not inve'' @
        uni ''nt or assume information that is not present in the context. If the answer is not present in th'' @
        uni ''e context, state clearly that the context does not contain enough information, instead of guess'' @
        uni ''ing. Preserve quoted source text in its original language '' @ [8212] @ uni '' never translate a quotation. Keep source titles and attribution labels (such as [S1], [S2]) in'' @
        uni ''tact and untranslated. Never translate code, API names, class names, filenames, commands, envir'' @
        uni ''onment variables, or error messages '' @ [8212] @ uni '' keep every technical identifier exactly as written, regardless of the response language.'',
     DIRECT_ANSWER \<mapsto>
        uni ''You are a helpful assistant. Answer the user's question directly. Never translate code, API nam'' @
        uni ''es, class names, filenames, commands, environment variables, or error messages '' @ [8212] @ uni '' keep every technical identifier exactly as written, regardless of the response language.'']"

definition response_language_directives :: "supported_language \<rightharpoonup> ustr" where
  "response_language_directives = [EN \<mapsto> uni ''Respond directly and naturally in English (en).'', HE \<mapsto> uni ''Respond directly and naturally in Hebrew (he).'']"

definition fixed_responses_en :: "prompt_type \<rightharpoonup> ustr" where
  "fixed_responses_en = [
     CLARIFICATION \<mapsto>
        uni ''Could you rephrase or add more detail? Your question is too short or unclear to act on.'',
     NO_RESULTS \<mapsto>
        uni ''I couldn't find any relevant information in the indexed documents to answer this question.'',
     OUT_OF_SCOPE_PROMPT \<mapsto>
        uni ''I can't help with that request.'']"

definition fixed_responses_he :: "prompt_type \<rightharpoonup> ustr" where
  "fixed_responses_he = [
     CLARIFICATION \<mapsto>
        [1514, 1493, 1499, 1500, 47, 1497, 32, 1500, 1504, 1505, 1495, 32, 1502, 1495, 1491, 1513, 32, 1488, 1493, 32, 1500, 1492, 1493,
        1505, 1497, 1507, 32, 1508, 1512, 1496, 1497, 1501, 32, 1504, 1493, 1505, 1508, 1497, 1501, 63, 32, 1492, 1513, 1488, 1500, 1492,
        32, 1511, 1510, 1512, 1492, 32, 1502, 1491, 1497, 32, 1488, 1493, 32, 1500, 1488, 32, 1489, 1512, 1493, 1512, 1492, 32, 1502,
        1505, 1508, 1497, 1511, 32, 1499, 1491, 1497, 32, 1500, 1508, 1506, 1493, 1500, 32, 1500, 1508, 1497, 1492, 46],
     NO_RESULTS \<mapsto>
        [1500, 1488, 32, 1502, 1510, 1488, 1514, 1497, 32, 1502, 1497, 1491, 1506, 32, 1512, 1500, 1493, 1493, 1504, 1496, 1497, 32, 1489,
        1502, 1505, 1502, 1499, 1497, 1501, 32, 1492, 1502, 1488, 1493, 1504, 1491, 1511, 1505, 1497, 1501, 32, 1499, 1491, 1497, 32,
        1500, 1506, 1504, 1493, 1514, 32, 1506, 1500, 32, 1513, 1488, 1500, 1492, 32, 1494, 1493, 46],
     OUT_OF_SCOPE_PROMPT \<mapsto>
        [1488, 1497, 1504, 1504, 1497, 32, 1497, 1499, 1493, 1500, 47, 1492, 32, 1500, 1505, 1497, 1497, 1506, 32, 1489, 1489, 1511, 1513,
        1492, 32, 1494, 1493, 46]]"

definition fixed_responses :: "supported_language \<rightharpoonup> prompt_type \<rightharpoonup> ustr" where
  "fixed_responses = [EN \<mapsto> fixed_responses_en, HE \<mapsto> fixed_responses_he]"


definition get_shared_instructions :: "prompt_type \<Rightarrow> exn + ustr" where
  "get_shared_instructions pt = (case shared_system_instructions pt of
     None \<Rightarrow> Inl (UnsupportedPromptTypeError (uni ''No shared system instructions for '' @ prompt_type_repr pt))
   | Some t \<Rightarrow> Inr t)"

definition get_response_language_directive :: "supported_language \<Rightarrow> exn + ustr" where
  "get_response_language_directive l = (case response_language_directives l of
     None \<Rightarrow> Inl (UnsupportedPromptLanguageError (uni ''No response-language directive for '' @ language_repr l))
   | Some t \<Rightarrow> Inr t)"

definition system_text_of :: "ustr \<Rightarrow> ustr \<Rightarrow> ustr" where
  "system_text_of shared directive = shared @ [10, 10] @ directive"

definition get_system_text :: "prompt_type \<Rightarrow> supported_language \<Rightarrow> exn + ustr" where
  "get_system_text pt l = (case get_shared_instructions pt of
     Inl e \<Rightarrow> Inl e
   | Inr shared \<Rightarrow> (case get_response_language_directive l of
         Inl e \<Rightarrow> Inl e
       | Inr directive \<Rightarrow> Inr (system_text_of shared directive)))"

definition get_response_text :: "prompt_type \<Rightarrow> supported_language \<Rightarrow> exn + ustr" where
  "get_response_text pt l = (case fixed_responses l of
     None \<Rightarrow> Inl (UnsupportedPromptLanguageError (uni ''No prompt content for language '' @ language_repr l))
   | Some content \<Rightarrow> (case content pt of
         None \<Rightarrow> Inl (UnsupportedPromptTypeError
           (uni ''No '' @ prompt_type_repr pt @ uni '' prompt content for language '' @ language_repr l))
       | Some t \<Rightarrow> Inr t))"

record resolved_prompt =
  rp_prompt_type :: prompt_type
  rp_language :: supported_language
  rp_prompt_version :: ustr
  rp_system_text :: "ustr option"
  rp_response_text :: "ustr option"
  rp_shared_instructions :: "ustr option"
  rp_language_directive :: "ustr option"

definition check_resolved :: "resolved_prompt \<Rightarrow> exn + resolved_prompt" where
  "check_resolved rp =
     (let has_system = rp_system_text rp \<noteq> None; has_response = rp_response_text rp \<noteq> None in
      if has_system = has_response then
        Inl (ValueError (uni ''ResolvedPrompt must set exactly one of system_text/response_text''))
      else if has_system \<noteq> (rp_shared_instructions rp \<noteq> None) then
        Inl (ValueError (uni ''shared_instructions must be set if and only if system_text is set''))
      else if has_system \<noteq> (rp_language_directive rp \<noteq> None) then
        Inl (ValueError (uni ''language_directive must be set if and only if system_text is set''))
      else Inr rp)"

definition fixed_response_types :: "prompt_type set" where
  "fixed_response_types = {CLARIFICATION, NO_RESULTS, OUT_OF_SCOPE_PROMPT}"

definition resolve_prompt :: "(nat \<Rightarrow> bool) \<Rightarrow> settings \<Rightarrow> prompt_type \<Rightarrow> ustr \<Rightarrow> exn + resolved_prompt" where
  "resolve_prompt uw s pt question =
     (case detect uw s question of
        Inl e \<Rightarrow> Inl e
      | Inr l \<Rightarrow>
          if pt \<in> fixed_response_types then
            (case get_response_text pt l of
               Inl e \<Rightarrow> Inl e
             | Inr t \<Rightarrow> check_resolved
                 \<lparr>rp_prompt_type = pt, rp_language = l, rp_prompt_version = prompt_catalog_version s, rp_system_text = None,
                  rp_response_text = Some t, rp_shared_instructions = None, rp_language_directive = None\<rparr>)
          else (case get_shared_instructions pt of
              Inl e \<Rightarrow> Inl e
            | Inr shared \<Rightarrow> (case get_response_language_directive l of
                Inl e \<Rightarrow> Inl e
              | Inr directive \<Rightarrow> check_resolved
                  \<lparr>rp_prompt_type = pt, rp_language = l, rp_prompt_version = prompt_catalog_version s,
                   rp_system_text = Some (system_text_of shared directive), rp_response_text = None,
                   rp_shared_instructions = Some shared, rp_language_directive = Some directive\<rparr>)))"

section \<open>The prompt of retrieved chunks\<close>

definition rag_system_prompt :: ustr where
  "rag_system_prompt =
     uni ''You are a helpful assistant that answers questions using only the supplied context. '' @
     uni ''Do not invent or assume information that is not present in the context. If the answer is '' @
     uni ''not present in the context, say so explicitly instead of guessing.''"

definition no_results_context :: ustr where
  "no_results_context = uni ''No relevant context was found for this question.''"

record prompt_source =
  ps_document_id :: ustr
  ps_chunk_id :: ustr
  ps_source :: ustr
  ps_score :: rat
  ps_page_number :: "nat option"
  ps_sheet_name :: "ustr option"

record built_prompt =
  bp_system_prompt :: ustr
  bp_user_prompt :: ustr
  bp_context :: ustr
  bp_sources :: "prompt_source list"

definition to_prompt_source :: "search_result \<Rightarrow> prompt_source" where
  "to_prompt_source r =
     \<lparr>ps_document_id = sr_document_id r, ps_chunk_id = sr_chunk_id r, ps_source = sr_source r, ps_score = sr_score r,
      ps_page_number = sr_page_number r, ps_sheet_name = sr_sheet_name r\<rparr>"

definition format_source_block :: "ustr \<Rightarrow> search_result \<Rightarrow> ustr" where
  "format_source_block label r =
     join [32] ([label, sr_source r] @
       (case sr_page_number r of None \<Rightarrow> [] | Some n \<Rightarrow> [uni ''page '' @ dec n]) @
       (case sr_sheet_name r of None \<Rightarrow> [] | Some n \<Rightarrow> [uni ''sheet '' @ n])) @ [10] @ sr_text r"

definition rag_user_prompt :: "ustr \<Rightarrow> ustr \<Rightarrow> ustr" where
  "rag_user_prompt question context_text =
     uni ''Context:'' @ [10] @ context_text @ [10, 10] @ uni ''Question: '' @ question @ [10, 10] @
     uni ''Answer using only the context above. If the answer isn't in the context, say so.''"

definition source_label :: "nat \<Rightarrow> ustr" where
  "source_label i = uni ''[S'' @ dec i @ uni '']''"

definition non_empty_results :: "search_result list \<Rightarrow> search_result list" where
  "non_empty_results rs = filter (\<lambda>r. py_strip (sr_text r) \<noteq> []) rs"

definition build_prompt :: "ustr \<Rightarrow> search_result list \<Rightarrow> built_prompt" where
  "build_prompt question results =
     (let non_empty = non_empty_results results in
      if non_empty = [] then
        \<lparr>bp_system_prompt = rag_system_prompt, bp_user_prompt = rag_user_prompt question no_results_context,
         bp_context = no_results_context, bp_sources = []\<rparr>
      else
        let context_text = join [10, 10] (map (\<lambda>(i, r). format_source_block (source_label i) r) (zip [1..<Suc (length non_empty)] non_empty)) in
        \<lparr>bp_system_prompt = rag_system_prompt, bp_user_prompt = rag_user_prompt question context_text,
         bp_context = context_text, bp_sources = map to_prompt_source non_empty\<rparr>)"

section \<open>Properties\<close>

definition words_in :: "supported_language \<Rightarrow> (nat \<Rightarrow> bool) \<Rightarrow> ustr \<Rightarrow> nat" where
  "words_in l uw txt = length (filter (\<lambda>w. classify_word w = Some l) (find_words uw txt))"

lemma fold_count: "fold count_word ws (h, l) =
    (h + length (filter (\<lambda>w. classify_word w = Some HE) ws), l + length (filter (\<lambda>w. classify_word w = Some EN) ws))"
  by (induction ws arbitrary: h l) (auto simp: count_word_def split: option.splits supported_language.splits)

lemma detect_words: "detect uw s txt =
    (if words_in EN uw txt < words_in HE uw txt then Inr HE
     else if words_in HE uw txt < words_in EN uw txt then Inr EN else default_language s)"
  by (auto simp: detect_def fold_count words_in_def)

lemma default_language_ok: "new_settings sf s = Inr s' \<Longrightarrow> \<exists>l. default_language s = Inr l"
  using validated_fields(10) [of sf s s'] by (auto simp: default_language_def to_language_def)

lemma detect_ok: "new_settings sf s = Inr s' \<Longrightarrow> \<exists>l. detect uw s txt = Inr l"
  using default_language_ok by (simp add: detect_words)

lemma catalog_complete:
  "\<exists>t. get_response_language_directive l = Inr t"
  "pt \<in> fixed_response_types \<Longrightarrow> \<exists>t. get_response_text pt l = Inr t \<and> t \<noteq> []"
  "pt \<notin> fixed_response_types \<Longrightarrow> \<exists>t. get_shared_instructions pt = Inr t"
proof -
  show "\<exists>t. get_response_language_directive l = Inr t"
    by (cases l) (simp_all add: get_response_language_directive_def response_language_directives_def)
  show "\<exists>t. get_response_text pt l = Inr t \<and> t \<noteq> []" if "pt \<in> fixed_response_types"
    using that by (cases l; cases pt)
      (simp_all add: get_response_text_def fixed_responses_def fixed_responses_en_def fixed_responses_he_def fixed_response_types_def)
  show "\<exists>t. get_shared_instructions pt = Inr t" if "pt \<notin> fixed_response_types"
    using that by (cases pt) (simp_all add: get_shared_instructions_def shared_system_instructions_def fixed_response_types_def)
qed

lemma resolve_fixed:
  assumes "detect uw s question = Inr l" "pt \<in> fixed_response_types"
  obtains t where "get_response_text pt l = Inr t" "t \<noteq> []"
    "resolve_prompt uw s pt question = Inr \<lparr>rp_prompt_type = pt, rp_language = l, rp_prompt_version = prompt_catalog_version s,
       rp_system_text = None, rp_response_text = Some t, rp_shared_instructions = None, rp_language_directive = None\<rparr>"
  using catalog_complete(2) [OF assms(2), of l] assms by (auto simp: resolve_prompt_def check_resolved_def)

lemma resolve_generated:
  assumes "detect uw s question = Inr l" "pt \<notin> fixed_response_types"
  obtains t d where "get_shared_instructions pt = Inr t" "get_response_language_directive l = Inr d"
    "resolve_prompt uw s pt question = Inr \<lparr>rp_prompt_type = pt, rp_language = l, rp_prompt_version = prompt_catalog_version s,
       rp_system_text = Some (system_text_of t d), rp_response_text = None, rp_shared_instructions = Some t,
       rp_language_directive = Some d\<rparr>"
  using catalog_complete(1) [of l] catalog_complete(3) [OF assms(2)] assms by (auto simp: resolve_prompt_def check_resolved_def)

text \<open>What each text must be: the fixed answers, the Hebrew ones transliterated, and the directive, which names the
  language.  A text is written in a language when it has letters of it and none of the other.\<close>

definition he_text :: "string \<Rightarrow> ustr" where
  "he_text t = map (\<lambda>c. if c \<in> set he_alphabet then 1488 + length (takeWhile ((\<noteq>) c) he_alphabet) else of_char c) t"

fun reply :: "supported_language \<Rightarrow> prompt_type \<Rightarrow> ustr option" where
  "reply EN CLARIFICATION = Some (uni ''Could you rephrase or add more detail? Your question is too short or unclear to act on.'')"
| "reply EN NO_RESULTS = Some (uni ''I couldn't find any relevant information in the indexed documents to answer this question.'')"
| "reply EN OUT_OF_SCOPE_PROMPT = Some (uni ''I can't help with that request.'')"
| "reply HE CLARIFICATION = Some (he_text ''tvkl/y lnsH mHdS av lhvsyP prTyM nvspyM? hSalh qcrh mdy av la brvrh mspyq kdy lpevl lpyh.'')"
| "reply HE NO_RESULTS = Some (he_text ''la mcaty myde rlvvnTy bmsmkyM hmavndqsyM kdy lenvt el Salh zv.'')"
| "reply HE OUT_OF_SCOPE_PROMPT = Some (he_text ''aynny ykvl/h lsyye bbqSh zv.'')"
| "reply l pt = None"

fun language_name :: "supported_language \<Rightarrow> string" where
  "language_name HE = ''Hebrew''"
| "language_name EN = ''English''"

definition directive_in :: "supported_language \<Rightarrow> ustr" where
  "directive_in l = uni ''Respond directly and naturally in '' @ uni (language_name l) @ uni '' ('' @ language_value l @ uni '').''"

definition written_in :: "supported_language \<Rightarrow> ustr \<Rightarrow> bool" where
  "written_in l t \<longleftrightarrow> (case l of HE \<Rightarrow> list_ex hebrew_char t \<and> \<not> list_ex latin_char t | EN \<Rightarrow> list_ex latin_char t \<and> \<not> list_ex hebrew_char t)"

lemma reply_catalog: "pt \<in> fixed_response_types \<Longrightarrow> \<exists>t. get_response_text pt l = Inr t \<and> reply l pt = Some t \<and> written_in l t"
  by (cases l; cases pt)
    (simp_all add: get_response_text_def fixed_responses_def fixed_responses_en_def fixed_responses_he_def fixed_response_types_def
      he_text_def he_alphabet_def written_in_def hebrew_char_def latin_char_def uni_def)

lemma reply_none: "pt \<notin> fixed_response_types \<Longrightarrow> reply l pt = None"
  by (cases l; cases pt) (simp_all add: fixed_response_types_def)

lemma directive_catalog: "get_response_language_directive l = Inr (directive_in l)"
  by (cases l) (simp_all add: get_response_language_directive_def response_language_directives_def directive_in_def uni_def)

lemma grounded_instructions:
  "get_shared_instructions GROUNDED_ANSWER = Inr t \<Longrightarrow> \<exists>before after. t = before @ uni ''using only the supplied context'' @ after"
proof -
  assume "get_shared_instructions GROUNDED_ANSWER = Inr t"
  then have t: "shared_system_instructions GROUNDED_ANSWER = Some t" by (auto simp: get_shared_instructions_def split: option.splits)
  have "\<exists>after. shared_system_instructions GROUNDED_ANSWER =
      Some ((uni ''You are a helpful assistant that answers questions '' @ uni ''using only the supplied context'') @ after)"
    by (simp add: shared_system_instructions_def uni_append [symmetric]) (simp add: uni_def)
  with t show ?thesis by auto
qed

text \<open>C34: With validated settings every question and every prompt type has a resolved prompt in one language, the one
  that most of the words of the question with letters are in, and the configured default when neither language has the
  majority.  The types that never reach the model get exactly their fixed answer in that language, a text with letters
  of that language and none of the other.  The others get no fixed answer but a system text: the shared instructions of
  their type, which for grounded answers demand to use only the supplied context, followed by the directive that names
  that language.\<close>

theorem resolve_well_formed:
  assumes "new_settings str_float s = Inr s'"
  shows "\<exists>rp l. resolve_prompt uw s pt question = Inr rp \<and> rp_prompt_type rp = pt \<and> rp_language rp = l \<and>
    (words_in EN uw question < words_in HE uw question \<longrightarrow> l = HE) \<and>
    (words_in HE uw question < words_in EN uw question \<longrightarrow> l = EN) \<and>
    (words_in HE uw question = words_in EN uw question \<longrightarrow> language_value l = default_response_language s) \<and>
    rp_response_text rp = reply l pt \<and>
    (if pt \<in> fixed_response_types
     then (\<exists>t. rp_response_text rp = Some t \<and> written_in l t) \<and>
       rp_system_text rp = None \<and> rp_shared_instructions rp = None \<and> rp_language_directive rp = None
     else \<exists>t. shared_system_instructions pt = Some t \<and> rp_shared_instructions rp = Some t \<and>
       rp_language_directive rp = Some (directive_in l) \<and> rp_system_text rp = Some (t @ [10, 10] @ directive_in l) \<and>
       (pt = GROUNDED_ANSWER \<longrightarrow> (\<exists>before after. t = before @ uni ''using only the supplied context'' @ after)))"
proof -
  obtain l where l: "detect uw s question = Inr l" using detect_ok [OF assms] by blast
  have maj: "(words_in EN uw question < words_in HE uw question \<longrightarrow> l = HE) \<and>
      (words_in HE uw question < words_in EN uw question \<longrightarrow> l = EN) \<and>
      (words_in HE uw question = words_in EN uw question \<longrightarrow> language_value l = default_response_language s)"
    using l by (auto simp: detect_words default_language_def to_language_def split: if_splits)
  show ?thesis
  proof (cases "pt \<in> fixed_response_types")
    case True
    obtain t where "get_response_text pt l = Inr t" "resolve_prompt uw s pt question = Inr \<lparr>rp_prompt_type = pt, rp_language = l,
        rp_prompt_version = prompt_catalog_version s, rp_system_text = None, rp_response_text = Some t,
        rp_shared_instructions = None, rp_language_directive = None\<rparr>" by (rule resolve_fixed [OF l True])
    with reply_catalog [OF True, of l] show ?thesis using True maj by auto
  next
    case False
    obtain t d where r: "get_shared_instructions pt = Inr t" "get_response_language_directive l = Inr d"
      "resolve_prompt uw s pt question = Inr \<lparr>rp_prompt_type = pt, rp_language = l,
        rp_prompt_version = prompt_catalog_version s, rp_system_text = Some (system_text_of t d), rp_response_text = None,
        rp_shared_instructions = Some t, rp_language_directive = Some d\<rparr>" by (rule resolve_generated [OF l False])
    have d: "d = directive_in l" and t: "shared_system_instructions pt = Some t"
      using r(1,2) directive_catalog [of l] by (auto simp: get_shared_instructions_def split: option.splits)
    have "pt = GROUNDED_ANSWER \<longrightarrow> (\<exists>before after. t = before @ uni ''using only the supplied context'' @ after)"
      using grounded_instructions r(1) by blast
    with r(3) False maj d t reply_none [OF False] show ?thesis by (simp add: system_text_of_def)
  qed
qed

theorem resolve_well_formed_witness:
  "(\<exists>rp. resolve_prompt (\<lambda>_. True) default_settings NO_RESULTS (uni ''a S1 '' @ [1513, 1500]) = Inr rp \<and> rp_language rp = EN \<and>
     rp_response_text rp = Some (uni ''I couldn't find any relevant information in the indexed documents to answer this question.'')) \<and>
   (\<exists>rp. resolve_prompt (\<lambda>_. True) default_settings OUT_OF_SCOPE_PROMPT (he ''SlvM'') = Inr rp \<and> rp_language rp = HE \<and>
     rp_response_text rp = Some (he_text ''aynny ykvl/h lsyye bbqSh zv.''))"
proof -
  have words: "words_in HE (\<lambda>_. True) (uni ''a S1 '' @ [1513, 1500]) = 1" "words_in EN (\<lambda>_. True) (uni ''a S1 '' @ [1513, 1500]) = 2"
      "words_in HE (\<lambda>_. True) (he ''SlvM'') = 1" "words_in EN (\<lambda>_. True) (he ''SlvM'') = 0"
    by (simp_all add: words_in_def find_words_def word_char_def classify_word_def hebrew_char_def latin_char_def uni_def py_space_def
        he_def he_alphabet_def)
  from resolve_well_formed [OF default_settings_valid, of "\<lambda>_. True" NO_RESULTS "uni ''a S1 '' @ [1513, 1500]"]
    resolve_well_formed [OF default_settings_valid, of "\<lambda>_. True" OUT_OF_SCOPE_PROMPT "he ''SlvM''"] words
  show ?thesis by auto
qed

end
