(* ===== verification/Answering.thy ===== *)
theory Answering
  imports Prompting Providers Cursor_Text World
begin

text \<open>
  Answering a question: retrieval (\<open>app/rag/retrieval_service.py\<close>), the streaming language model provider
  and its selection (\<open>app/rag/providers\<close>) and the orchestrator (\<open>app/rag/orchestrator.py\<close>).  An asynchronous
  generator is what it yields, the exception that ends it if one does, and the state it leaves.  The HTTP
  clients are parameters; of a streaming response the status, the lines and the failure after them are kept.
\<close>

record ('e, 'v, 'l) rag_state =
  rs_embedder :: 'e
  rs_index :: 'v
  rs_llm :: 'l

type_synonym ('s, 'a) stream = "'s \<Rightarrow> 'a list \<times> exn option \<times> 's"

definition at_embedder :: "('e, exn, 'a) call \<Rightarrow> (('e, 'v, 'l) rag_state, exn, 'a) call" where
  "at_embedder c st = (case c (rs_embedder st) of (r, x) \<Rightarrow> (r, st\<lparr>rs_embedder := x\<rparr>))"

definition at_index :: "('v, exn, 'a) call \<Rightarrow> (('e, 'v, 'l) rag_state, exn, 'a) call" where
  "at_index c st = (case c (rs_index st) of (r, x) \<Rightarrow> (r, st\<lparr>rs_index := x\<rparr>))"

section \<open>The language model provider\<close>

record llm_response =
  lr_status :: nat
  lr_lines :: "ustr list"
  lr_failure :: "raw_exn option"

type_synonym 'l llm_http = "ustr \<Rightarrow> json \<Rightarrow> ('l, raw_exn, llm_response) call"

definition generate_body :: "settings \<Rightarrow> ustr \<Rightarrow> json" where
  "generate_body s prompt =
     JObj [(uni ''model'', JStr (resolved_llm_model s)), (uni ''prompt'', JStr prompt), (uni ''stream'', JBool True)]"

text \<open>A number literal that is read as zero: its digits are, or its value rounds to the float \<open>0.0\<close>, that is, is at most
  \<open>2 ^ -1075\<close>.\<close>

definition digits_value :: "ustr \<Rightarrow> nat" where
  "digits_value t = foldl (\<lambda>n c. 10 * n + (c - 48)) 0 (filter digit_char t)"

definition reads_zero :: "ustr \<Rightarrow> bool" where
  "reads_zero t =
     (let mantissa = takeWhile (\<lambda>c. c \<noteq> 101 \<and> c \<noteq> 69) t;
          exponent = drop (Suc (length mantissa)) t;
          fraction = drop (Suc (length (takeWhile (\<lambda>c. c \<noteq> 46) mantissa))) mantissa;
          n = digits_value mantissa * 2 ^ 1075 in
      if take 1 exponent = [45] then n \<le> 10 ^ (length fraction + digits_value exponent)
      else n * 10 ^ digits_value exponent \<le> 10 ^ length fraction)"

text \<open>The truth value of a parsed JSON value.\<close>

fun truthy :: "payload \<Rightarrow> bool" where
  "truthy (PString t) = (t \<noteq> [])"
| "truthy (PObject kvs) = (kvs \<noteq> [])"
| "truthy (PArray vs) = (vs \<noteq> [])"
| "truthy (PLiteral t) =
     (t \<noteq> uni ''null'' \<and> t \<noteq> uni ''false'' \<and> (t \<noteq> [] \<and> (digit_char (hd t) \<or> hd t = 45) \<longrightarrow> t = uni ''-Infinity'' \<or> \<not> reads_zero t))"

lemma numbers_read_zero:
  "\<not> truthy (PLiteral (uni ''0''))" "\<not> truthy (PLiteral (uni ''-0.00e7''))" "\<not> truthy (PLiteral (uni ''1e-400''))"
  "truthy (PLiteral (uni ''10''))" "truthy (PLiteral (uni ''0.001''))" "truthy (PLiteral (uni ''2e-300''))"
  by (simp_all add: reads_zero_def digits_value_def digit_char_def uni_def Let_def)

definition payload_field :: "(ustr \<times> payload) list \<Rightarrow> string \<Rightarrow> payload option" where
  "payload_field kvs k = map_of (rev kvs) (uni k)"

definition is_set :: "payload option \<Rightarrow> bool" where
  "is_set v = (case v of None \<Rightarrow> False | Some x \<Rightarrow> truthy x)"

definition llm_failure :: "raw_exn \<Rightarrow> exn" where
  "llm_failure e = (if is_http_error e then OllamaLLMError (uni ''Ollama unreachable at /api/generate: '' @ raw_text e) else raw_to_exn e)"

definition stream_ended :: exn where
  "stream_ended = OllamaLLMError (uni ''Ollama stream ended before done=true'')"

fun read_stream :: "ustr list \<Rightarrow> raw_exn option \<Rightarrow> payload list \<times> exn option" where
  "read_stream [] failure = ([], Some (case failure of None \<Rightarrow> stream_ended | Some e \<Rightarrow> llm_failure e))"
| "read_stream (line # lines) failure =
     (if py_strip line = [] then read_stream lines failure
      else (case json_loads line of
          None \<Rightarrow> ([], Some (OllamaLLMError (uni ''Malformed JSON line from Ollama: '' @ py_repr line)))
        | Some (PObject kvs) \<Rightarrow>
            let chunk = payload_field kvs ''response'';
                now = (if is_set chunk then [the chunk] else []) in
            if is_set (payload_field kvs ''done'') then (now, None)
            else (case read_stream lines failure of (later, e) \<Rightarrow> (now @ later, e))
        | Some _ \<Rightarrow> ([], Some (LibraryError (uni ''AttributeError'')))))"

definition stream_generate :: "'l llm_http \<Rightarrow> settings \<Rightarrow> ustr \<Rightarrow> ('l, payload) stream" where
  "stream_generate http s prompt st =
     (if prompt = [] \<or> py_strip prompt = [] then ([], Some (ValueError (uni ''prompt must not be empty'')), st)
      else (case http (uni ''/api/generate'') (generate_body s prompt) st of
          (Inl e, st') \<Rightarrow> ([], Some (llm_failure e), st')
        | (Inr r, st') \<Rightarrow>
            if lr_status r < 200 \<or> 300 \<le> lr_status r then
              ([], Some (OllamaLLMError (uni ''Ollama returned '' @ dec (lr_status r) @ uni '' for /api/generate'')), st')
            else (case read_stream (lr_lines r) (lr_failure r) of (cs, e) \<Rightarrow> (cs, e, st'))))"

text \<open>\<open>''''.join\<close> raises on an item that is no string.\<close>

fun join_texts :: "payload list \<Rightarrow> exn + ustr" where
  "join_texts [] = Inr []"
| "join_texts (PString t # cs) = (case join_texts cs of Inl e \<Rightarrow> Inl e | Inr r \<Rightarrow> Inr (t @ r))"
| "join_texts (_ # cs) = Inl (LibraryError (uni ''TypeError''))"

definition llm_generate :: "'l llm_http \<Rightarrow> settings \<Rightarrow> ustr \<Rightarrow> ('l, exn, ustr) call" where
  "llm_generate http s prompt st = (case stream_generate http s prompt st of
     (cs, Some e, st') \<Rightarrow> (Inl e, st') | (cs, None, st') \<Rightarrow> (join_texts cs, st'))"

definition llm_stubs :: "(ustr \<times> ustr) list" where
  "llm_stubs = [(uni ''openai'', uni ''OpenAI provider is not implemented yet.''),
     (uni ''gemini'', uni ''Gemini provider is not implemented yet.''),
     (uni ''anthropic'', uni ''Anthropic provider is not implemented yet.'')]"

definition get_llm_provider :: "(settings \<Rightarrow> 'p) \<Rightarrow> settings \<Rightarrow> exn + 'p" where
  "get_llm_provider ollama_provider s =
     (if llm_provider s = uni ''ollama'' then Inr (ollama_provider s)
      else (case map_of llm_stubs (llm_provider s) of
          Some m \<Rightarrow> Inl (ProviderNotImplementedError m)
        | None \<Rightarrow> Inl (UnsupportedProviderError (uni ''Unsupported LLM_PROVIDER: '' @ py_repr (llm_provider s) @
            uni ''. Supported providers: '' @ py_repr (uni ''ollama'') @ uni ''. Recognized but not implemented: '' @
            join (uni '', '') (sort (map fst llm_stubs)) @ uni ''.''))))"

section \<open>Retrieval\<close>

record ('e, 'v, 'l) rag_clients =
  rc_embedder :: "settings \<Rightarrow> 'e embedder"
  rc_store :: "settings \<Rightarrow> 'v vector_store"
  rc_llm :: "settings \<Rightarrow> 'l llm_http"

definition above_threshold :: "settings \<Rightarrow> search_result list \<Rightarrow> search_result list" where
  "above_threshold s results =
     (case retrieval_score_threshold s of None \<Rightarrow> results | Some t \<Rightarrow> filter (\<lambda>r. t \<le> sr_score r) results)"

definition retrieve :: "('e, 'v, 'l) rag_clients \<Rightarrow> settings \<Rightarrow> ustr \<Rightarrow> int option \<Rightarrow>
    (('e, 'v, 'l) rag_state, exn, search_result list) call" where
  "retrieve rc s query limit =
     (if query = [] \<or> py_strip query = [] then call_raise EmptyQueryError
      else
        let top_k = (case limit of Some n \<Rightarrow> n | None \<Rightarrow> retrieval_top_k s) in
        call_bind (call_lift (get_active_embedding_config s)) (\<lambda>active_config.
        call_bind (call_lift (get_embedding_provider (rc_embedder rc) s)) (\<lambda>embed.
        call_bind (at_embedder (embed [query])) (\<lambda>query_vectors.
        call_bind (call_lift (validate_embeddings query_vectors 1 (cfg_dimension active_config))) (\<lambda>_.
        call_bind (call_lift (get_vector_store (rc_store rc) s)) (\<lambda>store.
        call_bind (at_index (vs_search_similar store (config_collection_name active_config) (query_vectors ! 0) top_k)) (\<lambda>results.
        call_return (above_threshold s results))))))))"

section \<open>The orchestrator\<close>

record orchestrator_metadata =
  om_decision :: rag_decision
  om_reason :: ustr
  om_retrieval_used :: bool
  om_sources :: "prompt_source list"

datatype rag_event = Metadata orchestrator_metadata | Token payload

definition orchestrator_metadata_of :: "decision_result \<Rightarrow> bool \<Rightarrow> prompt_source list \<Rightarrow> rag_event" where
  "orchestrator_metadata_of dr used sources = Metadata
     \<lparr>om_decision = dr_decision dr, om_reason = dr_reason dr, om_retrieval_used = used, om_sources = sources\<rparr>"

definition fixed_answer :: "(nat \<Rightarrow> bool) \<Rightarrow> settings \<Rightarrow> decision_result \<Rightarrow> bool \<Rightarrow> prompt_type \<Rightarrow> ustr \<Rightarrow> ('s, rag_event) stream" where
  "fixed_answer uw s dr used pt question st =
     (case resolve_prompt uw s pt question of
        Inl e \<Rightarrow> ([], Some e, st)
      | Inr rp \<Rightarrow> ([orchestrator_metadata_of dr used [],
          Token (PString (case rp_response_text rp of None \<Rightarrow> [] | Some t \<Rightarrow> t))], None, st))"

definition formatted :: "ustr option \<Rightarrow> ustr" where
  "formatted t = (case t of None \<Rightarrow> uni ''None'' | Some x \<Rightarrow> x)"

definition stream_tokens :: "('e, 'v, 'l) rag_clients \<Rightarrow> settings \<Rightarrow> rag_event \<Rightarrow> ustr \<Rightarrow> (('e, 'v, 'l) rag_state, rag_event) stream" where
  "stream_tokens rc s metadata prompt st =
     (case get_llm_provider (rc_llm rc) s of
        Inl e \<Rightarrow> ([metadata], Some e, st)
      | Inr http \<Rightarrow> (case stream_generate http s prompt (rs_llm st) of
            (cs, e, l) \<Rightarrow> (metadata # map Token cs, e, st\<lparr>rs_llm := l\<rparr>)))"

definition orchestrate :: "(nat \<Rightarrow> bool) \<Rightarrow> ('e, 'v, 'l) rag_clients \<Rightarrow> settings \<Rightarrow> ustr \<Rightarrow>
    (('e, 'v, 'l) rag_state, rag_event) stream" where
  "orchestrate uw rc s question st =
     (let dr = decide uw question in
      case dr_decision dr of
        CLARIFICATION_NEEDED \<Rightarrow> fixed_answer uw s dr False CLARIFICATION question st
      | OUT_OF_SCOPE \<Rightarrow> fixed_answer uw s dr False OUT_OF_SCOPE_PROMPT question st
      | NEEDS_RETRIEVAL \<Rightarrow>
          (case retrieve rc s question None st of
             (Inl e, st1) \<Rightarrow> ([], Some e, st1)
           | (Inr results, st1) \<Rightarrow>
               let built = build_prompt question results in
               if bp_sources built = [] then fixed_answer uw s dr True NO_RESULTS question st1
               else (case resolve_prompt uw s GROUNDED_ANSWER question of
                   Inl e \<Rightarrow> ([], Some e, st1)
                 | Inr rp \<Rightarrow> stream_tokens rc s (orchestrator_metadata_of dr True (bp_sources built))
                     (formatted (rp_system_text rp) @ [10, 10] @ bp_user_prompt built) st1))
      | DIRECT_LLM \<Rightarrow>
          (case resolve_prompt uw s DIRECT_ANSWER question of
             Inl e \<Rightarrow> ([], Some e, st)
           | Inr rp \<Rightarrow> stream_tokens rc s (orchestrator_metadata_of dr False [])
               (formatted (rp_system_text rp) @ [10, 10] @ uni ''Question: '' @ question) st))"

section \<open>Properties of the stream\<close>

text \<open>What a sequence of lines delivers: the truthy \<open>response\<close> fields of its objects, blank lines skipped.\<close>

fun line_object :: "ustr \<Rightarrow> (ustr \<times> payload) list option" where
  "line_object l = (case json_loads l of Some (PObject kvs) \<Rightarrow> Some kvs | _ \<Rightarrow> None)"

definition line_chunks :: "ustr \<Rightarrow> payload list" where
  "line_chunks l = (if py_strip l = [] then [] else (case line_object l of
     Some kvs \<Rightarrow> if is_set (payload_field kvs ''response'') then [the (payload_field kvs ''response'')] else []
   | None \<Rightarrow> []))"

definition done_line :: "ustr \<Rightarrow> bool" where
  "done_line l \<longleftrightarrow> py_strip l \<noteq> [] \<and> (\<exists>kvs. line_object l = Some kvs \<and> is_set (payload_field kvs ''done''))"

definition readable_line :: "ustr \<Rightarrow> bool" where
  "readable_line l \<longleftrightarrow> py_strip l = [] \<or> line_object l \<noteq> None"

lemma read_stream_line:
  "py_strip l = [] \<Longrightarrow> read_stream (l # ls) f = read_stream ls f"
  "py_strip l \<noteq> [] \<Longrightarrow> line_object l = Some kvs \<Longrightarrow> read_stream (l # ls) f =
     (if done_line l then (line_chunks l, None) else (case read_stream ls f of (later, e) \<Rightarrow> (line_chunks l @ later, e)))"
  "py_strip l \<noteq> [] \<Longrightarrow> line_object l = None \<Longrightarrow> fst (read_stream (l # ls) f) = [] \<and> snd (read_stream (l # ls) f) \<noteq> None"
  by (auto simp: done_line_def line_chunks_def Let_def split: option.splits payload.splits prod.splits)

lemma read_stream_complete: "read_stream ls f = (cs, None) \<longleftrightarrow>
    (\<exists>pre d post. ls = pre @ d # post \<and> (\<forall>l \<in> set pre. readable_line l \<and> \<not> done_line l) \<and> done_line d \<and>
       cs = concat (map line_chunks (pre @ [d])))"
proof (induction ls arbitrary: cs)
  case Nil
  then show ?case by simp
next
  case (Cons l ls)
  let ?R = "\<lambda>ls cs. \<exists>pre d post. ls = pre @ d # post \<and> (\<forall>l \<in> set pre. readable_line l \<and> \<not> done_line l) \<and> done_line d \<and>
       cs = concat (map line_chunks (pre @ [d]))"
  have step: "?R (l # ls) cs \<longleftrightarrow> done_line l \<and> cs = line_chunks l \<or>
      readable_line l \<and> \<not> done_line l \<and> (\<exists>later. cs = line_chunks l @ later \<and> ?R ls later)"
  proof (intro iffI; (elim exE conjE disjE)?)
    fix pre d post assume r: "l # ls = pre @ d # post" "\<forall>l \<in> set pre. readable_line l \<and> \<not> done_line l" "done_line d"
      "cs = concat (map line_chunks (pre @ [d]))"
    show "done_line l \<and> cs = line_chunks l \<or> readable_line l \<and> \<not> done_line l \<and> (\<exists>later. cs = line_chunks l @ later \<and> ?R ls later)"
    proof (cases pre)
      case Nil
      with r show ?thesis by simp
    next
      case (Cons x pre')
      with r have "?R ls (concat (map line_chunks (pre' @ [d])))" by auto
      with r Cons show ?thesis by auto
    qed
  next
    assume "done_line l" "cs = line_chunks l"
    then show "?R (l # ls) cs" by (intro exI [of _ "[]"] exI [of _ l] exI [of _ ls]) simp
  next
    fix later pre d post assume "readable_line l" "\<not> done_line l" "cs = line_chunks l @ later" "ls = pre @ d # post"
      "\<forall>l \<in> set pre. readable_line l \<and> \<not> done_line l" "done_line d" "later = concat (map line_chunks (pre @ [d]))"
    then show "?R (l # ls) cs" by (intro exI [of _ "l # pre"] exI [of _ d] exI [of _ post]) simp
  qed
  consider "py_strip l = []" | kvs where "py_strip l \<noteq> []" "line_object l = Some kvs" | "py_strip l \<noteq> []" "line_object l = None"
    by (cases "line_object l") auto
  then show ?case
  proof cases
    case 1
    then have "\<not> done_line l" "readable_line l" "line_chunks l = []" by (simp_all add: done_line_def readable_line_def line_chunks_def)
    then show ?thesis unfolding read_stream_line(1) [OF 1] step Cons.IH by simp
  next
    case 2
    then have "readable_line l" by (simp add: readable_line_def)
    then show ?thesis unfolding read_stream_line(2) [OF 2] step Cons.IH [symmetric] by (auto split: prod.split)
  next
    case 3
    then have "\<not> done_line l" "\<not> readable_line l" by (auto simp: done_line_def readable_line_def)
    then show ?thesis using read_stream_line(3) [OF 3, of ls f] unfolding step by auto
  qed
qed


text \<open>C17: The provider never passes a truncated stream off as an answer: a stream ends without an error
  exactly when the response was successful, every line up to one that says it is done was blank or a JSON
  object, and what was yielded are the response texts of those lines, in order.  A stream that breaks off, a
  malformed line, an error status or a failed request ends in an exception.\<close>

theorem llm_stream_complete:
  "stream_generate http s prompt st = (cs, None, st') \<longleftrightarrow>
     py_strip prompt \<noteq> [] \<and>
     (\<exists>r pre d post. http (uni ''/api/generate'') (generate_body s prompt) st = (Inr r, st') \<and> 200 \<le> lr_status r \<and> lr_status r < 300 \<and>
        lr_lines r = pre @ d # post \<and> list_all (\<lambda>l. readable_line l \<and> \<not> done_line l) pre \<and> done_line d \<and>
        cs = concat (map line_chunks (pre @ [d])))"
proof (cases "py_strip prompt = []")
  case True
  then show ?thesis by (auto simp: stream_generate_def py_strip_def)
next
  case False
  then have ne: "prompt \<noteq> []" by (auto simp: py_strip_def)
  obtain x st1 where h: "http (uni ''/api/generate'') (generate_body s prompt) st = (x, st1)" by fastforce
  show ?thesis
  proof (cases x)
    case (Inl e)
    with h False ne show ?thesis by (simp add: stream_generate_def)
  next
    case (Inr r)
    obtain ds f where rd: "read_stream (lr_lines r) (lr_failure r) = (ds, f)" by fastforce
    show ?thesis
      using h False ne Inr rd read_stream_complete [of "lr_lines r" "lr_failure r" cs]
      by (auto simp: stream_generate_def list_all_iff)
  qed
qed

section \<open>Properties of answers\<close>

lemma fixed_answer_ok:
  assumes "new_settings sf s = Inr s'" "pt \<in> fixed_response_types"
  shows "\<exists>l t. detect uw s question = Inr l \<and> get_response_text pt l = Inr t \<and>
    fixed_answer uw s dr used pt question st = ([orchestrator_metadata_of dr used [], Token (PString t)], None, st)"
proof -
  obtain l where l: "detect uw s question = Inr l" using detect_ok [OF assms(1)] by blast
  obtain t where "get_response_text pt l = Inr t" "resolve_prompt uw s pt question = Inr \<lparr>rp_prompt_type = pt, rp_language = l,
      rp_prompt_version = prompt_catalog_version s, rp_system_text = None, rp_response_text = Some t,
      rp_shared_instructions = None, rp_language_directive = None\<rparr>" by (rule resolve_fixed [OF l assms(2)])
  with l show ?thesis by (simp add: fixed_answer_def)
qed

lemma resolved_system:
  assumes "new_settings sf s = Inr s'" "pt \<notin> fixed_response_types"
  obtains rp t where "resolve_prompt uw s pt question = Inr rp" "rp_system_text rp = Some t" "rp_response_text rp = None"
proof -
  obtain l where l: "detect uw s question = Inr l" using detect_ok [OF assms(1)] by blast
  show thesis by (rule resolve_generated [OF l assms(2)]) (auto intro: that)
qed

lemma stream_tokens_shape: "\<exists>cs e l. stream_tokens rc s m prompt st = (m # map Token cs, e, st\<lparr>rs_llm := l\<rparr>)"
proof (cases "get_llm_provider (rc_llm rc) s")
  case (Inl e)
  have "stream_tokens rc s m prompt st = (m # map Token [], Some e, st\<lparr>rs_llm := rs_llm st\<rparr>)" using Inl by (simp add: stream_tokens_def)
  then show ?thesis by blast
next
  case (Inr http)
  then show ?thesis by (cases "stream_generate http s prompt (rs_llm st)") (auto simp: stream_tokens_def)
qed

lemma retrieve_llm: "retrieve rc s q n st = (r, st') \<Longrightarrow> rs_llm st' = rs_llm st"
proof -
  have part: "rs_llm (snd (at_embedder c x)) = rs_llm x" "rs_llm (snd (at_index d x)) = rs_llm x" for c d and x :: "('a, 'b, 'c) rag_state"
    by (simp_all add: at_embedder_def at_index_def split: prod.split)
  have "rs_llm (snd (retrieve rc s q n st)) = rs_llm st"
    unfolding retrieve_def Let_def
    by (auto intro!: call_bind_keeps simp: part call_lift_def call_return_def call_raise_def)
  then show "retrieve rc s q n st = (r, st') \<Longrightarrow> rs_llm st' = rs_llm st" by simp
qed

text \<open>One turn of the engine as the client sees it: an exception before anything was said, or the routing
  metadata followed by tokens.\<close>

definition turn_shape :: "decision_result \<Rightarrow> rag_event list \<Rightarrow> exn option \<Rightarrow> bool" where
  "turn_shape dr es e \<longleftrightarrow> es = [] \<and> e \<noteq> None \<or>
     (\<exists>m cs. es = Metadata m # map Token cs \<and> om_decision m = dr_decision dr \<and> om_reason m = dr_reason dr \<and>
        om_retrieval_used m = (dr_decision dr = NEEDS_RETRIEVAL))"

lemma turn_shapeI: "dr_decision dr = NEEDS_RETRIEVAL \<longleftrightarrow> used \<Longrightarrow> turn_shape dr (orchestrator_metadata_of dr used sources # map Token cs) e"
  by (auto simp: turn_shape_def orchestrator_metadata_of_def)

text \<open>The answer a model is never asked for.\<close>

definition fixed_turn :: "(nat \<Rightarrow> bool) \<Rightarrow> settings \<Rightarrow> prompt_type \<Rightarrow> ustr \<Rightarrow> rag_event list \<Rightarrow> exn option \<Rightarrow> bool" where
  "fixed_turn uw s pt question es e \<longleftrightarrow> e = None \<and>
     (\<exists>m l t. es = [Metadata m, Token (PString t)] \<and> om_sources m = [] \<and> detect uw s question = Inr l \<and> get_response_text pt l = Inr t)"

lemma fixed_answer_turn:
  assumes "new_settings sf s = Inr s'" "pt \<in> fixed_response_types" "fixed_answer uw s dr used pt question st = (es, e, st')"
    "dr_decision dr = NEEDS_RETRIEVAL \<longleftrightarrow> used"
  shows "turn_shape dr es e" "fixed_turn uw s pt question es e" "st' = st"
proof -
  from fixed_answer_ok [OF assms(1,2), of uw question dr used st] obtain l t where t: "detect uw s question = Inr l"
    "get_response_text pt l = Inr t" "es = orchestrator_metadata_of dr used [] # map Token [PString t]" "e = None" "st' = st"
    using assms(3) by auto
  show "turn_shape dr es e" unfolding t(3) by (rule turn_shapeI [OF assms(4)])
  show "fixed_turn uw s pt question es e" using t by (auto simp: fixed_turn_def orchestrator_metadata_of_def)
  show "st' = st" by (rule t(5))
qed

lemma turn_protocol:
  assumes "new_settings sf s = Inr s'" "orchestrate uw rc s question st = (es, e, st')"
  shows "turn_shape (decide uw question) es e \<and>
    (dr_decision (decide uw question) = CLARIFICATION_NEEDED \<longrightarrow> st' = st \<and> fixed_turn uw s CLARIFICATION question es e) \<and>
    (dr_decision (decide uw question) = OUT_OF_SCOPE \<longrightarrow> st' = st \<and> fixed_turn uw s OUT_OF_SCOPE_PROMPT question es e) \<and>
    (\<forall>m rest. es = Metadata m # rest \<and> om_retrieval_used m \<and> om_sources m = [] \<longrightarrow>
       rs_llm st' = rs_llm st \<and> fixed_turn uw s NO_RESULTS question es e)"
proof (cases "dr_decision (decide uw question)")
  case CLARIFICATION_NEEDED
  then have "fixed_answer uw s (decide uw question) False CLARIFICATION question st = (es, e, st')"
    using assms(2) by (simp add: orchestrate_def Let_def)
  from fixed_answer_turn [OF assms(1) _ this] CLARIFICATION_NEEDED show ?thesis
    by (auto simp: fixed_response_types_def turn_shape_def)
next
  case OUT_OF_SCOPE
  then have "fixed_answer uw s (decide uw question) False OUT_OF_SCOPE_PROMPT question st = (es, e, st')"
    using assms(2) by (simp add: orchestrate_def Let_def)
  from fixed_answer_turn [OF assms(1) _ this] OUT_OF_SCOPE show ?thesis
    by (auto simp: fixed_response_types_def turn_shape_def)
next
  case DIRECT_LLM
  obtain rp where "resolve_prompt uw s DIRECT_ANSWER question = Inr rp"
    by (rule resolved_system [OF assms(1), of DIRECT_ANSWER]) (auto simp: fixed_response_types_def)
  with DIRECT_LLM assms(2) stream_tokens_shape [of rc s "orchestrator_metadata_of (decide uw question) False []"
      "formatted (rp_system_text rp) @ [10, 10] @ uni ''Question: '' @ question" st]
  have "\<exists>cs. es = orchestrator_metadata_of (decide uw question) False [] # map Token cs"
    by (auto simp: orchestrate_def Let_def)
  with DIRECT_LLM show ?thesis by (auto simp: turn_shape_def orchestrator_metadata_of_def)
next
  case NEEDS_RETRIEVAL
  obtain r st1 where r: "retrieve rc s question None st = (r, st1)" by fastforce
  show ?thesis
  proof (cases r)
    case (Inl x)
    with NEEDS_RETRIEVAL assms(2) r show ?thesis by (auto simp: orchestrate_def Let_def turn_shape_def)
  next
    case (Inr results)
    let ?b = "build_prompt question results"
    show ?thesis
    proof (cases "bp_sources ?b = []")
      case True
      with NEEDS_RETRIEVAL assms(2) r Inr have "fixed_answer uw s (decide uw question) True NO_RESULTS question st1 = (es, e, st')"
        by (simp add: orchestrate_def Let_def)
      from fixed_answer_turn [OF assms(1) _ this] NEEDS_RETRIEVAL retrieve_llm [OF r] show ?thesis
        by (auto simp: fixed_response_types_def)
    next
      case False
      obtain rp where "resolve_prompt uw s GROUNDED_ANSWER question = Inr rp"
        by (rule resolved_system [OF assms(1), of GROUNDED_ANSWER]) (auto simp: fixed_response_types_def)
      with NEEDS_RETRIEVAL assms(2) r Inr False stream_tokens_shape [of rc s "orchestrator_metadata_of (decide uw question) True (bp_sources ?b)"
          "formatted (rp_system_text rp) @ [10, 10] @ bp_user_prompt ?b" st1]
      have "\<exists>cs. es = orchestrator_metadata_of (decide uw question) True (bp_sources ?b) # map Token cs"
        by (auto simp: orchestrate_def Let_def)
      with NEEDS_RETRIEVAL False show ?thesis by (auto simp: turn_shape_def orchestrator_metadata_of_def)
    qed
  qed
qed


lemmas orchestrate_turn = conjunct1 [OF turn_protocol]

text \<open>C3: With validated settings, a turn is an exception before anything was sent, or the routing decision
  with its reason followed by tokens.  A question that needs clarification or is out of scope is answered with
  the fixed text in its language and touches neither the embedding server nor the index nor the language model;
  a turn whose retrieval found nothing usable is answered with the fixed text as well and never reaches the
  language model.\<close>

theorem answer_protocol:
  assumes "new_settings sf s = Inr s'" "orchestrate uw rc s question st = (es, e, st')"
  shows "turn_shape (decide uw question) es e \<and>
    (dr_decision (decide uw question) = CLARIFICATION_NEEDED \<longrightarrow> st' = st \<and> fixed_turn uw s CLARIFICATION question es e) \<and>
    (dr_decision (decide uw question) = OUT_OF_SCOPE \<longrightarrow> st' = st \<and> fixed_turn uw s OUT_OF_SCOPE_PROMPT question es e) \<and>
    (\<forall>m rest. es = Metadata m # rest \<and> om_retrieval_used m \<and> om_sources m = [] \<longrightarrow>
       rs_llm st' = rs_llm st \<and> fixed_turn uw s NO_RESULTS question es e)"
  by (rule turn_protocol [OF assms])

section \<open>Grounding\<close>

lemma join_block: "k < length xs \<Longrightarrow> \<exists>pre post. join sep xs = pre @ xs ! k @ post"
proof (induction sep xs arbitrary: k rule: join.induct)
  case (2 sep x)
  then show ?case by (intro exI [of _ "[]"]) simp
next
  case (3 sep x y zs)
  show ?case
  proof (cases k)
    case 0
    then show ?thesis by (intro exI [of _ "[]"] exI [of _ "sep @ join sep (y # zs)"]) simp
  next
    case (Suc j)
    with 3 obtain pre post where "join sep (y # zs) = pre @ (y # zs) ! j @ post" by fastforce
    with Suc show ?thesis by (intro exI [of _ "x @ sep @ pre"] exI [of _ post]) simp
  qed
qed auto

lemma prompt_block:
  assumes "k < length (non_empty_results results)"
  shows "\<exists>pre post. bp_user_prompt (build_prompt question results) =
    pre @ format_source_block (source_label (Suc k)) (non_empty_results results ! k) @ post"
proof -
  let ?bs = "map (\<lambda>(i, r). format_source_block (source_label i) r) (zip [1..<Suc (length (non_empty_results results))] (non_empty_results results))"
  have "?bs ! k = format_source_block (source_label (Suc k)) (non_empty_results results ! k)" "k < length ?bs"
    using assms by (simp_all del: upt_Suc add: nth_upt)
  with join_block [of k ?bs "[10, 10]"] obtain pre post where "join [10, 10] ?bs =
      pre @ format_source_block (source_label (Suc k)) (non_empty_results results ! k) @ post" by auto
  moreover have "non_empty_results results \<noteq> []" using assms by auto
  ultimately have "bp_user_prompt (build_prompt question results) = rag_user_prompt question
      (pre @ format_source_block (source_label (Suc k)) (non_empty_results results ! k) @ post)"
    by (simp add: build_prompt_def Let_def del: upt_Suc)
  then show ?thesis
    by (intro exI [of _ "uni ''Context:'' @ [10] @ pre"] exI [of _ "post @ [10, 10] @ uni ''Question: '' @ question @ [10, 10] @
      uni ''Answer using only the context above. If the answer isn't in the context, say so.''"]) (simp add: rag_user_prompt_def)
qed

lemma build_sources: "bp_sources (build_prompt question results) = map to_prompt_source (non_empty_results results)"
  by (simp add: build_prompt_def Let_def)

definition meets_threshold :: "settings \<Rightarrow> search_result \<Rightarrow> bool" where
  "meets_threshold s r = (case retrieval_score_threshold s of None \<Rightarrow> True | Some t \<Rightarrow> t \<le> sr_score r)"

lemma retrieve_scores: "retrieve rc s q n st = (Inr results, st') \<Longrightarrow> list_all (meets_threshold s) results"
proof -
  have above: "list_all (meets_threshold s) (above_threshold s xs)" for xs
    by (auto simp: above_threshold_def meets_threshold_def list_all_iff split: option.splits)
  show "retrieve rc s q n st = (Inr results, st') \<Longrightarrow> list_all (meets_threshold s) results"
    using above by (auto simp: retrieve_def Let_def call_simps split: if_splits)
qed

text \<open>C15: An answer that names sources was asked for with exactly these sources: they are the retrieved chunks
  with text, in the order of the search, each meeting the configured threshold, and the prompt the model was
  streamed from holds the labelled block of each of them, source number \<open>k\<close> of the metadata under the label
  \<open>[Sk]\<close>.\<close>

theorem answer_grounded:
  assumes "orchestrate uw rc s question st = (Metadata m # es, e, st')" "om_sources m \<noteq> []"
  shows "\<exists>results st1 prompt. retrieve rc s question None st = (Inr results, st1) \<and>
    om_sources m = map to_prompt_source (non_empty_results results) \<and> list_all (meets_threshold s) results \<and>
    stream_tokens rc s (Metadata m) prompt st1 = (Metadata m # es, e, st') \<and>
    (\<forall>k < length (om_sources m). \<exists>pre post.
       prompt = pre @ format_source_block (source_label (Suc k)) (non_empty_results results ! k) @ post)"
proof -
  have no: "fixed_answer uw s dr used pt question x \<noteq> (Metadata m # es, e, st')" for dr used pt x
    using assms(2) by (auto simp: fixed_answer_def orchestrator_metadata_of_def split: sum.splits)
  have direct: "stream_tokens rc s (orchestrator_metadata_of dr False []) p x \<noteq> (Metadata m # es, e, st')" for dr p x
    using assms(2) stream_tokens_shape [of rc s "orchestrator_metadata_of dr False []" p x] by (auto simp: orchestrator_metadata_of_def)
  obtain r st1 where r: "retrieve rc s question None st = (r, st1)" by fastforce
  have nd: "dr_decision (decide uw question) = NEEDS_RETRIEVAL"
    using assms(1) no direct
    by (cases "dr_decision (decide uw question)") (simp_all add: orchestrate_def Let_def split: sum.splits)
  then obtain results where results: "r = Inr results"
    using assms(1) r by (cases r) (simp_all add: orchestrate_def Let_def)
  have bs: "bp_sources (build_prompt question results) \<noteq> []"
    using assms(1) r results nd no by (auto simp: orchestrate_def Let_def)
  obtain rp where "resolve_prompt uw s GROUNDED_ANSWER question = Inr rp"
    using assms(1) r results nd bs by (cases "resolve_prompt uw s GROUNDED_ANSWER question") (simp_all add: orchestrate_def Let_def)
  then have rp: "stream_tokens rc s (orchestrator_metadata_of (decide uw question) True (bp_sources (build_prompt question results)))
        (formatted (rp_system_text rp) @ [10, 10] @ bp_user_prompt (build_prompt question results)) st1 = (Metadata m # es, e, st')"
    using assms(1) r results nd bs by (simp add: orchestrate_def Let_def)
  let ?p = "formatted (rp_system_text rp) @ [10, 10] @ bp_user_prompt (build_prompt question results)"
  have m: "orchestrator_metadata_of (decide uw question) True (bp_sources (build_prompt question results)) = Metadata m"
    using rp stream_tokens_shape [of rc s "orchestrator_metadata_of (decide uw question) True (bp_sources (build_prompt question results))" ?p st1]
    by auto
  then have src: "om_sources m = map to_prompt_source (non_empty_results results)"
    by (auto simp: orchestrator_metadata_of_def build_sources)
  have cites: "\<exists>pre post. ?p = pre @ format_source_block (source_label (Suc k)) (non_empty_results results ! k) @ post"
    if k: "k < length (om_sources m)" for k
  proof -
    have "k < length (non_empty_results results)" using k src by simp
    from prompt_block [OF this, of question] obtain pre post where
      "bp_user_prompt (build_prompt question results) = pre @ format_source_block (source_label (Suc k)) (non_empty_results results ! k) @ post"
      by blast
    then show ?thesis by (intro exI [of _ "formatted (rp_system_text rp) @ [10, 10] @ pre"] exI [of _ post]) simp
  qed
  show ?thesis using r results retrieve_scores rp cites unfolding m src by blast
qed


section \<open>Samples\<close>

definition sample_hit :: search_result where
  "sample_hit = \<lparr>sr_id = uni ''p1'', sr_score = 1, sr_document_id = uni ''d1'', sr_chunk_id = uni ''d1-0'', sr_text = uni ''A text.'',
     sr_source = uni ''a.pdf'', sr_page_number = Some 1, sr_sheet_name = None\<rparr>"

definition sample_search :: "search_result list \<Rightarrow> unit vector_store" where
  "sample_search hits =
     \<lparr>vs_create_collection_if_not_exists = (\<lambda>c n s. (Inr (), s)), vs_upsert_vectors = (\<lambda>c ps s. (Inr (), s)),
      vs_search_similar = (\<lambda>c v n s. (Inr hits, s)), vs_get_collection_vector_size = (\<lambda>c s. (Inr None, s)),
      vs_delete_by_document_id = (\<lambda>c d s. (Inr (), s)), vs_count_document_vectors = (\<lambda>c d s. (Inr 0, s)),
      vs_count_collection_vectors = (\<lambda>c s. (Inr None, s))\<rparr>"

definition sample_clients :: "search_result list \<Rightarrow> ustr list \<Rightarrow> (unit, unit, unit) rag_clients" where
  "sample_clients hits lines =
     \<lparr>rc_embedder = (\<lambda>s ts st. (Inr (map (\<lambda>_. replicate (nat (vector_size s)) 0) ts), st)),
      rc_store = (\<lambda>s. sample_search hits),
      rc_llm = (\<lambda>s url b st. (Inr \<lparr>lr_status = 200, lr_lines = lines, lr_failure = None\<rparr>, st))\<rparr>"

definition sample_rag :: "(unit, unit, unit) rag_state" where
  "sample_rag = \<lparr>rs_embedder = (), rs_index = (), rs_llm = ()\<rparr>"

lemma short_question:
  assumes "length s < 5"
  shows "\<not> asks_for_secret uw s" "\<not> asks_for_secret_he s"
proof -
  have v: "4 \<le> length v" if "v \<in> set disclosing_verbs" for v using that by (auto simp: disclosing_verbs_def)
  show "\<not> asks_for_secret uw s"
  proof
    assume "asks_for_secret uw s"
    then obtain pre v ws sp n post where "s = pre @ v @ gap_text ws @ sp @ n @ post" "v \<in> set disclosing_verbs" "sp \<noteq> []"
      unfolding asks_for_secret_def blank_def by blast
    with assms v [of v] show False by (cases sp) auto
  qed
  have n: "4 \<le> length n" if "phrase \<in> set sensitive_phrases_he" "spelled phrase n" for phrase n
    using that by (auto simp: sensitive_phrases_he_def he_def)
  show "\<not> asks_for_secret_he s"
  proof
    assume "asks_for_secret_he s"
    then obtain pre v ws sp a n post phrase where "s = pre @ v @ gap_text ws @ sp @ a @ n @ post" "sp \<noteq> []"
      "phrase \<in> set sensitive_phrases_he" "spelled phrase n"
      unfolding asks_for_secret_he_def blank_def by blast
    with assms n [of phrase n] show False by (cases sp) auto
  qed
qed

lemma pdf_question: "dr_decision (decide (\<lambda>_. False) (uni ''pdf?'')) = NEEDS_RETRIEVAL"
proof -
  let ?t = "uni ''pdf?''"
  have t: "py_strip ?t = ?t" "py_lower ?t = ?t" "length ?t = 4"
    by (simp_all add: py_strip_def uni_def py_space_def py_lower_def lower_char_def)
  have "?t = [] @ uni ''pdf'' @ [63]" "uni ''pdf'' \<in> set document_phrases" by (simp_all add: uni_def document_phrases_def)
  moreover have "\<not> word_at (\<lambda>_. False) (last_char None [])" "\<not> word_at (\<lambda>_. False) (first_char [63] None)"
    by (simp_all add: word_at_def word_char_def)
  ultimately have "names_documents (\<lambda>_. False) ?t" unfolding names_documents_def by blast
  with t short_question [of ?t] show ?thesis
    by (simp add: decide_def min_question_length_def Let_def extraction_intent extraction_intent_he names_documents_search)
qed


definition rag_settings :: settings where
  "rag_settings = default_settings\<lparr>vector_size := 2, retrieval_score_threshold := Some (1 / 2)\<rparr>"

lemma rag_settings_config: "\<exists>c. get_active_embedding_config rag_settings = Inr c \<and> cfg_dimension c = 2"
  by (simp add: get_active_embedding_config_def post_init_def rag_settings_def default_settings_def resolved_embedding_model_def
      or_default_def py_strip_eq_Nil uni_def py_space_def)

lemma sample_retrieve: "retrieve (sample_clients hits lines) rag_settings (uni ''pdf?'') None sample_rag =
    (Inr (filter (\<lambda>r. 1 / 2 \<le> sr_score r) hits), sample_rag)"
proof -
  obtain c where c: "get_active_embedding_config rag_settings = Inr c" "cfg_dimension c = 2" using rag_settings_config by blast
  have prov: "set_embedding_provider rag_settings = uni ''ollama''" "vector_store_provider rag_settings = uni ''qdrant''"
      "vector_size rag_settings = 2" "retrieval_score_threshold rag_settings = Some (1 / 2)"
    by (simp_all add: rag_settings_def default_settings_def)
  have "py_strip (uni ''pdf?'') \<noteq> []" by (simp add: py_strip_def uni_def py_space_def)
  moreover have "validate_embeddings [replicate 2 0] 1 2 = Inr ()" by (simp add: validate_embeddings_Inr)
  ultimately show ?thesis
    using c prov by (simp add: retrieve_def Let_def call_bind_def call_lift_def call_return_def get_embedding_provider_def get_vector_store_def
        sample_clients_def at_embedder_def at_index_def sample_search_def sample_rag_def above_threshold_def numeral_2_eq_2)
qed

theorem answer_protocol_witness:
  "\<exists>es e st'. orchestrate (\<lambda>_. False) (sample_clients [] []) default_settings (uni ''x'') sample_rag = (es, e, st') \<and>
    st' = sample_rag \<and> e = None \<and> length es = 2"
proof -
  obtain es e st' where o: "orchestrate (\<lambda>_. False) (sample_clients [] []) default_settings (uni ''x'') sample_rag = (es, e, st')"
    using prod_cases3 by blast
  have "dr_decision (decide (\<lambda>_. False) (uni ''x'')) = CLARIFICATION_NEEDED"
    by (simp add: decide_def min_question_length_def Let_def py_strip_def uni_def py_space_def)
  with answer_protocol [OF default_settings_valid o] o show ?thesis by (auto simp: fixed_turn_def)
qed

theorem answer_grounded_witness:
  "\<exists>m es e st' prompt pre post. orchestrate (\<lambda>_. False) (sample_clients [sample_hit] []) rag_settings (uni ''pdf?'') sample_rag = (Metadata m # es, e, st') \<and>
     om_sources m = [to_prompt_source sample_hit] \<and>
     stream_tokens (sample_clients [sample_hit] []) rag_settings (Metadata m) prompt sample_rag = (Metadata m # es, e, st') \<and>
     prompt = pre @ uni ''[S1] a.pdf page 1'' @ [10] @ uni ''A text.'' @ post"
proof -
  let ?rc = "sample_clients [sample_hit] []" and ?q = "uni ''pdf?''" and ?st = "sample_rag"
  have hit: "non_empty_results [sample_hit] = [sample_hit]"
    by (simp add: non_empty_results_def sample_hit_def py_strip_def uni_def py_space_def)
  have ret: "retrieve ?rc rag_settings ?q None ?st = (Inr [sample_hit], ?st)" by (simp add: sample_retrieve) (simp add: sample_hit_def)
  have res: "\<exists>rp. resolve_prompt (\<lambda>_. False) rag_settings GROUNDED_ANSWER ?q = Inr rp"
  proof -
    have "\<exists>l. default_language rag_settings = Inr l" by (simp add: default_language_def to_language_def rag_settings_def default_settings_def)
    then have "\<exists>l. detect (\<lambda>_. False) rag_settings ?q = Inr l" by (simp add: detect_words)
    then obtain l where "detect (\<lambda>_. False) rag_settings ?q = Inr l" by blast
    from resolve_generated [OF this, of GROUNDED_ANSWER] show ?thesis by (auto simp: fixed_response_types_def)
  qed
  have src: "bp_sources (build_prompt ?q [sample_hit]) = [to_prompt_source sample_hit]" by (simp add: build_sources hit)
  obtain m es e st' where o: "orchestrate (\<lambda>_. False) ?rc rag_settings ?q ?st = (Metadata m # es, e, st')" "om_sources m = [to_prompt_source sample_hit]"
  proof -
    from res obtain rp where rp: "resolve_prompt (\<lambda>_. False) rag_settings GROUNDED_ANSWER ?q = Inr rp" by blast
    let ?m = "orchestrator_metadata_of (decide (\<lambda>_. False) ?q) True [to_prompt_source sample_hit]"
      and ?p = "formatted (rp_system_text rp) @ [10, 10] @ bp_user_prompt (build_prompt ?q [sample_hit])"
    obtain cs e l where sh: "stream_tokens ?rc rag_settings ?m ?p ?st = (?m # map Token cs, e, ?st\<lparr>rs_llm := l\<rparr>)"
      using stream_tokens_shape [of ?rc rag_settings ?m ?p ?st] by blast
    have "orchestrate (\<lambda>_. False) ?rc rag_settings ?q ?st = (?m # map Token cs, e, ?st\<lparr>rs_llm := l\<rparr>)"
      using pdf_question ret rp src sh by (simp add: orchestrate_def Let_def)
    then show thesis by (intro that) (auto simp: orchestrator_metadata_of_def)
  qed
  have "om_sources m \<noteq> []" using o(2) by simp
  from answer_grounded [OF o(1) this] obtain results st1 prompt where p: "retrieve ?rc rag_settings ?q None ?st = (Inr results, st1)"
    "stream_tokens ?rc rag_settings (Metadata m) prompt st1 = (Metadata m # es, e, st')"
    "\<forall>k < length (om_sources m). \<exists>pre post. prompt = pre @ format_source_block (source_label (Suc k)) (non_empty_results results ! k) @ post"
    by blast
  have same: "st1 = ?st" "results = [sample_hit]" using p(1) unfolding ret by (metis Pair_inject, metis Pair_inject sum.inject(2))
  have "stream_tokens ?rc rag_settings (Metadata m) prompt ?st = (Metadata m # es, e, st')" using p(2) unfolding same .
  moreover have "\<exists>pre post. prompt = pre @ format_source_block (source_label (Suc 0)) sample_hit @ post"
    using p(3) o(2) hit same(2) by simp
  moreover have "format_source_block (source_label (Suc 0)) sample_hit = uni ''[S1] a.pdf page 1'' @ [10] @ uni ''A text.''"
    by (simp add: format_source_block_def source_label_def sample_hit_def uni_def dec.simps)
  ultimately show ?thesis using o by fastforce
qed

end
