(* ===== verification/Engines.thy ===== *)
theory Engines
  imports Answering
begin

text \<open>
  The two engines behind the chat endpoint (\<open>app/rag/engine.py\<close>, \<open>app/rag/engines\<close>): the custom one is the
  orchestrator, the LangChain one runs the same decision layer over LangChain's runnables.  LangChain itself is
  the parameter \<open>'s langchain\<close>: how it renders messages for a text model, and what invoking a retriever and
  streaming a chain make of the adapters' own results.
\<close>

section \<open>LangChain documents\<close>

datatype meta_value = MText ustr | MNumber rat | MPage nat | MNone

record lc_document =
  page_content :: ustr
  lc_metadata :: "(ustr \<times> meta_value) list"

fun optional_value :: "('a \<Rightarrow> meta_value) \<Rightarrow> 'a option \<Rightarrow> meta_value" where
  "optional_value f None = MNone"
| "optional_value f (Some x) = f x"

definition search_result_to_document :: "search_result \<Rightarrow> lc_document" where
  "search_result_to_document r =
     \<lparr>page_content = sr_text r,
      lc_metadata =
        [(uni ''id'', MText (sr_id r)), (uni ''score'', MNumber (sr_score r)), (uni ''document_id'', MText (sr_document_id r)),
         (uni ''chunk_id'', MText (sr_chunk_id r)), (uni ''source'', MText (sr_source r)),
         (uni ''page_number'', optional_value MPage (sr_page_number r)), (uni ''sheet_name'', optional_value MText (sr_sheet_name r))]\<rparr>"

text \<open>\<open>metadata[key]\<close> and \<open>metadata.get(key)\<close>; a value of another type than the field has is a \<open>TypeError\<close>
  here, which only documents from elsewhere can have.\<close>

definition meta_text :: "lc_document \<Rightarrow> string \<Rightarrow> exn + ustr" where
  "meta_text doc k = (case map_of (lc_metadata doc) (uni k) of
     None \<Rightarrow> Inl (KeyError (uni k)) | Some (MText t) \<Rightarrow> Inr t | Some _ \<Rightarrow> Inl (LibraryError (uni ''TypeError'')))"

definition meta_number :: "lc_document \<Rightarrow> string \<Rightarrow> exn + rat" where
  "meta_number doc k = (case map_of (lc_metadata doc) (uni k) of
     None \<Rightarrow> Inl (KeyError (uni k)) | Some (MNumber x) \<Rightarrow> Inr x | Some _ \<Rightarrow> Inl (LibraryError (uni ''TypeError'')))"

definition meta_page :: "lc_document \<Rightarrow> string \<Rightarrow> exn + nat option" where
  "meta_page doc k = (case map_of (lc_metadata doc) (uni k) of
     None \<Rightarrow> Inr None | Some MNone \<Rightarrow> Inr None | Some (MPage n) \<Rightarrow> Inr (Some n) | Some _ \<Rightarrow> Inl (LibraryError (uni ''TypeError'')))"

definition meta_optional :: "lc_document \<Rightarrow> string \<Rightarrow> exn + ustr option" where
  "meta_optional doc k = (case map_of (lc_metadata doc) (uni k) of
     None \<Rightarrow> Inr None | Some MNone \<Rightarrow> Inr None | Some (MText t) \<Rightarrow> Inr (Some t) | Some _ \<Rightarrow> Inl (LibraryError (uni ''TypeError'')))"

definition document_to_search_result :: "lc_document \<Rightarrow> exn + search_result" where
  "document_to_search_result doc =
     (case meta_text doc ''id'' of Inl e \<Rightarrow> Inl e | Inr i \<Rightarrow>
     (case meta_number doc ''score'' of Inl e \<Rightarrow> Inl e | Inr sc \<Rightarrow>
     (case meta_text doc ''document_id'' of Inl e \<Rightarrow> Inl e | Inr d \<Rightarrow>
     (case meta_text doc ''chunk_id'' of Inl e \<Rightarrow> Inl e | Inr c \<Rightarrow>
     (case meta_text doc ''source'' of Inl e \<Rightarrow> Inl e | Inr src \<Rightarrow>
     (case meta_page doc ''page_number'' of Inl e \<Rightarrow> Inl e | Inr p \<Rightarrow>
     (case meta_optional doc ''sheet_name'' of Inl e \<Rightarrow> Inl e | Inr sh \<Rightarrow>
       Inr \<lparr>sr_id = i, sr_score = sc, sr_document_id = d, sr_chunk_id = c, sr_text = page_content doc, sr_source = src,
            sr_page_number = p, sr_sheet_name = sh\<rparr>)))))))"

fun documents_to_results :: "lc_document list \<Rightarrow> exn + search_result list" where
  "documents_to_results [] = Inr []"
| "documents_to_results (d # ds) =
     (case document_to_search_result d of Inl e \<Rightarrow> Inl e | Inr r \<Rightarrow>
     (case documents_to_results ds of Inl e \<Rightarrow> Inl e | Inr rs \<Rightarrow> Inr (r # rs)))"

section \<open>The adapters\<close>

datatype message = SystemMessage ustr | HumanMessage ustr

record ('s, 'l) langchain =
  lc_to_string :: "message list \<Rightarrow> ustr"
  lc_ainvoke :: "('s, exn, lc_document list) call \<Rightarrow> ('s, exn, lc_document list) call"
  lc_astream :: "('l, payload) stream \<Rightarrow> ('l, payload) stream"

definition aget_relevant_documents :: "('e, 'v, 'l) rag_clients \<Rightarrow> settings \<Rightarrow> ustr \<Rightarrow>
    (('e, 'v, 'l) rag_state, exn, lc_document list) call" where
  "aget_relevant_documents rc s query =
     call_bind (retrieve rc s query None) (\<lambda>results. call_return (map search_result_to_document results))"

text \<open>\<open>GenerationChunk(text=chunk)\<close> accepts strings only.\<close>

fun generation_chunks :: "payload list \<Rightarrow> exn option \<Rightarrow> payload list \<times> exn option" where
  "generation_chunks [] e = ([], e)"
| "generation_chunks (PString t # cs) e = (case generation_chunks cs e of (ds, e') \<Rightarrow> (PString t # ds, e'))"
| "generation_chunks (_ # cs) e = ([], Some (LibraryError (uni ''ValidationError'')))"

definition llm_astream :: "'l llm_http \<Rightarrow> settings \<Rightarrow> ustr \<Rightarrow> ('l, payload) stream" where
  "llm_astream http s prompt st = (case stream_generate http s prompt st of
     (cs, e, st') \<Rightarrow> (case generation_chunks cs e of (ds, e') \<Rightarrow> (ds, e', st')))"

definition llm_acall :: "'l llm_http \<Rightarrow> settings \<Rightarrow> ustr \<Rightarrow> ('l, exn, ustr) call" where
  "llm_acall http s prompt = llm_generate http s prompt"

definition aembed_documents :: "'e embedder \<Rightarrow> ustr list \<Rightarrow> ('e, exn, embedding list) call" where
  "aembed_documents emb texts = emb texts"

definition aembed_query :: "'e embedder \<Rightarrow> ustr \<Rightarrow> ('e, exn, embedding) call" where
  "aembed_query emb txt = call_bind (emb [txt]) (\<lambda>vs. if vs = [] then call_raise (LibraryError (uni ''IndexError'')) else call_return (vs ! 0))"

section \<open>The LangChain engine\<close>

definition lc_metadata_of :: "decision_result \<Rightarrow> bool \<Rightarrow> prompt_source list \<Rightarrow> rag_event" where
  "lc_metadata_of dr used sources = Metadata
     \<lparr>om_decision = dr_decision dr, om_reason = dr_reason dr, om_retrieval_used = used, om_sources = sources\<rparr>"

definition lc_fixed_answer :: "(nat \<Rightarrow> bool) \<Rightarrow> settings \<Rightarrow> decision_result \<Rightarrow> bool \<Rightarrow> prompt_type \<Rightarrow> ustr \<Rightarrow> ('s, rag_event) stream" where
  "lc_fixed_answer uw s dr used pt question st =
     (case resolve_prompt uw s pt question of
        Inl e \<Rightarrow> ([], Some e, st)
      | Inr rp \<Rightarrow> ([lc_metadata_of dr used [],
          Token (PString (case rp_response_text rp of None \<Rightarrow> [] | Some t \<Rightarrow> t))], None, st))"

definition lc_stream_tokens :: "(('e, 'v, 'l) rag_state, 'l) langchain \<Rightarrow> ('e, 'v, 'l) rag_clients \<Rightarrow> settings \<Rightarrow> rag_event \<Rightarrow>
    message list \<Rightarrow> (('e, 'v, 'l) rag_state, rag_event) stream" where
  "lc_stream_tokens lc rc s metadata messages st =
     (case get_llm_provider (rc_llm rc) s of
        Inl e \<Rightarrow> ([metadata], Some e, st)
      | Inr http \<Rightarrow> (case lc_astream lc (llm_astream http s (lc_to_string lc messages)) (rs_llm st) of
            (cs, e, l) \<Rightarrow> (metadata # map Token cs, e, st\<lparr>rs_llm := l\<rparr>)))"

definition or_empty :: "ustr option \<Rightarrow> ustr" where
  "or_empty t = (case t of None \<Rightarrow> [] | Some x \<Rightarrow> x)"

definition langchain_answer :: "(nat \<Rightarrow> bool) \<Rightarrow> (('e, 'v, 'l) rag_state, 'l) langchain \<Rightarrow> ('e, 'v, 'l) rag_clients \<Rightarrow> settings \<Rightarrow> ustr \<Rightarrow>
    (('e, 'v, 'l) rag_state, rag_event) stream" where
  "langchain_answer uw lc rc s question st =
     (let dr = decide uw question in
      case dr_decision dr of
        CLARIFICATION_NEEDED \<Rightarrow> lc_fixed_answer uw s dr False CLARIFICATION question st
      | OUT_OF_SCOPE \<Rightarrow> lc_fixed_answer uw s dr False OUT_OF_SCOPE_PROMPT question st
      | NEEDS_RETRIEVAL \<Rightarrow>
          (case lc_ainvoke lc (aget_relevant_documents rc s question) st of
             (Inl e, st1) \<Rightarrow> ([], Some e, st1)
           | (Inr docs, st1) \<Rightarrow>
               (case documents_to_results docs of
                  Inl e \<Rightarrow> ([], Some e, st1)
                | Inr results \<Rightarrow>
                    let built = build_prompt question results in
                    if bp_sources built = [] then lc_fixed_answer uw s dr True NO_RESULTS question st1
                    else (case resolve_prompt uw s GROUNDED_ANSWER question of
                        Inl e \<Rightarrow> ([], Some e, st1)
                      | Inr rp \<Rightarrow> lc_stream_tokens lc rc s (lc_metadata_of dr True (bp_sources built))
                          [SystemMessage (or_empty (rp_system_text rp)), HumanMessage (bp_user_prompt built)] st1)))
      | DIRECT_LLM \<Rightarrow>
          (case resolve_prompt uw s DIRECT_ANSWER question of
             Inl e \<Rightarrow> ([], Some e, st)
           | Inr rp \<Rightarrow> lc_stream_tokens lc rc s (lc_metadata_of dr False [])
               [SystemMessage (or_empty (rp_system_text rp)), HumanMessage (uni ''Question: '' @ question)] st))"

section \<open>Choosing an engine\<close>

definition custom_answer :: "(nat \<Rightarrow> bool) \<Rightarrow> ('e, 'v, 'l) rag_clients \<Rightarrow> settings \<Rightarrow> ustr \<Rightarrow> (('e, 'v, 'l) rag_state, rag_event) stream" where
  "custom_answer uw rc s question = orchestrate uw rc s question"

definition get_rag_engine :: "(nat \<Rightarrow> bool) \<Rightarrow> (('e, 'v, 'l) rag_state, 'l) langchain \<Rightarrow> ('e, 'v, 'l) rag_clients \<Rightarrow> settings \<Rightarrow>
    exn + (ustr \<Rightarrow> (('e, 'v, 'l) rag_state, rag_event) stream)" where
  "get_rag_engine uw lc rc s =
     (if rag_engine s = uni ''custom'' then Inr (custom_answer uw rc s)
      else if rag_engine s = uni ''langchain'' then Inr (langchain_answer uw lc rc s)
      else Inl (UnsupportedRagEngineError (uni ''Unsupported RAG_ENGINE: '' @ py_repr (rag_engine s) @
        uni ''. Supported engines: '' @ py_repr (uni ''custom'') @ uni '', '' @ py_repr (uni ''langchain'') @ uni ''.'')))"

fun event_texts :: "rag_event list \<Rightarrow> payload list" where
  "event_texts [] = []"
| "event_texts (Metadata m # es) = event_texts es"
| "event_texts (Token t # es) = t # event_texts es"

text \<open>\<open>RagEngine.answer\<close>.\<close>

definition full_answer :: "(ustr \<Rightarrow> ('s, rag_event) stream) \<Rightarrow> ustr \<Rightarrow> ('s, exn, ustr) call" where
  "full_answer engine question st = (case engine question st of
     (es, Some e, st') \<Rightarrow> (Inl e, st') | (es, None, st') \<Rightarrow> (join_texts (event_texts es), st'))"

section \<open>Properties\<close>

lemma document_back: "document_to_search_result (search_result_to_document r) = Inr r"
  by (cases "sr_page_number r"; cases "sr_sheet_name r")
    (simp_all add: document_to_search_result_def search_result_to_document_def meta_text_def meta_number_def meta_page_def meta_optional_def)

lemma documents_back: "documents_to_results (map search_result_to_document rs) = Inr rs"
  by (induction rs) (simp_all add: document_back)

text \<open>A search result survives the passage through a LangChain document unchanged, optional fields included.\<close>

theorem document_round_trip:
  "document_to_search_result (search_result_to_document r) = Inr r \<and>
   documents_to_results (map search_result_to_document rs) = Inr rs"
  by (simp add: document_back documents_back)

text \<open>What the engine relies on of LangChain: invoking a retriever returns what its \<open>_aget_relevant_documents\<close>
  returns, and streaming a chain yields the chunks of the model's \<open>_astream\<close> and lets its exception through;
  a stream without chunks and without an exception is not covered.\<close>

definition passes_through :: "('s, 'l) langchain \<Rightarrow> bool" where
  "passes_through lc \<longleftrightarrow> (\<forall>c. lc_ainvoke lc c = c) \<and>
     (\<forall>f st cs e st'. f st = (cs, e, st') \<and> (cs \<noteq> [] \<or> e \<noteq> None) \<longrightarrow> lc_astream lc f st = (cs, e, st'))"

lemma resolve_system_text: "resolve_prompt uw s pt q = Inr rp \<Longrightarrow> pt \<notin> fixed_response_types \<Longrightarrow> \<exists>t. rp_system_text rp = Some t"
  by (auto simp: resolve_prompt_def check_resolved_def Let_def split: sum.splits if_splits)

lemma lc_fixed: "lc_fixed_answer = fixed_answer"
  by (intro ext) (simp add: lc_fixed_answer_def fixed_answer_def lc_metadata_of_def orchestrator_metadata_of_def cong: sum.case_cong)

lemma lc_metadata_same: "lc_metadata_of = orchestrator_metadata_of"
  by (intro ext) (simp add: lc_metadata_of_def orchestrator_metadata_of_def)

lemma lc_stream_shape: "\<exists>cs e l. lc_stream_tokens lc rc s m ms st = (m # map Token cs, e, st\<lparr>rs_llm := l\<rparr>)"
proof (cases "get_llm_provider (rc_llm rc) s")
  case (Inl e)
  have "lc_stream_tokens lc rc s m ms st = (m # map Token [], Some e, st\<lparr>rs_llm := rs_llm st\<rparr>)" using Inl by (simp add: lc_stream_tokens_def)
  then show ?thesis by blast
next
  case (Inr http)
  then show ?thesis by (cases "lc_astream lc (llm_astream http s (lc_to_string lc ms)) (rs_llm st)") (auto simp: lc_stream_tokens_def)
qed

text \<open>Two runs that ask the model with the same system text and the same question, each engine rendering
  them its own way.\<close>

definition same_request :: "(('e, 'v, 'l) rag_state, 'l) langchain \<Rightarrow> ('e, 'v, 'l) rag_clients \<Rightarrow> settings \<Rightarrow>
    rag_event list \<times> exn option \<times> ('e, 'v, 'l) rag_state \<Rightarrow> rag_event list \<times> exn option \<times> ('e, 'v, 'l) rag_state \<Rightarrow> bool" where
  "same_request lc rc s a b \<longleftrightarrow>
     (\<exists>m sys ask st. a = stream_tokens rc s (Metadata m) (sys @ [10, 10] @ ask) st \<and>
        b = lc_stream_tokens lc rc s (Metadata m) [SystemMessage sys, HumanMessage ask] st)"

lemma same_request_parts:
  assumes "same_request lc rc s a b"
  shows "take 1 (fst a) = take 1 (fst b) \<and> rs_embedder (snd (snd a)) = rs_embedder (snd (snd b)) \<and> rs_index (snd (snd a)) = rs_index (snd (snd b))"
proof -
  from assms obtain m sys ask st where "a = stream_tokens rc s (Metadata m) (sys @ [10, 10] @ ask) st"
    "b = lc_stream_tokens lc rc s (Metadata m) [SystemMessage sys, HumanMessage ask] st" unfolding same_request_def by blast
  with stream_tokens_shape [of rc s "Metadata m" "sys @ [10, 10] @ ask" st] lc_stream_shape [of lc rc s "Metadata m" "[SystemMessage sys, HumanMessage ask]" st]
  show ?thesis by auto
qed

lemma generation_chunks_strings: "list_all (\<lambda>c. \<exists>t. c = PString t) cs \<Longrightarrow> generation_chunks cs e = (cs, e)"
  by (induction cs e rule: generation_chunks.induct) auto

lemma same_request_equal:
  assumes lc: "passes_through lc" and req: "same_request lc rc s a b"
    and render: "\<And>sys ask l. stream_generate (rc_llm rc s) s (lc_to_string lc [SystemMessage sys, HumanMessage ask]) l =
      stream_generate (rc_llm rc s) s (sys @ [10, 10] @ ask) l"
    and texts: "list_all (\<lambda>c. \<exists>t. c = PString t) (event_texts (fst a))" and nonempty: "event_texts (fst a) \<noteq> [] \<or> fst (snd a) \<noteq> None"
  shows "b = a"
proof -
  from req obtain m sys ask st where r: "a = stream_tokens rc s (Metadata m) (sys @ [10, 10] @ ask) st"
    "b = lc_stream_tokens lc rc s (Metadata m) [SystemMessage sys, HumanMessage ask] st" unfolding same_request_def by blast
  show ?thesis
  proof (cases "get_llm_provider (rc_llm rc) s")
    case (Inl x)
    with r show ?thesis by (simp add: stream_tokens_def lc_stream_tokens_def)
  next
    case (Inr http)
    then have http: "http = rc_llm rc s" by (auto simp: get_llm_provider_def split: if_splits option.splits)
    obtain cs e l where g: "stream_generate (rc_llm rc s) s (sys @ [10, 10] @ ask) (rs_llm st) = (cs, e, l)" using prod_cases3 by blast
    have texts_of: "event_texts (map Token cs) = cs" by (induction cs) auto
    have a: "a = (Metadata m # map Token cs, e, st\<lparr>rs_llm := l\<rparr>)" using r(1) Inr http g by (simp add: stream_tokens_def)
    have cs: "list_all (\<lambda>c. \<exists>t. c = PString t) cs" "cs \<noteq> [] \<or> e \<noteq> None"
      using texts nonempty by (simp_all add: a texts_of)
    have "llm_astream http s (lc_to_string lc [SystemMessage sys, HumanMessage ask]) (rs_llm st) = (cs, e, l)"
      using render [of sys ask "rs_llm st"] g generation_chunks_strings [OF cs(1), of e] http by (simp add: llm_astream_def)
    then have "lc_astream lc (llm_astream http s (lc_to_string lc [SystemMessage sys, HumanMessage ask])) (rs_llm st) = (cs, e, l)"
      using lc cs(2) by (simp add: passes_through_def)
    then show ?thesis using r(2) Inr a by (simp add: lc_stream_tokens_def)
  qed
qed

lemma engines_same:
  fixes rc :: "('e, 'v, 'l) rag_clients" and uw :: "nat \<Rightarrow> bool" and s :: settings and question :: ustr and st :: "('e, 'v, 'l) rag_state"
  assumes "passes_through lc"
  defines "a \<equiv> orchestrate uw rc s question st" and "b \<equiv> langchain_answer uw lc rc s question st"
  shows "take 1 (fst a) = take 1 (fst b) \<and> rs_embedder (snd (snd a)) = rs_embedder (snd (snd b)) \<and>
    rs_index (snd (snd a)) = rs_index (snd (snd b)) \<and> (b = a \<or> same_request lc rc s a b)"
proof -
  have ret: "lc_ainvoke lc (aget_relevant_documents rc s question) st = (case retrieve rc s question None st of
      (Inl e, t) \<Rightarrow> (Inl e, t) | (Inr rs, t) \<Rightarrow> (Inr (map search_result_to_document rs), t))"
    using assms(1) by (simp add: passes_through_def aget_relevant_documents_def call_bind_def call_return_def split: prod.split sum.split)
  note defs = a_def b_def orchestrate_def langchain_answer_def Let_def lc_fixed lc_metadata_same
  have "b = a \<or> same_request lc rc s a b"
  proof (cases "dr_decision (decide uw question)")
    case DIRECT_LLM
    show ?thesis
    proof (cases "resolve_prompt uw s DIRECT_ANSWER question")
      case (Inl e)
      with DIRECT_LLM show ?thesis by (simp add: defs)
    next
      case (Inr rp)
      from resolve_system_text [OF this] obtain t where "rp_system_text rp = Some t" by (auto simp: fixed_response_types_def)
      with Inr DIRECT_LLM have "same_request lc rc s a b" unfolding same_request_def
        by (intro exI [of _ "\<lparr>om_decision = DIRECT_LLM, om_reason = dr_reason (decide uw question), om_retrieval_used = False, om_sources = []\<rparr>"]
          exI [of _ t] exI [of _ "uni ''Question: '' @ question"] exI [of _ st])
          (simp add: defs formatted_def or_empty_def orchestrator_metadata_of_def)
      then show ?thesis ..
    qed
  next
    case NEEDS_RETRIEVAL
    obtain r st1 where r: "retrieve rc s question None st = (r, st1)" by fastforce
    show ?thesis
    proof (cases r)
      case (Inl e)
      with NEEDS_RETRIEVAL r ret show ?thesis by (simp add: defs)
    next
      case (Inr rs)
      let ?b = "build_prompt question rs"
      show ?thesis
      proof (cases "bp_sources ?b = []")
        case True
        with NEEDS_RETRIEVAL r ret Inr show ?thesis by (simp add: defs documents_back)
      next
        case False
        show ?thesis
        proof (cases "resolve_prompt uw s GROUNDED_ANSWER question")
          case (Inl e)
          with NEEDS_RETRIEVAL r ret \<open>r = Inr rs\<close> False show ?thesis by (simp add: defs documents_back)
        next
          case (Inr rp)
          from resolve_system_text [OF this] obtain t where "rp_system_text rp = Some t" by (auto simp: fixed_response_types_def)
          with NEEDS_RETRIEVAL r ret \<open>r = Inr rs\<close> False Inr have "same_request lc rc s a b" unfolding same_request_def
            by (intro exI [of _ "\<lparr>om_decision = NEEDS_RETRIEVAL, om_reason = dr_reason (decide uw question), om_retrieval_used = True, om_sources = bp_sources ?b\<rparr>"]
              exI [of _ t] exI [of _ "bp_user_prompt ?b"] exI [of _ st1])
              (simp add: defs documents_back formatted_def or_empty_def orchestrator_metadata_of_def)
          then show ?thesis ..
        qed
      qed
    qed
  qed (simp_all add: defs)
  then show ?thesis using same_request_parts by fastforce
qed

text \<open>C16: Whichever engine is configured, a question is routed to the same decision with the same metadata
  event, the same retrieval is run and leaves the same state, and every turn that does not reach the model ends
  alike, with the same fixed answer or the same exception; a turn that does reach it sends the same system text
  and the same question, which only LangChain renders differently.\<close>

theorem engines_agree:
  fixes rc :: "('e, 'v, 'l) rag_clients" and uw :: "nat \<Rightarrow> bool" and s :: settings and question :: ustr and st :: "('e, 'v, 'l) rag_state"
  assumes "passes_through lc"
  defines "a \<equiv> orchestrate uw rc s question st" and "b \<equiv> langchain_answer uw lc rc s question st"
  shows "take 1 (fst a) = take 1 (fst b) \<and> rs_embedder (snd (snd a)) = rs_embedder (snd (snd b)) \<and>
    rs_index (snd (snd a)) = rs_index (snd (snd b)) \<and> (b = a \<or> same_request lc rc s a b)"
  using engines_same [OF assms(1), of uw rc s question st] unfolding a_def b_def .

text \<open>LangChain as documented, rendering messages line by line.\<close>

fun render_message :: "message \<Rightarrow> ustr" where
  "render_message (SystemMessage t) = uni ''System: '' @ t"
| "render_message (HumanMessage t) = uni ''Human: '' @ t"

definition plain_langchain :: "('s, 'l) langchain" where
  "plain_langchain = \<lparr>lc_to_string = (\<lambda>ms. join [10] (map render_message ms)), lc_ainvoke = id, lc_astream = id\<rparr>"

theorem engines_agree_witness:
  "same_request plain_langchain (sample_clients [sample_hit] []) rag_settings
     (orchestrate (\<lambda>_. False) (sample_clients [sample_hit] []) rag_settings (uni ''pdf?'') sample_rag)
     (langchain_answer (\<lambda>_. False) plain_langchain (sample_clients [sample_hit] []) rag_settings (uni ''pdf?'') sample_rag) \<or>
   langchain_answer (\<lambda>_. False) plain_langchain (sample_clients [sample_hit] []) rag_settings (uni ''pdf?'') sample_rag =
     orchestrate (\<lambda>_. False) (sample_clients [sample_hit] []) rag_settings (uni ''pdf?'') sample_rag"
proof -
  have "passes_through (plain_langchain :: ((unit, unit, unit) rag_state, unit) langchain)"
    by (simp add: passes_through_def plain_langchain_def)
  from engines_agree [OF this] show ?thesis by blast
qed

end
