(* ===== verification/Chat.thy ===== *)
theory Chat
  imports Engines
begin

text \<open>
  The streaming chat endpoint (\<open>app/api/v1/routes/chat.py\<close>, \<open>app/schemas/chat.py\<close>): an engine's events as
  Server-Sent Events.  \<open>json.dumps\<close> of numbers and of the values a model may send instead of a text is the
  argument \<open>json_text\<close>; of strings, booleans and objects it is written out.
\<close>

record json_text =
  jt_float :: "rat \<Rightarrow> ustr"
  jt_value :: "payload \<Rightarrow> ustr"

definition dumps_object :: "(string \<times> ustr) list \<Rightarrow> ustr" where
  "dumps_object kvs = uni ''{'' @ join (uni '', '') (map (\<lambda>(k, v). json_string (uni k) @ uni '': '' @ v) kvs) @ uni ''}''"

definition dumps_bool :: "bool \<Rightarrow> ustr" where
  "dumps_bool b = (if b then uni ''true'' else uni ''false'')"

fun dumps_text :: "json_text \<Rightarrow> payload \<Rightarrow> ustr" where
  "dumps_text jt (PString t) = json_string t"
| "dumps_text jt v = jt_value jt v"

definition sse_event :: "string \<Rightarrow> ustr \<Rightarrow> ustr" where
  "sse_event event data = uni ''event: '' @ uni event @ [10] @ uni ''data: '' @ data @ [10, 10]"

definition source_payload :: "json_text \<Rightarrow> prompt_source \<Rightarrow> ustr" where
  "source_payload jt ps = dumps_object
     ([(''document_id'', json_string (ps_document_id ps)), (''chunk_id'', json_string (ps_chunk_id ps)),
       (''source'', json_string (ps_source ps)), (''score'', jt_float jt (ps_score ps))] @
      (case ps_page_number ps of None \<Rightarrow> [] | Some n \<Rightarrow> [(''page_number'', dec n)]) @
      (case ps_sheet_name ps of None \<Rightarrow> [] | Some t \<Rightarrow> [(''sheet_name'', json_string t)]))"

fun decision_value :: "rag_decision \<Rightarrow> ustr" where
  "decision_value NEEDS_RETRIEVAL = uni ''needs_retrieval''"
| "decision_value DIRECT_LLM = uni ''direct_llm''"
| "decision_value CLARIFICATION_NEEDED = uni ''clarification_needed''"
| "decision_value OUT_OF_SCOPE = uni ''out_of_scope''"

definition metadata_payload :: "json_text \<Rightarrow> orchestrator_metadata \<Rightarrow> ustr" where
  "metadata_payload jt m = dumps_object
     [(''decision'', json_string (decision_value (om_decision m))), (''reason'', json_string (om_reason m)),
      (''retrieval_used'', dumps_bool (om_retrieval_used m)),
      (''sources'', uni ''['' @ join (uni '', '') (map (source_payload jt) (om_sources m)) @ uni '']'')]"

definition safe_error_message :: ustr where
  "safe_error_message = uni ''Failed to generate a response.''"

fun chat_frame :: "json_text \<Rightarrow> rag_event \<Rightarrow> string \<times> ustr" where
  "chat_frame jt (Metadata m) = (''metadata'', metadata_payload jt m)"
| "chat_frame jt (Token t) = (''token'', dumps_object [(''text'', dumps_text jt t)])"

definition error_frame :: "string \<times> ustr" where
  "error_frame = (''error'', dumps_object [(''message'', json_string safe_error_message), (''status'', json_string (uni ''failed''))])"

definition done_frame :: "string \<times> ustr" where
  "done_frame = (''done'', dumps_object [(''status'', json_string (uni ''completed''))])"

definition stream_chat_events :: "json_text \<Rightarrow> (ustr \<Rightarrow> ('s, rag_event) stream) \<Rightarrow> ustr \<Rightarrow> 's \<Rightarrow> ustr list \<times> 's" where
  "stream_chat_events jt engine question st =
     (case engine question st of
        (es, e, st') \<Rightarrow> (map (\<lambda>ev. case chat_frame jt ev of (n, d) \<Rightarrow> sse_event n d) es @
          (case e of
             Some _ \<Rightarrow> [case error_frame of (n, d) \<Rightarrow> sse_event n d]
           | None \<Rightarrow> [case done_frame of (n, d) \<Rightarrow> sse_event n d]), st'))"

definition question_must_not_be_blank :: "ustr \<Rightarrow> exn + ustr" where
  "question_must_not_be_blank v = (if py_strip v = [] then Inl (ValueError (uni ''question must not be empty'')) else Inr v)"

text \<open>A request whose question is rejected is answered with status 422 before the engine is asked.\<close>

datatype chat_response = ValidationFailed exn | EventStream "ustr list"

definition chat :: "json_text \<Rightarrow> (ustr \<Rightarrow> ('s, rag_event) stream) \<Rightarrow> ustr \<Rightarrow> 's \<Rightarrow> chat_response \<times> 's" where
  "chat jt engine question st =
     (case question_must_not_be_blank question of
        Inl e \<Rightarrow> (ValidationFailed e, st)
      | Inr q \<Rightarrow> (case stream_chat_events jt engine q st of (texts, st') \<Rightarrow> (EventStream texts, st')))"

section \<open>Reading the stream\<close>

text \<open>An event stream as its standard reads it, for the fields that are used: lines end with a line feed, an
  empty line dispatches the event whose name and data lines were read.\<close>

fun strip_prefix :: "ustr \<Rightarrow> ustr \<Rightarrow> ustr option" where
  "strip_prefix [] s = Some s"
| "strip_prefix (p # ps) [] = None"
| "strip_prefix (p # ps) (c # cs) = (if p = c then strip_prefix ps cs else None)"

fun dispatch :: "ustr \<Rightarrow> ustr list \<Rightarrow> ustr list \<Rightarrow> (ustr \<times> ustr) list" where
  "dispatch name ds [] = []"
| "dispatch name ds (line # lines) =
     (if line = [] then (if ds = [] then dispatch [] [] lines else (name, join [10] ds) # dispatch [] [] lines)
      else (case strip_prefix (uni ''event: '') line of
          Some n \<Rightarrow> dispatch n ds lines
        | None \<Rightarrow> (case strip_prefix (uni ''data: '') line of
            Some d \<Rightarrow> dispatch name (ds @ [d]) lines
          | None \<Rightarrow> dispatch name ds lines)))"

definition read_events :: "ustr \<Rightarrow> (ustr \<times> ustr) list" where
  "read_events s = dispatch [] [] (split_on 10 s)"

section \<open>Properties of the format\<close>

lemma split_on_line: "10 \<notin> set x \<Longrightarrow> split_on 10 (x @ 10 # r) = x # split_on 10 r"
  by (induction x) (auto split: list.split)

lemma strip_prefix_append [simp]: "strip_prefix p (p @ s) = Some s"
  by (induction p) auto

lemma prefix_data: "strip_prefix (uni ''event: '') (uni ''data: '' @ d) = None"
  by (simp add: uni_def)

lemma read_frame:
  assumes "10 \<notin> set (uni n)" "10 \<notin> set d"
  shows "read_events (sse_event n d @ r) = (uni n, d) # read_events r"
proof -
  have "10 \<notin> set (uni ''event: '')" "10 \<notin> set (uni ''data: '')" by (simp_all add: uni_def)
  with assms have "split_on 10 (sse_event n d @ r) = (uni ''event: '' @ uni n) # (uni ''data: '' @ d) # [] # split_on 10 r"
    using split_on_line [of "uni ''event: '' @ uni n" "uni ''data: '' @ d @ 10 # 10 # r"]
      split_on_line [of "uni ''data: '' @ d" "10 # r"] by (simp add: sse_event_def)
  moreover have "uni ''event: '' @ x \<noteq> []" "uni ''data: '' @ x \<noteq> []" for x by simp_all
  ultimately show ?thesis
    by (simp add: read_events_def prefix_data)
qed

lemma hex_digit_printable: "k < 16 \<Longrightarrow> 48 \<le> hex_digit k \<and> hex_digit k \<le> 102"
  by (simp add: hex_digit_def)

lemma escape_printable: "x \<in> set (json_escape_char c) \<Longrightarrow> 32 \<le> x \<and> x \<le> 126"
proof -
  have h: "32 \<le> hex_digit (n mod 16) \<and> hex_digit (n mod 16) \<le> 126" for n
    using hex_digit_printable [of "n mod 16"] by simp
  have big: "(56320 + x mod 1024) div 4096 < 16" for x :: nat
  proof -
    have "x mod 1024 < 1024" by simp
    then show ?thesis by linarith
  qed
  have "list_all (\<lambda>x. 32 \<le> x \<and> x \<le> 126) (json_escape_char c)"
    using h hex_digit_printable [OF big [of "c - 65536"]] hex_digit_printable [of "c div 4096"]
    by (auto simp: json_escape_char_def Let_def less_mult_imp_div_less)
  then show "x \<in> set (json_escape_char c) \<Longrightarrow> 32 \<le> x \<and> x \<le> 126" by (simp add: list_all_iff)
qed

definition printable :: "ustr \<Rightarrow> bool" where
  "printable s \<longleftrightarrow> list_all (\<lambda>c. 32 \<le> c \<and> c \<le> 126) s"

lemma printable_append [simp]: "printable (a @ b) \<longleftrightarrow> printable a \<and> printable b" "printable []"
  "printable (c # a) \<longleftrightarrow> 32 \<le> c \<and> c \<le> 126 \<and> printable a"
  by (simp_all add: printable_def)

lemma printable_string [simp]: "printable (json_string s)"
  using escape_printable by (force simp: json_string_def printable_def list_all_iff)

lemma printable_join: "printable sep \<Longrightarrow> list_all printable xs \<Longrightarrow> printable (join sep xs)"
  by (induction sep xs rule: join.induct) auto

lemma printable_literals [simp]: "printable (uni ''{'')" "printable (uni ''}'')" "printable (uni '', '')" "printable (uni '': '')"
  "printable (uni ''['')" "printable (uni '']'')" "printable (uni ''true'')" "printable (uni ''false'')"
  by (simp_all add: printable_def uni_def)

lemma printable_object: "list_all (\<lambda>kv. printable (snd kv)) kvs \<Longrightarrow> printable (dumps_object kvs)"
  by (force simp: dumps_object_def list_all_iff intro!: printable_join)

lemma printable_dec [simp]: "printable (dec n)"
  using dec_digits by (force simp: printable_def list_all_iff)

text \<open>\<open>json.dumps\<close> escapes everything outside printable ASCII.\<close>

definition plain_text :: "json_text \<Rightarrow> bool" where
  "plain_text jt \<longleftrightarrow> (\<forall>x. printable (jt_float jt x)) \<and> (\<forall>v. printable (jt_value jt v))"

lemma printable_frame: "plain_text jt \<Longrightarrow> printable (snd (chat_frame jt ev))"
proof -
  assume jt: "plain_text jt"
  have tx: "printable (dumps_text jt t)" for t using jt by (cases t) (simp_all add: plain_text_def)
  have src: "printable (source_payload jt ps)" for ps
    using jt by (auto simp: source_payload_def plain_text_def intro!: printable_object split: option.split)
  show ?thesis
  proof (cases ev)
    case (Metadata m)
    then show ?thesis using src
      by (auto simp: metadata_payload_def dumps_bool_def list_all_iff intro!: printable_object printable_join)
  next
    case (Token t)
    then show ?thesis using tx by (auto intro!: printable_object)
  qed
qed

lemma printable_line: "printable s \<Longrightarrow> 10 \<notin> set s"
  by (auto simp: printable_def list_all_iff)

lemma frame_name: "10 \<notin> set (uni (fst (chat_frame jt ev)))"
  by (cases ev) (simp_all add: uni_def)

lemma end_frames: "10 \<notin> set (uni (fst error_frame))" "10 \<notin> set (snd error_frame)" "10 \<notin> set (uni (fst done_frame))" "10 \<notin> set (snd done_frame)"
  by (auto simp: error_frame_def done_frame_def uni_def [of "''error''"] uni_def [of "''done''"] intro!: printable_line printable_object)

lemma read_frames:
  assumes "plain_text jt"
  shows "read_events (concat (map (\<lambda>ev. case chat_frame jt ev of (n, d) \<Rightarrow> sse_event n d) es) @ r) =
    map (\<lambda>ev. (uni (fst (chat_frame jt ev)), snd (chat_frame jt ev))) es @ read_events r"
proof (induction es)
  case (Cons ev es)
  have "10 \<notin> set (snd (chat_frame jt ev))" by (rule printable_line [OF printable_frame [OF assms]])
  from read_frame [OF frame_name this] Cons show ?case by (simp add: case_prod_beta)
qed simp

section \<open>Reading the texts back\<close>

lemma hex_value_digit [simp]: "k < 16 \<Longrightarrow> hex_value (hex_digit k) = Some k"
  by (auto simp: hex_value_def hex_digit_def)

lemma hex4_digits:
  assumes "n < 65536"
  shows "hex4 (hex_digit (n div 4096 mod 16) # hex_digit (n div 256 mod 16) # hex_digit (n div 16 mod 16) # hex_digit (n mod 16) # r) = Some n"
proof -
  have "16 * (16 * (16 * (n div 4096 mod 16) + n div 256 mod 16) + n div 16 mod 16) + n mod 16 = n"
  proof -
    have "n div 4096 mod 16 = n div 4096" using assms by (simp add: less_mult_imp_div_less)
    moreover have "n div 4096 = n div 256 div 16" "n div 256 = n div 16 div 16" by (simp_all add: div_mult2_eq [symmetric])
    ultimately show ?thesis using mult_div_mod_eq [of 16] by metis
  qed
  moreover have "n div 4096 < 16" using assms by (simp add: less_mult_imp_div_less)
  ultimately show ?thesis by (simp add: hex4_def algebra_simps)
qed

declare scan_string.simps [simp del]

lemma scan_plain_char: "32 \<le> c \<Longrightarrow> c \<noteq> 34 \<Longrightarrow> c \<noteq> 92 \<Longrightarrow> scan_string (c # r) = map_option (apfst ((#) c)) (scan_string r)"
  by (subst scan_string.simps) simp

lemma scan_simple: "e \<noteq> 117 \<Longrightarrow> simple_escape e = Some x \<Longrightarrow> scan_string (92 # e # r) = map_option (apfst ((#) x)) (scan_string r)"
  by (subst scan_string.simps) simp

lemma scan_unicode:
  assumes "hex4 t = Some u" "\<not> (55296 \<le> u \<and> u \<le> 56319)"
  shows "scan_string (92 # 117 # t) = map_option (apfst ((#) u)) (scan_string (drop 4 t))"
proof -
  have "\<not> (55296 \<le> u \<and> u \<le> 56319 \<and> x)" for x using assms(2) by blast
  with assms(1) show ?thesis by (subst scan_string.simps) (simp del: de_Morgan_conj)
qed

lemma scan_pair: "hex4 t = Some u \<Longrightarrow> 55296 \<le> u \<Longrightarrow> u \<le> 56319 \<Longrightarrow> take 2 (drop 4 t) = [92, 117] \<Longrightarrow> hex4 (drop 6 t) = Some l \<Longrightarrow>
    56320 \<le> l \<Longrightarrow> l \<le> 57343 \<Longrightarrow>
    scan_string (92 # 117 # t) = map_option (apfst ((#) (65536 + (u - 55296) * 1024 + (l - 56320)))) (scan_string (drop 10 t))"
  by (subst scan_string.simps) simp

lemma scan_escape:
  assumes "scalar_value c"
  shows "scan_string (json_escape_char c @ r) = map_option (apfst ((#) c)) (scan_string r)"
proof -
  consider "c \<in> {34, 92, 10, 13, 9, 12, 8}" | "32 \<le> c" "c \<le> 126" "c \<noteq> 34" "c \<noteq> 92"
    | "c < 65536" "c < 32 \<or> 126 < c" "c \<notin> {34, 92, 10, 13, 9, 12, 8}" | "65536 \<le> c" by fastforce
  then show ?thesis
  proof cases
    case 1
    then show ?thesis by (auto simp: json_escape_char_def simple_escape_def scan_simple)
  next
    case 2
    then show ?thesis by (simp add: json_escape_char_def scan_plain_char)
  next
    case 3
    then have "json_escape_char c = 92 # 117 # [hex_digit (c div 4096 mod 16), hex_digit (c div 256 mod 16), hex_digit (c div 16 mod 16), hex_digit (c mod 16)]"
      by (auto simp: json_escape_char_def Let_def)
    moreover have "\<not> (55296 \<le> c \<and> c \<le> 56319)" using assms by (auto simp: scalar_value_def)
    ultimately show ?thesis using scan_unicode [OF hex4_digits [OF 3(1), of r]] by simp
  next
    case 4
    then have c: "c < 1114112" using assms by (auto simp: scalar_value_def)
    define h l where "h = 55296 + (c - 65536) div 1024" and "l = 56320 + (c - 65536) mod 1024"
    have h: "55296 \<le> h" "h \<le> 56319" "h < 65536" using c by (auto simp: h_def less_mult_imp_div_less)
    have "(c - 65536) mod 1024 < 1024" by simp
    then have l: "56320 \<le> l" "l \<le> 57343" "l < 65536" unfolding l_def by linarith+
    have sum: "65536 + (h - 55296) * 1024 + (l - 56320) = c" using 4 by (simp add: h_def l_def)
    let ?u = "\<lambda>n. [hex_digit (n div 4096 mod 16), hex_digit (n div 256 mod 16), hex_digit (n div 16 mod 16), hex_digit (n mod 16)]"
    have "json_escape_char c = 92 # 117 # ?u h @ 92 # 117 # ?u l"
      using 4 by (simp add: json_escape_char_def Let_def h_def l_def)
    moreover have "hex4 (?u h @ 92 # 117 # ?u l @ r) = Some h" using hex4_digits [OF h(3)] by simp
    moreover have "hex4 (?u l @ r) = Some l" using hex4_digits [OF l(3)] by simp
    ultimately show ?thesis using scan_pair [of "?u h @ 92 # 117 # ?u l @ r" h l] h l sum by simp
  qed
qed

lemma scan_json_string: "list_all scalar_value s \<Longrightarrow> scan_string (concat (map json_escape_char s) @ 34 # r) = Some (s, r)"
proof (induction s)
  case Nil
  show ?case by (simp add: scan_string.simps)
qed (simp add: scan_escape)

text \<open>A text survives its transport in a token.\<close>

lemma token_decodes:
  assumes "list_all scalar_value t"
  shows "json_loads (dumps_object [(''text'', json_string t)]) = Some (PObject [(uni ''text'', PString t)])"
proof -
  have "list_all scalar_value (uni ''text'')" by (simp add: uni_def scalar_value_def)
  have key: "scan_string (concat (map json_escape_char (uni ''text'')) @ 34 # r) = Some (uni ''text'', r)" for r
    by (rule scan_json_string) fact
  have val: "parse_value (Suc n) (json_string t @ r) = Some (PString t, r)" for n r
    using scan_json_string [OF assms, of r] by (simp add: json_string_def)
  have str: "json_string x = 34 # concat (map json_escape_char x) @ [34]" for x by (simp add: json_string_def)
  let ?v = "json_string t @ [125]"
  have mem: "parse_members (Suc (Suc n)) [] (json_string (uni ''text'') @ [58, 32] @ ?v) = Some (PObject [(uni ''text'', PString t)], [])" for n
  proof -
    have "parse_value (Suc n) ?v = Some (PString t, [125])" by (rule val)
    moreover have "skip_ws ?v = ?v" "skip_ws (32 # ?v) = ?v" by (simp_all add: str skip_ws_def)
    moreover have "Option.bind (expect 34 (json_string (uni ''text'') @ [58, 32] @ ?v)) scan_string = Some (uni ''text'', [58, 32] @ ?v)"
      using key [of "[58, 32] @ ?v"] by (simp add: str expect_def)
    moreover have "skip_ws (58 # 32 # ?v) = 58 # 32 # ?v" "skip_ws [125] = [125]" by (simp_all add: skip_ws_def)
    ultimately show ?thesis by (simp add: expect_def)
  qed
  have dump: "dumps_object [(''text'', json_string t)] = 123 # json_string (uni ''text'') @ [58, 32] @ ?v"
    by (simp add: dumps_object_def uni_def)
  have "parse_value (Suc (Suc (Suc n))) (123 # json_string (uni ''text'') @ [58, 32] @ ?v) = Some (PObject [(uni ''text'', PString t)], [])" for n
    using mem [of n] by (simp add: str expect_def skip_ws_id)
  moreover have "skip_ws (123 # x) = 123 # x" for x by (simp add: skip_ws_def)
  moreover have "\<exists>n. 2 * length (dumps_object [(''text'', json_string t)]) + 2 = Suc (Suc (Suc n))"
    unfolding dump by (simp add: str)
  ultimately show ?thesis
    unfolding json_loads_def dump by (auto simp: skip_ws_def simp del: parse_value.simps)
qed


section \<open>The endpoint\<close>

definition named_frame :: "json_text \<Rightarrow> rag_event \<Rightarrow> ustr \<times> ustr" where
  "named_frame jt ev = (uni (fst (chat_frame jt ev)), snd (chat_frame jt ev))"

definition last_frame :: "exn option \<Rightarrow> ustr \<times> ustr" where
  "last_frame e = (case e of None \<Rightarrow> (uni (fst done_frame), snd done_frame) | Some _ \<Rightarrow> (uni (fst error_frame), snd error_frame))"

lemma chat_reads:
  assumes "plain_text jt" "engine question st = (es, e, st')" "py_strip question \<noteq> []"
  shows "\<exists>texts. chat jt engine question st = (EventStream texts, st') \<and>
    read_events (concat texts) = map (named_frame jt) es @ [last_frame e]"
proof -
  let ?es = "map (\<lambda>ev. case chat_frame jt ev of (n, d) \<Rightarrow> sse_event n d) es"
  let ?last = "case e of Some _ \<Rightarrow> [case error_frame of (n, d) \<Rightarrow> sse_event n d] | None \<Rightarrow> [case done_frame of (n, d) \<Rightarrow> sse_event n d]"
  have nil: "read_events [] = []" by (simp add: read_events_def)
  have "read_events (concat ?last) = [last_frame e]"
    using read_frame [OF end_frames(1,2), of "[]"] read_frame [OF end_frames(3,4), of "[]"] nil
    by (simp add: last_frame_def case_prod_beta split: option.split)
  then have "read_events (concat (?es @ ?last)) = map (named_frame jt) es @ [last_frame e]"
    using read_frames [OF assms(1), of es "concat ?last"] by (simp add: named_frame_def [abs_def])
  then show ?thesis using assms(2,3) by (auto simp: chat_def question_must_not_be_blank_def stream_chat_events_def)
qed

definition turn_events :: "rag_event list \<Rightarrow> exn option \<Rightarrow> bool" where
  "turn_events es e \<longleftrightarrow> es = [] \<and> e \<noteq> None \<or> (\<exists>m cs. es = Metadata m # map Token cs)"

lemma turn_shape_events: "turn_shape dr es e \<Longrightarrow> turn_events es e"
  by (auto simp: turn_shape_def turn_events_def)

lemma engine_turn:
  assumes "new_settings sf s = Inr s'" "passes_through lc" "get_rag_engine uw lc rc s = Inr engine" "engine question st = (es, e, st')"
  shows "turn_events es e"
proof -
  obtain fs f st2 where o: "orchestrate uw rc s question st = (fs, f, st2)" using prod_cases3 by blast
  have custom: "turn_events fs f" using orchestrate_turn [OF assms(1) o] by (rule turn_shape_events)
  consider "engine = custom_answer uw rc s" | "engine = langchain_answer uw lc rc s"
    using assms(3) by (auto simp: get_rag_engine_def split: if_splits)
  then show ?thesis
  proof cases
    case 1
    with o assms(4) custom show ?thesis by (simp add: custom_answer_def)
  next
    case 2
    from engines_same [OF assms(2), of uw rc s question st] have "langchain_answer uw lc rc s question st = (fs, f, st2) \<or>
        same_request lc rc s (fs, f, st2) (langchain_answer uw lc rc s question st)" by (simp add: o)
    then show ?thesis
    proof
      assume "langchain_answer uw lc rc s question st = (fs, f, st2)"
      with 2 assms(4) custom show ?thesis by simp
    next
      assume "same_request lc rc s (fs, f, st2) (langchain_answer uw lc rc s question st)"
      then obtain m sys ask x where "langchain_answer uw lc rc s question st = lc_stream_tokens lc rc s (Metadata m) [SystemMessage sys, HumanMessage ask] x"
        unfolding same_request_def by blast
      with lc_stream_shape [of lc rc s "Metadata m" "[SystemMessage sys, HumanMessage ask]" x] 2 assms(4)
      show ?thesis by (auto simp: turn_events_def)
    qed
  qed
qed

text \<open>C4: With validated settings and either engine, a question that is not blank is answered with a well-formed
  event stream: read back, it is one \<open>metadata\<close> event, the tokens in order and exactly one final event, \<open>done\<close> when
  the engine finished and otherwise one \<open>error\<close> event whose text is fixed and says nothing of the exception; an
  engine that fails before it starts leaves the error event alone.  No text of an answer, of a source or of a
  reason can end an event or forge another one, and a token's text is what JSON reads back.\<close>

theorem chat_protocol:
  assumes "new_settings str_float s = Inr s'" "passes_through lc" "get_rag_engine uw lc rc s = Inr engine" "plain_text jt"
    "py_strip question \<noteq> []" "engine question st = (es, e, st')"
  shows "\<exists>texts. chat jt engine question st = (EventStream texts, st') \<and>
    read_events (concat texts) = map (named_frame jt) es @ [last_frame e] \<and>
    (es = [] \<and> e \<noteq> None \<or> (\<exists>m cs. es = Metadata m # map Token cs)) \<and>
    (list_all scalar_value t \<longrightarrow> json_loads (snd (named_frame jt (Token (PString t)))) = Some (PObject [(uni ''text'', PString t)]))"
  using chat_reads [of jt engine question, OF assms(4,6,5)] engine_turn [OF assms(1-3,6)] token_decodes
  by (auto simp: turn_events_def named_frame_def)

theorem chat_protocol_witness:
  "\<exists>texts e st'. chat \<lparr>jt_float = \<lambda>_. uni ''1.0'', jt_value = \<lambda>_. uni ''null''\<rparr> (custom_answer (\<lambda>_. False) (sample_clients [] []) default_settings) (uni ''x'') sample_rag
      = (EventStream texts, st') \<and> 1 \<le> length (read_events (concat texts)) \<and> last (read_events (concat texts)) = last_frame e"
proof -
  let ?jt = "\<lparr>jt_float = \<lambda>_. uni ''1.0'', jt_value = \<lambda>_. uni ''null''\<rparr>" and ?en = "custom_answer (\<lambda>_. False) (sample_clients [] []) default_settings"
  have jt: "plain_text ?jt" by (simp add: plain_text_def printable_def uni_def)
  have lc: "passes_through (plain_langchain :: ((unit, unit, unit) rag_state, unit) langchain)"
    by (simp add: passes_through_def plain_langchain_def)
  have en: "get_rag_engine (\<lambda>_. False) plain_langchain (sample_clients [] []) default_settings = Inr ?en"
    by (simp add: get_rag_engine_def default_settings_def)
  have q: "py_strip (uni ''x'') \<noteq> []" by (simp add: py_strip_def uni_def py_space_def)
  obtain es e st' where "?en (uni ''x'') sample_rag = (es, e, st')" using prod_cases3 by blast
  from chat_protocol [OF default_settings_valid lc en jt q this] show ?thesis by fastforce
qed

end
