(* ===== verification/Upload.thy ===== *)
theory Upload
  imports Content_Hash Config World Deletion_Service Embedding_Config Text_Extraction
begin

text \<open>
  Upload with content-hash deduplication (\<open>app/services/documents/dedup_service.py\<close>,
  \<open>upload_service.py\<close>) and download (\<open>download_service.py\<close>).  The state is the pair of the file storage
  and the database.  \<open>env 0\<close> is what other sessions commit while the object is being saved, \<open>env 1\<close>
  between a rejected commit and the reload of the winner.
\<close>

section \<open>The decision\<close>

definition content_hash_constraint_name :: ustr where
  "content_hash_constraint_name = uni ''uq_documents_content_hash''"

definition is_content_hash_violation :: "db_error \<Rightarrow> bool" where
  "is_content_hash_violation e \<longleftrightarrow> e = IntegrityError content_hash_constraint_name"

datatype upload_outcome = UpCreated | UpReusedActive | UpReusedIndexed | UpReusedFailed

record upload_decision =
  ud_outcome :: upload_outcome
  ud_document :: "document option"
  ud_ingestion_job :: "ingestion_job option"

definition find_document_by_content_hash :: "db \<Rightarrow> ustr \<Rightarrow> document option" where
  "find_document_by_content_hash d h = find (\<lambda>r. content_hash r = Some h) (documents d)"

definition blocking_deletion :: "db \<Rightarrow> ustr \<Rightarrow> exn option" where
  "blocking_deletion d document_id =
     (case map_option del_status (get_latest_deletion_job d document_id) of
        None \<Rightarrow> None
      | Some DelPending \<Rightarrow> Some (DeletionActiveError document_id)
      | Some DelProcessing \<Rightarrow> Some (DeletionActiveError document_id)
      | Some DelPartiallyFailed \<Rightarrow> Some (DeletionIncompleteError document_id)
      | Some DelCompleted \<Rightarrow> Some (DeletionInvariantViolationError document_id))"

definition decide_upload :: "db \<Rightarrow> ustr \<Rightarrow> exn + upload_decision" where
  "decide_upload d h =
     (case find_document_by_content_hash d h of
        None \<Rightarrow> Inr \<lparr>ud_outcome = UpCreated, ud_document = None, ud_ingestion_job = None\<rparr>
      | Some doc \<Rightarrow>
          (case blocking_deletion d (doc_id doc) of
             Some e \<Rightarrow> Inl e
           | None \<Rightarrow>
               (case get_latest_ingestion_job d (doc_id doc) of
                  None \<Rightarrow> Inl (RuntimeError (uni ''Document '' @ doc_id doc @ uni '' matched by content_hash has no ingestion job.''))
                | Some job \<Rightarrow> Inr
                    \<lparr>ud_outcome = (case ing_status job of IngPending \<Rightarrow> UpReusedActive | IngProcessing \<Rightarrow> UpReusedActive
                        | IngCompleted \<Rightarrow> UpReusedIndexed | IngFailed \<Rightarrow> UpReusedFailed),
                     ud_document = Some doc, ud_ingestion_job = Some job\<rparr>)))"

section \<open>Uploading\<close>

record upload_result =
  ur_document :: document
  ur_ingestion_job :: ingestion_job
  ur_outcome :: upload_outcome

definition decision_to_result :: "upload_decision \<Rightarrow> exn + upload_result" where
  "decision_to_result decision =
     (case (ud_document decision, ud_ingestion_job decision) of
        (Some doc, Some job) \<Rightarrow> Inr \<lparr>ur_document = doc, ur_ingestion_job = job, ur_outcome = ud_outcome decision\<rparr>
      | _ \<Rightarrow> Inl AssertionError)"

definition delete_best_effort :: "'f file_storage \<Rightarrow> ustr \<Rightarrow> 'f \<Rightarrow> 'f" where
  "delete_best_effort fs key f = snd (fs_delete fs key f)"

text \<open>The random identifiers of one upload.\<close>

record upload_ids =
  up_document_id :: ustr
  up_object_hex :: ustr
  up_job_id :: ustr

definition upload_key :: "upload_ids \<Rightarrow> ustr \<Rightarrow> ustr" where
  "upload_key ids filename = generate_object_key (up_object_hex ids) (up_document_id ids) filename"

definition new_document :: "settings \<Rightarrow> upload_ids \<Rightarrow> time \<Rightarrow> ustr \<Rightarrow> ustr \<Rightarrow> bytes \<Rightarrow> stored_file \<Rightarrow> document" where
  "new_document s ids db_now filename ctype content stored =
     (let key = upload_key ids filename in
      \<lparr>doc_id = up_document_id ids, original_filename = filename, stored_filename = last (split_on 47 key),
       content_type = ctype, file_size = int (length content), stored_path = key, doc_created_at = db_now,
       storage_provider = Some (file_storage_provider s),
       storage_bucket = (if file_storage_provider s = uni ''minio'' then minio_bucket s else None),
       storage_key = Some (sf_key stored), storage_etag = sf_etag stored,
       content_hash = Some (compute_content_hash content),
       embedding_provider = None, embedding_model = None, embedding_dimension = None, embedding_version = None,
       chunking_version = None, collection_name = None, indexed_at = None\<rparr>)"

definition new_ingestion_job :: "upload_ids \<Rightarrow> time \<Rightarrow> ingestion_job" where
  "new_ingestion_job ids db_now =
     \<lparr>ing_id = up_job_id ids, ing_document_id = up_document_id ids, ing_status = IngPending, ing_error_message = None,
      ing_created_at = db_now, ing_updated_at = db_now\<rparr>"

definition add_upload :: "document \<Rightarrow> ingestion_job \<Rightarrow> db \<Rightarrow> db" where
  "add_upload doc job d = d\<lparr>documents := documents d @ [doc], ingestion_jobs := ingestion_jobs d @ [job]\<rparr>"

definition recover_upload :: "db_error \<Rightarrow> ustr \<Rightarrow> db \<Rightarrow> exn + upload_result" where
  "recover_upload e h d =
     (if \<not> is_content_hash_violation e then Inl (DatabaseErr e)
      else (case decide_upload d h of
          Inl x \<Rightarrow> Inl x
        | Inr winner \<Rightarrow>
            if ud_outcome winner = UpCreated then Inl (MissingWinnerAfterRaceError h) else decision_to_result winner))"

definition upload_document :: "'f file_storage \<Rightarrow> settings \<Rightarrow> (nat \<Rightarrow> db \<Rightarrow> db) \<Rightarrow> upload_ids \<Rightarrow> time \<Rightarrow> bytes \<Rightarrow> ustr \<Rightarrow> ustr \<Rightarrow>
    ('f \<times> db, exn, upload_result) call" where
  "upload_document fs s env ids db_now content filename ctype = (\<lambda>(f, d).
     (let h = compute_content_hash content; key = upload_key ids filename in
      case decide_upload d h of
        Inl e \<Rightarrow> (Inl e, f, d)
      | Inr decision \<Rightarrow>
          if ud_outcome decision \<noteq> UpCreated then (decision_to_result decision, f, d)
          else (case fs_save fs key content (Some ctype) [] f of
              (Inl e, f1) \<Rightarrow> (Inl e, f1, env 0 d)
            | (Inr stored, f1) \<Rightarrow>
                let doc = new_document s ids db_now filename ctype content stored; job = new_ingestion_job ids db_now in
                (case commit (add_upload doc job (env 0 d)) of
                   Inr d' \<Rightarrow> (Inr \<lparr>ur_document = doc, ur_ingestion_job = job, ur_outcome = UpCreated\<rparr>, f1, d')
                 | Inl e \<Rightarrow>
                     (let d1 = (if is_content_hash_violation e then env 1 (env 0 d) else env 0 d) in
                      (recover_upload e h d1, delete_best_effort fs key f1, d1))))))"

section \<open>Downloading\<close>

record download_result =
  dl_status_code :: nat
  dl_content :: "bytes option"
  dl_content_type :: "ustr option"
  dl_original_filename :: "ustr option"
  dl_detail :: "ustr option"

definition download_failure :: "nat \<Rightarrow> string \<Rightarrow> download_result" where
  "download_failure code detail =
     \<lparr>dl_status_code = code, dl_content = None, dl_content_type = None, dl_original_filename = None, dl_detail = Some (uni detail)\<rparr>"

definition resolve_download_key :: "document \<Rightarrow> ustr" where
  "resolve_download_key doc = resolve_document_storage_key doc"

definition download_document :: "'f file_storage \<Rightarrow> db \<Rightarrow> ustr \<Rightarrow> ('f, exn, download_result) call" where
  "download_document fs d document_id f =
     (case get_document d document_id of
        None \<Rightarrow> (Inr (download_failure 404 ''Document not found.''), f)
      | Some doc \<Rightarrow>
          if map_option del_status (get_latest_deletion_job d document_id) = Some DelCompleted then
            (Inr (download_failure 410 ''Document has been deleted.''), f)
          else (case fs_read fs (resolve_download_key doc) f of
              (Inl (StorageErr (StorageObjectNotFoundError _)), f1) \<Rightarrow>
                (Inr (download_failure 409 ''Document exists but its content is unavailable in storage.''), f1)
            | (Inl (StorageErr (StorageUnavailableError _)), f1) \<Rightarrow>
                (Inr (download_failure 503 ''Storage backend is unavailable.''), f1)
            | (Inl (StorageErr (StorageReadError _)), f1) \<Rightarrow>
                (Inr (download_failure 503 ''Storage backend is unavailable.''), f1)
            | (Inl e, f1) \<Rightarrow> (Inl e, f1)
            | (Inr bytes, f1) \<Rightarrow>
                (Inr \<lparr>dl_status_code = 200, dl_content = Some bytes, dl_content_type = Some (content_type doc),
                   dl_original_filename = Some (original_filename doc), dl_detail = None\<rparr>, f1)))"

section \<open>One document per content\<close>

lemma map_filter_unique:
  "distinct (List.map_filter f rows) \<Longrightarrow> r \<in> set rows \<Longrightarrow> q \<in> set rows \<Longrightarrow> f r = Some h \<Longrightarrow> f q = Some h \<Longrightarrow> r = q"
proof (induction rows)
  case Nil
  then show ?case by simp
next
  case (Cons a rows)
  have mem: "h \<in> set (List.map_filter f rows)" if "x \<in> set rows" "f x = Some h" for x
    using that by (auto simp: List.map_filter_def intro!: image_eqI [of _ _ x])
  show ?case
    using Cons mem [of r] mem [of q] by (auto simp: map_filter_simps split: option.splits)
qed

lemma content_hash_unique: "db_ok d \<Longrightarrow> r \<in> set (documents d) \<Longrightarrow> q \<in> set (documents d) \<Longrightarrow>
    content_hash r = Some h \<Longrightarrow> content_hash q = Some h \<Longrightarrow> r = q"
  using map_filter_unique [of content_hash "documents d" r q h] by (simp add: db_ok_checks check_None)

lemma distinct_single: "distinct xs \<Longrightarrow> set xs = {q} \<Longrightarrow> xs = [q]"
  by (cases xs) (auto simp: subset_singleton_iff dest: subset_singletonD)

lemma one_document_of_hash:
  assumes "db_ok d" and "q \<in> set (documents d)" and "content_hash q = Some h"
  shows "filter (\<lambda>doc. content_hash doc = Some h) (documents d) = [q]"
proof -
  let ?xs = "filter (\<lambda>doc. content_hash doc = Some h) (documents d)"
  have "distinct (documents d)" using assms(1) by (simp add: db_ok_checks check_None distinct_map)
  then have dis: "distinct ?xs" by simp
  have "x = q" if "x \<in> set ?xs" for x
    using that by (intro content_hash_unique [OF assms(1) _ assms(2) _ assms(3)]) simp_all
  moreover have "q \<in> set ?xs" using assms(2,3) by simp
  ultimately have "set ?xs = {q}" by blast
  with dis show ?thesis by (rule distinct_single)
qed

text \<open>What an answer other than a creation is about.\<close>

definition reusable :: "db \<Rightarrow> ustr \<Rightarrow> upload_result \<Rightarrow> bool" where
  "reusable d h res \<longleftrightarrow> ur_outcome res \<noteq> UpCreated \<and> ur_document res \<in> set (documents d) \<and>
     content_hash (ur_document res) = Some h \<and> get_latest_deletion_job d (doc_id (ur_document res)) = None \<and>
     get_latest_ingestion_job d (doc_id (ur_document res)) = Some (ur_ingestion_job res)"

lemma blocking_deletion_None: "blocking_deletion d i = None \<longleftrightarrow> get_latest_deletion_job d i = None"
  by (auto simp: blocking_deletion_def split: option.splits deletion_status.splits)

lemma decide_reuse:
  assumes "decide_upload d h = Inr decision" and "ud_outcome decision \<noteq> UpCreated"
  shows "\<exists>res. decision_to_result decision = Inr res \<and> reusable d h res"
  using assms
  by (auto simp: decide_upload_def decision_to_result_def reusable_def find_document_by_content_hash_def blocking_deletion_None
      find_Some_iff split: option.splits ingestion_status.splits)

lemma recover_reuse: "recover_upload e h d = Inr res \<Longrightarrow> reusable d h res"
  using decide_reuse [of d h] by (auto simp: recover_upload_def split: if_splits sum.splits)

lemma upload_cases:
  assumes "upload_document fs s env ids db_now content filename ctype (f, d) = (r, f', d')"
  defines "h \<equiv> compute_content_hash content" and "key \<equiv> upload_key ids filename"
  obtains (early) "f' = f" "d' = d" "\<And>res. r = Inr res \<Longrightarrow> reusable d h res"
  | (unsaved) e where "fs_save fs key content (Some ctype) [] f = (Inl e, f')" "r = Inl e" "d' = env 0 d"
  | (created) stored where "fs_save fs key content (Some ctype) [] f = (Inr stored, f')" "find_document_by_content_hash d h = None"
      "r = Inr \<lparr>ur_document = new_document s ids db_now filename ctype content stored,
                ur_ingestion_job = new_ingestion_job ids db_now, ur_outcome = UpCreated\<rparr>"
      "d' = add_upload (new_document s ids db_now filename ctype content stored) (new_ingestion_job ids db_now) (env 0 d)" "db_ok d'"
  | (rejected) e stored f1 where "fs_save fs key content (Some ctype) [] f = (Inr stored, f1)"
      "f' = delete_best_effort fs key f1" "r = recover_upload e h d'" "d' = env 1 (env 0 d) \<or> d' = env 0 d"
proof (cases "decide_upload d h")
  case (Inl e)
  with assms have "r = Inl e" "f' = f" "d' = d" by (auto simp: upload_document_def)
  then show thesis by (intro early) simp_all
next
  case (Inr decision)
  note dec = this
  show thesis
  proof (cases "ud_outcome decision = UpCreated")
    case False
    with assms dec early decide_reuse [OF dec False] show thesis by (auto simp: upload_document_def)
  next
    case True
    have none: "find_document_by_content_hash d h = None"
      using dec True by (auto simp: decide_upload_def split: option.splits ingestion_status.splits)
    obtain x f1 where sv: "fs_save fs key content (Some ctype) [] f = (x, f1)" by fastforce
    show thesis
    proof (cases x)
      case (Inl e)
      with assms dec True sv unsaved show thesis by (simp add: upload_document_def Let_def)
    next
      case (Inr stored)
      note st = this
      let ?d = "add_upload (new_document s ids db_now filename ctype content stored) (new_ingestion_job ids db_now) (env 0 d)"
      show thesis
      proof (cases "commit ?d")
        case (Inr d2)
        with assms dec True sv st none created [of stored] show thesis by (simp add: upload_document_def Let_def commit_Inr)
      next
        case (Inl e)
        with assms dec True sv st rejected [of stored f1 e] show thesis by (auto simp: upload_document_def Let_def split: if_splits)
      qed
    qed
  qed
qed

lemma add_upload_db [simp]:
  "documents (add_upload doc job d) = documents d @ [doc]" "ingestion_jobs (add_upload doc job d) = ingestion_jobs d @ [job]"
  by (simp_all add: add_upload_def)

lemma new_ingestion_job_simps [simp]: "ing_document_id (new_ingestion_job ids t) = up_document_id ids"
  "ing_active (new_ingestion_job ids t)" "ing_status (new_ingestion_job ids t) = IngPending"
  by (simp_all add: new_ingestion_job_def ing_active_def)

lemma new_document_simps [simp]: "doc_id (new_document s ids t filename ctype content stored) = up_document_id ids"
  "content_hash (new_document s ids t filename ctype content stored) = Some (compute_content_hash content)"
  by (simp_all add: new_document_def Let_def)

text \<open>C5: Whatever other sessions commit meanwhile, an upload leaves a valid database and touches no stored
  object but its own; whatever it answers, the document it reports is the only one with that content
  hash; a created document has its bytes stored and one active ingestion job, and a reused one has
  never been scheduled for deletion.\<close>

theorem upload_single_owner:
  assumes fst: "file_store fs address objects" and ok: "db_ok d" and env: "\<And>k x. db_ok x \<Longrightarrow> db_ok (env k x)"
    and run: "upload_document fs s env ids db_now content filename ctype (f, d) = (r, f', d')"
  shows "db_ok d' \<and>
    (\<forall>a. address (upload_key ids filename) \<noteq> Some a \<longrightarrow> objects f' a = objects f a) \<and>
    (\<forall>res. r = Inr res \<longrightarrow>
      filter (\<lambda>doc. content_hash doc = Some (compute_content_hash content)) (documents d') = [ur_document res] \<and>
      (if ur_outcome res = UpCreated then
         (\<exists>a. address (upload_key ids filename) = Some a \<and> objects f' a = Some content) \<and>
         filter (\<lambda>j. ing_document_id j = doc_id (ur_document res) \<and> ing_active j) (ingestion_jobs d') = [ur_ingestion_job res]
       else get_latest_deletion_job d' (doc_id (ur_document res)) = None))"
proof -
  let ?h = "compute_content_hash content" and ?key = "upload_key ids filename"
  note one = one_document_of_hash [of _ _ ?h]
  have reuse: "filter (\<lambda>doc. content_hash doc = Some ?h) (documents x) = [ur_document res] \<and> ur_outcome res \<noteq> UpCreated \<and>
      get_latest_deletion_job x (doc_id (ur_document res)) = None" if "db_ok x" "reusable x ?h res" for x res
    using one that by (simp add: reusable_def)
  from run show ?thesis
  proof (cases rule: upload_cases)
    case early
    with ok reuse show ?thesis by auto
  next
    case (unsaved e)
    with env [OF ok] file_store.save_frame [OF fst, of ?key _ content "Some ctype" "[]" f] show ?thesis by auto
  next
    case (created stored)
    let ?doc = "new_document s ids db_now filename ctype content stored"
    let ?j = "\<lambda>j. ing_document_id j = up_document_id ids \<and> ing_active j"
    have jobs: "filter ?j (ingestion_jobs d') = [new_ingestion_job ids db_now]"
      using filter_active_snoc [of ing_document_id ing_active "ingestion_jobs (env 0 d)" "new_ingestion_job ids db_now"]
        ing_table.active_index [OF created(5)] created(4) by simp
    have docs: "filter (\<lambda>doc. content_hash doc = Some ?h) (documents d') = [?doc]"
      by (rule one [OF created(5)]) (simp_all add: created(4))
    obtain a where "address ?key = Some a" "objects f' = (objects f)(a := Some content)"
      using file_store.save_ok [OF fst created(1)] by auto
    then have "(\<exists>a. address ?key = Some a \<and> objects f' a = Some content) \<and> (\<forall>a. address ?key \<noteq> Some a \<longrightarrow> objects f' a = objects f a)"
      by auto
    with jobs docs created(3,5) show ?thesis by simp
  next
    case (rejected e stored f1)
    have fr: "objects f' a = objects f a" if "address ?key \<noteq> Some a" for a
      using rejected(1,2) that file_store.save_frame [OF fst, of ?key a content "Some ctype" "[]" f]
        file_store.delete_frame [OF fst, of ?key a f1] by (simp add: delete_best_effort_def)
    have "db_ok d'" using rejected(4) env ok by auto
    with rejected(3) recover_reuse [of e ?h d'] reuse fr show ?thesis by auto
  qed
qed

section \<open>Round trip\<close>

lemma get_document_appended:
  "db_ok (add_upload doc job d) \<Longrightarrow> get_document (add_upload doc job d) (doc_id doc) = Some doc"
  by (simp add: get_document_def get_row_distinct db_ok_checks check_None)

lemma download_cases:
  assumes "get_document d i = Some doc" and "map_option del_status (get_latest_deletion_job d i) \<noteq> Some DelCompleted"
    and "download_document fs d i f = (r, f')"
  obtains (served) c where "fs_read fs (resolve_download_key doc) f = (Inr c, f')"
      "r = Inr \<lparr>dl_status_code = 200, dl_content = Some c, dl_content_type = Some (content_type doc),
        dl_original_filename = Some (original_filename doc), dl_detail = None\<rparr>"
  | (failed) e where "fs_read fs (resolve_download_key doc) f = (Inl e, f')"
      "(\<nexists>m. e = StorageErr (StorageObjectNotFoundError m)) \<Longrightarrow> r = Inl e \<or> (\<exists>res. r = Inr res \<and> dl_status_code res = 503)"
proof (cases "fs_read fs (resolve_download_key doc) f")
  case (Pair x f1)
  show thesis
  proof (cases x)
    case (Inr c)
    with assms Pair served show thesis by (simp add: download_document_def del: map_option_eq_Some)
  next
    case (Inl e)
    with assms Pair have run: "(case e of
        StorageErr (StorageObjectNotFoundError _) \<Rightarrow>
          (Inr (download_failure 409 ''Document exists but its content is unavailable in storage.''), f1)
      | StorageErr (StorageUnavailableError _) \<Rightarrow> (Inr (download_failure 503 ''Storage backend is unavailable.''), f1)
      | StorageErr (StorageReadError _) \<Rightarrow> (Inr (download_failure 503 ''Storage backend is unavailable.''), f1)
      | _ \<Rightarrow> (Inl e, f1)) = (r, f')"
      by (cases e)
        (simp_all add: download_document_def del: map_option_eq_Some split: storage_exn.splits)
    then have "f1 = f'" by (cases e) (simp_all split: storage_exn.splits)
    moreover have "r = Inl e \<or> (\<exists>res. r = Inr res \<and> dl_status_code res = 503)"
      if "\<nexists>m. e = StorageErr (StorageObjectNotFoundError m)"
      using run that by (cases e) (auto simp: download_failure_def split: storage_exn.splits)
    ultimately show thesis using Pair Inl failed by simp
  qed
qed

text \<open>C30: What an upload created is served back: in every later state that still has the row and the object,
  a download answers with the very bytes, the content type and the filename of the upload whenever
  the storage answers the read, and otherwise it reports the storage as unavailable or raises the
  error of the storage; it never answers that the document or its content does not exist.\<close>

theorem upload_download_round_trip:
  assumes fst: "file_store fs address objects"
    and up: "upload_document fs s env ids db_now content filename ctype (f, d) = (Inr res, f', d')"
    and created: "ur_outcome res = UpCreated"
    and row: "get_document d2 (doc_id (ur_document res)) = get_document d' (doc_id (ur_document res))"
    and alive: "map_option del_status (get_latest_deletion_job d2 (doc_id (ur_document res))) \<noteq> Some DelCompleted"
    and kept: "\<And>a. address (upload_key ids filename) = Some a \<Longrightarrow> objects f2 a = objects f' a"
    and down: "download_document fs d2 (doc_id (ur_document res)) f2 = (r, f3)"
  shows "objects f3 = objects f2 \<and>
    (case fst (fs_read fs (upload_key ids filename) f2) of
       Inr _ \<Rightarrow> r = Inr \<lparr>dl_status_code = 200, dl_content = Some content, dl_content_type = Some ctype,
                  dl_original_filename = Some filename, dl_detail = None\<rparr>
     | Inl e \<Rightarrow> r = Inl e \<or> (\<exists>res. r = Inr res \<and> dl_status_code res = 503))"
  using up
proof (cases rule: upload_cases)
  case early
  with created show ?thesis by (simp add: reusable_def)
next
  case (rejected e stored f1)
  from rejected(3) have "reusable d' (compute_content_hash content) res" by (intro recover_reuse) simp
  with created show ?thesis by (simp add: reusable_def)
next
  case (created stored)
  let ?doc = "new_document s ids db_now filename ctype content stored"
  have res: "ur_document res = ?doc" using created(3) by simp
  have gd: "get_document d2 (doc_id ?doc) = Some ?doc"
    using row get_document_appended [OF created(5) [unfolded created(4)]] by (simp add: res created(4))
  obtain a where a: "address (upload_key ids filename) = Some a" "objects f' a = Some content" "sf_key stored = upload_key ids filename"
    using file_store.save_ok [OF fst created(1)] by auto
  then have key: "resolve_download_key ?doc = upload_key ids filename"
    by (simp add: resolve_download_key_def resolve_document_storage_key_def new_document_def Let_def upload_key_def
        generate_object_key_def uni_def)
  note cases = download_cases [OF gd alive [unfolded res] down [unfolded res]]
  show ?thesis
  proof (cases rule: cases)
    case 1: (1 c)
    with key file_store.read_ok [OF fst 1(1)] a kept [OF a(1)] file_store.read_frame [OF fst, of "upload_key ids filename" f2]
    show ?thesis by (auto simp: new_document_def Let_def)
  next
    case 2: (2 e)
    have "\<nexists>m. e = StorageErr (StorageObjectNotFoundError m)"
      using 2(1) key a kept [OF a(1)] file_store.read_missing [OF fst, of "upload_key ids filename" f2] by auto
    with 2 key file_store.read_frame [OF fst, of "upload_key ids filename" f2] show ?thesis by auto
  qed
qed simp

text \<open>A first upload into an empty installation.\<close>

definition first_ids :: upload_ids where
  "first_ids = \<lparr>up_document_id = uni ''d1'', up_object_hex = uni ''0af3'', up_job_id = uni ''j1''\<rparr>"

definition first_upload :: "bytes \<Rightarrow> (local_fs \<times> db, exn, upload_result) call" where
  "first_upload content = upload_document sample_storage default_settings (\<lambda>_ d. d) first_ids 5 content (uni ''a.txt'') (uni ''text/plain'')"

lemma first_key: "upload_key first_ids (uni ''a.txt'') = uni ''documents/d1/0af3.txt''"
  by (simp add: upload_key_def first_ids_def generate_object_key_def path_suffix_def path_name_def path_parts_def uni_def Let_def
      max_safe_suffix_length_def safe_suffix_match_def ascii_alnum_def)

lemma first_save: "\<exists>stored s1. fs_save sample_storage (uni ''documents/d1/0af3.txt'') [104, 105] (Some ct) [] sample_fs = (Inr stored, s1) \<and>
    sf_key stored = uni ''documents/d1/0af3.txt'' \<and> sf_etag stored = None \<and> os_faults s1 = []"
  by (simp add: sample_storage_def local_file_storage_def local_save_def resolve_def validate_object_key_def path_parts_def
      uni_def py_strip_def py_space_def is_absolute_def write_bytes_def next_fault_def sample_fs_def Let_def
      mkdir_parents_def strict_prefixes_def is_file_def upt_conv_Cons)

lemma first_read:
  assumes "fs_save sample_storage k b ct [] s = (Inr stored, s1)" and "os_faults s1 = []"
  shows "fs_read sample_storage k s1 = (Inr b, s1)"
proof -
  obtain p where "local_address [uni ''srv''] k = Some p" "file_content s1 p = Some b"
    using file_store.save_ok [OF sample_file_store assms(1)] by auto
  with local_read_no_fault [of s1 p b "[uni ''srv'']" k] assms(2) show ?thesis
    by (auto simp: sample_storage_def local_file_storage_def local_address_def split: sum.splits)
qed

lemma first_upload_creates: "\<exists>res f d. first_upload [104, 105] (sample_fs, empty_db) = (Inr res, f, d) \<and> ur_outcome res = UpCreated \<and>
    doc_id (ur_document res) = uni ''d1'' \<and> deletion_jobs d = [] \<and> db_ok d \<and>
    fs_read sample_storage (uni ''documents/d1/0af3.txt'') f = (Inr [104, 105], f)"
proof -
  let ?h = "compute_content_hash [104, 105]"
  obtain stored s1 where sv: "fs_save sample_storage (uni ''documents/d1/0af3.txt'') [104, 105] (Some (uni ''text/plain'')) [] sample_fs = (Inr stored, s1)"
    "sf_key stored = uni ''documents/d1/0af3.txt''" "sf_etag stored = None" "os_faults s1 = []" using first_save by blast
  let ?doc = "new_document default_settings first_ids 5 (uni ''a.txt'') (uni ''text/plain'') [104, 105] stored"
  let ?d = "add_upload ?doc (new_ingestion_job first_ids 5) empty_db"
  have dec: "decide_upload empty_db ?h = Inr \<lparr>ud_outcome = UpCreated, ud_document = None, ud_ingestion_job = None\<rparr>"
    by (simp add: decide_upload_def find_document_by_content_hash_def empty_db_def)
  have cols: "document_columns ?doc = None"
    using first_key sv(2,3) by (simp add: document_columns_def new_document_def Let_def hash_length too_long_opt_def too_long_def
        first_ids_def default_settings_def uni_def no_int4_def no_int4_opt_def)
  have "ingestion_columns (new_ingestion_job first_ids 5) = None"
    by (simp add: ingestion_columns_def new_ingestion_job_def first_ids_def too_long_def too_long_opt_def uni_def)
  with cols have "db_ok ?d"
    by (simp add: db_ok_checks check_None fits_def add_upload_def empty_db_def one_active_def new_document_def Let_def)
  then have "first_upload [104, 105] (sample_fs, empty_db) =
      (Inr \<lparr>ur_document = ?doc, ur_ingestion_job = new_ingestion_job first_ids 5, ur_outcome = UpCreated\<rparr>, s1, ?d)"
    using dec sv(1) by (simp add: first_upload_def upload_document_def first_key Let_def)
  moreover have "fs_read sample_storage (uni ''documents/d1/0af3.txt'') s1 = (Inr [104, 105], s1)"
    using first_read [OF sv(1,4)] .
  ultimately show ?thesis using \<open>db_ok ?d\<close> by (simp add: first_ids_def add_upload_def empty_db_def)
qed

theorem upload_single_owner_witness:
  "\<exists>res f d. first_upload [104, 105] (sample_fs, empty_db) = (Inr res, f, d) \<and>
    filter (\<lambda>doc. content_hash doc = Some (compute_content_hash [104, 105])) (documents d) = [ur_document res]"
proof -
  obtain res f d where run: "first_upload [104, 105] (sample_fs, empty_db) = (Inr res, f, d)" using first_upload_creates by blast
  have "db_ok empty_db" by (simp add: db_ok_checks check_None fits_def empty_db_def)
  with upload_single_owner [OF sample_file_store _ _ run [unfolded first_upload_def]] run show ?thesis by auto
qed

theorem upload_download_round_trip_witness:
  "\<exists>res f d. first_upload [104, 105] (sample_fs, empty_db) = (Inr res, f, d) \<and>
    fst (download_document sample_storage d (uni ''d1'') f) =
      Inr \<lparr>dl_status_code = 200, dl_content = Some [104, 105], dl_content_type = Some (uni ''text/plain''),
         dl_original_filename = Some (uni ''a.txt''), dl_detail = None\<rparr>"
proof -
  obtain res f d where run: "first_upload [104, 105] (sample_fs, empty_db) = (Inr res, f, d)" "ur_outcome res = UpCreated"
    "doc_id (ur_document res) = uni ''d1''" "deletion_jobs d = []" "db_ok d" "fs_read sample_storage (uni ''documents/d1/0af3.txt'') f = (Inr [104, 105], f)"
    using first_upload_creates by blast
  obtain r f3 where down: "download_document sample_storage d (doc_id (ur_document res)) f = (r, f3)" by fastforce
  note trip = upload_download_round_trip [OF sample_file_store run(1) [unfolded first_upload_def] run(2) refl _ _ down]
  have "get_latest_deletion_job d i = None" for i
    using run(4) by (simp add: get_latest_deletion_job_def latest_of_None)
  with trip run(6) have "r = Inr \<lparr>dl_status_code = 200, dl_content = Some [104, 105], dl_content_type = Some (uni ''text/plain''),
      dl_original_filename = Some (uni ''a.txt''), dl_detail = None\<rparr>" by (simp add: first_key)
  with run(1,3) down show ?thesis by auto
qed

end
