(* ===== verification/Query_Service.thy ===== *)
theory Query_Service
  imports Deletion_Service "HOL-Library.Multiset"
begin

text \<open>
  The read side (\<open>app/services/documents/query_service.py\<close> and its response schemas): the lifecycle
  status derived from the latest jobs, the document list, the detail, ingestion and failure views.
\<close>

datatype lifecycle_status =
  Uploaded | Pending | Processing | Indexed | Failed | Deleting | DeletionFailed | Deleted

fun lifecycle_status_value :: "lifecycle_status \<Rightarrow> ustr" where
  "lifecycle_status_value Uploaded = uni ''uploaded''"
| "lifecycle_status_value Pending = uni ''pending''"
| "lifecycle_status_value Processing = uni ''processing''"
| "lifecycle_status_value Indexed = uni ''indexed''"
| "lifecycle_status_value Failed = uni ''failed''"
| "lifecycle_status_value Deleting = uni ''deleting''"
| "lifecycle_status_value DeletionFailed = uni ''deletion_failed''"
| "lifecycle_status_value Deleted = uni ''deleted''"

definition derive_lifecycle_status ::
  "document \<Rightarrow> ingestion_job option \<Rightarrow> deletion_job option \<Rightarrow> lifecycle_status" where
  "derive_lifecycle_status doc latest_job latest_deletion_job =
     (case latest_deletion_job of
        Some j \<Rightarrow> (case del_status j of
            DelPending \<Rightarrow> Deleting
          | DelProcessing \<Rightarrow> Deleting
          | DelPartiallyFailed \<Rightarrow> DeletionFailed
          | DelCompleted \<Rightarrow> Deleted)
      | None \<Rightarrow> (case latest_job of
            None \<Rightarrow> Uploaded
          | Some j \<Rightarrow> (case ing_status j of
                IngPending \<Rightarrow> Pending
              | IngProcessing \<Rightarrow> Processing
              | IngFailed \<Rightarrow> Failed
              | IngCompleted \<Rightarrow> Indexed)))"

definition sanitize_ingestion_error :: "ustr option \<Rightarrow> ustr" where
  "sanitize_ingestion_error raw_error_message =
     uni ''Document ingestion failed. See server logs for the underlying error.''"

section \<open>Views\<close>

record document_summary =
  sum_id :: ustr
  sum_original_filename :: ustr
  sum_content_type :: ustr
  sum_size_bytes :: int
  sum_status :: lifecycle_status
  sum_created_at :: time
  sum_latest_ingestion_activity_at :: "time option"

record document_list =
  items :: "document_summary list"
  total :: nat
  list_limit :: nat
  list_offset :: nat

record document_detail =
  det_id :: ustr
  det_original_filename :: ustr
  det_content_type :: ustr
  det_size_bytes :: int
  det_storage_provider :: "ustr option"
  det_status :: lifecycle_status
  det_collection_name :: "ustr option"
  det_embedding_version :: "ustr option"
  det_chunking_version :: "ustr option"
  det_indexed_at :: "time option"
  det_latest_ingestion_job_id :: "ustr option"
  det_latest_ingestion_status :: "ingestion_status option"
  det_created_at :: time

record ingestion_status_response =
  isr_document_id :: ustr
  isr_job_id :: "ustr option"
  isr_status :: "ingestion_status option"
  isr_created_at :: "time option"
  isr_updated_at :: "time option"

record ingestion_failure_response =
  ifr_document_id :: ustr
  ifr_job_id :: ustr
  ifr_status :: ingestion_status
  ifr_safe_message :: ustr
  ifr_failed_at :: time

text \<open>\<open>ORDER BY created_at DESC, id DESC LIMIT limit OFFSET offset\<close>.\<close>

definition list_documents :: "db \<Rightarrow> nat \<Rightarrow> nat \<Rightarrow> document list \<times> nat" where
  "list_documents d limit offset =
     (take limit (drop offset (rev (sort_key (row_key doc_created_at doc_id) (documents d)))),
      length (documents d))"

definition to_summary ::
  "document \<Rightarrow> ingestion_job option \<Rightarrow> deletion_job option \<Rightarrow> document_summary" where
  "to_summary doc latest_job latest_deletion_job =
     \<lparr>sum_id = doc_id doc, sum_original_filename = original_filename doc,
      sum_content_type = content_type doc, sum_size_bytes = file_size doc,
      sum_status = derive_lifecycle_status doc latest_job latest_deletion_job,
      sum_created_at = doc_created_at doc,
      sum_latest_ingestion_activity_at = map_option ing_updated_at latest_job\<rparr>"

definition build_document_list_response :: "db \<Rightarrow> nat \<Rightarrow> nat \<Rightarrow> document_list" where
  "build_document_list_response d limit offset =
     (let (docs, n) = list_documents d limit offset;
          document_ids = map doc_id docs;
          latest_jobs = get_latest_jobs_for_documents d document_ids;
          latest_deletion_jobs = get_latest_deletion_jobs_for_documents d document_ids
      in \<lparr>items = map (\<lambda>doc. to_summary doc (latest_jobs (doc_id doc)) (latest_deletion_jobs (doc_id doc))) docs,
          total = n, list_limit = limit, list_offset = offset\<rparr>)"

text \<open>Each lookup returns the response body and the HTTP status.\<close>

definition get_document_detail_result :: "db \<Rightarrow> ustr \<Rightarrow> document_detail option \<times> nat" where
  "get_document_detail_result d document_id =
     (case get_document d document_id of
        None \<Rightarrow> (None, 404)
      | Some doc \<Rightarrow>
          let latest_job = get_latest_ingestion_job d document_id;
              latest_deletion_job = get_latest_deletion_job d document_id in
          (Some \<lparr>det_id = doc_id doc, det_original_filename = original_filename doc,
             det_content_type = content_type doc, det_size_bytes = file_size doc,
             det_storage_provider = storage_provider doc,
             det_status = derive_lifecycle_status doc latest_job latest_deletion_job,
             det_collection_name = collection_name doc,
             det_embedding_version = document.embedding_version doc,
             det_chunking_version = chunking_version doc, det_indexed_at = indexed_at doc,
             det_latest_ingestion_job_id = map_option ing_id latest_job,
             det_latest_ingestion_status = map_option ing_status latest_job,
             det_created_at = doc_created_at doc\<rparr>, 200))"

definition get_document_ingestion_result :: "db \<Rightarrow> ustr \<Rightarrow> ingestion_status_response option \<times> nat" where
  "get_document_ingestion_result d document_id =
     (case get_document d document_id of
        None \<Rightarrow> (None, 404)
      | Some _ \<Rightarrow>
          let latest_job = get_latest_ingestion_job d document_id in
          (Some \<lparr>isr_document_id = document_id, isr_job_id = map_option ing_id latest_job,
             isr_status = map_option ing_status latest_job,
             isr_created_at = map_option ing_created_at latest_job,
             isr_updated_at = map_option ing_updated_at latest_job\<rparr>, 200))"

definition get_document_failure_result :: "db \<Rightarrow> ustr \<Rightarrow> ingestion_failure_response option \<times> nat" where
  "get_document_failure_result d document_id =
     (case get_document d document_id of
        None \<Rightarrow> (None, 404)
      | Some _ \<Rightarrow> (case get_latest_failed_ingestion_job d document_id of
            None \<Rightarrow> (None, 404)
          | Some failed_job \<Rightarrow>
              (Some \<lparr>ifr_document_id = document_id, ifr_job_id = ing_id failed_job,
                 ifr_status = ing_status failed_job,
                 ifr_safe_message = sanitize_ingestion_error (ing_error_message failed_job),
                 ifr_failed_at = ing_updated_at failed_job\<rparr>, 200)))"

text \<open>The list and the detail view of a document always agree on its lifecycle status, although one
  resolves the latest jobs in one batched query and the other with a query per table.\<close>

lemma list_documents_subset: "set (fst (list_documents d limit offset)) \<subseteq> set (documents d)"
proof -
  have "set (fst (list_documents d limit offset)) \<subseteq>
      set (rev (sort_key (row_key doc_created_at doc_id) (documents d)))"
    by (simp only: list_documents_def fst_conv) (meson order_trans set_drop_subset set_take_subset)
  then show ?thesis by simp
qed

text \<open>C19: list and detail agree.\<close>

theorem list_agrees_with_detail:
  assumes "db_ok d" and "s \<in> set (items (build_document_list_response d limit offset))"
  shows "\<exists>det. get_document_detail_result d (sum_id s) = (Some det, 200) \<and> det_status det = sum_status s"
proof -
  let ?docs = "fst (list_documents d limit offset)"
  from assms(2) obtain doc where doc: "doc \<in> set ?docs" and s: "s = to_summary doc
      (get_latest_jobs_for_documents d (map doc_id ?docs) (doc_id doc))
      (get_latest_deletion_jobs_for_documents d (map doc_id ?docs) (doc_id doc))"
    by (auto simp: build_document_list_response_def Let_def case_prod_unfold)
  have "get_document d (doc_id doc) = Some doc"
    unfolding get_document_def using assms(1) doc list_documents_subset [of d limit offset]
    by (auto simp: db_ok_checks check_None intro: get_row_distinct)
  moreover have "get_latest_jobs_for_documents d (map doc_id ?docs) (doc_id doc) =
      get_latest_ingestion_job d (doc_id doc)"
    and "get_latest_deletion_jobs_for_documents d (map doc_id ?docs) (doc_id doc) =
      get_latest_deletion_job d (doc_id doc)"
    using doc ing_table.batched_latest [OF assms(1), of "doc_id doc" "set (map doc_id ?docs)"]
      del_table.batched_latest [OF assms(1), of "doc_id doc" "set (map doc_id ?docs)"]
    by (auto simp: get_latest_jobs_for_documents_def get_latest_ingestion_job_def
        get_latest_deletion_jobs_for_documents_def get_latest_deletion_job_def)
  ultimately show ?thesis
    using s by (simp add: get_document_detail_result_def Let_def to_summary_def)
qed

lemma concat_pages: "concat (map (\<lambda>k. take l (drop (k * l) xs)) [0..<n]) = take (n * l) xs"
proof (induction n)
  case 0
  then show ?case by simp
next
  case (Suc n)
  have "take (Suc n * l) xs = take (n * l) xs @ take l (drop (n * l) xs)"
    by (metis add.commute mult_Suc take_add)
  with Suc show ?case by simp
qed

text \<open>Reading the document list page by page gives every document of the table exactly once, newest
  first, when enough pages are read.\<close>

theorem list_pages_complete:
  assumes "length (documents d) \<le> n * limit"
  shows "mset (concat (map (\<lambda>k. fst (list_documents d limit (k * limit))) [0..<n])) = mset (documents d) \<and>
    sorted_wrt (\<lambda>a b. row_key doc_created_at doc_id b \<le> row_key doc_created_at doc_id a)
      (concat (map (\<lambda>k. fst (list_documents d limit (k * limit))) [0..<n]))"
proof -
  let ?s = "sort_key (row_key doc_created_at doc_id) (documents d)"
  have "concat (map (\<lambda>k. fst (list_documents d limit (k * limit))) [0..<n]) = rev ?s"
    using assms by (simp add: list_documents_def concat_pages)
  moreover have "sorted_wrt (\<lambda>a b. row_key doc_created_at doc_id b \<le> row_key doc_created_at doc_id a) (rev ?s)"
    using sorted_sort_key [of "row_key doc_created_at doc_id" "documents d"]
    by (simp add: sorted_wrt_rev sorted_map)
  ultimately show ?thesis by simp
qed

text \<open>Once a deletion request has created a job, the document shows as being deleted in its detail
  view, whatever its ingestion history says.\<close>

theorem deletion_request_shows_deleting:
  assumes "request_document_deletion env new_id now doc d = (Inr res, d')" and "drq_outcome res = DelCreated"
    and "doc \<in> doc_id ` set (documents (env 0 d))"
    and "\<forall>j \<in> set (deletion_jobs (env 0 d)). del_document_id j = doc \<longrightarrow> del_created_at j < now"
  shows "\<exists>det. get_document_detail_result d' doc = (Some det, 200) \<and> det_status det = Deleting"
proof -
  from request_created [OF assms(1,2)]
  have d': "d' = add_deletion_job (new_deletion_job new_id doc now) (env 0 d)" by simp
  have "get_latest_deletion_job d' doc = Some (new_deletion_job new_id doc now)"
    using latest_of_snoc [of "deletion_jobs (env 0 d)" del_document_id "new_deletion_job new_id doc now"]
      assms(4)
    by (simp add: get_latest_deletion_job_def d' add_deletion_job_def)
  moreover from assms(3) obtain r where "get_document d' doc = Some r"
    using get_row_None [of doc_id doc "documents (env 0 d)"]
    by (auto simp: get_document_def d' add_deletion_job_def)
  ultimately show ?thesis
    by (simp add: get_document_detail_result_def Let_def derive_lifecycle_status_def)
qed

theorem list_agrees_with_detail_witness:
  "\<exists>det. get_document_detail_result sample_deleting (uni ''d1'') = (Some det, 200) \<and> det_status det = Deleting"
proof -
  let ?s = "to_summary (sample_document (uni ''d1'')) None (Some (new_deletion_job (uni ''j0'') (uni ''d1'') 3))"
  have "items (build_document_list_response sample_deleting 20 0) = [?s]"
    by (simp add: build_document_list_response_def list_documents_def sample_facts
        get_latest_deletion_jobs_for_documents_def get_latest_jobs_for_documents_def
        sample_deleting_def add_deletion_job_def sample_db_def empty_db_def Let_def)
  then show ?thesis
    using list_agrees_with_detail [OF sample_deleting_ok, of ?s 20 0]
    by (simp add: to_summary_def sample_facts derive_lifecycle_status_def)
qed

definition sample_two :: db where
  "sample_two = empty_db\<lparr>documents := [sample_document (uni ''d1''), sample_document (uni ''d2'')]\<rparr>"

theorem list_pages_complete_witness:
  "mset (fst (list_documents sample_two 1 0) @ fst (list_documents sample_two 1 1)) =
   mset [sample_document (uni ''d1''), sample_document (uni ''d2'')]"
  using list_pages_complete [of sample_two 2 1]
  by (simp add: sample_two_def empty_db_def numeral_2_eq_2)

theorem deletion_request_shows_deleting_witness:
  "\<exists>det. get_document_detail_result
      (snd (request_document_deletion (\<lambda>_. id) (uni ''j1'') 5 (uni ''d1'') sample_db)) (uni ''d1'') = (Some det, 200) \<and>
    det_status det = Deleting"
  using deletion_request_shows_deleting [OF sample_request]
  by (simp add: sample_request sample_facts)

end
