(* ===== verification/Document_Routes.thy ===== *)
theory Document_Routes
  imports Upload Ingestion_Retry Query_Service Http
begin

text \<open>
  The document endpoints (\<open>app/api/v1/routes/documents.py\<close>, \<open>app/schemas/documents.py\<close>): status codes,
  bodies and error mapping of upload, the read views, ingestion retry, download and deletion.
\<close>

section \<open>Upload\<close>

datatype document_upload_outcome = DuCreated | DuReusedActive | DuReusedIndexed | DuReusedFailed

fun upload_outcome_map :: "upload_outcome \<Rightarrow> document_upload_outcome" where
  "upload_outcome_map UpCreated = DuCreated"
| "upload_outcome_map UpReusedActive = DuReusedActive"
| "upload_outcome_map UpReusedIndexed = DuReusedIndexed"
| "upload_outcome_map UpReusedFailed = DuReusedFailed"

record document_upload_response =
  dur_document_id :: ustr
  dur_job_id :: ustr
  dur_status :: ingestion_status
  dur_outcome :: document_upload_outcome
  dur_original_filename :: ustr

text \<open>The \<open>except\<close> clauses around the upload.\<close>

fun upload_refusal :: "exn \<Rightarrow> (nat \<times> ustr) option" where
  "upload_refusal (DeletionActiveError i) = Some (409, uni ''A document matching this content is currently being deleted.'')"
| "upload_refusal (DeletionIncompleteError i) =
     Some (409, uni ''A document matching this content has a PARTIALLY_FAILED deletion that must '' @
       uni ''be resolved (retried to completion) before it can be reused.'')"
| "upload_refusal (DeletionInvariantViolationError i) =
     Some (500, uni ''An internal consistency error occurred while processing this upload.'')"
| "upload_refusal (MissingWinnerAfterRaceError h) =
     Some (500, uni ''An internal consistency error occurred while processing this upload.'')"
| "upload_refusal e = None"

definition upload_answer :: "upload_result \<Rightarrow> document_upload_response http_answer" where
  "upload_answer res = Success (if ur_outcome res = UpCreated then 202 else 200)
     \<lparr>dur_document_id = doc_id (ur_document res), dur_job_id = ing_id (ur_ingestion_job res),
      dur_status = ing_status (ur_ingestion_job res), dur_outcome = upload_outcome_map (ur_outcome res),
      dur_original_filename = original_filename (ur_document res)\<rparr>"

definition upload_document_route :: "'f file_storage \<Rightarrow> settings \<Rightarrow> (nat \<Rightarrow> db \<Rightarrow> db) \<Rightarrow> upload_ids \<Rightarrow> time \<Rightarrow> bytes \<Rightarrow> ustr option \<Rightarrow>
    ustr option \<Rightarrow> ('f \<times> db, exn, document_upload_response http_answer) call" where
  "upload_document_route fs s env ids db_now content filename ctype w =
     (if content = [] then (Inr (Refused 400 (uni ''Uploaded file is empty.'')), w)
      else (case upload_document fs s env ids db_now content (or_default filename (uni ''unnamed''))
              (or_default ctype (uni ''application/octet-stream'')) w of
          (Inr res, w') \<Rightarrow> (Inr (upload_answer res), w')
        | (Inl e, w') \<Rightarrow> (case upload_refusal e of
              Some (code, detail) \<Rightarrow> (Inr (Refused code detail), w')
            | None \<Rightarrow> (Inl e, w'))))"

section \<open>Reading\<close>

text \<open>The range of the two query parameters, outside of which the framework answers 422.\<close>

definition max_list_limit :: nat where
  "max_list_limit = 100"

definition list_query_valid :: "int \<Rightarrow> int \<Rightarrow> bool" where
  "list_query_valid limit offset \<longleftrightarrow> in_range limit 1 (Some (int max_list_limit)) \<and> in_range offset 0 None"

definition list_documents_route :: "db \<Rightarrow> nat \<Rightarrow> nat \<Rightarrow> document_list http_answer" where
  "list_documents_route d limit offset = Success 200 (build_document_list_response d limit offset)"

definition view_answer :: "ustr \<Rightarrow> 'a option \<times> nat \<Rightarrow> 'a http_answer" where
  "view_answer missing res = (case fst res of None \<Rightarrow> Refused (snd res) missing | Some a \<Rightarrow> Success 200 a)"

definition get_document_route :: "db \<Rightarrow> ustr \<Rightarrow> document_detail http_answer" where
  "get_document_route d document_id = view_answer (uni ''Document not found.'') (get_document_detail_result d document_id)"

definition get_document_ingestion_route :: "db \<Rightarrow> ustr \<Rightarrow> ingestion_status_response http_answer" where
  "get_document_ingestion_route d document_id = view_answer (uni ''Document not found.'') (get_document_ingestion_result d document_id)"

definition get_document_failure_route :: "db \<Rightarrow> ustr \<Rightarrow> ingestion_failure_response http_answer" where
  "get_document_failure_route d document_id =
     view_answer (uni ''No failed ingestion job found.'') (get_document_failure_result d document_id)"

section \<open>Ingestion retry\<close>

record ingestion_retry_response =
  irs_document_id :: ustr
  irs_job_id :: ustr
  irs_status :: ingestion_status
  irs_created :: bool

fun retry_outcome_errors :: "retry_outcome \<Rightarrow> (nat \<times> ustr) option" where
  "retry_outcome_errors RetryDocumentNotFound = Some (404, uni ''Document not found.'')"
| "retry_outcome_errors RetryAlreadyCompleted =
     Some (409, uni ''Document is already indexed; use the re-index path instead of retry.'')"
| "retry_outcome_errors RetryDeletionActive =
     Some (409, uni ''Document is being deleted, deletion failed, or the document was deleted; '' @
       uni ''ingestion retry is not available.'')"
| "retry_outcome_errors RetryCreated = None"
| "retry_outcome_errors RetryAlreadyActive = None"

definition retry_answer :: "ustr \<Rightarrow> ingestion_retry_result \<Rightarrow> exn + ingestion_retry_response http_answer" where
  "retry_answer document_id res =
     (case retry_outcome_errors (irr_outcome res) of
        Some (code, detail) \<Rightarrow> Inr (Refused code detail)
      | None \<Rightarrow> (case irr_job res of
            None \<Rightarrow> Inl AssertionError
          | Some j \<Rightarrow>
              let created = (irr_outcome res = RetryCreated) in
              Inr (Success (if created then 202 else 200)
                \<lparr>irs_document_id = document_id, irs_job_id = ing_id j, irs_status = ing_status j, irs_created = created\<rparr>)))"

definition retry_document_ingestion_route :: "(nat \<Rightarrow> db \<Rightarrow> db) \<Rightarrow> ustr \<Rightarrow> time \<Rightarrow> time \<Rightarrow> settings \<Rightarrow> ustr \<Rightarrow> db \<Rightarrow>
    (exn + ingestion_retry_response http_answer) \<times> db" where
  "retry_document_ingestion_route env new_id now db_now s document_id d =
     (case retry_ingestion env new_id now db_now (ingestion_stale_after_seconds s) document_id d of
        (Inl e, d1) \<Rightarrow> (Inl e, d1)
      | (Inr res, d1) \<Rightarrow> (retry_answer document_id res, d1))"

section \<open>Download\<close>

text \<open>\<open>encode(''ascii'', errors=''replace'')\<close> and the replacement of everything that could leave the quoted
  string; \<open>urllib.parse.quote\<close> without safe characters, which a lone surrogate makes fail.\<close>

definition ascii_fallback_char :: "nat \<Rightarrow> nat" where
  "ascii_fallback_char c =
     (let a = (if c < 128 then c else 63) in if a = 34 \<or> a = 92 \<or> a = 63 \<or> a < 32 \<or> a = 127 then 95 else a)"

definition unreserved :: "nat \<Rightarrow> bool" where
  "unreserved b \<longleftrightarrow> ascii_alnum b \<or> b = 95 \<or> b = 46 \<or> b = 45 \<or> b = 126"

definition upper_hex :: "nat \<Rightarrow> nat" where
  "upper_hex n = (if n < 10 then 48 + n else 55 + n)"

definition quote_byte :: "nat \<Rightarrow> ustr" where
  "quote_byte b = (if unreserved b then [b] else [37, upper_hex (b div 16), upper_hex (b mod 16)])"

definition url_quote :: "ustr \<Rightarrow> exn + ustr" where
  "url_quote s = (if list_all scalar_value s then Inr (concat (map quote_byte (concat (map utf8_char s))))
     else Inl (ValueError (uni ''surrogates not allowed'')))"

definition content_disposition_header :: "ustr \<Rightarrow> exn + ustr" where
  "content_disposition_header filename =
     (case url_quote filename of
        Inl e \<Rightarrow> Inl e
      | Inr encoded \<Rightarrow> Inr (uni ''attachment; filename='' @ [34] @ map ascii_fallback_char filename @ [34] @
          uni ''; filename*=UTF-8'' @ [39, 39] @ encoded))"

record file_response =
  fr_content :: bytes
  fr_media_type :: ustr
  fr_content_disposition :: ustr

definition download_document_route :: "'f file_storage \<Rightarrow> db \<Rightarrow> ustr \<Rightarrow> ('f, exn, file_response http_answer) call" where
  "download_document_route fs d document_id f =
     (case download_document fs d document_id f of
        (Inl e, f1) \<Rightarrow> (Inl e, f1)
      | (Inr res, f1) \<Rightarrow>
          if dl_status_code res \<noteq> 200 then
            (Inr (Refused (dl_status_code res) (case dl_detail res of None \<Rightarrow> [] | Some t \<Rightarrow> t)), f1)
          else (case (dl_content res, dl_content_type res, dl_original_filename res) of
              (Some c, Some ct, Some n) \<Rightarrow>
                (case content_disposition_header n of
                   Inl e \<Rightarrow> (Inl e, f1)
                 | Inr h \<Rightarrow> (Inr (Success 200 \<lparr>fr_content = c, fr_media_type = ct, fr_content_disposition = h\<rparr>), f1))
            | _ \<Rightarrow> (Inl AssertionError, f1)))"

section \<open>Deletion\<close>

record document_deletion_response =
  ddr_document_id :: ustr
  ddr_deletion_job_id :: ustr
  ddr_status :: deletion_status
  ddr_created :: bool

record document_deletion_status_response =
  dds_document_id :: ustr
  dds_deletion_job_id :: ustr
  dds_status :: deletion_status
  dds_vector_cleanup_completed :: bool
  dds_storage_cleanup_completed :: bool
  dds_safe_message :: "ustr option"
  dds_created_at :: time
  dds_updated_at :: time
  dds_completed_at :: "time option"

fun deletion_outcome_errors :: "deletion_request_outcome \<Rightarrow> (nat \<times> ustr) option" where
  "deletion_outcome_errors DelDocumentNotFound = Some (404, uni ''Document not found.'')"
| "deletion_outcome_errors DelIngestionActive =
     Some (409, uni ''Document has an active ingestion job; cannot delete until it resolves.'')"
| "deletion_outcome_errors DelReindexActive =
     Some (409, uni ''Document has an active re-index job; cannot delete until it resolves.'')"
| "deletion_outcome_errors DelCreated = None"
| "deletion_outcome_errors DelAlreadyActive = None"
| "deletion_outcome_errors DelAlreadyDeleted = None"

definition deletion_answer :: "ustr \<Rightarrow> deletion_request_result \<Rightarrow> exn + document_deletion_response http_answer" where
  "deletion_answer document_id res =
     (case deletion_outcome_errors (drq_outcome res) of
        Some (code, detail) \<Rightarrow> Inr (Refused code detail)
      | None \<Rightarrow> (case drq_job res of
            None \<Rightarrow> Inl AssertionError
          | Some j \<Rightarrow> Inr (Success (if drq_outcome res = DelAlreadyDeleted then 200 else 202)
              \<lparr>ddr_document_id = document_id, ddr_deletion_job_id = del_id j, ddr_status = del_status j,
               ddr_created = (drq_outcome res = DelCreated)\<rparr>)))"

definition delete_document_route :: "(nat \<Rightarrow> db \<Rightarrow> db) \<Rightarrow> ustr \<Rightarrow> time \<Rightarrow> ustr \<Rightarrow> db \<Rightarrow> (exn + document_deletion_response http_answer) \<times> db" where
  "delete_document_route env new_id now document_id d =
     (case request_document_deletion env new_id now document_id d of
        (Inl e, d1) \<Rightarrow> (Inl e, d1)
      | (Inr res, d1) \<Rightarrow> (deletion_answer document_id res, d1))"

definition get_document_deletion_route :: "db \<Rightarrow> ustr \<Rightarrow> document_deletion_status_response http_answer" where
  "get_document_deletion_route d document_id =
     (case get_latest_deletion_job d document_id of
        None \<Rightarrow> Refused 404 (uni ''No deletion attempt found.'')
      | Some j \<Rightarrow> Success 200
          \<lparr>dds_document_id = document_id, dds_deletion_job_id = del_id j, dds_status = del_status j,
           dds_vector_cleanup_completed = vector_cleanup_completed j, dds_storage_cleanup_completed = storage_cleanup_completed j,
           dds_safe_message = sanitize_deletion_error (del_error_code j), dds_created_at = del_created_at j,
           dds_updated_at = del_updated_at j, dds_completed_at = del_completed_at j\<rparr>)"

section \<open>Properties of the download header\<close>

text \<open>Undoing \<open>quote\<close>: percent signs introduce two hexadecimal digits.\<close>

definition upper_hex_value :: "nat \<Rightarrow> nat" where
  "upper_hex_value c = (if c \<le> 57 then c - 48 else c - 55)"

fun unquote :: "ustr \<Rightarrow> nat list" where
  "unquote [] = []"
| "unquote [c] = [c]"
| "unquote [c, d] = [c, d]"
| "unquote (c # d # e # r) = (if c = 37 then (16 * upper_hex_value d + upper_hex_value e) # unquote r else c # unquote (d # e # r))"

lemma upper_hex_value [simp]: "n < 16 \<Longrightarrow> upper_hex_value (upper_hex n) = n"
  by (simp add: upper_hex_def upper_hex_value_def)

lemma unquote_plain: "c \<noteq> 37 \<Longrightarrow> unquote (c # r) = c # unquote r"
  by (cases r rule: unquote.cases) auto

lemma unquote_byte:
  assumes "b < 256"
  shows "unquote (quote_byte b @ r) = b # unquote r"
proof (cases "unreserved b")
  case True
  then have "b \<noteq> 37" by (auto simp: unreserved_def ascii_alnum_def)
  with True show ?thesis by (simp add: quote_byte_def unquote_plain)
next
  case False
  have "b div 16 < 16" using assms by (simp add: less_mult_imp_div_less)
  with False show ?thesis by (simp add: quote_byte_def)
qed

lemma unquote_bytes: "list_all (\<lambda>b. b < 256) bs \<Longrightarrow> unquote (concat (map quote_byte bs)) = bs"
  by (induction bs) (simp_all add: unquote_byte)

lemma utf8_decode_chars: "list_all scalar_value s \<Longrightarrow> utf8_decode (concat (map utf8_char s)) = Some s"
  by (induction s) (simp_all add: utf8_decode_char)

definition header_char :: "nat \<Rightarrow> bool" where
  "header_char c \<longleftrightarrow> 32 \<le> c \<and> c \<le> 126"

lemma upper_hex_char: "n < 16 \<Longrightarrow> header_char (upper_hex n) \<and> upper_hex n \<noteq> 34"
  by (simp add: upper_hex_def header_char_def)

lemma unreserved_char: "unreserved b \<Longrightarrow> header_char b \<and> b \<noteq> 34"
  by (auto simp: unreserved_def ascii_alnum_def header_char_def)

lemma quote_byte_char: "b < 256 \<Longrightarrow> c \<in> set (quote_byte b) \<Longrightarrow> header_char c"
proof -
  assume b: "b < 256" and c: "c \<in> set (quote_byte b)"
  have hex: "b div 16 < 16" "b mod 16 < 16" using b by (simp_all add: less_mult_imp_div_less)
  have percent: "header_char 37" by (simp add: header_char_def)
  from c consider "unreserved b" "c = b" | "c = 37" | "c = upper_hex (b div 16)" | "c = upper_hex (b mod 16)"
    by (auto simp: quote_byte_def split: if_splits)
  then show ?thesis using unreserved_char percent upper_hex_char hex by cases blast+
qed

lemma fallback_char: "header_char (ascii_fallback_char c) \<and> ascii_fallback_char c \<noteq> 34 \<and> ascii_fallback_char c \<noteq> 92"
  by (auto simp: ascii_fallback_char_def header_char_def Let_def)

text \<open>C11: The download header of any file name whatever: it is one line of printable ASCII, so no name can split
  or add headers; the quoted fallback has one character for each of the name and neither a quote nor a
  backslash, so no name can end it; and the extended form decodes, percent by percent and as UTF-8, to exactly
  the name of the uploaded file.\<close>

theorem content_disposition_exact:
  assumes "list_all scalar_value name"
  shows "\<exists>fallback encoded. content_disposition_header name =
      Inr (uni ''attachment; filename='' @ [34] @ fallback @ [34] @ uni ''; filename*=UTF-8'' @ [39, 39] @ encoded) \<and>
    list_all header_char (fallback @ encoded) \<and> length fallback = length name \<and> 34 \<notin> set fallback \<and> 92 \<notin> set fallback \<and>
    utf8_decode (unquote encoded) = Some name"
proof -
  let ?bs = "concat (map utf8_char name)"
  have bs: "b < 256" if "b \<in> set ?bs" for b
    using that assms utf8_char_bound by (auto simp: list_all_iff)
  have "utf8_decode (unquote (concat (map quote_byte ?bs))) = Some name"
    using bs by (simp add: unquote_bytes list_all_iff utf8_decode_chars [OF assms])
  moreover have "list_all header_char (concat (map quote_byte ?bs))"
    using quote_byte_char [OF bs] by (auto simp: list_all_iff)
  moreover have "list_all header_char (map ascii_fallback_char name)" "34 \<notin> set (map ascii_fallback_char name)"
      "92 \<notin> set (map ascii_fallback_char name)"
    using fallback_char by (auto simp: list_all_iff)
  ultimately show ?thesis
    using assms by (intro exI [of _ "map ascii_fallback_char name"] exI [of _ "concat (map quote_byte ?bs)"])
      (simp add: content_disposition_header_def url_quote_def)
qed

theorem content_disposition_exact_witness:
  "\<exists>fallback encoded. content_disposition_header [13, 10, 34, 1488] =
      Inr (uni ''attachment; filename='' @ [34] @ fallback @ [34] @ uni ''; filename*=UTF-8'' @ [39, 39] @ encoded) \<and>
    length fallback = 4 \<and> utf8_decode (unquote encoded) = Some [13, 10, 34, 1488]"
proof -
  have "list_all scalar_value [13, 10, 34, 1488]" by (simp add: scalar_value_def)
  from content_disposition_exact [OF this] obtain fallback encoded where "content_disposition_header [13, 10, 34, 1488] =
      Inr (uni ''attachment; filename='' @ [34] @ fallback @ [34] @ uni ''; filename*=UTF-8'' @ [39, 39] @ encoded)"
    "length fallback = length [13, 10, 34, 1488 :: nat]" "utf8_decode (unquote encoded) = Some [13, 10, 34, 1488]" by blast
  then show ?thesis by (intro exI [of _ fallback] exI [of _ encoded]) simp
qed

section \<open>What refusals say\<close>

definition public_texts :: "string list" where
  "public_texts =
     [''Internal server error.'', ''Uploaded file is empty.'', ''A document matching this content is currently being deleted.'',
      ''A document matching this content has a PARTIALLY_FAILED deletion that must be resolved (retried to completion) before it can be reused.'',
      ''An internal consistency error occurred while processing this upload.'', ''Document not found.'', ''No failed ingestion job found.'',
      ''Document is already indexed; use the re-index path instead of retry.'',
      ''Document is being deleted, deletion failed, or the document was deleted; ingestion retry is not available.'',
      ''Document has been deleted.'', ''Document exists but its content is unavailable in storage.'', ''Storage backend is unavailable.'',
      ''Document has an active ingestion job; cannot delete until it resolves.'',
      ''Document has an active re-index job; cannot delete until it resolves.'', ''No deletion attempt found.'']"

text \<open>An answer whose refusal, if it is one, is a text of the list with a status that is one.\<close>

definition public_answer :: "'a http_answer \<Rightarrow> bool" where
  "public_answer a = (case a of Success n x \<Rightarrow> n \<in> {200, 202} | Refused n t \<Rightarrow> n \<in> {400, 404, 409, 410, 500, 503} \<and> t \<in> uni ` set public_texts)"

lemma inj_uni: "inj uni"
  by (auto simp: inj_def uni_def inj_map_eq_map [OF inj_of_char])

lemma public_refusal [simp]: "public_answer (Refused n (uni x)) \<longleftrightarrow> n \<in> {400, 404, 409, 410, 500, 503} \<and> x \<in> set public_texts"
  using inj_image_mem_iff [OF inj_uni, of x "set public_texts"] by (simp add: public_answer_def)

lemma public_success [simp]: "public_answer (Success n a) \<longleftrightarrow> n = 200 \<or> n = 202"
  by (auto simp: public_answer_def)

lemma public_exception: "public_answer (served (Inl e))"
  by (simp add: served_def unhandled_exception_handler_def unexpected_error_detail_def public_texts_def)

lemma public_served: "public_answer (served r) \<longleftrightarrow> (case r of Inl e \<Rightarrow> True | Inr a \<Rightarrow> public_answer a)"
  using public_exception by (auto simp: served_def split: sum.split)

lemma public_view: "x \<in> set public_texts \<Longrightarrow> (fst b = None \<Longrightarrow> snd b = 404) \<Longrightarrow> public_answer (view_answer (uni x) b)"
  by (auto simp: view_answer_def split: option.split)

lemma upload_refusal_public: "upload_refusal e = Some (n, t) \<Longrightarrow> public_answer (Refused n t)"
  by (cases e) (auto simp: uni_append [symmetric] public_texts_def simp del: uni_append)

lemma retry_refusal_public: "retry_outcome_errors oc = Some (n, t) \<Longrightarrow> public_answer (Refused n t)"
  by (cases oc) (auto simp: uni_append [symmetric] public_texts_def simp del: uni_append)

lemma deletion_refusal_public: "deletion_outcome_errors oc = Some (n, t) \<Longrightarrow> public_answer (Refused n t)"
  by (cases oc) (auto simp: public_texts_def)

lemma public_upload: "public_answer (served (fst (upload_document_route fs s env ids t content fn ct w)))"
proof -
  have empty: "public_answer (Refused 400 (uni ''Uploaded file is empty.''))"
    by (simp add: public_texts_def)
  have ok: "public_answer (upload_answer res)" for res by (simp add: upload_answer_def)
  show ?thesis
    using empty ok upload_refusal_public
    by (auto simp: upload_document_route_def public_served split: sum.split prod.split option.split)
qed

text \<open>A retry that lost its insert to a job that then ended fails the route's assertion.\<close>

lemma lost_retry_fails:
  "fst (retry_document_ingestion_route winner_ends (uni ''j3'') 9 9 s (uni ''d1'') (ingestion_db [])) = Inl AssertionError"
  using retry_lost_without_winner [of "ingestion_stale_after_seconds s"]
  by (auto simp: retry_document_ingestion_route_def retry_answer_def split: prod.split)

lemma public_retry: "public_answer (served (fst (retry_document_ingestion_route env i n t s doc d)))"
  using retry_refusal_public
  by (auto simp: retry_document_ingestion_route_def retry_answer_def public_served Let_def split: sum.split prod.split option.split)

lemma public_deletion: "public_answer (served (fst (delete_document_route env2 i t doc d)))"
  using deletion_refusal_public
  by (auto simp: delete_document_route_def deletion_answer_def public_served split: sum.split prod.split option.split)

definition public_download :: "download_result \<Rightarrow> bool" where
  "public_download res \<longleftrightarrow> dl_status_code res = 200 \<or>
     dl_status_code res \<in> {404, 409, 410, 503} \<and> dl_detail res \<in> (Some \<circ> uni) ` set public_texts"

lemma public_failure: "n \<in> {404, 409, 410, 503} \<Longrightarrow> x \<in> set public_texts \<Longrightarrow> public_download (download_failure n x)"
  by (auto simp: public_download_def download_failure_def)

lemma download_public: "download_document fs d doc f = (Inr res, f1) \<Longrightarrow> public_download res"
proof -
  have texts: "''Document not found.'' \<in> set public_texts" "''Document has been deleted.'' \<in> set public_texts"
    "''Document exists but its content is unavailable in storage.'' \<in> set public_texts" "''Storage backend is unavailable.'' \<in> set public_texts"
    by (simp_all add: public_texts_def)
  have ok: "public_download \<lparr>dl_status_code = 200, dl_content = c, dl_content_type = t, dl_original_filename = n, dl_detail = k\<rparr>" for c t n k
    by (simp add: public_download_def)
  note fail = public_failure [OF _ texts(1), of 404] public_failure [OF _ texts(2), of 410] public_failure [OF _ texts(3), of 409]
    public_failure [OF _ texts(4), of 503]
  assume run: "download_document fs d doc f = (Inr res, f1)"
  show ?thesis
  proof (cases "\<exists>a f2 row. get_document d doc = Some row \<and> map_option del_status (get_latest_deletion_job d doc) \<noteq> Some DelCompleted \<and>
      fs_read fs (resolve_download_key row) f = (Inl a, f2)")
    case True
    then obtain a f2 row where "get_document d doc = Some row" "map_option del_status (get_latest_deletion_job d doc) \<noteq> Some DelCompleted"
      "fs_read fs (resolve_download_key row) f = (Inl a, f2)" by blast
    with run have "(case a of
        StorageErr (StorageObjectNotFoundError _) \<Rightarrow>
          (Inr (download_failure 409 ''Document exists but its content is unavailable in storage.''), f2)
      | StorageErr (StorageUnavailableError _) \<Rightarrow> (Inr (download_failure 503 ''Storage backend is unavailable.''), f2)
      | StorageErr (StorageReadError _) \<Rightarrow> (Inr (download_failure 503 ''Storage backend is unavailable.''), f2)
      | _ \<Rightarrow> (Inl a, f2)) = (Inr res, f1)"
      by (cases a) (simp_all add: download_document_def del: map_option_eq_Some split: storage_exn.splits)
    with fail show ?thesis by (cases a) (auto split: storage_exn.splits)
  next
    case False
    with run fail ok show ?thesis
      by (auto simp: download_document_def simp del: map_option_eq_Some split: option.splits if_splits sum.splits prod.splits)
  qed
qed

lemma public_download_route: "public_answer (served (fst (download_document_route fs d doc f)))"
proof (cases "download_document fs d doc f")
  case (Pair r f1)
  show ?thesis
  proof (cases r)
    case (Inl e)
    with Pair show ?thesis by (simp add: download_document_route_def public_served)
  next
    case (Inr res)
    show ?thesis
    proof (cases "dl_status_code res = 200")
      case True
      with Pair Inr show ?thesis
        by (simp add: download_document_route_def public_served split: option.split sum.split)
    next
      case False
      with download_public [OF Pair [unfolded Inr]] Pair Inr show ?thesis
        by (auto simp: download_document_route_def public_served public_download_def)
    qed
  qed
qed

lemma public_views:
  "public_answer (get_document_route d doc)" "public_answer (get_document_ingestion_route d doc)"
  "public_answer (get_document_failure_route d doc)" "public_answer (get_document_deletion_route d doc)"
  by (auto simp: get_document_route_def get_document_ingestion_route_def get_document_failure_route_def get_document_deletion_route_def
      get_document_detail_result_def get_document_ingestion_result_def get_document_failure_result_def public_texts_def Let_def
      intro!: public_view split: option.split)

definition failure_texts :: "string list" where
  "failure_texts =
     [''Document ingestion failed. See server logs for the underlying error.'',
      ''Document vector cleanup failed. See server logs for the underlying error.'',
      ''Document storage cleanup failed. See server logs for the underlying error.'',
      ''Document deletion failed. See server logs for the underlying error.'']"

definition shown_messages :: "('a \<Rightarrow> ustr option) \<Rightarrow> 'a http_answer \<Rightarrow> ustr set" where
  "shown_messages message a = (case a of Success n r \<Rightarrow> set_option (message r) | Refused n t \<Rightarrow> {})"

lemma deletion_message_text: "x \<in> set_option (sanitize_deletion_error c) \<Longrightarrow> x \<in> uni ` set failure_texts"
proof -
  have "safe_deletion_failure_message k \<in> uni ` set failure_texts" for k by (cases k) (auto simp: failure_texts_def)
  moreover have "safe_deletion_failure_fallback \<in> uni ` set failure_texts" by (auto simp: failure_texts_def safe_deletion_failure_fallback_def)
  ultimately show "x \<in> set_option (sanitize_deletion_error c) \<Longrightarrow> x \<in> uni ` set failure_texts"
    by (auto simp: sanitize_deletion_error_def split: option.splits)
qed

lemma shown_deletion: "shown_messages dds_safe_message (get_document_deletion_route d doc) \<subseteq> uni ` set failure_texts"
proof (cases "get_latest_deletion_job d doc")
  case None
  then show ?thesis by (simp add: shown_messages_def get_document_deletion_route_def)
next
  case (Some j)
  then show ?thesis using deletion_message_text by (simp add: shown_messages_def get_document_deletion_route_def subset_iff)
qed

lemma shown_failure: "shown_messages (Some \<circ> ifr_safe_message) (get_document_failure_route d doc) \<subseteq> uni ` set failure_texts"
proof -
  have "sanitize_ingestion_error e \<in> uni ` set failure_texts" for e
    by (auto simp: sanitize_ingestion_error_def failure_texts_def)
  then show ?thesis
    by (auto simp: shown_messages_def get_document_failure_route_def get_document_failure_result_def view_answer_def split: option.split)
qed

text \<open>C37: Nothing internal leaves by the document endpoints: whatever the storage backend, the database and other
  transactions do, and with whatever exception a route fails, every answer to upload, retry, deletion and
  download and to the read views of a document is a success with status 200 or 202, or one of fifteen fixed
  texts with a status of 400, 404, 409, 410, 500 or 503; and the message shown for a failed ingestion or
  deletion is one of four fixed sentences, whatever error text the job holds.\<close>

theorem document_routes_leak_nothing:
  "public_answer (served (fst (upload_document_route fs s env ids t content fn ct w))) \<and>
   public_answer (served (fst (retry_document_ingestion_route env i n t s doc d))) \<and>
   public_answer (served (fst (delete_document_route other i t doc d))) \<and>
   public_answer (served (fst (download_document_route fs d doc f))) \<and>
   public_answer (get_document_route d doc) \<and> public_answer (get_document_ingestion_route d doc) \<and>
   public_answer (get_document_failure_route d doc) \<and> public_answer (get_document_deletion_route d doc) \<and>
   shown_messages (Some \<circ> ifr_safe_message) (get_document_failure_route d doc) \<union>
     shown_messages dds_safe_message (get_document_deletion_route d doc) \<subseteq> uni ` set failure_texts"
  by (intro conjI public_upload public_retry public_deletion public_download_route public_views Un_least shown_failure shown_deletion)

end
