(* ===== verification/Embedding_Smoke.thy ===== *)
theory Embedding_Smoke
  imports Providers Complex_Main
begin

text \<open>
  The manual check of the configured embedding model (\<open>scripts/smoke_multilingual_real.py\<close>): five pairs of a
  document and a question, each of which must score above an unrelated text.  Cosine similarity is computed
  in exact real arithmetic, where the script rounds to binary floating point; what is printed and the time
  measured for it are left out.
\<close>

section \<open>Cosine similarity\<close>

definition dot_product :: "embedding \<Rightarrow> embedding \<Rightarrow> rat" where
  "dot_product a b = sum_list (map2 (*) a b)"

definition norm2 :: "embedding \<Rightarrow> real" where
  "norm2 a = sqrt (of_rat (dot_product a a))"

text \<open>\<open>zip\<close> with \<open>strict\<close> raises when one vector is shorter.\<close>

definition strict_zip_message :: "embedding \<Rightarrow> embedding \<Rightarrow> ustr" where
  "strict_zip_message a b =
     (if length b < length a then uni ''zip() argument 2 is shorter than argument 1'' else uni ''zip() argument 2 is longer than argument 1'')"

definition cosine_similarity :: "embedding \<Rightarrow> embedding \<Rightarrow> exn + real" where
  "cosine_similarity a b =
     (if length a \<noteq> length b then Inl (ValueError (strict_zip_message a b))
      else if norm2 a = 0 \<or> norm2 b = 0 then Inr 0
      else Inr (of_rat (dot_product a b) / (norm2 a * norm2 b)))"

section \<open>The scenarios\<close>

definition hebrew_policy :: ustr where
  "hebrew_policy =
    [1502, 1491, 1497, 1504, 1497, 1493, 1514, 32, 1492, 1492, 1495, 1494, 1512, 1497, 1501, 32, 1513, 1500, 32,
      1492, 1495, 1489, 1512, 1492, 32, 1502, 1488, 1508, 1513, 1512, 1514, 32, 1492, 1495, 1494, 1512, 32, 1499,
      1505, 1508, 1497, 32, 1502, 1500, 1488, 32, 1514, 1493, 1498] @ uni '' 30 '' @ [1497, 1493, 1501, 32, 1502, 1497, 1493, 1501, 32, 1492, 1512, 1499, 1497, 1513, 1492, 46]"

definition hebrew_question :: ustr where
  "hebrew_question =
    [1502, 1492, 32, 1502, 1491, 1497, 1504, 1497, 1493, 1514, 32, 1492, 1492, 1495, 1494, 1512, 1497, 1501, 63]"

definition english_question :: ustr where
  "english_question =
    uni ''What is the refund policy?''"

definition english_policy :: ustr where
  "english_policy =
    uni ''The company's refund policy allows a full refund within 30 days of purchase.''"

definition mixed_note :: ustr where
  "mixed_note =
    [1492] @ uni ''-Qdrant collection '' @ [1513, 1493, 1502, 1512] @ uni '' embeddings '' @ [1500, 1508, 1497] @ uni '' document_id, '' @ [1493, 1502, 1488, 1508, 1513, 1512] @ uni '' retry '' @ [1491, 1512, 1498] @ uni '' Kafka.''"

definition mixed_question :: ustr where
  "mixed_question =
    [1488, 1497, 1498, 32, 1492] @ uni ''-Qdrant collection '' @ [1513, 1493, 1502, 1512] @ uni '' embeddings '' @ [1493, 1502, 1488, 1508, 1513, 1512] @ uni '' retry?''"

definition distractor :: ustr where
  "distractor = uni ''The quarterly hiking club newsletter features photos from last month's trip.''"

definition smoke_scenarios :: "(ustr \<times> ustr \<times> ustr) list" where
  "smoke_scenarios =
    [(uni ''hebrew_document_hebrew_query'', hebrew_policy, hebrew_question),
     (uni ''hebrew_document_english_query'', hebrew_policy, english_question),
     (uni ''english_document_hebrew_query'', english_policy, hebrew_question),
     (uni ''english_document_english_query'', english_policy, english_question),
     (uni ''mixed_document_mixed_query'', mixed_note, mixed_question)]"

section \<open>The run\<close>

text \<open>One scenario: whether it passed, or the exception that ends the run.\<close>

definition run_scenario :: "'e ollama \<Rightarrow> int \<Rightarrow> embedding \<Rightarrow> ustr \<Rightarrow> ustr \<Rightarrow> ('e, exn, bool) call" where
  "run_scenario ol expected distractor_vector document_text query_text st =
     (case embed_text ol document_text st of
        (Inl (OllamaEmbeddingError m), st1) \<Rightarrow> (Inr False, st1)
      | (Inl e, st1) \<Rightarrow> (Inl e, st1)
      | (Inr document_vector, st1) \<Rightarrow>
          (case embed_text ol query_text st1 of
             (Inl (OllamaEmbeddingError m), st2) \<Rightarrow> (Inr False, st2)
           | (Inl e, st2) \<Rightarrow> (Inl e, st2)
           | (Inr query_vector, st2) \<Rightarrow>
               if int (length document_vector) \<noteq> expected \<or> int (length query_vector) \<noteq> expected then (Inr False, st2)
               else (case cosine_similarity query_vector document_vector of
                   Inl e \<Rightarrow> (Inl e, st2)
                 | Inr document_score \<Rightarrow>
                     (case cosine_similarity query_vector distractor_vector of
                        Inl e \<Rightarrow> (Inl e, st2)
                      | Inr distractor_score \<Rightarrow> (Inr (document_score > distractor_score), st2)))))"

text \<open>The number of scenarios that failed.\<close>

fun count_failures :: "'e ollama \<Rightarrow> int \<Rightarrow> embedding \<Rightarrow> (ustr \<times> ustr \<times> ustr) list \<Rightarrow> ('e, exn, nat) call" where
  "count_failures ol expected distractor_vector [] st = (Inr 0, st)"
| "count_failures ol expected distractor_vector ((name, document_text, query_text) # scenarios) st =
     (case run_scenario ol expected distractor_vector document_text query_text st of
        (Inl e, st1) \<Rightarrow> (Inl e, st1)
      | (Inr passed, st1) \<Rightarrow>
          (case count_failures ol expected distractor_vector scenarios st1 of
             (Inl e, st2) \<Rightarrow> (Inl e, st2)
           | (Inr n, st2) \<Rightarrow> (Inr (if passed then n else Suc n), st2)))"

text \<open>The exit code.\<close>

definition smoke_main :: "'e ollama \<Rightarrow> ('e, exn, int) call" where
  "smoke_main ol st =
     (case get_active_embedding_config (ol_settings ol) of
        Inl e \<Rightarrow> (Inl e, st)
      | Inr active_config \<Rightarrow>
          (case embed_text ol distractor st of
             (Inl (OllamaEmbeddingError m), st1) \<Rightarrow> (Inr 1, st1)
           | (Inl e, st1) \<Rightarrow> (Inl e, st1)
           | (Inr distractor_vector, st1) \<Rightarrow>
               if int (length distractor_vector) \<noteq> cfg_dimension active_config then (Inr 1, st1)
               else (case count_failures ol (cfg_dimension active_config) distractor_vector smoke_scenarios st1 of
                   (Inl e, st2) \<Rightarrow> (Inl e, st2)
                 | (Inr failures, st2) \<Rightarrow> (Inr (if failures \<noteq> 0 then 1 else 0), st2))))"

section \<open>Properties\<close>

lemma dot_Nil [simp]: "dot_product [] b = 0" "dot_product a [] = 0"
  by (simp_all add: dot_product_def)

lemma dot_Cons [simp]: "dot_product (x # a) (y # b) = x * y + dot_product a b"
  by (simp add: dot_product_def)

lemma dot_self_nonneg: "0 \<le> dot_product a a"
  by (induction a) auto

lemma norm2_nonneg [simp]: "0 \<le> norm2 a"
  by (simp add: norm2_def dot_self_nonneg)

lemma norm2_square: "norm2 a * norm2 a = of_rat (dot_product a a)"
  by (simp add: norm2_def dot_self_nonneg)

lemma dot_commute: "dot_product a b = dot_product b a"
  by (induction a b rule: list_induct2') (auto simp: mult.commute)

text \<open>The inequality of Cauchy and Schwarz.\<close>

lemma dot_bound: "length a = length b \<Longrightarrow> \<bar>of_rat (dot_product a b)\<bar> \<le> norm2 a * norm2 b"
proof (induction a b rule: list_induct2)
  case Nil
  show ?case by (simp add: norm2_def)
next
  case (Cons x a y b)
  define A B X Y S where d: "A = norm2 a" "B = norm2 b" "X = (of_rat x :: real)" "Y = (of_rat y :: real)"
    "S = (of_rat (dot_product a b) :: real)"
  have "0 \<le> A" "0 \<le> B" by (simp_all add: d)
  have sq: "(norm2 (x # a))\<^sup>2 = X\<^sup>2 + A\<^sup>2" "(norm2 (y # b))\<^sup>2 = Y\<^sup>2 + B\<^sup>2"
    using norm2_square [of "x # a"] norm2_square [of "y # b"] norm2_square [of a] norm2_square [of b]
    by (simp_all add: d power2_eq_square of_rat_add of_rat_mult)
  have "\<bar>X * Y + S\<bar> \<le> \<bar>X\<bar> * \<bar>Y\<bar> + A * B"
    using abs_triangle_ineq [of "X * Y" S] Cons.IH [folded d] by (simp only: abs_mult)
  also have "\<dots> \<le> sqrt ((X\<^sup>2 + A\<^sup>2) * (Y\<^sup>2 + B\<^sup>2))"
  proof (rule real_le_rsqrt)
    have "(\<bar>X\<bar> * B - \<bar>Y\<bar> * A)\<^sup>2 \<ge> 0" by simp
    then show "(\<bar>X\<bar> * \<bar>Y\<bar> + A * B)\<^sup>2 \<le> (X\<^sup>2 + A\<^sup>2) * (Y\<^sup>2 + B\<^sup>2)"
      by (simp add: power2_eq_square algebra_simps)
  qed
  also have "\<dots> = norm2 (x # a) * norm2 (y # b)"
    by (simp add: sq [symmetric] real_sqrt_mult)
  finally show ?case by (simp add: d of_rat_add of_rat_mult)
qed

text \<open>A score lies between -1 and 1, and does not depend on which text is the question.\<close>

lemma cosine_range:
  assumes "cosine_similarity a b = Inr r"
  shows "-1 \<le> r \<and> r \<le> 1 \<and> cosine_similarity b a = Inr r"
proof -
  from assms have l: "length a = length b" by (simp add: cosine_similarity_def split: if_splits)
  show ?thesis
  proof (cases "norm2 a = 0 \<or> norm2 b = 0")
    case True
    with assms l show ?thesis by (auto simp: cosine_similarity_def)
  next
    case False
    then have p: "0 < norm2 a * norm2 b" using norm2_nonneg [of a] norm2_nonneg [of b] by (simp add: less_le)
    from False assms l have r: "r = of_rat (dot_product a b) / (norm2 a * norm2 b)"
      by (simp add: cosine_similarity_def)
    have "\<bar>r\<bar> \<le> 1" using dot_bound [OF l] p by (simp add: r abs_mult)
    moreover have "cosine_similarity b a = Inr r"
      using False l r by (simp add: cosine_similarity_def dot_commute mult.commute)
    ultimately show ?thesis by linarith
  qed
qed

text \<open>A document equal to its question scores 1 unless the model answers with zeros.\<close>

lemma cosine_self: "norm2 a \<noteq> 0 \<Longrightarrow> cosine_similarity a a = Inr 1"
  by (simp add: cosine_similarity_def norm2_square [symmetric])

text \<open>A model that is a function of the text, and fails only as the provider documents.\<close>

definition answers_as :: "'e ollama \<Rightarrow> (ustr \<Rightarrow> exn + embedding) \<Rightarrow> bool" where
  "answers_as ol model \<longleftrightarrow> (\<forall>t st. fst (embed_text ol t st) = model t) \<and>
     (\<forall>t e. model t = Inl e \<longrightarrow> (\<exists>m. e = OllamaEmbeddingError m))"

lemma answers_Inr: "answers_as ol model \<Longrightarrow> model t = Inr v \<Longrightarrow> \<exists>st'. embed_text ol t st = (Inr v, st')"
  unfolding answers_as_def by (metis prod.collapse)

lemma answers_Inl: "answers_as ol model \<Longrightarrow> model t = Inl e \<Longrightarrow> \<exists>m st'. embed_text ol t st = (Inl (OllamaEmbeddingError m), st')"
  unfolding answers_as_def by (metis prod.collapse)

text \<open>What a scenario needs to pass, where the model is a function of the text.\<close>

definition scenario_passes :: "(ustr \<Rightarrow> exn + embedding) \<Rightarrow> int \<Rightarrow> ustr \<times> ustr \<times> ustr \<Rightarrow> bool" where
  "scenario_passes model expected sc = (case sc of (name, d, q) \<Rightarrow>
     (\<exists>u v w x y. model d = Inr u \<and> model q = Inr v \<and> model distractor = Inr w \<and>
        int (length u) = expected \<and> int (length v) = expected \<and>
        cosine_similarity v u = Inr x \<and> cosine_similarity v w = Inr y \<and> x > y))"

lemma same_length_scores: "length a = length b \<Longrightarrow> \<exists>x. cosine_similarity a b = Inr x"
  by (simp add: cosine_similarity_def)

lemma run_scenario_exact:
  assumes a: "answers_as ol model"
    and w: "model distractor = Inr w" "int (length w) = expected"
  shows "fst (run_scenario ol expected w d q st) = Inr (scenario_passes model expected (name, d, q))"
proof (cases "model d")
  case (Inl e)
  with answers_Inl [OF a Inl, of st] show ?thesis by (auto simp: run_scenario_def scenario_passes_def)
next
  case (Inr u)
  obtain st1 where e1: "embed_text ol d st = (Inr u, st1)" using answers_Inr [OF a Inr] by blast
  show ?thesis
  proof (cases "model q")
    case (Inl e)
    with answers_Inl [OF a Inl, of st1] e1 show ?thesis by (auto simp: run_scenario_def scenario_passes_def)
  next
    case q: (Inr v)
    obtain st2 where e2: "embed_text ol q st1 = (Inr v, st2)" using answers_Inr [OF a q] by blast
    show ?thesis
    proof (cases "int (length u) = expected \<and> int (length v) = expected")
      case True
      obtain x y where "cosine_similarity v u = Inr x" "cosine_similarity v w = Inr y"
        using same_length_scores [of v u] same_length_scores [of v w] True w by auto
      with True w show ?thesis by (simp add: run_scenario_def scenario_passes_def e1 e2 Inr q)
    qed (auto simp: run_scenario_def scenario_passes_def e1 e2 Inr q)
  qed
qed

lemma count_failures_exact:
  assumes a: "answers_as ol model"
    and w: "model distractor = Inr w" "int (length w) = expected"
  shows "fst (count_failures ol expected w scs st) = Inr (length (filter (\<lambda>sc. \<not> scenario_passes model expected sc) scs))"
proof (induction scs arbitrary: st)
  case (Cons sc scs)
  obtain name d q where sc: "sc = (name, d, q)" by (cases sc)
  obtain st1 where 1: "run_scenario ol expected w d q st = (Inr (scenario_passes model expected sc), st1)"
    using run_scenario_exact [OF a w, where d = d and q = q and st = st and name = name] sc by (metis prod.collapse)
  obtain st2 where 2: "count_failures ol expected w scs st1 = (Inr (length (filter (\<lambda>sc. \<not> scenario_passes model expected sc) scs)), st2)"
    using Cons.IH [of st1] by (metis prod.collapse)
  show ?case using 1 2 by (simp add: sc)
qed simp

text \<open>The check never crashes on a model that answers or fails as the provider documents, and it exits with 0
  exactly when every text gets a vector of the configured dimension and every document scores above the
  unrelated text.\<close>

lemma smoke_exact:
  assumes a: "answers_as ol model"
    and c: "get_active_embedding_config (ol_settings ol) = Inr c"
  shows "fst (smoke_main ol st) = Inr (if (\<exists>w. model distractor = Inr w \<and> int (length w) = cfg_dimension c) \<and>
    list_all (scenario_passes model (cfg_dimension c)) smoke_scenarios then 0 else 1)"
proof (cases "model distractor")
  case (Inl e)
  with answers_Inl [OF a Inl, of st] c show ?thesis by (auto simp: smoke_main_def)
next
  case (Inr w)
  obtain st1 where e1: "embed_text ol distractor st = (Inr w, st1)"
    using answers_Inr [OF a Inr] by blast
  show ?thesis
  proof (cases "int (length w) = cfg_dimension c")
    case True
    let ?ps = "filter (\<lambda>sc. \<not> scenario_passes model (cfg_dimension c) sc) smoke_scenarios"
    obtain st2 where "count_failures ol (cfg_dimension c) w smoke_scenarios st1 = (Inr (length ?ps), st2)"
      using count_failures_exact [OF a Inr True, where scs = smoke_scenarios and st = st1] by (metis prod.collapse)
    moreover have "?ps = [] \<longleftrightarrow> list_all (scenario_passes model (cfg_dimension c)) smoke_scenarios"
      by (auto simp: filter_empty_conv list_all_iff)
    ultimately show ?thesis using True by (simp add: smoke_main_def c e1 Inr)
  qed (simp add: smoke_main_def c e1 Inr)
qed

end
