(* ===== verification/Reindex_Scheduling.thy ===== *)
theory Reindex_Scheduling
  imports World Collection_Registry Vector_Cleanup
begin

text \<open>
  Scheduling of a re-index build (\<open>app/services/indexing/reindex_scheduling_service.py\<close>): the order of
  the eligibility checks, the target collection's registration, and the race on the insert of the job,
  which the partial unique index decides.  \<open>env 0\<close> is what other sessions commit while the target
  collection is being ensured, \<open>env 1\<close> between that commit and the job's, \<open>env 2\<close> between the rollback of a
  rejected insert and the reload of the job that won.
\<close>

section \<open>Outcomes\<close>

datatype reindex_scheduling_outcome =
  SchedIneligibleNeverIndexed | SchedAlreadyCurrent | SchedAlreadyActive | SchedIngestionActive
  | SchedDeletionActive | SchedDeletionIncomplete | SchedDocumentDeleted | SchedCreated

record reindex_scheduling_result =
  rs_outcome :: reindex_scheduling_outcome
  rs_document :: document
  rs_job :: "reindex_job option"
  rs_target_config :: embedding_index_config

definition sched_result :: "reindex_scheduling_outcome \<Rightarrow> document \<Rightarrow> embedding_index_config \<Rightarrow> reindex_job option \<Rightarrow>
    reindex_scheduling_result" where
  "sched_result outcome doc target job =
     \<lparr>rs_outcome = outcome, rs_document = doc, rs_job = job, rs_target_config = target\<rparr>"

definition one_active_reindex_job_constraint_name :: ustr where
  "one_active_reindex_job_constraint_name = uni ''ix_reindex_jobs_one_active_per_document''"

definition is_active_reindex_job_violation :: "db_error \<Rightarrow> bool" where
  "is_active_reindex_job_violation e \<longleftrightarrow> e = IntegrityError one_active_reindex_job_constraint_name"

section \<open>Scheduling\<close>

definition new_reindex_job :: "ustr \<Rightarrow> ustr \<Rightarrow> ustr \<Rightarrow> ustr \<Rightarrow> int \<Rightarrow> int \<Rightarrow> time \<Rightarrow> reindex_job" where
  "new_reindex_job new_id document_id source target chunk_size chunk_overlap db_now =
     \<lparr>rix_id = new_id, rix_document_id = document_id, source_collection_name = source,
      target_collection_name = target, target_chunk_size = chunk_size, target_chunk_overlap = chunk_overlap,
      rix_status = RixPending, rix_error_message = None, rix_created_at = db_now, rix_updated_at = db_now,
      rix_completed_at = None, activated_at = None\<rparr>"

definition add_reindex_job :: "reindex_job \<Rightarrow> db \<Rightarrow> db" where
  "add_reindex_job j d = d\<lparr>reindex_jobs := reindex_jobs d @ [j]\<rparr>"

text \<open>The insert of the job and what the loser of the race answers.\<close>

definition insert_or_reload :: "(db \<Rightarrow> db) \<Rightarrow> document \<Rightarrow> embedding_index_config \<Rightarrow> reindex_job \<Rightarrow> db \<Rightarrow>
    (exn + reindex_scheduling_result) \<times> db" where
  "insert_or_reload env doc target job d =
     (case commit (add_reindex_job job d) of
        Inr d' \<Rightarrow> (Inr (sched_result SchedCreated doc target (Some job)), d')
      | Inl e \<Rightarrow>
          if \<not> is_active_reindex_job_violation e then (Inl (DatabaseErr e), d)
          else (case get_active_reindex_job (env d) (doc_id doc) of
              None \<Rightarrow> (Inl (MissingActiveReindexJobAfterRaceError (doc_id doc)), env d)
            | Some winner \<Rightarrow> (Inr (sched_result SchedAlreadyActive doc target (Some winner)), env d)))"

definition schedule_reindex :: "(nat \<Rightarrow> db \<Rightarrow> db) \<Rightarrow> ustr \<Rightarrow> time \<Rightarrow> document \<Rightarrow> 'v vector_store \<Rightarrow> embedding_index_config \<Rightarrow>
    int \<Rightarrow> int \<Rightarrow> ('v \<times> db, exn, reindex_scheduling_result) call" where
  "schedule_reindex env new_id db_now doc vs target chunk_size chunk_overlap = (\<lambda>(v, d).
     case collection_name doc of
       None \<Rightarrow> (Inr (sched_result SchedIneligibleNeverIndexed doc target None), v, d)
     | Some source \<Rightarrow>
         if source = config_collection_name target then (Inr (sched_result SchedAlreadyCurrent doc target None), v, d)
         else (case get_active_reindex_job d (doc_id doc) of
           Some active \<Rightarrow> (Inr (sched_result SchedAlreadyActive doc target (Some active)), v, d)
         | None \<Rightarrow>
             if (case get_latest_ingestion_job d (doc_id doc) of None \<Rightarrow> False | Some j \<Rightarrow> ing_active j) then
               (Inr (sched_result SchedIngestionActive doc target None), v, d)
             else (case map_option del_status (get_latest_deletion_job d (doc_id doc)) of
               Some DelPending \<Rightarrow> (Inr (sched_result SchedDeletionActive doc target None), v, d)
             | Some DelProcessing \<Rightarrow> (Inr (sched_result SchedDeletionActive doc target None), v, d)
             | Some DelPartiallyFailed \<Rightarrow> (Inr (sched_result SchedDeletionIncomplete doc target None), v, d)
             | Some DelCompleted \<Rightarrow> (Inr (sched_result SchedDocumentDeleted doc target None), v, d)
             | None \<Rightarrow>
                 (case ensure_active_collection (env 0) db_now vs target (v, d) of
                    (Inl e, v1, d1) \<Rightarrow> (Inl e, v1, d1)
                  | (Inr _, v1, d1) \<Rightarrow>
                      (case insert_or_reload (env 2) doc target
                          (new_reindex_job new_id (doc_id doc) source (config_collection_name target)
                             chunk_size chunk_overlap db_now) (env 1 d1) of
                         (r, d2) \<Rightarrow> (r, v1, d2))))))"

section \<open>The insert race\<close>

lemma new_reindex_job_simps [simp]:
  "rix_id (new_reindex_job i doc s t cs co now) = i" "rix_document_id (new_reindex_job i doc s t cs co now) = doc"
  "source_collection_name (new_reindex_job i doc s t cs co now) = s"
  "target_collection_name (new_reindex_job i doc s t cs co now) = t"
  "rix_status (new_reindex_job i doc s t cs co now) = RixPending" "rix_active (new_reindex_job i doc s t cs co now)"
  "activated_at (new_reindex_job i doc s t cs co now) = None" "rix_created_at (new_reindex_job i doc s t cs co now) = now"
  by (simp_all add: new_reindex_job_def rix_active_def)

lemma named_violation:
  assumes "first_some (map cols rows @ cs) = Some (IntegrityError n)" and "\<And>r m. cols r \<noteq> Some (IntegrityError m)"
  shows "first_some cs = Some (IntegrityError n)"
  using assms(1)
proof (induction rows)
  case Nil
  then show ?case by simp
next
  case (Cons r rows)
  then show ?case using assms(2) [of r] by (cases "cols r") auto
qed

lemma bad_column_data: "bad_column cs = Some e \<Longrightarrow> \<exists>n. e = DataError n"
  by (induction cs rule: bad_column.induct) (auto split: if_splits)

text \<open>Only the partial unique index reports its own name.\<close>

lemma reindex_index_violation:
  assumes ok: "db_ok d" and e: "commit (add_reindex_job j d) = Inl e" and v: "is_active_reindex_job_violation e"
  shows "\<exists>k \<in> set (reindex_jobs d). rix_active k \<and> rix_document_id k = rix_document_id j"
proof (rule ccontr)
  assume "\<not> ?thesis"
  then have un: "one_active rix_document_id rix_active (reindex_jobs d @ [j])"
    using ok by (auto simp: row_simps db_ok_checks check_None)
  have cols: "reindex_columns r \<noteq> Some (IntegrityError n)" for r n
    unfolding reindex_columns_def using bad_column_data by blast
  have "check_reindex_jobs (add_reindex_job j d) \<noteq> Some (IntegrityError one_active_reindex_job_constraint_name)"
  proof
    assume "check_reindex_jobs (add_reindex_job j d) = Some (IntegrityError one_active_reindex_job_constraint_name)"
    from named_violation [OF this [unfolded check_reindex_jobs_def] cols] un show False
      by (simp add: first_some_constraint one_active_reindex_job_constraint_name_def add_reindex_job_def split: if_splits)
  qed
  moreover have "db_violation (add_reindex_job j d) = check_reindex_jobs (add_reindex_job j d)"
  proof -
    have "check_index_collections (add_reindex_job j d) = None" "check_documents (add_reindex_job j d) = None"
      "check_ingestion_jobs (add_reindex_job j d) = None" "check_deletion_jobs (add_reindex_job j d) = None"
      "check_cleanup_jobs (add_reindex_job j d) = None"
      using ok by (simp_all add: db_ok_checks add_reindex_job_def)
    moreover have "first_some [None, None, None, None, x, None] = x" for x :: "db_error option"
      by (cases x) simp_all
    ultimately show ?thesis by (simp add: db_violation_def)
  qed
  ultimately show False
    using e v by (simp add: commit_Inl is_active_reindex_job_violation_def)
qed

lemma active_reindex_lookup:
  "db_ok d \<Longrightarrow> k \<in> set (reindex_jobs d) \<Longrightarrow> rix_active k \<Longrightarrow> get_active_reindex_job d (rix_document_id k) = Some k"
  unfolding get_active_reindex_job_def by (rule rix_table.active_lookup)

lemma get_active_reindex_Some: "get_active_reindex_job d doc = Some j \<Longrightarrow>
    j \<in> set (reindex_jobs d) \<and> rix_active j \<and> rix_document_id j = doc"
  unfolding get_active_reindex_job_def by (auto dest!: latest_of_Some)

text \<open>Exactly one of the racing inserts wins; the loser finds the winner unless its job ended before the reload.\<close>

lemma insert_or_reload_cases:
  assumes ok: "db_ok d" and run: "insert_or_reload env doc target job d = (r, d')" and doc: "rix_document_id job = doc_id doc"
  obtains (created) "r = Inr (sched_result SchedCreated doc target (Some job))" "d' = add_reindex_job job d" "db_ok d'"
  | (lost) winner where "r = Inr (sched_result SchedAlreadyActive doc target (Some winner))" "d' = env d"
      "get_active_reindex_job d' (doc_id doc) = Some winner"
  | (missing) "r = Inl (MissingActiveReindexJobAfterRaceError (doc_id doc))" "d' = env d"
      "get_active_reindex_job d (doc_id doc) \<noteq> None" "get_active_reindex_job d' (doc_id doc) = None"
  | (failed) e where "r = Inl (DatabaseErr e)" "d' = d" "\<not> is_active_reindex_job_violation e"
proof (cases "commit (add_reindex_job job d)")
  case (Inr x)
  with run created show thesis by (auto simp: insert_or_reload_def commit_Inr)
next
  case (Inl e)
  show thesis
  proof (cases "is_active_reindex_job_violation e")
    case False
    with run Inl failed [of e] show thesis by (auto simp: insert_or_reload_def)
  next
    case True
    from reindex_index_violation [OF ok Inl True] doc obtain k where
      k: "k \<in> set (reindex_jobs d)" "rix_active k" "rix_document_id k = doc_id doc" by auto
    with active_reindex_lookup [OF ok k(1,2)] run Inl True lost missing show thesis
      by (auto simp: insert_or_reload_def split: option.splits)
  qed
qed

section \<open>Correctness of scheduling\<close>

text \<open>What a request passes through when it is not answered by an eligibility check.\<close>

lemma schedule_cases:
  assumes "schedule_reindex env new_id db_now doc vs target cs co (v, d) = (r, v', d')"
  obtains (answered) res where "r = Inr res" "v' = v" "d' = d" "rs_outcome res \<noteq> SchedCreated"
      "rs_outcome res = SchedAlreadyActive \<Longrightarrow> \<exists>j. rs_job res = Some j \<and> get_active_reindex_job d (doc_id doc) = Some j"
  | (ensure) e where "r = Inl e" "ensure_active_collection (env 0) db_now vs target (v, d) = (Inl e, v', d')"
  | (insert) source d1 where "collection_name doc = Some source" "source \<noteq> config_collection_name target"
      "ensure_active_collection (env 0) db_now vs target (v, d) = (Inr (), v', d1)"
      "get_latest_deletion_job d (doc_id doc) = None"
      "insert_or_reload (env 2) doc target (new_reindex_job new_id (doc_id doc) source (config_collection_name target) cs co db_now)
         (env 1 d1) = (r, d')"
proof (cases "collection_name doc")
  case None
  with assms show thesis
    by (intro answered [of "sched_result SchedIneligibleNeverIndexed doc target None"])
      (auto simp: schedule_reindex_def sched_result_def)
next
  case (Some source)
  note src = this
  consider "source = config_collection_name target"
    | j where "source \<noteq> config_collection_name target" "get_active_reindex_job d (doc_id doc) = Some j"
    | "source \<noteq> config_collection_name target" "get_active_reindex_job d (doc_id doc) = None"
      "case get_latest_ingestion_job d (doc_id doc) of None \<Rightarrow> False | Some j \<Rightarrow> ing_active j"
    | s where "source \<noteq> config_collection_name target" "get_active_reindex_job d (doc_id doc) = None"
      "\<not> (case get_latest_ingestion_job d (doc_id doc) of None \<Rightarrow> False | Some j \<Rightarrow> ing_active j)"
      "map_option del_status (get_latest_deletion_job d (doc_id doc)) = Some s"
    | "source \<noteq> config_collection_name target" "get_active_reindex_job d (doc_id doc) = None"
      "\<not> (case get_latest_ingestion_job d (doc_id doc) of None \<Rightarrow> False | Some j \<Rightarrow> ing_active j)"
      "get_latest_deletion_job d (doc_id doc) = None"
    by (metis map_option_is_None not_None_eq)
  then show thesis
  proof cases
    case 1
    with assms src show thesis
      by (intro answered [of "sched_result SchedAlreadyCurrent doc target None"]) (auto simp: schedule_reindex_def sched_result_def)
  next
    case (2 j)
    with assms src show thesis
      by (intro answered [of "sched_result SchedAlreadyActive doc target (Some j)"]) (auto simp: schedule_reindex_def sched_result_def)
  next
    case 3
    with assms src show thesis
      by (intro answered [of "sched_result SchedIngestionActive doc target None"]) (auto simp: schedule_reindex_def sched_result_def)
  next
    case (4 s)
    with assms src show thesis
      by (intro answered [of "sched_result (case s of DelPartiallyFailed \<Rightarrow> SchedDeletionIncomplete
            | DelCompleted \<Rightarrow> SchedDocumentDeleted | _ \<Rightarrow> SchedDeletionActive) doc target None"])
        (cases s; auto simp: schedule_reindex_def sched_result_def simp del: map_option_eq_Some)+
  next
    case 5
    obtain x v1 d1 where e: "ensure_active_collection (env 0) db_now vs target (v, d) = (x, v1, d1)"
      by (metis surj_pair)
    show thesis
    proof (cases x)
      case (Inl ex)
      with assms src 5 e show thesis by (intro ensure [of ex]) (auto simp: schedule_reindex_def)
    next
      case (Inr u)
      with assms src 5 e show thesis by (intro insert [of source d1]) (auto simp: schedule_reindex_def split: prod.splits)
    qed
  qed
qed

text \<open>C29: Whatever other sessions commit meanwhile, between a rejected insert and the reload too, scheduling
  a re-index leaves a valid database and every stored vector, creates at most the one active job of the
  document, with a tracked target other than the serving collection, and answers "already active" with an
  active job of the document, the winner's after a lost race.  It raises what ensuring the collection or a
  commit raises, and for a lost race only when the winning job, active when the insert was rejected, has
  ended before the reload, so that the document has no active job.\<close>

theorem schedule_reindex_single_active:
  assumes vi: "vector_index vs stored sizes" and ok: "db_ok d" and env: "\<And>k x. db_ok x \<Longrightarrow> db_ok (env k x)"
    and run: "schedule_reindex env new_id db_now doc vs target cs co (v, d) = (r, v', d')"
  shows "db_ok d' \<and> stored v' = stored v \<and>
    (\<forall>e. r = Inl e \<longrightarrow> ensure_active_collection (env 0) db_now vs target (v, d) = (Inl e, v', d') \<or>
       (\<exists>x. e = DatabaseErr x \<and> \<not> is_active_reindex_job_violation x) \<or>
       e = MissingActiveReindexJobAfterRaceError (doc_id doc) \<and>
       (\<exists>x. db_ok x \<and> get_active_reindex_job x (doc_id doc) \<noteq> None \<and> d' = env 2 x) \<and>
       (\<forall>k \<in> set (reindex_jobs d'). \<not> (rix_active k \<and> rix_document_id k = doc_id doc))) \<and>
    (\<forall>res. r = Inr res \<and> rs_outcome res = SchedCreated \<longrightarrow>
       (\<exists>j. rs_job res = Some j \<and> filter (\<lambda>k. rix_document_id k = doc_id doc \<and> rix_active k) (reindex_jobs d') = [j] \<and>
          target_collection_name j = config_collection_name target \<and> collection_name doc = Some (source_collection_name j) \<and>
          source_collection_name j \<noteq> target_collection_name j \<and> get_index_collection d' (target_collection_name j) \<noteq> None)) \<and>
    (\<forall>res. r = Inr res \<and> rs_outcome res = SchedAlreadyActive \<longrightarrow>
       (\<exists>j. rs_job res = Some j \<and> j \<in> set (reindex_jobs d') \<and> rix_active j \<and> rix_document_id j = doc_id doc))"
  using run
proof (cases rule: schedule_cases)
  case (answered res)
  with ok show ?thesis by (auto dest: get_active_reindex_Some)
next
  case (ensure e)
  with ensure ensure_frame [OF vi ensure(2)] env [OF ok] show ?thesis by auto
next
  case (insert source d1)
  let ?j = "new_reindex_job new_id (doc_id doc) source (config_collection_name target) cs co db_now"
  have ok1: "db_ok (env 1 d1)" and st: "stored v' = stored v"
    using ensure_frame [OF vi insert(3)] env [OF ok] env by auto
  show ?thesis
    using ok1 insert(5) new_reindex_job_simps(2)
  proof (cases rule: insert_or_reload_cases)
    case created
    have un: "one_active rix_document_id rix_active (reindex_jobs (env 1 d1) @ [?j])"
      using rix_table.active_index [OF created(3)] created(2) by (simp add: add_reindex_job_def)
    have "filter (\<lambda>k. rix_document_id k = doc_id doc \<and> rix_active k) (reindex_jobs d') = [?j]"
      using filter_active_snoc [OF un] created(2) by (simp add: add_reindex_job_def)
    moreover have "get_index_collection d' (config_collection_name target) \<noteq> None"
      using created(3) created(2) by (simp add: get_index_collection_def get_row_None add_reindex_job_def db_ok_checks check_None)
    ultimately show ?thesis
      using created insert st by (auto simp: sched_result_def)
  next
    case (lost winner)
    with env [OF ok1] st get_active_reindex_Some [OF lost(3)] show ?thesis by (auto simp: sched_result_def)
  next
    case missing
    have gone: "\<forall>k \<in> set (reindex_jobs d'). \<not> (rix_active k \<and> rix_document_id k = doc_id doc)"
      using active_reindex_lookup [of d'] env [OF ok1] missing(2,4) by fastforce
    from missing(1,2) show ?thesis
      by (intro conjI allI impI disjI2 exI [of _ "env 1 d1"] gone ok1 missing(3)) (use env [OF ok1] st in simp_all)
  next
    case (failed e)
    with ok1 st show ?thesis by auto
  qed
qed

text \<open>A document served from A and a target whose insert loses against another session's job: the winner is
  still active at the reload, or it has ended.\<close>

definition target_db :: db where
  "target_db = add_index_collection (new_index_collection config_dot 0) (serving_db (uni ''A'') [])"

definition racing_job :: reindex_job where
  "racing_job = new_reindex_job (uni ''r0'') (uni ''d1'') (uni ''A'') (config_collection_name config_dot) 1000 200 4"

definition raced_db :: db where
  "raced_db = add_reindex_job racing_job target_db"

lemma dot_name: "config_collection_name config_dot \<noteq> uni ''A''" "config_collection_name config_dot \<noteq> uni ''B''"
  "length (config_collection_name config_dot) \<le> 255"
  by (simp_all add: config_collection_name_def config_dot_def name_defs str_int_def dec.simps)

lemma target_db_simps [simp]:
  "documents target_db = [served_document (uni ''A'')]" "reindex_jobs target_db = []" "ingestion_jobs target_db = []"
  "deletion_jobs target_db = []" "cleanup_jobs target_db = []"
  "index_collections target_db = [sample_collection (uni ''A''), sample_collection (uni ''B''), new_index_collection config_dot 0]"
  "ic_collection_name (new_index_collection config_dot 0) = config_collection_name config_dot"
  by (simp_all add: target_db_def add_index_collection_def new_index_collection_def)

lemma target_db_ok: "db_ok target_db"
proof -
  have "index_collection_columns (new_index_collection config_dot 0) = None"
    using dot_name(3) by (simp add: index_collection_columns_def new_index_collection_def too_long_def no_int4_def config_dot_def)
  with serving_db_ok [of "uni ''A''" "[]"] dot_name show ?thesis
    by (simp add: db_ok_checks check_None fits_def one_active_def)
qed

lemma new_job_fits: "length i \<le> 36 \<Longrightarrow> reindex_columns (new_reindex_job i (uni ''d1'') (uni ''A'')
    (config_collection_name config_dot) 1000 200 t) = None"
  using dot_name(3) by (simp add: reindex_columns_def new_reindex_job_def too_long_def too_long_opt_def no_int4_def)

lemma raced_db_ok: "db_ok raced_db" "reindex_jobs raced_db = [racing_job]"
  using insert_reindex_job [OF target_db_ok new_job_fits, of "uni ''r0''" 4]
  by (simp_all add: raced_db_def racing_job_def add_reindex_job_def commit_Inr)

lemma lost_insert: "commit (add_reindex_job (new_reindex_job (uni ''r1'') (uni ''d1'') (uni ''A'')
    (config_collection_name config_dot) 1000 200 5) raced_db) = Inl (IntegrityError one_active_reindex_job_constraint_name)"
  using insert_reindex_job [OF raced_db_ok(1) new_job_fits, of "uni ''r1''" 5] raced_db_ok(2)
  by (simp add: add_reindex_job_def raced_db_def one_active_reindex_job_constraint_name_def racing_job_def)

definition racing :: "db \<Rightarrow> nat \<Rightarrow> db \<Rightarrow> db" where
  "racing afterwards k d = (if k = 0 then target_db else if k = 1 then raced_db else afterwards)"

lemma racing_run: "\<exists>v'. schedule_reindex (racing afterwards) (uni ''r1'') 5 (served_document (uni ''A'')) mem_store config_dot 1000 200
     (empty_index, target_db) =
   (case get_active_reindex_job afterwards (uni ''d1'') of
      None \<Rightarrow> Inl (MissingActiveReindexJobAfterRaceError (uni ''d1''))
    | Some j \<Rightarrow> Inr (sched_result SchedAlreadyActive (served_document (uni ''A'')) config_dot (Some j)), v', afterwards)"
proof -
  have "mi_failures empty_index = []" "mi_sizes empty_index (config_collection_name config_dot) = None"
    by (simp_all add: empty_index_def)
  then obtain v' where "ensure_active_collection (racing afterwards 0) 5 mem_store config_dot (empty_index, target_db) =
      (Inr (), v', target_db)"
    by (simp add: ensure_active_collection_def mem_runs racing_def get_index_collection_def get_row_None dot_name)
  moreover have "get_active_reindex_job target_db (uni ''d1'') = None" "get_latest_ingestion_job target_db (uni ''d1'') = None"
    "get_latest_deletion_job target_db (uni ''d1'') = None"
    by (simp_all add: get_active_reindex_job_def get_latest_ingestion_job_def get_latest_deletion_job_def latest_of_None)
  ultimately show ?thesis
    using lost_insert dot_name(1)
    by (auto simp: schedule_reindex_def insert_or_reload_def racing_def is_active_reindex_job_violation_def
        split: option.split)
qed

theorem schedule_reindex_single_active_witness:
  "(\<exists>r v' d'. schedule_reindex (racing raced_db) (uni ''r1'') 5 (served_document (uni ''A'')) mem_store config_dot 1000 200
      (empty_index, target_db) = (r, v', d') \<and> db_ok d' \<and>
    (\<exists>res. r = Inr res \<and> rs_outcome res = SchedAlreadyActive \<and> rs_job res = Some racing_job)) \<and>
   (\<exists>r v' d'. schedule_reindex (racing target_db) (uni ''r1'') 5 (served_document (uni ''A'')) mem_store config_dot 1000 200
      (empty_index, target_db) = (r, v', d') \<and> db_ok d' \<and>
    r = Inl (MissingActiveReindexJobAfterRaceError (uni ''d1'')))"
proof (rule conjI)
  have env: "db_ok x \<Longrightarrow> db_ok (racing raced_db k x)" "db_ok x \<Longrightarrow> db_ok (racing target_db k x)" for k x
    using target_db_ok raced_db_ok(1) by (simp_all add: racing_def)
  have a: "get_active_reindex_job raced_db (uni ''d1'') = Some racing_job"
    using active_reindex_lookup [OF raced_db_ok(1), of racing_job] raced_db_ok(2) by (simp add: racing_job_def)
  have n: "get_active_reindex_job target_db (uni ''d1'') = None"
    by (simp add: get_active_reindex_job_def latest_of_None)
  note claim = schedule_reindex_single_active [OF mem.index.vector_index_axioms target_db_ok]
  from racing_run [of raced_db] a claim [of "racing raced_db", OF env(1)]
  show "\<exists>r v' d'. schedule_reindex (racing raced_db) (uni ''r1'') 5 (served_document (uni ''A'')) mem_store config_dot 1000 200
      (empty_index, target_db) = (r, v', d') \<and> db_ok d' \<and>
    (\<exists>res. r = Inr res \<and> rs_outcome res = SchedAlreadyActive \<and> rs_job res = Some racing_job)"
    by (fastforce simp: sched_result_def)
  from racing_run [of target_db] n claim [of "racing target_db", OF env(2)]
  show "\<exists>r v' d'. schedule_reindex (racing target_db) (uni ''r1'') 5 (served_document (uni ''A'')) mem_store config_dot 1000 200
      (empty_index, target_db) = (r, v', d') \<and> db_ok d' \<and>
    r = Inl (MissingActiveReindexJobAfterRaceError (uni ''d1''))"
    by fastforce
qed

end
