(* ===== verification/Reindex_Build.thy ===== *)
theory Reindex_Build
  imports Ingestion_Worker Vector_Cleanup
begin

text \<open>
  Building a document's index under an explicit target configuration and the primitive that switches a
  document to it (\<open>app/services/indexing/reindex_service.py\<close>).  The build writes to the target
  collection only and changes no document.
\<close>

section \<open>Settings of a build\<close>

definition build_settings_for_target :: "settings \<Rightarrow> embedding_index_config \<Rightarrow> int \<Rightarrow> int \<Rightarrow> settings" where
  "build_settings_for_target base target csize overlap =
     base\<lparr>set_embedding_provider := cfg_provider target, set_embedding_model := Some (cfg_model target),
       ollama_embedding_model := cfg_model target, vector_size := cfg_dimension target,
       set_embedding_version := cfg_embedding_version target, set_chunking_version := cfg_chunking_version target,
       qdrant_collection_name := cfg_collection_prefix target,
       set_chunk_size := csize, set_chunk_overlap := overlap\<rparr>"

text \<open>The \<open>repr\<close> of the dataclass, for the message of \<open>TargetConfigurationMismatchError\<close>.\<close>

definition repr_config :: "embedding_index_config \<Rightarrow> ustr" where
  "repr_config c = uni ''EmbeddingIndexConfig(collection_prefix='' @ py_repr (cfg_collection_prefix c) @
     uni '', provider='' @ py_repr (cfg_provider c) @ uni '', model='' @ py_repr (cfg_model c) @
     uni '', dimension='' @ str_int (cfg_dimension c) @
     uni '', embedding_version='' @ py_repr (cfg_embedding_version c) @
     uni '', chunking_version='' @ py_repr (cfg_chunking_version c) @ uni '')''"

definition target_mismatch_error :: "embedding_index_config \<Rightarrow> embedding_index_config \<Rightarrow> exn" where
  "target_mismatch_error expected actual = TargetConfigurationMismatchError
     (uni ''Settings derived for this build resolve to '' @ repr_config actual @
      uni '', but the requested target configuration was '' @ repr_config expected @ uni '' '' @ [8212] @
      uni '' refusing to build under a mismatched identity.'')"

datatype reindex_build_outcome = Built | BuiltEmpty

record reindex_build_result =
  rb_outcome :: reindex_build_outcome
  rb_target_collection_name :: ustr
  chunk_count :: nat
  vector_count :: nat

definition resolved_config_matches_target :: "settings \<Rightarrow> embedding_index_config \<Rightarrow> exn + embedding_index_config option" where
  "resolved_config_matches_target s target =
     (case get_active_embedding_config s of
        Inl e \<Rightarrow> Inl e
      | Inr resolved \<Rightarrow> Inr (if resolved = target then None else Some resolved))"

section \<open>The build\<close>

definition build_chunks :: "('f, 'e, 'v) platform \<Rightarrow> settings \<Rightarrow> (db \<Rightarrow> db) \<Rightarrow> time \<Rightarrow> embedding_index_config \<Rightarrow> document \<Rightarrow>
    'v vector_store \<Rightarrow> document_chunk list \<Rightarrow> (('f, 'e, 'v) world, exn, unit) call" where
  "build_chunks pf bs env now target doc vs chunks =
     call_bind (call_lift (get_embedding_provider (pf_embedder pf) bs)) (\<lambda>embedder.
     call_bind (on_embedder (embedder (map chunk_text chunks))) (\<lambda>vectors.
     call_bind (call_lift (validate_embeddings vectors (length chunks) (cfg_dimension target))) (\<lambda>_.
     call_bind (on_registry (ensure_active_collection env now vs target)) (\<lambda>_.
     on_index (vs_upsert_vectors vs (config_collection_name target) (to_points (pf_uuid5 pf) doc chunks vectors))))))"

definition build_reindex_target :: "('f, 'e, 'v) platform \<Rightarrow> settings \<Rightarrow> (db \<Rightarrow> db) \<Rightarrow> time \<Rightarrow> document \<Rightarrow> embedding_index_config \<Rightarrow>
    int \<Rightarrow> int \<Rightarrow> (('f, 'e, 'v) world, exn, reindex_build_result) call" where
  "build_reindex_target pf s env now doc target csize overlap =
     (let bs = build_settings_for_target s target csize overlap in
      call_bind (call_lift (resolved_config_matches_target bs target)) (\<lambda>mismatch.
      case mismatch of
        Some actual \<Rightarrow> call_raise (target_mismatch_error target actual)
      | None \<Rightarrow>
          call_bind (on_files (extract_text (pf_readers pf) (pf_storage pf) doc)) (\<lambda>extracted.
          call_bind (call_lift (new_chunker (set_chunk_size bs) (set_chunk_overlap bs))) (\<lambda>chunker.
          let chunks = chunk chunker extracted in
          call_bind (call_lift (get_vector_store (pf_vector_store pf) bs)) (\<lambda>vs.
          call_bind (if chunks \<noteq> [] then build_chunks pf bs env now target doc vs chunks else call_return ()) (\<lambda>_.
          call_return \<lparr>rb_outcome = (if chunks \<noteq> [] then Built else BuiltEmpty),
            rb_target_collection_name = config_collection_name target, chunk_count = length chunks,
            vector_count = (if chunks \<noteq> [] then length chunks else 0)\<rparr>))))))"

section \<open>The build's settings reproduce its target\<close>

lemma build_settings_config: "get_active_embedding_config (build_settings_for_target s target cs co) = post_init target"
proof -
  have "resolved_embedding_model (build_settings_for_target s target cs co) = cfg_model target"
    by (simp add: resolved_embedding_model_def or_default_def build_settings_for_target_def)
  then show ?thesis
    by (cases target) (simp add: get_active_embedding_config_def build_settings_for_target_def)
qed

lemma post_init_same: "post_init c = Inr c' \<Longrightarrow> c' = c"
  by (auto simp: post_init_def split: option.splits if_splits)

text \<open>A valid target is what the build's settings resolve to, so the mismatch error never arises; an
  invalid one is rejected with the error of its constructor.\<close>

lemma build_settings_match: "resolved_config_matches_target (build_settings_for_target s target cs co) target =
    map_sum id (\<lambda>_. None) (post_init target)"
  using post_init_same [of target]
  by (cases "post_init target") (auto simp: resolved_config_matches_target_def build_settings_config)

text \<open>Once the vector store is chosen, the chunks are indexed as the ingestion worker indexes them.\<close>

lemma build_chunks_index:
  assumes "get_vector_store (pf_vector_store pf) bs = Inr vs"
  shows "build_chunks pf bs env now target doc vs chunks w = index_chunks pf bs env now target doc chunks w"
proof -
  have one: "call_bind (call_lift (Inr vs)) f = f vs" for f
    by (intro ext) (simp add: call_bind_def call_lift_def)
  show ?thesis
    unfolding build_chunks_def index_chunks_def assms one ..
qed

lemma build_cases:
  assumes run: "build_reindex_target pf s env now doc target cs co w = (r, w')"
  defines "bs \<equiv> build_settings_for_target s target cs co"
  obtains (early) e where "r = Inl e" "w_index w' = w_index w" "w_db w' = w_db w"
  | (indexed) extracted fs' chunker r' where "post_init target = Inr target"
      "extract_text (pf_readers pf) (pf_storage pf) doc (w_files w) = (Inr extracted, fs')"
      "new_chunker cs co = Inr chunker" "get_vector_store (pf_vector_store pf) bs = Inr (pf_vector_store pf bs)"
      "index_chunks pf bs env now target doc (chunk chunker extracted) (w\<lparr>w_files := fs'\<rparr>) = (r', w')"
      "r = map_sum id (\<lambda>_. \<lparr>rb_outcome = Built, rb_target_collection_name = config_collection_name target,
         chunk_count = length (chunk chunker extracted), vector_count = length (chunk chunker extracted)\<rparr>) r'"
proof (cases "post_init target")
  case (Inl e)
  with run show thesis
    by (intro early [of e]) (auto simp: build_reindex_target_def Let_def call_bind_def call_lift_def build_settings_match)
next
  case (Inr c)
  then have valid: "post_init target = Inr target" using post_init_same by blast
  obtain x fs' where x: "extract_text (pf_readers pf) (pf_storage pf) doc (w_files w) = (x, fs')" by fastforce
  have sizes: "set_chunk_size bs = cs" "set_chunk_overlap bs = co"
    by (simp_all add: bs_def build_settings_for_target_def)
  have mtch: "resolved_config_matches_target bs target = Inr None"
    by (simp add: bs_def build_settings_match valid)
  let ?go = "\<exists>extracted chunker. x = Inr extracted \<and> new_chunker cs co = Inr chunker \<and>
      get_vector_store (pf_vector_store pf) bs = Inr (pf_vector_store pf bs)"
  show thesis
  proof (cases ?go)
    case False
    then have "\<exists>e. r = Inl e \<and> w' = w\<lparr>w_files := fs'\<rparr>"
      using run x sizes mtch
      by (auto simp: build_reindex_target_def Let_def call_bind_def call_lift_def on_files_def
          bs_def [symmetric] get_vector_store_def split: sum.splits if_splits)
    with early show thesis by auto
  next
    case True
    then obtain extracted chunker where go: "x = Inr extracted" "new_chunker cs co = Inr chunker"
      "get_vector_store (pf_vector_store pf) bs = Inr (pf_vector_store pf bs)" by auto
    have ne: "chunk chunker extracted \<noteq> []"
      using extracted_pages(2) [of "pf_readers pf" "pf_storage pf" doc "w_files w" extracted fs'] x go(1)
      by (simp add: chunk_eq_Nil)
    obtain r' w2 where ix: "index_chunks pf bs env now target doc (chunk chunker extracted) (w\<lparr>w_files := fs'\<rparr>) = (r', w2)"
      by fastforce
    then have "build_chunks pf bs env now target doc (pf_vector_store pf bs) (chunk chunker extracted) (w\<lparr>w_files := fs'\<rparr>) = (r', w2)"
      by (simp add: build_chunks_index [OF go(3)])
    then have "w' = w2 \<and> r = map_sum id (\<lambda>_. \<lparr>rb_outcome = Built, rb_target_collection_name = config_collection_name target,
         chunk_count = length (chunk chunker extracted), vector_count = length (chunk chunker extracted)\<rparr>) r'"
      using run x mtch go ne sizes
      by (cases r') (auto simp: build_reindex_target_def Let_def call_bind_def call_lift_def call_return_def
          on_files_def bs_def [symmetric])
    with indexed [OF valid _ go(2,3), of extracted fs' r'] x go(1) ix show thesis by simp
  qed
qed

lemma put_points_values: "put_points ps m i = Some p \<Longrightarrow> p \<in> set ps \<or> m i = Some p"
  using put_points_in [of i ps m] put_points_other [of i ps m] by (cases "i \<in> vp_id ` set ps") auto

text \<open>A build concerns the target collection and no row of the database but the target's own.\<close>

lemma build_frame:
  assumes vi: "vector_index (pf_vector_store pf (build_settings_for_target s target cs co)) stored sizes"
    and run: "build_reindex_target pf s env now doc target cs co w = (r, w')"
  shows "(\<exists>d \<in> {w_db w, env (w_db w)}. (db_ok d \<longrightarrow> db_ok (w_db w')) \<and> documents (w_db w') = documents d \<and>
       ingestion_jobs (w_db w') = ingestion_jobs d \<and> deletion_jobs (w_db w') = deletion_jobs d \<and>
       reindex_jobs (w_db w') = reindex_jobs d \<and> cleanup_jobs (w_db w') = cleanup_jobs d) \<and>
    (\<forall>c. c \<noteq> config_collection_name target \<longrightarrow> stored (w_index w') c = stored (w_index w) c) \<and>
    (\<forall>c i. i \<noteq> doc_id doc \<longrightarrow> holds_document (stored (w_index w')) c i \<longrightarrow> holds_document (stored (w_index w)) c i)"
  using run
proof (cases rule: build_cases)
  case (early e)
  then show ?thesis by auto
next
  case (indexed extracted fs' chunker r')
  let ?cs = "chunk chunker extracted" and ?t = "config_collection_name target"
  from index_chunks_points [OF vi indexed(5)] obtain vs where
    b: "between (upsert_points ?t (to_points (pf_uuid5 pf) doc ?cs vs)) (stored (w_index w)) (stored (w_index w'))" by auto
  have other: "stored (w_index w') c = stored (w_index w) c" if "c \<noteq> ?t" for c
  proof (rule ext)
    fix k
    show "stored (w_index w') c k = stored (w_index w) c k"
      using b [unfolded between_def, rule_format, of c k] that by (simp add: upsert_points_def)
  qed
  have "holds_document (stored (w_index w)) c i" if "i \<noteq> doc_id doc" "holds_document (stored (w_index w')) c i" for c i
  proof -
    from that(2) obtain k p where p: "stored (w_index w') c k = Some p" "vp_document_id p = i"
      by (auto simp: holds_document_def)
    have docs: "vp_document_id q = doc_id doc" if "q \<in> set (to_points (pf_uuid5 pf) doc ?cs vs)" for q
      using to_points_document [OF _ that] chunk_document_id extracted_pages(1) [OF indexed(2)] by metis
    have "stored (w_index w) c k = Some p"
      using b [unfolded between_def, rule_format, of c k] p docs that(1)
        put_points_values [of "to_points (pf_uuid5 pf) doc ?cs vs" "stored (w_index w) ?t" k p]
      by (auto simp: upsert_points_def split: if_splits)
    with p(2) show ?thesis by (auto simp: holds_document_def)
  qed
  then show ?thesis
    using index_chunks_frame [OF vi indexed(5)] other by auto
qed

text \<open>A successful build leaves the points of the chunks of the stored file in the target collection.\<close>

lemma build_complete:
  assumes vi: "vector_index (pf_vector_store pf (build_settings_for_target s target cs co)) stored sizes"
    and run: "build_reindex_target pf s env now doc target cs co w = (Inr res, w')"
  shows "\<exists>extracted chunker.
    fst (extract_text (pf_readers pf) (pf_storage pf) doc (w_files w)) = Inr extracted \<and> new_chunker cs co = Inr chunker \<and>
    chunk chunker extracted \<noteq> [] \<and>
    chunks_held (pf_uuid5 pf) (original_filename doc) (chunk chunker extracted)
      (stored (w_index w') (config_collection_name target))"
  using run
proof (cases rule: build_cases)
  case (indexed extracted fs' chunker r')
  then have "r' = Inr ()" by (cases r') auto
  with index_chunks_points [OF vi indexed(5)] obtain vectors where
    v: "length vectors = length (chunk chunker extracted)" "stored (w_index w') =
      upsert_points (config_collection_name target) (to_points (pf_uuid5 pf) doc (chunk chunker extracted) vectors)
        (stored (w_index w))" by auto
  have "chunk chunker extracted \<noteq> []"
    using extracted_pages(2) [OF indexed(2)] by (simp add: chunk_eq_Nil)
  moreover have "chunks_held (pf_uuid5 pf) (original_filename doc) (chunk chunker extracted)
      (stored (w_index w') (config_collection_name target))"
    using upserted_chunks [OF v(1)] v(2) by simp
  ultimately show ?thesis
    using indexed(2,3) by auto
qed simp

section \<open>Switching to a target\<close>

record target_activation =
  ta_document :: document
  ta_activated :: bool
  ta_cleanup_job :: "cleanup_job option"

definition activate_target :: "(db \<Rightarrow> db) \<Rightarrow> ustr \<Rightarrow> time \<Rightarrow> time \<Rightarrow> document \<Rightarrow> embedding_index_config \<Rightarrow> db \<Rightarrow>
    (exn + target_activation) \<times> db" where
  "activate_target env new_id now db_now doc target d =
     (if collection_name doc = Some (config_collection_name target) then
        (Inr \<lparr>ta_document = doc, ta_activated = False, ta_cleanup_job = None\<rparr>, d)
      else
        let new = mark_document_indexed now target doc;
            job = map_option (\<lambda>c. new_cleanup_job new_id (doc_id doc) c None db_now) (collection_name doc) in
        (case commit (update_documents doc new (case job of None \<Rightarrow> env d | Some j \<Rightarrow> add_cleanup_job j (env d))) of
           Inl e \<Rightarrow> (Inl (DatabaseErr e), env d)
         | Inr d' \<Rightarrow> (Inr \<lparr>ta_document = new, ta_activated = True, ta_cleanup_job = job\<rparr>, d')))"

end
