(* ===== verification/Reindex_Worker.thy ===== *)
theory Reindex_Worker
  imports Reindex_Build
begin

text \<open>
  The re-index worker (\<open>app/services/indexing/reindex_worker.py\<close>): it claims one pending job, rebuilds
  the pinned target configuration from the target's row and the live collection prefix, builds, and
  resolves the job.  The session's own copy of the job, kept over the claim's commit, is what the check
  after the build reads; after a failed build the rollback expires it, so the failure is recorded on a
  fresh one.  \<open>env 0\<close> is what others commit after the claim, \<open>env 1\<close> during the build, \<open>env 2\<close> before the
  last commit; \<open>now\<close> is the process clock and \<open>db_now\<close> the database's, which \<open>updated_at\<close> reads.
\<close>

definition max_reindex_error_length :: nat where
  "max_reindex_error_length = 2048"

definition bounded_reindex_error :: "ustr \<Rightarrow> ustr" where
  "bounded_reindex_error message = take max_reindex_error_length message"

definition blocking_deletion_statuses :: "deletion_status list" where
  "blocking_deletion_statuses = [DelPending, DelProcessing, DelPartiallyFailed, DelCompleted]"

datatype reindex_worker_outcome = RwNoJob | RwCompleted | RwFailed | RwSkippedDeleted

record reindex_worker_result =
  rw_outcome :: reindex_worker_outcome
  rw_job_id :: "ustr option"
  rw_document_id :: "ustr option"

definition claim_next_pending_reindex_job :: "(ustr \<Rightarrow> bool) \<Rightarrow> db \<Rightarrow> reindex_job option" where
  "claim_next_pending_reindex_job locked d =
     oldest_by (row_key rix_created_at rix_id)
       (filter (\<lambda>j. rix_status j = RixPending \<and> \<not> locked (rix_id j)) (reindex_jobs d))"

definition latest_deletion_status :: "db \<Rightarrow> ustr \<Rightarrow> deletion_status option" where
  "latest_deletion_status d document_id = map_option del_status (get_latest_deletion_job d document_id)"

definition set_rix_processing :: "time \<Rightarrow> reindex_job \<Rightarrow> reindex_job" where
  "set_rix_processing db_now j = j\<lparr>rix_status := RixProcessing, rix_updated_at := db_now\<rparr>"

definition fail_reindex :: "ustr \<Rightarrow> time \<Rightarrow> time \<Rightarrow> reindex_job \<Rightarrow> reindex_job" where
  "fail_reindex message now db_now j = j\<lparr>rix_status := RixFailed, rix_error_message := Some (bounded_reindex_error message),
     rix_completed_at := Some now, rix_updated_at := db_now\<rparr>"

definition complete_reindex :: "time \<Rightarrow> time \<Rightarrow> reindex_job \<Rightarrow> reindex_job" where
  "complete_reindex now db_now j = j\<lparr>rix_status := RixCompleted, rix_completed_at := Some now, rix_error_message := None,
     rix_updated_at := db_now\<rparr>"

text \<open>A flush writes the columns whose value differs from the one the session loaded.\<close>

definition flush_reindex :: "reindex_job \<Rightarrow> reindex_job \<Rightarrow> reindex_job \<Rightarrow> reindex_job" where
  "flush_reindex loaded new row =
     row\<lparr>rix_status := changed (rix_status loaded) (rix_status new) (rix_status row),
         rix_error_message := changed (rix_error_message loaded) (rix_error_message new) (rix_error_message row),
         rix_completed_at := changed (rix_completed_at loaded) (rix_completed_at new) (rix_completed_at row),
         rix_updated_at := rix_updated_at new\<rparr>"

definition resolve_reindex :: "(db \<Rightarrow> db) \<Rightarrow> reindex_job \<Rightarrow> reindex_job \<Rightarrow> reindex_worker_outcome \<Rightarrow>
    (('f, 'e, 'v) world, exn, reindex_worker_result) call" where
  "resolve_reindex env loaded new outcome w =
     commit_update (update_reindex_job (rix_id loaded) (flush_reindex loaded new))
       \<lparr>rw_outcome = outcome, rw_job_id = Some (rix_id loaded), rw_document_id = Some (rix_document_id loaded)\<rparr>
       (others env w)"

definition fail_job :: "(db \<Rightarrow> db) \<Rightarrow> time \<Rightarrow> time \<Rightarrow> reindex_job \<Rightarrow> ustr \<Rightarrow> reindex_worker_outcome \<Rightarrow>
    (('f, 'e, 'v) world, exn, reindex_worker_result) call" where
  "fail_job env now db_now loaded message outcome = resolve_reindex env loaded (fail_reindex message now db_now loaded) outcome"

definition target_of :: "settings \<Rightarrow> index_collection \<Rightarrow> exn + embedding_index_config" where
  "target_of s r = post_init
     \<lparr>cfg_collection_prefix = qdrant_collection_name s, cfg_provider = ic_embedding_provider r,
      cfg_model = ic_embedding_model r, cfg_dimension = ic_embedding_dimension r,
      cfg_embedding_version = ic_embedding_version r, cfg_chunking_version = ic_chunking_version r\<rparr>"

text \<open>What the worker decides to build, or why it refuses, from the database after the claim.\<close>

datatype build_plan = Build document embedding_index_config | Refuse ustr reindex_worker_outcome | Crash exn

definition plan_build :: "settings \<Rightarrow> reindex_job \<Rightarrow> db \<Rightarrow> build_plan" where
  "plan_build s job d =
     (case get_document d (rix_document_id job) of
        None \<Rightarrow> Refuse (uni ''Document '' @ rix_document_id job @ uni '' not found.'') RwFailed
      | Some doc \<Rightarrow>
          let deletion = latest_deletion_status d (rix_document_id job) in
          if (case deletion of None \<Rightarrow> False | Some st \<Rightarrow> st \<in> set blocking_deletion_statuses) then
            Refuse (uni ''Document '' @ rix_document_id job @ uni '' has a blocking deletion state ('' @
              deletion_status_value (the deletion) @ uni ''); refusing to build.'') RwSkippedDeleted
          else (case get_index_collection d (target_collection_name job) of
              None \<Rightarrow> Refuse (uni ''Target collection '' @ py_repr (target_collection_name job) @
                uni '' has no IndexCollection row.'') RwFailed
            | Some r \<Rightarrow>
                (case target_of s r of
                   Inl e \<Rightarrow> Crash e
                 | Inr target \<Rightarrow>
                     if config_collection_name target \<noteq> target_collection_name job then
                       Refuse (uni ''Reconstructed target collection '' @ py_repr (config_collection_name target) @
                         uni '' does not match the pinned target '' @ py_repr (target_collection_name job) @ uni ''.'') RwFailed
                     else Build doc target)))"

definition process_next_reindex_job :: "('f, 'e, 'v) platform \<Rightarrow> settings \<Rightarrow> (exn \<Rightarrow> ustr) \<Rightarrow> (nat \<Rightarrow> time) \<Rightarrow> (nat \<Rightarrow> time) \<Rightarrow> (nat \<Rightarrow> db \<Rightarrow> db) \<Rightarrow>
    (ustr \<Rightarrow> bool) \<Rightarrow> (('f, 'e, 'v) world, exn, reindex_worker_result) call" where
  "process_next_reindex_job pf s lib now db_now env locked w =
     (case claim_next_pending_reindex_job locked (w_db w) of
        None \<Rightarrow> (Inr \<lparr>rw_outcome = RwNoJob, rw_job_id = None, rw_document_id = None\<rparr>, w)
      | Some claimed \<Rightarrow>
          let job = set_rix_processing (db_now 0) claimed in
          call_bind (commit_update (update_reindex_job (rix_id job) (set_rix_processing (db_now 0))) ())
            (\<lambda>_ w1.
               let w2 = others (env 0) w1 in
               case plan_build s job (w_db w2) of
                 Crash e \<Rightarrow> (Inl e, w2)
               | Refuse message outcome \<Rightarrow> fail_job (env 2) (now 2) (db_now 2) job message outcome w2
               | Build doc target \<Rightarrow>
                   (case build_reindex_target pf s (env 1) (db_now 1) doc target (target_chunk_size job) (target_chunk_overlap job) w2 of
                      (Inl e, w3) \<Rightarrow>
                        (case get_reindex_job (w_db w3) (rix_id job) of
                           None \<Rightarrow> (Inl AssertionError, w3)
                         | Some fresh \<Rightarrow> fail_job (env 2) (now 2) (db_now 2) fresh (str_exn lib e) RwFailed w3)
                    | (Inr _, w3) \<Rightarrow>
                        if rix_status job \<noteq> RixProcessing then
                          fail_job (env 2) (now 2) (db_now 2) job (uni ''ReindexJob '' @ rix_id job @ uni '' was no longer PROCESSING (found '' @
                            py_repr (reindex_status_value (rix_status job)) @ uni '') after a successful build.'') RwFailed w3
                        else resolve_reindex (env 2) job (complete_reindex (now 2) (db_now 2) job) RwCompleted w3)) w)"

section \<open>A run of the re-index worker\<close>

lemma reindex_set_simps [simp]:
  "rix_id (set_rix_processing t j) = rix_id j" "rix_document_id (set_rix_processing t j) = rix_document_id j"
  "rix_status (set_rix_processing t j) = RixProcessing" "source_collection_name (set_rix_processing t j) = source_collection_name j"
  "target_collection_name (set_rix_processing t j) = target_collection_name j"
  "target_chunk_size (set_rix_processing t j) = target_chunk_size j"
  "target_chunk_overlap (set_rix_processing t j) = target_chunk_overlap j"
  "rix_id (flush_reindex l n j) = rix_id j" "rix_document_id (flush_reindex l n j) = rix_document_id j"
  "source_collection_name (flush_reindex l n j) = source_collection_name j"
  "target_collection_name (flush_reindex l n j) = target_collection_name j"
  "activated_at (flush_reindex l n j) = activated_at j"
  by (simp_all add: set_rix_processing_def flush_reindex_def)

lemma reindex_columns_set [simp]: "reindex_columns (set_rix_processing t j) = reindex_columns j"
  by (simp add: set_rix_processing_def reindex_columns_def)

lemma rix_active_set [simp]: "rix_active (set_rix_processing t j)"
  by (simp add: set_rix_processing_def rix_active_def)

lemma claim_reindex: "claim_next_pending_reindex_job locked d = Some j \<Longrightarrow>
    j \<in> set (reindex_jobs d) \<and> rix_status j = RixPending \<and> \<not> locked (rix_id j)"
  by (auto simp: claim_next_pending_reindex_job_def dest!: oldest_by_Some)

lemma reindex_row_unique:
  "db_ok d \<Longrightarrow> j \<in> set (reindex_jobs d) \<Longrightarrow> k \<in> set (reindex_jobs d) \<Longrightarrow> rix_id j = rix_id k \<Longrightarrow> j = k"
  using rix_table.primary_key [of d] by (auto simp: distinct_map inj_on_def)

lemma reindex_row_fits: "db_ok d \<Longrightarrow> j \<in> set (reindex_jobs d) \<Longrightarrow> reindex_columns j = None"
  by (auto simp: db_ok_checks check_None fits_def)

lemma claim_reindex_commits:
  assumes ok: "db_ok d" and c: "claim_next_pending_reindex_job locked d = Some j"
  shows "db_ok (update_reindex_job (rix_id j) (set_rix_processing t) d)"
  using claim_reindex [OF c] reindex_row_unique [OF ok] reindex_row_fits [OF ok]
  by (intro update_reindex_job_ok [OF ok]) (auto simp: rix_active_def)

text \<open>Only the claim's and the last commit write job rows; the run ends in one of four ways.\<close>

lemma process_reindex_cases:
  assumes ok: "db_ok (w_db w)" and claim: "claim_next_pending_reindex_job locked (w_db w) = Some claimed"
    and run: "process_next_reindex_job pf s lib now db_now env locked w = (r, w')"
  defines "job \<equiv> set_rix_processing (db_now 0) claimed"
    and "d \<equiv> env 0 (update_reindex_job (rix_id claimed) (set_rix_processing (db_now 0)) (w_db w))"
  obtains (crash) e where "plan_build s job d = Crash e" "r = Inl e" "w' = w\<lparr>w_db := d\<rparr>"
  | (refuse) msg outcome where "plan_build s job d = Refuse msg outcome"
      "fail_job (env 2) (now 2) (db_now 2) job msg outcome (w\<lparr>w_db := d\<rparr>) = (r, w')"
  | (failed) doc target e w3 where "plan_build s job d = Build doc target"
      "build_reindex_target pf s (env 1) (db_now 1) doc target (target_chunk_size claimed) (target_chunk_overlap claimed)
         (w\<lparr>w_db := d\<rparr>) = (Inl e, w3)"
      "(case get_reindex_job (w_db w3) (rix_id claimed) of None \<Rightarrow> (Inl AssertionError, w3)
        | Some fresh \<Rightarrow> fail_job (env 2) (now 2) (db_now 2) fresh (str_exn lib e) RwFailed w3) = (r, w')"
  | (built) doc target res w3 where "plan_build s job d = Build doc target"
      "build_reindex_target pf s (env 1) (db_now 1) doc target (target_chunk_size claimed) (target_chunk_overlap claimed)
         (w\<lparr>w_db := d\<rparr>) = (Inr res, w3)"
      "resolve_reindex (env 2) job (complete_reindex (now 2) (db_now 2) job) RwCompleted w3 = (r, w')"
proof -
  have st: "rix_status job = RixProcessing" "rix_id job = rix_id claimed" "target_chunk_size job = target_chunk_size claimed"
    "target_chunk_overlap job = target_chunk_overlap claimed"
    by (simp_all add: job_def)
  let ?d = "update_reindex_job (rix_id job) (set_rix_processing (db_now 0)) (w_db w)"
  have c: "commit_update (update_reindex_job (rix_id job) (set_rix_processing (db_now 0))) () w = (Inr (), w\<lparr>w_db := ?d\<rparr>)"
    using claim_reindex_commits [OF ok claim, of "db_now 0"] st(2) by (simp add: commit_update_Inr)
  have w2: "others (env 0) (w\<lparr>w_db := ?d\<rparr>) = w\<lparr>w_db := d\<rparr>" "env 0 ?d = d"
    by (simp_all add: others_def d_def st(2))
  show thesis
  proof (cases "plan_build s job d")
    case (Crash e)
    with run claim c w2 crash show thesis
      by (simp add: process_next_reindex_job_def call_bind_def Let_def job_def [symmetric])
  next
    case (Refuse msg outcome)
    with run claim c w2 refuse show thesis
      by (simp add: process_next_reindex_job_def call_bind_def Let_def job_def [symmetric])
  next
    case (Build doc target)
    obtain b w3 where b: "build_reindex_target pf s (env 1) (db_now 1) doc target (target_chunk_size claimed)
        (target_chunk_overlap claimed) (w\<lparr>w_db := d\<rparr>) = (b, w3)" by fastforce
    show thesis
      using run claim c w2 st Build b failed [OF Build, of _ w3] built [OF Build, of _ w3]
      by (cases b) (simp_all add: process_next_reindex_job_def call_bind_def Let_def job_def [symmetric])
  qed
qed

text \<open>Nobody else touches a job that is being processed, so its resolution is always recorded.\<close>

lemma flush_reindex_self: "rix_id new = rix_id j \<Longrightarrow> flush_reindex j new j =
    j\<lparr>rix_status := rix_status new, rix_error_message := rix_error_message new, rix_completed_at := rix_completed_at new,
      rix_updated_at := rix_updated_at new\<rparr>"
  by (simp add: flush_reindex_def)

lemma resolve_reindex_run:
  assumes ok: "db_ok (env (w_db w))" and j: "j \<in> set (reindex_jobs (env (w_db w)))"
    and new: "rix_id new = rix_id j" "\<not> rix_active new" "\<not> too_long_opt 2048 (rix_error_message new)"
  shows "let d = update_reindex_job (rix_id j) (flush_reindex j new) (env (w_db w)) in
    resolve_reindex env j new outcome w =
      (Inr \<lparr>rw_outcome = outcome, rw_job_id = Some (rix_id j), rw_document_id = Some (rix_document_id j)\<rparr>, w\<lparr>w_db := d\<rparr>) \<and>
    db_ok d \<and> documents d = documents (env (w_db w)) \<and>
    (\<exists>k \<in> set (reindex_jobs d). rix_id k = rix_id j \<and> rix_status k = rix_status new \<and> rix_error_message k = rix_error_message new)"
proof -
  let ?d = "update_reindex_job (rix_id j) (flush_reindex j new) (env (w_db w))"
  have "db_ok ?d"
  proof (rule update_reindex_job_ok [OF ok])
    fix k assume k: "k \<in> set (reindex_jobs (env (w_db w)))" "rix_id k = rix_id j"
    then have "k = j" using reindex_row_unique [OF ok] j by blast
    moreover have "reindex_columns j = None" by (rule reindex_row_fits [OF ok j])
    ultimately show "rix_id (flush_reindex j new k) = rix_id j \<and> rix_document_id (flush_reindex j new k) = rix_document_id k \<and>
        reindex_columns (flush_reindex j new k) = None \<and> (rix_active (flush_reindex j new k) \<longrightarrow> rix_active k) \<and>
        source_collection_name (flush_reindex j new k) = source_collection_name k \<and>
        target_collection_name (flush_reindex j new k) = target_collection_name k"
      using new by (auto simp: flush_reindex_self reindex_columns_def rix_active_def split: if_splits)
  qed
  moreover have "flush_reindex j new j \<in> set (reindex_jobs ?d)"
    using j by (auto simp: set_update_row)
  ultimately show ?thesis
    by (simp add: Let_def resolve_reindex_def commit_update_Inr others_def del: update_reindex_job_db(6))
      (rule bexI [of _ "flush_reindex j new j"], simp_all add: flush_reindex_self [OF new(1)])
qed

lemma fail_reindex_simps [simp]:
  "rix_id (fail_reindex m t u j) = rix_id j" "rix_status (fail_reindex m t u j) = RixFailed"
  "\<not> rix_active (fail_reindex m t u j)" "rix_error_message (fail_reindex m t u j) = Some (bounded_reindex_error m)"
  "\<not> too_long_opt 2048 (Some (bounded_reindex_error m))"
  "length (bounded_reindex_error m) \<le> 2048" "rix_id (complete_reindex t u j) = rix_id j" "rix_status (complete_reindex t u j) = RixCompleted"
  "\<not> rix_active (complete_reindex t u j)" "rix_error_message (complete_reindex t u j) = None" "\<not> too_long_opt 2048 None"
  by (simp_all add: fail_reindex_def complete_reindex_def rix_active_def bounded_reindex_error_def max_reindex_error_length_def
      too_long_opt_def)

definition keeps_processing :: "(nat \<Rightarrow> db \<Rightarrow> db) \<Rightarrow> bool" where
  "keeps_processing env \<longleftrightarrow> (\<forall>k d. db_ok d \<longrightarrow> db_ok (env k d) \<and>
     (\<forall>j \<in> set (reindex_jobs d). rix_status j = RixProcessing \<longrightarrow> j \<in> set (reindex_jobs (env k d))))"

lemma keeps_processingD: "keeps_processing env \<Longrightarrow> db_ok d \<Longrightarrow> db_ok (env k d)"
  "keeps_processing env \<Longrightarrow> db_ok d \<Longrightarrow> j \<in> set (reindex_jobs d) \<Longrightarrow> rix_status j = RixProcessing \<Longrightarrow> j \<in> set (reindex_jobs (env k d))"
  by (auto simp: keeps_processing_def)

text \<open>What a run of the worker leaves of the claimed job.\<close>

definition reindex_resolved :: "reindex_job \<Rightarrow> reindex_worker_result \<Rightarrow> db \<Rightarrow> bool" where
  "reindex_resolved claimed res d \<longleftrightarrow> db_ok d \<and> rw_job_id res = Some (rix_id claimed) \<and>
     (\<exists>j \<in> set (reindex_jobs d). rix_id j = rix_id claimed \<and>
        rix_status j = (if rw_outcome res = RwCompleted then RixCompleted else RixFailed) \<and>
        (rw_outcome res = RwCompleted \<or> (\<exists>m. rix_error_message j = Some m \<and> length m \<le> 2048)))"

lemma fail_job_run:
  assumes "keeps_processing env" and "db_ok (w_db w)" and "j \<in> set (reindex_jobs (w_db w))" and "rix_status j = RixProcessing"
    and "outcome \<noteq> RwCompleted" and "fail_job (env 2) now db_now j msg outcome w = (r, w')"
  shows "\<exists>res. r = Inr res \<and> reindex_resolved j res (w_db w') \<and> w_index w' = w_index w \<and> rw_outcome res = outcome \<and>
    documents (w_db w') = documents (env 2 (w_db w))"
proof -
  have "db_ok (env 2 (w_db w))" and "j \<in> set (reindex_jobs (env 2 (w_db w)))"
    using keeps_processingD [OF assms(1,2)] assms(3,4) by blast+
  note run = resolve_reindex_run [of "env 2" w, OF this, of "fail_reindex msg now db_now j" outcome, unfolded Let_def fail_reindex_simps]
  let ?res = "\<lparr>rw_outcome = outcome, rw_job_id = Some (rix_id j), rw_document_id = Some (rix_document_id j)\<rparr>"
  from run assms(6) have w': "r = Inr ?res" "w' = w\<lparr>w_db := update_reindex_job (rix_id j)
      (flush_reindex j (fail_reindex msg now db_now j)) (env 2 (w_db w))\<rparr>"
    by (auto simp: fail_job_def)
  have "reindex_resolved j ?res (w_db w')"
    using run assms(5) unfolding reindex_resolved_def w'(2) by (auto simp del: update_reindex_job_db(6))
  with w' show ?thesis by auto
qed

text \<open>What the plan promises, and what the build leaves of the job it works for.\<close>

lemma plan_build_Build:
  assumes "plan_build s job d = Build doc target"
  shows "config_collection_name target = target_collection_name job \<and> get_document d (rix_document_id job) = Some doc"
  using assms by (auto simp: plan_build_def Let_def split: option.splits if_splits sum.splits)

lemma plan_build_Refuse: "plan_build s job d = Refuse msg outcome \<Longrightarrow> outcome \<noteq> RwCompleted"
  by (auto simp: plan_build_def Let_def split: option.splits if_splits sum.splits)

text \<open>The plan raises exactly when the registry's row of the target holds no valid configuration.\<close>

definition target_unreadable :: "settings \<Rightarrow> reindex_job \<Rightarrow> db \<Rightarrow> bool" where
  "target_unreadable s job d \<longleftrightarrow> get_document d (rix_document_id job) \<noteq> None \<and>
     get_latest_deletion_job d (rix_document_id job) = None \<and>
     (\<exists>row e. get_index_collection d (target_collection_name job) = Some row \<and> target_of s row = Inl e)"

lemma plan_build_Crash: "(\<exists>e. plan_build s job d = Crash e) \<longleftrightarrow> target_unreadable s job d"
proof -
  have "st \<in> set blocking_deletion_statuses" for st
    by (cases st) (simp_all add: blocking_deletion_statuses_def)
  then show ?thesis
    by (auto simp: plan_build_def target_unreadable_def latest_deletion_status_def Let_def split: option.splits if_splits sum.splits)
qed

lemma build_keeps_job:
  assumes vi: "\<And>t. vector_index (pf_vector_store pf t) stored sizes" and env: "keeps_processing env"
    and ok: "db_ok (w_db w)" and job: "job \<in> set (reindex_jobs (w_db w))" "rix_status job = RixProcessing"
    and run: "build_reindex_target pf s (env 1) t doc target cs co w = (r, w')"
  shows "db_ok (w_db w')" and "job \<in> set (reindex_jobs (w_db w'))" and "get_reindex_job (w_db w') (rix_id job) = Some job"
    and "\<forall>c. c \<noteq> config_collection_name target \<longrightarrow> stored (w_index w') c = stored (w_index w) c"
proof -
  from build_frame [OF vi run] show ok': "db_ok (w_db w')" and in_w': "job \<in> set (reindex_jobs (w_db w'))"
      and "\<forall>c. c \<noteq> config_collection_name target \<longrightarrow> stored (w_index w') c = stored (w_index w) c"
    using ok job keeps_processingD [OF env ok] by auto
  from get_row_distinct [OF rix_table.primary_key [OF ok'] in_w'] show "get_reindex_job (w_db w') (rix_id job) = Some job"
    by (simp add: get_reindex_job_def)
qed

text \<open>C9: As long as nobody else touches the job it is processing, the re-index worker resolves every job it
  claims, with one exception.  The exception is a target whose registry row holds no valid configuration
  (of a document that exists and is not being deleted): then and only then the run raises, having changed
  nothing but the claim, which leaves the job in processing.  Every other run ends with the job completed
  or failed with a message that fits its column, whatever the build raised and however long its text.  No
  run changes a vector outside the target collection.  When the run reports completion the target holds,
  under the point identifier of every chunk of the document's stored file, a chunk of the document with
  that identifier: the chunk itself when the hashes of the document's chunk identifiers do not collide.\<close>

theorem reindex_worker_resolves:
  assumes vi: "\<And>t. vector_index (pf_vector_store pf t) stored sizes"
    and ok: "db_ok (w_db w)" and env: "keeps_processing env"
    and claim: "claim_next_pending_reindex_job locked (w_db w) = Some claimed"
    and run: "process_next_reindex_job pf s lib now db_now env locked w = (r, w')"
  shows "let d = env 0 (update_reindex_job (rix_id claimed) (set_rix_processing (db_now 0)) (w_db w)) in
    (\<forall>c. c \<noteq> target_collection_name claimed \<longrightarrow> stored (w_index w') c = stored (w_index w) c) \<and>
    ((\<exists>e. r = Inl e) \<longleftrightarrow> target_unreadable s claimed d) \<and>
    (case r of
       Inl e \<Rightarrow> w' = w\<lparr>w_db := d\<rparr> \<and> db_ok d \<and> set_rix_processing (db_now 0) claimed \<in> set (reindex_jobs d)
     | Inr res \<Rightarrow> reindex_resolved claimed res (w_db w') \<and>
         (rw_outcome res = RwCompleted \<longrightarrow> (\<exists>doc extracted chunker.
            get_document d (rix_document_id claimed) = Some doc \<and>
            fst (extract_text (pf_readers pf) (pf_storage pf) doc (w_files w)) = Inr extracted \<and>
            new_chunker (target_chunk_size claimed) (target_chunk_overlap claimed) = Inr chunker \<and> chunk chunker extracted \<noteq> [] \<and>
            chunks_held (pf_uuid5 pf) (original_filename doc) (chunk chunker extracted)
              (stored (w_index w') (target_collection_name claimed)))))"
proof -
  let ?job = "set_rix_processing (db_now 0) claimed"
  let ?start = "update_reindex_job (rix_id claimed) (set_rix_processing (db_now 0)) (w_db w)"
  let ?d = "env 0 ?start" let ?w = "w\<lparr>w_db := ?d\<rparr>"
  have ok0: "db_ok ?start" by (rule claim_reindex_commits [OF ok claim])
  have "?job \<in> set (reindex_jobs ?start)"
    using claim_reindex [OF claim] by (auto simp: set_update_row)
  then have job: "?job \<in> set (reindex_jobs (w_db ?w))" "rix_status ?job = RixProcessing"
    using keeps_processingD(2) [OF env ok0] by simp_all
  have okd: "db_ok (w_db ?w)" using keeps_processingD(1) [OF env ok0] by simp
  have res: "reindex_resolved ?job = reindex_resolved claimed"
    by (intro ext) (simp add: reindex_resolved_def)
  have crashes: "(\<exists>e. plan_build s ?job ?d = Crash e) \<longleftrightarrow> target_unreadable s claimed ?d"
    unfolding plan_build_Crash by (simp add: target_unreadable_def)
  from ok claim run show ?thesis
  proof (cases rule: process_reindex_cases)
    case (crash e)
    with crashes okd job show ?thesis by (auto simp: Let_def)
  next
    case (refuse msg outcome)
    from fail_job_run [OF env okd job plan_build_Refuse [OF refuse(1)] refuse(2)] plan_build_Refuse [OF refuse(1)] res
      crashes refuse(1)
    show ?thesis by (auto simp: Let_def)
  next
    case (failed doc target e w3)
    note t = plan_build_Build [OF failed(1)] and fr = build_keeps_job [OF vi env okd job failed(2)]
    with failed(3) have "fail_job (env 2) (now 2) (db_now 2) ?job (str_exn lib e) RwFailed w3 = (r, w')" by simp
    from fail_job_run [OF env fr(1,2) _ _ this] obtain res where "r = Inr res" "reindex_resolved ?job res (w_db w')"
        "w_index w' = w_index w3" "rw_outcome res = RwFailed" by auto
    with res fr(4) t crashes failed(1) show ?thesis by (simp add: Let_def)
  next
    case (built doc target result w3)
    note t = plan_build_Build [OF built(1)] and fr = build_keeps_job [OF vi env okd job built(2)]
    have w: "r = Inr \<lparr>rw_outcome = RwCompleted, rw_job_id = Some (rix_id claimed), rw_document_id = Some (rix_document_id claimed)\<rparr>"
        "w_index w' = w_index w3" "reindex_resolved claimed \<lparr>rw_outcome = RwCompleted, rw_job_id = Some (rix_id claimed),
          rw_document_id = Some (rix_document_id claimed)\<rparr> (w_db w')"
      using resolve_reindex_run [of "env 2" w3 ?job "complete_reindex (now 2) (db_now 2) ?job" RwCompleted]
        keeps_processingD [OF env fr(1)] fr(2) built(3)
      by (auto simp: Let_def reindex_resolved_def)
    from build_complete [OF vi built(2)] w fr(4) t crashes built(1) show ?thesis by (auto simp: Let_def)
  qed
qed

section \<open>A concrete build\<close>

definition rebuild_db :: "reindex_job list \<Rightarrow> db" where
  "rebuild_db js = (serving_db (uni ''A'') [])\<lparr>index_collections := [sample_collection (uni ''A''), new_index_collection sample_config 0],
     reindex_jobs := js\<rparr>"

definition rebuild_world :: "reindex_job list \<Rightarrow> (local_fs, unit, mem_index) world" where
  "rebuild_world js = \<lparr>w_files = stored_text, w_embedder = (), w_index = ready_index, w_db = rebuild_db js\<rparr>"

definition rebuild_job :: reindex_job where
  "rebuild_job =
     \<lparr>rix_id = uni ''r1'', rix_document_id = uni ''d1'', source_collection_name = uni ''A'', target_collection_name = sample_name,
      target_chunk_size = 1000, target_chunk_overlap = 200, rix_status = RixPending, rix_error_message = None,
      rix_created_at = 4, rix_updated_at = 4, rix_completed_at = None, activated_at = None\<rparr>"

lemma rebuild_simps [simp]:
  "w_files (rebuild_world js) = stored_text" "w_index (rebuild_world js) = ready_index" "w_db (rebuild_world js) = rebuild_db js"
  "documents (rebuild_db js) = [served_document (uni ''A'')]" "reindex_jobs (rebuild_db js) = js"
  "deletion_jobs (rebuild_db js) = []" "ingestion_jobs (rebuild_db js) = []" "cleanup_jobs (rebuild_db js) = []"
  "index_collections (rebuild_db js) = [sample_collection (uni ''A''), new_index_collection sample_config 0]"
  "rix_id rebuild_job = uni ''r1''" "rix_document_id rebuild_job = uni ''d1''" "target_collection_name rebuild_job = sample_name"
  "source_collection_name rebuild_job = uni ''A''" "rix_active rebuild_job" "rix_status rebuild_job = RixPending"
  "target_chunk_size rebuild_job = 1000" "target_chunk_overlap rebuild_job = 200"
  by (simp_all add: rebuild_world_def rebuild_db_def rebuild_job_def rix_active_def)

lemma sample_collection_fits: "index_collection_columns (new_index_collection sample_config 0) = None"
  using ingestion_db_ok [of "[]"] by (simp add: db_ok_checks check_None fits_def one_active_def)

lemma sample_name_collection: "ic_collection_name (new_index_collection sample_config 0) = sample_name"
  by (simp add: new_index_collection_def sample_name_def)

lemma rebuild_db_ok: "db_ok (rebuild_db [rebuild_job])"
proof -
  have ne: "uni ''A'' \<noteq> sample_name" "length sample_name \<le> 255"
    by (simp_all add: sample_name_eq)
  have base: "db_ok (serving_db (uni ''A'') [])"
    by (rule serving_db_ok) simp_all
  have "reindex_columns rebuild_job = None"
    using ne by (simp add: reindex_columns_def rebuild_job_def too_long_def too_long_opt_def no_int4_def)
  then show ?thesis
    using base ne sample_collection_fits
    by (simp add: db_ok_checks check_None fits_def sample_name_collection one_active_def)
qed

lemma sample_target: "target_of sample_settings (new_index_collection sample_config 0) = Inr sample_config"
  by (simp add: target_of_def new_index_collection_def post_init_def sample_settings_def default_settings_def sample_config_def
      py_strip_eq_Nil uni_def py_space_def)

lemma sample_target_valid: "post_init sample_config = Inr sample_config"
  using sample_config_active unfolding get_active_embedding_config_def by (metis post_init_same)

lemma sample_build:
  assumes "mi_failures (w_index w) = []" and "mi_sizes (w_index w) sample_name = Some 1" and "w_files w = stored_text"
    and "get_index_collection (env (w_db w)) sample_name \<noteq> None"
  shows "\<exists>res v. build_reindex_target sample_platform sample_settings env now (served_document (uni ''A'')) sample_config 1000 200 w =
    (Inr res, w\<lparr>w_index := v, w_db := env (w_db w)\<rparr>)"
proof -
  let ?bs = "build_settings_for_target sample_settings sample_config 1000 200"
  have same: "extract_text no_readers sample_storage (served_document (uni ''A'')) =
      extract_text no_readers sample_storage (sample_document (uni ''d1''))"
    by (rule extract_text_cong) (simp_all add: served_document_def)
  obtain e where e: "extract_text no_readers sample_storage (served_document (uni ''A'')) stored_text = (Inr e, stored_text)"
    using stored_text_extracted same by auto
  obtain ch where ch: "new_chunker 1000 200 = Inr ch"
    by (simp add: new_chunker_def)
  have bs: "set_chunk_size ?bs = 1000" "set_chunk_overlap ?bs = 200"
    by (simp_all add: build_settings_for_target_def)
  have emb: "get_embedding_provider (pf_embedder sample_platform) ?bs = Inr unit_embedder"
    and vst: "get_vector_store (pf_vector_store sample_platform) ?bs = Inr mem_store"
    by (simp_all add: get_embedding_provider_def get_vector_store_def build_settings_for_target_def sample_config_def
        sample_settings_def default_settings_def)
  have val: "validate_embeddings (map (\<lambda>_. [1]) cs) (length cs) (cfg_dimension sample_config) = Inr ()" for cs :: "ustr list"
    by (simp add: validate_embeddings_Inr sample_config_def)
  have ens: "ensure_active_collection env now mem_store sample_config (w_index w, w_db w) = (Inr (), w_index w, env (w_db w))"
    using assms(1,2,4) by (auto simp: ensure_active_collection_def mem_runs sample_name_def [symmetric])
      (auto simp: sample_config_def)
  have mtch: "resolved_config_matches_target ?bs sample_config = Inr None"
    by (simp add: build_settings_match sample_target_valid)
  have ne: "chunk ch e \<noteq> []"
    using extracted_pages(2) [OF e] by (simp add: chunk_eq_Nil)
  show ?thesis
    using e ch emb vst ne val [of "map chunk_text (chunk ch e)"] ens assms(1,2,3) mtch bs
    by (simp add: build_reindex_target_def build_chunks_def call_bind_def call_lift_def call_return_def
        on_files_def on_embedder_def on_registry_def on_index_def unit_embedder_def mem_runs
        sample_name_def [symmetric] Let_def)
      (intro exI world.equality, simp_all)
qed

lemma rebuild_run: "\<exists>res w'. process_next_reindex_job sample_platform sample_settings (\<lambda>_. []) int int (\<lambda>k d. d) (\<lambda>_. False)
    (rebuild_world [rebuild_job]) = (Inr res, w') \<and> rw_outcome res = RwCompleted"
proof -
  let ?w = "rebuild_world [rebuild_job]" and ?job = "set_rix_processing 0 rebuild_job"
  have claim: "claim_next_pending_reindex_job (\<lambda>_. False) (w_db ?w) = Some rebuild_job"
    by (simp add: claim_next_pending_reindex_job_def)
  obtain r w' where run: "process_next_reindex_job sample_platform sample_settings (\<lambda>_. []) int int (\<lambda>k d. d) (\<lambda>_. False) ?w = (r, w')"
    by fastforce
  let ?d = "update_reindex_job (uni ''r1'') (set_rix_processing 0) (rebuild_db [rebuild_job])"
  have ne: "uni ''A'' \<noteq> sample_name" by (simp add: sample_name_eq)
  have plan: "plan_build sample_settings ?job ?d = Build (served_document (uni ''A'')) sample_config"
    using ne sample_target by (simp add: plan_build_def get_document_def latest_deletion_status_def get_latest_deletion_job_def
        latest_of_def get_index_collection_def sample_name_collection sample_name_def [symmetric])
  obtain res v where b: "build_reindex_target sample_platform sample_settings (\<lambda>d. d) 1 (served_document (uni ''A'')) sample_config 1000 200
      (?w\<lparr>w_db := ?d\<rparr>) = (Inr res, ?w\<lparr>w_index := v, w_db := ?d\<rparr>)"
    using sample_build [of "?w\<lparr>w_db := ?d\<rparr>" "\<lambda>d. d" 1] ne
    by (auto simp: ready_index_def empty_index_def get_index_collection_def sample_name_collection)
  have ok: "db_ok ?d"
    using claim_reindex_commits [OF rebuild_db_ok, of "\<lambda>_. False" rebuild_job 0] claim by simp
  show ?thesis
    using rebuild_db_ok [folded rebuild_simps(3)] claim run
  proof (cases rule: process_reindex_cases)
    case (built doc target res w3)
    have "db_ok (w_db w3)" "set_rix_processing 0 rebuild_job \<in> set (reindex_jobs (w_db w3))"
      using built(2) b plan built(1) ok by auto
    with resolve_reindex_run [of "\<lambda>d. d" w3 ?job "complete_reindex 2 2 ?job" RwCompleted] built(3) run
    show ?thesis by (auto simp: Let_def)
  qed (use plan b in auto)
qed

theorem reindex_worker_resolves_witness:
  "\<exists>res w' doc e ch. process_next_reindex_job sample_platform sample_settings (\<lambda>_. []) int int (\<lambda>k d. d) (\<lambda>_. False)
      (rebuild_world [rebuild_job]) = (Inr res, w') \<and> rw_outcome res = RwCompleted \<and>
    reindex_resolved rebuild_job res (w_db w') \<and> chunk ch e \<noteq> [] \<and>
    fst (extract_text no_readers sample_storage doc stored_text) = Inr e \<and>
    (\<forall>k \<in> set (chunk ch e). \<exists>v. mem_stored (w_index w') sample_name (chunk_id k) =
       Some (to_vector_point id (original_filename doc) k v))"
proof -
  let ?w = "rebuild_world [rebuild_job]"
  obtain res w' where run: "process_next_reindex_job sample_platform sample_settings (\<lambda>_. []) int int (\<lambda>k d. d) (\<lambda>_. False) ?w =
      (Inr res, w')" "rw_outcome res = RwCompleted" using rebuild_run by blast
  have claim: "claim_next_pending_reindex_job (\<lambda>_. False) (w_db ?w) = Some rebuild_job"
    by (simp add: claim_next_pending_reindex_job_def)
  have "db_ok (w_db ?w)" "keeps_processing (\<lambda>k d. d)"
    using rebuild_db_ok by (simp_all add: keeps_processing_def)
  from reindex_worker_resolves [OF sample_platform_index this claim run(1)] run(2)
  obtain doc e ch where "reindex_resolved rebuild_job res (w_db w')" "chunk ch e \<noteq> []"
    "fst (extract_text no_readers sample_storage doc stored_text) = Inr e"
    "chunks_held id (original_filename doc) (chunk ch e) (mem_stored (w_index w') sample_name)"
    by (auto simp: Let_def)
  with run show ?thesis
    by (intro exI [of _ res] exI [of _ w'] exI [of _ doc] exI [of _ e] exI [of _ ch]) (simp add: chunks_held_def)
qed

end
