(* ===== verification/Reindex_Activation.thy ===== *)
theory Reindex_Activation
  imports Reindex_Worker
begin

text \<open>
  The cutover of a document to a built target (\<open>app/services/indexing/reindex_activation.py\<close>).  The job
  and the document are locked when they are read, so \<open>env 0\<close> (between the two locks) cannot change the
  job, and \<open>env 1\<close> (between the checks and the commit) can change neither.
\<close>

datatype reindex_activation_outcome =
  ActJobNotFound | ActAlreadyActivated | ActNotReady | ActDocumentMissing | ActBlockedByDeletion
  | ActSourceChanged | ActActivated

record reindex_activation_result =
  ra_outcome :: reindex_activation_outcome
  ra_job :: "reindex_job option"
  ra_document :: "document option"

definition activation_result :: "reindex_activation_outcome \<Rightarrow> reindex_job option \<Rightarrow> document option \<Rightarrow>
    reindex_activation_result" where
  "activation_result outcome job doc = \<lparr>ra_outcome = outcome, ra_job = job, ra_document = doc\<rparr>"

text \<open>The document's serving columns, from the target's row alone.\<close>

definition serve_from :: "time \<Rightarrow> index_collection \<Rightarrow> document \<Rightarrow> document" where
  "serve_from now r doc =
     doc\<lparr>collection_name := Some (ic_collection_name r), embedding_provider := Some (ic_embedding_provider r),
         embedding_model := Some (ic_embedding_model r), embedding_dimension := Some (ic_embedding_dimension r),
         embedding_version := Some (ic_embedding_version r), chunking_version := Some (ic_chunking_version r),
         indexed_at := Some now\<rparr>"

definition set_activated :: "time \<Rightarrow> time \<Rightarrow> reindex_job \<Rightarrow> reindex_job" where
  "set_activated now db_now j = j\<lparr>activated_at := Some now, rix_updated_at := db_now\<rparr>"

definition vacate :: "ustr \<Rightarrow> time \<Rightarrow> reindex_job \<Rightarrow> db \<Rightarrow> db" where
  "vacate new_id db_now job d =
     (if source_collection_name job \<noteq> [] \<and> source_collection_name job \<noteq> target_collection_name job
      then add_cleanup_job (new_cleanup_job new_id (rix_document_id job) (source_collection_name job) None db_now) d
      else d)"

text \<open>From the locked job on.\<close>

definition activate_loaded :: "(nat \<Rightarrow> db \<Rightarrow> db) \<Rightarrow> ustr \<Rightarrow> time \<Rightarrow> time \<Rightarrow> reindex_job \<Rightarrow> db \<Rightarrow>
    (exn + reindex_activation_result) \<times> db" where
  "activate_loaded env new_id now db_now job d =
     (if activated_at job \<noteq> None then (Inr (activation_result ActAlreadyActivated (Some job) None), d)
      else if rix_status job \<noteq> RixCompleted then (Inr (activation_result ActNotReady (Some job) None), d)
      else
        let d1 = env 0 d in
        (case get_document d1 (rix_document_id job) of
           None \<Rightarrow> (Inr (activation_result ActDocumentMissing (Some job) None), d1)
         | Some doc \<Rightarrow>
             if (case get_latest_deletion_job d1 (rix_document_id job) of
                   None \<Rightarrow> False | Some k \<Rightarrow> del_status k \<in> set blocking_deletion_statuses) then
               (Inr (activation_result ActBlockedByDeletion (Some job) (Some doc)), d1)
             else if collection_name doc \<noteq> Some (source_collection_name job) then
               (Inr (activation_result ActSourceChanged (Some job) (Some doc)), d1)
             else (case get_index_collection d1 (target_collection_name job) of
                 None \<Rightarrow> (Inr (activation_result ActNotReady (Some job) (Some doc)), d1)
               | Some r \<Rightarrow>
                   let new = serve_from now r doc in
                   (case commit (update_reindex_job (rix_id job) (set_activated now db_now)
                           (update_documents doc new (vacate new_id db_now job (env 1 d1)))) of
                      Inl e \<Rightarrow> (Inl (DatabaseErr e), env 1 d1)
                    | Inr d2 \<Rightarrow>
                        (Inr (activation_result ActActivated (Some (set_activated now db_now job)) (Some new)), d2)))))"

definition activate_reindexed_document :: "(nat \<Rightarrow> db \<Rightarrow> db) \<Rightarrow> ustr \<Rightarrow> time \<Rightarrow> time \<Rightarrow> ustr \<Rightarrow> db \<Rightarrow>
    (exn + reindex_activation_result) \<times> db" where
  "activate_reindexed_document env new_id now db_now job_id d =
     (case get_reindex_job d job_id of
        None \<Rightarrow> (Inr (activation_result ActJobNotFound None None), d)
      | Some job \<Rightarrow> activate_loaded env new_id now db_now job d)"

section \<open>What a cutover is\<close>

text \<open>The abstract view of the index: which collection each document is served from, and which
  collections still have to be cleaned of it.\<close>

record index_state =
  serving :: "ustr \<Rightarrow> ustr option"
  debris :: "(ustr \<times> ustr) set"

definition index_state_of :: "db \<Rightarrow> index_state" where
  "index_state_of d = \<lparr>serving = (\<lambda>i. Option.bind (get_document d i) collection_name),
     debris = {(vc_document_id j, vc_collection_name j) |j. j \<in> set (cleanup_jobs d) \<and> cleanup_eligible j}\<rparr>"

text \<open>The abstract operation: serve the document from elsewhere and clean up where it was.\<close>

definition switch :: "ustr \<Rightarrow> ustr \<Rightarrow> index_state \<Rightarrow> index_state" where
  "switch i c s = s\<lparr>serving := (serving s)(i := Some c),
     debris := debris s \<union> (\<lambda>old. (i, old)) ` (set_option (serving s i) - {c})\<rparr>"

lemma serve_from_simps [simp]:
  "doc_id (serve_from now r doc) = doc_id doc" "collection_name (serve_from now r doc) = Some (ic_collection_name r)"
  by (simp_all add: serve_from_def)

lemma set_activated_simps [simp]:
  "rix_id (set_activated t u j) = rix_id j" "activated_at (set_activated t u j) = Some t"
  "rix_status (set_activated t u j) = rix_status j"
  by (simp_all add: set_activated_def)

lemma vacate_db [simp]:
  "documents (vacate n t job d) = documents d" "reindex_jobs (vacate n t job d) = reindex_jobs d"
  "index_collections (vacate n t job d) = index_collections d" "deletion_jobs (vacate n t job d) = deletion_jobs d"
  "ingestion_jobs (vacate n t job d) = ingestion_jobs d"
  by (simp_all add: vacate_def add_cleanup_job_def)

lemma get_document_vacate [simp]: "get_document (vacate n t job d) = get_document d"
  by (rule get_document_cong) simp

lemma get_reindex_job_update: "get_reindex_job (update_reindex_job i f d) k =
    (if k = i then map_option f (get_reindex_job d k) else get_reindex_job d k)" if "\<And>j. rix_id (f j) = rix_id j"
  using that by (simp add: get_reindex_job_def row_simps)

text \<open>The ways an activation ends.\<close>

lemma activation_cases:
  assumes "activate_reindexed_document env new_id now db_now job_id d = (r, d')"
  obtains (unchanged) res where "r = Inr res" "ra_outcome res \<noteq> ActActivated" "d' = d \<or> d' = env 0 d"
  | (failed) e where "r = Inl (DatabaseErr e)" "d' = env 1 (env 0 d)"
  | (activated) job doc row where "get_reindex_job d job_id = Some job" "activated_at job = None" "rix_status job = RixCompleted"
      "get_document (env 0 d) (rix_document_id job) = Some doc" "get_latest_deletion_job (env 0 d) (rix_document_id job) = None"
      "collection_name doc = Some (source_collection_name job)"
      "get_index_collection (env 0 d) (target_collection_name job) = Some row"
      "r = Inr (activation_result ActActivated (Some (set_activated now db_now job)) (Some (serve_from now row doc)))"
      "d' = update_reindex_job (rix_id job) (set_activated now db_now)
         (update_documents doc (serve_from now row doc) (vacate new_id db_now job (env 1 (env 0 d))))" "db_ok d'"
proof (cases "get_reindex_job d job_id")
  case None
  with assms unchanged show thesis by (auto simp: activate_reindexed_document_def activate_loaded_def activation_result_def)
next
  case (Some job)
  note job = this
  consider "activated_at job \<noteq> None \<or> rix_status job \<noteq> RixCompleted"
    | "activated_at job = None" "rix_status job = RixCompleted" by blast
  then show thesis
  proof cases
    case 1
    with assms job unchanged show thesis by (auto simp: activate_reindexed_document_def activate_loaded_def activation_result_def split: if_splits)
  next
    case 2
    have blk: "del_status k \<in> set blocking_deletion_statuses" for k
      by (cases "del_status k") (simp_all add: blocking_deletion_statuses_def)
    show thesis
    proof (cases "\<exists>doc row. get_document (env 0 d) (rix_document_id job) = Some doc \<and>
        get_latest_deletion_job (env 0 d) (rix_document_id job) = None \<and> collection_name doc = Some (source_collection_name job) \<and>
        get_index_collection (env 0 d) (target_collection_name job) = Some row")
      case False
      then have "\<exists>res. r = Inr res \<and> ra_outcome res \<noteq> ActActivated \<and> d' = env 0 d"
        using assms job 2 blk
        by (auto simp: activate_reindexed_document_def activate_loaded_def activation_result_def Let_def split: option.splits if_splits)
      with unchanged show thesis by blast
    next
      case True
      then obtain doc row where c: "get_document (env 0 d) (rix_document_id job) = Some doc"
        "get_latest_deletion_job (env 0 d) (rix_document_id job) = None" "collection_name doc = Some (source_collection_name job)"
        "get_index_collection (env 0 d) (target_collection_name job) = Some row" by blast
      show thesis
        using assms job 2 c failed activated [OF job 2 c]
        by (simp add: activate_reindexed_document_def activate_loaded_def Let_def commit_Inr split: sum.splits) (auto simp: commit_Inr)
    qed
  qed
qed

lemma index_state_of_cong: "documents d = documents e \<Longrightarrow> cleanup_jobs d = cleanup_jobs e \<Longrightarrow> index_state_of d = index_state_of e"
  using get_document_cong [of d e] by (simp add: index_state_of_def)

lemma vacate_cleanup_jobs: "source_collection_name job \<noteq> [] \<Longrightarrow> cleanup_jobs (vacate n t job d) =
    cleanup_jobs d @ (if source_collection_name job = target_collection_name job then []
      else [new_cleanup_job n (rix_document_id job) (source_collection_name job) None t])"
  by (simp add: vacate_def add_cleanup_job_def)

lemma update_documents_cleanup [simp]: "cleanup_jobs (update_documents a b d) = cleanup_jobs d"
  by (simp add: update_documents_def)

text \<open>The three writes of the transaction together are the abstract switch.\<close>

lemma cutover_switch:
  assumes doc: "get_document e (doc_id doc) = Some doc" and src: "collection_name doc = Some (source_collection_name job)"
    and ne: "source_collection_name job \<noteq> []" and i: "rix_document_id job = doc_id doc"
    and row: "ic_collection_name row = target_collection_name job"
  shows "index_state_of (update_documents doc (serve_from now row doc) (vacate n t job e)) =
    switch (doc_id doc) (target_collection_name job) (index_state_of e)"
proof -
  let ?e = "update_documents doc (serve_from now row doc) (vacate n t job e)"
  have "Option.bind (get_document ?e k) collection_name =
      (if k = doc_id doc then Some (target_collection_name job) else Option.bind (get_document e k) collection_name)" for k
    using doc row by (simp add: update_documents_get)
  then have "serving (index_state_of ?e) = serving (switch (doc_id doc) (target_collection_name job) (index_state_of e))"
    by (auto simp: index_state_of_def switch_def)
  moreover have "debris (index_state_of ?e) = debris (switch (doc_id doc) (target_collection_name job) (index_state_of e))"
    using doc src i ne by (auto simp: index_state_of_def switch_def vacate_cleanup_jobs) force+
  ultimately show ?thesis by simp
qed

text \<open>C6: Activation refines the abstract switch: in one commit the document is served from the job's target,
  with exactly the collection it leaves recorded for cleanup, and nothing else of the index changes; a
  second activation of the job answers that it is activated and changes nothing; any other answer and
  any error leave the database without a trace of the activation.\<close>

theorem activation_refines_switch:
  assumes ok: "db_ok d" and env: "\<And>k x. db_ok x \<Longrightarrow> db_ok (env k x)"
    and src: "\<forall>j \<in> set (reindex_jobs d). source_collection_name j \<noteq> []"
    and locked_job: "get_reindex_job (env 1 (env 0 d)) job_id = get_reindex_job d job_id"
    and locked_document: "\<forall>j. get_reindex_job d job_id = Some j \<longrightarrow>
      get_document (env 1 (env 0 d)) (rix_document_id j) = get_document (env 0 d) (rix_document_id j)"
    and run: "activate_reindexed_document env new_id now db_now job_id d = (r, d')"
  shows "db_ok d' \<and>
    (case r of
       Inl e \<Rightarrow> d' = env 1 (env 0 d)
     | Inr res \<Rightarrow>
         if ra_outcome res = ActActivated then
           (\<exists>job. ra_job res = Some job \<and> index_state_of d' =
              switch (rix_document_id job) (target_collection_name job) (index_state_of (env 1 (env 0 d))) \<and>
              (\<forall>env'. activate_reindexed_document env' new_id' now' db_now' job_id d' =
                 (Inr (activation_result ActAlreadyActivated (Some job) None), d')))
         else d' = d \<or> d' = env 0 d)"
  using run
proof (cases rule: activation_cases)
  case (unchanged res)
  with ok env [OF ok] show ?thesis by auto
next
  case (failed e)
  with env [OF env [OF ok]] show ?thesis by simp
next
  case (activated job doc row)
  let ?e = "env 1 (env 0 d)"
  have did: "doc_id doc = rix_document_id job" and rid: "rix_id job = job_id" and jin: "job \<in> set (reindex_jobs d)"
    and row: "ic_collection_name row = target_collection_name job"
    using activated(1,4,7) get_row_Some unfolding get_document_def get_reindex_job_def get_index_collection_def by metis+
  have "get_document ?e (doc_id doc) = Some doc"
    using locked_document activated(1,4) did by simp
  from cutover_switch [OF this activated(6) _ did [symmetric] row] src jin
  have "index_state_of d' = switch (rix_document_id job) (target_collection_name job) (index_state_of ?e)"
    using did index_state_of_cong [of d' "update_documents doc (serve_from now row doc) (vacate new_id db_now job ?e)"] activated(9)
    by simp
  moreover have "get_reindex_job d' job_id = Some (set_activated now db_now job)"
  proof -
    have "get_reindex_job (update_documents a b (vacate n t j x)) k = get_reindex_job x k" for a b n t j x k
      by (simp add: get_reindex_job_def)
    then show ?thesis
      using locked_job activated(1,9) rid by (simp add: get_reindex_job_update)
  qed
  ultimately show ?thesis
    using activated(8,10) by (auto simp: activation_result_def activate_reindexed_document_def activate_loaded_def set_activated_def)
qed

section \<open>A cutover is always accepted\<close>

lemma add_cleanup_job_ok:
  assumes "db_ok d" and "length i \<le> 36" and "i \<notin> vc_id ` set (cleanup_jobs d)" and "doc \<in> doc_id ` set (documents d)"
    and "length c \<le> 255"
  shows "db_ok (add_cleanup_job (new_cleanup_job i doc c None t) d)"
proof -
  have "cleanup_columns (new_cleanup_job i doc c None t) = None"
    using assms document_id_fits [OF assms(1,4)] by (simp add: cleanup_columns_def new_cleanup_job_def too_long_def no_int4_def)
  then show ?thesis
    using assms by (auto simp: db_ok_checks check_None add_cleanup_job_def fits_def)
qed

lemma serve_from_fits:
  assumes "document_columns doc = None" and "index_collection_columns row = None"
  shows "document_columns (flush_document doc (serve_from now row doc) doc) = None"
  using assms
  by (auto simp: document_columns_def index_collection_columns_def serve_from_def too_long_def too_long_opt_def no_int4_opt_def
      split: if_splits)

lemma cutover_ok:
  assumes ok: "db_ok d" and doc: "get_document d (doc_id doc) = Some doc" and row: "row \<in> set (index_collections d)"
    and job: "get_reindex_job d (rix_id job) = Some job" and did: "rix_document_id job = doc_id doc"
    and i: "length new_id \<le> 36" "new_id \<notin> vc_id ` set (cleanup_jobs d)"
  shows "db_ok (update_reindex_job (rix_id job) (set_activated now db_now)
    (update_documents doc (serve_from now row doc) (vacate new_id db_now job d)))"
proof -
  have din: "doc \<in> set (documents d)" using doc get_row_Some unfolding get_document_def by fastforce
  have jin: "job \<in> set (reindex_jobs d)" using job get_row_Some unfolding get_reindex_job_def by fastforce
  have "length (source_collection_name job) \<le> 255"
    using reindex_row_fits [OF ok jin] by (auto simp: reindex_columns_def too_long_def split: if_splits)
  then have ok1: "db_ok (vacate new_id db_now job d)"
    using add_cleanup_job_ok [OF ok i] din did ok by (simp add: vacate_def)
  have "document_columns doc = None" and "index_collection_columns row = None"
    using ok din row by (auto simp: db_ok_checks check_None fits_def)
  then have ok2: "db_ok (update_documents doc (serve_from now row doc) (vacate new_id db_now job d))"
    using doc row by (intro update_documents_ok [OF ok1] serve_from_fits) (auto simp: serve_from_def)
  show ?thesis
  proof (rule update_reindex_job_ok [OF ok2])
    fix j assume "j \<in> set (reindex_jobs (update_documents doc (serve_from now row doc) (vacate new_id db_now job d)))"
    with reindex_row_fits [OF ok, of j] have "reindex_columns j = None" by simp
    then show "rix_id j = rix_id job \<Longrightarrow> rix_id (set_activated now db_now j) = rix_id job \<and>
        rix_document_id (set_activated now db_now j) = rix_document_id j \<and> reindex_columns (set_activated now db_now j) = None \<and>
        (rix_active (set_activated now db_now j) \<longrightarrow> rix_active j) \<and>
        source_collection_name (set_activated now db_now j) = source_collection_name j \<and>
        target_collection_name (set_activated now db_now j) = target_collection_name j"
      by (simp add: set_activated_def reindex_columns_def rix_active_def)
  qed
qed

definition built_job :: reindex_job where
  "built_job = complete_reindex 5 5 rebuild_job"

lemma built_db_ok: "db_ok (rebuild_db [built_job])"
proof -
  have "db_ok (update_reindex_job (uni ''r1'') (complete_reindex 5 5) (rebuild_db [rebuild_job]))"
  proof (rule update_reindex_job_ok [OF rebuild_db_ok])
    fix j assume "j \<in> set (reindex_jobs (rebuild_db [rebuild_job]))"
    then have "j = rebuild_job" by simp
    with reindex_row_fits [OF rebuild_db_ok, of rebuild_job]
    show "rix_id (complete_reindex 5 5 j) = uni ''r1'' \<and> rix_document_id (complete_reindex 5 5 j) = rix_document_id j \<and>
        reindex_columns (complete_reindex 5 5 j) = None \<and> (rix_active (complete_reindex 5 5 j) \<longrightarrow> rix_active j) \<and>
        source_collection_name (complete_reindex 5 5 j) = source_collection_name j \<and>
        target_collection_name (complete_reindex 5 5 j) = target_collection_name j"
      by (simp add: complete_reindex_def reindex_columns_def too_long_opt_def split: if_splits)
  qed
  then show ?thesis
    by (simp add: update_reindex_job_def rebuild_db_def built_job_def)
qed

lemma built_job_simps [simp]: "rix_id built_job = uni ''r1''" "rix_document_id built_job = uni ''d1''"
  "source_collection_name built_job = uni ''A''" "target_collection_name built_job = sample_name"
  "rix_status built_job = RixCompleted" "activated_at built_job = None" "reindex_columns built_job = None"
  "\<not> rix_active built_job"
  using reindex_row_fits [OF built_db_ok, of built_job]
  by (simp_all add: built_job_def complete_reindex_def rebuild_job_def rix_active_def)

lemma built_activation: "\<exists>res d'. activate_reindexed_document (\<lambda>k d. d) (uni ''c1'') 7 7 (uni ''r1'') (rebuild_db [built_job]) = (Inr res, d') \<and>
    ra_outcome res = ActActivated"
proof -
  let ?d = "rebuild_db [built_job]"
  have ne: "uni ''A'' \<noteq> sample_name" by (simp add: sample_name_eq)
  let ?new = "serve_from 7 (new_index_collection sample_config 0) (served_document (uni ''A''))"
  let ?d' = "update_reindex_job (uni ''r1'') (set_activated 7 7)
      (update_documents (served_document (uni ''A'')) ?new (vacate (uni ''c1'') 7 built_job ?d))"
  have "db_ok ?d'"
    using cutover_ok [OF built_db_ok, of "served_document (uni ''A'')" "new_index_collection sample_config 0" built_job "uni ''c1''" 7 7]
    by (simp add: get_document_def get_reindex_job_def)
  then show ?thesis
    using ne by (simp add: activate_reindexed_document_def activate_loaded_def Let_def get_reindex_job_def get_document_def
        get_latest_deletion_job_def latest_of_def get_index_collection_def sample_name_collection activation_result_def)
qed

theorem activation_refines_switch_witness:
  "\<exists>d'. snd (activate_reindexed_document (\<lambda>k d. d) (uni ''c1'') 7 7 (uni ''r1'') (rebuild_db [built_job])) = d' \<and>
    serving (index_state_of d') (uni ''d1'') = Some sample_name \<and> debris (index_state_of d') = {(uni ''d1'', uni ''A'')}"
proof -
  obtain res d' where run: "activate_reindexed_document (\<lambda>k d. d) (uni ''c1'') 7 7 (uni ''r1'') (rebuild_db [built_job]) = (Inr res, d')"
    "ra_outcome res = ActActivated" using built_activation by blast
  from run have "ra_job res = Some (set_activated 7 7 built_job)"
    by (cases rule: activation_cases) (auto simp: activation_result_def get_reindex_job_def)
  then have "index_state_of d' = switch (uni ''d1'') sample_name (index_state_of (rebuild_db [built_job]))"
    using activation_refines_switch [OF built_db_ok _ _ _ _ run(1), of "uni ''c2''" 8 8] run(2)
    by (auto simp: set_activated_def)
  moreover have "uni ''A'' \<noteq> sample_name" by (simp add: sample_name_eq)
  moreover have "serving (index_state_of (rebuild_db [built_job])) (uni ''d1'') = Some (uni ''A'')"
    "debris (index_state_of (rebuild_db [built_job])) = {}"
    by (simp_all add: index_state_of_def get_document_def)
  ultimately show ?thesis
    using run(1) by (simp add: switch_def)
qed

end
