(* ===== verification/Deletion_Worker.thy ===== *)
theory Deletion_Worker
  imports Vector_Cleanup Text_Extraction
begin

text \<open>
  The deletion worker (\<open>app/services/documents/deletion_worker.py\<close>): vectors strictly before the stored
  object, and the content hash released by the commit that completes the job.  Its own commits can be
  rejected (the error message of a failure is not bounded to its column), and an exception that is not
  a \<open>StorageError\<close> escapes; both leave the job in processing.  \<open>env 0\<close> is what others commit after the
  claim, \<open>env 1\<close> while vectors are deleted, \<open>env 2\<close> while the object is.
\<close>

definition claim_next_pending_deletion :: "(ustr \<Rightarrow> bool) \<Rightarrow> db \<Rightarrow> deletion_job option" where
  "claim_next_pending_deletion locked d =
     oldest_by del_created_at (filter (\<lambda>j. del_status j = DelPending \<and> \<not> locked (del_id j)) (deletion_jobs d))"

definition set_del_processing :: "time \<Rightarrow> deletion_job \<Rightarrow> deletion_job" where
  "set_del_processing db_now j = j\<lparr>del_status := DelProcessing, del_updated_at := db_now\<rparr>"

definition set_vectors_clean :: "time \<Rightarrow> deletion_job \<Rightarrow> deletion_job" where
  "set_vectors_clean db_now j = j\<lparr>vector_cleanup_completed := True, del_updated_at := db_now\<rparr>"

definition partially_failed :: "deletion_error_code \<Rightarrow> ustr \<Rightarrow> time \<Rightarrow> deletion_job \<Rightarrow> deletion_job" where
  "partially_failed code message db_now j =
     j\<lparr>del_status := DelPartiallyFailed, del_error_code := Some (deletion_error_code_value code),
       del_error_message := Some message, del_updated_at := db_now\<rparr>"

definition deletion_completed :: "time \<Rightarrow> time \<Rightarrow> deletion_job \<Rightarrow> deletion_job" where
  "deletion_completed now db_now j =
     j\<lparr>storage_cleanup_completed := True, del_status := DelCompleted, del_completed_at := Some now,
       del_error_code := None, del_error_message := None, del_updated_at := db_now\<rparr>"

definition vector_failure_message :: "vector_deletion_result \<Rightarrow> ustr" where
  "vector_failure_message r =
     uni ''Vector cleanup failed for collection(s): '' @ join (uni '', '')
       (map (\<lambda>c. cd_collection_name c @ uni '': '' @ (case cd_error c of None \<Rightarrow> uni ''None'' | Some e \<Rightarrow> e))
          (filter (\<lambda>c. \<not> cd_succeeded c) (collection_results r)))"

text \<open>A flush writes the columns whose value differs from the one the session loaded.\<close>

definition flush_deletion :: "deletion_job \<Rightarrow> deletion_job \<Rightarrow> deletion_job \<Rightarrow> deletion_job" where
  "flush_deletion loaded new row =
     row\<lparr>del_status := changed (del_status loaded) (del_status new) (del_status row),
         vector_cleanup_completed := changed (vector_cleanup_completed loaded) (vector_cleanup_completed new) (vector_cleanup_completed row),
         storage_cleanup_completed := changed (storage_cleanup_completed loaded) (storage_cleanup_completed new) (storage_cleanup_completed row),
         del_error_code := changed (del_error_code loaded) (del_error_code new) (del_error_code row),
         del_error_message := changed (del_error_message loaded) (del_error_message new) (del_error_message row),
         del_completed_at := changed (del_completed_at loaded) (del_completed_at new) (del_completed_at row),
         del_updated_at := del_updated_at new\<rparr>"

definition save_deletion :: "deletion_job \<Rightarrow> deletion_job \<Rightarrow> db \<Rightarrow> db" where
  "save_deletion loaded new = update_deletion_job (del_id loaded) (flush_deletion loaded new)"

definition resolve_deletion :: "(db \<Rightarrow> db) \<Rightarrow> deletion_job \<Rightarrow> deletion_job \<Rightarrow> (('f, 'e, 'v) world, exn, deletion_job option) call" where
  "resolve_deletion env loaded new w = commit_update (save_deletion loaded new) (Some new) (others env w)"

definition delete_vectors :: "(exn \<Rightarrow> ustr) \<Rightarrow> 'v vector_store \<Rightarrow> document \<Rightarrow> (('f, 'e, 'v) world, exn, vector_deletion_result) call" where
  "delete_vectors lib vs doc w =
     (case delete_all_tracked_document_vectors lib vs doc (w_db w) (w_index w) of (r, v) \<Rightarrow> (Inr r, w\<lparr>w_index := v\<rparr>))"

text \<open>The object is deleted; the last commit completes the job and releases the content hash.\<close>

definition finish_deletion :: "'f file_storage \<Rightarrow> (nat \<Rightarrow> time) \<Rightarrow> (nat \<Rightarrow> time) \<Rightarrow> (db \<Rightarrow> db) \<Rightarrow> document \<Rightarrow> deletion_job \<Rightarrow>
    (('f, 'e, 'v) world, exn, deletion_job option) call" where
  "finish_deletion fs now db_now env doc job w =
     (case on_files (fs_delete fs (resolve_document_storage_key doc)) w of
        (Inl (StorageErr e), w1) \<Rightarrow>
          resolve_deletion env job (partially_failed DocumentStorageCleanupFailed (storage_message e) (db_now 2) job) w1
      | (Inl e, w1) \<Rightarrow> (Inl e, w1)
      | (Inr _, w1) \<Rightarrow>
          let done_job = deletion_completed (now 2) (db_now 2) job in
          commit_update (\<lambda>d. save_deletion job done_job (update_documents doc (doc\<lparr>content_hash := None\<rparr>) d))
            (Some done_job) (others env w1))"

definition process_next_deletion :: "'v vector_store \<Rightarrow> 'f file_storage \<Rightarrow> (exn \<Rightarrow> ustr) \<Rightarrow> (nat \<Rightarrow> time) \<Rightarrow> (nat \<Rightarrow> time) \<Rightarrow>
    (nat \<Rightarrow> db \<Rightarrow> db) \<Rightarrow> (ustr \<Rightarrow> bool) \<Rightarrow> (('f, 'e, 'v) world, exn, deletion_job option) call" where
  "process_next_deletion vs fs lib now db_now env locked w =
     (case claim_next_pending_deletion locked (w_db w) of
        None \<Rightarrow> (Inr None, w)
      | Some claimed \<Rightarrow>
          let job = set_del_processing (db_now 0) claimed in
          call_bind (commit_update (update_deletion_job (del_id job) (set_del_processing (db_now 0))) ())
            (\<lambda>_ w1.
               let w2 = others (env 0) w1 in
               case get_document (w_db w2) (del_document_id job) of
                 None \<Rightarrow> resolve_deletion id job (partially_failed DocumentVectorCleanupFailed
                     (uni ''Document '' @ del_document_id job @ uni '' not found during deletion execution.'') (db_now 1) job) w2
               | Some doc \<Rightarrow>
                   call_bind (delete_vectors lib vs doc) (\<lambda>result.
                     if \<not> fully_deleted result then
                       resolve_deletion (env 1) job (partially_failed DocumentVectorCleanupFailed (vector_failure_message result) (db_now 1) job)
                     else
                       let clean = set_vectors_clean (db_now 1) job in
                       call_bind (resolve_deletion (env 1) job clean) (\<lambda>_.
                         finish_deletion fs now db_now (env 2) doc clean)) w2) w)"

section \<open>A run of the deletion worker\<close>

lemma deletion_set_simps [simp]:
  "del_id (set_del_processing t j) = del_id j" "del_document_id (set_del_processing t j) = del_document_id j"
  "del_status (set_del_processing t j) = DelProcessing" "deletion_columns (set_del_processing t j) = deletion_columns j"
  "del_id (set_vectors_clean t j) = del_id j" "del_document_id (set_vectors_clean t j) = del_document_id j"
  "del_status (set_vectors_clean t j) = del_status j" "deletion_columns (set_vectors_clean t j) = deletion_columns j"
  "del_id (partially_failed c m t j) = del_id j" "del_status (partially_failed c m t j) = DelPartiallyFailed"
  "del_id (deletion_completed t u j) = del_id j" "del_status (deletion_completed t u j) = DelCompleted"
  "del_id (flush_deletion l n j) = del_id j" "del_document_id (flush_deletion l n j) = del_document_id j"
  by (simp_all add: set_del_processing_def set_vectors_clean_def partially_failed_def deletion_completed_def flush_deletion_def
      deletion_columns_def)

lemma save_deletion_db [simp]:
  "documents (save_deletion l n d) = documents d" "get_document (save_deletion l n d) = get_document d"
  by (simp_all add: save_deletion_def)

lemma claim_deletion: "claim_next_pending_deletion locked d = Some j \<Longrightarrow>
    j \<in> set (deletion_jobs d) \<and> del_status j = DelPending \<and> \<not> locked (del_id j)"
  by (auto simp: claim_next_pending_deletion_def dest!: oldest_by_Some)

lemma deletion_row_unique:
  "db_ok d \<Longrightarrow> j \<in> set (deletion_jobs d) \<Longrightarrow> k \<in> set (deletion_jobs d) \<Longrightarrow> del_id j = del_id k \<Longrightarrow> j = k"
  using del_table.primary_key [of d] by (auto simp: distinct_map inj_on_def)

lemma deletion_row_fits: "db_ok d \<Longrightarrow> j \<in> set (deletion_jobs d) \<Longrightarrow> deletion_columns j = None"
  by (auto simp: db_ok_checks check_None fits_def)

lemma claim_deletion_commits:
  assumes ok: "db_ok d" and c: "claim_next_pending_deletion locked d = Some j"
  shows "db_ok (update_deletion_job (del_id j) (set_del_processing t) d)"
  using claim_deletion [OF c] deletion_row_unique [OF ok] deletion_row_fits [OF ok]
  by (intro update_deletion_job_ok [OF ok]) (auto simp: del_active_def)

text \<open>The database after the claim, and the ways a run goes on from there.\<close>

definition claimed_db :: "(nat \<Rightarrow> db \<Rightarrow> db) \<Rightarrow> (nat \<Rightarrow> time) \<Rightarrow> deletion_job \<Rightarrow> db \<Rightarrow> db" where
  "claimed_db env db_now claimed d = env 0 (update_deletion_job (del_id claimed) (set_del_processing (db_now 0)) d)"

lemma process_deletion_cases:
  assumes ok: "db_ok (w_db w)" and claim: "claim_next_pending_deletion locked (w_db w) = Some claimed"
    and run: "process_next_deletion vs fs lib now db_now env locked w = (r, w')"
  defines "job \<equiv> set_del_processing (db_now 0) claimed" and "d \<equiv> claimed_db env db_now claimed (w_db w)"
  obtains (missing) msg where "get_document d (del_document_id claimed) = None"
      "resolve_deletion id job (partially_failed DocumentVectorCleanupFailed msg (db_now 1) job) (w\<lparr>w_db := d\<rparr>) = (r, w')"
  | (vectors) doc result v where "get_document d (del_document_id claimed) = Some doc"
      "delete_all_tracked_document_vectors lib vs doc d (w_index w) = (result, v)" "\<not> fully_deleted result"
      "resolve_deletion (env 1) job (partially_failed DocumentVectorCleanupFailed (vector_failure_message result) (db_now 1) job)
         (w\<lparr>w_db := d, w_index := v\<rparr>) = (r, w')"
  | (rejected) doc result v e where "get_document d (del_document_id claimed) = Some doc"
      "delete_all_tracked_document_vectors lib vs doc d (w_index w) = (result, v)" "fully_deleted result" "r = Inl e"
      "resolve_deletion (env 1) job (set_vectors_clean (db_now 1) job) (w\<lparr>w_db := d, w_index := v\<rparr>) = (Inl e, w')"
  | (cleaned) doc result v w3 where "get_document d (del_document_id claimed) = Some doc"
      "delete_all_tracked_document_vectors lib vs doc d (w_index w) = (result, v)" "fully_deleted result"
      "resolve_deletion (env 1) job (set_vectors_clean (db_now 1) job) (w\<lparr>w_db := d, w_index := v\<rparr>) =
         (Inr (Some (set_vectors_clean (db_now 1) job)), w3)"
      "finish_deletion fs now db_now (env 2) doc (set_vectors_clean (db_now 1) job) w3 = (r, w')"
proof -
  have id: "del_id job = del_id claimed" "del_document_id job = del_document_id claimed" by (simp_all add: job_def)
  let ?d = "update_deletion_job (del_id job) (set_del_processing (db_now 0)) (w_db w)"
  have c: "commit_update (update_deletion_job (del_id job) (set_del_processing (db_now 0))) () w = (Inr (), w\<lparr>w_db := ?d\<rparr>)"
    using claim_deletion_commits [OF ok claim, of "db_now 0"] id by (simp add: commit_update_Inr)
  have w2: "others (env 0) (w\<lparr>w_db := ?d\<rparr>) = w\<lparr>w_db := d\<rparr>" "env 0 ?d = d"
    by (simp_all add: others_def d_def claimed_db_def id)
  note unf = process_next_deletion_def call_bind_def Let_def job_def [symmetric] delete_vectors_def
  show thesis
  proof (cases "get_document d (del_document_id claimed)")
    case None
    with run claim c w2 id missing show thesis by (simp add: unf)
  next
    case (Some doc)
    obtain result v where rv: "delete_all_tracked_document_vectors lib vs doc d (w_index w) = (result, v)" by fastforce
    show thesis
    proof (cases "fully_deleted result")
      case False
      with run claim c w2 id Some rv vectors [OF Some rv] show thesis by (simp add: unf)
    next
      case True
      obtain x w3 where x: "resolve_deletion (env 1) job (set_vectors_clean (db_now 1) job) (w\<lparr>w_db := d, w_index := v\<rparr>) = (x, w3)"
        by fastforce
      then have "x = Inr y \<Longrightarrow> y = Some (set_vectors_clean (db_now 1) job)" for y
        by (auto simp: resolve_deletion_def commit_update_Inr)
      with run claim c w2 id Some rv True x rejected [OF Some rv True] cleaned [OF Some rv True, of w3] show thesis
        by (cases x) (simp_all add: unf)
    qed
  qed
qed

lemma resolve_deletion_frame:
  assumes "resolve_deletion env l n w = (r, w')"
  shows "w_index w' = w_index w \<and> w_files w' = w_files w \<and> documents (w_db w') = documents (env (w_db w)) \<and>
    (\<forall>x. r = Inr x \<longrightarrow> x = Some n \<and> db_ok (w_db w') \<and> w_db w' = save_deletion l n (env (w_db w)))"
  using assms by (cases r) (auto simp: resolve_deletion_def commit_update_Inr commit_update_Inl)

definition completed_result :: "exn + deletion_job option \<Rightarrow> bool" where
  "completed_result r \<longleftrightarrow> (\<exists>j. r = Inr (Some j) \<and> del_status j = DelCompleted)"

lemma resolve_deletion_completed:
  "resolve_deletion env l n w = (r, w') \<Longrightarrow> del_status n \<noteq> DelCompleted \<Longrightarrow> \<not> completed_result r"
  by (auto simp: completed_result_def dest: resolve_deletion_frame)

lemma finish_deletion_cases:
  assumes "finish_deletion fs now db_now env doc job w = (r, w')" and "del_status job \<noteq> DelCompleted"
  obtains (completed) s where "fs_delete fs (resolve_document_storage_key doc) (w_files w) = (Inr (), s)" "completed_result r"
      "w' = w\<lparr>w_files := s, w_db := save_deletion job (deletion_completed (now 2) (db_now 2) job)
         (update_documents doc (doc\<lparr>content_hash := None\<rparr>) (env (w_db w)))\<rparr>" "db_ok (w_db w')"
  | (unfinished) "\<not> completed_result r" "w_index w' = w_index w"
      "documents (w_db w') = documents (w_db w) \<or> documents (w_db w') = documents (env (w_db w))"
proof (cases "fs_delete fs (resolve_document_storage_key doc) (w_files w)")
  case (Pair x s)
  show thesis
  proof (cases x)
    case (Inl e)
    show thesis
    proof (cases "\<exists>se. e = StorageErr se")
      case True
      then obtain se where "e = StorageErr se" ..
      with assms Pair Inl have res: "resolve_deletion env job
          (partially_failed DocumentStorageCleanupFailed (storage_message se) (db_now 2) job) (w\<lparr>w_files := s\<rparr>) = (r, w')"
        by (simp add: finish_deletion_def on_files_def)
      from resolve_deletion_frame [OF res] resolve_deletion_completed [OF res] show thesis
        by (intro unfinished) auto
    next
      case False
      with assms Pair Inl have "r = Inl e \<and> w' = w\<lparr>w_files := s\<rparr>"
        by (cases e) (auto simp: finish_deletion_def on_files_def)
      then show thesis by (intro unfinished) (auto simp: completed_result_def)
    qed
  next
    case (Inr u)
    let ?done = "deletion_completed (now 2) (db_now 2) job"
    have c: "commit_update (\<lambda>d. save_deletion job ?done (update_documents doc (doc\<lparr>content_hash := None\<rparr>) d)) (Some ?done)
        (others env (w\<lparr>w_files := s\<rparr>)) = (r, w')"
      using assms Pair Inr by (simp add: finish_deletion_def on_files_def Let_def)
    show thesis
    proof (cases r)
      case (Inl e)
      with c show thesis by (intro unfinished) (auto simp: commit_update_Inl completed_result_def)
    next
      case (Inr y)
      with c have y: "y = Some ?done"
          "w' = w\<lparr>w_files := s, w_db := save_deletion job ?done (update_documents doc (doc\<lparr>content_hash := None\<rparr>) (env (w_db w)))\<rparr>"
          "db_ok (w_db w')"
        by (auto simp: commit_update_Inr others_def)
      moreover have "completed_result r" using y(1) Inr by (simp add: completed_result_def)
      ultimately show thesis using Pair \<open>x = Inr u\<close> by (intro completed) auto
    qed
  qed
qed

lemma document_row: "get_document d i = Some doc \<Longrightarrow> doc_id doc = i"
  unfolding get_document_def by (metis get_row_Some)

text \<open>C8: Vectors strictly before the object: whenever a run of the deletion worker changed a stored file or
  reports the deletion completed, no collection tracked at the claim holds a vector of the document.
  A completed deletion removed the stored object and released the content hash; in every other case,
  errors included, all documents are unchanged.\<close>

theorem deletion_order:
  assumes vi: "vector_index vs stored sizes" and fst: "file_store fs address content"
    and ok: "db_ok (w_db w)" and env: "\<And>k d. documents (env k d) = documents d"
    and claim: "claim_next_pending_deletion locked (w_db w) = Some claimed"
    and doc: "get_document (w_db w) (del_document_id claimed) = Some doc"
    and run: "process_next_deletion vs fs lib now db_now env locked w = (r, w')"
  shows "(w_files w' \<noteq> w_files w \<or> completed_result r \<longrightarrow>
      (\<forall>c \<in> set (collections_to_attempt doc (claimed_db env db_now claimed (w_db w))).
         \<not> holds_document (stored (w_index w')) c (doc_id doc))) \<and>
    (if completed_result r then
       (\<exists>a. address (resolve_document_storage_key doc) = Some a \<and> content (w_files w') a = None) \<and>
       get_document (w_db w') (doc_id doc) = Some (doc\<lparr>content_hash := None\<rparr>)
     else documents (w_db w') = documents (w_db w))"
proof -
  let ?d = "claimed_db env db_now claimed (w_db w)"
  have docs: "documents ?d = documents (w_db w)" and gdoc: "get_document ?d (del_document_id claimed) = Some doc"
    using env doc get_document_cong [of ?d "w_db w"] by (simp_all add: claimed_db_def)
  from ok claim run show ?thesis
  proof (cases rule: process_deletion_cases)
    case (missing msg)
    with gdoc show ?thesis by simp
  next
    case (vectors doc' result v)
    with resolve_deletion_frame [OF vectors(4)] resolve_deletion_completed [OF vectors(4)] env docs show ?thesis by simp
  next
    case (rejected doc' result v e)
    with resolve_deletion_frame [OF rejected(5)] env docs show ?thesis by (simp add: completed_result_def)
  next
    case (cleaned doc' result v w3)
    note fr = resolve_deletion_frame [OF cleaned(4)]
    have gone: "\<forall>c \<in> set (collections_to_attempt doc ?d). \<not> holds_document (stored v) c (doc_id doc)"
      using tracked_gone [OF vi cleaned(2,3)] cleaned(1) gdoc by simp
    have "del_status (set_vectors_clean (db_now 1) (set_del_processing (db_now 0) claimed)) \<noteq> DelCompleted" by simp
    from cleaned(5) this show ?thesis
    proof (cases rule: finish_deletion_cases)
      case (completed s)
      have "get_document (w_db w3) (doc_id doc) = Some doc"
        using fr env docs get_document_cong [of "w_db w3" "w_db w"] doc document_row [OF doc] by simp
      then have "get_document (env 2 (w_db w3)) (doc_id doc) = Some doc"
        using get_document_cong [OF env] by metis
      then have "get_document (w_db w') (doc_id doc) = Some (doc\<lparr>content_hash := None\<rparr>)"
        using completed(3) cleaned(1) gdoc by (simp add: update_documents_get)
      with gone fr completed file_store.delete_ok [OF fst completed(1)] cleaned(1) gdoc show ?thesis by auto
    next
      case unfinished
      with gone fr env docs show ?thesis by auto
    qed
  qed
qed

section \<open>A failure that cannot be recorded\<close>

lemma latest_by_map: "(\<And>r. r \<in> set rows \<Longrightarrow> key (f r) = key r) \<Longrightarrow> latest_by key (map f rows) = map_option f (latest_by key rows)"
proof (induction rows)
  case Nil
  then show ?case by simp
next
  case (Cons r rows)
  then have IH: "latest_by key (map f rows) = map_option f (latest_by key rows)" by simp
  have "key (f s) = key s" if "latest_by key rows = Some s" for s
    using Cons.prems latest_by_Some [OF that] by simp
  with Cons.prems IH show ?case by (auto split: option.splits)
qed

lemma latest_deletion_update:
  assumes f: "\<And>j. del_id (f j) = del_id j \<and> del_document_id (f j) = del_document_id j \<and> del_created_at (f j) = del_created_at j"
  shows "get_latest_deletion_job (update_deletion_job i f d) doc =
    map_option (\<lambda>j. if del_id j = i then f j else j) (get_latest_deletion_job d doc)"
proof -
  let ?g = "\<lambda>j. if del_id j = i then f j else j"
  have fil: "filter (\<lambda>j. del_document_id j = doc) (map ?g rows) = map ?g (filter (\<lambda>j. del_document_id j = doc) rows)" for rows
    using f by (induction rows) auto
  show ?thesis
    using f by (simp add: get_latest_deletion_job_def latest_of_def update_row_def fil) (intro latest_by_map, simp add: row_key_def)
qed

lemma long_deletion_error:
  assumes ok: "db_ok d" and j: "j \<in> set (deletion_jobs d)" and long: "2048 < length msg"
    and new: "del_error_message j \<noteq> Some msg"
  shows "db_violation (save_deletion j (partially_failed code msg t j) d) = Some (DataError (uni ''error_message''))"
proof -
  let ?f = "flush_deletion j (partially_failed code msg t j)" and ?e = "DataError (uni ''error_message'')"
  have f: "deletion_columns (?f k) = Some ?e" if "k \<in> set (deletion_jobs d)" "del_id k = del_id j" for k
  proof -
    have "k = j" using deletion_row_unique [OF ok that(1) j that(2)] .
    moreover have "length (deletion_error_code_value code) \<le> 64" by (cases code) simp_all
    ultimately show ?thesis
      using deletion_row_fits [OF ok j] long new
      by (auto simp: deletion_columns_def flush_deletion_def partially_failed_def too_long_opt_def changed_def split: if_splits)
  qed
  have "first_some (map deletion_columns (update_row del_id (del_id j) ?f (deletion_jobs d)) @ xs) = Some ?e" for xs
  proof (rule first_some_only)
    show "\<forall>r \<in> set (update_row del_id (del_id j) ?f (deletion_jobs d)). deletion_columns r = None \<or> deletion_columns r = Some ?e"
      using f deletion_row_fits [OF ok] by (auto simp: set_update_row)
    show "\<exists>r \<in> set (update_row del_id (del_id j) ?f (deletion_jobs d)). deletion_columns r = Some ?e"
      using f [OF j] j by (auto simp: set_update_row)
  qed
  then have "check_deletion_jobs (save_deletion j (partially_failed code msg t j) d) = Some ?e"
    by (simp add: check_deletion_jobs_def save_deletion_def)
  then show ?thesis
    using ok by (simp add: db_violation_def db_ok_checks save_deletion_def update_deletion_job_def)
qed

text \<open>When the failures of the tracked collections make a message longer than the column, the deletion
  worker raises the database's error, the job stays in processing, where no worker claims it, and every
  later request to delete the document answers that the deletion is already active.\<close>

theorem deletion_long_error_stuck:
  assumes ok: "db_ok (w_db w)" and claim: "claim_next_pending_deletion locked (w_db w) = Some claimed"
    and doc: "get_document (w_db w) (del_document_id claimed) = Some doc"
    and latest: "get_latest_deletion_job (w_db w) (del_document_id claimed) = Some claimed"
    and fails: "delete_all_tracked_document_vectors lib vs doc
      (update_deletion_job (del_id claimed) (set_del_processing (db_now 0)) (w_db w)) (w_index w) = (result, v)"
    and "\<not> fully_deleted result" and "2048 < length (vector_failure_message result)"
  shows "\<exists>w'. process_next_deletion vs fs lib now db_now (\<lambda>_. id) locked w =
      (Inl (DatabaseErr (DataError (uni ''error_message''))), w') \<and>
    (\<forall>locked'. claim_next_pending_deletion locked' (w_db w') \<noteq> Some (set_del_processing (db_now 0) claimed)) \<and>
    (\<forall>env new_id now'. request_document_deletion env new_id now' (del_document_id claimed) (w_db w') =
       (Inr \<lparr>drq_outcome = DelAlreadyActive, drq_job = Some (set_del_processing (db_now 0) claimed)\<rparr>, w_db w'))"
proof -
  let ?job = "set_del_processing (db_now 0) claimed"
  let ?d = "update_deletion_job (del_id claimed) (set_del_processing (db_now 0)) (w_db w)"
  let ?w' = "w\<lparr>w_db := ?d, w_index := v\<rparr>"
  note cl = claim_deletion [OF claim]
  have okd: "db_ok ?d" by (rule claim_deletion_commits [OF ok claim])
  have job: "?job \<in> set (deletion_jobs ?d)" using cl by (auto simp: set_update_row)
  have "length msg \<le> 2048" if "del_error_message ?job = Some msg" for msg
    using deletion_row_fits [OF okd job] that by (auto simp: deletion_columns_def too_long_opt_def split: if_splits)
  with assms(7) have new: "del_error_message ?job \<noteq> Some (vector_failure_message result)" by fastforce
  have cdb: "claimed_db (\<lambda>_. id) db_now claimed (w_db w) = ?d" by (simp add: claimed_db_def)
  obtain r w' where run: "process_next_deletion vs fs lib now db_now (\<lambda>_. id) locked w = (r, w')" by fastforce
  from ok claim run have "r = Inl (DatabaseErr (DataError (uni ''error_message''))) \<and> w' = ?w'"
  proof (cases rule: process_deletion_cases)
    case (vectors doc' result' v')
    then have "doc' = doc" "result' = result" "v' = v" using doc fails by (simp_all add: cdb)
    with vectors(4) long_deletion_error [OF okd job assms(7) new] show ?thesis
      by (cases r) (auto simp: resolve_deletion_def commit_update_Inl commit_update_Inr cdb db_ok_def)
  qed (use doc fails assms(6) in \<open>auto simp: cdb\<close>)
  moreover have "get_latest_deletion_job ?d (del_document_id claimed) = Some ?job"
    using latest by (subst latest_deletion_update) (simp_all add: set_del_processing_def)
  then have "request_document_deletion env new_id now' (del_document_id claimed) ?d =
      (Inr \<lparr>drq_outcome = DelAlreadyActive, drq_job = Some ?job\<rparr>, ?d)" for env new_id now'
    using doc by (simp add: request_document_deletion_def Let_def)
  moreover have "claim_next_pending_deletion locked' ?d \<noteq> Some ?job" for locked'
    using claim_deletion [of locked' ?d ?job] by auto
  ultimately show ?thesis using run by simp
qed

section \<open>Concrete deletions\<close>

lemma save_deletion_ok:
  assumes ok: "db_ok d" and j: "j \<in> set (deletion_jobs d)" and f: "deletion_columns (flush_deletion j new j) = None"
    and a: "del_active new \<longrightarrow> del_active j"
  shows "db_ok (save_deletion j new d)"
  unfolding save_deletion_def
proof (rule update_deletion_job_ok [OF ok])
  fix k assume k: "k \<in> set (deletion_jobs d)" "del_id k = del_id j"
  then have "k = j" using deletion_row_unique [OF ok] j by blast
  moreover have "del_active (flush_deletion j new j) = del_active new"
    by (simp add: del_active_def flush_deletion_def)
  ultimately show "del_id (flush_deletion j new k) = del_id j \<and> del_document_id (flush_deletion j new k) = del_document_id k \<and>
      deletion_columns (flush_deletion j new k) = None \<and> (del_active (flush_deletion j new k) \<longrightarrow> del_active k)"
    using f a by simp
qed

definition deleting_db :: db where
  "deleting_db = add_deletion_job (new_deletion_job (uni ''x1'') (uni ''d1'') 3) (serving_db (uni ''A'') [job_b])"

definition deleting_world :: "mem_index \<Rightarrow> (local_fs, unit, mem_index) world" where
  "deleting_world v = \<lparr>w_files = stored_text, w_embedder = (), w_index = v, w_db = deleting_db\<rparr>"

abbreviation deleting_job :: deletion_job where
  "deleting_job \<equiv> new_deletion_job (uni ''x1'') (uni ''d1'') 3"

lemma deleting_simps [simp]:
  "w_files (deleting_world v) = stored_text" "w_index (deleting_world v) = v" "w_db (deleting_world v) = deleting_db"
  "deletion_jobs deleting_db = [deleting_job]" "documents deleting_db = [served_document (uni ''A'')]"
  "index_collections deleting_db = [sample_collection (uni ''A''), sample_collection (uni ''B'')]" "cleanup_jobs deleting_db = [job_b]" "reindex_jobs deleting_db = []"
  "get_document deleting_db (uni ''d1'') = Some (served_document (uni ''A''))"
  by (simp_all add: deleting_world_def deleting_db_def add_deletion_job_def get_document_def)

lemma deleting_db_ok: "db_ok deleting_db"
proof -
  have ok: "db_ok (serving_db (uni ''A'') [job_b])"
    by (rule serving_db_ok; simp add: fits_def sample_cleanup_columns)
  have "deletion_columns deleting_job = None"
    by (simp add: new_deletion_job_columns)
  with ok show ?thesis
    by (simp add: deleting_db_def add_deletion_job_def db_ok_checks check_None fits_def one_active_def)
qed

lemma deleting_claim: "claim_next_pending_deletion (\<lambda>_. False) deleting_db = Some deleting_job"
  by (simp add: claim_next_pending_deletion_def)

lemma delete_from_works:
  assumes "\<And>s c. good s \<Longrightarrow> \<exists>v. vs_delete_by_document_id vs c doc s = (Inr (), v) \<and> good v" and "good v"
    and "delete_from_collections lib vs doc cs v = (rs, v')"
  shows "\<forall>r \<in> set rs. cd_succeeded r"
  using assms(2,3)
proof (induction cs arbitrary: v rs v')
  case Nil
  then show ?case by simp
next
  case (Cons c cs)
  obtain v1 where "vs_delete_by_document_id vs c doc v = (Inr (), v1)" "good v1" using assms(1) Cons.prems(1) by blast
  with Cons.prems(2) Cons.IH [of v1] show ?case by (auto split: prod.splits)
qed

lemma delete_works:
  assumes "mi_failures v = []"
  obtains result v' where "delete_all_tracked_document_vectors lib mem_store doc d v = (result, v')" "fully_deleted result"
proof -
  obtain rs v' where "delete_from_collections lib mem_store (doc_id doc) (collections_to_attempt doc d) v = (rs, v')" by fastforce
  with delete_from_works [of "\<lambda>s. mi_failures s = []" mem_store, OF mem_delete_works assms this] that
  show thesis by (simp add: delete_all_tracked_document_vectors_def Let_def fully_deleted_def)
qed

lemma stored_text_deleted: "\<exists>s. fs_delete sample_storage (resolve_document_storage_key (served_document c)) stored_text = (Inr (), s)"
proof -
  have k: "resolve_document_storage_key (served_document c) = uni ''d1.txt''"
    by (simp add: resolve_document_storage_key_def served_document_def sample_document_def uni_append [symmetric])
  have p: "resolve [uni ''srv''] (uni ''d1.txt'') = Inr [uni ''srv'', uni ''d1.txt'']"
    by (simp add: resolve_def validate_object_key_def path_parts_def uni_def py_strip_def py_space_def is_absolute_def)
  have q: "\<not> is_file (entries stored_text r)" if "r \<in> set (strict_prefixes [uni ''srv'', uni ''d1.txt''])" for r
    using that by (auto simp: strict_prefixes_def stored_text_def is_file_def upt_rec)
  show ?thesis
    unfolding k using q by (simp add: sample_storage_def local_file_storage_def local_delete_def p next_fault_def)
      (auto simp: stored_text_def)
qed

lemma sample_deletion: "\<exists>r w'. process_next_deletion mem_store sample_storage (\<lambda>_. []) int int (\<lambda>k d. d) (\<lambda>_. False)
    (deleting_world two_collections) = (r, w') \<and> completed_result r"
proof -
  let ?w = "deleting_world two_collections" and ?doc = "served_document (uni ''A'')"
  let ?job = "set_del_processing 0 deleting_job" and ?clean = "set_vectors_clean 1 (set_del_processing 0 deleting_job)"
  let ?d = "update_deletion_job (uni ''x1'') (set_del_processing 0) deleting_db"
  have cdb: "claimed_db (\<lambda>k d. d) int deleting_job deleting_db = ?d" by (simp add: claimed_db_def)
  have okd: "db_ok ?d"
    using claim_deletion_commits [OF deleting_db_ok deleting_claim, of 0] by simp
  have doc: "get_document ?d (uni ''d1'') = Some ?doc" by simp
  obtain result v where del: "delete_all_tracked_document_vectors (\<lambda>_. []) mem_store ?doc ?d two_collections = (result, v)"
    "fully_deleted result" using delete_works [of two_collections "\<lambda>_. []" ?doc ?d] by auto
  have fits: "deletion_columns ?job = None" by (simp add: new_deletion_job_columns)
  have job: "?job \<in> set (deletion_jobs ?d)" by simp
  have ok2: "db_ok (save_deletion ?job ?clean ?d)"
    using fits by (intro save_deletion_ok [OF okd job])
      (auto simp: flush_deletion_def set_vectors_clean_def deletion_columns_def del_active_def)
  let ?done = "deletion_completed 2 2 ?clean" and ?e = "save_deletion ?job ?clean ?d"
  have "db_ok (update_documents ?doc (?doc\<lparr>content_hash := None\<rparr>) ?e)"
  proof (rule update_documents_ok [OF ok2])
    have "document_columns ?doc = None"
      using deleting_db_ok by (simp add: db_ok_checks check_None fits_def)
    then show "document_columns (flush_document ?doc (?doc\<lparr>content_hash := None\<rparr>) ?doc) = None"
      by (simp add: document_columns_def too_long_opt_def split: if_splits)
  qed (simp_all add: save_deletion_def)
  then have ok3: "db_ok (save_deletion ?clean ?done (update_documents ?doc (?doc\<lparr>content_hash := None\<rparr>) ?e))"
  proof (rule save_deletion_ok)
    show "?clean \<in> set (deletion_jobs (update_documents ?doc (?doc\<lparr>content_hash := None\<rparr>) ?e))"
      by (simp add: save_deletion_def flush_deletion_def set_vectors_clean_def)
    show "deletion_columns (flush_deletion ?clean ?done ?clean) = None"
      using fits by (simp add: deletion_columns_def flush_deletion_def deletion_completed_def set_vectors_clean_def
          too_long_opt_def set_del_processing_def new_deletion_job_def changed_def split: if_splits)
  qed (simp add: del_active_def deletion_completed_def)
  obtain s where s: "fs_delete sample_storage (resolve_document_storage_key ?doc) stored_text = (Inr (), s)"
    using stored_text_deleted by blast
  obtain r w' where run: "process_next_deletion mem_store sample_storage (\<lambda>_. []) int int (\<lambda>k d. d) (\<lambda>_. False) ?w = (r, w')"
    by fastforce
  have okw: "db_ok (w_db ?w)" and cl: "claim_next_pending_deletion (\<lambda>_. False) (w_db ?w) = Some deleting_job"
    using deleting_db_ok deleting_claim by simp_all
  from okw cl run have "completed_result r"
  proof (cases rule: process_deletion_cases)
    case (cleaned doc' result' v' w3)
    then have "doc' = ?doc" "v' = v" using doc del by (simp_all add: cdb)
    with cleaned(4,5) ok2 ok3 s show ?thesis
      by (auto simp: resolve_deletion_def commit_update_Inr cdb others_def finish_deletion_def on_files_def Let_def
          completed_result_def commit_update_def)
  next
    case (rejected doc' result' v' e)
    then have "doc' = ?doc" "v' = v" using doc del by (simp_all add: cdb)
    with rejected(5) ok2 show ?thesis
      by (auto simp: resolve_deletion_def commit_update_Inl cdb others_def db_ok_def)
  qed (use doc del in \<open>auto simp: cdb\<close>)
  with run show ?thesis by blast
qed

theorem deletion_order_witness:
  "\<exists>w'. snd (process_next_deletion mem_store sample_storage (\<lambda>_. []) int int (\<lambda>k d. d) (\<lambda>_. False)
      (deleting_world two_collections)) = w' \<and>
    \<not> holds_document (mem_stored (w_index w')) (uni ''A'') (uni ''d1'') \<and>
    \<not> holds_document (mem_stored (w_index w')) (uni ''B'') (uni ''d1'') \<and>
    get_document (w_db w') (uni ''d1'') = Some (served_document (uni ''A'')\<lparr>content_hash := None\<rparr>)"
proof -
  obtain r w' where run: "process_next_deletion mem_store sample_storage (\<lambda>_. []) int int (\<lambda>k d. d) (\<lambda>_. False)
      (deleting_world two_collections) = (r, w')" "completed_result r" using sample_deletion by blast
  have "set (collections_to_attempt (served_document (uni ''A'')) (claimed_db (\<lambda>k d. d) int deleting_job deleting_db)) =
      {uni ''A'', uni ''B''}"
    by (auto simp: collections_to_attempt_def append_new_set claimed_db_def get_pending_cleanup_jobs_def
        get_completed_reindex_target_collections_def)
  with deletion_order [OF mem.index.vector_index_axioms sample_file_store _ _ _ _ run(1), of deleting_job "served_document (uni ''A'')"]
    deleting_db_ok deleting_claim run show ?thesis by auto
qed

text \<open>The server fails the first request with a long message.\<close>

definition failing_index :: mem_index where
  "failing_index = two_collections\<lparr>mi_failures := [Some (OtherError (uni ''down''))]\<rparr>"

lemma failing_delete: "vs_delete_by_document_id mem_store c doc failing_index = (Inl (LibraryError (uni ''down'')), two_collections)"
proof -
  have q: "quiet failing_index = two_collections"
    by (simp add: quiet_def failing_index_def two_collections_def)
  have "collection_vector_size mem_qdrant c failing_index = (Inl (LibraryError (uni ''down'')), quiet failing_index)"
    by (simp add: collection_vector_size_def request_def retry_async_def retry_loop.simps request_call_def
        mem_qdrant_def sample_policy_def mem_http_def quiet_def failing_index_def)
  then show ?thesis
    by (simp add: mem_store_sel delete_by_document_id_def q)
qed

theorem deletion_long_error_stuck_witness:
  "\<exists>w'. process_next_deletion mem_store sample_storage (\<lambda>_. replicate 3000 97) int int (\<lambda>_. id) (\<lambda>_. False)
      (deleting_world failing_index) = (Inl (DatabaseErr (DataError (uni ''error_message''))), w') \<and>
    request_document_deletion (\<lambda>_. id) (uni ''x2'') 9 (uni ''d1'') (w_db w') =
      (Inr \<lparr>drq_outcome = DelAlreadyActive, drq_job = Some (set_del_processing 0 deleting_job)\<rparr>, w_db w')"
proof -
  let ?lib = "\<lambda>_ :: exn. replicate 3000 97" and ?doc = "served_document (uni ''A'')"
  let ?d = "update_deletion_job (uni ''x1'') (set_del_processing 0) deleting_db"
  obtain result v where del: "delete_all_tracked_document_vectors ?lib mem_store ?doc ?d failing_index = (result, v)" by fastforce
  have "collections_to_attempt ?doc ?d = [uni ''A'', uni ''B'']"
    by (simp add: collections_to_attempt_def get_pending_cleanup_jobs_def get_completed_reindex_target_collections_def)
  with del have "\<not> fully_deleted result \<and> 2048 < length (vector_failure_message result)"
    by (auto simp: delete_all_tracked_document_vectors_def Let_def failing_delete fully_deleted_def vector_failure_message_def
        split: prod.splits sum.splits)
  moreover have "get_latest_deletion_job deleting_db (uni ''d1'') = Some deleting_job"
    by (simp add: get_latest_deletion_job_def latest_of_def)
  ultimately show ?thesis
    using deletion_long_error_stuck [of "deleting_world failing_index" "\<lambda>_. False" deleting_job ?doc ?lib mem_store int
        result v sample_storage int] deleting_db_ok deleting_claim del by simp blast
qed

end
