(* ===== verification/Effects.thy ===== *)
theory Effects
  imports Upload Ingestion_Retry Reindex_Scheduling Reindex_Worker Reindex_Activation Deletion_Worker
begin

text \<open>
  What a whole operation does to the tables when nobody else commits meanwhile: it updates rows in place
  without reviving a job or giving a document another hash, and it may append rows.  One lemma per
  operation; \<open>Lifecycle\<close> composes them.
\<close>

section \<open>Rows updated in place\<close>

definition document_kept :: "document \<Rightarrow> document \<Rightarrow> bool" where
  "document_kept a b \<longleftrightarrow> doc_id b = doc_id a \<and> (content_hash b = content_hash a \<or> content_hash b = None)"

definition ingestion_kept :: "ingestion_job \<Rightarrow> ingestion_job \<Rightarrow> bool" where
  "ingestion_kept a b \<longleftrightarrow> ing_id b = ing_id a \<and> ing_document_id b = ing_document_id a \<and>
     ing_created_at b = ing_created_at a \<and> (ing_active b \<longrightarrow> ing_active a)"

definition reindex_kept :: "reindex_job \<Rightarrow> reindex_job \<Rightarrow> bool" where
  "reindex_kept a b \<longleftrightarrow> rix_document_id b = rix_document_id a \<and> (rix_active b \<longrightarrow> rix_active a)"

definition deletion_kept :: "deletion_job \<Rightarrow> deletion_job \<Rightarrow> bool" where
  "deletion_kept a b \<longleftrightarrow> del_document_id b = del_document_id a \<and> (del_status b = DelCompleted \<longrightarrow> del_status a = DelCompleted)"

named_theorems kept_intros "tables updated in place"

lemma kept_refl [simp]: "document_kept a a" "ingestion_kept j j" "reindex_kept r r" "deletion_kept k k"
  by (simp_all add: document_kept_def ingestion_kept_def reindex_kept_def deletion_kept_def)

lemma kept_trans:
  "document_kept a b \<Longrightarrow> document_kept b c \<Longrightarrow> document_kept a c"
  "ingestion_kept i j \<Longrightarrow> ingestion_kept j k \<Longrightarrow> ingestion_kept i k"
  "reindex_kept p q \<Longrightarrow> reindex_kept q r \<Longrightarrow> reindex_kept p r"
  "deletion_kept u v \<Longrightarrow> deletion_kept v w \<Longrightarrow> deletion_kept u w"
  by (auto simp: document_kept_def ingestion_kept_def reindex_kept_def deletion_kept_def)

lemma all2_same [simp]: "(\<And>x. R x x) \<Longrightarrow> list_all2 R xs xs"
  by (simp add: list.rel_refl)

lemma all2_then:
  "list_all2 document_kept as bs \<Longrightarrow> list_all2 document_kept bs cs \<Longrightarrow> list_all2 document_kept as cs"
  "list_all2 ingestion_kept is js \<Longrightarrow> list_all2 ingestion_kept js ks \<Longrightarrow> list_all2 ingestion_kept is ks"
  "list_all2 reindex_kept ps qs \<Longrightarrow> list_all2 reindex_kept qs rs \<Longrightarrow> list_all2 reindex_kept ps rs"
  "list_all2 deletion_kept us vs \<Longrightarrow> list_all2 deletion_kept vs ws \<Longrightarrow> list_all2 deletion_kept us ws"
  by (rule list_all2_trans [rotated], assumption, assumption, erule kept_trans, assumption)+

lemma all2_update:
  assumes "\<And>x. R x x" and "\<And>x. x \<in> set xs \<Longrightarrow> key x = k \<Longrightarrow> R x (f x)"
  shows "list_all2 R xs (update_row key k f xs)"
  using assms(2) by (induction xs) (simp_all add: assms(1) update_row_def)

lemma all2_set: "list_all2 R xs ys \<Longrightarrow> y \<in> set ys \<Longrightarrow> \<exists>x \<in> set xs. R x y"
  by (induction rule: list_all2_induct) auto

lemma all2_set_back: "list_all2 R xs ys \<Longrightarrow> x \<in> set xs \<Longrightarrow> \<exists>y \<in> set ys. R x y"
  by (induction rule: list_all2_induct) auto

text \<open>Appended jobs carry one creation time, belong to distinct documents of a given set, and are active.\<close>

definition appended :: "time \<Rightarrow> ustr set \<Rightarrow> ingestion_job list \<Rightarrow> ingestion_job list \<Rightarrow> bool" where
  "appended t docs js js' \<longleftrightarrow> (\<exists>base new. js' = base @ new \<and> list_all2 ingestion_kept js base \<and>
     distinct (map ing_document_id new) \<and>
     (\<forall>j \<in> set new. ing_created_at j = t \<and> ing_document_id j \<in> docs \<and> ing_active j))"

lemma appended_none: "list_all2 ingestion_kept js js' \<Longrightarrow> appended t docs js js'"
  unfolding appended_def by (rule exI [of _ js'], rule exI [of _ "[]"]) simp

lemma appended_one:
  "list_all2 ingestion_kept js base \<Longrightarrow> ing_created_at j = t \<Longrightarrow> ing_document_id j \<in> docs \<Longrightarrow> ing_active j \<Longrightarrow>
   appended t docs js (base @ [j])"
  unfolding appended_def by (rule exI [of _ base], rule exI [of _ "[j]"]) simp

text \<open>An operation that leaves all tables valid and revives nothing.\<close>

definition quiet_effect :: "db \<Rightarrow> db \<Rightarrow> bool" where
  "quiet_effect d d' \<longleftrightarrow> (db_ok d \<longrightarrow> db_ok d') \<and> list_all2 document_kept (documents d) (documents d') \<and>
     list_all2 ingestion_kept (ingestion_jobs d) (ingestion_jobs d') \<and>
     list_all2 deletion_kept (deletion_jobs d) (deletion_jobs d') \<and>
     list_all2 reindex_kept (reindex_jobs d) (reindex_jobs d')"

lemma quiet_same [simp]: "quiet_effect d d"
  by (simp add: quiet_effect_def)

lemma quiet_then: "quiet_effect d1 d2 \<Longrightarrow> quiet_effect d2 d3 \<Longrightarrow> quiet_effect d1 d3"
  unfolding quiet_effect_def by (blast intro: all2_then)

lemma quiet_tables:
  "db_ok d' \<Longrightarrow> documents d' = documents d \<Longrightarrow> ingestion_jobs d' = ingestion_jobs d \<Longrightarrow> deletion_jobs d' = deletion_jobs d \<Longrightarrow>
   reindex_jobs d' = reindex_jobs d \<Longrightarrow> quiet_effect d d'"
  by (simp add: quiet_effect_def)

section \<open>The workers\<close>

lemma ingestion_status_kept: "ing_active j \<Longrightarrow> ingestion_kept j (set_ing_status st t j)" "ing_active j \<Longrightarrow> ingestion_kept j (fail_ingestion m t j)"
  by (simp_all add: ingestion_kept_def set_ing_status_def fail_ingestion_def)

lemma claimed_row:
  assumes ok: "db_ok d" and c: "claim_next_pending_job locked d = Some j"
    and k: "k \<in> set (ingestion_jobs d)" "ing_id k = ing_id j"
  shows "ing_active k"
  using claim_Some [OF c] row_by_id [OF ok k(1), of j] k(2) by (auto simp: ing_active_def)

lemma processed_hash:
  assumes "default_process_document pf s env now document job w = (Inr new, w')"
  shows "\<exists>doc. document = Some doc \<and> content_hash new = content_hash doc"
proof (cases document)
  case None
  with assms show ?thesis by (simp add: default_process_document_def call_raise_def)
next
  case (Some doc)
  from assms [unfolded Some] show ?thesis
    by (cases rule: process_cases) (auto simp: Some mark_document_indexed_def map_sum_def split: sum.splits)
qed

lemma flush_kept: "content_hash new = content_hash doc \<Longrightarrow> document_kept r (flush_document doc new r)"
  by (simp add: document_kept_def flush_document_def changed_def)

lemma documents_kept: "content_hash new = content_hash doc \<Longrightarrow>
    list_all2 document_kept (documents d) (documents (update_documents doc new d))"
  unfolding update_documents_def by (simp, rule all2_update) (simp_all add: flush_kept)

lemma ingestion_worker_quiet:
  assumes vi: "vector_index (pf_vector_store pf s) stored sizes" and ok: "db_ok (w_db w)"
    and run: "process_next_job pf s lib now (\<lambda>_ d. d) locked w = (r, w')"
  shows "quiet_effect (w_db w) (w_db w')"
  using run ok
proof (cases rule: process_next_cases)
  case idle
  then show ?thesis by simp
next
  case (processed claimed d pr w3)
  let ?job = "set_ing_status IngProcessing (now 0) claimed"
  note act = claimed_row [OF ok processed(1)]
  have d: "d = update_ingestion_job (ing_id claimed) (set_ing_status IngProcessing (now 0)) (w_db w)" using processed(2) by simp
  have okd: "db_ok d" using claim_commits [OF ok processed(1)] d by simp
  have q1: "quiet_effect (w_db w) d"
    unfolding quiet_effect_def d
    by (simp add: okd [unfolded d]) (intro all2_update, simp, erule (1) ingestion_status_kept(1) [OF act])
  have q2: "quiet_effect d (w_db w3)"
    using process_frame [OF vi processed(3)] okd by (auto intro: quiet_tables)
  have still: "ing_active k" if "k \<in> set (ingestion_jobs (w_db w3))" "ing_id k = ing_id claimed" for k
    using process_frame [OF vi processed(3)] that by (auto simp: d set_update_row ing_active_def)
  have "quiet_effect (w_db w3) (w_db w')"
  proof (cases pr)
    case (Inl e)
    with processed(4) still show ?thesis
      by (cases r) (auto simp: resolve_job_def others_def commit_update_Inr commit_update_Inl quiet_effect_def
          intro!: all2_update ingestion_status_kept split: if_splits)
  next
    case (Inr new)
    with processed_hash processed(3) obtain doc where doc: "get_document d (ing_document_id claimed) = Some doc"
      "content_hash new = content_hash doc" by metis
    with Inr processed(4) still show ?thesis
      by (cases r) (auto simp: resolve_job_def others_def commit_update_Inr commit_update_Inl quiet_effect_def
          intro!: all2_update ingestion_status_kept documents_kept split: if_splits)
  qed
  with q1 q2 show ?thesis by (blast intro: quiet_then)
qed

lemma reindex_update_quiet:
  assumes "db_ok d \<Longrightarrow> db_ok (update_reindex_job i f d)"
    and "\<And>k. k \<in> set (reindex_jobs d) \<Longrightarrow> rix_id k = i \<Longrightarrow> reindex_kept k (f k)"
  shows "quiet_effect d (update_reindex_job i f d)"
  using assms by (simp add: quiet_effect_def) (blast intro: all2_update kept_refl)

lemma flush_reindex_kept: "rix_status new \<in> {RixCompleted, RixFailed} \<Longrightarrow> reindex_kept k (flush_reindex job new k)"
  by (auto simp: reindex_kept_def flush_reindex_def changed_def rix_active_def)

lemma resolve_reindex_quiet:
  assumes "resolve_reindex (\<lambda>d. d) job new outcome w = (r, w')" "rix_status new \<in> {RixCompleted, RixFailed}"
  shows "quiet_effect (w_db w) (w_db w')"
  using assms
  by (cases r) (auto simp: resolve_reindex_def commit_update_Inr commit_update_Inl others_def intro!: reindex_update_quiet flush_reindex_kept)

lemma fail_job_quiet: "fail_job (\<lambda>d. d) now db_now job msg outcome w = (r, w') \<Longrightarrow> quiet_effect (w_db w) (w_db w')"
  unfolding fail_job_def by (erule resolve_reindex_quiet) simp

lemma reindex_worker_quiet:
  assumes vi: "\<And>t. vector_index (pf_vector_store pf t) stored sizes" and ok: "db_ok (w_db w)"
    and run: "process_next_reindex_job pf s lib now db_now (\<lambda>_ d. d) locked w = (r, w')"
  shows "quiet_effect (w_db w) (w_db w')"
proof (cases "claim_next_pending_reindex_job locked (w_db w)")
  case None
  with run show ?thesis by (simp add: process_next_reindex_job_def)
next
  case (Some claimed)
  let ?d = "update_reindex_job (rix_id claimed) (set_rix_processing (db_now 0)) (w_db w)"
  have okd: "db_ok ?d" by (rule claim_reindex_commits [OF ok Some])
  have q: "quiet_effect (w_db w) ?d"
    using okd claim_reindex [OF Some] reindex_row_unique [OF ok]
    by (intro reindex_update_quiet) (auto simp: reindex_kept_def rix_active_def)
  have b: "quiet_effect ?d (w_db w3)"
    if "build_reindex_target pf s (\<lambda>d. d) t doc target cs co (w\<lparr>w_db := ?d\<rparr>) = (x, w3)" for t doc target cs co x w3
    using build_frame [OF vi that] okd by (auto intro: quiet_tables)
  from ok Some run have "quiet_effect ?d (w_db w')"
  proof (cases rule: process_reindex_cases)
    case (refuse msg outcome)
    with fail_job_quiet [OF refuse(2)] show ?thesis by simp
  next
    case (failed doc target e w3)
    with b [OF failed(2)] show ?thesis by (auto dest!: fail_job_quiet intro: quiet_then split: option.splits)
  next
    case (built doc target res w3)
    with b [OF built(2)] resolve_reindex_quiet [OF built(3)] show ?thesis by (auto intro: quiet_then)
  qed simp
  with q show ?thesis by (rule quiet_then)
qed

lemma cleanup_quiet:
  assumes ok: "db_ok (w_db w)" and run: "process_next_vector_cleanup_job lib now (\<lambda>_ d. d) locked vs w = (r, w')"
  shows "quiet_effect (w_db w) (w_db w')"
proof -
  have c: "quiet_effect (w_db u) (w_db w')" if "commit_or_rollback (\<lambda>d. d) job new x u = (y, w')" for job new x u y
    using that by (cases rule: commit_or_rollback_cases) (auto simp: others_def intro: quiet_tables)
  from run show ?thesis
  proof (cases rule: process_cleanup_cases)
    case (ran job t)
    have o: "others (\<lambda>d. d) w = w" by (simp add: others_def)
    from ran(2) [unfolded o] show ?thesis by (cases rule: retry_cleanup_cases) (auto dest: c)
  qed simp
qed

lemma activation_quiet:
  assumes run: "activate_reindexed_document (\<lambda>_ d. d) new_id now db_now job_id d = (r, d')"
  shows "quiet_effect d d'"
  using run
proof (cases rule: activation_cases)
  case (activated job doc row)
  have "list_all2 document_kept (documents d) (documents (update_documents doc (serve_from now row doc) (vacate new_id db_now job d)))"
    using documents_kept [of "serve_from now row doc" doc "vacate new_id db_now job d"] by (simp add: serve_from_def)
  moreover have "list_all2 reindex_kept (reindex_jobs d) (update_row rix_id (rix_id job) (set_activated now db_now) (reindex_jobs d))"
    by (rule all2_update) (simp_all add: reindex_kept_def set_activated_def rix_active_def)
  ultimately show ?thesis using activated(9,10) by (simp add: quiet_effect_def)
qed auto

section \<open>Deletion\<close>

text \<open>A completed deletion has released the content hash.\<close>

definition released :: "db \<Rightarrow> bool" where
  "released d \<longleftrightarrow> (\<forall>k \<in> set (deletion_jobs d). del_status k = DelCompleted \<longrightarrow>
     (\<forall>doc \<in> set (documents d). doc_id doc = del_document_id k \<longrightarrow> content_hash doc = None))"

lemma released_quiet:
  assumes "released d" "list_all2 document_kept (documents d) (documents d')"
    "list_all2 deletion_kept (deletion_jobs d) (deletion_jobs d')"
  shows "released d'"
  unfolding released_def
proof (intro ballI impI)
  fix k doc assume k: "k \<in> set (deletion_jobs d')" "del_status k = DelCompleted"
    and doc: "doc \<in> set (documents d')" "doc_id doc = del_document_id k"
  obtain k0 where "k0 \<in> set (deletion_jobs d)" "deletion_kept k0 k" using all2_set [OF assms(3) k(1)] by blast
  moreover obtain doc0 where "doc0 \<in> set (documents d)" "document_kept doc0 doc" using all2_set [OF assms(2) doc(1)] by blast
  ultimately show "content_hash doc = None"
    using assms(1) k(2) doc(2) by (auto simp: released_def deletion_kept_def document_kept_def)
qed

definition deletion_effect :: "db \<Rightarrow> db \<Rightarrow> bool" where
  "deletion_effect d d' \<longleftrightarrow> db_ok d' \<and> ingestion_jobs d' = ingestion_jobs d \<and> reindex_jobs d' = reindex_jobs d \<and>
     list_all2 document_kept (documents d) (documents d') \<and>
     list_all2 (\<lambda>a b. del_id b = del_id a \<and> del_document_id b = del_document_id a) (deletion_jobs d) (deletion_jobs d') \<and>
     (released d \<longrightarrow> released d')"

lemma deletion_then:
  assumes "deletion_effect d1 d2" "deletion_effect d2 d3"
  shows "deletion_effect d1 d3"
proof -
  have "list_all2 (\<lambda>a b. del_id b = del_id a \<and> del_document_id b = del_document_id a) (deletion_jobs d1) (deletion_jobs d3)"
    using assms by (auto simp: deletion_effect_def elim: list_all2_trans [rotated])
  with assms all2_then(1) show ?thesis unfolding deletion_effect_def by auto
qed

lemma deletion_same [simp]: "deletion_effect d d \<longleftrightarrow> db_ok d"
  by (simp add: deletion_effect_def)

lemma deletion_update:
  assumes "db_ok (update_deletion_job i f d)" and "\<And>k. k \<in> set (deletion_jobs d) \<Longrightarrow> del_id k = i \<Longrightarrow> deletion_kept k (f k) \<and> del_id (f k) = del_id k"
  shows "deletion_effect d (update_deletion_job i f d)"
proof -
  have "list_all2 deletion_kept (deletion_jobs d) (update_row del_id i f (deletion_jobs d))"
    "list_all2 (\<lambda>a b. del_id b = del_id a \<and> del_document_id b = del_document_id a) (deletion_jobs d) (update_row del_id i f (deletion_jobs d))"
    using assms(2) by (auto intro!: all2_update simp: deletion_kept_def)
  with assms(1) released_quiet [of d "update_deletion_job i f d"] show ?thesis by (simp add: deletion_effect_def)
qed

lemma resolve_deletion_effect:
  assumes ok: "db_ok (w_db w)" and run: "resolve_deletion (\<lambda>d. d) loaded new w = (r, w')"
    and st: "del_status new \<noteq> DelCompleted"
  shows "deletion_effect (w_db w) (w_db w')"
proof (cases r)
  case (Inl e)
  with run ok show ?thesis by (auto simp: resolve_deletion_def commit_update_Inl others_def)
next
  case (Inr x)
  with run have "w_db w' = update_deletion_job (del_id loaded) (flush_deletion loaded new) (w_db w)"
    "db_ok (update_deletion_job (del_id loaded) (flush_deletion loaded new) (w_db w))"
    by (auto simp: resolve_deletion_def commit_update_Inr others_def save_deletion_def)
  with deletion_update [OF this(2)] st show ?thesis
    by (auto simp: deletion_kept_def flush_deletion_def changed_def)
qed

lemma document_row_unique: "db_ok d \<Longrightarrow> a \<in> set (documents d) \<Longrightarrow> b \<in> set (documents d) \<Longrightarrow> doc_id a = doc_id b \<Longrightarrow> a = b"
  by (auto simp: db_ok_checks check_None distinct_map inj_on_def)

lemma completion_effect:
  assumes ok: "db_ok d" and ok': "db_ok d'"
    and d': "d' = save_deletion job new (update_documents doc (doc\<lparr>content_hash := None\<rparr>) d)"
    and doc: "doc \<in> set (documents d)" "\<And>k. k \<in> set (deletion_jobs d) \<Longrightarrow> del_id k = del_id job \<Longrightarrow> del_document_id k = doc_id doc"
  shows "deletion_effect d d'"
proof -
  let ?f = "flush_document doc (doc\<lparr>content_hash := None\<rparr>)"
  have docs: "documents d' = update_row doc_id (doc_id doc) ?f (documents d)"
    "deletion_jobs d' = update_row del_id (del_id job) (flush_deletion job new) (deletion_jobs d)"
    by (simp_all add: d' save_deletion_def update_documents_def)
  have kd: "list_all2 document_kept (documents d) (documents d')"
    unfolding docs by (rule all2_update) (auto simp: document_kept_def flush_document_def changed_def)
  have cleared: "content_hash r = None" if "r \<in> set (documents d')" "doc_id r = doc_id doc" for r
    using that by (auto simp: docs set_update_row flush_document_def changed_def dest: document_row_unique [OF ok _ doc(1)])
  have "released d'" if rel: "released d"
    unfolding released_def
  proof (intro ballI impI)
    fix k r assume k: "k \<in> set (deletion_jobs d')" "del_status k = DelCompleted" and r: "r \<in> set (documents d')" "doc_id r = del_document_id k"
    show "content_hash r = None"
    proof (cases "del_document_id k = doc_id doc")
      case False
      then have "k \<in> set (deletion_jobs d)" using k(1) doc(2) by (auto simp: docs set_update_row)
      moreover obtain r0 where "r0 \<in> set (documents d)" "document_kept r0 r" using all2_set [OF kd r(1)] by blast
      ultimately show ?thesis using rel k(2) r(2) by (auto simp: released_def document_kept_def)
    qed (use cleared r in simp)
  qed
  moreover have "list_all2 (\<lambda>a b. del_id b = del_id a \<and> del_document_id b = del_document_id a) (deletion_jobs d) (deletion_jobs d')"
    unfolding docs by (rule all2_update) simp_all
  ultimately show ?thesis using ok' kd by (simp add: deletion_effect_def d' save_deletion_def)
qed

lemma finish_deletion_effect:
  assumes ok: "db_ok (w_db w)" and run: "finish_deletion fs now db_now (\<lambda>d. d) doc job w = (r, w')"
    and doc: "doc \<in> set (documents (w_db w))" "\<And>k. k \<in> set (deletion_jobs (w_db w)) \<Longrightarrow> del_id k = del_id job \<Longrightarrow> del_document_id k = doc_id doc"
  shows "deletion_effect (w_db w) (w_db w')"
proof (cases "fs_delete fs (resolve_document_storage_key doc) (w_files w)")
  case (Pair x s)
  let ?done = "deletion_completed (now 2) (db_now 2) job"
  show ?thesis
  proof (cases x)
    case (Inl e)
    show ?thesis
    proof (cases "\<exists>m. e = StorageErr m")
      case True
      then obtain m where e: "e = StorageErr m" by blast
      have "resolve_deletion (\<lambda>d. d) job (partially_failed DocumentStorageCleanupFailed (storage_message m) (db_now 2) job)
          (w\<lparr>w_files := s\<rparr>) = (r, w')"
        using run Pair Inl e by (simp add: finish_deletion_def on_files_def)
      from resolve_deletion_effect [OF _ this] ok show ?thesis by simp
    next
      case False
      then have "w' = w\<lparr>w_files := s\<rparr>"
        using run Pair Inl by (cases e) (auto simp: finish_deletion_def on_files_def)
      with ok show ?thesis by simp
    qed
  next
    case (Inr u)
    with run Pair have c: "commit_update (\<lambda>d. save_deletion job ?done (update_documents doc (doc\<lparr>content_hash := None\<rparr>) d)) (Some ?done)
        (w\<lparr>w_files := s\<rparr>) = (r, w')"
      by (simp add: finish_deletion_def on_files_def Let_def others_def)
    show ?thesis
    proof (cases r)
      case (Inl e)
      with c ok show ?thesis by (auto simp: commit_update_Inl)
    next
      case (Inr y)
      with c have c': "w_db w' = save_deletion job ?done (update_documents doc (doc\<lparr>content_hash := None\<rparr>) (w_db w))"
        "db_ok (save_deletion job ?done (update_documents doc (doc\<lparr>content_hash := None\<rparr>) (w_db w)))"
        by (simp_all add: commit_update_Inr)
      show ?thesis by (rule completion_effect [OF ok _ c'(1) doc]) (simp_all add: c')
    qed
  qed
qed

lemma deletion_worker_effect:
  assumes ok: "db_ok (w_db w)" and run: "process_next_deletion vs fs lib now db_now (\<lambda>_ d. d) locked w = (r, w')"
  shows "deletion_effect (w_db w) (w_db w')"
proof (cases "claim_next_pending_deletion locked (w_db w)")
  case None
  with run ok show ?thesis by (simp add: process_next_deletion_def)
next
  case (Some claimed)
  let ?job = "set_del_processing (db_now 0) claimed" and ?d = "claimed_db (\<lambda>_ d. d) db_now claimed (w_db w)"
  have d: "?d = update_deletion_job (del_id claimed) (set_del_processing (db_now 0)) (w_db w)" by (simp add: claimed_db_def)
  have okd: "db_ok ?d" unfolding d by (rule claim_deletion_commits [OF ok Some])
  have q: "deletion_effect (w_db w) ?d"
    unfolding d using okd by (intro deletion_update) (auto simp: d deletion_kept_def set_del_processing_def)
  have row: "del_document_id k = del_document_id claimed" if "k \<in> set (deletion_jobs ?d)" "del_id k = del_id claimed" for k
    using that by (auto simp: d set_update_row dest: deletion_row_unique [OF ok _ claim_deletion [OF Some, THEN conjunct1]])
  have go: "deletion_effect ?d (w_db u)"
    if "resolve_deletion (\<lambda>d. d) ?job new w2 = (x, u)" "w_db w2 = ?d" "del_status new \<noteq> DelCompleted" for new w2 x u
    using resolve_deletion_effect [OF _ that(1,3)] okd that(2) by simp
  from ok Some run have "deletion_effect ?d (w_db w')"
  proof (cases rule: process_deletion_cases)
    case (missing msg)
    with go [OF missing(2) [unfolded id_def]] show ?thesis by simp
  next
    case (vectors doc result v)
    with go [OF vectors(4)] show ?thesis by simp
  next
    case (rejected doc result v e)
    with go [OF rejected(5)] show ?thesis by simp
  next
    case (cleaned doc result v w3)
    from go [OF cleaned(4)] have e: "deletion_effect ?d (w_db w3)" by simp
    have doc: "doc \<in> set (documents ?d)" "doc_id doc = del_document_id claimed"
      using cleaned(1) get_row_Some [of doc_id "del_document_id claimed"] by (auto simp: get_document_def)
    have w3: "documents (w_db w3) = documents ?d"
      using cleaned(4) by (auto simp: resolve_deletion_def commit_update_Inr others_def)
    have "del_document_id k = doc_id doc" if k: "k \<in> set (deletion_jobs (w_db w3))" "del_id k = del_id claimed" for k
    proof -
      obtain k0 where "k0 \<in> set (deletion_jobs ?d)" "del_id k = del_id k0" "del_document_id k = del_document_id k0"
        using e all2_set [OF _ k(1)] unfolding deletion_effect_def by blast
      with row k(2) doc(2) show ?thesis by simp
    qed
    with finish_deletion_effect [OF _ cleaned(5)] e doc(1) w3 have "deletion_effect (w_db w3) (w_db w')"
      by (simp add: deletion_effect_def)
    with e show ?thesis by (rule deletion_then)
  qed
  with q show ?thesis by (rule deletion_then)
qed

section \<open>Operations that append rows\<close>

lemma deletion_request_effect:
  assumes "request_document_deletion (\<lambda>_ d. d) i t doc d = (r, d')"
  shows "d' = d \<or> (db_ok d' \<and> d' = add_deletion_job (new_deletion_job i doc t) d \<and>
    latest_active_ingestion_job d doc = None \<and> get_active_reindex_job d doc = None)"
  using assms
  by (auto simp: request_document_deletion_def Let_def commit_Inr split: option.splits if_splits sum.splits db_error.splits)

text \<open>The tables a new ingestion job leaves alone, and what it does to its own.\<close>

definition ingestion_effect :: "time \<Rightarrow> ustr set \<Rightarrow> db \<Rightarrow> db \<Rightarrow> bool" where
  "ingestion_effect t docs d d' \<longleftrightarrow> db_ok d' \<and> deletion_jobs d' = deletion_jobs d \<and> reindex_jobs d' = reindex_jobs d \<and>
     appended t docs (ingestion_jobs d) (ingestion_jobs d')"

lemma ingestion_same: "db_ok d \<Longrightarrow> ingestion_effect t docs d d"
  by (simp add: ingestion_effect_def appended_none)

lemma mark_stale_kept: "list_all2 ingestion_kept js (update_row ing_id i (mark_stale n t) js)"
  by (rule all2_update) (simp_all add: ingestion_kept_def mark_stale_def fail_ingestion_def ing_active_def)

lemma retry_effect:
  assumes ok: "db_ok d" and run: "retry_ingestion (\<lambda>_ d. d) i now t n doc d = (r, d')"
  shows "ingestion_effect t {doc} d d' \<and> documents d' = documents d \<and> (d' = d \<or> get_latest_deletion_job d doc = None)"
proof (cases "d' = d")
  case True
  then show ?thesis by (simp add: ingestion_same ok)
next
  case False
  let ?new = "create_pending_job i doc t"
  obtain base where d': "d' = add_ingestion_job ?new base" "db_ok d'" "get_latest_deletion_job d doc = None"
    "base = d \<or> (\<exists>k. base = update_ingestion_job k (mark_stale n t) d)"
    using run False
    by (simp add: retry_ingestion_def Let_def commit_Inr split: option.splits if_splits sum.splits db_error.splits) blast+
  have "list_all2 ingestion_kept (ingestion_jobs d) (ingestion_jobs base)"
    using d'(4) by (auto simp: mark_stale_kept)
  then have "appended t {doc} (ingestion_jobs d) (ingestion_jobs d')"
    unfolding d'(1) add_ingestion_job_def by (auto intro: appended_one simp: create_pending_job_def ing_active_def)
  with d' show ?thesis by (auto simp: ingestion_effect_def add_ingestion_job_def)
qed

lemma upload_effect:
  assumes ok: "db_ok d" and run: "upload_document fs s (\<lambda>_ d. d) ids t content filename ctype (f, d) = (r, f', d')"
  shows "ingestion_effect t {up_document_id ids} d d' \<and>
    (documents d' = documents d \<or> (\<exists>doc. documents d' = documents d @ [doc] \<and> doc_id doc = up_document_id ids))"
  using run
proof (cases rule: upload_cases)
  case (created stored)
  have "appended t {up_document_id ids} (ingestion_jobs d) (ingestion_jobs d @ [new_ingestion_job ids t])"
    by (rule appended_one) (simp_all add: new_ingestion_job_def ing_active_def)
  with created(4,5) show ?thesis by (simp add: ingestion_effect_def add_upload_def)
qed (use ok in \<open>auto simp: ingestion_same\<close>)

lemma schedule_effect:
  assumes vi: "vector_index vs stored sizes" and ok: "db_ok d"
    and run: "schedule_reindex (\<lambda>_ d. d) i t doc vs target cs co (v, d) = (r, v', d')"
  shows "db_ok d' \<and> documents d' = documents d \<and> ingestion_jobs d' = ingestion_jobs d \<and> deletion_jobs d' = deletion_jobs d \<and>
    (reindex_jobs d' = reindex_jobs d \<or> (get_latest_deletion_job d (doc_id doc) = None \<and>
       (\<exists>j. reindex_jobs d' = reindex_jobs d @ [j] \<and> rix_document_id j = doc_id doc)))"
  using run
proof (cases rule: schedule_cases)
  case (answered res)
  with ok show ?thesis by simp
next
  case (ensure e)
  with ensure_frame [OF vi ensure(2)] ok show ?thesis by simp
next
  case (insert source d1)
  have d1: "db_ok d1" "documents d1 = documents d" "ingestion_jobs d1 = ingestion_jobs d" "deletion_jobs d1 = deletion_jobs d"
    "reindex_jobs d1 = reindex_jobs d"
    using ensure_frame [OF vi insert(3)] ok by simp_all
  from d1(1) insert(5) show ?thesis
    by (cases rule: insert_or_reload_cases) (auto simp: d1 insert(4) add_reindex_job_def)
qed

text \<open>Recovery: rows change only for the jobs of the batch, and every replacement is of one of them.\<close>

definition marked :: "ustr set \<Rightarrow> ingestion_job \<Rightarrow> ingestion_job \<Rightarrow> bool" where
  "marked ids a b \<longleftrightarrow> ingestion_kept a b \<and> (b = a \<or> ing_id a \<in> ids)"

lemma marked_trans: "marked A a b \<Longrightarrow> marked B b c \<Longrightarrow> A \<subseteq> C \<Longrightarrow> B \<subseteq> C \<Longrightarrow> marked C a c"
  using kept_trans(2) by (fastforce simp: marked_def ingestion_kept_def)

lemma marked_stale: "i \<in> ids \<Longrightarrow> list_all2 (marked ids) js (update_row ing_id i (mark_stale n t) js)"
  by (rule all2_update) (auto simp: marked_def ingestion_kept_def mark_stale_def fail_ingestion_def ing_active_def)

lemma recover_loop_effect:
  assumes "recover_loop n now t new_id k js d = (rs, d')"
  shows "\<exists>base new. ingestion_jobs d' = base @ new \<and> list_all2 (marked (ing_id ` set js)) (ingestion_jobs d) base \<and>
    map ing_document_id new = map ing_document_id (filter (stale_at n now) js) \<and>
    (\<forall>j \<in> set new. ing_created_at j = t \<and> (ing_active j \<or> ing_id j \<in> ing_id ` set js)) \<and>
    documents d' = documents d \<and> deletion_jobs d' = deletion_jobs d \<and> reindex_jobs d' = reindex_jobs d"
  using assms
proof (induction js arbitrary: k d rs)
  case Nil
  then show ?case by (intro exI [of _ "ingestion_jobs d'"] exI [of _ "[]"]) (simp add: marked_def)
next
  case (Cons j js)
  show ?case
  proof (cases "stale_at n now j")
    case False
    with Cons.prems have "recover_loop n now t new_id k js d = (rs, d')" by (simp add: stale_at_def)
    from Cons.IH [OF this] obtain base new where r: "ingestion_jobs d' = base @ new"
      "list_all2 (marked (ing_id ` set js)) (ingestion_jobs d) base"
      "map ing_document_id new = map ing_document_id (filter (stale_at n now) js)"
      "\<forall>j \<in> set new. ing_created_at j = t \<and> (ing_active j \<or> ing_id j \<in> ing_id ` set js)"
      "documents d' = documents d" "deletion_jobs d' = deletion_jobs d" "reindex_jobs d' = reindex_jobs d" by blast
    have "list_all2 (marked (ing_id ` set (j # js))) (ingestion_jobs d) base"
      using r(2) by (rule list_all2_mono) (auto simp: marked_def)
    with r False show ?thesis by (intro exI [of _ base] exI [of _ new]) auto
  next
    case True
    let ?u = "update_row ing_id (ing_id j) (mark_stale n t) (ingestion_jobs d)"
    let ?new = "create_pending_job (new_id k) (ing_document_id j) t"
    let ?d = "add_ingestion_job ?new (update_ingestion_job (ing_id j) (mark_stale n t) d)"
    have d: "ingestion_jobs ?d = ?u @ [?new]" "documents ?d = documents d" "deletion_jobs ?d = deletion_jobs d"
      "reindex_jobs ?d = reindex_jobs d" by (simp_all add: add_ingestion_job_def)
    from True Cons.prems obtain ss where "recover_loop n now t new_id (Suc k) js ?d = (ss, d')"
      by (auto simp: stale_at_def Let_def split: prod.splits)
    from Cons.IH [OF this] obtain base1 new1 where r: "ingestion_jobs d' = base1 @ new1"
      "list_all2 (marked (ing_id ` set js)) (?u @ [?new]) base1"
      "map ing_document_id new1 = map ing_document_id (filter (stale_at n now) js)"
      "\<forall>j \<in> set new1. ing_created_at j = t \<and> (ing_active j \<or> ing_id j \<in> ing_id ` set js)"
      "documents d' = documents d" "deletion_jobs d' = deletion_jobs d" "reindex_jobs d' = reindex_jobs d"
      unfolding d by blast
    from r(2) obtain base x where b: "base1 = base @ [x]" "list_all2 (marked (ing_id ` set js)) ?u base" "marked (ing_id ` set js) ?new x"
      by (auto simp: list_all2_append1 list_all2_Cons1)
    have "list_all2 (marked (ing_id ` set (j # js))) (ingestion_jobs d) ?u" by (rule marked_stale) simp
    then have "list_all2 (marked (ing_id ` set (j # js))) (ingestion_jobs d) base"
      using b(2) by (rule list_all2_trans [rotated]) (auto intro: marked_trans)
    moreover have "ing_document_id x = ing_document_id j" "ing_created_at x = t" "ing_active x \<or> ing_id x \<in> ing_id ` set js"
      using b(3) by (auto simp: marked_def ingestion_kept_def) (auto simp: create_pending_job_def)
    ultimately show ?thesis
      using r b(1) True by (intro exI [of _ base] exI [of _ "x # new1"]) auto
  qed
qed

lemma candidate_documents:
  assumes "db_ok d"
  shows "distinct (map ing_document_id (filter P (stale_candidates locked b d)))"
proof -
  let ?cs = "stale_candidates locked b d"
  have "distinct ?cs" using candidates_distinct [OF assms, of locked b] by (simp add: distinct_map)
  moreover have "inj_on ing_document_id (set ?cs)"
    using ing_table.active_unique [OF assms] candidates_in by (intro inj_onI) (meson ing_active_def)
  ultimately show ?thesis by (auto simp: distinct_map intro: inj_on_subset)
qed

lemma recovery_effect:
  assumes ok: "db_ok d" and run: "recover_stale_ingestion_jobs (\<lambda>d. d) locked new_id b n now t d = (r, d')"
  shows "ingestion_effect t {ing_document_id j | j. j \<in> set (ingestion_jobs d) \<and> ing_active j} d d' \<and> documents d' = documents d"
proof -
  let ?cs = "stale_candidates locked b d" and ?docs = "{ing_document_id j | j. j \<in> set (ingestion_jobs d) \<and> ing_active j}"
  obtain rs d1 where loop: "recover_loop n now t new_id 0 ?cs d = (rs, d1)" by fastforce
  show ?thesis
  proof (cases "d' = d")
    case True
    then show ?thesis by (simp add: ingestion_same ok)
  next
    case False
    with run loop have d': "d' = d1" "db_ok d'"
      by (auto simp: recover_stale_ingestion_jobs_def commit_Inr split: if_splits sum.splits)
    from recover_loop_effect [OF loop] obtain base new where e: "ingestion_jobs d' = base @ new"
      "list_all2 (marked (ing_id ` set ?cs)) (ingestion_jobs d) base"
      "map ing_document_id new = map ing_document_id (filter (stale_at n now) ?cs)"
      "\<forall>j \<in> set new. ing_created_at j = t \<and> (ing_active j \<or> ing_id j \<in> ing_id ` set ?cs)"
      "documents d' = documents d" "deletion_jobs d' = deletion_jobs d" "reindex_jobs d' = reindex_jobs d"
      unfolding d' by blast
    have kept: "list_all2 ingestion_kept (ingestion_jobs d) base"
      using e(2) by (rule list_all2_mono) (simp add: marked_def)
    have fresh: "ing_id j \<notin> ing_id ` set ?cs" if "j \<in> set new" for j
    proof
      assume "ing_id j \<in> ing_id ` set ?cs"
      then obtain c where "c \<in> set (ingestion_jobs d)" "ing_id c = ing_id j" using candidates_in by fastforce
      then obtain a where "a \<in> set base" "ing_id a = ing_id j"
        using all2_set_back [OF kept, of c] by (auto simp: ingestion_kept_def)
      with that ing_table.primary_key [OF d'(2)] show False by (fastforce simp: e(1))
    qed
    have "ing_document_id j \<in> ?docs" if "j \<in> set new" for j
    proof -
      have "ing_document_id j \<in> set (map ing_document_id (filter (stale_at n now) ?cs))" using that e(3) by (metis imageI list.set_map)
      then show ?thesis using candidates_in by (fastforce simp: ing_active_def)
    qed
    then have "appended t ?docs (ingestion_jobs d) (ingestion_jobs d')"
      unfolding appended_def using e(1,3,4) kept fresh candidate_documents [OF ok, of "stale_at n now"]
      by (intro exI [of _ base] exI [of _ new]) auto
    with d' e show ?thesis by (simp add: ingestion_effect_def)
  qed
qed

end
