(* ===== verification/Lifecycle.thy ===== *)
theory Lifecycle
  imports Effects
begin

text \<open>
  The life of the system as a step relation: each step is one whole operation of an endpoint, a worker or
  an operator script on the shared world, with nobody committing in between.  By rule induction over the
  steps from an empty database: a document that was ever scheduled for deletion has no active ingestion
  and no active re-index, a completed deletion has released its content hash, and every document has an
  ingestion job; the last section interleaves two requests and shows what the first of these rests on.
\<close>

section \<open>Steps\<close>

abbreviation alone :: "nat \<Rightarrow> db \<Rightarrow> db" where
  "alone \<equiv> \<lambda>_ d. d"

text \<open>The database's clock is past every ingestion job it has created.\<close>

definition later :: "db \<Rightarrow> time \<Rightarrow> bool" where
  "later d t \<longleftrightarrow> (\<forall>j \<in> set (ingestion_jobs d). ing_created_at j < t)"

inductive step :: "('f, 'e, 'v) platform \<Rightarrow> settings \<Rightarrow> (exn \<Rightarrow> ustr) \<Rightarrow> ('f, 'e, 'v) world \<Rightarrow> ('f, 'e, 'v) world \<Rightarrow> bool"
  for pf s lib where
  upload: "upload_document (pf_storage pf) s alone ids t content filename ctype (w_files w, w_db w) = (r, f, d) \<Longrightarrow>
     later (w_db w) t \<Longrightarrow> step pf s lib w (w\<lparr>w_files := f, w_db := d\<rparr>)"
| request_deletion: "request_document_deletion (\<lambda>_ d. d) i t doc (w_db w) = (r, d) \<Longrightarrow> step pf s lib w (w\<lparr>w_db := d\<rparr>)"
| retry: "retry_ingestion alone i now t n doc (w_db w) = (r, d) \<Longrightarrow> later (w_db w) t \<Longrightarrow> step pf s lib w (w\<lparr>w_db := d\<rparr>)"
| recover: "recover_stale_ingestion_jobs (\<lambda>d. d) locked new_id b n now t (w_db w) = (r, d) \<Longrightarrow> later (w_db w) t \<Longrightarrow>
     step pf s lib w (w\<lparr>w_db := d\<rparr>)"
| schedule: "schedule_reindex alone i t doc (pf_vector_store pf s) target cs co (w_index w, w_db w) = (r, v, d) \<Longrightarrow>
     step pf s lib w (w\<lparr>w_index := v, w_db := d\<rparr>)"
| activate: "activate_reindexed_document alone i now t job_id (w_db w) = (r, d) \<Longrightarrow> step pf s lib w (w\<lparr>w_db := d\<rparr>)"
| ingest: "process_next_job pf s lib clock alone locked w = (r, w') \<Longrightarrow> step pf s lib w w'"
| delete: "process_next_deletion (pf_vector_store pf s) (pf_storage pf) lib clock db_clock alone locked w = (r, w') \<Longrightarrow>
     step pf s lib w w'"
| reindex: "process_next_reindex_job pf s lib clock db_clock alone locked w = (r, w') \<Longrightarrow> step pf s lib w w'"
| cleanup: "process_next_vector_cleanup_job lib t alone locked (pf_vector_store pf s) w = (r, w') \<Longrightarrow> step pf s lib w w'"

section \<open>The invariants\<close>

definition deleting :: "db \<Rightarrow> ustr set" where
  "deleting d = del_document_id ` set (deletion_jobs d)"

definition ingesting :: "db \<Rightarrow> ustr set" where
  "ingesting d = ing_document_id ` {j \<in> set (ingestion_jobs d). ing_active j}"

definition reindexing :: "db \<Rightarrow> ustr set" where
  "reindexing d = rix_document_id ` {j \<in> set (reindex_jobs d). rix_active j}"

definition exclusive :: "db \<Rightarrow> bool" where
  "exclusive d \<longleftrightarrow> deleting d \<inter> (ingesting d \<union> reindexing d) = {}"

definition latest_active :: "db \<Rightarrow> bool" where
  "latest_active d \<longleftrightarrow> (\<forall>j \<in> set (ingestion_jobs d). ing_active j \<longrightarrow> get_latest_ingestion_job d (ing_document_id j) = Some j)"

definition scheduled :: "db \<Rightarrow> bool" where
  "scheduled d \<longleftrightarrow> doc_id ` set (documents d) \<subseteq> ing_document_id ` set (ingestion_jobs d)"

definition sound :: "db \<Rightarrow> bool" where
  "sound d \<longleftrightarrow> db_ok d \<and> exclusive d \<and> latest_active d \<and> released d \<and> scheduled d"

lemma exists_later: "\<exists>t. later d t"
proof -
  have "\<exists>t. \<forall>j \<in> set js. ing_created_at j < t" for js
  proof (induction js)
    case (Cons j js)
    then obtain t where "\<forall>j \<in> set js. ing_created_at j < t" ..
    then show ?case by (intro exI [of _ "max t (ing_created_at j + 1)"]) auto
  qed simp
  then show ?thesis by (simp add: later_def)
qed

text \<open>An active job stays the latest of its document while jobs are only updated in place or appended later.\<close>

lemma latest_ingestionI:
  assumes "db_ok d" "j \<in> set (ingestion_jobs d)"
    and "\<And>k. k \<in> set (ingestion_jobs d) \<Longrightarrow> ing_document_id k = ing_document_id j \<Longrightarrow> row_key ing_created_at ing_id k \<le> row_key ing_created_at ing_id j"
  shows "get_latest_ingestion_job d (ing_document_id j) = Some j"
  unfolding get_latest_ingestion_job_def latest_of_def
proof (rule latest_by_unique)
  show "inj_on (row_key ing_created_at ing_id) (set (filter (\<lambda>k. ing_document_id k = ing_document_id j) (ingestion_jobs d)))"
    using ing_table.distinct_keys [OF assms(1)] by (simp add: distinct_map)
qed (use assms in auto)

lemma latest_appended:
  assumes ok: "db_ok d'" and lat: "latest_active d" and t: "later d t"
    and app: "appended t docs (ingestion_jobs d) (ingestion_jobs d')"
  shows "latest_active d'"
  unfolding latest_active_def
proof (intro ballI impI)
  fix j assume j: "j \<in> set (ingestion_jobs d')" "ing_active j"
  from app obtain base new where a: "ingestion_jobs d' = base @ new" "list_all2 ingestion_kept (ingestion_jobs d) base"
    "distinct (map ing_document_id new)" "\<forall>k \<in> set new. ing_created_at k = t \<and> ing_active k"
    by (auto simp: appended_def)
  have old: "\<exists>k0 \<in> set (ingestion_jobs d). ingestion_kept k0 k" if "k \<in> set base" for k
    using all2_set [OF a(2) that] .
  have early: "ing_created_at k < t" if "k \<in> set base" for k
    using old [OF that] t by (auto simp: later_def ingestion_kept_def)
  show "get_latest_ingestion_job d' (ing_document_id j) = Some j"
  proof (rule latest_ingestionI [OF ok j(1)])
    fix k assume k: "k \<in> set (ingestion_jobs d')" "ing_document_id k = ing_document_id j"
    show "row_key ing_created_at ing_id k \<le> row_key ing_created_at ing_id j"
    proof (cases "k \<in> set new \<or> j \<in> set new")
      case True
      then have "k = j \<or> (k \<in> set base \<and> j \<in> set new)"
        using a(1,3,4) k j ing_table.active_unique [OF ok k(1) j(1)] by auto
      then show ?thesis using early a(4) by (auto simp: row_key_def less_eq_prod_def)
    next
      case False
      with j(1) k(1) a(1) old obtain j0 k0 where o: "j0 \<in> set (ingestion_jobs d)" "ingestion_kept j0 j"
        "k0 \<in> set (ingestion_jobs d)" "ingestion_kept k0 k" by auto blast
      then have "get_latest_ingestion_job d (ing_document_id j) = Some j0"
        using lat j(2) by (auto simp: latest_active_def ingestion_kept_def)
      from latest_of_greatest [OF this [unfolded get_latest_ingestion_job_def] o(3)] o k(2) show ?thesis
        by (simp add: ingestion_kept_def row_key_def)
    qed
  qed
qed

lemma exclusiveI:
  assumes "exclusive d" "deleting d' \<subseteq> deleting d \<union> X" "ingesting d' \<subseteq> ingesting d \<union> Y" "reindexing d' \<subseteq> reindexing d \<union> Z"
    and "X \<inter> (ingesting d \<union> reindexing d) = {}" "(Y \<union> Z) \<inter> deleting d = {}" "X \<inter> (Y \<union> Z) = {}"
  shows "exclusive d'"
  using assms unfolding exclusive_def by blast

lemma ingesting_kept: "appended t docs (ingestion_jobs d) (ingestion_jobs d') \<Longrightarrow> ingesting d' \<subseteq> ingesting d \<union> docs"
  unfolding appended_def ingesting_def
  by (clarsimp simp: ingestion_kept_def) (metis (mono_tags, lifting) all2_set image_eqI ingestion_kept_def mem_Collect_eq)

lemma scheduled_kept:
  assumes "list_all2 ingestion_kept (ingestion_jobs d) base"
  shows "ing_document_id ` set base = ing_document_id ` set (ingestion_jobs d)"
  using assms by (induction rule: list_all2_induct) (auto simp: ingestion_kept_def)

lemma same_documents: "list_all2 document_kept as bs \<Longrightarrow> doc_id ` set bs = doc_id ` set as"
  by (induction rule: list_all2_induct) (auto simp: document_kept_def)

lemma same_deleting: "list_all2 (\<lambda>a b. del_document_id b = del_document_id a) ks ks' \<Longrightarrow>
    del_document_id ` set ks' = del_document_id ` set ks"
  by (induction rule: list_all2_induct) auto

lemma reindexing_kept: "list_all2 reindex_kept (reindex_jobs d) (reindex_jobs d') \<Longrightarrow> reindexing d' \<subseteq> reindexing d"
  unfolding reindexing_def using all2_set [of reindex_kept "reindex_jobs d" "reindex_jobs d'"]
  by (fastforce simp: reindex_kept_def)

section \<open>Every step keeps them\<close>

lemma sound_quiet:
  assumes "sound d" "quiet_effect d d'"
  shows "sound d'"
proof -
  obtain t where t: "later d t" using exists_later by blast
  from assms have ok: "db_ok d" "db_ok d'" and k: "list_all2 document_kept (documents d) (documents d')"
    "list_all2 ingestion_kept (ingestion_jobs d) (ingestion_jobs d')" "list_all2 deletion_kept (deletion_jobs d) (deletion_jobs d')"
    "list_all2 reindex_kept (reindex_jobs d) (reindex_jobs d')"
    by (auto simp: sound_def quiet_effect_def)
  note app = appended_none [OF k(2)]
  have "deleting d' = deleting d"
    unfolding deleting_def using k(3) by (intro same_deleting) (auto elim: list_all2_mono simp: deletion_kept_def)
  then have "exclusive d'"
    using exclusiveI [of d d' "{}" "{}" "{}"] assms(1) ingesting_kept [OF app, of "{}"] reindexing_kept [OF k(4)]
    by (simp add: sound_def)
  moreover have "scheduled d'"
    using assms(1) scheduled_kept [OF k(2)] same_documents [OF k(1)] by (simp add: sound_def scheduled_def)
  ultimately show ?thesis
    using assms(1) ok latest_appended [OF ok(2) _ t app] released_quiet [OF _ k(1,3)] by (simp add: sound_def)
qed

lemma sound_deletion:
  assumes "sound d" "deletion_effect d d'"
  shows "sound d'"
proof -
  have e: "db_ok d'" "ingestion_jobs d' = ingestion_jobs d" "reindex_jobs d' = reindex_jobs d"
    "list_all2 document_kept (documents d) (documents d')" "released d'"
    using assms by (auto simp: sound_def deletion_effect_def)
  have "deleting d' = deleting d"
    unfolding deleting_def using assms(2) by (intro same_deleting) (auto simp: deletion_effect_def elim: list_all2_mono)
  with assms(1) e same_documents [OF e(4)] show ?thesis
    by (simp add: sound_def exclusive_def ingesting_def reindexing_def latest_active_def get_latest_ingestion_job_def scheduled_def)
qed

lemma sound_ingestion:
  assumes s: "sound d" and e: "ingestion_effect t docs d d'" and t: "later d t" and free: "docs \<inter> deleting d = {}"
    and docs: "documents d' = documents d \<or>
      (\<exists>doc. documents d' = documents d @ [doc] \<and> doc_id doc \<notin> deleting d \<and> doc_id doc \<in> ing_document_id ` set (ingestion_jobs d'))"
  shows "sound d'"
proof -
  from e have ok: "db_ok d'" and same: "deletion_jobs d' = deletion_jobs d" "reindex_jobs d' = reindex_jobs d"
    and app: "appended t docs (ingestion_jobs d) (ingestion_jobs d')" by (auto simp: ingestion_effect_def)
  have "exclusive d'"
    using exclusiveI [of d d' "{}" docs "{}"] s free ingesting_kept [OF app] same
    by (simp add: sound_def deleting_def reindexing_def)
  moreover have "released d'"
    using s docs by (auto simp: sound_def released_def same deleting_def)
  moreover have "ing_document_id ` set (ingestion_jobs d) \<subseteq> ing_document_id ` set (ingestion_jobs d')"
    using app scheduled_kept unfolding appended_def by (metis Un_upper1 image_Un set_append)
  then have "scheduled d'"
    using s docs unfolding sound_def scheduled_def by fastforce
  ultimately show ?thesis
    using s ok latest_appended [OF ok _ t app] by (simp add: sound_def)
qed

lemma never_deleted: "get_latest_deletion_job d doc = None \<longleftrightarrow> doc \<notin> deleting d"
  by (auto simp: get_latest_deletion_job_def latest_of_None deleting_def)

lemma sound_request:
  assumes s: "sound d" and run: "request_document_deletion (\<lambda>_ d. d) i t doc d = (r, d')"
  shows "sound d'"
proof (cases "d' = d")
  case False
  with deletion_request_effect [OF run] have ok: "db_ok d'" and d': "d' = add_deletion_job (new_deletion_job i doc t) d"
    and no: "latest_active_ingestion_job d doc = None" "get_active_reindex_job d doc = None" by auto
  have "doc \<notin> ingesting d"
    using s no(1) by (auto simp: ingesting_def sound_def latest_active_def latest_active_ingestion_job_def ing_active_def)
  moreover have "doc \<notin> reindexing d"
    using no(2) by (auto simp: get_active_reindex_job_def latest_of_None reindexing_def)
  ultimately have "exclusive d'"
    using exclusiveI [of d d' "{doc}" "{}" "{}"] s
    by (auto simp: sound_def d' add_deletion_job_def deleting_def ingesting_def reindexing_def)
  moreover have "released d'"
    using s by (auto simp: sound_def released_def d' add_deletion_job_def)
  ultimately show ?thesis
    using s ok by (simp add: sound_def latest_active_def get_latest_ingestion_job_def scheduled_def d' add_deletion_job_def)
qed (use s in simp)

lemma sound_schedule:
  assumes vi: "vector_index vs stored sizes" and s: "sound d"
    and run: "schedule_reindex alone i t doc vs target cs co (v, d) = (r, v', d')"
  shows "sound d'"
proof -
  have "db_ok d" using s by (simp add: sound_def)
  note e = schedule_effect [OF vi this run]
  then have rx: "reindexing d' \<subseteq> reindexing d \<union> ({doc_id doc} - deleting d)"
    by (auto simp: reindexing_def never_deleted)
  have "exclusive d'"
    by (rule exclusiveI [of d d' "{}" "{}" "{doc_id doc} - deleting d"]) (use s e rx in \<open>auto simp: sound_def deleting_def ingesting_def\<close>)
  with s e show ?thesis
    by (simp add: sound_def latest_active_def get_latest_ingestion_job_def scheduled_def released_def)
qed

lemma sound_upload:
  assumes s: "sound d" and t: "later d t"
    and run: "upload_document fs st alone ids t content filename ctype (f, d) = (r, f', d')"
  shows "sound d'"
proof -
  have ok: "db_ok d" using s by (simp add: sound_def)
  note e = upload_effect [OF ok run]
  show ?thesis
  proof (cases "documents d' = documents d")
    case True
    show ?thesis
      using run
    proof (cases rule: upload_cases)
      case (created stored)
      with True show ?thesis by simp
    qed (use s in auto)
  next
    case False
    with run obtain stored where d': "d' = add_upload (new_document st ids t filename ctype content stored) (new_ingestion_job ids t) d" "db_ok d'"
      by (cases rule: upload_cases) auto
    then have "up_document_id ids \<notin> doc_id ` set (documents d)"
      by (auto simp: db_ok_checks check_None)
    moreover have "deleting d \<subseteq> doc_id ` set (documents d)"
      using del_table.foreign_key [OF ok] by (auto simp: deleting_def)
    ultimately have "up_document_id ids \<notin> deleting d" by blast
    with sound_ingestion [OF s e [THEN conjunct1] t] d' show ?thesis by simp
  qed
qed

lemma step_sound:
  assumes vi: "\<And>t. vector_index (pf_vector_store pf t) stored sizes" and st: "step pf s lib w w'" and snd: "sound (w_db w)"
  shows "sound (w_db w')"
  using st
proof (cases rule: step.cases)
  case (upload ids t content filename ctype r f d)
  with sound_upload [OF snd] show ?thesis by simp
next
  case (request_deletion i t doc r d)
  with sound_request [OF snd] show ?thesis by simp
next
  case (retry i now t n doc r d)
  have ok: "db_ok (w_db w)" using snd by (simp add: sound_def)
  from retry_effect [OF ok retry(2)] sound_ingestion [OF snd _ retry(3), of "{doc}" d] snd retry(1) show ?thesis
    by (auto simp: never_deleted)
next
  case (recover locked new_id b n now t r d)
  have ok: "db_ok (w_db w)" using snd by (simp add: sound_def)
  have "{ing_document_id j | j. j \<in> set (ingestion_jobs (w_db w)) \<and> ing_active j} = ingesting (w_db w)"
    by (auto simp: ingesting_def)
  with recovery_effect [OF ok recover(2)] sound_ingestion [OF snd _ recover(3), of "ingesting (w_db w)" d] snd recover(1) show ?thesis
    by (auto simp: sound_def exclusive_def)
next
  case (schedule i t doc target cs co r v d)
  with sound_schedule [OF vi snd] show ?thesis by simp
next
  case (activate i now t job_id r d)
  with activation_quiet sound_quiet [OF snd] show ?thesis by fastforce
next
  case (ingest clock locked r)
  with ingestion_worker_quiet [OF vi] sound_quiet [OF snd] snd show ?thesis by (simp add: sound_def)
next
  case (delete clock db_clock locked r)
  have "db_ok (w_db w)" using snd by (simp add: sound_def)
  from sound_deletion [OF snd deletion_worker_effect [OF this delete]] show ?thesis .
next
  case (reindex clock db_clock locked r)
  with reindex_worker_quiet [OF vi] sound_quiet [OF snd] snd show ?thesis by (simp add: sound_def)
next
  case (cleanup t locked r)
  have "db_ok (w_db w)" using snd by (simp add: sound_def)
  from sound_quiet [OF snd cleanup_quiet [OF this cleanup]] show ?thesis .
qed

lemma sound_empty: "sound empty_db"
  by (simp add: sound_def empty_db_def db_ok_checks check_None exclusive_def deleting_def latest_active_def released_def
      scheduled_def one_active_def)

lemma reachable_sound:
  assumes vi: "\<And>t. vector_index (pf_vector_store pf t) stored sizes"
    and "(step pf s lib)\<^sup>*\<^sup>* w0 w" and "w_db w0 = empty_db"
  shows "sound (w_db w)"
  using assms(2,3) by (induction rule: rtranclp_induct) (simp_all add: sound_empty step_sound [OF vi])

section \<open>What holds in every history\<close>

text \<open>C1: In every state the system reaches from an empty database by whole operations, one at a time (uploads,
  deletion requests, retries, stale recoveries, re-index schedulings and activations, and runs of the four
  workers), the database is valid; no document that was ever scheduled for deletion has a pending or running
  ingestion or re-index; and an upload decision is refused only because a deletion of the same content is
  active or incomplete: the two internal errors of the decision, a completed deletion that kept its
  content hash and a document without ingestion job, never occur.\<close>

theorem deletion_excludes_work:
  assumes vi: "\<And>t. vector_index (pf_vector_store pf t) stored sizes"
    and run: "(step pf s lib)\<^sup>*\<^sup>* w0 w" and "w_db w0 = empty_db"
  shows "db_ok (w_db w) \<and> deleting (w_db w) \<inter> (ingesting (w_db w) \<union> reindexing (w_db w)) = {} \<and>
    (\<forall>h e. decide_upload (w_db w) h = Inl e \<longrightarrow> (\<exists>doc. e \<in> {DeletionActiveError doc, DeletionIncompleteError doc}))"
proof -
  have sound: "sound (w_db w)" by (rule reachable_sound) (use assms in auto)
  have "\<exists>doc. e \<in> {DeletionActiveError doc, DeletionIncompleteError doc}" if dec: "decide_upload (w_db w) h = Inl e" for h e
  proof -
    from dec obtain doc where doc: "find_document_by_content_hash (w_db w) h = Some doc"
      by (auto simp: decide_upload_def split: option.splits)
    then have in_d: "doc \<in> set (documents (w_db w))" "content_hash doc = Some h"
      by (auto simp: find_document_by_content_hash_def find_Some_iff)
    have job: "get_latest_ingestion_job (w_db w) (doc_id doc) \<noteq> None"
    proof -
      have "doc_id doc \<in> ing_document_id ` set (ingestion_jobs (w_db w))"
        using sound in_d(1) unfolding sound_def scheduled_def by blast
      then show ?thesis unfolding get_latest_ingestion_job_def latest_of_None by auto
    qed
    have "del_status k \<noteq> DelCompleted" if "get_latest_deletion_job (w_db w) (doc_id doc) = Some k" for k
      using sound in_d latest_of_Some [OF that [unfolded get_latest_deletion_job_def]] by (auto simp: sound_def released_def)
    moreover have "blocking_deletion (w_db w) (doc_id doc) = Some e"
      using dec doc job by (auto simp: decide_upload_def split: option.splits)
    ultimately show ?thesis
      by (auto simp: blocking_deletion_def split: option.splits deletion_status.splits)
  qed
  with sound show ?thesis by (simp add: sound_def exclusive_def)
qed

text \<open>An uploaded document whose ingestion is pending.\<close>

definition start_world :: "(local_fs, unit, mem_index) world" where
  "start_world = \<lparr>w_files = sample_fs, w_embedder = (), w_index = ready_index, w_db = empty_db\<rparr>"

theorem deletion_excludes_work_witness:
  "\<exists>w. (step sample_platform default_settings (\<lambda>_. []))\<^sup>*\<^sup>* start_world w \<and> documents (w_db w) \<noteq> [] \<and>
    deleting (w_db w) \<inter> (ingesting (w_db w) \<union> reindexing (w_db w)) = {}"
proof -
  obtain res f d where up: "first_upload [104, 105] (sample_fs, empty_db) = (Inr res, f, d)" "doc_id (ur_document res) = uni ''d1''"
    "ur_outcome res = UpCreated" using first_upload_creates by blast
  let ?w = "start_world\<lparr>w_files := f, w_db := d\<rparr>"
  have "step sample_platform default_settings (\<lambda>_. []) start_world ?w"
    using up(1) by (intro step.upload [where t = 5]) (auto simp: first_upload_def start_world_def later_def empty_db_def)
  then have r: "(step sample_platform default_settings (\<lambda>_. []))\<^sup>*\<^sup>* start_world ?w" by blast
  have "documents d \<noteq> []"
  proof -
    have none: "\<not> reusable empty_db h res" for h
      by (auto simp: reusable_def empty_db_def find_document_by_content_hash_def)
    have "documents d \<noteq> [] \<or> d = empty_db \<and> reusable empty_db (compute_content_hash [104, 105]) res"
      using up(1) unfolding first_upload_def by (cases rule: upload_cases) (auto dest: recover_reuse [OF sym])
    with none show ?thesis by blast
  qed
  with r deletion_excludes_work [OF sample_platform_index r] show ?thesis
    by (intro exI [of _ ?w]) (simp add: start_world_def)
qed

section \<open>Two requests at once\<close>

text \<open>C18: The exclusion rests on the requests coming one at a time: when the retry of a failed ingestion
  commits between the reads and the insert of a deletion request (the first locks rows of deletion jobs, the
  second rows of ingestion jobs, so neither waits), both are accepted and the document has a pending deletion
  and a pending ingestion.\<close>

theorem deletion_races_retry:
  assumes ok: "db_ok d" and doc: "doc \<in> doc_id ` set (documents d)" and quiet: "doc \<notin> deleting d \<union> ingesting d \<union> reindexing d"
    and failed: "map_option ing_status (get_latest_ingestion_job d doc) = Some IngFailed"
    and ids: "length i \<le> 36" "length k \<le> 36" "i \<notin> ing_id ` set (ingestion_jobs d)" "k \<notin> del_id ` set (deletion_jobs d)"
  shows "\<exists>r d'. request_document_deletion (\<lambda>_ x. snd (retry_ingestion alone i now t n doc x)) k u doc d = (Inr r, d') \<and>
    drq_outcome r = DelCreated \<and> doc \<in> deleting d' \<and> doc \<in> ingesting d'"
proof -
  let ?new = "create_pending_job i doc t" and ?del = "new_deletion_job k doc u"
  have none: "get_latest_deletion_job d doc = None" "get_active_reindex_job d doc = None"
    using quiet by (auto simp: never_deleted get_active_reindex_job_def latest_of_None reindexing_def)
  obtain x where found: "get_document d doc = Some x" using doc get_row_None [of doc_id doc "documents d"] by (auto simp: get_document_def)
  have no_ing: "\<not> (\<exists>j \<in> set (ingestion_jobs d). ing_active j \<and> ing_document_id j = doc)"
    using quiet by (auto simp: ingesting_def)
  have c1: "commit (add_ingestion_job ?new d) = Inr (add_ingestion_job ?new d)"
    using commit_pending_job [OF ok ids(1,3) doc, of t] no_ing by simp
  have retry: "snd (retry_ingestion alone i now t n doc d) = add_ingestion_job ?new d"
    using found none failed c1 by (simp add: retry_ingestion_def Let_def del: map_option_eq_Some)
  have ok1: "db_ok (add_ingestion_job ?new d)" using c1 by (simp add: commit_Inr)
  have c2: "commit (add_deletion_job ?del (add_ingestion_job ?new d)) = Inr (add_deletion_job ?del (add_ingestion_job ?new d))"
  proof -
    have "\<not> (\<exists>j \<in> set (deletion_jobs (add_ingestion_job ?new d)). del_active j \<and> del_document_id j = doc)"
      using quiet by (auto simp: add_ingestion_job_def deleting_def)
    then show ?thesis
      by (subst commit_add_deletion_job [OF ok1 ids(2)]) (use ids(4) doc in \<open>auto simp: add_ingestion_job_def\<close>)
  qed
  have "latest_active_ingestion_job d doc = None"
    using failed by (auto simp: latest_active_ingestion_job_def)
  then have "request_document_deletion (\<lambda>_ x. snd (retry_ingestion alone i now t n doc x)) k u doc d =
      (Inr \<lparr>drq_outcome = DelCreated, drq_job = Some ?del\<rparr>, add_deletion_job ?del (add_ingestion_job ?new d))"
    by (simp only: request_document_deletion_def found none retry c2 Let_def option.case option.map option.distinct sum.case
        simp_thms if_False)
  moreover have "doc \<in> deleting (add_deletion_job ?del (add_ingestion_job ?new d))"
    by (simp add: deleting_def add_deletion_job_def)
  moreover have "doc \<in> ingesting (add_deletion_job ?del (add_ingestion_job ?new d))"
    unfolding ingesting_def by (rule image_eqI [of _ _ ?new]) (simp_all add: add_deletion_job_def add_ingestion_job_def)
  ultimately show ?thesis by (intro exI conjI) auto
qed

theorem deletion_races_retry_witness:
  "\<exists>r d'. request_document_deletion (\<lambda>_ x. snd (retry_ingestion alone (uni ''j2'') 7 7 900 (uni ''d1'') x)) (uni ''k1'') 8 (uni ''d1'')
     (ingestion_db [sample_job (uni ''j1'') IngFailed 1]) = (Inr r, d') \<and>
   drq_outcome r = DelCreated \<and> uni ''d1'' \<in> deleting d' \<and> uni ''d1'' \<in> ingesting d'"
proof (rule deletion_races_retry)
  let ?d = "ingestion_db [sample_job (uni ''j1'') IngFailed 1]"
  have d: "ingestion_jobs ?d = [sample_job (uni ''j1'') IngFailed 1]" "deletion_jobs ?d = []" "reindex_jobs ?d = []"
    "documents ?d = [sample_document (uni ''d1'')]"
    by (simp_all add: ingestion_db_def sample_db_def empty_db_def)
  show "db_ok ?d"
    by (rule ingestion_db_ok) (simp_all add: fits_def one_active_def ing_active_def)
  show "uni ''d1'' \<notin> deleting ?d \<union> ingesting ?d \<union> reindexing ?d"
    by (auto simp: deleting_def ingesting_def reindexing_def d ing_active_def)
  show "map_option ing_status (get_latest_ingestion_job ?d (uni ''d1'')) = Some IngFailed"
    by (simp add: get_latest_ingestion_job_def latest_of_def d)
qed (simp_all add: ingestion_db_def sample_db_def empty_db_def sample_document_def)

end
