(* ===== verification/Operator_Scripts.thy ===== *)
theory Operator_Scripts
  imports Deletion_Worker Reindex_Worker Ingestion_Retry
begin

text \<open>
  The scripts an operator or a scheduler runs (\<open>scripts/_shutdown.py\<close>, \<open>scripts/process_pending_*.py\<close>,
  \<open>scripts/recover_stale_ingestion_jobs.py\<close>): exit codes, printed lines and the cooperative stop.
  \<open>signals k\<close> lists the signals received between the checks number \<open>k - 1\<close> and \<open>k\<close>.
\<close>

section \<open>Stopping\<close>

record stop_requested =
  stop_set :: bool
  stop_signal_name :: "string option"

definition new_stop :: stop_requested where
  "new_stop = \<lparr>stop_set = False, stop_signal_name = None\<rparr>"

definition request_stop :: "string \<Rightarrow> stop_requested \<Rightarrow> stop_requested" where
  "request_stop signal_name stop =
     (if stop_set stop then stop else \<lparr>stop_set = True, stop_signal_name = Some signal_name\<rparr>)"

definition receive :: "string list \<Rightarrow> stop_requested \<Rightarrow> stop_requested" where
  "receive names stop = fold request_stop names stop"

section \<open>Document deletions\<close>

definition max_jobs_per_run :: nat where
  "max_jobs_per_run = 100"

definition deletion_line :: "deletion_job \<Rightarrow> ustr" where
  "deletion_line job =
     uni ''  job='' @ del_id job @ uni '' document='' @ del_document_id job @ uni '' -> '' @ deletion_status_value (del_status job)"

text \<open>\<open>run k\<close> is one call of the worker in a session of its own; \<open>n\<close> passes of the loop are left.\<close>

fun deletion_loop :: "(nat \<Rightarrow> (('f, 'e, 'v) world, exn, deletion_job option) call) \<Rightarrow> (nat \<Rightarrow> string list) \<Rightarrow> nat \<Rightarrow> nat \<Rightarrow>
    stop_requested \<Rightarrow> ustr list \<Rightarrow> (('f, 'e, 'v) world, exn, ustr list) call" where
  "deletion_loop run signals k 0 stop printed w = (Inr printed, w)"
| "deletion_loop run signals k (Suc n) stop printed w =
     (let stop1 = receive (signals k) stop in
      if stop_set stop1 then (Inr printed, w)
      else (case run k w of
          (Inl e, w1) \<Rightarrow> (Inl e, w1)
        | (Inr None, w1) \<Rightarrow> (Inr printed, w1)
        | (Inr (Some job), w1) \<Rightarrow> deletion_loop run signals (Suc k) n stop1 (printed @ [deletion_line job]) w1))"

definition process_pending_document_deletions :: "'v vector_store \<Rightarrow> 'f file_storage \<Rightarrow> (exn \<Rightarrow> ustr) \<Rightarrow> (nat \<Rightarrow> nat \<Rightarrow> time) \<Rightarrow>
    (nat \<Rightarrow> nat \<Rightarrow> time) \<Rightarrow> (nat \<Rightarrow> nat \<Rightarrow> db \<Rightarrow> db) \<Rightarrow> (nat \<Rightarrow> ustr \<Rightarrow> bool) \<Rightarrow> (nat \<Rightarrow> string list) \<Rightarrow>
    (('f, 'e, 'v) world, exn, nat \<times> ustr list) call" where
  "process_pending_document_deletions vs fs lib now db_now env locked signals w =
     (case deletion_loop (\<lambda>k. process_next_deletion vs fs lib (now k) (db_now k) (env k) (locked k)) signals 0 max_jobs_per_run new_stop [] w of
        (Inl e, w1) \<Rightarrow> (Inl e, w1)
      | (Inr printed, w1) \<Rightarrow>
          (Inr (0, printed @ [uni ''Processed '' @ dec (length printed) @ uni '' document deletion job(s).'']), w1))"

section \<open>One job per run\<close>

fun reindex_outcome_value :: "reindex_worker_outcome \<Rightarrow> ustr" where
  "reindex_outcome_value RwNoJob = uni ''no_job''"
| "reindex_outcome_value RwCompleted = uni ''completed''"
| "reindex_outcome_value RwFailed = uni ''failed''"
| "reindex_outcome_value RwSkippedDeleted = uni ''skipped_deleted''"

fun cleanup_outcome_value :: "cleanup_outcome \<Rightarrow> ustr" where
  "cleanup_outcome_value CleanupNoJob = uni ''no_job''"
| "cleanup_outcome_value CleanupCompleted = uni ''completed''"
| "cleanup_outcome_value CleanupFailed = uni ''failed''"

definition shown :: "ustr option \<Rightarrow> ustr" where
  "shown v = (case v of None \<Rightarrow> uni ''None'' | Some t \<Rightarrow> t)"

definition reindex_line :: "reindex_worker_result \<Rightarrow> ustr" where
  "reindex_line result =
     (if rw_outcome result = RwNoJob then uni ''No pending re-index job to process.''
      else uni ''job='' @ shown (rw_job_id result) @ uni '' document='' @ shown (rw_document_id result) @ uni '' -> '' @
        reindex_outcome_value (rw_outcome result))"

definition process_pending_reindex_jobs :: "('f, 'e, 'v) platform \<Rightarrow> settings \<Rightarrow> (exn \<Rightarrow> ustr) \<Rightarrow> (nat \<Rightarrow> time) \<Rightarrow> (nat \<Rightarrow> time) \<Rightarrow>
    (nat \<Rightarrow> db \<Rightarrow> db) \<Rightarrow> (ustr \<Rightarrow> bool) \<Rightarrow> string list \<Rightarrow> ('f, 'e, 'v) world \<Rightarrow> (nat \<times> ustr) \<times> ('f, 'e, 'v) world" where
  "process_pending_reindex_jobs pf s lib now db_now env locked signals w =
     (if stop_set (receive signals new_stop) then
        ((0, uni ''Stop requested before claiming a job; exiting without processing.''), w)
      else (case process_next_reindex_job pf s lib now db_now env locked w of
          (Inl e, w1) \<Rightarrow> ((1, uni ''Re-index worker invocation failed unexpectedly. See server logs for details.''), w1)
        | (Inr result, w1) \<Rightarrow> ((0, reindex_line result), w1)))"

definition cleanup_line :: "cleanup_result \<Rightarrow> ustr" where
  "cleanup_line result =
     (if cr_outcome result = CleanupNoJob then uni ''No pending or retry-eligible vector cleanup job to process.''
      else uni ''job='' @ shown (cr_job_id result) @ uni '' document='' @ shown (cr_document_id result) @ uni '' collection='' @
        shown (cr_collection_name result) @ uni '' -> '' @ cleanup_outcome_value (cr_outcome result))"

definition process_pending_vector_cleanups :: "(exn \<Rightarrow> ustr) \<Rightarrow> time \<Rightarrow> (nat \<Rightarrow> db \<Rightarrow> db) \<Rightarrow> (ustr \<Rightarrow> bool) \<Rightarrow> 'v vector_store \<Rightarrow>
    string list \<Rightarrow> ('f, 'e, 'v) world \<Rightarrow> (nat \<times> ustr) \<times> ('f, 'e, 'v) world" where
  "process_pending_vector_cleanups lib now env locked vs signals w =
     (if stop_set (receive signals new_stop) then
        ((0, uni ''Stop requested before claiming a job; exiting without processing.''), w)
      else (case process_next_vector_cleanup_job lib now env locked vs w of
          (Inl e, w1) \<Rightarrow> ((1, uni ''Vector cleanup worker invocation failed unexpectedly. See server logs for details.''), w1)
        | (Inr result, w1) \<Rightarrow> ((0, cleanup_line result), w1)))"

section \<open>Stale ingestion jobs\<close>

definition recover_stale_script :: "(db \<Rightarrow> db) \<Rightarrow> (ustr \<Rightarrow> bool) \<Rightarrow> (nat \<Rightarrow> ustr) \<Rightarrow> settings \<Rightarrow> time \<Rightarrow> time \<Rightarrow>
    db \<Rightarrow> (exn + nat \<times> ustr list) \<times> db" where
  "recover_stale_script env locked new_id s now db_now d =
     (case recover_stale_ingestion_jobs env locked new_id (nat (ingestion_recovery_batch_size s)) (ingestion_stale_after_seconds s) now db_now d of
        (Inl e, d1) \<Rightarrow> (Inl e, d1)
      | (Inr recovered, d1) \<Rightarrow>
          (Inr (0, (uni ''Recovered '' @ dec (length recovered) @ uni '' stale ingestion job(s).'') #
             map (\<lambda>e. uni ''  stale_job='' @ stale_job_id e @ uni '' -> replacement_job='' @ replacement_job_id e) recovered), d1))"

section \<open>Draining the deletions\<close>

definition pending_deletions :: "db \<Rightarrow> deletion_job list" where
  "pending_deletions d = filter (\<lambda>j. del_status j = DelPending) (deletion_jobs d)"

lemma filter_update_row_drop:
  assumes "\<And>r. r \<in> set rows \<Longrightarrow> key r = i \<Longrightarrow> \<not> P (f r)" and "\<And>r. key (f r) = key r"
  shows "filter P (update_row key i f rows) = filter (\<lambda>r. key r \<noteq> i \<and> P r) rows"
  using assms by (induction rows) (auto simp: update_row_def)

lemma pending_update:
  assumes "\<And>j. j \<in> set (deletion_jobs d) \<Longrightarrow> del_id j = i \<Longrightarrow> del_status (f j) \<noteq> DelPending" and "\<And>j. del_id (f j) = del_id j"
  shows "pending_deletions (update_deletion_job i f d) = filter (\<lambda>j. del_id j \<noteq> i) (pending_deletions d)"
  using filter_update_row_drop [of "deletion_jobs d" del_id i "\<lambda>j. del_status j = DelPending" f] assms
  by (simp add: pending_deletions_def update_deletion_job_def conj_commute)

text \<open>The job a run claimed is the only one it takes from the pending ones.\<close>

definition only_taken :: "ustr \<Rightarrow> db \<Rightarrow> db \<Rightarrow> bool" where
  "only_taken i before after \<longleftrightarrow> pending_deletions after = filter (\<lambda>j. del_id j \<noteq> i) (pending_deletions before)"

lemma taken_not_pending: "only_taken i before d \<Longrightarrow> j \<in> set (deletion_jobs d) \<Longrightarrow> del_id j = i \<Longrightarrow> del_status j \<noteq> DelPending"
proof
  assume t: "only_taken i before d" and j: "j \<in> set (deletion_jobs d)" "del_id j = i" "del_status j = DelPending"
  then have "j \<in> set (pending_deletions d)" by (simp add: pending_deletions_def)
  with t j(2) show False by (auto simp: only_taken_def)
qed

lemma taken_save:
  assumes "only_taken i before d" and "del_id l = i" and "del_status n \<noteq> DelPending"
  shows "only_taken i before (save_deletion l n d)"
proof -
  have "pending_deletions (save_deletion l n d) = filter (\<lambda>j. del_id j \<noteq> i) (pending_deletions d)"
    unfolding save_deletion_def assms(2)
    using taken_not_pending [OF assms(1)] assms(3) by (intro pending_update) (auto simp: flush_deletion_def changed_def)
  with assms(1) show ?thesis by (simp add: only_taken_def)
qed

lemma taken_documents: "only_taken i before d \<Longrightarrow> only_taken i before (update_documents x y d)"
  by (simp add: only_taken_def pending_deletions_def)

lemma taken_resolve:
  assumes "only_taken i before (w_db w) \<and> db_ok (w_db w)" and "del_id l = i" and "del_status n \<noteq> DelPending"
    and "resolve_deletion (\<lambda>d. d) l n w = (r, w')"
  shows "only_taken i before (w_db w') \<and> db_ok (w_db w')"
  using assms taken_save [of i before "w_db w" l n]
  by (cases r) (auto simp: resolve_deletion_def commit_update_Inl commit_update_Inr others_def)

lemma taken_finish:
  assumes "only_taken i before (w_db w) \<and> db_ok (w_db w)" and "del_id job = i" and "del_status job \<noteq> DelPending"
    and "finish_deletion fs now db_now (\<lambda>d. d) doc job w = (r, w')"
  shows "only_taken i before (w_db w') \<and> db_ok (w_db w')"
proof (cases "fs_delete fs (resolve_document_storage_key doc) (w_files w)")
  case (Pair x s)
  have resolve: "only_taken i before (w_db w') \<and> db_ok (w_db w')"
    if "resolve_deletion (\<lambda>d. d) job (partially_failed c m t job) (w\<lparr>w_files := s\<rparr>) = (r, w')" for c m t
    using taken_resolve [of i before "w\<lparr>w_files := s\<rparr>" job "partially_failed c m t job" r w'] assms(1,2) that by simp
  let ?done = "deletion_completed (now 2) (db_now 2) job"
  show ?thesis
  proof (cases x)
    case (Inl e)
    with assms Pair show ?thesis
      by (cases e) (auto simp: finish_deletion_def on_files_def dest!: resolve)
  next
    case (Inr u)
    with assms(4) Pair have "commit_update (\<lambda>d. save_deletion job ?done (update_documents doc (doc\<lparr>content_hash := None\<rparr>) d)) (Some ?done)
        (w\<lparr>w_files := s\<rparr>) = (r, w')"
      by (simp add: finish_deletion_def on_files_def Let_def others_def)
    then show ?thesis
      using assms(1) taken_save [OF taken_documents [OF assms(1) [THEN conjunct1]] assms(2), of ?done]
      by (cases r) (auto simp: commit_update_Inl commit_update_Inr)
  qed
qed

lemma deletion_takes_one:
  assumes ok: "db_ok (w_db w)" and claim: "claim_next_pending_deletion locked (w_db w) = Some claimed"
    and run: "process_next_deletion vs fs lib now db_now (\<lambda>k d. d) locked w = (r, w')"
  shows "only_taken (del_id claimed) (w_db w) (w_db w') \<and> db_ok (w_db w')"
proof -
  let ?job = "set_del_processing (db_now 0) claimed" and ?d = "claimed_db (\<lambda>k d. d) db_now claimed (w_db w)"
  have start: "only_taken (del_id claimed) (w_db w) ?d \<and> db_ok ?d"
    using claim_deletion_commits [OF ok claim, of "db_now 0"] pending_update [of "w_db w" "del_id claimed" "set_del_processing (db_now 0)"]
    by (simp add: only_taken_def claimed_db_def)
  note go = taken_resolve [where i = "del_id claimed" and before = "w_db w" and l = ?job]
  from ok claim run show ?thesis
  proof (cases rule: process_deletion_cases)
    case (missing msg)
    with go [OF _ _ _ missing(2) [unfolded id_def]] start show ?thesis by simp
  next
    case (vectors doc result v)
    with go [OF _ _ _ vectors(4)] start show ?thesis by simp
  next
    case (rejected doc result v e)
    with go [OF _ _ _ rejected(5)] start show ?thesis by simp
  next
    case (cleaned doc result v w3)
    from go [OF _ _ _ cleaned(4)] start have "only_taken (del_id claimed) (w_db w) (w_db w3) \<and> db_ok (w_db w3)" by simp
    from taken_finish [OF this _ _ cleaned(5)] show ?thesis by simp
  qed
qed

lemma pending_taken_length:
  assumes ok: "db_ok d" and claim: "claim_next_pending_deletion (\<lambda>_. False) d = Some j" and t: "only_taken (del_id j) d d'"
  shows "Suc (length (pending_deletions d')) = length (pending_deletions d)"
proof -
  have j: "j \<in> set (pending_deletions d)"
    using claim_deletion [OF claim] by (simp add: pending_deletions_def)
  have "distinct (map del_id (deletion_jobs d))" using del_table.primary_key [OF ok] .
  then have d: "distinct (map del_id (pending_deletions d))"
    by (simp add: pending_deletions_def distinct_map_filter)
  then have "r = j" if "r \<in> set (pending_deletions d)" "del_id r = del_id j" for r
    using that j by (auto simp: distinct_map inj_on_def)
  then have "filter (\<lambda>r. del_id r \<noteq> del_id j) (pending_deletions d) = filter (\<lambda>r. j \<noteq> r) (pending_deletions d)"
    by (intro filter_cong) auto
  then have "pending_deletions d' = remove1 j (pending_deletions d)"
    using t d by (simp add: only_taken_def distinct_remove1_removeAll distinct_map removeAll_filter_not_eq)
  moreover have "0 < length (pending_deletions d)" using j by (rule length_pos_if_in_set)
  ultimately show ?thesis using j by (simp add: length_remove1)
qed

lemma claim_none_pending: "claim_next_pending_deletion (\<lambda>_. False) d = None \<longleftrightarrow> pending_deletions d = []"
  by (simp add: claim_next_pending_deletion_def pending_deletions_def oldest_by_None)

lemma resolve_some: "resolve_deletion e l n u \<noteq> (Inr None, u')"
  by (auto simp: resolve_deletion_def commit_update_Inr)

lemma finish_some: "finish_deletion fs now db_now e doc job u \<noteq> (Inr None, u')"
  by (auto simp: finish_deletion_def Let_def commit_update_Inr resolve_some split: prod.splits sum.splits exn.splits)

lemma process_none:
  assumes ok: "db_ok (w_db w)" and run: "process_next_deletion vs fs lib now db_now env locked w = (Inr None, w')"
  shows "claim_next_pending_deletion locked (w_db w) = None \<and> w' = w"
proof (cases "claim_next_pending_deletion locked (w_db w)")
  case None
  with run show ?thesis by (simp add: process_next_deletion_def)
next
  case (Some claimed)
  from ok Some run show ?thesis
    by (cases rule: process_deletion_cases) (simp_all add: resolve_some finish_some)
qed

lemma receive_stop: "stop_set (receive names stop) \<longleftrightarrow> stop_set stop \<or> names \<noteq> []"
  by (induction names arbitrary: stop) (simp_all add: receive_def request_stop_def)

lemma loop_stopped: "signals k \<noteq> [] \<Longrightarrow> 0 < n \<Longrightarrow> deletion_loop run signals k n stop printed w = (Inr printed, w)"
  by (cases n) (simp_all add: receive_stop Let_def)

lemma deletion_loop_spec:
  assumes "db_ok (w_db w)" and "\<not> stop_set stop"
    and "deletion_loop (\<lambda>k. process_next_deletion vs fs lib (now k) (db_now k) (\<lambda>_ d. d) (\<lambda>_. False)) signals k n stop printed w = (Inr out, w')"
  shows "\<exists>new. out = printed @ new \<and> length new \<le> n \<and> db_ok (w_db w') \<and>
    length new + length (pending_deletions (w_db w')) = length (pending_deletions (w_db w)) \<and>
    set (pending_deletions (w_db w')) \<subseteq> set (pending_deletions (w_db w)) \<and>
    (\<forall>i. i < n \<and> signals (k + i) \<noteq> [] \<longrightarrow> length new \<le> i) \<and>
    ((\<forall>i. signals i = []) \<longrightarrow> pending_deletions (w_db w') = [] \<or> length new = n)"
  using assms
proof (induction n arbitrary: k stop printed w)
  case 0
  then show ?case by simp
next
  case (Suc n)
  let ?run = "\<lambda>k. process_next_deletion vs fs lib (now k) (db_now k) (\<lambda>_ d. d) (\<lambda>_. False)"
  show ?case
  proof (cases "signals k = []")
    case False
    with Suc.prems have "out = printed" "w' = w" by (simp_all add: receive_stop Let_def)
    with False Suc.prems(1) show ?thesis by auto
  next
    case True
    then have stop: "\<not> stop_set (receive (signals k) stop)" using Suc.prems(2) by (simp add: receive_stop)
    obtain x w1 where run: "?run k w = (x, w1)" by fastforce
    with Suc.prems(3) stop obtain y where x: "x = Inr y" by (cases x) (simp_all add: Let_def)
    show ?thesis
    proof (cases y)
      case None
      with run x have "claim_next_pending_deletion (\<lambda>_. False) (w_db w) = None" "w1 = w" using process_none [OF Suc.prems(1)] by blast+
      with Suc.prems run x None stop True show ?thesis by (auto simp: Let_def claim_none_pending)
    next
      case (Some job)
      with run x obtain claimed where claim: "claim_next_pending_deletion (\<lambda>_. False) (w_db w) = Some claimed"
        by (cases "claim_next_pending_deletion (\<lambda>_. False) (w_db w)") (simp_all add: process_next_deletion_def)
      have taken: "only_taken (del_id claimed) (w_db w) (w_db w1)" "db_ok (w_db w1)"
        using deletion_takes_one [OF Suc.prems(1) claim run] by simp_all
      note one = pending_taken_length [OF Suc.prems(1) claim taken(1)]
      from Suc.prems(3) run x Some stop have rest: "deletion_loop ?run signals (Suc k) n (receive (signals k) stop)
          (printed @ [deletion_line job]) w1 = (Inr out, w')" by (simp add: Let_def)
      from Suc.IH [OF taken(2) stop rest] obtain new where new: "out = printed @ deletion_line job # new" "length new \<le> n" "db_ok (w_db w')"
        "length new + length (pending_deletions (w_db w')) = length (pending_deletions (w_db w1))"
        "set (pending_deletions (w_db w')) \<subseteq> set (pending_deletions (w_db w1))"
        "\<And>i. i < n \<Longrightarrow> signals (Suc k + i) \<noteq> [] \<Longrightarrow> length new \<le> i"
        "(\<forall>i. signals i = []) \<longrightarrow> pending_deletions (w_db w') = [] \<or> length new = n" by auto
      have "length (deletion_line job # new) \<le> i" if "i < Suc n" "signals (k + i) \<noteq> []" for i
        using that True new(6) [of "i - 1"] by (cases i) auto
      moreover have "set (pending_deletions (w_db w')) \<subseteq> set (pending_deletions (w_db w))"
        using new(5) taken(1) by (auto simp: only_taken_def)
      ultimately show ?thesis
        using new one by (intro exI [of _ "deletion_line job # new"]) auto
    qed
  qed
qed

text \<open>C12: With nobody else at work, a run of the deletion script takes a hundred pending deletions, or all of
  them if there are no more, exactly one per printed line, each leaving the pending state whatever became of it,
  and adds none; a signal received before the check number \<open>k\<close> means at most \<open>k\<close> jobs are ever claimed, so a
  signal before the first leaves everything untouched.  The script's exit code is 0 and its last line the number
  of jobs.\<close>

theorem deletion_script_drains:
  assumes "db_ok (w_db w)"
    and "process_pending_document_deletions vs fs lib now db_now (\<lambda>_ _ d. d) (\<lambda>_ _. False) signals w = (Inr (code, out), w')"
  shows "\<exists>p lines. code = 0 \<and> out = lines @ [uni ''Processed '' @ dec p @ uni '' document deletion job(s).''] \<and> length lines = p \<and>
    p \<le> 100 \<and> db_ok (w_db w') \<and> p + length (pending_deletions (w_db w')) = length (pending_deletions (w_db w)) \<and>
    set (pending_deletions (w_db w')) \<subseteq> set (pending_deletions (w_db w)) \<and>
    ((\<forall>k. signals k = []) \<longrightarrow> p = min 100 (length (pending_deletions (w_db w)))) \<and>
    (\<forall>k < 100. signals k \<noteq> [] \<longrightarrow> p \<le> k) \<and> (signals 0 \<noteq> [] \<longrightarrow> w' = w)"
proof -
  from assms(2) obtain lines where loop: "deletion_loop (\<lambda>k. process_next_deletion vs fs lib (now k) (db_now k) (\<lambda>_ d. d) (\<lambda>_. False))
      signals 0 100 new_stop [] w = (Inr lines, w')"
    and out: "code = 0" "out = lines @ [uni ''Processed '' @ dec (length lines) @ uni '' document deletion job(s).'']"
    unfolding process_pending_document_deletions_def max_jobs_per_run_def by (auto split: sum.splits prod.splits)
  have stop: "\<not> stop_set new_stop" by (simp add: new_stop_def)
  from deletion_loop_spec [OF assms(1) stop loop] have spec: "length lines \<le> 100" "db_ok (w_db w')"
    "length lines + length (pending_deletions (w_db w')) = length (pending_deletions (w_db w))"
    "set (pending_deletions (w_db w')) \<subseteq> set (pending_deletions (w_db w))"
    "\<forall>k < 100. signals k \<noteq> [] \<longrightarrow> length lines \<le> k"
    "(\<forall>k. signals k = []) \<longrightarrow> pending_deletions (w_db w') = [] \<or> length lines = 100" by auto
  have "w' = w" if "signals 0 \<noteq> []"
    using loop by (simp add: loop_stopped that)
  with spec out show ?thesis by (intro exI [of _ "length lines"] exI [of _ lines]) auto
qed

text \<open>Run again and again by a scheduler, the cleanup script is the repeated cleanup of the vector-cleanup component.\<close>

fun cleanup_script_runs :: "(exn \<Rightarrow> ustr) \<Rightarrow> (nat \<Rightarrow> time) \<Rightarrow> 'v vector_store \<Rightarrow> nat \<Rightarrow> ('f, 'e, 'v) world \<Rightarrow> ('f, 'e, 'v) world" where
  "cleanup_script_runs lib now vs 0 w = w"
| "cleanup_script_runs lib now vs (Suc n) w =
     snd (process_pending_vector_cleanups lib (now n) (\<lambda>_. id) (\<lambda>_. False) vs [] (cleanup_script_runs lib now vs n w))"

lemma cleanup_script: "cleanup_script_runs lib now vs n w = cleanup_runs lib now vs n w"
  by (induction n) (auto simp: process_pending_vector_cleanups_def receive_def new_stop_def split: prod.split sum.split)

lemma scripts_exit:
  "fst (fst (process_pending_reindex_jobs pf s lib now db_now env locked signals w)) \<le> 1"
  "fst (fst (process_pending_vector_cleanups lib t env locked vs signals w)) \<le> 1"
  "signals \<noteq> [] \<Longrightarrow> snd (process_pending_reindex_jobs pf s lib now db_now env locked signals w) = w"
  "signals \<noteq> [] \<Longrightarrow> snd (process_pending_vector_cleanups lib t env locked vs signals w) = w"
  by (auto simp: process_pending_reindex_jobs_def process_pending_vector_cleanups_def receive_stop split: prod.split sum.split)

text \<open>One pending deletion, which a run completes.\<close>

lemma one_deletion:
  "run 0 w = (Inr (Some j), w1) \<Longrightarrow> run 1 w1 = (Inr None, w1) \<Longrightarrow>
   deletion_loop run (\<lambda>_. []) 0 (Suc (Suc n)) new_stop [] w = (Inr [deletion_line j], w1)"
  by (simp add: Let_def receive_def new_stop_def)

lemma deleting_run: "\<exists>j w'. process_pending_document_deletions mem_store sample_storage (\<lambda>_. []) (\<lambda>_. int) (\<lambda>_. int) (\<lambda>_ _ d. d)
    (\<lambda>_ _. False) (\<lambda>_. []) (deleting_world two_collections) =
    (Inr (0, [deletion_line j, uni ''Processed '' @ dec 1 @ uni '' document deletion job(s).'']), w')"
proof -
  let ?w = "deleting_world two_collections"
  let ?run = "process_next_deletion mem_store sample_storage (\<lambda>_. []) int int (\<lambda>_ d. d) (\<lambda>_. False)"
  obtain j w' where run: "?run ?w = (Inr (Some j), w')" using sample_deletion by (auto simp: completed_result_def)
  have ok: "db_ok (w_db ?w)" and claim: "claim_next_pending_deletion (\<lambda>_. False) (w_db ?w) = Some deleting_job"
    using deleting_db_ok deleting_claim by simp_all
  have one: "pending_deletions deleting_db = [deleting_job]" by (simp add: pending_deletions_def)
  have "pending_deletions (w_db w') = []"
    using deletion_takes_one [OF ok claim run] by (simp add: only_taken_def one)
  then have none: "?run w' = (Inr None, w')"
    using claim_none_pending [of "w_db w'"] by (simp add: process_next_deletion_def)
  have "deletion_loop (\<lambda>_. ?run) (\<lambda>_. []) 0 (Suc (Suc 98)) new_stop [] ?w = (Inr [deletion_line j], w')"
    by (rule one_deletion [OF run none])
  then show ?thesis by (intro exI) (simp add: process_pending_document_deletions_def max_jobs_per_run_def)
qed

theorem deletion_script_drains_witness:
  "\<exists>lines w'. process_pending_document_deletions mem_store sample_storage (\<lambda>_. []) (\<lambda>_. int) (\<lambda>_. int) (\<lambda>_ _ d. d) (\<lambda>_ _. False)
    (\<lambda>_. []) (deleting_world two_collections) = (Inr (0, lines), w') \<and> pending_deletions (w_db w') = []"
proof -
  let ?w = "deleting_world two_collections"
  obtain lines w' where run: "process_pending_document_deletions mem_store sample_storage (\<lambda>_. []) (\<lambda>_. int) (\<lambda>_. int) (\<lambda>_ _ d. d)
    (\<lambda>_ _. False) (\<lambda>_. []) ?w = (Inr (0, lines), w')" using deleting_run by blast
  have ok: "db_ok (w_db ?w)" using deleting_db_ok by simp
  have "length (pending_deletions (w_db ?w)) = 1" by (simp add: pending_deletions_def)
  with deletion_script_drains [OF ok run] have "pending_deletions (w_db w') = []" by auto
  with run show ?thesis by blast
qed

end
