(* ===== verification/Platform_Health.thy ===== *)
theory Platform_Health
  imports Minio_Storage Local_Storage Embedding_Config Qdrant Config Http
begin

text \<open>
  The platform health endpoints (\<open>app/services/platform_health.py\<close>, \<open>app/services/ollama_client.py\<close>,
  \<open>app/schemas/health.py\<close>, \<open>app/api/routes/health.py\<close>, \<open>app/core/version.py\<close>) and the provider status
  endpoint (\<open>app/api/v1/routes/providers.py\<close>).  What the third-party
  clients of a probe do (connect, answer, fail, exceed the deadline) is an argument.
\<close>

definition service_name :: ustr where
  "service_name = uni ''documents-rag''"

definition service_version :: ustr where
  "service_version = uni ''0.1.0''"

section \<open>Checks\<close>

record dependency_check =
  dc_name :: string
  dc_ok :: bool
  dc_required :: bool
  dc_detail :: "ustr option"

definition check_result :: "string \<Rightarrow> bool \<Rightarrow> bool \<Rightarrow> ustr \<Rightarrow> dependency_check" where
  "check_result name required available detail =
     \<lparr>dc_name = name, dc_ok = available, dc_required = required, dc_detail = (if available then None else Some detail)\<rparr>"

text \<open>Building the engine or the client, the probe itself, and closing: only the probe is guarded.\<close>

definition guarded_probe :: "exn option \<Rightarrow> exn option \<Rightarrow> exn option \<Rightarrow> (bool \<Rightarrow> dependency_check) \<Rightarrow> exn + dependency_check" where
  "guarded_probe building probing closing result =
     (case building of
        Some e \<Rightarrow> Inl e
      | None \<Rightarrow> (case closing of Some e \<Rightarrow> Inl e | None \<Rightarrow> Inr (result (probing = None))))"

definition check_postgres :: "exn option \<Rightarrow> exn option \<Rightarrow> exn option \<Rightarrow> exn + dependency_check" where
  "check_postgres building probing closing =
     guarded_probe building probing closing (\<lambda>ok. check_result ''postgres'' True ok (uni ''Postgres is unreachable.''))"

definition check_redis :: "exn option \<Rightarrow> exn option \<Rightarrow> exn option \<Rightarrow> exn + dependency_check" where
  "check_redis building probing closing =
     guarded_probe building probing closing (\<lambda>ok. check_result ''redis'' False ok (uni ''Redis is unreachable.''))"

definition check_qdrant :: "raw_exn + http_response \<Rightarrow> exn + dependency_check" where
  "check_qdrant answer =
     (let result = (\<lambda>ok. check_result ''qdrant'' True ok (uni ''Qdrant is unreachable.'')) in
      case answer of
        Inl e \<Rightarrow> if is_http_error e then Inr (result False) else Inl (raw_to_exn e)
      | Inr r \<Rightarrow> Inr (result (is_success r)))"

section \<open>Ollama\<close>

record ollama_health =
  oh_reachable :: bool
  oh_chat_model_available :: bool
  oh_embedding_model_available :: bool
  oh_error :: "ustr option"

text \<open>The values a loop over a parsed value visits; \<open>None\<close> is a \<open>TypeError\<close>.\<close>

fun json_iter :: "json \<Rightarrow> json list option" where
  "json_iter (JList js) = Some js"
| "json_iter (JObj kvs) = Some (map (JStr \<circ> fst) kvs)"
| "json_iter (JStr s) = Some (map (\<lambda>c. JStr [c]) s)"
| "json_iter j = None"

text \<open>\<open>value.get(key, default)\<close>; \<open>None\<close> is an \<open>AttributeError\<close>.\<close>

definition json_get_or :: "json \<Rightarrow> string \<Rightarrow> json \<Rightarrow> json option" where
  "json_get_or j k d = (case j of JObj kvs \<Rightarrow> Some (case json_get j k of None \<Rightarrow> d | Some v \<Rightarrow> v) | _ \<Rightarrow> None)"

fun all_some :: "'a option list \<Rightarrow> 'a list option" where
  "all_some [] = Some []"
| "all_some (x # xs) = (case (x, all_some xs) of (Some a, Some as) \<Rightarrow> Some (a # as) | _ \<Rightarrow> None)"

definition available_models :: "http_response \<Rightarrow> json list option" where
  "available_models r =
     Option.bind (body r) (\<lambda>j. Option.bind (json_get_or j ''models'' (JList [])) (\<lambda>ms. Option.bind (json_iter ms)
       (\<lambda>models. all_some (map (\<lambda>m. json_get_or m ''name'' (JStr [])) models))))"

text \<open>\<open>any\<close> over the names stops at the first match; a name that is not a string has no \<open>startswith\<close>.\<close>

fun model_present :: "ustr \<Rightarrow> json list \<Rightarrow> bool option" where
  "model_present m [] = Some False"
| "model_present m (JStr s # names) = (if s = m \<or> prefix (m @ [58]) s then Some True else model_present m names)"
| "model_present m (j # names) = None"

definition attribute_error :: exn where
  "attribute_error = LibraryError (uni ''AttributeError'')"

text \<open>\<open>status_text\<close> is the message of \<open>raise_for_status\<close>.\<close>

definition check_health :: "settings \<Rightarrow> (nat \<Rightarrow> ustr) \<Rightarrow> raw_exn + http_response \<Rightarrow> exn + ollama_health" where
  "check_health s status_text answer =
     (let unreachable = (\<lambda>m. \<lparr>oh_reachable = False, oh_chat_model_available = False, oh_embedding_model_available = False,
            oh_error = Some m\<rparr>) in
      case answer of
        Inl e \<Rightarrow> if is_http_error e then Inr (unreachable (raw_text e)) else Inl (raw_to_exn e)
      | Inr r \<Rightarrow>
          if \<not> is_success r then Inr (unreachable (status_text (status_code r)))
          else (case available_models r of
              None \<Rightarrow> Inl attribute_error
            | Some names \<Rightarrow>
                (case (model_present (ollama_chat_model s) names, model_present (ollama_embedding_model s) names) of
                   (Some c, Some e) \<Rightarrow> Inr \<lparr>oh_reachable = True, oh_chat_model_available = c, oh_embedding_model_available = e,
                     oh_error = None\<rparr>
                 | _ \<Rightarrow> Inl attribute_error)))"

definition check_ollama :: "settings \<Rightarrow> (nat \<Rightarrow> ustr) \<Rightarrow> raw_exn + http_response \<Rightarrow> exn + dependency_check list" where
  "check_ollama s status_text answer =
     (case check_health s status_text answer of
        Inl e \<Rightarrow> Inl e
      | Inr h \<Rightarrow> Inr
          [check_result ''ollama'' True (oh_reachable h) (uni ''Ollama is unreachable.''),
           check_result ''ollama_chat_model'' True (oh_chat_model_available h)
             (uni ''Configured chat model '' @ py_repr (ollama_chat_model s) @ uni '' is not available.''),
           check_result ''ollama_embedding_model'' True (oh_embedding_model_available h)
             (uni ''Configured embedding model '' @ py_repr (ollama_embedding_model s) @ uni '' is not available.'')])"

section \<open>Storage\<close>

definition probe_key :: ustr where
  "probe_key = uni ''__health_check__/probe.txt''"

definition probe_storage :: "(ustr \<Rightarrow> 's file_storage) \<Rightarrow> (settings \<Rightarrow> storage_exn + 's minio) \<Rightarrow> settings \<Rightarrow> ('s, exn, unit) call" where
  "probe_storage local_at minio_of s f =
     (case create_file_storage minio_of s of
        Inl e \<Rightarrow> (Inl (StorageErr e), f)
      | Inr (UseMinio m) \<Rightarrow> ensure_bucket m f
      | Inr (UseLocal base) \<Rightarrow>
          (case fs_save (local_at base) probe_key (map (of_nat :: nat \<Rightarrow> 8 word) [111, 107]) None [] f of
             (Inl e, f1) \<Rightarrow> (Inl e, f1)
           | (Inr _, f1) \<Rightarrow> fs_delete (local_at base) probe_key f1))"

text \<open>\<open>deadline\<close> is the state in which the timeout cut the probe off, if it did; \<open>is_os_error\<close> recognises the
  library exceptions that are an \<open>OSError\<close>.\<close>

definition check_file_storage :: "(exn \<Rightarrow> bool) \<Rightarrow> (ustr \<Rightarrow> 's file_storage) \<Rightarrow> (settings \<Rightarrow> storage_exn + 's minio) \<Rightarrow> settings \<Rightarrow>
    's option \<Rightarrow> ('s, exn, dependency_check) call" where
  "check_file_storage is_os_error local_at minio_of s deadline f =
     (let result = (\<lambda>ok. check_result ''file_storage'' True ok (uni ''File storage is unavailable.'')) in
      case deadline of
        Some f1 \<Rightarrow> (Inr (result False), f1)
      | None \<Rightarrow> (case probe_storage local_at minio_of s f of
            (Inr _, f1) \<Rightarrow> (Inr (result True), f1)
          | (Inl (StorageErr e), f1) \<Rightarrow> (Inr (result False), f1)
          | (Inl e, f1) \<Rightarrow> (if is_os_error e then Inr (result False) else Inl e, f1)))"

section \<open>Aggregation\<close>

text \<open>\<open>asyncio.gather\<close> lets the first exception out; which one is first is an argument.\<close>

definition run_all_checks :: "(exn list \<Rightarrow> exn) \<Rightarrow> exn + dependency_check \<Rightarrow> exn + dependency_check \<Rightarrow> exn + dependency_check \<Rightarrow>
    exn + dependency_check list \<Rightarrow> exn + dependency_check \<Rightarrow> exn + dependency_check list" where
  "run_all_checks first_of postgres redis qdrant ollama storage =
     (case (postgres, redis, qdrant, ollama, storage) of
        (Inr p, Inr r, Inr q, Inr os, Inr st) \<Rightarrow> Inr ([p, r, q] @ os @ [st])
      | _ \<Rightarrow> Inl (first_of (concat [case_sum (\<lambda>e. [e]) (\<lambda>_. []) postgres, case_sum (\<lambda>e. [e]) (\<lambda>_. []) redis,
          case_sum (\<lambda>e. [e]) (\<lambda>_. []) qdrant, case_sum (\<lambda>e. [e]) (\<lambda>_. []) ollama, case_sum (\<lambda>e. [e]) (\<lambda>_. []) storage])))"

record checks_response =
  ck_status :: string
  ck_service :: ustr
  ck_version :: ustr
  ck_checks :: "dependency_check list"
  ck_error :: "ustr option"

definition failed_names :: "dependency_check list \<Rightarrow> ustr" where
  "failed_names failed = join (uni '', '') (map (uni \<circ> dc_name) failed)"

definition build_readiness_result :: "dependency_check list \<Rightarrow> checks_response http_answer" where
  "build_readiness_result checks =
     (let required_checks = filter dc_required checks; failed_required = filter (\<lambda>c. \<not> dc_ok c) required_checks in
      if failed_required \<noteq> [] then
        Success 503 \<lparr>ck_status = ''unavailable'', ck_service = service_name, ck_version = service_version, ck_checks = required_checks,
          ck_error = Some (uni ''Required dependencies not ready: '' @ failed_names failed_required @ uni ''.'')\<rparr>
      else Success 200 \<lparr>ck_status = ''ok'', ck_service = service_name, ck_version = service_version, ck_checks = required_checks,
          ck_error = None\<rparr>)"

definition build_dependencies_response :: "dependency_check list \<Rightarrow> checks_response" where
  "build_dependencies_response checks =
     (let failed = filter (\<lambda>c. \<not> dc_ok c) checks in
      \<lparr>ck_status = (if failed \<noteq> [] then ''degraded'' else ''ok''), ck_service = service_name, ck_version = service_version,
       ck_checks = checks,
       ck_error = (if failed \<noteq> [] then Some (dec (length failed) @ uni '' of '' @ dec (length checks) @
          uni '' dependency checks failed: '' @ failed_names failed @ uni ''.'') else None)\<rparr>)"

definition readiness :: "exn + dependency_check list \<Rightarrow> exn + checks_response http_answer" where
  "readiness checks = map_sum id build_readiness_result checks"

definition dependencies :: "exn + dependency_check list \<Rightarrow> exn + checks_response http_answer" where
  "dependencies checks = map_sum id (Success 200 \<circ> build_dependencies_response) checks"

definition platform_health :: "(string \<times> ustr \<times> ustr) http_answer" where
  "platform_health = Success 200 (''ok'', service_name, service_version)"

definition liveness :: "(string \<times> ustr \<times> ustr) http_answer" where
  "liveness = Success 200 (''ok'', service_name, service_version)"

section \<open>Properties\<close>

definition has_model :: "ustr \<Rightarrow> json list \<Rightarrow> bool" where
  "has_model m names \<longleftrightarrow> list_ex (\<lambda>j. case j of JStr t \<Rightarrow> t = m \<or> prefix (m @ [58]) t | _ \<Rightarrow> False) names"

lemma model_present_has: "model_present m names = Some b \<Longrightarrow> b = has_model m names"
  by (induction m names rule: model_present.induct) (auto simp: has_model_def split: if_splits)

lemma check_result_ok [simp]: "dc_ok (check_result n r ok t) = ok" "dc_required (check_result n r ok t) = r" "dc_name (check_result n r ok t) = n"
  by (simp_all add: check_result_def)

lemma guarded_probe_Inr: "guarded_probe a p c f = Inr r \<Longrightarrow> r = f (p = None)"
  by (auto simp: guarded_probe_def split: option.splits)

lemma check_qdrant_Inr: "check_qdrant qa = Inr r \<Longrightarrow>
    dc_ok r = (\<exists>h. qa = Inr h \<and> is_success h) \<and> dc_required r \<and> dc_name r = ''qdrant''"
  by (auto simp: check_qdrant_def Let_def split: sum.splits if_splits)

definition serves_models :: "settings \<Rightarrow> raw_exn + http_response \<Rightarrow> bool \<times> bool \<times> bool \<Rightarrow> bool" where
  "serves_models s oa v \<longleftrightarrow>
     (case oa of
        Inr r \<Rightarrow> if is_success r then (\<exists>names. available_models r = Some names \<and>
            v = (True, has_model (ollama_chat_model s) names, has_model (ollama_embedding_model s) names))
          else v = (False, False, False)
      | Inl e \<Rightarrow> v = (False, False, False))"

lemma check_health_Inr:
  assumes "check_health s tx oa = Inr h"
  shows "serves_models s oa (oh_reachable h, oh_chat_model_available h, oh_embedding_model_available h)"
proof (cases oa)
  case (Inl e)
  with assms show ?thesis by (auto simp: check_health_def serves_models_def split: if_splits)
next
  case (Inr r)
  show ?thesis
  proof (cases "is_success r")
    case False
    with assms Inr show ?thesis by (auto simp: check_health_def serves_models_def)
  next
    case True
    with assms Inr obtain names c e where found: "available_models r = Some names"
      "model_present (ollama_chat_model s) names = Some c" "model_present (ollama_embedding_model s) names = Some e"
      and h: "h = \<lparr>oh_reachable = True, oh_chat_model_available = c, oh_embedding_model_available = e, oh_error = None\<rparr>"
      by (auto simp: check_health_def split: option.splits)
    with True Inr model_present_has [OF found(2)] model_present_has [OF found(3)] show ?thesis by (simp add: serves_models_def)
  qed
qed

lemma check_ollama_Inr:
  assumes "check_ollama s tx oa = Inr rs"
  shows "\<exists>v. serves_models s oa v \<and> map dc_ok rs = [fst v, fst (snd v), snd (snd v)] \<and> map dc_required rs = [True, True, True] \<and>
    map dc_name rs = [''ollama'', ''ollama_chat_model'', ''ollama_embedding_model'']"
proof -
  from assms obtain h where h: "check_health s tx oa = Inr h" and rs: "rs =
      [check_result ''ollama'' True (oh_reachable h) (uni ''Ollama is unreachable.''),
       check_result ''ollama_chat_model'' True (oh_chat_model_available h)
         (uni ''Configured chat model '' @ py_repr (ollama_chat_model s) @ uni '' is not available.''),
       check_result ''ollama_embedding_model'' True (oh_embedding_model_available h)
         (uni ''Configured embedding model '' @ py_repr (ollama_embedding_model s) @ uni '' is not available.'')]"
    by (cases "check_health s tx oa") (simp_all add: check_ollama_def)
  show ?thesis
    by (rule exI [of _ "(oh_reachable h, oh_chat_model_available h, oh_embedding_model_available h)"])
      (simp add: check_health_Inr [OF h] rs)
qed

lemma check_storage_Inr:
  assumes "fst (check_file_storage ios la mo s dl f) = Inr r"
  shows "dc_ok r = (dl = None \<and> fst (probe_storage la mo s f) = Inr ()) \<and> dc_required r \<and> dc_name r = ''file_storage''"
proof (cases dl)
  case (Some f1)
  with assms show ?thesis by (auto simp: check_file_storage_def)
next
  case None
  obtain x f1 where probe: "probe_storage la mo s f = (x, f1)" by fastforce
  show ?thesis
  proof (cases x)
    case (Inr u)
    with None assms probe show ?thesis by (auto simp: check_file_storage_def)
  next
    case (Inl e)
    with None assms probe show ?thesis by (cases e) (auto simp: check_file_storage_def Let_def split: if_splits)
  qed
qed

lemma run_all_checks_Inr: "run_all_checks pick p r q os st = Inr checks \<Longrightarrow>
    \<exists>a b c ds e. p = Inr a \<and> r = Inr b \<and> q = Inr c \<and> os = Inr ds \<and> st = Inr e \<and> checks = [a, b, c] @ ds @ [e]"
  by (auto simp: run_all_checks_def split: sum.splits)

lemma readiness_cases: "\<exists>code body. build_readiness_result checks = Success code body \<and>
    code = (if list_all dc_ok (filter dc_required checks) then 200 else 503) \<and> ck_checks body = filter dc_required checks \<and>
    (ck_error body = None \<longleftrightarrow> code = 200)"
  by (auto simp: build_readiness_result_def Let_def list_all_iff filter_empty_conv)

lemma three_list: "map f rs = [x, y, z] \<Longrightarrow> \<exists>a b c. rs = [a, b, c] \<and> f a = x \<and> f b = y \<and> f c = z"
  by (auto simp: Cons_eq_map_conv map_eq_Cons_conv)

text \<open>What makes a check raise, which none of the \<open>try\<close> blocks covers: building or closing the database engine or the
  Redis client, a Qdrant or Ollama failure that is no HTTP error, an Ollama success that is no list of named models, and a
  storage exception that is neither a storage error nor an \<open>OSError\<close>.  A name that is not a string is harmless behind
  the name looked for.\<close>

definition names_unreadable :: "ustr \<Rightarrow> json list \<Rightarrow> bool" where
  "names_unreadable m names \<longleftrightarrow> (\<exists>before j rest. names = before @ j # rest \<and> (\<forall>t. j \<noteq> JStr t) \<and> \<not> has_model m before)"

definition ollama_raises :: "settings \<Rightarrow> raw_exn + http_response \<Rightarrow> bool" where
  "ollama_raises s oa \<longleftrightarrow>
     (case oa of
        Inl e \<Rightarrow> \<not> is_http_error e
      | Inr r \<Rightarrow> is_success r \<and> (case available_models r of None \<Rightarrow> True
          | Some names \<Rightarrow> names_unreadable (ollama_chat_model s) names \<or> names_unreadable (ollama_embedding_model s) names))"

definition storage_raises :: "(exn \<Rightarrow> bool) \<Rightarrow> 's option \<Rightarrow> exn + unit \<Rightarrow> bool" where
  "storage_raises is_os_error deadline probed \<longleftrightarrow>
     deadline = None \<and> (\<exists>e. probed = Inl e \<and> (\<forall>x. e \<noteq> StorageErr x) \<and> \<not> is_os_error e)"

lemma has_model_simps [simp]: "\<not> has_model m []"
  "has_model m (JStr t # names) \<longleftrightarrow> t = m \<or> prefix (m @ [58]) t \<or> has_model m names"
  "(\<forall>t. j \<noteq> JStr t) \<Longrightarrow> has_model m (j # names) \<longleftrightarrow> has_model m names"
  by (auto simp: has_model_def split: json.splits)

lemma names_unreadable_Cons: "names_unreadable m (j # names) \<longleftrightarrow>
    (\<forall>t. j \<noteq> JStr t) \<or> \<not> has_model m [j] \<and> names_unreadable m names"
proof
  assume "names_unreadable m (j # names)"
  then obtain before k rest where u: "j # names = before @ k # rest" "\<forall>t. k \<noteq> JStr t" "\<not> has_model m before"
    by (auto simp: names_unreadable_def)
  show "(\<forall>t. j \<noteq> JStr t) \<or> \<not> has_model m [j] \<and> names_unreadable m names"
  proof (cases before)
    case Nil
    with u show ?thesis by simp
  next
    case (Cons x xs)
    with u have "names = xs @ k # rest" "\<not> has_model m [j]" "\<not> has_model m xs" by (auto simp: has_model_def)
    with u(2) show ?thesis by (auto simp: names_unreadable_def)
  qed
next
  assume "(\<forall>t. j \<noteq> JStr t) \<or> \<not> has_model m [j] \<and> names_unreadable m names"
  then show "names_unreadable m (j # names)"
  proof
    assume "\<forall>t. j \<noteq> JStr t"
    then show ?thesis unfolding names_unreadable_def by (intro exI [of _ "[]"]) auto
  next
    assume "\<not> has_model m [j] \<and> names_unreadable m names"
    then obtain before k rest where "names = before @ k # rest" "\<forall>t. k \<noteq> JStr t" "\<not> has_model m (j # before)"
      by (auto simp: names_unreadable_def has_model_def)
    then show ?thesis unfolding names_unreadable_def by (intro exI [of _ "j # before"]) auto
  qed
qed

lemma model_present_None: "model_present m names = None \<longleftrightarrow> names_unreadable m names"
proof (induction m names rule: model_present.induct)
  case (1 m)
  show ?case by (simp add: names_unreadable_def)
qed (auto simp: names_unreadable_Cons)

lemma check_ollama_Inl: "(\<exists>e. check_ollama s tx oa = Inl e) \<longleftrightarrow> ollama_raises s oa"
  by (auto simp: check_ollama_def check_health_def ollama_raises_def model_present_None [symmetric] Let_def
      split: sum.splits option.splits)

lemma check_storage_Inl: "(\<exists>e. fst (check_file_storage ios la mo s dl f) = Inl e) \<longleftrightarrow>
    storage_raises ios dl (fst (probe_storage la mo s f))"
  by (auto simp: check_file_storage_def storage_raises_def Let_def split: option.splits prod.splits sum.splits exn.splits)

definition checks_raise :: "exn option \<Rightarrow> exn option \<Rightarrow> exn option \<Rightarrow> exn option \<Rightarrow> raw_exn + http_response \<Rightarrow> settings \<Rightarrow>
    raw_exn + http_response \<Rightarrow> (exn \<Rightarrow> bool) \<Rightarrow> 's option \<Rightarrow> exn + unit \<Rightarrow> bool" where
  "checks_raise engine engine_dispose redis redis_aclose qdrant s ollama is_os_error deadline probed \<longleftrightarrow>
     engine \<noteq> None \<or> engine_dispose \<noteq> None \<or> redis \<noteq> None \<or> redis_aclose \<noteq> None \<or>
     (\<exists>e. qdrant = Inl e \<and> \<not> is_http_error e) \<or> ollama_raises s ollama \<or> storage_raises is_os_error deadline probed"

lemma run_all_checks_Inl:
  "(\<exists>e. run_all_checks pick (check_postgres pb pp pc) (check_redis rb rp rc) (check_qdrant qa) (check_ollama s tx oa)
      (fst (check_file_storage ios la mo s dl f)) = Inl e) \<longleftrightarrow>
    checks_raise pb pc rb rc qa s oa ios dl (fst (probe_storage la mo s f))"
proof -
  have "(\<exists>e. run_all_checks pick p r q os st = Inl e) \<longleftrightarrow> (\<exists>e. p = Inl e) \<or> (\<exists>e. r = Inl e) \<or> (\<exists>e. q = Inl e) \<or> (\<exists>e. os = Inl e) \<or> (\<exists>e. st = Inl e)"
    for p r q os st
    by (auto simp: run_all_checks_def split: sum.splits)
  moreover have "(\<exists>e. check_postgres pb pp pc = Inl e) \<longleftrightarrow> pb \<noteq> None \<or> pc \<noteq> None"
    "(\<exists>e. check_redis rb rp rc = Inl e) \<longleftrightarrow> rb \<noteq> None \<or> rc \<noteq> None"
    by (auto simp: check_postgres_def check_redis_def guarded_probe_def split: option.splits)
  moreover have "(\<exists>e. check_qdrant qa = Inl e) \<longleftrightarrow> (\<exists>e. qa = Inl e \<and> \<not> is_http_error e)"
    by (auto simp: check_qdrant_def Let_def split: sum.splits)
  ultimately show ?thesis
    by (simp only: check_ollama_Inl check_storage_Inl checks_raise_def) blast
qed

lemma checks_report:
  assumes "run_all_checks pick (check_postgres pb pp pc) (check_redis rb rp rc) (check_qdrant qa) (check_ollama s tx oa)
      (fst (check_file_storage ios la mo s dl f)) = Inr checks"
  shows "\<exists>code shown full. readiness (Inr checks) = Inr (Success code shown) \<and> dependencies (Inr checks) = Inr (Success 200 full) \<and>
    code \<in> {200, 503} \<and>
    (code = 200 \<longleftrightarrow> pp = None \<and> (\<exists>h. qa = Inr h \<and> is_success h) \<and> serves_models s oa (True, True, True) \<and>
       dl = None \<and> fst (probe_storage la mo s f) = Inr ()) \<and>
    map dc_name (ck_checks shown) =
      [''postgres'', ''qdrant'', ''ollama'', ''ollama_chat_model'', ''ollama_embedding_model'', ''file_storage''] \<and>
    (ck_error shown = None \<longleftrightarrow> code = 200) \<and> (ck_status full = ''ok'' \<longleftrightarrow> code = 200 \<and> rp = None)"
proof -
  from run_all_checks_Inr [OF assms] obtain a b c ds e where parts: "check_postgres pb pp pc = Inr a" "check_redis rb rp rc = Inr b"
    "check_qdrant qa = Inr c" "check_ollama s tx oa = Inr ds" "fst (check_file_storage ios la mo s dl f) = Inr e"
    and checks: "checks = [a, b, c] @ ds @ [e]" by blast
  have pr: "a = check_result ''postgres'' True (pp = None) (uni ''Postgres is unreachable.'')"
    "b = check_result ''redis'' False (rp = None) (uni ''Redis is unreachable.'')"
    using guarded_probe_Inr [OF parts(1) [unfolded check_postgres_def]] guarded_probe_Inr [OF parts(2) [unfolded check_redis_def]]
    by simp_all
  note q = check_qdrant_Inr [OF parts(3)] and st = check_storage_Inr [OF parts(5)]
  obtain v where v: "serves_models s oa v" "map dc_ok ds = [fst v, fst (snd v), snd (snd v)]" "map dc_required ds = [True, True, True]"
    "map dc_name ds = [''ollama'', ''ollama_chat_model'', ''ollama_embedding_model'']"
    using check_ollama_Inr [OF parts(4)] by (elim exE conjE) metis
  have unique: "serves_models s oa w \<Longrightarrow> w = v" for w
    using v(1) by (auto simp: serves_models_def split: sum.splits if_splits)
  obtain x y z where ds: "ds = [x, y, z]" using three_list [OF v(3)] by blast
  have oks: "list_all dc_ok ds \<longleftrightarrow> v = (True, True, True)"
    using v(2) unfolding ds by (cases v) simp
  have ok: "list_all dc_ok ds \<longleftrightarrow> serves_models s oa (True, True, True)"
    unfolding oks using v(1) unique by metis
  have required: "filter dc_required checks = [a, c] @ ds @ [e]"
    using pr q st v(3) ds checks by simp
  obtain code shown where r: "build_readiness_result checks = Success code shown"
    "code = (if list_all dc_ok ([a, c] @ ds @ [e]) then 200 else 503)" "ck_checks shown = [a, c] @ ds @ [e]"
    "ck_error shown = None \<longleftrightarrow> code = 200" using readiness_cases [of checks] required by auto
  have all: "list_all dc_ok ([a, c] @ ds @ [e]) \<longleftrightarrow> pp = None \<and> (\<exists>h. qa = Inr h \<and> is_success h) \<and>
      serves_models s oa (True, True, True) \<and> dl = None \<and> fst (probe_storage la mo s f) = Inr ()"
    using pr(1) q st ok by auto
  have "ck_status (build_dependencies_response checks) = ''ok'' \<longleftrightarrow> list_all dc_ok checks"
    by (auto simp: build_dependencies_response_def Let_def filter_empty_conv list_all_iff)
  moreover have "list_all dc_ok checks \<longleftrightarrow> list_all dc_ok ([a, c] @ ds @ [e]) \<and> rp = None"
    using pr(2) checks by auto
  ultimately show ?thesis
    using r all ok pr(1) q st v(4) by (simp add: readiness_def dependencies_def) blast
qed

text \<open>C13: For every behaviour of the five dependencies.  When a check raises, by one of the ways that
  \<open>checks_raise\<close> lists, building or closing the Redis client among them, both endpoints answer 500 with the fixed text.
  Otherwise the readiness probe answers 200 exactly when the database answered its query, Qdrant answered with a
  success, Ollama answered with a list holding both configured models (with any tag), and the configured storage passed
  its probe in time, and 503 with an error if not; Redis, which is left out of its body, does not matter.  The
  dependencies endpoint then answers 200, and says ok exactly when also Redis answered.\<close>

theorem readiness_truth:
  "let checks = run_all_checks pick (check_postgres pb pp pc) (check_redis rb rp rc) (check_qdrant qa) (check_ollama s tx oa)
      (fst (check_file_storage ios la mo s dl f)) in
   if checks_raise pb pc rb rc qa s oa ios dl (fst (probe_storage la mo s f))
   then served (readiness checks) = Refused 500 unexpected_error_detail \<and>
     served (dependencies checks) = Refused 500 unexpected_error_detail
   else \<exists>code shown full. served (readiness checks) = Success code shown \<and> served (dependencies checks) = Success 200 full \<and>
     code \<in> {200, 503} \<and>
     (code = 200 \<longleftrightarrow> pp = None \<and> (\<exists>h. qa = Inr h \<and> is_success h) \<and> serves_models s oa (True, True, True) \<and>
        dl = None \<and> fst (probe_storage la mo s f) = Inr ()) \<and>
     map dc_name (ck_checks shown) =
       [''postgres'', ''qdrant'', ''ollama'', ''ollama_chat_model'', ''ollama_embedding_model'', ''file_storage''] \<and>
     (ck_error shown = None \<longleftrightarrow> code = 200) \<and> (ck_status full = ''ok'' \<longleftrightarrow> code = 200 \<and> rp = None)"
proof (cases "run_all_checks pick (check_postgres pb pp pc) (check_redis rb rp rc) (check_qdrant qa) (check_ollama s tx oa)
      (fst (check_file_storage ios la mo s dl f))")
  case (Inl e)
  then have "checks_raise pb pc rb rc qa s oa ios dl (fst (probe_storage la mo s f))"
    by (rule run_all_checks_Inl [THEN iffD1, OF exI])
  with Inl show ?thesis
    by (simp add: Let_def readiness_def dependencies_def served_def unhandled_exception_handler_def)
next
  case (Inr checks)
  have "\<not> checks_raise pb pc rb rc qa s oa ios dl (fst (probe_storage la mo s f))"
    using run_all_checks_Inl [of pick pb pp pc rb rp rc qa s tx oa ios la mo dl f] Inr by auto
  with checks_report [OF Inr] show ?thesis
    unfolding Inr Let_def served_def by (simp only: if_False) fastforce
qed

theorem readiness_truth_witness:
  "\<exists>code shown. served (readiness (run_all_checks hd (check_postgres None None None) (check_redis None (Some os_error) None)
      (check_qdrant (Inr (response 200 JNull))) (check_ollama default_settings dec (Inl (HTTPError [])))
      (fst (check_file_storage (\<lambda>_. False) (\<lambda>_. local_file_storage (\<lambda>_. 0) concat []) (\<lambda>_. Inl (StorageConfigurationError [])) default_settings
        (Some sample_fs) sample_fs)))) = Success code shown \<and> code = 503"
proof -
  have "\<not> checks_raise None None None None (Inr (response 200 JNull)) default_settings (Inl (HTTPError [])) (\<lambda>_. False)
      (Some sample_fs) probed" for probed
    by (simp add: checks_raise_def ollama_raises_def storage_raises_def)
  with readiness_truth [of hd None None None None "Some os_error" None "Inr (response 200 JNull)" default_settings dec
      "Inl (HTTPError [])" "\<lambda>_. False" "\<lambda>_. local_file_storage (\<lambda>_. 0) concat []" "\<lambda>_. Inl (StorageConfigurationError [])"
      "Some sample_fs" sample_fs]
  show ?thesis by (auto simp: Let_def)
qed

text \<open>The checks are documented never to raise, and so the readiness probe to answer 200 or 503.  It answers 500
  when Ollama's answer is not what its client expects: a success whose body is no JSON, or names a model by something
  other than a string.\<close>

lemma ollama_check_raises:
  "check_ollama s tx (Inr (\<lparr>status_code = 200, body = None\<rparr>)) = Inl attribute_error"
  "check_ollama s tx (Inr (\<lparr>status_code = 200, body = Some (JObj [(uni ''models'', JList [JObj [(uni ''name'', JNull)]])])\<rparr>)) =
    Inl attribute_error"
  by (simp_all add: check_ollama_def check_health_def Let_def is_success_def available_models_def json_get_or_def json_get_def)

lemma readiness_raises:
  "check_ollama s tx oa = Inl e \<Longrightarrow> \<exists>e'. readiness (run_all_checks pick p r q (check_ollama s tx oa) st) = Inl e'"
  by (auto simp: readiness_def run_all_checks_def split: sum.split)

lemma health_check_raises:
  "served (readiness (run_all_checks pick p r q (check_ollama s tx (Inr (\<lparr>status_code = 200, body = None\<rparr>))) st)) =
    Refused 500 unexpected_error_detail"
proof -
  obtain e' where "readiness (run_all_checks pick p r q (check_ollama s tx (Inr (\<lparr>status_code = 200, body = None\<rparr>))) st) = Inl e'"
    using readiness_raises [OF ollama_check_raises(1)] by blast
  then show ?thesis by (simp add: served_def unhandled_exception_handler_def)
qed

text \<open>The storage probe touches no object but its own, whatever goes wrong.\<close>

lemma probe_leaves_objects:
  assumes "file_store (local_at (local_storage_root s)) address content" and "create_file_storage minio_of s = Inr (UseLocal (local_storage_root s))"
    and "address probe_key \<noteq> Some a"
  shows "content (snd (probe_storage local_at minio_of s f)) a = content f a"
  using file_store.save_frame [OF assms(1,3)] file_store.delete_frame [OF assms(1,3)] assms(2)
  by (auto simp: probe_storage_def split: prod.split sum.split) (metis snd_conv)+

lemma probe_key_parts: "path_parts probe_key = [uni ''__health_check__'', uni ''probe.txt'']"
  by (simp add: probe_key_def path_parts_def uni_def)

lemma probe_keeps_documents:
  assumes "plain_name document_id" and "plain_name uuid_hex" and "3 \<le> length uuid_hex"
    and stored_at: "local_address base (generate_object_key uuid_hex document_id name) = Some a"
    and "create_file_storage minio_of s = Inr (UseLocal (local_storage_root s))"
  shows "file_content (snd (probe_storage (\<lambda>_. local_file_storage ds uri base) minio_of s f)) a = file_content f a"
proof (rule probe_leaves_objects [OF _ assms(5)])
  show "file_store (local_file_storage ds uri base) (local_address base) file_content" by (rule local.file_store_axioms)
  have "uni ''documents'' \<noteq> uni ''__health_check__''" by (simp add: uni_def)
  then show "local_address base probe_key \<noteq> Some a"
    using stored_at generated_key_parts [OF assms(1-3), of name]
    by (auto simp: local_address_def probe_key_parts split: sum.splits dest!: resolve_Inr)
qed

section \<open>The provider's status endpoint\<close>

record ollama_health_response =
  ohr_reachable :: bool
  ohr_chat_model :: ustr
  ohr_chat_model_available :: bool
  ohr_embedding_model :: ustr
  ohr_embedding_model_available :: bool
  ohr_error :: "ustr option"

definition ollama_health_route :: "settings \<Rightarrow> (nat \<Rightarrow> ustr) \<Rightarrow> raw_exn + http_response \<Rightarrow> exn + ollama_health_response http_answer" where
  "ollama_health_route s status_text answer =
     (case check_health s status_text answer of
        Inl e \<Rightarrow> Inl e
      | Inr h \<Rightarrow> Inr (Success
          (if \<not> (oh_reachable h \<and> oh_chat_model_available h \<and> oh_embedding_model_available h) then 503 else 200)
          \<lparr>ohr_reachable = oh_reachable h, ohr_chat_model = ollama_chat_model s,
           ohr_chat_model_available = oh_chat_model_available h, ohr_embedding_model = ollama_embedding_model s,
           ohr_embedding_model_available = oh_embedding_model_available h, ohr_error = oh_error h\<rparr>))"

text \<open>Status 200 means that all three Ollama checks of the readiness report pass.\<close>

lemma ollama_route_agrees:
  "(\<exists>b. ollama_health_route s status_text answer = Inr (Success 200 b)) \<longleftrightarrow>
   (\<exists>cs. check_ollama s status_text answer = Inr cs \<and> list_all dc_ok cs)"
  by (auto simp: ollama_health_route_def check_ollama_def check_result_def split: sum.splits)

end
