(* ===== verification/Collection_Report.thy ===== *)
theory Collection_Report
  imports Collection_Registry Document_Audit
begin

text \<open>
  The read-only report on one collection (\<open>app/services/reconciliation/collection_reconciliation_report_service.py\<close>):
  what the database claims of the collection against the number of points the vector store counts.
\<close>

section \<open>The report\<close>

datatype collection_report_error =
    InvalidCollectionNameError ustr
  | ReportRaised exn

datatype collection_report_classification = CrHealthy | CrInconsistent | CrMissing | CrUnmanaged

datatype collection_report_finding_code = COLLECTION_MISSING | COLLECTION_UNMANAGED | VECTOR_COUNT_DEFICIT

record collection_report_finding =
  crf_code :: collection_report_finding_code
  crf_severity :: finding_severity
  crf_summary :: ustr
  crf_expected_state :: ustr
  crf_actual_state :: ustr

record collection_reconciliation_report =
  crr_collection_name :: ustr
  crr_classification :: collection_report_classification
  crr_exists :: bool
  crr_is_active :: bool
  crr_index_collection_status :: "collection_status option"
  crr_embedding_provider :: "ustr option"
  crr_embedding_model :: "ustr option"
  crr_embedding_dimension :: "int option"
  crr_embedding_version :: "ustr option"
  crr_chunking_version :: "ustr option"
  crr_document_count :: int
  crr_expected_vector_count :: int
  crr_actual_vector_count :: int
  crr_difference :: int
  crr_findings :: "collection_report_finding list"
  crr_generated_at :: time

definition collection_name_valid :: "ustr \<Rightarrow> bool" where
  "collection_name_valid name \<longleftrightarrow> list_all name_char name \<and> 1 \<le> length name \<and> length name \<le> 255"

definition validate_collection_name :: "ustr \<Rightarrow> collection_report_error option" where
  "validate_collection_name name =
     (if collection_name_valid name then None
      else Some (InvalidCollectionNameError
        (uni ''collection_name must be 1-255 characters of lowercase letters, digits, '_' or '-'.'')))"

definition document_count_for_collection :: "db \<Rightarrow> ustr \<Rightarrow> nat" where
  "document_count_for_collection d name = length (filter (\<lambda>doc. collection_name doc = Some name) (documents d))"

definition collection_report :: "ustr \<Rightarrow> bool \<Rightarrow> index_collection option \<Rightarrow> int \<Rightarrow> time \<Rightarrow> collection_report_classification \<Rightarrow> bool \<Rightarrow>
    int \<Rightarrow> collection_report_finding list \<Rightarrow> collection_reconciliation_report" where
  "collection_report name is_active row document_count generated_at cls present actual findings =
     \<lparr>crr_collection_name = name, crr_classification = cls, crr_exists = present, crr_is_active = is_active,
      crr_index_collection_status = map_option ic_status row, crr_embedding_provider = map_option ic_embedding_provider row,
      crr_embedding_model = map_option ic_embedding_model row, crr_embedding_dimension = map_option ic_embedding_dimension row,
      crr_embedding_version = map_option ic_embedding_version row, crr_chunking_version = map_option ic_chunking_version row,
      crr_document_count = document_count, crr_expected_vector_count = document_count, crr_actual_vector_count = actual,
      crr_difference = actual - document_count, crr_findings = findings, crr_generated_at = generated_at\<rparr>"

definition missing_finding :: "ustr \<Rightarrow> collection_report_finding" where
  "missing_finding name = \<lparr>crf_code = COLLECTION_MISSING, crf_severity = SevError,
     crf_summary = uni ''The collection does not exist in Qdrant.'',
     crf_expected_state = uni ''Collection '' @ py_repr name @ uni '' exists.'',
     crf_actual_state = uni ''No such collection was found.''\<rparr>"

definition unmanaged_finding :: collection_report_finding where
  "unmanaged_finding = \<lparr>crf_code = COLLECTION_UNMANAGED, crf_severity = SevWarning,
     crf_summary = uni ''The collection exists in Qdrant but has no persisted IndexCollection row.'',
     crf_expected_state = uni ''Every collection this platform serves from has a persisted IndexCollection row.'',
     crf_actual_state = uni ''No IndexCollection row was found for this collection name.''\<rparr>"

definition deficit_finding :: "int \<Rightarrow> int \<Rightarrow> collection_report_finding" where
  "deficit_finding document_count actual = \<lparr>crf_code = VECTOR_COUNT_DEFICIT, crf_severity = SevError,
     crf_summary = uni ''Fewer vectors exist than documents currently claim this collection.'',
     crf_expected_state = uni ''At least '' @ str_int document_count @ uni '' vectors (one per claiming document).'',
     crf_actual_state = str_int actual @ uni '' vectors found.''\<rparr>"

text \<open>\<open>now\<close> is the Python clock, read before the queries.\<close>

definition build_collection_reconciliation_report :: "time \<Rightarrow> settings \<Rightarrow> 'v vector_store \<Rightarrow> ustr \<Rightarrow>
    ('v \<times> db, collection_report_error, collection_reconciliation_report) call" where
  "build_collection_reconciliation_report now s vs name = (\<lambda>(v, d).
     case validate_collection_name name of
       Some e \<Rightarrow> (Inl e, v, d)
     | None \<Rightarrow>
         let row = get_index_collection d name;
             document_count = int (document_count_for_collection d name)
         in (case get_active_embedding_config s of
              Inl e \<Rightarrow> (Inl (ReportRaised e), v, d)
            | Inr desired \<Rightarrow>
                let report = collection_report name (name = config_collection_name desired) row document_count now
                in (case vs_count_collection_vectors vs name v of
                     (Inl e, v1) \<Rightarrow> (Inl (ReportRaised e), v1, d)
                   | (Inr None, v1) \<Rightarrow> (Inr (report CrMissing False 0 [missing_finding name]), v1, d)
                   | (Inr (Some actual), v1) \<Rightarrow>
                       (Inr (if row = None then report CrUnmanaged True actual [unmanaged_finding]
                             else if actual - document_count < 0 then
                               report CrInconsistent True actual [deficit_finding document_count actual]
                             else report CrHealthy True actual []), v1, d))))"

section \<open>Properties\<close>

lemma count_documents: "document_count_for_collection d name = 0 \<longleftrightarrow> (\<forall>doc \<in> set (documents d). collection_name doc \<noteq> Some name)"
  by (auto simp: document_count_for_collection_def filter_empty_conv)

lemma report_cases:
  assumes "build_collection_reconciliation_report now s vs name (v, d) = (Inr rep, w)"
  obtains r v1 desired where "vs_count_collection_vectors vs name v = (Inr r, v1)" "w = (v1, d)"
    "get_active_embedding_config s = Inr desired" "validate_collection_name name = None"
    "rep = (let row = get_index_collection d name; k = int (document_count_for_collection d name);
        report = collection_report name (name = config_collection_name desired) row k now
      in (case r of None \<Rightarrow> report CrMissing False 0 [missing_finding name]
        | Some actual \<Rightarrow> (if row = None then report CrUnmanaged True actual [unmanaged_finding]
                             else if actual - k < 0 then report CrInconsistent True actual [deficit_finding k actual]
                             else report CrHealthy True actual [])))"
  using assms
  by (auto simp: build_collection_reconciliation_report_def Let_def split: option.splits sum.splits prod.splits)

text \<open>Every collection name the platform generates, unless too long, is one the report accepts: the comment on the
  pattern is right about the characters.\<close>

lemma join_empty: "join sep (x # y # zs) = [] \<longleftrightarrow> x = [] \<and> sep = [] \<and> join sep (y # zs) = []"
  by simp

lemma generated_name_valid: "validate_collection_name (config_collection_name c) = None \<longleftrightarrow> length (config_collection_name c) \<le> 255"
proof -
  have chars: "list_all name_char (config_collection_name c)"
    unfolding config_collection_name_def list_all_iff
    by (auto dest!: join_chars simp: sanitize_chars) (auto simp: name_char_def uni_def)
  moreover have "config_collection_name c \<noteq> []"
    by (simp add: config_collection_name_def)
  ultimately show ?thesis
    by (simp add: validate_collection_name_def collection_name_valid_def Suc_le_eq)
qed

lemma report_content:
  assumes vi: "vector_index vs stored sizes"
    and run: "build_collection_reconciliation_report now s vs name (v, d) = (Inr rep, v', d')"
  shows "d' = d \<and> stored v' = stored v \<and> sizes v' = sizes v \<and> collection_name_valid name"
    and "crr_classification rep =
      (if sizes v name = None then CrMissing
       else if get_index_collection d name = None then CrUnmanaged
       else if crr_actual_vector_count rep < crr_document_count rep then CrInconsistent else CrHealthy)"
    and "crr_document_count rep = int (document_count_for_collection d name)"
    and "sizes v name \<noteq> None \<Longrightarrow> fst (vs_count_collection_vectors vs name v) = Inr (Some (crr_actual_vector_count rep))"
    and "(crr_findings rep = []) = (crr_classification rep = CrHealthy)"
    and "crr_difference rep = crr_actual_vector_count rep - crr_document_count rep"
proof -
  from run obtain r v1 desired where count: "vs_count_collection_vectors vs name v = (Inr r, v1)" and w: "(v', d') = (v1, d)"
    and valid: "validate_collection_name name = None"
    and rep: "rep = (let row = get_index_collection d name; k = int (document_count_for_collection d name);
        report = collection_report name (name = config_collection_name desired) row k now
      in (case r of None \<Rightarrow> report CrMissing False 0 [missing_finding name]
        | Some actual \<Rightarrow> (if row = None then report CrUnmanaged True actual [unmanaged_finding]
                             else if actual - k < 0 then report CrInconsistent True actual [deficit_finding k actual]
                             else report CrHealthy True actual [])))"
    by (rule report_cases)
  have r: "r = None \<longleftrightarrow> sizes v name = None" using vector_index.count_all_ok [OF vi count] .
  show "d' = d \<and> stored v' = stored v \<and> sizes v' = sizes v \<and> collection_name_valid name"
    using count w valid vector_index.count_all_frame [OF vi, of name v]
    by (simp add: validate_collection_name_def split: if_splits)
  show "crr_classification rep =
      (if sizes v name = None then CrMissing
       else if get_index_collection d name = None then CrUnmanaged
       else if crr_actual_vector_count rep < crr_document_count rep then CrInconsistent else CrHealthy)"
    "crr_document_count rep = int (document_count_for_collection d name)"
    "(crr_findings rep = []) = (crr_classification rep = CrHealthy)"
    "crr_difference rep = crr_actual_vector_count rep - crr_document_count rep"
    using r by (cases r; simp add: rep collection_report_def Let_def)+
  show "fst (vs_count_collection_vectors vs name v) = Inr (Some (crr_actual_vector_count rep))" if "sizes v name \<noteq> None"
    using r count that by (cases r) (simp_all add: rep collection_report_def Let_def)
qed

text \<open>C38: The collection report tells the truth and changes nothing.  It is made only for a name of the accepted
  form; it says MISSING exactly when the vector store does not have the collection, UNMANAGED exactly when it has it
  but no row tracks it, and else INCONSISTENT or HEALTHY as the points the store counted are fewer than the documents
  claiming the collection or not; it is free of findings exactly when HEALTHY, and a HEALTHY collection that a
  document claims is not empty.  Just after a collection has been ensured for indexing, its report is neither
  MISSING nor UNMANAGED.\<close>

theorem collection_report_truth:
  assumes vi: "vector_index vs stored sizes"
    and run: "build_collection_reconciliation_report now s vs name (v, d) = (Inr rep, v', d')"
  shows "d' = d \<and> stored v' = stored v \<and> sizes v' = sizes v \<and> collection_name_valid name \<and>
    crr_classification rep =
      (if sizes v name = None then CrMissing
       else if get_index_collection d name = None then CrUnmanaged
       else if crr_actual_vector_count rep < crr_document_count rep then CrInconsistent else CrHealthy) \<and>
    (sizes v name \<noteq> None \<longrightarrow> fst (vs_count_collection_vectors vs name v) = Inr (Some (crr_actual_vector_count rep))) \<and>
    crr_document_count rep = int (length (filter (\<lambda>doc. collection_name doc = Some name) (documents d))) \<and>
    (crr_findings rep = [] \<longleftrightarrow> crr_classification rep = CrHealthy) \<and>
    (crr_classification rep = CrHealthy \<and> list_ex (\<lambda>doc. collection_name doc = Some name) (documents d) \<longrightarrow>
       0 < crr_actual_vector_count rep) \<and>
    (name = config_collection_name c \<and> ensure_active_collection env t vs c (v0, d0) = (Inr (), v, d) \<longrightarrow>
       crr_classification rep = CrHealthy \<or> crr_classification rep = CrInconsistent)"
proof -
  note facts = report_content [OF vi run]
  have claimed: "0 < crr_actual_vector_count rep"
    if "crr_classification rep = CrHealthy" "list_ex (\<lambda>doc. collection_name doc = Some name) (documents d)"
  proof -
    have "0 < document_count_for_collection d name"
      using that(2) count_documents [of d name] by (auto simp: list_ex_iff)
    with that(1) facts(2,3) show ?thesis by (simp split: if_splits)
  qed
  have ensured: "crr_classification rep = CrHealthy \<or> crr_classification rep = CrInconsistent"
    if "name = config_collection_name c" "ensure_active_collection env t vs c (v0, d0) = (Inr (), v, d)"
    using ensure_frame [OF vi that(2)] that(1) facts(2) by (auto split: if_splits)
  show ?thesis
    using facts(1,2,3,4,5) claimed ensured by (auto simp: document_count_for_collection_def simp del: map_option_eq_Some)
qed

text \<open>A store that has a collection which no row tracks.\<close>

definition untracked_index :: mem_index where
  "untracked_index = empty_index\<lparr>mi_sizes := [uni ''old'' \<mapsto> 3]\<rparr>"

lemma mem_count_all:
  assumes "mi_failures s = []" and "mi_sizes s c = Some k"
  shows "\<exists>n. count_collection_vectors mem_qdrant c s = (Inr (Some n), s)"
  using assms by (simp add: count_collection_vectors_def mem_runs mem_checked_request mem_answer_def mem_post_def Let_def
      url_collection_urls response_def parse_count_def json_path_def json_get_def)

lemma default_config: "\<exists>c. get_active_embedding_config default_settings = Inr c"
  by (simp add: get_active_embedding_config_def post_init_def default_settings_def resolved_embedding_model_def
      or_default_def py_strip_eq_Nil uni_def py_space_def)

lemma untracked_report: "\<exists>rep v'. build_collection_reconciliation_report 7 default_settings (qdrant_vector_store mem_qdrant) (uni ''old'')
      (untracked_index, sample_db) = (Inr rep, v', sample_db)"
proof -
  obtain k where "count_collection_vectors mem_qdrant (uni ''old'') untracked_index = (Inr (Some k), untracked_index)"
    using mem_count_all [of untracked_index "uni ''old''" 3] by (auto simp: untracked_index_def empty_index_def)
  moreover have "validate_collection_name (uni ''old'') = None"
    by (simp add: validate_collection_name_def collection_name_valid_def uni_def name_char_def)
  ultimately show ?thesis
    using default_config by (auto simp: build_collection_reconciliation_report_def Let_def mem_runs)
qed

theorem collection_report_truth_witness:
  "\<exists>rep v'. build_collection_reconciliation_report 7 default_settings (qdrant_vector_store mem_qdrant) (uni ''old'')
      (untracked_index, sample_db) = (Inr rep, v', sample_db) \<and> crr_classification rep = CrUnmanaged"
proof -
  obtain rep v' where run: "build_collection_reconciliation_report 7 default_settings (qdrant_vector_store mem_qdrant) (uni ''old'')
      (untracked_index, sample_db) = (Inr rep, v', sample_db)" using untracked_report by blast
  have "get_index_collection sample_db (uni ''old'') = None" by (simp add: get_index_collection_def sample_defs row_simps)
  moreover have "mi_sizes untracked_index (uni ''old'') = Some 3" by (simp add: untracked_index_def)
  ultimately have "crr_classification rep = CrUnmanaged"
    using collection_report_truth [OF mem.index.vector_index_axioms run] by simp
  with run show ?thesis by blast
qed

end
