(* ===== verification/Reconciliation_Routes.thy ===== *)
theory Reconciliation_Routes
  imports Collection_Report Audit_Batch Http
begin

text \<open>
  The reconciliation endpoints (\<open>app/api/v1/routes/reconciliation.py\<close>, \<open>app/schemas/reconciliation.py\<close>).
\<close>

section \<open>Bodies\<close>

record audit_finding_response =
  afr_code :: finding_code
  afr_severity :: finding_severity
  afr_summary :: ustr
  afr_expected_state :: ustr
  afr_actual_state :: ustr
  afr_suggested_action :: ustr
  afr_destructive_risk :: bool

record batch_audit_item_response =
  bai_document_id :: ustr
  bai_original_filename :: ustr
  bai_created_at :: time
  bai_overall_status :: audit_overall_status
  bai_classification :: audit_classification
  bai_issues :: "audit_finding_response list"

record batch_audit_summary_response =
  bas_total :: nat
  bas_consistent :: nat
  bas_transitional :: nat
  bas_warning :: nat
  bas_inconsistent :: nat
  bas_not_found :: nat
  bas_dependency_unavailable :: nat
  bas_finding_counts :: "finding_code \<rightharpoonup> nat"

record batch_audit_response =
  bar_items :: "batch_audit_item_response list"
  bar_summary :: batch_audit_summary_response
  bar_limit :: int
  bar_next_cursor :: "ustr option"

record database_state_response =
  dbr_document_exists :: bool
  dbr_collection_name :: "ustr option"
  dbr_document_created_at :: "time option"
  dbr_latest_ingestion_status :: "ingestion_status option"
  dbr_latest_deletion_status :: "deletion_status option"
  dbr_latest_reindex_status :: "reindex_status option"
  dbr_latest_reindex_activated :: bool
  dbr_pending_cleanup_collections :: "ustr list"

record file_storage_state_response =
  fsr_inspected :: bool
  fsr_source_file_exists :: "bool option"

record vector_store_state_response =
  vsr_inspected :: bool
  vsr_collection_name :: "ustr option"
  vsr_collection_exists :: "bool option"
  vsr_has_vectors :: "bool option"
  vsr_vector_count :: "int option"

record lifecycle_audit_response =
  lar_document_id :: ustr
  lar_overall_status :: audit_overall_status
  lar_classification :: audit_classification
  lar_issues :: "audit_finding_response list"
  lar_database :: database_state_response
  lar_file_storage :: "file_storage_state_response option"
  lar_vector_store :: "vector_store_state_response option"

record collection_finding_response =
  cfr_code :: collection_report_finding_code
  cfr_severity :: finding_severity
  cfr_summary :: ustr
  cfr_expected_state :: ustr
  cfr_actual_state :: ustr

record collection_report_response =
  cr_collection_name :: ustr
  cr_classification :: collection_report_classification
  cr_exists :: bool
  cr_is_active :: bool
  cr_index_collection_status :: "collection_status option"
  cr_embedding_provider :: "ustr option"
  cr_embedding_model :: "ustr option"
  cr_embedding_dimension :: "int option"
  cr_embedding_version :: "ustr option"
  cr_chunking_version :: "ustr option"
  cr_document_count :: int
  cr_expected_vector_count :: int
  cr_actual_vector_count :: int
  cr_difference :: int
  cr_issues :: "collection_finding_response list"
  cr_generated_at :: time

section \<open>Rendering\<close>

definition finding_response :: "lifecycle_finding \<Rightarrow> audit_finding_response" where
  "finding_response f =
     \<lparr>afr_code = fi_code f, afr_severity = fi_severity f, afr_summary = fi_summary f, afr_expected_state = fi_expected_state f,
      afr_actual_state = fi_actual_state f, afr_suggested_action = fi_suggested_action f, afr_destructive_risk = fi_destructive_risk f\<rparr>"

definition item_response :: "audit_summary \<Rightarrow> batch_audit_item_response" where
  "item_response s =
     \<lparr>bai_document_id = as_document_id s, bai_original_filename = as_original_filename s, bai_created_at = as_created_at s,
      bai_overall_status = as_overall_status s, bai_classification = as_classification s,
      bai_issues = map finding_response (as_findings s)\<rparr>"

definition database_response :: "audit_result \<Rightarrow> database_state_response" where
  "database_response res =
     (case ar_postgres_state res of
        None \<Rightarrow>
          \<lparr>dbr_document_exists = False, dbr_collection_name = None, dbr_document_created_at = None,
           dbr_latest_ingestion_status = None, dbr_latest_deletion_status = None, dbr_latest_reindex_status = None,
           dbr_latest_reindex_activated = False, dbr_pending_cleanup_collections = []\<rparr>
      | Some st \<Rightarrow>
          \<lparr>dbr_document_exists = True, dbr_collection_name = pg_collection_name st,
           dbr_document_created_at = Some (pg_document_created_at st),
           dbr_latest_ingestion_status = pg_latest_ingestion_status st, dbr_latest_deletion_status = pg_latest_deletion_status st,
           dbr_latest_reindex_status = pg_latest_reindex_status st, dbr_latest_reindex_activated = pg_latest_reindex_activated st,
           dbr_pending_cleanup_collections = pg_pending_cleanup_collections st\<rparr>)"

definition file_storage_state_of :: "audit_result \<Rightarrow> file_storage_state_response option" where
  "file_storage_state_of res =
     map_option (\<lambda>st. \<lparr>fsr_inspected = st_inspected st, fsr_source_file_exists = st_exists st\<rparr>) (ar_storage_state res)"

definition vector_store_state_of :: "audit_result \<Rightarrow> vector_store_state_response option" where
  "vector_store_state_of res =
     map_option (\<lambda>st. \<lparr>vsr_inspected = ve_inspected st,
         vsr_collection_name = Option.bind (ar_postgres_state res) pg_collection_name,
         vsr_collection_exists = ve_collection_exists st, vsr_has_vectors = ve_has_vectors st,
         vsr_vector_count = ve_vector_count st\<rparr>) (ar_vector_state res)"

definition collection_finding_response_of :: "collection_report_finding \<Rightarrow> collection_finding_response" where
  "collection_finding_response_of f =
     \<lparr>cfr_code = crf_code f, cfr_severity = crf_severity f, cfr_summary = crf_summary f,
      cfr_expected_state = crf_expected_state f, cfr_actual_state = crf_actual_state f\<rparr>"

section \<open>Routes\<close>

definition cursor_error_detail :: ustr where
  "cursor_error_detail = uni ''The cursor is invalid or has expired.''"

definition batch_limit_error_detail :: ustr where
  "batch_limit_error_detail = uni ''The requested limit is out of the supported range.''"

definition collection_name_error_detail :: ustr where
  "collection_name_error_detail = uni ''The collection name is invalid.''"

text \<open>A limit outside its range is refused with 422 before the route runs; \<open>batch_limit_valid\<close> is that range.\<close>

definition batch_limit_valid :: "int \<Rightarrow> bool" where
  "batch_limit_valid n \<longleftrightarrow> in_range n min_batch_limit (Some max_batch_limit)"

definition batch_answer :: "int \<Rightarrow> audit_batch_result \<Rightarrow> batch_audit_response http_answer" where
  "batch_answer n res = (let c = br_counters res in Success 200
     \<lparr>bar_items = map item_response (br_documents res),
      bar_summary = \<lparr>bas_total = br_scanned_count res, bas_consistent = consistent_count c, bas_transitional = transitional_count c,
        bas_warning = warning_count c, bas_inconsistent = inconsistent_count c, bas_not_found = not_found_count c,
        bas_dependency_unavailable = dependency_unavailable_count c, bas_finding_counts = finding_counts c\<rparr>,
      bar_limit = n, bar_next_cursor = br_next_cursor res\<rparr>)"

definition audit_documents_batch_route :: "cursor_library \<Rightarrow> 'f file_storage \<Rightarrow> 'v vector_store \<Rightarrow> settings \<Rightarrow> (nat \<Rightarrow> time) \<Rightarrow>
    int \<Rightarrow> ustr option \<Rightarrow> (('f, 'e, 'v) world, exn, batch_audit_response http_answer) call" where
  "audit_documents_batch_route lib fs vs s now n cursor w =
     (case audit_document_lifecycle_batch lib fs vs s now n cursor w of
        (Inl (InvalidAuditCursorError m), w1) \<Rightarrow> (Inr (Refused 400 cursor_error_detail), w1)
      | (Inl (InvalidAuditBatchLimitError m), w1) \<Rightarrow> (Inr (Refused 400 batch_limit_error_detail), w1)
      | (Inl (AuditRaised e), w1) \<Rightarrow> (Inl e, w1)
      | (Inr res, w1) \<Rightarrow> (Inr (batch_answer n res), w1))"

definition single_audit_answer :: "audit_result \<Rightarrow> lifecycle_audit_response http_answer" where
  "single_audit_answer res = Success 200
     \<lparr>lar_document_id = ar_document_id res, lar_overall_status = ar_overall_status res,
      lar_classification = classify_document_audit (ar_overall_status res) (ar_findings res),
      lar_issues = map finding_response (ar_findings res), lar_database = database_response res,
      lar_file_storage = file_storage_state_of res, lar_vector_store = vector_store_state_of res\<rparr>"

definition audit_single_document_route :: "'f file_storage \<Rightarrow> 'v vector_store \<Rightarrow> settings \<Rightarrow> time \<Rightarrow> ustr \<Rightarrow>
    (('f, 'e, 'v) world, exn, lifecycle_audit_response http_answer) call" where
  "audit_single_document_route fs vs s now document_id w =
     (case audit_document_lifecycle fs vs s now document_id w of
        (Inl e, w1) \<Rightarrow> (Inl e, w1)
      | (Inr res, w1) \<Rightarrow> (Inr (single_audit_answer res), w1))"

definition report_answer :: "collection_reconciliation_report \<Rightarrow> collection_report_response http_answer" where
  "report_answer r = Success 200
     \<lparr>cr_collection_name = crr_collection_name r, cr_classification = crr_classification r, cr_exists = crr_exists r,
      cr_is_active = crr_is_active r, cr_index_collection_status = crr_index_collection_status r,
      cr_embedding_provider = crr_embedding_provider r, cr_embedding_model = crr_embedding_model r,
      cr_embedding_dimension = crr_embedding_dimension r, cr_embedding_version = crr_embedding_version r,
      cr_chunking_version = crr_chunking_version r, cr_document_count = crr_document_count r,
      cr_expected_vector_count = crr_expected_vector_count r, cr_actual_vector_count = crr_actual_vector_count r,
      cr_difference = crr_difference r, cr_issues = map collection_finding_response_of (crr_findings r),
      cr_generated_at = crr_generated_at r\<rparr>"

definition collection_reconciliation_report_route :: "time \<Rightarrow> settings \<Rightarrow> 'v vector_store \<Rightarrow> ustr \<Rightarrow>
    ('v \<times> db, exn, collection_report_response http_answer) call" where
  "collection_reconciliation_report_route now s vs name w =
     (case build_collection_reconciliation_report now s vs name w of
        (Inl (InvalidCollectionNameError m), w1) \<Rightarrow> (Inr (Refused 400 collection_name_error_detail), w1)
      | (Inl (ReportRaised e), w1) \<Rightarrow> (Inl e, w1)
      | (Inr r, w1) \<Rightarrow> (Inr (report_answer r), w1))"

section \<open>Properties\<close>

definition items_with :: "audit_classification \<Rightarrow> batch_audit_response \<Rightarrow> nat" where
  "items_with cls b = length (filter (\<lambda>i. bai_classification i = cls) (bar_items b))"

definition issues_of :: "batch_audit_response \<Rightarrow> audit_finding_response list" where
  "issues_of b = concat (map bai_issues (bar_items b))"

lemma items_with_map:
  "length (filter (\<lambda>i. bai_classification i = cls) (map item_response out)) = length (filter (\<lambda>a. as_classification a = cls) out)"
  by (induction out) (simp_all add: item_response_def)

lemma issues_map:
  "length (filter (\<lambda>f. afr_code f = code) (concat (map bai_issues (map item_response out)))) =
   code_count code (concat (map as_findings out))"
proof -
  have "length (filter (\<lambda>f. afr_code f = code) (map finding_response fs)) = code_count code fs" for fs
    by (induction fs) (simp_all add: finding_response_def code_count_def)
  then show ?thesis by (induction out) (simp_all add: item_response_def code_count_append, simp add: code_count_def)
qed

lemma batch_refusals:
  assumes "audit_documents_batch_route lib fs vs s now n cursor w = (Inr (Refused code t), w')"
  shows "code = 400 \<and> w' = w \<and> (t = cursor_error_detail \<and> cursor \<noteq> None \<or> t = batch_limit_error_detail \<and> \<not> batch_limit_valid n)"
proof -
  have valid: "validate_limit n = None" if "batch_limit_valid n"
    using that by (auto simp: validate_limit_def batch_limit_valid_def in_range_def)
  have limit_only: "e = InvalidAuditBatchLimitError m \<Longrightarrow> validate_limit n = Some e \<Longrightarrow> \<not> batch_limit_valid n" for e m
    using valid by auto
  show ?thesis
    using assms valid
    by (auto simp: audit_documents_batch_route_def audit_document_lifecycle_batch_def batch_answer_def Let_def validate_limit_def
        decode_audit_cursor_def decode_payload_def split: sum.splits audit_batch_error.splits option.splits prod.splits if_splits payload.splits)
qed

lemma issue_codes: "(\<exists>f \<in> set (concat (map bai_issues (map item_response out))). afr_code f = code) \<longleftrightarrow> code \<in> codes (concat (map as_findings out))"
  by (force simp: item_response_def finding_response_def codes_def)

lemma batch_answered:
  assumes "audit_documents_batch_route lib fs vs s now n cursor w = (Inr (Success code b), w')"
  obtains res where "audit_document_lifecycle_batch lib fs vs s now n cursor w = (Inr res, w')" "Success code b = batch_answer n res"
  using assms by (auto simp: audit_documents_batch_route_def split: sum.splits audit_batch_error.splits prod.splits)

text \<open>The summary of a batch audit page adds up to the items in the same body, and the page is within its
  limit: the total is the number of items, each of the five classifications is counted as often as an item has it
  and together they are the total, and each finding code is counted as often as an item reports it, absent when
  none does.  A refusal is a 400 with one of two fixed texts, the cursor one only when a cursor was given, and the
  limit one never for a limit the query parameter admits; then nothing was even read.\<close>

theorem batch_audit_adds_up:
  assumes "audit_documents_batch_route lib fs vs s now n cursor w = (Inr a, w')"
  shows "w_db w' = w_db w \<and>
    (case a of
       Success code b \<Rightarrow>
         code = 200 \<and> batch_limit_valid n \<and> bar_limit b = n \<and> bas_total (bar_summary b) = length (bar_items b) \<and> length (bar_items b) \<le> nat n \<and>
         bas_consistent (bar_summary b) = items_with ClsConsistent b \<and> bas_transitional (bar_summary b) = items_with ClsTransitional b \<and>
         bas_warning (bar_summary b) = items_with ClsWarning b \<and> bas_inconsistent (bar_summary b) = items_with ClsInconsistent b \<and>
         bas_not_found (bar_summary b) = items_with ClsNotFound b \<and>
         items_with ClsConsistent b + items_with ClsTransitional b + items_with ClsWarning b + items_with ClsInconsistent b +
           items_with ClsNotFound b = bas_total (bar_summary b) \<and>
         (\<forall>c. (case bas_finding_counts (bar_summary b) c of None \<Rightarrow> 0 | Some k \<Rightarrow> k) = length (filter (\<lambda>f. afr_code f = c) (issues_of b)) \<and>
            (bas_finding_counts (bar_summary b) c = None \<longleftrightarrow> \<not> list_ex (\<lambda>f. afr_code f = c) (issues_of b)))
     | Refused code t \<Rightarrow>
         code = 400 \<and> w' = w \<and> (t = cursor_error_detail \<and> cursor \<noteq> None \<or> t = batch_limit_error_detail \<and> \<not> batch_limit_valid n))"
proof (cases a)
  case (Refused code t)
  with batch_refusals assms show ?thesis by fastforce
next
  case (Success code b)
  with assms obtain res where run: "audit_document_lifecycle_batch lib fs vs s now n cursor w = (Inr res, w')"
    and body: "Success code b = batch_answer n res" by (auto elim: batch_answered)
  note counts = audit_batch_counts [OF run]
  then have tally: "bucket_count (br_counters res) cls = length (filter (\<lambda>a. as_classification a = cls) (br_documents res))"
      "counted (finding_counts (br_counters res)) c = code_count c (concat (map as_findings (br_documents res)))"
      "finding_counts (br_counters res) c = None \<longleftrightarrow> c \<notin> codes (concat (map as_findings (br_documents res)))" for cls c
    by (simp_all add: tally_def)
  have b: "code = 200" "bar_limit b = n" "bar_items b = map item_response (br_documents res)"
      "bas_total (bar_summary b) = br_scanned_count res" "bas_finding_counts (bar_summary b) = finding_counts (br_counters res)"
      "bas_consistent (bar_summary b) = bucket_count (br_counters res) ClsConsistent"
      "bas_transitional (bar_summary b) = bucket_count (br_counters res) ClsTransitional"
      "bas_warning (bar_summary b) = bucket_count (br_counters res) ClsWarning"
      "bas_inconsistent (bar_summary b) = bucket_count (br_counters res) ClsInconsistent"
      "bas_not_found (bar_summary b) = bucket_count (br_counters res) ClsNotFound"
    using body by (auto simp: batch_answer_def Let_def bucket_count_def)
  have items: "items_with cls b = bucket_count (br_counters res) cls" for cls
    using tally by (simp only: items_with_def b(3) items_with_map)
  have issues: "(case finding_counts (br_counters res) c of None \<Rightarrow> 0 | Some k \<Rightarrow> k) = length (filter (\<lambda>f. afr_code f = c) (issues_of b))"
    "finding_counts (br_counters res) c = None \<longleftrightarrow> \<not> list_ex (\<lambda>f. afr_code f = c) (issues_of b)" for c
    using tally(2,3) [of c] by (simp_all only: issues_of_def b(3) issues_map counted_def list_ex_iff issue_codes)
  show ?thesis
    using Success counts items issues b by (simp add: batch_limit_valid_def in_range_def min_batch_limit_def max_batch_limit_def)
qed

theorem batch_audit_adds_up_witness:
  "\<exists>b w'. audit_documents_batch_route sample_library sample_storage mem_store default_settings (\<lambda>_. 0) 20 None lost_world =
      (Inr (Success 200 b), w') \<and> bas_total (bar_summary b) = length (bar_items b) \<and> w_db w' = w_db lost_world"
proof -
  obtain res w' where "audit_document_lifecycle_batch sample_library sample_storage mem_store default_settings (\<lambda>_. 0) 20 None lost_world = (Inr res, w')"
    using lost_batch by blast
  then obtain a where a: "audit_documents_batch_route sample_library sample_storage mem_store default_settings (\<lambda>_. 0) 20 None lost_world =
      (Inr a, w')" "a = batch_answer 20 res" by (simp add: audit_documents_batch_route_def)
  then obtain b where b: "a = Success 200 b" by (simp add: batch_answer_def Let_def)
  from batch_audit_adds_up [OF a(1)] b a(1) show ?thesis by auto
qed

end
