(* ===== verification/Reindex_Inspection.thy ===== *)
theory Reindex_Inspection
  imports Reindex_Activation Reindex_Scheduling
begin

text \<open>
  The re-index state of a document as an operator sees it
  (\<open>app/services/indexing/reindex_inspection_service.py\<close>): whether it is stale, its latest attempt, and two
  hints on what could be done.  \<open>env k\<close> is what other sessions commit before the query that follows the
  \<open>k\<close>-th.
\<close>

datatype reindex_lifecycle_state =
  RlsNotIndexed | RlsUpToDate | RlsStale | RlsReindexPending | RlsReindexProcessing | RlsTargetBuilt
  | RlsActivated | RlsFailed | RlsDeletionBlocked

record index_config_snapshot =
  sn_collection_name :: "ustr option"
  sn_provider :: "ustr option"
  sn_model :: "ustr option"
  sn_dimension :: "int option"
  sn_embedding_version :: "ustr option"
  sn_chunking_version :: "ustr option"
  sn_chunk_size :: "int option"
  sn_chunk_overlap :: "int option"

record document_reindex_state =
  drs_document_id :: ustr
  drs_state :: reindex_lifecycle_state
  drs_is_stale :: bool
  drs_active_index :: index_config_snapshot
  drs_desired_index :: index_config_snapshot
  drs_latest_job :: "reindex_job option"
  drs_can_schedule :: bool
  drs_can_activate :: bool

definition safe_reindex_failure_message :: ustr where
  "safe_reindex_failure_message = uni ''Re-index build failed. See server logs for the underlying error.''"

definition sanitize_reindex_error :: "ustr option \<Rightarrow> ustr option" where
  "sanitize_reindex_error raw = (case raw of None \<Rightarrow> None | Some _ \<Rightarrow> Some safe_reindex_failure_message)"

definition active_index_snapshot :: "document \<Rightarrow> index_config_snapshot" where
  "active_index_snapshot doc =
     \<lparr>sn_collection_name = collection_name doc, sn_provider = embedding_provider doc, sn_model = embedding_model doc,
      sn_dimension = embedding_dimension doc, sn_embedding_version = embedding_version doc,
      sn_chunking_version = chunking_version doc, sn_chunk_size = None, sn_chunk_overlap = None\<rparr>"

definition desired_index_snapshot :: "embedding_index_config \<Rightarrow> settings \<Rightarrow> index_config_snapshot" where
  "desired_index_snapshot c s =
     \<lparr>sn_collection_name = Some (config_collection_name c), sn_provider = Some (cfg_provider c), sn_model = Some (cfg_model c),
      sn_dimension = Some (cfg_dimension c), sn_embedding_version = Some (cfg_embedding_version c),
      sn_chunking_version = Some (cfg_chunking_version c), sn_chunk_size = Some (set_chunk_size s),
      sn_chunk_overlap = Some (set_chunk_overlap s)\<rparr>"

definition derive_state :: "document \<Rightarrow> reindex_job option \<Rightarrow> bool \<Rightarrow> ustr \<Rightarrow> bool \<Rightarrow> reindex_lifecycle_state" where
  "derive_state doc latest blocked desired stale =
     (if collection_name doc = None then RlsNotIndexed
      else if blocked then RlsDeletionBlocked
      else
        let rest = (if stale then RlsStale else RlsUpToDate) in
        case latest of
          None \<Rightarrow> rest
        | Some j \<Rightarrow>
            if target_collection_name j = desired then
              (case rix_status j of
                 RixPending \<Rightarrow> RlsReindexPending
               | RixProcessing \<Rightarrow> RlsReindexProcessing
               | RixFailed \<Rightarrow> RlsFailed
               | RixCompleted \<Rightarrow> if activated_at j \<noteq> None then RlsActivated else RlsTargetBuilt)
            else rest)"

definition blocked_by_deletion :: "db \<Rightarrow> ustr \<Rightarrow> bool" where
  "blocked_by_deletion d i = (case get_latest_deletion_job d i of
     None \<Rightarrow> False | Some k \<Rightarrow> del_status k \<in> set blocking_deletion_statuses)"

definition inspect_document_reindex_state :: "(nat \<Rightarrow> db \<Rightarrow> db) \<Rightarrow> ustr \<Rightarrow> settings \<Rightarrow> db \<Rightarrow>
    (exn + document_reindex_state option) \<times> db" where
  "inspect_document_reindex_state env document_id s d =
     (case get_document d document_id of
        None \<Rightarrow> (Inr None, d)
      | Some doc \<Rightarrow>
          (case get_active_embedding_config s of
             Inl e \<Rightarrow> (Inl e, d)
           | Inr desired \<Rightarrow>
               let stale = is_document_stale doc desired;
                   d1 = env 0 d; latest = get_latest_reindex_job d1 document_id;
                   d2 = env 1 d1; active = get_active_reindex_job d2 document_id;
                   d3 = env 2 d2; blocked = blocked_by_deletion d3 document_id
               in (Inr (Some
                 \<lparr>drs_document_id = document_id,
                  drs_state = derive_state doc latest blocked (config_collection_name desired) stale,
                  drs_is_stale = stale, drs_active_index = active_index_snapshot doc,
                  drs_desired_index = desired_index_snapshot desired s, drs_latest_job = latest,
                  drs_can_schedule = (collection_name doc \<noteq> None \<and> stale \<and> active = None \<and> \<not> blocked),
                  drs_can_activate = (case latest of None \<Rightarrow> False
                    | Some j \<Rightarrow> rix_status j = RixCompleted \<and> activated_at j = None \<and> \<not> blocked)\<rparr>), d3)))"

section \<open>Properties\<close>

lemma blocking_all [simp]: "st \<in> set blocking_deletion_statuses"
  by (cases st) (simp_all add: blocking_deletion_statuses_def)

lemma blocked_iff: "blocked_by_deletion d i \<longleftrightarrow> get_latest_deletion_job d i \<noteq> None"
  by (simp add: blocked_by_deletion_def split: option.split)

definition ingestion_running :: "db \<Rightarrow> ustr \<Rightarrow> bool" where
  "ingestion_running d i \<longleftrightarrow> (\<exists>j. get_latest_ingestion_job d i = Some j \<and> ing_active j)"

definition may_schedule :: "db \<Rightarrow> document \<Rightarrow> embedding_index_config \<Rightarrow> bool" where
  "may_schedule d doc target \<longleftrightarrow> collection_name doc \<noteq> None \<and> is_document_stale doc target \<and>
     get_active_reindex_job d (doc_id doc) = None \<and> \<not> blocked_by_deletion d (doc_id doc)"

text \<open>What scheduling answers to a document alone.\<close>

lemma schedule_refused:
  assumes "schedule_reindex env new_id db_now doc vs target cs co (v, d) = (r, v', d')"
    and "\<not> may_schedule d doc target \<or> ingestion_running d (doc_id doc)"
  shows "(\<exists>res. r = Inr res \<and> rs_outcome res \<noteq> SchedCreated) \<and> v' = v \<and> d' = d"
  using assms
  by (auto simp: schedule_reindex_def sched_result_def is_document_stale_def blocked_iff may_schedule_def ingestion_running_def
      split: option.splits if_splits deletion_status.splits)

lemma ensure_keeps_jobs: "ensure_active_collection env now vs c (v, d) = (r, v', d') \<Longrightarrow>
    reindex_jobs d' = reindex_jobs (env d) \<and> (db_ok (env d) \<longrightarrow> db_ok d')"
  by (auto simp: ensure_active_collection_def commit_Inr add_index_collection_db split: sum.splits prod.splits if_splits option.splits)

lemma schedule_accepted:
  assumes ok: "db_ok d" and run: "schedule_reindex (\<lambda>_ d. d) new_id db_now doc vs target cs co (v, d) = (Inr res, v', d')"
    and may: "may_schedule d doc target" "\<not> ingestion_running d (doc_id doc)"
  shows "rs_outcome res = SchedCreated"
proof -
  obtain source where c: "collection_name doc = Some source" "source \<noteq> config_collection_name target"
    "get_active_reindex_job d (doc_id doc) = None" "get_latest_deletion_job d (doc_id doc) = None"
    using may(1) by (auto simp: may_schedule_def is_document_stale_def blocked_iff)
  have i: "\<not> (case get_latest_ingestion_job d (doc_id doc) of None \<Rightarrow> False | Some j \<Rightarrow> ing_active j)"
    using may(2) by (auto simp: ingestion_running_def split: option.splits)
  let ?j = "new_reindex_job new_id (doc_id doc) source (config_collection_name target) cs co db_now"
  obtain d1 where e: "ensure_active_collection (\<lambda>d. d) db_now vs target (v, d) = (Inr (), v', d1)"
    and ins: "insert_or_reload (\<lambda>d. d) doc target ?j d1 = (Inr res, d')"
    using run c i by (auto simp: schedule_reindex_def split: sum.splits prod.splits)
  from ensure_keeps_jobs [OF e] ok have "db_ok d1" and none: "get_active_reindex_job d1 (doc_id doc) = None"
    using c(3) by (simp_all add: get_active_reindex_job_def)
  from this(1) ins show ?thesis
    by (cases rule: insert_or_reload_cases) (use none in \<open>auto simp: sched_result_def\<close>)
qed

text \<open>What activation answers to the job alone.\<close>

definition may_activate :: "db \<Rightarrow> reindex_job \<Rightarrow> bool" where
  "may_activate d job \<longleftrightarrow> rix_status job = RixCompleted \<and> activated_at job = None \<and> \<not> blocked_by_deletion d (rix_document_id job)"

lemma activation_refused:
  assumes "activate_reindexed_document (\<lambda>_ d. d) new_id now db_now (rix_id job) d = (r, d')"
    and "get_reindex_job d (rix_id job) = Some job" and "get_document d (rix_document_id job) = Some doc"
    and "\<not> may_activate d job \<or> collection_name doc \<noteq> Some (source_collection_name job)"
  shows "(\<exists>res. r = Inr res \<and> ra_outcome res \<noteq> ActActivated) \<and> d' = d"
proof (cases "may_activate d job")
  case True
  with assms have "collection_name doc \<noteq> Some (source_collection_name job)" by simp
  with assms(1-3) True show ?thesis
    by (auto simp: activate_reindexed_document_def activate_loaded_def activation_result_def may_activate_def blocked_iff Let_def)
next
  case False
  with assms(1-3) show ?thesis
    by (auto simp: activate_reindexed_document_def activate_loaded_def activation_result_def may_activate_def blocked_iff Let_def split: if_splits option.splits)
qed

lemma activation_accepted:
  assumes ok: "db_ok d" and i: "length new_id \<le> 36" "new_id \<notin> vc_id ` set (cleanup_jobs d)"
    and run: "activate_reindexed_document (\<lambda>_ d. d) new_id now db_now (rix_id job) d = (r, d')"
    and job: "get_reindex_job d (rix_id job) = Some job" and doc: "get_document d (rix_document_id job) = Some doc"
    and may: "may_activate d job" "collection_name doc = Some (source_collection_name job)"
  shows "\<exists>res. r = Inr res \<and> ra_outcome res = ActActivated"
proof -
  have did: "doc_id doc = rix_document_id job" using doc get_row_Some unfolding get_document_def by metis
  have "job \<in> set (reindex_jobs d)" using job get_row_Some unfolding get_reindex_job_def by fastforce
  then have "target_collection_name job \<in> ic_collection_name ` set (index_collections d)"
    using ok by (simp add: db_ok_checks check_None)
  then obtain row where row: "get_index_collection d (target_collection_name job) = Some row"
    using get_row_None [of ic_collection_name "target_collection_name job" "index_collections d"]
    by (cases "get_index_collection d (target_collection_name job)") (auto simp: get_index_collection_def)
  then have "row \<in> set (index_collections d)" using get_row_Some unfolding get_index_collection_def by fastforce
  from cutover_ok [OF ok _ this job _ i] doc did
  have "db_ok (update_reindex_job (rix_id job) (set_activated now db_now)
      (update_documents doc (serve_from now row doc) (vacate new_id db_now job d)))" by simp
  with run job doc may row show ?thesis
    by (auto simp: activate_reindexed_document_def activate_loaded_def activation_result_def may_activate_def blocked_iff Let_def)
qed

text \<open>C35: The inspection is read-only and its hints are what the services answer on a state that nobody else changes
  meanwhile, up to the two conditions it documents not to look at.  A document that it says cannot be scheduled, or whose
  ingestion is running, is refused by scheduling without an effect; one that it says can be scheduled and whose ingestion
  is not running gets a job whenever scheduling answers at all (ensuring the target or the insert may raise).  The latest
  attempt is activated when the inspection says that it can be and the document is still served from the attempt's source,
  and refused without an effect otherwise; without an attempt there is nothing to activate.  A document shown as up to
  date, never indexed or blocked by a deletion cannot be scheduled, and one shown with a built target can be activated.\<close>

theorem inspection_hints:
  assumes ok: "db_ok d" and run: "inspect_document_reindex_state (\<lambda>_ d. d) i s d = (Inr (Some st), d1)"
  shows "d1 = d \<and> (\<exists>doc target. get_document d i = Some doc \<and> get_active_embedding_config s = Inr target \<and>
    (\<forall>new_id db_now (vs :: 'v vector_store) cs co v r v' d'.
       schedule_reindex (\<lambda>_ d. d) new_id db_now doc vs target cs co (v, d) = (r, v', d') \<longrightarrow>
       (if drs_can_schedule st \<and> \<not> ingestion_running d i then \<forall>res. r = Inr res \<longrightarrow> rs_outcome res = SchedCreated
        else (\<exists>res. r = Inr res \<and> rs_outcome res \<noteq> SchedCreated) \<and> v' = v \<and> d' = d)) \<and>
    (case drs_latest_job st of None \<Rightarrow> \<not> drs_can_activate st
     | Some job \<Rightarrow> \<forall>new_id now db_now r d'. length new_id \<le> 36 \<and> new_id \<notin> vc_id ` set (cleanup_jobs d) \<and>
         activate_reindexed_document (\<lambda>_ d. d) new_id now db_now (rix_id job) d = (r, d') \<longrightarrow>
         (if drs_can_activate st \<and> collection_name doc = Some (source_collection_name job)
          then \<exists>res. r = Inr res \<and> ra_outcome res = ActActivated
          else (\<exists>res. r = Inr res \<and> ra_outcome res \<noteq> ActActivated) \<and> d' = d))) \<and>
    (drs_state st \<in> {RlsUpToDate, RlsNotIndexed, RlsDeletionBlocked} \<longrightarrow> \<not> drs_can_schedule st) \<and>
    (drs_state st = RlsTargetBuilt \<longrightarrow> drs_can_activate st)"
proof -
  obtain doc desired where doc: "get_document d i = Some doc" "get_active_embedding_config s = Inr desired"
    and d1: "d1 = d" and st: "st = \<lparr>drs_document_id = i,
      drs_state = derive_state doc (get_latest_reindex_job d i) (blocked_by_deletion d i) (config_collection_name desired) (is_document_stale doc desired),
      drs_is_stale = is_document_stale doc desired, drs_active_index = active_index_snapshot doc,
      drs_desired_index = desired_index_snapshot desired s, drs_latest_job = get_latest_reindex_job d i,
      drs_can_schedule = (collection_name doc \<noteq> None \<and> is_document_stale doc desired \<and> get_active_reindex_job d i = None \<and> \<not> blocked_by_deletion d i),
      drs_can_activate = (case get_latest_reindex_job d i of None \<Rightarrow> False
        | Some j \<Rightarrow> rix_status j = RixCompleted \<and> activated_at j = None \<and> \<not> blocked_by_deletion d i)\<rparr>"
    using run by (auto simp: inspect_document_reindex_state_def Let_def split: option.splits sum.splits)
  have did: "doc_id doc = i" using doc(1) get_row_Some unfolding get_document_def by metis
  have sched: "drs_can_schedule st \<longleftrightarrow> may_schedule d doc desired" by (simp add: st may_schedule_def did)
  have "if drs_can_schedule st \<and> \<not> ingestion_running d i then \<forall>res. r = Inr res \<longrightarrow> rs_outcome res = SchedCreated
      else (\<exists>res. r = Inr res \<and> rs_outcome res \<noteq> SchedCreated) \<and> v' = v \<and> d' = d"
    if "schedule_reindex (\<lambda>_ d. d) new_id db_now doc vs desired cs co (v, d) = (r, v', d')"
    for new_id db_now and vs :: "'v vector_store" and cs co v r v' d'
    using schedule_refused [OF that] schedule_accepted [OF ok, of new_id db_now doc vs desired cs co v _ v' d'] that
    by (auto simp: sched did)
  moreover have "case drs_latest_job st of None \<Rightarrow> \<not> drs_can_activate st
     | Some job \<Rightarrow> \<forall>new_id now db_now r d'. length new_id \<le> 36 \<and> new_id \<notin> vc_id ` set (cleanup_jobs d) \<and>
         activate_reindexed_document (\<lambda>_ d. d) new_id now db_now (rix_id job) d = (r, d') \<longrightarrow>
         (if drs_can_activate st \<and> collection_name doc = Some (source_collection_name job)
          then \<exists>res. r = Inr res \<and> ra_outcome res = ActActivated
          else (\<exists>res. r = Inr res \<and> ra_outcome res \<noteq> ActActivated) \<and> d' = d)"
  proof (cases "get_latest_reindex_job d i")
    case None
    then show ?thesis by (simp add: st)
  next
    case (Some job)
    then have job: "job \<in> set (reindex_jobs d)" "rix_document_id job = i"
      unfolding get_latest_reindex_job_def by (auto dest: latest_of_Some)
    have found: "get_reindex_job d (rix_id job) = Some job"
      unfolding get_reindex_job_def by (rule get_row_distinct [OF rix_table.primary_key [OF ok] job(1)])
    have act: "drs_can_activate st \<longleftrightarrow> may_activate d job" by (simp add: st Some may_activate_def job(2))
    have d: "get_document d (rix_document_id job) = Some doc" using doc(1) job(2) by simp
    have l: "drs_latest_job st = Some job" by (simp add: st Some)
    show ?thesis
      unfolding l act using activation_refused [OF _ found d] activation_accepted [OF ok _ _ _ found d] by auto
  qed
  moreover have "drs_state st \<in> {RlsUpToDate, RlsNotIndexed, RlsDeletionBlocked} \<Longrightarrow> \<not> drs_can_schedule st"
    "drs_state st = RlsTargetBuilt \<Longrightarrow> drs_can_activate st"
    by (auto simp: st derive_state_def Let_def split: option.splits reindex_status.splits if_splits)
  ultimately show ?thesis using doc d1 by blast
qed

theorem inspection_hints_witness:
  "\<exists>st res d'. inspect_document_reindex_state (\<lambda>_ d. d) (uni ''d1'') sample_settings (rebuild_db [built_job]) = (Inr (Some st), rebuild_db [built_job]) \<and>
    drs_state st = RlsTargetBuilt \<and> drs_can_activate st \<and>
    activate_reindexed_document (\<lambda>_ d. d) (uni ''c1'') 7 7 (uni ''r1'') (rebuild_db [built_job]) = (Inr res, d') \<and> ra_outcome res = ActActivated"
proof -
  let ?d = "rebuild_db [built_job]"
  have jobs: "get_latest_reindex_job ?d (uni ''d1'') = Some built_job" "get_latest_deletion_job ?d (uni ''d1'') = None"
    "get_document ?d (uni ''d1'') = Some (served_document (uni ''A''))" "cleanup_jobs ?d = []"
    by (simp_all add: get_latest_reindex_job_def get_latest_deletion_job_def latest_of_def get_document_def)
  obtain st where st: "inspect_document_reindex_state (\<lambda>_ d. d) (uni ''d1'') sample_settings ?d = (Inr (Some st), ?d)"
    "drs_state st = RlsTargetBuilt" "drs_latest_job st = Some built_job"
    using jobs by (simp add: inspect_document_reindex_state_def sample_config_active Let_def derive_state_def blocked_iff
        sample_name_def served_document_def)
  obtain r d' where run: "activate_reindexed_document (\<lambda>_ d. d) (uni ''c1'') 7 7 (rix_id built_job) ?d = (r, d')" by fastforce
  from inspection_hints [OF built_db_ok st(1), where 'v = mem_index] obtain doc where
    doc: "get_document ?d (uni ''d1'') = Some doc" and can: "drs_state st = RlsTargetBuilt \<longrightarrow> drs_can_activate st" and
    act: "case drs_latest_job st of None \<Rightarrow> \<not> drs_can_activate st
     | Some job \<Rightarrow> \<forall>new_id now db_now r d'. length new_id \<le> 36 \<and> new_id \<notin> vc_id ` set (cleanup_jobs ?d) \<and>
         activate_reindexed_document (\<lambda>_ d. d) new_id now db_now (rix_id job) ?d = (r, d') \<longrightarrow>
         (if drs_can_activate st \<and> collection_name doc = Some (source_collection_name job)
          then \<exists>res. r = Inr res \<and> ra_outcome res = ActActivated
          else (\<exists>res. r = Inr res \<and> ra_outcome res \<noteq> ActActivated) \<and> d' = ?d)" by blast
  have dc: "doc = served_document (uni ''A'')" using doc jobs(3) by simp
  from act [unfolded st(3) option.case dc, rule_format, where new_id = "uni ''c1''" and now = 7 and db_now = 7 and r = r and d' = d'] can st(2) run jobs(4)
  have "\<exists>res. r = Inr res \<and> ra_outcome res = ActActivated" by simp
  with st(1,2) can run show ?thesis by auto
qed

end
