(* ===== verification/Reindex_Routes.thy ===== *)
theory Reindex_Routes
  imports Reindex_Inspection Http
begin

text \<open>
  The re-index endpoints (\<open>app/api/v1/routes/reindex.py\<close>, \<open>app/schemas/reindex.py\<close>): status codes and bodies
  of inspection, scheduling and the two activations.  \<open>env k\<close> is what other sessions commit in the \<open>k\<close>-th gap.
\<close>

record reindex_attempt_response =
  rar_job_id :: ustr
  rar_status :: reindex_status
  rar_source_collection_name :: ustr
  rar_target_collection_name :: ustr
  rar_created_at :: time
  rar_updated_at :: time
  rar_completed_at :: "time option"
  rar_activated_at :: "time option"
  rar_safe_error_message :: "ustr option"

record reindex_state_response =
  rsr_document_id :: ustr
  rsr_state :: reindex_lifecycle_state
  rsr_is_stale :: bool
  rsr_active_index :: index_config_snapshot
  rsr_desired_index :: index_config_snapshot
  rsr_latest_attempt :: "reindex_attempt_response option"
  rsr_can_schedule :: bool
  rsr_can_activate :: bool

record reindex_schedule_response =
  rsc_document_id :: ustr
  rsc_job_id :: ustr
  rsc_status :: reindex_status
  rsc_source_collection_name :: ustr
  rsc_target_collection_name :: ustr
  rsc_created :: bool

record reindex_activate_response =
  rac_document_id :: ustr
  rac_job_id :: ustr
  rac_status :: reindex_status
  rac_activated_at :: time
  rac_already_activated :: bool

record reindex_job_activation_response =
  rja_job_id :: ustr
  rja_document_id :: ustr
  rja_status :: reindex_status
  rja_activated :: bool
  rja_already_activated :: bool
  rja_activated_at :: time
  rja_previous_collection_name :: ustr
  rja_active_collection_name :: ustr

section \<open>Inspection\<close>

definition attempt_response :: "reindex_job \<Rightarrow> reindex_attempt_response" where
  "attempt_response j =
     \<lparr>rar_job_id = rix_id j, rar_status = rix_status j, rar_source_collection_name = source_collection_name j,
      rar_target_collection_name = target_collection_name j, rar_created_at = rix_created_at j,
      rar_updated_at = rix_updated_at j, rar_completed_at = rix_completed_at j, rar_activated_at = activated_at j,
      rar_safe_error_message = sanitize_reindex_error (rix_error_message j)\<rparr>"

definition get_document_reindex_state_route :: "(nat \<Rightarrow> db \<Rightarrow> db) \<Rightarrow> settings \<Rightarrow> ustr \<Rightarrow> db \<Rightarrow>
    (exn + reindex_state_response http_answer) \<times> db" where
  "get_document_reindex_state_route env s document_id d =
     (case inspect_document_reindex_state env document_id s d of
        (Inl e, d1) \<Rightarrow> (Inl e, d1)
      | (Inr None, d1) \<Rightarrow> (Inr (Refused 404 (uni ''Document not found.'')), d1)
      | (Inr (Some st), d1) \<Rightarrow>
          (Inr (Success 200
            \<lparr>rsr_document_id = drs_document_id st, rsr_state = drs_state st, rsr_is_stale = drs_is_stale st,
             rsr_active_index = drs_active_index st, rsr_desired_index = drs_desired_index st,
             rsr_latest_attempt = map_option attempt_response (drs_latest_job st),
             rsr_can_schedule = drs_can_schedule st, rsr_can_activate = drs_can_activate st\<rparr>), d1))"

section \<open>Scheduling\<close>

fun schedule_outcome_errors :: "reindex_scheduling_outcome \<Rightarrow> (nat \<times> ustr) option" where
  "schedule_outcome_errors SchedIneligibleNeverIndexed =
     Some (409, uni ''Document has no active successful index; use ingestion retry, not re-index.'')"
| "schedule_outcome_errors SchedAlreadyCurrent =
     Some (409, uni ''Document already matches the desired configuration; no re-index is needed.'')"
| "schedule_outcome_errors SchedIngestionActive =
     Some (409, uni ''Document has an active ingestion job; cannot schedule a re-index until it resolves.'')"
| "schedule_outcome_errors SchedDeletionActive = Some (409, uni ''Document is being deleted; cannot schedule a re-index.'')"
| "schedule_outcome_errors SchedDeletionIncomplete =
     Some (409, uni ''Document deletion is incomplete; cannot schedule a re-index until it is resolved.'')"
| "schedule_outcome_errors SchedDocumentDeleted = Some (409, uni ''Document has been deleted; cannot schedule a re-index.'')"
| "schedule_outcome_errors SchedAlreadyActive = None"
| "schedule_outcome_errors SchedCreated = None"

definition schedule_answer :: "ustr \<Rightarrow> reindex_scheduling_result \<Rightarrow> exn + reindex_schedule_response http_answer" where
  "schedule_answer document_id res =
     (case schedule_outcome_errors (rs_outcome res) of
        Some (code, detail) \<Rightarrow> Inr (Refused code detail)
      | None \<Rightarrow> (case rs_job res of
            None \<Rightarrow> Inl AssertionError
          | Some j \<Rightarrow>
              let created = (rs_outcome res = SchedCreated) in
              Inr (Success (if created then 202 else 200)
                \<lparr>rsc_document_id = document_id, rsc_job_id = rix_id j, rsc_status = rix_status j,
                 rsc_source_collection_name = source_collection_name j, rsc_target_collection_name = target_collection_name j,
                 rsc_created = created\<rparr>)))"

definition schedule_document_reindex_route :: "(nat \<Rightarrow> db \<Rightarrow> db) \<Rightarrow> ustr \<Rightarrow> time \<Rightarrow> settings \<Rightarrow> 'v vector_store \<Rightarrow> ustr \<Rightarrow>
    ('v \<times> db, exn, reindex_schedule_response http_answer) call" where
  "schedule_document_reindex_route env new_id db_now s vs document_id = (\<lambda>(v, d).
     case get_document d document_id of
       None \<Rightarrow> (Inr (Refused 404 (uni ''Document not found.'')), v, d)
     | Some doc \<Rightarrow>
         (case get_active_embedding_config s of
            Inl e \<Rightarrow> (Inl e, v, d)
          | Inr target \<Rightarrow>
              (case schedule_reindex (\<lambda>k. env (Suc k)) new_id db_now doc vs target (set_chunk_size s) (set_chunk_overlap s) (v, env 0 d) of
                 (Inl e, w) \<Rightarrow> (Inl e, w)
               | (Inr res, w) \<Rightarrow> (schedule_answer document_id res, w))))"

section \<open>Activation\<close>

fun activation_outcome_errors :: "reindex_activation_outcome \<Rightarrow> (nat \<times> ustr) option" where
  "activation_outcome_errors ActJobNotFound = Some (404, uni ''Re-index job not found.'')"
| "activation_outcome_errors ActDocumentMissing = Some (404, uni ''Document not found.'')"
| "activation_outcome_errors ActNotReady = Some (409, uni ''Re-index job has not completed a successful build yet.'')"
| "activation_outcome_errors ActSourceChanged =
     Some (409, uni ''Document's serving collection has changed since this re-index job was scheduled.'')"
| "activation_outcome_errors ActBlockedByDeletion =
     Some (409, uni ''Document deletion is active or completed; activation is not available.'')"
| "activation_outcome_errors ActAlreadyActivated = None"
| "activation_outcome_errors ActActivated = None"

definition activation_answer :: "(reindex_job \<Rightarrow> time \<Rightarrow> bool \<Rightarrow> 'a) \<Rightarrow> reindex_activation_result \<Rightarrow> exn + 'a http_answer" where
  "activation_answer render res =
     (case activation_outcome_errors (ra_outcome res) of
        Some (code, detail) \<Rightarrow> Inr (Refused code detail)
      | None \<Rightarrow> (case ra_job res of
            None \<Rightarrow> Inl AssertionError
          | Some j \<Rightarrow> (case activated_at j of
                None \<Rightarrow> Inl AssertionError
              | Some t \<Rightarrow> Inr (Success 200 (render j t (ra_outcome res = ActAlreadyActivated))))))"

text \<open>The job is read before the activation locks its row; the session then answers the locked read with the object it
  holds, as it was read first, unless the row is gone.\<close>

definition resolve_activation_job :: "db \<Rightarrow> ustr \<Rightarrow> ustr option \<Rightarrow> ustr + reindex_job" where
  "resolve_activation_job d document_id job_id =
     (case job_id of
        Some i \<Rightarrow> (case get_reindex_job d i of
            None \<Rightarrow> Inl (uni ''Re-index job not found for this document.'')
          | Some j \<Rightarrow> if rix_document_id j \<noteq> document_id then Inl (uni ''Re-index job not found for this document.'') else Inr j)
      | None \<Rightarrow> (case get_latest_reindex_job d document_id of
            None \<Rightarrow> Inl (uni ''No re-index attempt found for this document.'')
          | Some j \<Rightarrow> Inr j))"

definition activate_held :: "(nat \<Rightarrow> db \<Rightarrow> db) \<Rightarrow> ustr \<Rightarrow> time \<Rightarrow> time \<Rightarrow> reindex_job \<Rightarrow> db \<Rightarrow>
    (exn + reindex_activation_result) \<times> db" where
  "activate_held env new_id now db_now job d =
     (case get_reindex_job d (rix_id job) of
        None \<Rightarrow> (Inr (activation_result ActJobNotFound None None), d)
      | Some _ \<Rightarrow> activate_loaded env new_id now db_now job d)"

definition activate_document_reindex_route :: "(nat \<Rightarrow> db \<Rightarrow> db) \<Rightarrow> ustr \<Rightarrow> time \<Rightarrow> time \<Rightarrow> ustr \<Rightarrow> ustr option \<Rightarrow> db \<Rightarrow>
    (exn + reindex_activate_response http_answer) \<times> db" where
  "activate_document_reindex_route env new_id now db_now document_id job_id d =
     (case resolve_activation_job d document_id job_id of
        Inl detail \<Rightarrow> (Inr (Refused 404 detail), d)
      | Inr held \<Rightarrow>
          (case activate_held (\<lambda>k. env (Suc k)) new_id now db_now held (env 0 d) of
             (Inl e, d1) \<Rightarrow> (Inl e, d1)
           | (Inr res, d1) \<Rightarrow> (activation_answer (\<lambda>j t already.
               \<lparr>rac_document_id = document_id, rac_job_id = rix_id j, rac_status = rix_status j, rac_activated_at = t,
                rac_already_activated = already\<rparr>) res, d1)))"

definition activate_reindex_job_route :: "(nat \<Rightarrow> db \<Rightarrow> db) \<Rightarrow> ustr \<Rightarrow> time \<Rightarrow> time \<Rightarrow> ustr \<Rightarrow> db \<Rightarrow>
    (exn + reindex_job_activation_response http_answer) \<times> db" where
  "activate_reindex_job_route env new_id now db_now job_id d =
     (case activate_reindexed_document env new_id now db_now job_id d of
        (Inl e, d1) \<Rightarrow> (Inl e, d1)
      | (Inr res, d1) \<Rightarrow> (activation_answer (\<lambda>j t already.
          \<lparr>rja_job_id = rix_id j, rja_document_id = rix_document_id j, rja_status = rix_status j, rja_activated = True,
           rja_already_activated = already, rja_activated_at = t, rja_previous_collection_name = source_collection_name j,
           rja_active_collection_name = target_collection_name j\<rparr>) res, d1))"

section \<open>Properties\<close>

text \<open>When nothing changed the job in between, holding it makes no difference.\<close>

lemma activate_held_current:
  "get_reindex_job d (rix_id job) = Some job \<Longrightarrow>
   activate_held env new_id now db_now job d = activate_reindexed_document env new_id now db_now (rix_id job) d"
  by (simp add: activate_held_def activate_reindexed_document_def)

lemma activation_already:
  assumes "activate_reindexed_document env new_id now db_now i d = (Inr res, d')" "ra_outcome res = ActAlreadyActivated"
  shows "\<exists>job t. ra_job res = Some job \<and> get_reindex_job d i = Some job \<and> activated_at job = Some t"
proof (cases "get_reindex_job d i")
  case None
  with assms show ?thesis by (auto simp: activate_reindexed_document_def activate_loaded_def activation_result_def)
next
  case (Some job)
  show ?thesis
  proof (cases "activated_at job")
    case (Some t)
    with assms \<open>get_reindex_job d i = Some job\<close> show ?thesis
      by (auto simp: activate_reindexed_document_def activate_loaded_def activation_result_def)
  next
    case None
    have "ra_outcome res \<noteq> ActAlreadyActivated"
    proof (cases "rix_status job = RixCompleted \<and> get_document (env 0 d) (rix_document_id job) \<noteq> None")
      case False
      with None Some assms show ?thesis by (cases "rix_status job = RixCompleted") (auto simp: activate_reindexed_document_def activate_loaded_def activation_result_def)
    next
      case True
      then obtain doc where doc: "rix_status job = RixCompleted" "get_document (env 0 d) (rix_document_id job) = Some doc" by auto
      show ?thesis
      proof (cases "blocked_by_deletion (env 0 d) (rix_document_id job) \<or> collection_name doc \<noteq> Some (source_collection_name job)")
        case True
        with doc None Some assms show ?thesis
          by (cases "blocked_by_deletion (env 0 d) (rix_document_id job)")
            (auto simp: activate_reindexed_document_def activate_loaded_def activation_result_def blocked_by_deletion_def Let_def)
      next
        case False
        with doc None Some assms show ?thesis
          by (cases "get_index_collection (env 0 d) (target_collection_name job)")
            (auto simp: activate_reindexed_document_def activate_loaded_def activation_result_def blocked_by_deletion_def Let_def split: sum.splits)
      qed
    qed
    with assms(2) show ?thesis by simp
  qed
qed

lemma activation_errors: "activation_outcome_errors oc = Some (n, t) \<Longrightarrow> n \<in> {404, 409}"
  by (cases oc) auto

lemma activation_no_error: "activation_outcome_errors oc = None \<longleftrightarrow> oc = ActAlreadyActivated \<or> oc = ActActivated"
  by (cases oc) auto

text \<open>What a client may conclude from the answer of an activation: which document is served from where, and
  that nothing was changed when it was refused.\<close>

definition activation_told :: "db \<Rightarrow> (exn + reindex_job_activation_response http_answer) \<Rightarrow> db \<Rightarrow> bool" where
  "activation_told d r d' \<longleftrightarrow>
     (case r of
        Inl e \<Rightarrow> d' = d \<and> (\<exists>v. e = DatabaseErr v)
      | Inr (Refused n t) \<Rightarrow> d' = d \<and> n \<in> {404, 409}
      | Inr (Success n a) \<Rightarrow> n = 200 \<and> rja_status a = RixCompleted \<and>
          (if rja_already_activated a then d' = d \<and> (\<exists>j. get_reindex_job d (rja_job_id a) = Some j \<and> activated_at j = Some (rja_activated_at a))
           else serving (index_state_of d) (rja_document_id a) = Some (rja_previous_collection_name a) \<and>
             serving (index_state_of d') (rja_document_id a) = Some (rja_active_collection_name a) \<and>
             (\<exists>j. get_reindex_job d' (rja_job_id a) = Some j \<and> activated_at j = Some (rja_activated_at a))))"

lemma route_answered:
  assumes "ra_outcome res = oc" "ra_job res = Some j" "activated_at j = Some t" "activation_outcome_errors oc = None"
  shows "activation_answer render res = Inr (Success 200 (render j t (oc = ActAlreadyActivated)))"
  using assms by (simp add: activation_answer_def)

text \<open>A repeated activation, and a first one.\<close>

lemma activation_repeated:
  assumes built: "\<And>j. j \<in> set (reindex_jobs d) \<Longrightarrow> activated_at j \<noteq> None \<Longrightarrow> rix_status j = RixCompleted"
    and run: "activate_reindex_job_route (\<lambda>_ d. d) new_id now db_now i d = (r, d')"
    and act: "activate_reindexed_document (\<lambda>_ d. d) new_id now db_now i d = (Inr res, d')" "ra_outcome res = ActAlreadyActivated"
    and same: "d' = d"
  shows "activation_told d r d'"
proof -
  from activation_already [OF act] obtain job t where
    j: "ra_job res = Some job" "get_reindex_job d i = Some job" "activated_at job = Some t" by blast
  then have m: "job \<in> set (reindex_jobs d)" "rix_id job = i" by (auto simp: get_reindex_job_def dest: get_row_Some)
  have r: "r = Inr (Success 200 \<lparr>rja_job_id = rix_id job, rja_document_id = rix_document_id job, rja_status = rix_status job,
      rja_activated = True, rja_already_activated = True, rja_activated_at = t,
      rja_previous_collection_name = source_collection_name job, rja_active_collection_name = target_collection_name job\<rparr>)"
    using run act(1) route_answered [OF act(2) j(1,3)] by (auto simp: activate_reindex_job_route_def)
  have "rix_status job = RixCompleted" using built [OF m(1)] j(3) by simp
  then show ?thesis using r j(2,3) m(2) same by (simp add: activation_told_def)
qed

lemma activation_first:
  assumes run: "activate_reindex_job_route (\<lambda>_ d. d) new_id now db_now i d = (r, d')"
    and act: "activate_reindexed_document (\<lambda>_ d. d) new_id now db_now i d =
      (Inr (activation_result ActActivated (Some (set_activated now db_now job)) (Some (serve_from now row doc))), d')"
    and found: "get_reindex_job d i = Some job" "activated_at job = None" "rix_status job = RixCompleted"
      "get_document d (rix_document_id job) = Some doc" "collection_name doc = Some (source_collection_name job)"
      "get_index_collection d (target_collection_name job) = Some row"
    and d': "d' = update_reindex_job (rix_id job) (set_activated now db_now)
      (update_documents doc (serve_from now row doc) (vacate new_id db_now job d))"
  shows "activation_told d r d'"
proof -
  have ids: "doc_id doc = rix_document_id job" "ic_collection_name row = target_collection_name job" "rix_id job = i"
    using found(1,4,6) by (auto simp: get_document_def get_index_collection_def get_reindex_job_def dest: get_row_Some)
  have r: "r = Inr (Success 200 \<lparr>rja_job_id = rix_id job, rja_document_id = rix_document_id (set_activated now db_now job),
      rja_status = rix_status job, rja_activated = True, rja_already_activated = False, rja_activated_at = now,
      rja_previous_collection_name = source_collection_name (set_activated now db_now job),
      rja_active_collection_name = target_collection_name (set_activated now db_now job)\<rparr>)"
    using run act by (simp add: activate_reindex_job_route_def activation_answer_def activation_result_def)
  have "get_document (update_reindex_job j f e) k = get_document e k" for j f e k
    by (simp add: update_reindex_job_def get_document_def)
  then have doc': "get_document d' (rix_document_id job) = Some (flush_document doc (serve_from now row doc) doc)"
    using found(4) d' ids(1) by (simp add: update_documents_get del: flush_same)
  have "get_reindex_job d' i = Some (set_activated now db_now job)"
    using found(1) d' ids(3) by (simp add: get_reindex_job_update) (simp add: get_reindex_job_def)
  then show ?thesis using r doc' found ids
    by (simp add: activation_told_def index_state_of_def set_activated_def flush_document_def)
qed

text \<open>C36: Activating a re-index job over HTTP: status 200 without the repeat flag means that the document, served
  from the reported previous collection before, is now served from the reported active one, and that the job is
  marked as activated at the reported time; with the flag nothing was changed, and the job had been activated
  before.  Every refusal is a 404 or a 409 that changed nothing, and the only exception that can leave the
  route is one of the database, which rolls the cutover back.\<close>

theorem activation_route_truth:
  assumes built: "\<And>j. j \<in> set (reindex_jobs d) \<Longrightarrow> activated_at j \<noteq> None \<Longrightarrow> rix_status j = RixCompleted"
    and run: "activate_reindex_job_route (\<lambda>_ d. d) new_id now db_now i d = (r, d')"
  shows "activation_told d r d'"
proof -
  obtain x where act: "activate_reindexed_document (\<lambda>_ d. d) new_id now db_now i d = (x, d')"
    using run by (auto simp: activate_reindex_job_route_def split: sum.splits prod.splits)
  from act show ?thesis
  proof (cases rule: activation_cases)
    case (unchanged res)
    show ?thesis
    proof (cases "activation_outcome_errors (ra_outcome res)")
      case None
      with unchanged(2) have "ra_outcome res = ActAlreadyActivated" by (simp add: activation_no_error)
      with activation_repeated [OF built run act [unfolded unchanged(1)]] unchanged(3) show ?thesis by blast
    next
      case (Some nt)
      obtain n t where nt: "nt = (n, t)" by fastforce
      with Some have "r = Inr (Refused n t)"
        using run act unchanged(1) by (simp add: activate_reindex_job_route_def activation_answer_def)
      then show ?thesis using activation_errors Some nt unchanged(3) by (auto simp: activation_told_def)
    qed
  next
    case (failed e)
    with run act show ?thesis by (auto simp: activate_reindex_job_route_def activation_told_def)
  next
    case (activated job doc row)
    from activation_first [OF run act [unfolded activated(8)] activated(1-4,6,7,9)] show ?thesis .
  qed
qed

theorem activation_route_truth_witness:
  "\<exists>a d'. activate_reindex_job_route (\<lambda>_ d. d) (uni ''c1'') 7 7 (uni ''r1'') (rebuild_db [built_job]) = (Inr (Success 200 a), d') \<and>
     rja_already_activated a = False \<and> rja_active_collection_name a = sample_name \<and> serving (index_state_of d') (uni ''d1'') = Some sample_name"
proof -
  let ?d = "rebuild_db [built_job]"
  obtain res d' where act: "activate_reindexed_document (\<lambda>k d. d) (uni ''c1'') 7 7 (uni ''r1'') ?d = (Inr res, d')" "ra_outcome res = ActActivated"
    using built_activation by blast
  from act(1) have "ra_job res = Some (set_activated 7 7 built_job)"
    by (cases rule: activation_cases) (use act(2) in \<open>auto simp: activation_result_def get_reindex_job_def\<close>)
  then obtain a where run: "activate_reindex_job_route (\<lambda>_ d. d) (uni ''c1'') 7 7 (uni ''r1'') ?d = (Inr (Success 200 a), d')"
    "rja_already_activated a = False" "rja_active_collection_name a = sample_name" "rja_document_id a = uni ''d1''"
    using act by (simp add: activate_reindex_job_route_def activation_answer_def set_activated_def)
  have "activated_at j \<noteq> None \<longrightarrow> rix_status j = RixCompleted" if "j \<in> set (reindex_jobs ?d)" for j using that by simp
  from activation_route_truth [OF this [rule_format] run(1)] run show ?thesis by (auto simp: activation_told_def)
qed

end
