(* ===== verification/Schema_Migration.thy ===== *)
theory Schema_Migration
  imports Models
begin

text \<open>
  The baseline migration (\<open>alembic/versions/a1a302e871c3_current_schema_baseline.py\<close>) as the list of the
  schema operations its \<open>upgrade\<close> and \<open>downgrade\<close> issue, with the reading PostgreSQL gives them: an operation
  on a schema fails when a name is taken or missing, when a foreign key has no target, or when a table that
  is still referenced is dropped; a schema accepts the rows whose columns fit and whose keys hold.  The
  check every commit of the model makes (\<open>db_violation\<close>) is proved to be the one this schema makes.
  \<open>sa.Enum(native_enum=False)\<close> is a \<open>VARCHAR\<close> without a check of its values; server defaults fill columns
  the model's rows always carry.
\<close>

section \<open>Schemas\<close>

datatype col_type = Varchar nat | TextType | Integer4 | BooleanType | Timestamptz

record column =
  c_name :: string
  c_type :: col_type
  c_nullable :: bool

record foreign_key =
  fk_column :: string
  fk_table :: string
  fk_ref :: string

record table_def =
  t_name :: string
  t_columns :: "column list"
  t_primary_key :: string
  t_unique :: "string list"
  t_foreign_keys :: "foreign_key list"

text \<open>An index; \<open>ix_statuses\<close> is the list of \<open>WHERE status IN (...)\<close>.\<close>

record index_def =
  ix_name :: string
  ix_table :: string
  ix_column :: string
  ix_unique :: bool
  ix_statuses :: "string list option"

record schema =
  sc_tables :: "table_def list"
  sc_indexes :: "index_def list"

definition empty_schema :: schema where
  "empty_schema = \<lparr>sc_tables = [], sc_indexes = []\<rparr>"

section \<open>Operations\<close>

datatype schema_op = CreateTable table_def | CreateIndex index_def | DropIndex string string | DropTable string

definition column_names :: "table_def \<Rightarrow> string list" where
  "column_names t = map c_name (t_columns t)"

definition has_column :: "schema \<Rightarrow> string \<Rightarrow> string \<Rightarrow> bool" where
  "has_column sc t c \<longleftrightarrow> list_ex (\<lambda>u. t_name u = t \<and> c \<in> set (column_names u)) (sc_tables sc)"

definition keyed_column :: "schema \<Rightarrow> string \<Rightarrow> string \<Rightarrow> bool" where
  "keyed_column sc t c \<longleftrightarrow> list_ex (\<lambda>u. t_name u = t \<and> (t_primary_key u = c \<or> c \<in> set (t_unique u))) (sc_tables sc)"

fun apply_op :: "schema_op \<Rightarrow> schema \<Rightarrow> schema option" where
  "apply_op (CreateTable t) sc =
     (if list_ex (\<lambda>u. t_name u = t_name t) (sc_tables sc) \<or>
         \<not> list_all (\<lambda>k. fk_column k \<in> set (column_names t) \<and> keyed_column sc (fk_table k) (fk_ref k)) (t_foreign_keys t) \<or>
         \<not> list_all (\<lambda>c. c \<in> set (column_names t)) (t_primary_key t # t_unique t)
      then None else Some (sc\<lparr>sc_tables := sc_tables sc @ [t]\<rparr>))"
| "apply_op (CreateIndex i) sc =
     (if list_ex (\<lambda>k. ix_name k = ix_name i) (sc_indexes sc) \<or> \<not> has_column sc (ix_table i) (ix_column i) \<or>
         (ix_statuses i \<noteq> None \<and> \<not> has_column sc (ix_table i) ''status'')
      then None else Some (sc\<lparr>sc_indexes := sc_indexes sc @ [i]\<rparr>))"
| "apply_op (DropIndex n t) sc =
     (if list_ex (\<lambda>k. ix_name k = n \<and> ix_table k = t) (sc_indexes sc)
      then Some (sc\<lparr>sc_indexes := filter (\<lambda>k. ix_name k \<noteq> n) (sc_indexes sc)\<rparr>) else None)"
| "apply_op (DropTable n) sc =
     (if list_ex (\<lambda>u. t_name u = n) (sc_tables sc) \<and>
         list_all (\<lambda>u. t_name u = n \<or> list_all (\<lambda>k. fk_table k \<noteq> n) (t_foreign_keys u)) (sc_tables sc)
      then Some (sc\<lparr>sc_tables := filter (\<lambda>u. t_name u \<noteq> n) (sc_tables sc),
                    sc_indexes := filter (\<lambda>k. ix_table k \<noteq> n) (sc_indexes sc)\<rparr>) else None)"

fun apply_ops :: "schema_op list \<Rightarrow> schema \<Rightarrow> schema option" where
  "apply_ops [] sc = Some sc"
| "apply_ops (x # xs) sc = (case apply_op x sc of None \<Rightarrow> None | Some sc' \<Rightarrow> apply_ops xs sc')"

section \<open>The baseline\<close>

definition col :: "string \<Rightarrow> col_type \<Rightarrow> column" where
  "col n t = \<lparr>c_name = n, c_type = t, c_nullable = False\<rparr>"

definition null_col :: "string \<Rightarrow> col_type \<Rightarrow> column" where
  "null_col n t = \<lparr>c_name = n, c_type = t, c_nullable = True\<rparr>"

definition references :: "string \<Rightarrow> string \<Rightarrow> string \<Rightarrow> foreign_key" where
  "references c t r = \<lparr>fk_column = c, fk_table = t, fk_ref = r\<rparr>"

definition index_collections_table :: table_def where
  "index_collections_table = \<lparr>t_name = ''index_collections'',
     t_columns = [col ''collection_name'' (Varchar 255), col ''embedding_provider'' (Varchar 64), col ''embedding_model'' (Varchar 255),
       col ''embedding_dimension'' Integer4, col ''embedding_version'' (Varchar 64), col ''chunking_version'' (Varchar 64),
       col ''status'' (Varchar 20), col ''created_at'' Timestamptz],
     t_primary_key = ''collection_name'', t_unique = [], t_foreign_keys = []\<rparr>"

definition documents_table :: table_def where
  "documents_table = \<lparr>t_name = ''documents'',
     t_columns = [col ''id'' (Varchar 36), col ''original_filename'' (Varchar 1024), col ''stored_filename'' (Varchar 255),
       col ''content_type'' (Varchar 255), col ''file_size'' Integer4, col ''stored_path'' (Varchar 2048), col ''created_at'' Timestamptz,
       null_col ''storage_provider'' (Varchar 32), null_col ''storage_bucket'' (Varchar 255), null_col ''storage_key'' (Varchar 2048),
       null_col ''storage_etag'' (Varchar 255), null_col ''content_hash'' (Varchar 64), null_col ''embedding_provider'' (Varchar 64),
       null_col ''embedding_model'' (Varchar 255), null_col ''embedding_dimension'' Integer4, null_col ''embedding_version'' (Varchar 64),
       null_col ''chunking_version'' (Varchar 64), null_col ''collection_name'' (Varchar 255), null_col ''indexed_at'' Timestamptz],
     t_primary_key = ''id'', t_unique = [''stored_filename''],
     t_foreign_keys = [references ''collection_name'' ''index_collections'' ''collection_name'']\<rparr>"

definition ingestion_jobs_table :: table_def where
  "ingestion_jobs_table = \<lparr>t_name = ''ingestion_jobs'',
     t_columns = [col ''id'' (Varchar 36), col ''document_id'' (Varchar 36), col ''status'' (Varchar 20),
       null_col ''error_message'' (Varchar 2048), col ''created_at'' Timestamptz, col ''updated_at'' Timestamptz],
     t_primary_key = ''id'', t_unique = [], t_foreign_keys = [references ''document_id'' ''documents'' ''id'']\<rparr>"

definition document_deletion_jobs_table :: table_def where
  "document_deletion_jobs_table = \<lparr>t_name = ''document_deletion_jobs'',
     t_columns = [col ''id'' (Varchar 36), col ''document_id'' (Varchar 36), col ''status'' (Varchar 20),
       col ''vector_cleanup_completed'' BooleanType, col ''storage_cleanup_completed'' BooleanType, null_col ''error_code'' (Varchar 64),
       null_col ''error_message'' (Varchar 2048), col ''created_at'' Timestamptz, col ''updated_at'' Timestamptz,
       null_col ''completed_at'' Timestamptz],
     t_primary_key = ''id'', t_unique = [], t_foreign_keys = [references ''document_id'' ''documents'' ''id'']\<rparr>"

definition reindex_jobs_table :: table_def where
  "reindex_jobs_table = \<lparr>t_name = ''reindex_jobs'',
     t_columns = [col ''id'' (Varchar 36), col ''document_id'' (Varchar 36), col ''source_collection_name'' (Varchar 255),
       col ''target_collection_name'' (Varchar 255), col ''target_chunk_size'' Integer4, col ''target_chunk_overlap'' Integer4,
       col ''status'' (Varchar 20), null_col ''error_message'' (Varchar 2048), col ''created_at'' Timestamptz,
       col ''updated_at'' Timestamptz, null_col ''completed_at'' Timestamptz, null_col ''activated_at'' Timestamptz],
     t_primary_key = ''id'', t_unique = [],
     t_foreign_keys = [references ''document_id'' ''documents'' ''id'',
       references ''source_collection_name'' ''index_collections'' ''collection_name'',
       references ''target_collection_name'' ''index_collections'' ''collection_name'']\<rparr>"

definition vector_cleanup_jobs_table :: table_def where
  "vector_cleanup_jobs_table = \<lparr>t_name = ''vector_cleanup_jobs'',
     t_columns = [col ''id'' (Varchar 36), col ''document_id'' (Varchar 36), col ''collection_name'' (Varchar 255),
       col ''status'' (Varchar 20), col ''attempts'' Integer4, null_col ''last_error'' TextType, col ''created_at'' Timestamptz,
       null_col ''completed_at'' Timestamptz],
     t_primary_key = ''id'', t_unique = [], t_foreign_keys = [references ''document_id'' ''documents'' ''id'']\<rparr>"

definition plain_index :: "string \<Rightarrow> string \<Rightarrow> string \<Rightarrow> index_def" where
  "plain_index n t c = \<lparr>ix_name = n, ix_table = t, ix_column = c, ix_unique = False, ix_statuses = None\<rparr>"

definition one_active_index :: "string \<Rightarrow> string \<Rightarrow> index_def" where
  "one_active_index n t = \<lparr>ix_name = n, ix_table = t, ix_column = ''document_id'', ix_unique = True,
     ix_statuses = Some [''pending'', ''processing'']\<rparr>"

definition upgrade :: "schema_op list" where
  "upgrade =
     [CreateTable index_collections_table,
      CreateTable documents_table,
      CreateIndex \<lparr>ix_name = ''uq_documents_content_hash'', ix_table = ''documents'', ix_column = ''content_hash'',
        ix_unique = True, ix_statuses = None\<rparr>,
      CreateTable ingestion_jobs_table,
      CreateIndex (one_active_index ''ix_ingestion_jobs_one_active_per_document'' ''ingestion_jobs''),
      CreateTable document_deletion_jobs_table,
      CreateIndex (plain_index ''ix_document_deletion_jobs_document_id'' ''document_deletion_jobs'' ''document_id''),
      CreateIndex (plain_index ''ix_document_deletion_jobs_status'' ''document_deletion_jobs'' ''status''),
      CreateIndex (one_active_index ''ix_document_deletion_jobs_one_active_per_document'' ''document_deletion_jobs''),
      CreateTable reindex_jobs_table,
      CreateIndex (plain_index ''ix_reindex_jobs_document_id'' ''reindex_jobs'' ''document_id''),
      CreateIndex (plain_index ''ix_reindex_jobs_status'' ''reindex_jobs'' ''status''),
      CreateIndex (one_active_index ''ix_reindex_jobs_one_active_per_document'' ''reindex_jobs''),
      CreateTable vector_cleanup_jobs_table,
      CreateIndex (plain_index ''ix_vector_cleanup_jobs_document_id'' ''vector_cleanup_jobs'' ''document_id'')]"

definition downgrade :: "schema_op list" where
  "downgrade =
     [DropTable ''vector_cleanup_jobs'',
      DropIndex ''ix_reindex_jobs_one_active_per_document'' ''reindex_jobs'',
      DropIndex ''ix_reindex_jobs_status'' ''reindex_jobs'',
      DropIndex ''ix_reindex_jobs_document_id'' ''reindex_jobs'',
      DropTable ''reindex_jobs'',
      DropIndex ''ix_document_deletion_jobs_one_active_per_document'' ''document_deletion_jobs'',
      DropIndex ''ix_document_deletion_jobs_status'' ''document_deletion_jobs'',
      DropIndex ''ix_document_deletion_jobs_document_id'' ''document_deletion_jobs'',
      DropTable ''document_deletion_jobs'',
      DropIndex ''ix_ingestion_jobs_one_active_per_document'' ''ingestion_jobs'',
      DropTable ''ingestion_jobs'',
      DropIndex ''uq_documents_content_hash'' ''documents'',
      DropTable ''documents'',
      DropTable ''index_collections'']"

section \<open>What a schema accepts\<close>

datatype cell = VNull | VText ustr | VInt int | VBool bool | VTime time

type_synonym row = "string \<Rightarrow> cell"

fun fits_type :: "col_type \<Rightarrow> cell \<Rightarrow> bool" where
  "fits_type (Varchar n) (VText s) = (length s \<le> n)"
| "fits_type TextType (VText s) = True"
| "fits_type Integer4 (VInt i) = (- 2147483648 \<le> i \<and> i \<le> 2147483647)"
| "fits_type BooleanType (VBool b) = True"
| "fits_type Timestamptz (VTime t) = True"
| "fits_type t v = False"

definition column_ok :: "row \<Rightarrow> column \<Rightarrow> bool" where
  "column_ok r c \<longleftrightarrow> (if r (c_name c) = VNull then c_nullable c else fits_type (c_type c) (r (c_name c)))"

text \<open>Nulls are distinct from each other; a partial index sees the rows of its condition.\<close>

definition unique_on :: "string \<Rightarrow> (row \<Rightarrow> bool) \<Rightarrow> row list \<Rightarrow> bool" where
  "unique_on c p rows \<longleftrightarrow> distinct (map (\<lambda>r. r c) (filter (\<lambda>r. p r \<and> r c \<noteq> VNull) rows))"

definition table_ok :: "(string \<Rightarrow> row list) \<Rightarrow> table_def \<Rightarrow> bool" where
  "table_ok T t \<longleftrightarrow>
     list_all (\<lambda>r. list_all (column_ok r) (t_columns t)) (T (t_name t)) \<and>
     list_all (\<lambda>c. unique_on c (\<lambda>_. True) (T (t_name t))) (t_primary_key t # t_unique t) \<and>
     list_all (\<lambda>k. list_all (\<lambda>r. r (fk_column k) = VNull \<or> r (fk_column k) \<in> (\<lambda>q. q (fk_ref k)) ` set (T (fk_table k)))
       (T (t_name t))) (t_foreign_keys t)"

definition index_ok :: "(string \<Rightarrow> row list) \<Rightarrow> index_def \<Rightarrow> bool" where
  "index_ok T i \<longleftrightarrow> (if ix_unique i then
     unique_on (ix_column i) (\<lambda>r. case ix_statuses i of None \<Rightarrow> True | Some ss \<Rightarrow> r ''status'' \<in> (\<lambda>s. VText (uni s)) ` set ss)
       (T (ix_table i)) else True)"

definition satisfies :: "schema \<Rightarrow> (string \<Rightarrow> row list) \<Rightarrow> bool" where
  "satisfies sc T \<longleftrightarrow> list_all (table_ok T) (sc_tables sc) \<and> list_all (index_ok T) (sc_indexes sc)"

section \<open>The model's tables as rows\<close>

definition row :: "(string \<times> cell) list \<Rightarrow> row" where
  "row xs = (\<lambda>c. case map_of xs c of None \<Rightarrow> VNull | Some v \<Rightarrow> v)"

definition opt :: "('a \<Rightarrow> cell) \<Rightarrow> 'a option \<Rightarrow> cell" where
  "opt f v = (case v of None \<Rightarrow> VNull | Some x \<Rightarrow> f x)"

fun collection_status_value :: "collection_status \<Rightarrow> ustr" where
  "collection_status_value IcActive = uni ''active''"
| "collection_status_value IcRetired = uni ''retired''"

definition index_collection_row :: "index_collection \<Rightarrow> row" where
  "index_collection_row r = row
     [(''collection_name'', VText (ic_collection_name r)), (''embedding_provider'', VText (ic_embedding_provider r)),
      (''embedding_model'', VText (ic_embedding_model r)), (''embedding_dimension'', VInt (ic_embedding_dimension r)),
      (''embedding_version'', VText (ic_embedding_version r)), (''chunking_version'', VText (ic_chunking_version r)),
      (''status'', VText (collection_status_value (ic_status r))), (''created_at'', VTime (ic_created_at r))]"

definition document_row :: "document \<Rightarrow> row" where
  "document_row r = row
     [(''id'', VText (doc_id r)), (''original_filename'', VText (original_filename r)), (''stored_filename'', VText (stored_filename r)),
      (''content_type'', VText (content_type r)), (''file_size'', VInt (file_size r)), (''stored_path'', VText (stored_path r)),
      (''created_at'', VTime (doc_created_at r)), (''storage_provider'', opt VText (storage_provider r)),
      (''storage_bucket'', opt VText (storage_bucket r)), (''storage_key'', opt VText (storage_key r)),
      (''storage_etag'', opt VText (storage_etag r)), (''content_hash'', opt VText (content_hash r)),
      (''embedding_provider'', opt VText (embedding_provider r)), (''embedding_model'', opt VText (embedding_model r)),
      (''embedding_dimension'', opt VInt (embedding_dimension r)), (''embedding_version'', opt VText (embedding_version r)),
      (''chunking_version'', opt VText (chunking_version r)), (''collection_name'', opt VText (collection_name r)),
      (''indexed_at'', opt VTime (indexed_at r))]"

definition ingestion_row :: "ingestion_job \<Rightarrow> row" where
  "ingestion_row r = row
     [(''id'', VText (ing_id r)), (''document_id'', VText (ing_document_id r)), (''status'', VText (ingestion_status_value (ing_status r))),
      (''error_message'', opt VText (ing_error_message r)), (''created_at'', VTime (ing_created_at r)),
      (''updated_at'', VTime (ing_updated_at r))]"

definition deletion_row :: "deletion_job \<Rightarrow> row" where
  "deletion_row r = row
     [(''id'', VText (del_id r)), (''document_id'', VText (del_document_id r)), (''status'', VText (deletion_status_value (del_status r))),
      (''vector_cleanup_completed'', VBool (vector_cleanup_completed r)),
      (''storage_cleanup_completed'', VBool (storage_cleanup_completed r)), (''error_code'', opt VText (del_error_code r)),
      (''error_message'', opt VText (del_error_message r)), (''created_at'', VTime (del_created_at r)),
      (''updated_at'', VTime (del_updated_at r)), (''completed_at'', opt VTime (del_completed_at r))]"

definition reindex_row :: "reindex_job \<Rightarrow> row" where
  "reindex_row r = row
     [(''id'', VText (rix_id r)), (''document_id'', VText (rix_document_id r)),
      (''source_collection_name'', VText (source_collection_name r)), (''target_collection_name'', VText (target_collection_name r)),
      (''target_chunk_size'', VInt (target_chunk_size r)), (''target_chunk_overlap'', VInt (target_chunk_overlap r)),
      (''status'', VText (reindex_status_value (rix_status r))), (''error_message'', opt VText (rix_error_message r)),
      (''created_at'', VTime (rix_created_at r)), (''updated_at'', VTime (rix_updated_at r)),
      (''completed_at'', opt VTime (rix_completed_at r)), (''activated_at'', opt VTime (activated_at r))]"

definition cleanup_row :: "cleanup_job \<Rightarrow> row" where
  "cleanup_row r = row
     [(''id'', VText (vc_id r)), (''document_id'', VText (vc_document_id r)), (''collection_name'', VText (vc_collection_name r)),
      (''status'', VText (cleanup_status_value (vc_status r))), (''attempts'', VInt (attempts r)),
      (''last_error'', opt VText (last_error r)), (''created_at'', VTime (vc_created_at r)),
      (''completed_at'', opt VTime (vc_completed_at r))]"

definition tables_of :: "db \<Rightarrow> string \<Rightarrow> row list" where
  "tables_of d t =
     (if t = ''index_collections'' then map index_collection_row (index_collections d)
      else if t = ''documents'' then map document_row (documents d)
      else if t = ''ingestion_jobs'' then map ingestion_row (ingestion_jobs d)
      else if t = ''document_deletion_jobs'' then map deletion_row (deletion_jobs d)
      else if t = ''reindex_jobs'' then map reindex_row (reindex_jobs d)
      else if t = ''vector_cleanup_jobs'' then map cleanup_row (cleanup_jobs d) else [])"

lemma tables_of_simps [simp]:
  "tables_of d ''index_collections'' = map index_collection_row (index_collections d)"
  "tables_of d ''documents'' = map document_row (documents d)"
  "tables_of d ''ingestion_jobs'' = map ingestion_row (ingestion_jobs d)"
  "tables_of d ''document_deletion_jobs'' = map deletion_row (deletion_jobs d)"
  "tables_of d ''reindex_jobs'' = map reindex_row (reindex_jobs d)"
  "tables_of d ''vector_cleanup_jobs'' = map cleanup_row (cleanup_jobs d)"
  by (simp_all add: tables_of_def)

section \<open>The commit check is the schema's\<close>

lemma cells_ok [simp]:
  "column_ok r (col n (Varchar k)) \<longleftrightarrow> \<not> too_long k t" if "r n = VText t" for t
  using that by (auto simp: column_ok_def col_def too_long_def)

lemma cells_ok_opt [simp]:
  "column_ok r (null_col n (Varchar k)) \<longleftrightarrow> \<not> too_long_opt k t" if "r n = opt VText t" for t
  using that by (auto simp: column_ok_def null_col_def too_long_opt_def opt_def split: option.splits)

lemma cells_ok_int [simp]:
  "column_ok r (col n Integer4) \<longleftrightarrow> \<not> no_int4 i" if "r n = VInt i" for i
  using that by (auto simp: column_ok_def col_def no_int4_def)

lemma cells_ok_int_opt [simp]:
  "column_ok r (null_col n Integer4) \<longleftrightarrow> \<not> no_int4_opt i" if "r n = opt VInt i" for i
  using that by (auto simp: column_ok_def null_col_def no_int4_opt_def no_int4_def opt_def split: option.splits)

lemma cells_ok_free [simp]:
  "r n = VBool b \<Longrightarrow> column_ok r (col n BooleanType)" "r n = VTime t \<Longrightarrow> column_ok r (col n Timestamptz)"
  "r n = opt VTime u \<Longrightarrow> column_ok r (null_col n Timestamptz)" "r n = opt VText v \<Longrightarrow> column_ok r (null_col n TextType)"
  by (auto simp: column_ok_def col_def null_col_def opt_def split: option.splits)

lemma bad_column_None [simp]: "bad_column ((n, b) # cs) = None \<longleftrightarrow> \<not> b \<and> bad_column cs = None"
  by simp

lemma status_fits [simp]:
  "length (ingestion_status_value i) \<le> 20" "length (deletion_status_value k) \<le> 20" "length (reindex_status_value x) \<le> 20"
  "length (cleanup_status_value c) \<le> 20" "length (collection_status_value l) \<le> 20"
  using ingestion_status_value.elims [of i] deletion_status_value.elims [of k] reindex_status_value.elims [of x]
    cleanup_status_value.elims [of c] collection_status_value.elims [of l] by fastforce+

lemma status_cells [simp]:
  "\<not> too_long 20 (ingestion_status_value i)" "\<not> too_long 20 (deletion_status_value k)" "\<not> too_long 20 (reindex_status_value x)"
  "\<not> too_long 20 (cleanup_status_value c)" "\<not> too_long 20 (collection_status_value l)"
  by (simp_all add: too_long_def not_less)

lemma row_lookup [simp]: "row ((n, v) # xs) c = (if n = c then v else row xs c)" "row [] c = VNull"
  by (auto simp: row_def)

lemma index_collection_columns_row:
  "list_all (column_ok (index_collection_row r)) (t_columns index_collections_table) \<longleftrightarrow> index_collection_columns r = None"
  by (simp add: index_collection_row_def index_collections_table_def index_collection_columns_def del: bad_column.simps(2))

lemma document_columns_row: "list_all (column_ok (document_row r)) (t_columns documents_table) \<longleftrightarrow> document_columns r = None"
  by (simp add: document_row_def documents_table_def document_columns_def del: bad_column.simps(2))

lemma ingestion_columns_row: "list_all (column_ok (ingestion_row r)) (t_columns ingestion_jobs_table) \<longleftrightarrow> ingestion_columns r = None"
  by (simp add: ingestion_row_def ingestion_jobs_table_def ingestion_columns_def del: bad_column.simps(2))

lemma deletion_columns_row:
  "list_all (column_ok (deletion_row r)) (t_columns document_deletion_jobs_table) \<longleftrightarrow> deletion_columns r = None"
  by (simp add: deletion_row_def document_deletion_jobs_table_def deletion_columns_def del: bad_column.simps(2))

lemma reindex_columns_row: "list_all (column_ok (reindex_row r)) (t_columns reindex_jobs_table) \<longleftrightarrow> reindex_columns r = None"
  by (simp add: reindex_row_def reindex_jobs_table_def reindex_columns_def del: bad_column.simps(2))

lemma cleanup_columns_row: "list_all (column_ok (cleanup_row r)) (t_columns vector_cleanup_jobs_table) \<longleftrightarrow> cleanup_columns r = None"
  by (simp add: cleanup_row_def vector_cleanup_jobs_table_def cleanup_columns_def del: bad_column.simps(2))

lemma unique_text: "(\<And>x. f x c = VText (g x)) \<Longrightarrow> unique_on c p (map f xs) \<longleftrightarrow> distinct (map g (filter (\<lambda>x. p (f x)) xs))"
  by (simp add: unique_on_def distinct_map filter_map comp_def inj_on_def)

lemma unique_opt: "(\<And>x. f x c = opt VText (g x)) \<Longrightarrow> unique_on c (\<lambda>_. True) (map f xs) \<longleftrightarrow> distinct (List.map_filter g xs)"
proof -
  assume f: "\<And>x. f x c = opt VText (g x)"
  let ?ys = "filter (\<lambda>x. g x \<noteq> None) xs"
  have "filter (\<lambda>x. f x c \<noteq> VNull) xs = ?ys"
    by (rule filter_cong) (simp_all add: f opt_def split: option.splits)
  then have "unique_on c (\<lambda>_. True) (map f xs) \<longleftrightarrow> distinct (map (\<lambda>x. f x c) ?ys)"
    by (simp add: unique_on_def filter_map comp_def)
  also have "map (\<lambda>x. f x c) ?ys = map VText (map (the \<circ> g) ?ys)"
    by (auto simp: f opt_def)
  also have "distinct (map VText (map (the \<circ> g) ?ys)) \<longleftrightarrow> distinct (List.map_filter g xs)"
    by (simp only: distinct_map [of VText] map_filter_def) (simp add: inj_on_def)
  finally show ?thesis .
qed

lemma all_rows: "list_all P (map f xs) \<longleftrightarrow> (\<forall>x \<in> set xs. P (f x))"
  by (simp add: list_all_iff)

lemmas row_defs = index_collection_row_def document_row_def ingestion_row_def deletion_row_def reindex_row_def cleanup_row_def

lemma key_columns [simp]:
  "index_collection_row i ''collection_name'' = VText (ic_collection_name i)"
  "document_row r ''id'' = VText (doc_id r)" "document_row r ''stored_filename'' = VText (stored_filename r)"
  "document_row r ''collection_name'' = opt VText (collection_name r)" "document_row r ''content_hash'' = opt VText (content_hash r)"
  "ingestion_row j ''id'' = VText (ing_id j)" "ingestion_row j ''document_id'' = VText (ing_document_id j)"
  "ingestion_row j ''status'' = VText (ingestion_status_value (ing_status j))"
  "deletion_row k ''id'' = VText (del_id k)" "deletion_row k ''document_id'' = VText (del_document_id k)"
  "deletion_row k ''status'' = VText (deletion_status_value (del_status k))"
  "reindex_row x ''id'' = VText (rix_id x)" "reindex_row x ''document_id'' = VText (rix_document_id x)"
  "reindex_row x ''status'' = VText (reindex_status_value (rix_status x))"
  "reindex_row x ''source_collection_name'' = VText (source_collection_name x)"
  "reindex_row x ''target_collection_name'' = VText (target_collection_name x)"
  "cleanup_row c ''id'' = VText (vc_id c)" "cleanup_row c ''document_id'' = VText (vc_document_id c)"
  by (simp_all add: row_defs)

lemma active_ingestion [simp]:
  "VText (ingestion_status_value (ing_status j)) \<in> (\<lambda>s. VText (uni s)) ` set [''pending'', ''processing''] \<longleftrightarrow> ing_active j"
  by (cases "ing_status j") (simp_all add: ing_active_def)

lemma active_deletion [simp]:
  "VText (deletion_status_value (del_status k)) \<in> (\<lambda>s. VText (uni s)) ` set [''pending'', ''processing''] \<longleftrightarrow> del_active k"
  by (cases "del_status k") (simp_all add: del_active_def)

lemma active_reindex [simp]:
  "VText (reindex_status_value (rix_status x)) \<in> (\<lambda>s. VText (uni s)) ` set [''pending'', ''processing''] \<longleftrightarrow> rix_active x"
  by (cases "rix_status x") (simp_all add: rix_active_def)

lemma null_or_collection [simp]:
  "(opt VText x = VNull \<or> opt VText x \<in> (\<lambda>q. q ''collection_name'') ` index_collection_row ` C) \<longleftrightarrow>
   (\<forall>a. x = Some a \<longrightarrow> a \<in> ic_collection_name ` C)"
  by (cases x) (auto simp: opt_def image_iff)

lemma text_in_column [simp]:
  "VText a \<in> (\<lambda>q. q ''id'') ` document_row ` D \<longleftrightarrow> a \<in> doc_id ` D"
  "VText a \<in> (\<lambda>q. q ''collection_name'') ` index_collection_row ` C \<longleftrightarrow> a \<in> ic_collection_name ` C"
  by (auto simp: image_iff)

lemma table_checks:
  "table_ok (tables_of d) index_collections_table \<longleftrightarrow> check_index_collections d = None"
  "table_ok (tables_of d) documents_table \<and> unique_on ''content_hash'' (\<lambda>_. True) (map document_row (documents d)) \<longleftrightarrow> check_documents d = None"
  "table_ok (tables_of d) ingestion_jobs_table \<and> one_active ing_document_id ing_active (ingestion_jobs d) \<longleftrightarrow> check_ingestion_jobs d = None"
  "table_ok (tables_of d) document_deletion_jobs_table \<and> one_active del_document_id del_active (deletion_jobs d) \<longleftrightarrow> check_deletion_jobs d = None"
  "table_ok (tables_of d) reindex_jobs_table \<and> one_active rix_document_id rix_active (reindex_jobs d) \<longleftrightarrow> check_reindex_jobs d = None"
  "table_ok (tables_of d) vector_cleanup_jobs_table \<longleftrightarrow> check_cleanup_jobs d = None"
proof -
  note columns = index_collection_columns_row document_columns_row ingestion_columns_row deletion_columns_row reindex_columns_row
    cleanup_columns_row
  note unique = unique_text [where f = index_collection_row and c = "''collection_name''" and g = ic_collection_name]
    unique_text [where f = document_row and c = "''id''" and g = doc_id]
    unique_text [where f = document_row and c = "''stored_filename''" and g = stored_filename]
    unique_opt [where f = document_row and c = "''content_hash''" and g = content_hash]
    unique_text [where f = ingestion_row and c = "''id''" and g = ing_id] unique_text [where f = deletion_row and c = "''id''" and g = del_id]
    unique_text [where f = reindex_row and c = "''id''" and g = rix_id] unique_text [where f = cleanup_row and c = "''id''" and g = vc_id]
  have names: "t_name index_collections_table = ''index_collections''" "t_name documents_table = ''documents''"
    "t_name ingestion_jobs_table = ''ingestion_jobs''" "t_name document_deletion_jobs_table = ''document_deletion_jobs''"
    "t_name reindex_jobs_table = ''reindex_jobs''" "t_name vector_cleanup_jobs_table = ''vector_cleanup_jobs''"
    by (simp_all add: index_collections_table_def documents_table_def ingestion_jobs_table_def document_deletion_jobs_table_def
        reindex_jobs_table_def vector_cleanup_jobs_table_def)
  have keys: "t_primary_key index_collections_table = ''collection_name''" "t_unique index_collections_table = []"
    "t_foreign_keys index_collections_table = []"
    "t_primary_key documents_table = ''id''" "t_unique documents_table = [''stored_filename'']"
    "t_foreign_keys documents_table = [references ''collection_name'' ''index_collections'' ''collection_name'']"
    "t_primary_key ingestion_jobs_table = ''id''" "t_unique ingestion_jobs_table = []"
    "t_foreign_keys ingestion_jobs_table = [references ''document_id'' ''documents'' ''id'']"
    "t_primary_key document_deletion_jobs_table = ''id''" "t_unique document_deletion_jobs_table = []"
    "t_foreign_keys document_deletion_jobs_table = [references ''document_id'' ''documents'' ''id'']"
    "t_primary_key reindex_jobs_table = ''id''" "t_unique reindex_jobs_table = []"
    "t_foreign_keys reindex_jobs_table = [references ''document_id'' ''documents'' ''id'',
       references ''source_collection_name'' ''index_collections'' ''collection_name'',
       references ''target_collection_name'' ''index_collections'' ''collection_name'']"
    "t_primary_key vector_cleanup_jobs_table = ''id''" "t_unique vector_cleanup_jobs_table = []"
    "t_foreign_keys vector_cleanup_jobs_table = [references ''document_id'' ''documents'' ''id'']"
    by (simp_all add: index_collections_table_def documents_table_def ingestion_jobs_table_def document_deletion_jobs_table_def
        reindex_jobs_table_def vector_cleanup_jobs_table_def)
  have refs: "fk_column (references c t r) = c" "fk_table (references c t r) = t" "fk_ref (references c t r) = r" for c t r
    by (simp_all add: references_def)
  note defs = table_ok_def names keys refs all_rows columns unique tables_of_simps key_columns
    list.pred_inject fits_def check_None
  show "table_ok (tables_of d) index_collections_table \<longleftrightarrow> check_index_collections d = None"
    by (simp add: defs)
  show "table_ok (tables_of d) documents_table \<and> unique_on ''content_hash'' (\<lambda>_. True) (map document_row (documents d)) \<longleftrightarrow> check_documents d = None"
    by (auto simp: defs)
  show "table_ok (tables_of d) ingestion_jobs_table \<and> one_active ing_document_id ing_active (ingestion_jobs d) \<longleftrightarrow> check_ingestion_jobs d = None"
    by (auto simp: defs)
  show "table_ok (tables_of d) document_deletion_jobs_table \<and> one_active del_document_id del_active (deletion_jobs d) \<longleftrightarrow> check_deletion_jobs d = None"
    by (auto simp: defs)
  show "table_ok (tables_of d) reindex_jobs_table \<and> one_active rix_document_id rix_active (reindex_jobs d) \<longleftrightarrow> check_reindex_jobs d = None"
    by (auto simp: defs)
  show "table_ok (tables_of d) vector_cleanup_jobs_table \<longleftrightarrow> check_cleanup_jobs d = None"
    by (auto simp: defs)
qed

section \<open>The baseline and back\<close>

definition baseline :: schema where
  "baseline =
     \<lparr>sc_tables = [index_collections_table, documents_table, ingestion_jobs_table, document_deletion_jobs_table, reindex_jobs_table,
        vector_cleanup_jobs_table],
      sc_indexes = [\<lparr>ix_name = ''uq_documents_content_hash'', ix_table = ''documents'', ix_column = ''content_hash'',
          ix_unique = True, ix_statuses = None\<rparr>,
        one_active_index ''ix_ingestion_jobs_one_active_per_document'' ''ingestion_jobs'',
        plain_index ''ix_document_deletion_jobs_document_id'' ''document_deletion_jobs'' ''document_id'',
        plain_index ''ix_document_deletion_jobs_status'' ''document_deletion_jobs'' ''status'',
        one_active_index ''ix_document_deletion_jobs_one_active_per_document'' ''document_deletion_jobs'',
        plain_index ''ix_reindex_jobs_document_id'' ''reindex_jobs'' ''document_id'',
        plain_index ''ix_reindex_jobs_status'' ''reindex_jobs'' ''status'',
        one_active_index ''ix_reindex_jobs_one_active_per_document'' ''reindex_jobs'',
        plain_index ''ix_vector_cleanup_jobs_document_id'' ''vector_cleanup_jobs'' ''document_id'']\<rparr>"

lemmas table_defs = index_collections_table_def documents_table_def ingestion_jobs_table_def document_deletion_jobs_table_def
  reindex_jobs_table_def vector_cleanup_jobs_table_def one_active_index_def plain_index_def references_def col_def null_col_def

lemma upgrade_baseline: "apply_ops upgrade empty_schema = Some baseline"
  by (simp add: upgrade_def empty_schema_def baseline_def table_defs has_column_def keyed_column_def column_names_def)

lemma downgrade_baseline: "apply_ops downgrade baseline = Some empty_schema"
  by (simp add: downgrade_def empty_schema_def baseline_def table_defs)

lemma baseline_accepts: "satisfies baseline (tables_of d) \<longleftrightarrow> db_ok d"
proof -
  have active: "unique_on ''document_id'' (\<lambda>r. r ''status'' \<in> (\<lambda>s. VText (uni s)) ` set [''pending'', ''processing'']) (map ingestion_row (ingestion_jobs d))
      \<longleftrightarrow> one_active ing_document_id ing_active (ingestion_jobs d)"
    "unique_on ''document_id'' (\<lambda>r. r ''status'' \<in> (\<lambda>s. VText (uni s)) ` set [''pending'', ''processing'']) (map deletion_row (deletion_jobs d))
      \<longleftrightarrow> one_active del_document_id del_active (deletion_jobs d)"
    "unique_on ''document_id'' (\<lambda>r. r ''status'' \<in> (\<lambda>s. VText (uni s)) ` set [''pending'', ''processing'']) (map reindex_row (reindex_jobs d))
      \<longleftrightarrow> one_active rix_document_id rix_active (reindex_jobs d)"
    using unique_text [where f = ingestion_row and c = "''document_id''" and g = ing_document_id]
      unique_text [where f = deletion_row and c = "''document_id''" and g = del_document_id]
      unique_text [where f = reindex_row and c = "''document_id''" and g = rix_document_id]
    by (simp_all only: key_columns active_ingestion active_deletion active_reindex one_active_def)
  have plain: "index_ok (tables_of d) (plain_index n t c)" for n t c
    by (simp add: index_ok_def plain_index_def)
  have ix: "index_ok (tables_of d) (one_active_index n t) \<longleftrightarrow> unique_on ''document_id''
      (\<lambda>r. r ''status'' \<in> (\<lambda>s. VText (uni s)) ` set [''pending'', ''processing'']) (tables_of d t)" for n t
    by (simp only: index_ok_def one_active_index_def index_def.simps if_True option.case)
  have hash: "index_ok (tables_of d) \<lparr>ix_name = n, ix_table = t, ix_column = c, ix_unique = True, ix_statuses = None\<rparr> \<longleftrightarrow>
      unique_on c (\<lambda>_. True) (tables_of d t)" for n t c
    by (simp add: index_ok_def)
  show ?thesis
    unfolding satisfies_def baseline_def schema.simps list.pred_inject ix hash tables_of_simps active db_ok_checks
      table_checks [symmetric, of d]
    by (simp add: plain list.pred_inject) blast
qed

text \<open>C39: The migration is consistent: run on an empty database every statement of \<open>upgrade\<close> finds what it refers to,
  the schema it builds accepts exactly the databases the commit check of the model accepts (column types
  and lengths, keys, foreign keys, the unique content hash and the one active job of a document), and
  \<open>downgrade\<close> drops everything in an order no foreign key forbids and leaves nothing.\<close>

theorem migration_exact:
  "\<exists>sc. apply_ops upgrade empty_schema = Some sc \<and> (\<forall>d. satisfies sc (tables_of d) \<longleftrightarrow> db_ok d) \<and>
     apply_ops downgrade sc = Some empty_schema"
  using upgrade_baseline downgrade_baseline baseline_accepts by blast

end
