(* ===== verification/Stage_Zero.thy ===== *)
theory Stage_Zero
  imports Answering Cursor_Text Chunker
begin

text \<open>
  The Stage 0 evaluation of generated knowledge (\<open>scripts/generated_knowledge_stage0\<close>): the records of
  \<open>models.py\<close>, the prompt of \<open>prompt.py\<close>, the validation of the model's output (\<open>validation.py\<close>) and the run
  over the sample documents (\<open>run.py\<close>).  A validation appends its issues to a list: a definition returns
  the issues it appends, in order, with its result.  The text of a JSON syntax error is the argument
  \<open>json_error\<close>, the time a generation took the argument \<open>duration\<close>.  The output stream is the argument
  \<open>emit\<close>, which may refuse a line.  Left out: the lines that \<open>main\<close> prints around the results, but for the numbers
  of the summary, and the interpreter's limits on nesting and on the digits of a number.
\<close>

section \<open>Records\<close>

record generated_summary =
  gs_text :: ustr
  gs_source_chunk_ids :: "ustr list"

record generated_entity =
  ge_name :: ustr
  ge_description :: ustr
  ge_source_chunk_ids :: "ustr list"

record generated_claim =
  gc_text :: ustr
  gc_source_chunk_ids :: "ustr list"

record generated_knowledge =
  gk_document_id :: ustr
  gk_summary :: generated_summary
  gk_entities :: "generated_entity list"
  gk_claims :: "generated_claim list"

record stage0_document =
  sd_document_id :: ustr
  sd_chunks :: "document_chunk list"

record stage0_result =
  sr_document_id :: ustr
  sr_source_language :: supported_language
  sr_generation_succeeded :: bool
  sr_parse_succeeded :: bool
  sr_language_fidelity_ok :: "bool option"
  sr_generation_error :: "ustr option"
  sr_parse_issues :: "ustr list"
  sr_language_issues :: "ustr list"
  sr_raw_output :: "ustr option"
  sr_knowledge :: "generated_knowledge option"
  sr_duration_seconds :: time

section \<open>The prompt\<close>

text \<open>A text in which backquotes stand for double quotes.\<close>

definition quoted_text :: "string \<Rightarrow> ustr" where
  "quoted_text s = map (\<lambda>c. if c = 96 then 34 else c) (uni s)"

definition output_schema_example :: ustr where
  "output_schema_example = join [10] (map quoted_text
     [''{'',
      ''  `summary`: {`text`: `...`, `source_chunk_ids`: [`chunk-1`]},'',
      ''  `entities`: ['',
      ''    {`name`: `...`, `description`: `...`, `source_chunk_ids`: [`chunk-1`]}'',
      ''  ],'',
      ''  `claims`: ['',
      ''    {`text`: `...`, `source_chunk_ids`: [`chunk-1`, `chunk-2`]}'',
      ''  ]'',
      ''}''])"

definition general_instructions :: ustr where
  "general_instructions =
        uni ''You are extracting a small, strictly source-grounded knowledge layer from a single document's t'' @
        uni ''ext chunks. Follow these rules exactly:'' @ [10] @ uni ''1. Use ONLY the supplied chunks. Never invent, assume, or infer a fact that the chunks do not a'' @
        uni ''ctually state '' @ [8212] @ uni '' this includes relationships between entities that merely appear in the same document. If two t'' @
        uni ''hings are mentioned but no relationship between them is stated, do not claim one exists.'' @ [10] @ uni ''2. If the source is ambiguous or incomplete about something, do not resolve the ambiguity yours'' @
        uni ''elf '' @ [8212] @ uni '' omit the uncertain detail rather than guessing.'' @ [10] @ uni ''3. Every summary, entity, and claim must cite the exact chunk_id(s) (from the supplied chunks b'' @
        uni ''elow) that support it. Never cite a chunk_id that was not supplied.'' @ [10] @ uni ''4. The summary must be concise (2-4 sentences) and must not introduce any fact not present in t'' @
        uni ''he chunks.'' @ [10] @ uni ''5. Entities/topics must be meaningful concepts (e.g. a named service, system, policy, or role) '' @ [8212] @ uni '' not every noun in the text. Keep the list small. Entities are OPTIONAL: if this document conta'' @
        uni ''ins no meaningful named entity or topic worth extracting, return an empty entities array. Never'' @
        uni '' invent a generic or placeholder entity, and never emit an entity object with an empty name or '' @
        uni ''empty description merely to fill the array '' @ [8212] @ uni '' an empty array is a correct, expected answer for some documents.'' @ [10] @ uni ''6. Claims are natural-language sentences, never a subject/predicate/object triple and never a g'' @
        uni ''raph structure. A claim may combine information from more than one chunk of this same document '' @
        uni ''when the chunks together genuinely support it, but never combine chunks into a claim the chunks'' @
        uni '' do not actually establish together.''"

definition language_directive_he :: ustr where
  "language_directive_he =
        uni ''SOURCE LANGUAGE: Hebrew'' @ [10, 10] @ uni ''Generate ALL summary, entity descriptions, and claims in Hebrew. Do not translate the source in'' @
        uni ''to English. Entity names that are proper nouns, API names, product names, event names, or code '' @
        uni ''identifiers may remain in their original form.''"

definition language_directive_en :: ustr where
  "language_directive_en =
        uni ''SOURCE LANGUAGE: English'' @ [10, 10] @ uni ''Generate ALL summary, entity descriptions, and claims in English.''"

definition entities_optional_directive :: ustr where
  "entities_optional_directive =
        quoted_text ''ENTITIES ARE OPTIONAL: if nothing in this document is a meaningful named entity or topic, respo'' @
        quoted_text ''nd with `entities`: []. An empty array is a valid, correct answer. Never invent a generic place'' @
        quoted_text ''holder, and never emit an entity object with an empty name or empty description merely to satis'' @
        quoted_text ''fy the schema.''"

fun get_language_directive :: "supported_language \<Rightarrow> ustr" where
  "get_language_directive HE = language_directive_he"
| "get_language_directive EN = language_directive_en"

definition format_chunks :: "document_chunk list \<Rightarrow> ustr" where
  "format_chunks chunks = join [10, 10] (map (\<lambda>c. chunk_id c @ uni '':'' @ [10] @ chunk_text c) chunks)"

definition build_stage0_prompt :: "document_chunk list \<Rightarrow> supported_language \<Rightarrow> ustr" where
  "build_stage0_prompt chunks language =
     general_instructions @ [10, 10] @ get_language_directive language @ [10, 10] @
     entities_optional_directive @ [10, 10] @
     uni ''Respond with ONLY a single JSON object matching this exact shape '' @ [8212] @
     uni '' no markdown code fences, no commentary before or after it:'' @ [10] @ output_schema_example @ [10, 10] @
     uni ''Document chunks:'' @ [10, 10] @ format_chunks chunks"

section \<open>Reading the output\<close>

text \<open>The search for \<open>```(?:json)?\s*(\{.*\})\s*```\<close>: \<open>fence_body\<close> is the greedy part, the longest prefix that
  ends in a brace with a closing fence after it.\<close>

definition fence :: ustr where
  "fence = [96, 96, 96]"

fun fence_body :: "ustr \<Rightarrow> ustr option" where
  "fence_body [] = None"
| "fence_body (c # cs) =
     (case fence_body cs of
        Some b \<Rightarrow> Some (c # b)
      | None \<Rightarrow> if c = 125 \<and> take 3 (dropWhile py_space cs) = fence then Some [c] else None)"

definition fence_at :: "ustr \<Rightarrow> ustr option" where
  "fence_at s =
     (if take 3 s \<noteq> fence then None
      else let r = drop 3 s in
        (case dropWhile py_space (if take 4 r = uni ''json'' then drop 4 r else r) of
           [] \<Rightarrow> None | c # cs \<Rightarrow> if c = 123 then map_option ((#) c) (fence_body cs) else None))"

fun fence_search :: "ustr \<Rightarrow> ustr option" where
  "fence_search [] = None"
| "fence_search (c # cs) = (case fence_at (c # cs) of Some b \<Rightarrow> Some b | None \<Rightarrow> fence_search cs)"

definition extract_json_object :: "ustr \<Rightarrow> ustr" where
  "extract_json_object raw = (case fence_search raw of Some b \<Rightarrow> b | None \<Rightarrow> py_strip raw)"

text \<open>The loop over the cited ids: what is seen is what is in \<open>normalized\<close>.  The left value is the one issue
  that is appended.\<close>

fun normalize_loop :: "ustr \<Rightarrow> ustr set \<Rightarrow> ustr list \<Rightarrow> payload list \<Rightarrow> ustr + ustr list" where
  "normalize_loop label allowed normalized [] = Inr normalized"
| "normalize_loop label allowed normalized (PString i # ids) =
     (if py_strip i = [] then Inl (label @ uni '': source_chunk_ids must contain only non-empty strings'')
      else if i \<notin> allowed then
        Inl (label @ uni '': cites unknown chunk_id '' @ py_repr i @ uni '' not present in this document'')
      else normalize_loop label allowed (if i \<in> set normalized then normalized else normalized @ [i]) ids)"
| "normalize_loop label allowed normalized (_ # ids) =
     Inl (label @ uni '': source_chunk_ids must contain only non-empty strings'')"

definition normalize_chunk_ids :: "payload option \<Rightarrow> ustr \<Rightarrow> ustr set \<Rightarrow> ustr + ustr list" where
  "normalize_chunk_ids raw label allowed = (case raw of
     Some (PArray ids) \<Rightarrow>
       if ids = [] then Inl (label @ uni '': source_chunk_ids must be a non-empty array'')
       else normalize_loop label allowed [] ids
   | _ \<Rightarrow> Inl (label @ uni '': source_chunk_ids must be a non-empty array''))"

definition non_empty_text :: "payload option \<Rightarrow> ustr option" where
  "non_empty_text raw = (case raw of Some (PString t) \<Rightarrow> if py_strip t = [] then None else Some t | _ \<Rightarrow> None)"

definition issue :: "'a option \<Rightarrow> ustr \<Rightarrow> ustr list" where
  "issue v i = (case v of None \<Rightarrow> [i] | Some _ \<Rightarrow> [])"

definition ids_issues :: "ustr + ustr list \<Rightarrow> ustr list" where
  "ids_issues r = (case r of Inl i \<Rightarrow> [i] | Inr _ \<Rightarrow> [])"

definition validate_record_dict ::
  "payload option \<Rightarrow> ustr \<Rightarrow> ustr set \<Rightarrow> string \<Rightarrow> ustr list \<times> (ustr \<times> ustr list) option" where
  "validate_record_dict raw label allowed text_field = (case raw of
     Some (PObject kvs) \<Rightarrow>
       let t = non_empty_text (payload_field kvs text_field);
           ids = normalize_chunk_ids (payload_field kvs ''source_chunk_ids'') label allowed in
       (issue t (label @ uni '': '' @ py_repr (uni text_field) @ uni '' must be a non-empty string'') @ ids_issues ids,
        (case (t, ids) of (Some t', Inr ids') \<Rightarrow> Some (t', ids') | _ \<Rightarrow> None))
   | _ \<Rightarrow> ([label @ uni '': must be a JSON object''], None))"

definition index_label :: "string \<Rightarrow> nat \<Rightarrow> ustr" where
  "index_label name i = uni name @ uni ''['' @ dec i @ uni '']''"

definition quoted :: "string \<Rightarrow> ustr" where
  "quoted s = [39] @ uni s @ [39]"

definition validate_entity_dict :: "payload \<Rightarrow> nat \<Rightarrow> ustr set \<Rightarrow> ustr list \<times> generated_entity option" where
  "validate_entity_dict raw i allowed = (
     let label = index_label ''entities'' i in
     case raw of
       PObject kvs \<Rightarrow>
         let n = non_empty_text (payload_field kvs ''name'');
             d = non_empty_text (payload_field kvs ''description'');
             ids = normalize_chunk_ids (payload_field kvs ''source_chunk_ids'') label allowed in
         (issue n (label @ uni '': '' @ quoted ''name'' @ uni '' must be a non-empty string'') @
          issue d (label @ uni '': '' @ quoted ''description'' @ uni '' must be a non-empty string'') @ ids_issues ids,
          (case (n, d, ids) of
             (Some n', Some d', Inr ids') \<Rightarrow> Some \<lparr>ge_name = n', ge_description = d', ge_source_chunk_ids = ids'\<rparr>
           | _ \<Rightarrow> None))
     | _ \<Rightarrow> ([label @ uni '': must be a JSON object''], None))"

fun validate_entities :: "ustr set \<Rightarrow> nat \<Rightarrow> payload list \<Rightarrow> ustr list \<times> generated_entity list" where
  "validate_entities allowed i [] = ([], [])"
| "validate_entities allowed i (r # rs) =
     (let (js, e) = validate_entity_dict r i allowed; (ks, es) = validate_entities allowed (Suc i) rs in
      (js @ ks, (case e of None \<Rightarrow> es | Some e' \<Rightarrow> e' # es)))"

fun validate_claims :: "ustr set \<Rightarrow> nat \<Rightarrow> payload list \<Rightarrow> ustr list \<times> generated_claim list" where
  "validate_claims allowed i [] = ([], [])"
| "validate_claims allowed i (r # rs) =
     (let (js, c) = validate_record_dict (Some r) (index_label ''claims'' i) allowed ''text'';
          (ks, cs) = validate_claims allowed (Suc i) rs in
      (js @ ks, (case c of None \<Rightarrow> cs | Some (t, ids) \<Rightarrow> \<lparr>gc_text = t, gc_source_chunk_ids = ids\<rparr> # cs)))"

definition json_array :: "payload option \<Rightarrow> payload list option" where
  "json_array raw = (case raw of Some (PArray rs) \<Rightarrow> Some rs | _ \<Rightarrow> None)"

text \<open>From the parsed object on; the left value is the list of issues of the \<open>Stage0ValidationError\<close>.\<close>

definition validate_payload :: "(ustr \<times> payload) list \<Rightarrow> ustr \<Rightarrow> ustr set \<Rightarrow> ustr list + generated_knowledge" where
  "validate_payload kvs doc allowed =
     (let (s_issues, summary) = validate_record_dict (payload_field kvs ''summary'') (uni ''summary'') allowed ''text'';
          entities_raw = json_array (payload_field kvs ''entities'');
          claims_raw = json_array (payload_field kvs ''claims'');
          (e_issues, entities) = validate_entities allowed 0 (case entities_raw of None \<Rightarrow> [] | Some rs \<Rightarrow> rs);
          (c_issues, claims) = validate_claims allowed 0 (case claims_raw of None \<Rightarrow> [] | Some rs \<Rightarrow> rs);
          issues = s_issues @ issue entities_raw (quoted ''entities'' @ uni '' must be a JSON array'') @
            issue claims_raw (quoted ''claims'' @ uni '' must be a JSON array'') @ e_issues @ c_issues in
      if issues \<noteq> [] then Inl issues
      else (case summary of
          None \<Rightarrow> Inl []
        | Some (t, ids) \<Rightarrow> Inr \<lparr>gk_document_id = doc, gk_summary = \<lparr>gs_text = t, gs_source_chunk_ids = ids\<rparr>,
            gk_entities = entities, gk_claims = claims\<rparr>))"

definition parse_and_validate :: "(ustr \<Rightarrow> ustr) \<Rightarrow> ustr \<Rightarrow> ustr \<Rightarrow> ustr set \<Rightarrow> ustr list + generated_knowledge" where
  "parse_and_validate json_error raw doc allowed =
     (case json_loads (extract_json_object raw) of
        None \<Rightarrow> Inl [uni ''output is not valid JSON: '' @ json_error (extract_json_object raw)]
      | Some (PObject kvs) \<Rightarrow> validate_payload kvs doc allowed
      | Some _ \<Rightarrow> Inl [uni ''top-level output must be a JSON object''])"

section \<open>Language fidelity\<close>

text \<open>\<open>detect\<close> fails only when the configured default language is not a supported one.\<close>

definition fidelity_issue :: "(ustr \<Rightarrow> exn + supported_language) \<Rightarrow> supported_language \<Rightarrow> ustr \<Rightarrow> ustr \<Rightarrow> exn + ustr list" where
  "fidelity_issue detector expected what t = (case detector t of
     Inl e \<Rightarrow> Inl e
   | Inr l \<Rightarrow> Inr (if l = expected then []
       else [what @ uni '' does not match expected language '' @ py_repr (language_value expected) @ uni '': '' @ py_repr t]))"

fun collect :: "(exn + ustr list) list \<Rightarrow> exn + ustr list" where
  "collect [] = Inr []"
| "collect (r # rs) = (case r of Inl e \<Rightarrow> Inl e | Inr is \<Rightarrow> (case collect rs of Inl e \<Rightarrow> Inl e | Inr js \<Rightarrow> Inr (is @ js)))"

definition check_language_fidelity ::
  "(ustr \<Rightarrow> exn + supported_language) \<Rightarrow> generated_knowledge \<Rightarrow> supported_language \<Rightarrow> exn + ustr list" where
  "check_language_fidelity detector k expected = collect (
     [fidelity_issue detector expected (uni ''summary text'') (gs_text (gk_summary k))] @
     map (\<lambda>(i, e). fidelity_issue detector expected (index_label ''entities'' i @ uni '' description'') (ge_description e))
       (enumerate 0 (gk_entities k)) @
     map (\<lambda>(i, c). fidelity_issue detector expected (index_label ''claims'' i @ uni '' text'') (gc_text c))
       (enumerate 0 (gk_claims k)))"

section \<open>The run\<close>

definition make_document :: "ustr \<Rightarrow> ustr list \<Rightarrow> stage0_document" where
  "make_document document_id texts =
     \<lparr>sd_document_id = document_id,
      sd_chunks = map (\<lambda>(i, t). \<lparr>chk_document_id = document_id, chunk_id = document_id @ uni ''-'' @ dec i, chunk_text = t,
        chunk_index = i, chk_page_number = None, chk_sheet_name = None\<rparr>) (enumerate 0 texts)\<rparr>"

definition sample_documents :: "stage0_document list" where
  "sample_documents =
     [make_document (uni ''en-payment-reconciliation'')
       [uni ''Payment Service is a backend microservice responsible for processing customer payments. After a'' @
        uni '' payment is successfully processed, Payment Service publishes a PaymentCompleted event to the m'' @
        uni ''essage bus.'',
        uni ''Reconciliation Service subscribes to the message bus and consumes PaymentCompleted events. It u'' @
        uni ''ses these events to match incoming payments against expected invoices and flag any discrepancie'' @
        uni ''s.''],
      make_document (uni ''he-vacation-policy'')
       [[1502, 1491, 1497, 1504, 1497, 1493, 1514, 32, 1492, 1495, 1493, 1508, 1513, 1492, 32, 1513, 1500, 32, 1492, 1495, 1489, 1512,
        1492, 32, 1511, 1493, 1489, 1506, 1514, 32, 1499, 1497, 32, 1499, 1500, 32, 1506, 1493, 1489, 1491, 32, 1489, 1502, 1513, 1512,
        1492, 32, 1502, 1500, 1488, 1492, 32, 1494, 1499, 1488, 1497, 32, 1500, 45, 50, 49, 32, 1497, 1502, 1497, 32, 1495, 1493, 1508,
        1513, 1492, 32, 1489, 1513, 1504, 1492, 46],
        [1497, 1502, 1497, 32, 1495, 1493, 1508, 1513, 1492, 32, 1513, 1500, 1488, 32, 1504, 1493, 1510, 1500, 1493, 32, 1506, 1491, 32,
        1505, 1493, 1507, 32, 1492, 1513, 1504, 1492, 32, 1492, 1511, 1500, 1504, 1491, 1512, 1497, 1514, 32, 1504, 1497, 1514, 1504,
        1497, 1501, 32, 1500, 1492, 1506, 1489, 1512, 1492, 32, 1500, 1513, 1504, 1492, 32, 1492, 1489, 1488, 1492, 44, 32, 1506, 1491,
        32, 1500, 1502, 1511, 1505, 1497, 1502, 1493, 1501, 32, 1513, 1500, 32, 53, 32, 1497, 1502, 1497, 1501, 46]],
      make_document (uni ''en-unrelated-services'')
       [uni ''Service A is a Java-based service that persists all customer records in a PostgreSQL database.'',
        uni ''Service B is a Node.js service that publishes analytics events to a Kafka topic for downstream '' @
        uni ''processing.''],
      make_document (uni ''en-cooccurring-teams'')
       [uni ''The Platform Team maintains the internal developer tooling used across the engineering organiza'' @
        uni ''tion. The Growth Team runs experiments on the marketing website to improve conversion rates. Bo'' @
        uni ''th teams report into the VP of Engineering, but their roadmaps are managed independently.''],
      make_document (uni ''he-order-notification'')
       [[1513, 1497, 1512, 1493, 1514, 32, 1492, 45, 78, 111, 116, 105, 102, 105, 99, 97, 116, 105, 111, 110, 32, 1488, 1495, 1512, 1488,
        1497, 32, 1506, 1500, 32, 1513, 1500, 1497, 1495, 1514, 32, 1492, 1514, 1512, 1488, 1493, 1514, 32, 1500, 1502, 1513, 1514, 1502,
        1513, 1497, 1501, 32, 1489, 1488, 1502, 1510, 1506, 1493, 1514, 32, 1491, 1493, 1488, 34, 1500, 32, 1493, 45, 83, 77, 83, 46],
        [1513, 1497, 1512, 1493, 1514, 32, 1492, 45, 79, 114, 100, 101, 114, 32, 1502, 1508, 1512, 1505, 1501, 32, 1488, 1497, 1512, 1493,
        1506, 32, 79, 114, 100, 101, 114, 83, 104, 105, 112, 112, 101, 100, 32, 1489, 1499, 1500, 32, 1508, 1506, 1501, 32, 1513, 1492,
        1494, 1502, 1504, 1492, 32, 1504, 1513, 1500, 1495, 1514, 44, 32, 1493, 1513, 1497, 1512, 1493, 1514, 32, 1492, 45, 78, 111, 116,
        105, 102, 105, 99, 97, 116, 105, 111, 110, 32, 1502, 1488, 1494, 1497, 1503, 32, 1500, 1488, 1497, 1512, 1493, 1506, 32, 1494,
        1492, 32, 1499, 1491, 1497, 32, 1500, 1513, 1500, 1493, 1495, 32, 1492, 1514, 1512, 1488, 1514, 32, 1502, 1513, 1500, 1493, 1495,
        32, 1500, 1502, 1513, 1514, 1502, 1513, 46]]]"

definition run_document :: "(ustr \<Rightarrow> ustr) \<Rightarrow> (exn \<Rightarrow> ustr) \<Rightarrow> (ustr \<Rightarrow> ('l, exn, ustr) call) \<Rightarrow>
    (ustr \<Rightarrow> exn + supported_language) \<Rightarrow> time \<Rightarrow> stage0_document \<Rightarrow> ('l, exn, stage0_result) call" where
  "run_document json_error exn_text generate detector duration doc st =
     (case detector (join [32] (map chunk_text (sd_chunks doc))) of
        Inl e \<Rightarrow> (Inl e, st)
      | Inr source_language \<Rightarrow>
          let result = \<lparr>sr_document_id = sd_document_id doc, sr_source_language = source_language,
                sr_generation_succeeded = True, sr_parse_succeeded = True, sr_language_fidelity_ok = None,
                sr_generation_error = None, sr_parse_issues = [], sr_language_issues = [], sr_raw_output = None,
                sr_knowledge = None, sr_duration_seconds = duration\<rparr> in
          (case generate (build_stage0_prompt (sd_chunks doc) source_language) st of
             (Inl e, st') \<Rightarrow> (Inr (result\<lparr>sr_generation_succeeded := False, sr_parse_succeeded := False,
               sr_generation_error := Some (exn_text e)\<rparr>), st')
           | (Inr raw, st') \<Rightarrow>
               (case parse_and_validate json_error raw (sd_document_id doc) (set (map chunk_id (sd_chunks doc))) of
                  Inl issues \<Rightarrow> (Inr (result\<lparr>sr_parse_succeeded := False, sr_parse_issues := issues,
                    sr_raw_output := Some raw\<rparr>), st')
                | Inr k \<Rightarrow>
                    (case check_language_fidelity detector k source_language of
                       Inl e \<Rightarrow> (Inl e, st')
                     | Inr is \<Rightarrow> (Inr (result\<lparr>sr_language_fidelity_ok := Some (is = []), sr_language_issues := is,
                         sr_raw_output := Some raw, sr_knowledge := Some k\<rparr>), st')))))"

text \<open>The \<open>repr\<close> of a tuple of texts.\<close>

definition repr_tuple :: "ustr list \<Rightarrow> ustr" where
  "repr_tuple xs = [40] @ join (uni '', '') (map py_repr xs) @ (if length xs = 1 then [44] else []) @ [41]"

definition bullet :: "ustr \<Rightarrow> ustr" where
  "bullet t = uni ''  - '' @ t"

text \<open>The lines \<open>_print_result\<close> prints; \<open>fmt\<close> renders the duration.\<close>

definition print_result :: "(time \<Rightarrow> ustr) \<Rightarrow> stage0_result \<Rightarrow> exn + ustr list" where
  "print_result fmt r =
     (let head = uni ''=== '' @ sr_document_id r @ uni '' (lang='' @ language_value (sr_source_language r) @ uni '', '' @
            fmt (sr_duration_seconds r) @ uni ''s) ===''
      in if \<not> sr_generation_succeeded r then
           Inr [head, uni ''GENERATION FAILED: '' @ (case sr_generation_error r of None \<Rightarrow> uni ''None'' | Some e \<Rightarrow> e), []]
         else if \<not> sr_parse_succeeded r then
           Inr ([head, uni ''PARSE FAILED:''] @ map bullet (sr_parse_issues r) @
             [uni ''--- raw output ---'', (case sr_raw_output r of None \<Rightarrow> uni ''None'' | Some t \<Rightarrow> t), []])
         else (case sr_knowledge r of
             None \<Rightarrow> Inl AssertionError
           | Some k \<Rightarrow> Inr ([head] @
               (if sr_language_fidelity_ok r \<noteq> Some True then uni ''LANGUAGE FIDELITY FAILED:'' # map bullet (sr_language_issues r) else []) @
               [uni ''summary: '' @ gs_text (gk_summary k),
                uni ''  sources: '' @ repr_tuple (gs_source_chunk_ids (gk_summary k)),
                uni ''entities ('' @ dec (length (gk_entities k)) @ uni ''):''] @
               map (\<lambda>e. bullet (ge_name e @ uni '': '' @ ge_description e @ uni ''  sources='' @ repr_tuple (ge_source_chunk_ids e)))
                 (gk_entities k) @
               [uni ''claims ('' @ dec (length (gk_claims k)) @ uni ''):''] @
               map (\<lambda>c. bullet (gc_text c @ uni ''  sources='' @ repr_tuple (gc_source_chunk_ids c))) (gk_claims k) @ [[]])))"

text \<open>\<open>emit\<close> puts one line on the standard output, or fails: a text with a lone surrogate, which the JSON of a model may
  contain, has no encoding.\<close>

fun print_lines :: "(ustr \<Rightarrow> exn option) \<Rightarrow> ustr list \<Rightarrow> exn option" where
  "print_lines emit [] = None"
| "print_lines emit (l # ls) = (case emit l of Some e \<Rightarrow> Some e | None \<Rightarrow> print_lines emit ls)"

fun run_all :: "(ustr \<Rightarrow> ustr) \<Rightarrow> (exn \<Rightarrow> ustr) \<Rightarrow> (ustr \<Rightarrow> ('l, exn, ustr) call) \<Rightarrow> (ustr \<Rightarrow> exn + supported_language) \<Rightarrow>
    time \<Rightarrow> (time \<Rightarrow> ustr) \<Rightarrow> (ustr \<Rightarrow> exn option) \<Rightarrow> stage0_document list \<Rightarrow> ('l, exn, stage0_result list) call" where
  "run_all json_error exn_text generate detector duration fmt emit [] st = (Inr [], st)"
| "run_all json_error exn_text generate detector duration fmt emit (d # ds) st =
     (case run_document json_error exn_text generate detector duration d st of
        (Inl e, st') \<Rightarrow> (Inl e, st')
      | (Inr r, st') \<Rightarrow>
          (case print_result fmt r of
             Inl e \<Rightarrow> (Inl e, st')
           | Inr ls \<Rightarrow>
               (case print_lines emit ls of
                  Some e \<Rightarrow> (Inl e, st')
                | None \<Rightarrow>
                    (case run_all json_error exn_text generate detector duration fmt emit ds st' of
                       (Inl e, st'') \<Rightarrow> (Inl e, st'') | (Inr rs, st'') \<Rightarrow> (Inr (r # rs), st'')))))"

definition count_of :: "('a \<Rightarrow> bool) \<Rightarrow> 'a list \<Rightarrow> nat" where
  "count_of p xs = length (filter p xs)"

text \<open>The exit code of \<open>main\<close>: the three counts of failures decide it.\<close>

definition stage0_exit_code :: "stage0_result list \<Rightarrow> int" where
  "stage0_exit_code results =
     (let generation_failures = count_of (\<lambda>r. \<not> sr_generation_succeeded r) results;
          parse_failures = count_of (\<lambda>r. sr_generation_succeeded r \<and> \<not> sr_parse_succeeded r) results;
          language_failures = count_of (\<lambda>r. sr_language_fidelity_ok r = Some False) results in
      if generation_failures \<noteq> 0 \<or> parse_failures \<noteq> 0 \<or> language_failures \<noteq> 0 then 1 else 0)"

definition stage0_main :: "(ustr \<Rightarrow> ustr) \<Rightarrow> (exn \<Rightarrow> ustr) \<Rightarrow> (settings \<Rightarrow> ustr \<Rightarrow> ('l, exn, ustr) call) \<Rightarrow>
    (nat \<Rightarrow> bool) \<Rightarrow> time \<Rightarrow> (time \<Rightarrow> ustr) \<Rightarrow> (ustr \<Rightarrow> exn option) \<Rightarrow> settings \<Rightarrow> ('l, exn, int) call" where
  "stage0_main json_error exn_text ollama uw duration fmt emit s st =
     (case get_llm_provider ollama s of
        Inl e \<Rightarrow> (Inl e, st)
      | Inr generate \<Rightarrow>
          (case run_all json_error exn_text generate (detect uw s) duration fmt emit sample_documents st of
             (Inl e, st') \<Rightarrow> (Inl e, st') | (Inr rs, st') \<Rightarrow> (Inr (stage0_exit_code rs), st')))"

section \<open>What the validation guarantees\<close>

definition grounded_ids :: "ustr set \<Rightarrow> ustr list \<Rightarrow> bool" where
  "grounded_ids allowed ids \<longleftrightarrow> ids \<noteq> [] \<and> distinct ids \<and> set ids \<subseteq> allowed \<and> list_all (\<lambda>i. py_strip i \<noteq> []) ids"

definition grounded :: "ustr set \<Rightarrow> generated_knowledge \<Rightarrow> bool" where
  "grounded allowed k \<longleftrightarrow>
     py_strip (gs_text (gk_summary k)) \<noteq> [] \<and> grounded_ids allowed (gs_source_chunk_ids (gk_summary k)) \<and>
     list_all (\<lambda>e. py_strip (ge_name e) \<noteq> [] \<and> py_strip (ge_description e) \<noteq> [] \<and> grounded_ids allowed (ge_source_chunk_ids e))
       (gk_entities k) \<and>
     list_all (\<lambda>c. py_strip (gc_text c) \<noteq> [] \<and> grounded_ids allowed (gc_source_chunk_ids c)) (gk_claims k)"


lemma normalize_loop_written:
  assumes "list_all (\<lambda>i. py_strip i \<noteq> []) ids" "set ids \<subseteq> allowed" "distinct (acc @ ids)"
  shows "normalize_loop label allowed acc (map PString ids) = Inr (acc @ ids)"
  using assms by (induction ids arbitrary: acc) auto


lemma normalize_written:
  "grounded_ids allowed ids \<Longrightarrow> normalize_chunk_ids (Some (PArray (map PString ids))) label allowed = Inr ids"
  using normalize_loop_written [of ids allowed "[]" label] by (simp add: normalize_chunk_ids_def grounded_ids_def)


lemma non_empty_text_written: "py_strip t \<noteq> [] \<Longrightarrow> non_empty_text (Some (PString t)) = Some t"
  by (simp add: non_empty_text_def)











section \<open>What a model may write\<close>

definition ids_payload :: "ustr list \<Rightarrow> payload" where
  "ids_payload ids = PArray (map PString ids)"

definition record_payload :: "ustr \<Rightarrow> ustr list \<Rightarrow> payload" where
  "record_payload t ids = PObject [(uni ''text'', PString t), (uni ''source_chunk_ids'', ids_payload ids)]"

definition entity_payload :: "generated_entity \<Rightarrow> payload" where
  "entity_payload e = PObject [(uni ''name'', PString (ge_name e)), (uni ''description'', PString (ge_description e)),
     (uni ''source_chunk_ids'', ids_payload (ge_source_chunk_ids e))]"

definition knowledge_fields :: "generated_knowledge \<Rightarrow> (ustr \<times> payload) list" where
  "knowledge_fields k =
     [(uni ''summary'', record_payload (gs_text (gk_summary k)) (gs_source_chunk_ids (gk_summary k))),
      (uni ''entities'', PArray (map entity_payload (gk_entities k))),
      (uni ''claims'', PArray (map (\<lambda>c. record_payload (gc_text c) (gc_source_chunk_ids c)) (gk_claims k)))]"

lemma record_written:
  "py_strip t \<noteq> [] \<Longrightarrow> grounded_ids allowed ids \<Longrightarrow>
   validate_record_dict (Some (record_payload t ids)) label allowed ''text'' = ([], Some (t, ids))"
  by (simp add: validate_record_dict_def record_payload_def payload_field_def non_empty_text_written ids_payload_def
      normalize_written issue_def ids_issues_def Let_def)

lemma entity_written:
  "py_strip (ge_name e) \<noteq> [] \<Longrightarrow> py_strip (ge_description e) \<noteq> [] \<Longrightarrow> grounded_ids allowed (ge_source_chunk_ids e) \<Longrightarrow>
   validate_entity_dict (entity_payload e) i allowed = ([], Some e)"
  by (simp add: validate_entity_dict_def entity_payload_def payload_field_def non_empty_text_written ids_payload_def
      normalize_written issue_def ids_issues_def Let_def)

lemma entities_written:
  "list_all (\<lambda>e. py_strip (ge_name e) \<noteq> [] \<and> py_strip (ge_description e) \<noteq> [] \<and> grounded_ids allowed (ge_source_chunk_ids e)) es \<Longrightarrow>
   validate_entities allowed i (map entity_payload es) = ([], es)"
  by (induction es arbitrary: i) (simp_all add: entity_written Let_def)

lemma claims_written:
  "list_all (\<lambda>c. py_strip (gc_text c) \<noteq> [] \<and> grounded_ids allowed (gc_source_chunk_ids c)) cs \<Longrightarrow>
   validate_claims allowed i (map (\<lambda>c. record_payload (gc_text c) (gc_source_chunk_ids c)) cs) = ([], cs)"
  by (induction cs arbitrary: i) (simp_all add: record_written Let_def)

lemma knowledge_written:
  assumes "grounded allowed k"
  shows "validate_payload (knowledge_fields k) (gk_document_id k) allowed = Inr k"
  using assms
  by (simp add: validate_payload_def knowledge_fields_def payload_field_def json_array_def grounded_def record_written
      entities_written claims_written issue_def Let_def)

text \<open>A fenced object is found whatever stands between its outer braces.\<close>

lemma fence_body_last:
  "fence_body (b @ 125 # 10 # fence) = Some (b @ [125])"
proof (induction b)
  case Nil
  show ?case by (simp add: fence_def py_space_def)
qed simp

lemma fenced_object:
  "extract_json_object (fence @ uni ''json'' @ [10, 123] @ b @ [125, 10] @ fence) = 123 # b @ [125]"
proof -
  have "fence_at (fence @ uni ''json'' @ [10, 123] @ b @ [125, 10] @ fence) = Some (123 # b @ [125])"
    using fence_body_last [of b] by (simp add: fence_at_def fence_def uni_def py_space_def)
  moreover have "\<exists>t. fence @ r = 96 # t" for r by (simp add: fence_def)
  ultimately show ?thesis
    by (metis (no_types, lifting) extract_json_object_def fence_search.simps(2) option.simps(5))
qed

section \<open>What a run reports\<close>





lemma fidelity_issue_total: "detector t = Inr l \<Longrightarrow> \<exists>js. fidelity_issue detector expected w t = Inr js"
  by (simp add: fidelity_issue_def)







text \<open>How the fields of a result of \<open>run_document\<close> hang together.\<close>

definition consistent_result :: "stage0_result \<Rightarrow> bool" where
  "consistent_result r \<longleftrightarrow> (sr_parse_succeeded r \<longrightarrow> sr_generation_succeeded r) \<and>
     (sr_parse_succeeded r \<longleftrightarrow> sr_knowledge r \<noteq> None) \<and> (sr_parse_succeeded r \<longleftrightarrow> sr_language_fidelity_ok r \<noteq> None)"

lemma run_document_consistent:
  "run_document je xt generate detector duration doc st = (Inr r, st') \<Longrightarrow> consistent_result r"
  by (auto simp: run_document_def consistent_result_def Let_def split: sum.splits prod.splits)










text \<open>A name or a number alone in a summary has no word of either script: the fallback language counts, so that a
  Hebrew document is found unfaithful where the default language is English.\<close>

lemma no_words_unfaithful:
  assumes "find_words uw t = []" "default_language s = Inr EN" "gs_text (gk_summary k) = t"
    "check_language_fidelity (detect uw s) k HE = Inr is"
  shows "is \<noteq> []"
proof -
  have "detect uw s t = Inr EN" using assms by (simp add: detect_def)
  with assms show ?thesis
    by (auto simp: check_language_fidelity_def fidelity_issue_def split: sum.splits)
qed

section \<open>The summary\<close>

text \<open>The numbers of the closing summary.\<close>

record stage0_summary =
  su_documents :: nat
  su_generation_failures :: nat
  su_parse_failures :: nat
  su_language_failures :: nat
  su_successes :: nat
  su_summaries :: nat
  su_entities :: nat
  su_claims :: nat

definition knowledge_of :: "stage0_result list \<Rightarrow> generated_knowledge list" where
  "knowledge_of rs = List.map_filter sr_knowledge rs"

definition summarise :: "stage0_result list \<Rightarrow> stage0_summary" where
  "summarise results =
     \<lparr>su_documents = length results,
      su_generation_failures = count_of (\<lambda>r. \<not> sr_generation_succeeded r) results,
      su_parse_failures = count_of (\<lambda>r. sr_generation_succeeded r \<and> \<not> sr_parse_succeeded r) results,
      su_language_failures = count_of (\<lambda>r. sr_language_fidelity_ok r = Some False) results,
      su_successes = count_of (\<lambda>r. sr_parse_succeeded r \<and> sr_language_fidelity_ok r = Some True) results,
      su_summaries = length (knowledge_of results),
      su_entities = sum_list (map (length \<circ> gk_entities) (knowledge_of results)),
      su_claims = sum_list (map (length \<circ> gk_claims) (knowledge_of results))\<rparr>"

lemma run_all_consistent:
  "run_all je xt generate detector duration fmt emit docs st = (Inr rs, st') \<Longrightarrow> list_all consistent_result rs"
  by (induction docs arbitrary: st rs) (auto split: sum.splits prod.splits option.splits dest: run_document_consistent)

text \<open>The four outcomes of the closing summary partition the documents; as many documents succeed or fail only in their
  language as have knowledge.\<close>

lemma summary_adds_up:
  assumes "list_all consistent_result rs"
  shows "su_documents (summarise rs) = su_generation_failures (summarise rs) + su_parse_failures (summarise rs) +
      su_language_failures (summarise rs) + su_successes (summarise rs) \<and>
    su_summaries (summarise rs) = su_language_failures (summarise rs) + su_successes (summarise rs)"
  using assms
proof (induction rs)
  case Nil
  show ?case by (simp add: summarise_def count_of_def knowledge_of_def map_filter_simps)
next
  case (Cons r rs)
  then have IH: "length rs = count_of (\<lambda>r. \<not> sr_generation_succeeded r) rs +
      count_of (\<lambda>r. sr_generation_succeeded r \<and> \<not> sr_parse_succeeded r) rs +
      count_of (\<lambda>r. sr_language_fidelity_ok r = Some False) rs + count_of (\<lambda>r. sr_parse_succeeded r \<and> sr_language_fidelity_ok r = Some True) rs"
    "length (knowledge_of rs) = count_of (\<lambda>r. sr_language_fidelity_ok r = Some False) rs +
      count_of (\<lambda>r. sr_parse_succeeded r \<and> sr_language_fidelity_ok r = Some True) rs" and c: "consistent_result r"
    by (simp_all add: summarise_def)
  consider (gen) "\<not> sr_generation_succeeded r" "\<not> sr_parse_succeeded r" "sr_knowledge r = None" "sr_language_fidelity_ok r = None"
    | (parse) "sr_generation_succeeded r" "\<not> sr_parse_succeeded r" "sr_knowledge r = None" "sr_language_fidelity_ok r = None"
    | (known) k b where "sr_generation_succeeded r" "sr_parse_succeeded r" "sr_knowledge r = Some k" "sr_language_fidelity_ok r = Some b"
    using c by (auto simp: consistent_result_def)
  then show ?case
    using IH by cases (auto simp: summarise_def count_of_def knowledge_of_def map_filter_simps)
qed

lemma exit_code_summary: "stage0_exit_code rs = 0 \<longleftrightarrow> su_generation_failures (summarise rs) = 0 \<and>
    su_parse_failures (summarise rs) = 0 \<and> su_language_failures (summarise rs) = 0"
  by (simp add: stage0_exit_code_def summarise_def Let_def)

end
