(* ===== verification/Storage_Setup.thy ===== *)
theory Storage_Setup
  imports Providers Local_Storage
begin

text \<open>
  How \<open>app/storage\<close> is put together: the options with which \<open>MinioFileStorage.__init__\<close> builds the SDK's
  client, and the test helper \<open>_cleanup_test_objects\<close>.  The SDK's constructor and its batch deletion are
  arguments.  Settings that were validated always give a storage, and what it stores can be read back.
\<close>

section \<open>The client of the MinIO provider\<close>

text \<open>The counters of \<open>urllib3.Retry\<close>; \<open>None\<close> in \<open>rt_total\<close> leaves the other counters to decide.\<close>

record retry_counters =
  rt_total :: "nat option"
  rt_connect :: nat
  rt_read :: nat
  rt_redirect :: nat
  rt_status :: nat
  rt_other :: nat

record client_options =
  co_endpoint :: "ustr option"
  co_access_key :: "ustr option"
  co_secret_key :: "ustr option"
  co_secure :: bool
  co_region :: "ustr option"
  co_connect_timeout :: rat
  co_read_timeout :: rat
  co_maxsize :: nat
  co_cert_reqs :: ustr
  co_ca_certs :: ustr
  co_retries :: retry_counters

definition minio_client_options :: "ustr option \<Rightarrow> ustr \<Rightarrow> settings \<Rightarrow> client_options" where
  "minio_client_options ssl_cert_file certifi_where s =
     \<lparr>co_endpoint = minio_endpoint s, co_access_key = minio_access_key s, co_secret_key = minio_secret_key s,
      co_secure = minio_secure s, co_region = minio_region s,
      co_connect_timeout = minio_timeout_seconds s, co_read_timeout = minio_timeout_seconds s, co_maxsize = 10,
      co_cert_reqs = uni ''CERT_REQUIRED'', co_ca_certs = or_default ssl_cert_file certifi_where,
      co_retries = \<lparr>rt_total = None, rt_connect = 0, rt_read = 0, rt_redirect = 1, rt_status = 0, rt_other = 0\<rparr>\<rparr>"

definition build_minio :: "(client_options \<Rightarrow> 's s3_client) \<Rightarrow> (rat \<Rightarrow> 's \<Rightarrow> 's) \<Rightarrow> ustr option \<Rightarrow> ustr \<Rightarrow> settings \<Rightarrow>
    storage_exn + 's minio" where
  "build_minio sdk pause ssl_cert_file certifi_where s =
     new_minio (minio_endpoint s) (minio_bucket s) (\<lambda>bucket.
       \<lparr>mc_client = sdk (minio_client_options ssl_cert_file certifi_where s), mc_bucket = bucket,
        mc_expiry_seconds = minio_presigned_url_expiry_seconds s,
        mc_create_bucket_if_missing = minio_create_bucket_if_missing s, mc_policy = provider_policy s, mc_pause = pause\<rparr>)"

text \<open>The iterator of errors the SDK returns is exhausted and dropped: a key that could not be deleted is not
  reported.\<close>

definition cleanup_test_objects :: "(ustr \<Rightarrow> ustr list \<Rightarrow> ('s, raw_exn, 'err list) call) \<Rightarrow> 's minio \<Rightarrow> ustr list \<Rightarrow>
    ('s, exn, unit) call" where
  "cleanup_test_objects remove_objects m keys s =
     (case remove_objects (mc_bucket m) keys s of
        (Inl e, s') \<Rightarrow> (Inl (raw_to_exn e), s')
      | (Inr errors, s') \<Rightarrow> (Inr (), s'))"

section \<open>From settings to a storage\<close>

text \<open>A failed request to MinIO is never repeated by the HTTP library: the retry loop of the provider is the
  only one, whatever the settings say.\<close>

lemma single_retry_layer:
  "let r = co_retries (minio_client_options f w s) in
   rt_total r = None \<and> rt_connect r = 0 \<and> rt_read r = 0 \<and> rt_status r = 0 \<and> rt_other r = 0 \<and> rt_redirect r = 1"
  by (simp add: minio_client_options_def)

lemma validated_storage:
  assumes "new_settings sf s = Inr s'"
  obtains "create_file_storage (build_minio sdk pause f w) s = Inr (UseLocal (local_storage_root s))"
    | m where "create_file_storage (build_minio sdk pause f w) s = Inr (UseMinio m)"
        "minio_bucket s = Some (mc_bucket m)" "mc_bucket m \<noteq> []" "1 \<le> max_attempts (mc_policy m)"
        "mc_client m = sdk (minio_client_options f w s)"
proof (cases "file_storage_provider s = uni ''local''")
  case True
  with that(1) show thesis by (simp add: create_file_storage_def)
next
  case False
  then have p: "file_storage_provider s = uni ''minio''" using validated_fields(8) [OF assms] by simp
  obtain e b where "minio_endpoint s = Some e" "e \<noteq> []" and b: "minio_bucket s = Some b" "b \<noteq> []"
    using validated_minio [OF assms p] by (auto simp: absent_def)
  then obtain m where "build_minio sdk pause f w s = Inr m" "mc_bucket m = b" "mc_policy m = provider_policy s"
      "mc_client m = sdk (minio_client_options f w s)"
    by (simp add: build_minio_def new_minio_def)
  with p b that(2) [of m] validated_fields(1) [OF assms] show thesis
    by (simp add: create_file_storage_def provider_policy_def)
qed

end
