(* ===== verification/Spec2Isabelle.thy ===== *)
theory Spec2Isabelle
  imports App_Boundary Audit_Grading Chat Document_Routes Embedding_Smoke Lifecycle Operator_Scripts Platform_Health Reconciliation_Routes Reindex_Routes Schema_Migration Stage_Zero Storage_Setup
begin

text \<open>
  A verification development for documents-rag, a Python service that stores uploaded documents, indexes their
  chunks in a vector store and answers questions from them.

  \<^bold>\<open>The system.\<close>  An upload (\<open>app/services/documents/upload_service.py\<close>) stores the bytes in object storage and
  commits a document with a pending ingestion job.  The ingestion worker extracts the text, splits it into
  chunks, embeds them and upserts one point per chunk into the collection the embedding configuration names.
  A re-index builds a second collection, an activation switches the document to it and leaves a cleanup job
  for the one it vacated; a deletion job removes all vectors, then the object.  The four kinds of jobs are
  tables of one PostgreSQL database, claimed with \<open>SELECT ... FOR UPDATE SKIP LOCKED\<close>; a retry and a stale
  recovery replace failed and abandoned ingestion jobs.  Questions are routed by regular expressions, and a
  retrieval question is answered by a language model over the chunks found.  An audit compares the three
  stores without changing them.  Health endpoints, operator scripts, the baseline migration and an offline
  evaluation of generated knowledge surround this core.

  \<^bold>\<open>How the code is represented.\<close>  Classes and dataclasses are records, enums are datatypes with the source's
  members, dictionaries are maps or association lists, texts are lists of code points (\<open>ustr\<close>), bytes are
  8-bit words, timestamps are integer microseconds.  A call is a function from a state to a result and a state,
  \<open>('s, 'e, 'a) call\<close>; an exception is the left side of the result (\<open>exn\<close> in \<open>Exceptions\<close>, one constructor per
  class with the message the code builds).  An asynchronous generator is the list of the events it yields, the
  exception it ends with and the state.  The database is a record of six tables (\<open>Models\<close>); \<open>commit\<close> checks every
  constraint of the schema and either installs the new state or raises the constraint's name.  What other
  sessions commit between two statements of an operation is an argument \<open>env\<close>, one function on databases per
  gap, the gap between a rejected commit and the reload that follows it included; only looking up a collection's
  row and inserting it is one step, and \<open>ingestion_keeps_resolved_jobs\<close> is about a run alone.  Rows locked by
  others are a predicate.  A session's objects keep their values over a commit (the activation route decides on
  the job as it read it first), and a flush writes the changed columns only.  Identifiers and clock readings are
  arguments.

  \<^bold>\<open>Theories, from the ground up.\<close>

  \<^item> \<open>Prelude\<close>: Python strings, tables of rows, the uniqueness of active jobs.  \<open>Exceptions\<close>: the exceptions and
    \<open>repr\<close>.  \<open>Http\<close>: answers of routes.  \<open>Retry\<close>: \<open>app/core/retry.py\<close> and the classification of transient
    failures.  \<open>Config\<close>, \<open>Embedding_Config\<close>: \<open>app/core/config.py\<close> and the identity of an index
    (\<open>app/rag/embedding_config.py\<close>); validated settings suffice for everything built from them.
  \<^item> \<open>Models\<close>, \<open>Lookups\<close>, \<open>World\<close>: \<open>app/models\<close>, the queries the services share, the state the workers run on.
    \<open>Schema_Migration\<close>: the baseline migration, shown to build exactly the schema \<open>Models\<close> checks.
  \<^item> \<open>Storage\<close>, \<open>Local_Storage\<close>, \<open>Minio_Storage\<close>, \<open>Storage_Setup\<close>: keys and the contract of object storage (locale
    \<open>file_store\<close>), its two providers, and the factory.  The contract is proved of the local provider over a
    file system that may fail at any call, and of the MinIO provider from the documented laws of S3 (locale
    \<open>s3_server\<close>), which an in-memory server that fails at any call satisfies.
  \<^item> \<open>Vector_Store\<close>, \<open>Qdrant\<close>, \<open>Mem_Index\<close>: the contract of the vector store (locale \<open>vector_index\<close>) and the Qdrant
    adapter: requests, batches and the translation of errors.  The adapter satisfies the contract over any
    server with Qdrant's documented behaviour (locale \<open>qdrant_server\<close>), which an in-memory server satisfies.
  \<^item> \<open>Providers\<close>, \<open>Text_Extraction\<close>, \<open>Chunker\<close>, \<open>Collection_Registry\<close>, \<open>Ingestion_Worker\<close>: from stored bytes to an
    indexed document.  The chunks are the words of the text, a completed job means an indexed document, a run
    keeps the database valid and every resolved job.  Point identifiers are hashes (uuid5), of which nothing is
    assumed: \<open>chunks_held\<close> says that under the identifier of every chunk lies a chunk with that identifier.
  \<^item> \<open>Ingestion_Retry\<close>, \<open>Deletion_Service\<close>, \<open>Deletion_Worker\<close>, \<open>Vector_Cleanup\<close>: retries, stale recovery, deletion and
    the cleanup of vacated collections: one active job per document under any interference, vectors strictly
    before the object, draining of the queue and its starvation.
  \<^item> \<open>Reindex_Scheduling\<close>, \<open>Reindex_Build\<close>, \<open>Reindex_Worker\<close>, \<open>Reindex_Activation\<close>, \<open>Reindex_Inspection\<close>,
    \<open>Reindex_Routes\<close>: the re-index cycle and its endpoints; activation refines one atomic switch, the worker resolves
    every job but those whose registry row is unreadable, and the inspection's hints are the services' answers.
  \<^item> \<open>Content_Hash\<close>, \<open>Upload\<close>, \<open>Query_Service\<close>, \<open>Document_Routes\<close>: SHA-256 deduplication, upload and download, the
    views of documents and jobs and the document endpoints with the download header.
  \<^item> \<open>Effects\<close>, \<open>Lifecycle\<close>: what each whole operation does to the tables, and the step relation of the system, with
    its invariants by rule induction and the interleaving of two requests that breaks the main one.
  \<^item> \<open>Decision\<close>, \<open>Prompting\<close>, \<open>Answering\<close>, \<open>Engines\<close>, \<open>Chat\<close>: routing of a question (the regular expressions written
    out as matchers and compared with a specification free of them, with word boundaries in English and none in
    Hebrew), the fixed answers and instructions in the language of the question, retrieval, the language model's
    stream, the orchestrator, the two engines and the event stream of the chat endpoint.
  \<^item> \<open>Document_Audit\<close>, \<open>Audit_Grading\<close>, \<open>Cursor_Text\<close>, \<open>Audit_Batch\<close>, \<open>Collection_Report\<close>, \<open>Reconciliation_Routes\<close>: the
    read-only audits: a document's findings are exactly those that rows and stores warrant, paging visits documents in order and
    none twice, and the cursor's text (Base64 of JSON, with the JSON reader written out) round-trips.
  \<^item> \<open>Platform_Health\<close>, \<open>App_Boundary\<close>, \<open>Operator_Scripts\<close>: health endpoints, with every way in which a check can raise;
    middlewares, exception handlers, lifespan and logging, for plain, streamed and broken responses and for
    preflights; the scripts that drain the queues and stop on a signal.
  \<^item> \<open>Stage_Zero\<close>, \<open>Embedding_Smoke\<close>: the evaluation of generated knowledge and the check of the embedding model.

  \<^bold>\<open>What is shown.\<close>  Invariants hold under arbitrary interference where the code protects them
  (\<open>deletion_request_single_active\<close>, \<open>upload_single_owner\<close>, \<open>schedule_reindex_single_active\<close>,
  \<open>retry_ingestion_converges\<close>) and over all histories of whole operations (\<open>deletion_excludes_work\<close>).  Functional
  properties say what an answer, a job status or an HTTP status means about the stores
  (\<open>completed_ingestion_is_indexed\<close>, \<open>audit_reports_truth\<close>, \<open>activation_route_truth\<close>, \<open>readiness_truth\<close>).  Protocol
  properties fix the order of events and of calls (\<open>answer_protocol\<close>, \<open>chat_protocol\<close>, \<open>deletion_order\<close>).  Formats
  round-trip (\<open>cursor_round_trip\<close>, \<open>content_disposition_exact\<close>, \<open>upload_download_round_trip\<close>).  Each property with a
  hypothesis is followed by its application to a concrete input.  Some lemmas record where the code falls
  short of its documentation: \<open>lost_retry_fails\<close>, \<open>deletion_races_retry\<close>, \<open>embedding_model_override_ignored\<close>,
  \<open>collection_name_collision\<close>, \<open>ingestion_long_error_stuck\<close>, \<open>deletion_long_error_stuck\<close>, \<open>cleanup_starvation\<close>,
  \<open>newline_suffix_key\<close>, \<open>hebrew_verb_inside_word\<close>, \<open>health_check_raises\<close>, \<open>no_words_unfaithful\<close>.

  \<^bold>\<open>Termination and fuel.\<close>  The loops of the code recurse on a list, on a bounded counter (attempts, the hundred
  jobs of a script run) or with a proved measure.  The JSON reader carries fuel, twice the length of the text
  plus two; every reader consumes text, so that more fuel never changes a result (\<open>parse_fuel\<close> in \<open>Cursor_Text\<close>).

  \<^bold>\<open>Parameters.\<close>  Code outside the repository is an argument: HTTP clients and their servers, the MinIO SDK, the
  PDF, DOCX and XLSX readers, LangChain, the framework's router and CORS middleware, Unicode's word characters
  above ASCII, and the texts of library exceptions.  What is relied on of it is stated as a hypothesis or a
  locale, and instantiated.

  \<^bold>\<open>Not modelled.\<close>  Log output and printing, except the fields of a log line and the report of the evaluation; the parsing of
  environment variables into settings and their process-wide cache (pydantic); the Alembic environment
  (\<open>alembic/env.py\<close>) and package initialisers, which only configure or re-export; the limits of the interpreter on
  recursion and digits; cancellation of a request between two awaits; the rounding of binary floating point,
  for which rational or real numbers stand.  The ingestion worker has no entry point in the repository but its
  tests: its runs are steps of the model like those of the other workers.
\<close>

end
